(* ===== verification/DK_Prelude.thy ===== *)
theory DK_Prelude
  imports Complex_Main
begin

text \<open>
  Shared vocabulary of the development: 64-bit integers, the parts of Go's \<open>strconv\<close>,
  \<open>fmt\<close> and \<open>strings\<close> packages that the code uses, and database tables as lists of rows
  with the statements \<open>UPDATE ... WHERE\<close>, \<open>COUNT\<close> and \<open>SUM\<close> over them.
  The collection \<open>table_simps\<close> holds the facts that evaluate a count after an update.
\<close>

named_theorems table_simps "counting rows after a table update"

section \<open>Integers, times and durations\<close>

text \<open>
  A Go \<open>time.Time\<close> is the number of nanoseconds since Go's zero time, so \<open>IsZero\<close> is a
  comparison with 0. A \<open>time.Duration\<close> is a number of nanoseconds in an \<open>int64\<close>.
\<close>

type_synonym time = int
type_synonym duration = int

definition zero_time :: time where
  "zero_time = 0"

definition wrap64 :: "int \<Rightarrow> int" where
  "wrap64 n = (n + 2 ^ 63) mod 2 ^ 64 - 2 ^ 63"

abbreviation in_int64 :: "int \<Rightarrow> bool" where
  "in_int64 n \<equiv> - (2 ^ 63) \<le> n \<and> n < 2 ^ 63"

lemma wrap64_id: "in_int64 n \<Longrightarrow> wrap64 n = n"
  by (simp add: wrap64_def)

lemma wrap64_in_range: "in_int64 (wrap64 n)"
proof -
  have "0 \<le> (n + 2 ^ 63) mod 2 ^ 64" and "(n + 2 ^ 63) mod 2 ^ 64 < 2 ^ 64"
    by simp_all
  then show ?thesis by (simp add: wrap64_def)
qed

text \<open>Go's integer division truncates towards zero.\<close>

definition go_div :: "int \<Rightarrow> int \<Rightarrow> int" where
  "go_div a b = sgn a * sgn b * (\<bar>a\<bar> div \<bar>b\<bar>)"

lemma go_div_nonneg: "0 \<le> a \<Longrightarrow> 0 < b \<Longrightarrow> go_div a b = a div b"
  by (cases "a = 0") (auto simp: go_div_def)

definition nanosecond :: duration where
  "nanosecond = 1"

definition millisecond :: duration where
  "millisecond = 1000000"

definition second :: duration where
  "second = 1000000000"

definition minute :: duration where
  "minute = 60000000000"

definition hour :: duration where
  "hour = 3600000000000"

lemmas duration_defs = nanosecond_def millisecond_def second_def minute_def hour_def

section \<open>Strings\<close>

text \<open>A Go string is a sequence of bytes; \<open>bytes\<close> writes one out that is not ASCII.\<close>

definition bytes :: "nat list \<Rightarrow> string" where
  "bytes ns = map char_of ns"

definition has_prefix :: "string \<Rightarrow> string \<Rightarrow> bool" where
  "has_prefix p s \<longleftrightarrow> take (length p) s = p"

definition has_suffix :: "string \<Rightarrow> string \<Rightarrow> bool" where
  "has_suffix p s \<longleftrightarrow> has_prefix (rev p) (rev s)"

definition trim_prefix :: "string \<Rightarrow> string \<Rightarrow> string" where
  "trim_prefix p s = (if has_prefix p s then drop (length p) s else s)"

fun contains :: "string \<Rightarrow> string \<Rightarrow> bool" where
  "contains [] sub \<longleftrightarrow> sub = []"
| "contains (x # xs) sub \<longleftrightarrow> has_prefix sub (x # xs) \<or> contains xs sub"

lemma has_prefix_append [simp]: "has_prefix p (p @ s)"
  by (simp add: has_prefix_def)

lemma has_prefix_iff: "has_prefix p s \<longleftrightarrow> (\<exists>r. s = p @ r)"
  by (metis append_eq_conv_conj append_take_drop_id has_prefix_def)

lemma trim_prefix_append [simp]: "trim_prefix p (p @ s) = s"
  by (simp add: trim_prefix_def)

lemma contains_iff: "contains s sub \<longleftrightarrow> (\<exists>a b. s = a @ sub @ b)"
proof (induction s)
  case Nil
  then show ?case by simp
next
  case (Cons x xs)
  show ?case
  proof
    assume "contains (x # xs) sub"
    then consider "has_prefix sub (x # xs)" | "contains xs sub" by auto
    then show "\<exists>a b. x # xs = a @ sub @ b"
    proof cases
      case 1
      then show ?thesis by (metis append_Nil has_prefix_iff)
    next
      case 2
      then show ?thesis using Cons.IH by (metis append_Cons)
    qed
  next
    assume "\<exists>a b. x # xs = a @ sub @ b"
    then obtain a b where eq: "x # xs = a @ sub @ b" by blast
    then show "contains (x # xs) sub"
    proof (cases a)
      case Nil
      with eq show ?thesis by (metis append_Nil contains.simps(2) has_prefix_append)
    next
      case (Cons y ys)
      with eq have "xs = ys @ sub @ b" by simp
      with Cons.IH show ?thesis by auto
    qed
  qed
qed

text \<open>\<open>%q\<close> on a text of ASCII characters and printable others.\<close>

definition hex_digit :: "nat \<Rightarrow> char" where
  "hex_digit n = (if n < 10 then char_of (48 + n) else char_of (87 + n))"

definition quote_char :: "char \<Rightarrow> string" where
  "quote_char c =
     (let n = of_char c :: nat; bs = CHR 0x5C
      in if n = 0x22 \<or> n = 0x5C then [bs, c]
         else if n = 7 then [bs, CHR ''a''] else if n = 8 then [bs, CHR ''b''] else if n = 12 then [bs, CHR ''f'']
         else if n = 10 then [bs, CHR ''n''] else if n = 13 then [bs, CHR ''r''] else if n = 9 then [bs, CHR ''t'']
         else if n = 11 then [bs, CHR ''v'']
         else if n < 32 \<or> n = 127 then [bs, CHR ''x'', hex_digit (n div 16), hex_digit (n mod 16)]
         else [c])"

definition go_quote :: "string \<Rightarrow> string" where
  "go_quote s = CHR 0x22 # concat (map quote_char s) @ [CHR 0x22]"

text \<open>\<open>strings.Split\<close> with a one-byte separator.\<close>

fun split_on :: "char \<Rightarrow> string \<Rightarrow> string list" where
  "split_on c [] = [[]]"
| "split_on c (x # xs) =
     (if x = c then [] # split_on c xs
      else case split_on c xs of [] \<Rightarrow> [[x]] | y # ys \<Rightarrow> (x # y) # ys)"

lemma split_on_no_sep: "c \<notin> set xs \<Longrightarrow> split_on c xs = [xs]"
  by (induction xs) auto

lemma split_on_append: "c \<notin> set xs \<Longrightarrow> split_on c (xs @ c # ys) = xs # split_on c ys"
  by (induction xs) auto

text \<open>
  \<open>strings.TrimSpace\<close> on UTF-8 text: the byte sequences of the characters with Unicode's
  White\_Space property, cut off at both ends.
\<close>

definition space_seqs :: "string list" where
  "space_seqs = map bytes
     [[9], [10], [11], [12], [13], [32], [194, 133], [194, 160], [225, 154, 128],
      [226, 128, 128], [226, 128, 129], [226, 128, 130], [226, 128, 131], [226, 128, 132],
      [226, 128, 133], [226, 128, 134], [226, 128, 135], [226, 128, 136], [226, 128, 137],
      [226, 128, 138], [226, 128, 168], [226, 128, 169], [226, 128, 175], [226, 129, 159],
      [227, 128, 128]]"

definition strip_one :: "string list \<Rightarrow> string \<Rightarrow> string option" where
  "strip_one ps s = map_option (\<lambda>p. drop (length p) s) (find (\<lambda>p. p \<noteq> [] \<and> has_prefix p s) ps)"

lemma strip_one_shorter: "strip_one ps s = Some r \<Longrightarrow> length r < length s"
proof -
  assume "strip_one ps s = Some r"
  then obtain p where p: "p \<noteq> []" "has_prefix p s" and r: "r = drop (length p) s"
    by (auto simp: strip_one_def find_Some_iff)
  then show ?thesis by (auto simp: has_prefix_iff)
qed

function strip_left :: "string list \<Rightarrow> string \<Rightarrow> string" where
  "strip_left ps s = (case strip_one ps s of None \<Rightarrow> s | Some r \<Rightarrow> strip_left ps r)"
  by pat_completeness auto
termination
  by (relation "measure (\<lambda>(ps, s). length s)") (auto dest: strip_one_shorter)

declare strip_left.simps [simp del]

definition trim_space :: "string \<Rightarrow> string" where
  "trim_space s = rev (strip_left (map rev space_seqs) (rev (strip_left space_seqs s)))"

text \<open>No byte of \<open>plain\<close> text starts or ends a white-space character, so trimming keeps it.\<close>

definition plain_char :: "char \<Rightarrow> bool" where
  "plain_char c \<longleftrightarrow> 33 \<le> (of_char c :: nat) \<and> (of_char c :: nat) < 127"

lemma space_seqs_heads:
  "\<forall>p \<in> set space_seqs. p \<noteq> [] \<and> \<not> plain_char (hd p)"
  "\<forall>p \<in> set (map rev space_seqs). p \<noteq> [] \<and> \<not> plain_char (hd p)"
  by (simp_all add: space_seqs_def bytes_def plain_char_def)

lemma strip_one_plain:
  assumes heads: "\<forall>p \<in> set ps. p \<noteq> [] \<and> \<not> plain_char (hd p)" and "s = [] \<or> plain_char (hd s)"
  shows "strip_one ps s = None"
proof -
  have "\<not> has_prefix p s" if "p \<in> set ps" for p
  proof
    assume "has_prefix p s"
    then obtain r where "s = p @ r" by (auto simp: has_prefix_iff)
    with heads that assms(2) show False by (cases p) auto
  qed
  then show ?thesis by (auto simp: strip_one_def find_None_iff)
qed

lemma trim_space_ends:
  assumes "s \<noteq> []" and "plain_char (hd s)" and "plain_char (last s)"
  shows "trim_space s = s"
proof -
  have l: "strip_left space_seqs s = s"
    using strip_one_plain[OF space_seqs_heads(1), of s] assms by (simp add: strip_left.simps)
  have r: "strip_left (map rev space_seqs) (rev s) = rev s"
    using assms by (simp add: strip_one_plain[OF space_seqs_heads(2)] strip_left.simps hd_rev)
  show ?thesis by (simp add: trim_space_def l r)
qed

lemma trim_space_Nil [simp]: "trim_space [] = []"
  by (simp add: trim_space_def strip_left.simps strip_one_plain space_seqs_heads)

lemma trim_space_plain: "\<forall>c \<in> set s. plain_char c \<Longrightarrow> trim_space s = s"
  by (cases "s = []") (simp_all add: trim_space_ends)

text \<open>
  \<open>strings.ToLower\<close>: the ASCII capitals and the two other characters whose lower case is ASCII
  (the Kelvin sign and the dotted capital I). The lower case of every other character is not
  ASCII; it is left as it is, since the texts searched for hold no such letter.
\<close>

definition lower_char :: "char \<Rightarrow> char" where
  "lower_char c = (let n = (of_char c :: nat) in if 65 \<le> n \<and> n \<le> 90 then char_of (n + 32) else c)"

function to_lower :: "string \<Rightarrow> string" where
  "to_lower [] = []"
| "to_lower (c # cs) =
     (if has_prefix (bytes [226, 132, 170]) (c # cs) then CHR ''k'' # to_lower (drop 2 cs)
      else if has_prefix (bytes [196, 176]) (c # cs) then CHR ''i'' # to_lower (drop 1 cs)
      else lower_char c # to_lower cs)"
  by pat_completeness auto
termination
  by (relation "measure length") auto

lemma has_prefix_bytes_ascii: "of_char c < (128 :: nat) \<Longrightarrow> 128 \<le> b \<Longrightarrow> b < 256 \<Longrightarrow> \<not> has_prefix (bytes (b # bs)) (c # cs)"
  by (auto simp: has_prefix_def bytes_def)

lemma to_lower_ascii: "\<forall>c \<in> set s. of_char c < (128 :: nat) \<Longrightarrow> to_lower s = map lower_char s"
  by (induction s) (simp_all add: has_prefix_bytes_ascii)

declare to_lower.simps [simp del]

section \<open>Decimal numerals: strconv and fmt\<close>

definition digit_char :: "nat \<Rightarrow> char" where
  "digit_char d = char_of (48 + d)"

definition digit_val :: "char \<Rightarrow> nat option" where
  "digit_val c = (let n = of_char c in if 48 \<le> n \<and> n \<le> 57 then Some (n - 48) else None)"

fun nat_digits :: "nat \<Rightarrow> string" where
  "nat_digits n = (if n < 10 then [digit_char n] else nat_digits (n div 10) @ [digit_char (n mod 10)])"

declare nat_digits.simps [simp del]

definition itoa :: "int \<Rightarrow> string" where
  "itoa n = (if n < 0 then CHR ''-'' # nat_digits (nat (- n)) else nat_digits (nat n))"

text \<open>\<open>fmt\<close>'s \<open>%0wd\<close>: zeros up to width \<open>w\<close>, after the sign, never cut.\<close>

definition fmt_pad :: "nat \<Rightarrow> int \<Rightarrow> string" where
  "fmt_pad w n =
     (let d = nat_digits (nat \<bar>n\<bar>) in
      if n < 0 then CHR ''-'' # replicate (w - 1 - length d) CHR ''0'' @ d
      else replicate (w - length d) CHR ''0'' @ d)"

fun digits_val :: "nat \<Rightarrow> string \<Rightarrow> nat option" where
  "digits_val acc [] = Some acc"
| "digits_val acc (c # cs) =
     (case digit_val c of None \<Rightarrow> None | Some d \<Rightarrow> digits_val (10 * acc + d) cs)"

text \<open>\<open>strconv.Atoi\<close>: an optional sign, at least one digit, and a value that fits an \<open>int64\<close>.\<close>

definition atoi :: "string \<Rightarrow> int option" where
  "atoi s =
     (let (neg, ds) = (case s of [] \<Rightarrow> (False, [])
                       | c # cs \<Rightarrow> if c = CHR ''-'' then (True, cs)
                                   else if c = CHR ''+'' then (False, cs) else (False, s))
      in if ds = [] then None
         else case digits_val 0 ds of
                None \<Rightarrow> None
              | Some n \<Rightarrow> (let v = (if neg then - int n else int n)
                           in if in_int64 v then Some v else None))"

lemma digit_val_char: "d < 10 \<Longrightarrow> digit_val (digit_char d) = Some d"
  by (simp add: digit_val_def digit_char_def)

lemma digit_val_zero [simp]: "digit_val CHR ''0'' = Some 0"
  by (simp add: digit_val_def)

lemma digits_val_append:
  "digits_val acc (xs @ ys) = (case digits_val acc xs of None \<Rightarrow> None | Some a \<Rightarrow> digits_val a ys)"
  by (induction xs arbitrary: acc) (auto split: option.splits)

lemma digits_val_nat_digits: "digits_val 0 (nat_digits n) = Some n"
proof (induction n rule: nat_digits.induct)
  case (1 n)
  show ?case
  proof (cases "n < 10")
    case True
    then show ?thesis by (simp add: nat_digits.simps[of n] digit_val_char)
  next
    case False
    with "1.IH" have "digits_val 0 (nat_digits (n div 10)) = Some (n div 10)" by simp
    with False show ?thesis
      by (simp add: nat_digits.simps[of n] digits_val_append digit_val_char)
  qed
qed

lemma nat_digits_nonempty [simp]: "nat_digits n \<noteq> []"
  by (subst nat_digits.simps) simp

lemma nat_digits_inject: "nat_digits m = nat_digits n \<longleftrightarrow> m = n"
  by (metis digits_val_nat_digits option.inject)

lemma nat_digits_chars: "c \<in> set (nat_digits n) \<Longrightarrow> digit_val c \<noteq> None"
proof (induction n rule: nat_digits.induct)
  case (1 n)
  then show ?case
    by (cases "n < 10") (auto simp: nat_digits.simps[of n] digit_val_char)
qed

lemma length_nat_digits: "0 < k \<Longrightarrow> n < 10 ^ k \<Longrightarrow> length (nat_digits n) \<le> k"
proof (induction k arbitrary: n)
  case 0
  then show ?case by simp
next
  case (Suc k)
  show ?case
  proof (cases "n < 10")
    case True
    then show ?thesis by (simp add: nat_digits.simps[of n])
  next
    case False
    then have "k \<noteq> 0" using Suc.prems by (cases k) auto
    moreover have "n div 10 < 10 ^ k" using Suc.prems by (simp add: less_mult_imp_div_less mult.commute)
    ultimately have "length (nat_digits (n div 10)) \<le> k" using Suc.IH by simp
    with False show ?thesis by (simp add: nat_digits.simps[of n])
  qed
qed

lemma digits_val_zeros: "digits_val 0 (replicate k CHR ''0'' @ s) = digits_val 0 s"
  by (induction k) auto

lemma digits_val_fmt_pad: "0 \<le> n \<Longrightarrow> digits_val 0 (fmt_pad w n) = Some (nat n)"
  by (simp add: fmt_pad_def Let_def digits_val_zeros digits_val_nat_digits)

lemma fmt_pad_chars: "0 \<le> n \<Longrightarrow> c \<in> set (fmt_pad w n) \<Longrightarrow> digit_val c \<noteq> None"
  by (auto simp: fmt_pad_def Let_def split: if_splits dest!: nat_digits_chars)

lemma fmt_pad_nonempty: "0 \<le> n \<Longrightarrow> fmt_pad w n \<noteq> []"
  by (simp add: fmt_pad_def Let_def)

lemma length_fmt_pad: "0 < w \<Longrightarrow> 0 \<le> n \<Longrightarrow> n < 10 ^ w \<Longrightarrow> length (fmt_pad w n) = w"
proof -
  assume "0 < w" "0 \<le> n" "n < 10 ^ w"
  then have "nat n < 10 ^ w" by (simp add: nat_less_iff)
  with \<open>0 < w\<close> have "length (nat_digits (nat n)) \<le> w" by (rule length_nat_digits)
  with \<open>0 \<le> n\<close> show ?thesis by (simp add: fmt_pad_def Let_def)
qed

lemma digit_val_plain: "digit_val c \<noteq> None \<Longrightarrow> plain_char c \<and> c \<noteq> CHR ''-'' \<and> c \<noteq> CHR ''+'' \<and> c \<noteq> CHR '':''"
  by (auto simp: digit_val_def plain_char_def Let_def split: if_splits)

lemma atoi_digits:
  assumes "s \<noteq> []" and "\<forall>c \<in> set s. digit_val c \<noteq> None" and "digits_val 0 s = Some n"
    and "int n < 2 ^ 63"
  shows "atoi s = Some (int n)"
proof -
  obtain c cs where s: "s = c # cs" using assms(1) by (cases s) auto
  with assms(2) have "digit_val c \<noteq> None" by simp
  then have "c \<noteq> CHR ''-''" "c \<noteq> CHR ''+''" using digit_val_plain by blast+
  with s assms show ?thesis by (simp add: atoi_def)
qed

lemma atoi_fmt_pad: "0 \<le> n \<Longrightarrow> n < 2 ^ 63 \<Longrightarrow> atoi (fmt_pad w n) = Some n"
  using atoi_digits[of "fmt_pad w n" "nat n"]
  by (simp add: fmt_pad_nonempty fmt_pad_chars digits_val_fmt_pad)

lemma itoa_fmt_pad: "0 \<le> n \<Longrightarrow> itoa n = fmt_pad 0 n"
  by (simp add: itoa_def fmt_pad_def Let_def)

lemma atoi_itoa: "0 \<le> n \<Longrightarrow> n < 2 ^ 63 \<Longrightarrow> atoi (itoa n) = Some n"
  by (simp add: itoa_fmt_pad atoi_fmt_pad)

section \<open>Tables\<close>

text \<open>
  A table is the list of its rows. \<open>upd P f\<close> is \<open>UPDATE ... SET f WHERE P\<close>, \<open>affected\<close> the
  number of rows a statement with that guard touches, \<open>sum_col\<close> a \<open>SUM\<close> that is 0 on no row.
\<close>

definition upd :: "('r \<Rightarrow> bool) \<Rightarrow> ('r \<Rightarrow> 'r) \<Rightarrow> 'r list \<Rightarrow> 'r list" where
  "upd P f rows = map (\<lambda>r. if P r then f r else r) rows"

definition affected :: "('r \<Rightarrow> bool) \<Rightarrow> 'r list \<Rightarrow> int" where
  "affected P rows = int (length (filter P rows))"

definition sum_col :: "('r \<Rightarrow> 'v :: comm_monoid_add) \<Rightarrow> ('r \<Rightarrow> bool) \<Rightarrow> 'r list \<Rightarrow> 'v" where
  "sum_col f P rows = sum_list (map f (filter P rows))"

lemma upd_mem: "r \<in> set rows \<Longrightarrow> P r \<Longrightarrow> f r \<in> set (upd P f rows)"
  by (force simp: upd_def)

lemma affected_Nil [simp]: "affected P [] = 0"
  by (simp add: affected_def)

lemma affected_Cons [simp]: "affected P (r # rs) = (if P r then 1 else 0) + affected P rs"
  by (simp add: affected_def)

lemma affected_append [simp]: "affected P (rs @ ss) = affected P rs + affected P ss"
  by (simp add: affected_def)

lemma affected_nonneg [simp]: "0 \<le> affected P rows"
  by (simp add: affected_def)

lemma affected_eq_0: "affected P rows = 0 \<longleftrightarrow> (\<forall>r \<in> set rows. \<not> P r)"
  by (simp add: affected_def filter_empty_conv)

lemma upd_Nil [simp]: "upd P f [] = []"
  by (simp add: upd_def)

lemma upd_Cons [simp]: "upd P f (r # rs) = (if P r then f r else r) # upd P f rs"
  by (simp add: upd_def)

lemma upd_append [simp]: "upd P f (rs @ ss) = upd P f rs @ upd P f ss"
  by (simp add: upd_def)

lemma length_upd [simp]: "length (upd P f rows) = length rows"
  by (simp add: upd_def)

lemma set_upd: "set (upd P f rows) = (\<lambda>r. if P r then f r else r) ` set rows"
  by (simp add: upd_def)

lemma ball_upd: "(\<forall>x \<in> set (upd P f rows). Q x) \<longleftrightarrow> (\<forall>x \<in> set rows. Q (if P x then f x else x))"
  by (induction rows) simp_all

lemma bex_upd: "(\<exists>x \<in> set (upd P f rows). Q x) \<longleftrightarrow> (\<exists>x \<in> set rows. Q (if P x then f x else x))"
  by (induction rows) simp_all

lemma upd_cong: "(\<And>r. r \<in> set rows \<Longrightarrow> P r = Q r) \<Longrightarrow> (\<And>r. r \<in> set rows \<Longrightarrow> Q r \<Longrightarrow> f r = g r)
   \<Longrightarrow> upd P f rows = upd Q g rows"
  by (simp add: upd_def)

lemma upd_id: "(\<And>r. r \<in> set rows \<Longrightarrow> P r \<Longrightarrow> f r = r) \<Longrightarrow> upd P f rows = rows"
  by (induction rows) auto

lemma map_upd: "(\<And>r. k (f r) = k r) \<Longrightarrow> map k (upd P f rows) = map k rows"
  by (induction rows) auto

text \<open>Counting after an update: the rows left alone and the rows updated, each with its new value.\<close>

lemma affected_upd:
  "affected Q (upd P f rows) = affected (\<lambda>r. \<not> P r \<and> Q r) rows + affected (\<lambda>r. P r \<and> Q (f r)) rows"
  by (induction rows) auto

lemma affected_split: "affected Q rows = affected (\<lambda>r. \<not> P r \<and> Q r) rows + affected (\<lambda>r. P r \<and> Q r) rows"
  by (induction rows) auto

lemma affected_upd_diff:
  "affected Q (upd P f rows) =
     affected Q rows - affected (\<lambda>r. P r \<and> Q r) rows + affected (\<lambda>r. P r \<and> Q (f r)) rows"
  using affected_upd[of Q P f rows] affected_split[of Q rows P] by simp

lemma affected_upd_same:
  "(\<And>r. P r \<Longrightarrow> Q (f r) = Q r) \<Longrightarrow> affected Q (upd P f rows) = affected Q rows"
  by (induction rows) auto

lemma affected_cong:
  "(\<And>r. r \<in> set rows \<Longrightarrow> P r = Q r) \<Longrightarrow> affected P rows = affected Q rows"
  by (induction rows) auto

lemma affected_unique:
  assumes "distinct (map k rows)" and "r \<in> set rows"
  shows "affected (\<lambda>x. k x = k r \<and> P x) rows = (if P r then 1 else 0)"
  using assms
proof (induction rows)
  case Nil
  then show ?case by simp
next
  case (Cons x xs)
  show ?case
  proof (cases "x = r")
    case True
    with Cons.prems(1) have "k r \<notin> k ` set xs" by simp
    then have "\<forall>y \<in> set xs. k y \<noteq> k r" by (metis image_eqI)
    then have "affected (\<lambda>x. k x = k r \<and> P x) xs = 0" by (auto simp: affected_eq_0)
    with True show ?thesis by simp
  next
    case False
    with Cons.prems have "r \<in> set xs" and "k x \<noteq> k r" by auto
    with Cons show ?thesis by simp
  qed
qed

lemma sum_col_Nil [simp]: "sum_col f P [] = 0"
  by (simp add: sum_col_def)

lemma sum_col_Cons [simp]: "sum_col f P (r # rs) = (if P r then f r else 0) + sum_col f P rs"
  by (simp add: sum_col_def)

lemma sum_col_append [simp]: "sum_col f P (rs @ ss) = sum_col f P rs + sum_col f P ss"
  by (simp add: sum_col_def)

lemma sum_col_nonneg:
  fixes f :: "'r \<Rightarrow> 'v :: ordered_comm_monoid_add"
  shows "(\<And>r. r \<in> set rows \<Longrightarrow> P r \<Longrightarrow> 0 \<le> f r) \<Longrightarrow> 0 \<le> sum_col f P rows"
  by (induction rows) auto

lemma find_key_unique:
  "distinct (map k rows) \<Longrightarrow> r \<in> set rows \<Longrightarrow> find (\<lambda>x. k x = k r) rows = Some r"
  by (induction rows) auto

lemma find_SomeD: "find P rows = Some r \<Longrightarrow> r \<in> set rows \<and> P r"
  by (induction rows) (auto split: if_splits)

lemma find_NoneD: "find P rows = None \<Longrightarrow> r \<in> set rows \<Longrightarrow> \<not> P r"
  by (simp add: find_None_iff)

lemmas table_defs = upd_def affected_def sum_col_def

declare affected_upd_diff [table_simps] affected_unique [table_simps]

end
