(* ===== verification/Money.thy ===== *)
theory Money
  imports DK_Prelude
begin

text \<open>
  Amounts of money: \<open>backend/internal/designkit/domain/money.go\<close>. A \<open>Money\<close> is an alias of
  \<open>decimal.Decimal\<close> of the third-party package \<open>shopspring/decimal\<close>, an exact decimal number:
  it is represented by its value, and adding, subtracting, multiplying and comparing decimals is
  arithmetic on values. What the package does beyond that (rounding, dividing, printing, parsing
  and converting floats) is the parameter \<open>decimal_lib\<close> of the definitions that use it, and
  \<open>decimal_ok\<close> states what the package documents about rounding and conversion.
\<close>

type_synonym money = rat
type_synonym multiplier = rat

text \<open>A \<open>float64\<close>: not a number, an infinity, or the rational number its bits stand for.\<close>

datatype go_float = FNaN | FInf bool | FFin rat

record decimal_lib =
  dec_round :: "nat \<Rightarrow> rat \<Rightarrow> rat"
  dec_div :: "rat \<Rightarrow> rat \<Rightarrow> rat"
  dec_of_float :: "rat \<Rightarrow> rat"
  dec_parse :: "string \<Rightarrow> rat option"
  dec_string :: "rat \<Rightarrow> string"
  dec_string_fixed :: "nat \<Rightarrow> rat \<Rightarrow> string"

section \<open>The package's documented behaviour\<close>

definition on_grid :: "nat \<Rightarrow> rat \<Rightarrow> bool" where
  "on_grid p x \<longleftrightarrow> of_int \<lfloor>x * 10 ^ p\<rfloor> = x * 10 ^ p"

lemma on_grid_iff: "on_grid p x \<longleftrightarrow> (\<exists>k :: int. x = of_int k / 10 ^ p)"
proof
  assume "on_grid p x"
  then have "of_int \<lfloor>x * 10 ^ p\<rfloor> / 10 ^ p = x * 10 ^ p / 10 ^ p" by (simp only: on_grid_def)
  then have "x = of_int \<lfloor>x * 10 ^ p\<rfloor> / 10 ^ p" by simp
  then show "\<exists>k :: int. x = of_int k / 10 ^ p" by blast
next
  assume "\<exists>k :: int. x = of_int k / 10 ^ p"
  then show "on_grid p x" by (auto simp: on_grid_def)
qed

lemma on_grid_0 [simp]: "on_grid p 0"
  by (simp add: on_grid_def)

lemma on_grid_of_int [simp]: "on_grid p (of_int k)"
proof -
  have "(of_int k :: rat) = of_int (k * 10 ^ p) / 10 ^ p" by simp
  then show ?thesis using on_grid_iff by blast
qed

lemma on_grid_add: "on_grid p x \<Longrightarrow> on_grid p y \<Longrightarrow> on_grid p (x + y)"
  unfolding on_grid_iff by (metis add_divide_distrib of_int_add)

lemma on_grid_diff: "on_grid p x \<Longrightarrow> on_grid p y \<Longrightarrow> on_grid p (x - y)"
  unfolding on_grid_iff by (metis diff_divide_distrib of_int_diff)

lemma on_grid_max: "on_grid p x \<Longrightarrow> on_grid p y \<Longrightarrow> on_grid p (max x y)"
  by (simp add: max_def)

lemma on_grid_sum_list: "(\<And>x. x \<in> set xs \<Longrightarrow> on_grid p x) \<Longrightarrow> on_grid p (sum_list xs)"
  by (induction xs) (auto simp: on_grid_add)

text \<open>
  \<open>Round(p)\<close> gives a number with \<open>p\<close> decimal places, at most half a unit of the last place away,
  keeps a number that already has \<open>p\<close> places, keeps the order and treats both signs alike;
  \<open>NewFromFloat\<close> takes the shortest decimal that reads back as the float.
\<close>

definition float_1_2 :: rat where
  "float_1_2 = 5404319552844595 / 2 ^ 52"

definition decimal_ok :: "decimal_lib \<Rightarrow> bool" where
  "decimal_ok D \<longleftrightarrow>
     (\<forall>p x. on_grid p (dec_round D p x)) \<and>
     (\<forall>p x. on_grid p x \<longrightarrow> dec_round D p x = x) \<and>
     (\<forall>p x y. x \<le> y \<longrightarrow> dec_round D p x \<le> dec_round D p y) \<and>
     (\<forall>p x. dec_round D p (- x) = - dec_round D p x) \<and>
     (\<forall>p x. \<bar>dec_round D p x - x\<bar> \<le> 1 / (2 * 10 ^ p)) \<and>
     (\<forall>k :: int. \<bar>k\<bar> \<le> 2 ^ 53 \<longrightarrow> dec_of_float D (of_int k) = of_int k) \<and>
     dec_of_float D float_1_2 = 12 / 10"

lemma decimal_okD:
  assumes "decimal_ok D"
  shows dec_round_grid: "on_grid p (dec_round D p x)"
    and dec_round_id: "on_grid p x \<Longrightarrow> dec_round D p x = x"
    and dec_round_mono: "x \<le> y \<Longrightarrow> dec_round D p x \<le> dec_round D p y"
    and dec_round_minus: "dec_round D p (- x) = - dec_round D p x"
    and dec_round_near: "\<bar>dec_round D p x - x\<bar> \<le> 1 / (2 * 10 ^ p)"
    and dec_float_int: "\<bar>k\<bar> \<le> 2 ^ 53 \<Longrightarrow> dec_of_float D (of_int k) = of_int k"
    and dec_float_1_2: "dec_of_float D float_1_2 = 12 / 10"
  using assms by (simp_all add: decimal_ok_def)

lemma dec_round_0: "decimal_ok D \<Longrightarrow> dec_round D p 0 = 0"
  by (simp add: dec_round_id)

lemma dec_round_nonneg: "decimal_ok D \<Longrightarrow> 0 \<le> x \<Longrightarrow> 0 \<le> dec_round D p x"
  using dec_round_mono[of D 0 x p] by (simp add: dec_round_0)

section \<open>An instance: half away from zero\<close>

text \<open>
  The rounding rule the package documents, as a function. It is the concrete \<open>decimal_lib\<close> at
  which the hypothesis \<open>decimal_ok\<close> of a property is discharged.
\<close>

definition half_away :: "nat \<Rightarrow> rat \<Rightarrow> rat" where
  "half_away p x = sgn x * of_int \<lfloor>\<bar>x\<bar> * 10 ^ p + 1 / 2\<rfloor> / 10 ^ p"

lemma floor_half: "\<lfloor>1 / 2 :: rat\<rfloor> = 0"
  by (simp add: floor_eq_iff)

lemma half_away_grid: "on_grid p (half_away p x)"
proof -
  have "sgn x = of_int (if 0 < x then 1 else if x < 0 then - 1 else 0)"
    by (simp add: sgn_if)
  then have "half_away p x = of_int ((if 0 < x then 1 else if x < 0 then - 1 else 0) * \<lfloor>\<bar>x\<bar> * 10 ^ p + 1 / 2\<rfloor>) / 10 ^ p"
    by (simp add: half_away_def)
  then show ?thesis using on_grid_iff by blast
qed

lemma half_away_id: "on_grid p x \<Longrightarrow> half_away p x = x"
proof -
  assume "on_grid p x"
  then obtain k :: int where x: "x = of_int k / 10 ^ p" by (auto simp: on_grid_iff)
  then have "\<bar>x\<bar> * 10 ^ p = of_int \<bar>k\<bar>" by (simp add: abs_divide)
  then have "\<lfloor>\<bar>x\<bar> * 10 ^ p + 1 / 2\<rfloor> = \<bar>k\<bar>" by (simp add: floor_half flip: of_int_abs)
  moreover have "sgn x = of_int (sgn k)" by (simp add: x sgn_if zero_less_divide_iff divide_less_0_iff)
  ultimately have "half_away p x = of_int (sgn k * \<bar>k\<bar>) / 10 ^ p" by (simp add: half_away_def)
  then show ?thesis by (simp add: x mult_sgn_abs)
qed

lemma half_away_minus: "half_away p (- x) = - half_away p x"
  by (simp add: half_away_def sgn_minus)

lemma half_away_nonneg: "0 \<le> x \<Longrightarrow> half_away p x = of_int \<lfloor>x * 10 ^ p + 1 / 2\<rfloor> / 10 ^ p"
  by (cases "x = 0") (simp_all add: half_away_def floor_half)

lemma half_away_pos_mono: "0 \<le> x \<Longrightarrow> x \<le> y \<Longrightarrow> half_away p x \<le> half_away p y"
  by (simp add: half_away_nonneg divide_right_mono floor_mono mult_right_mono)

lemma half_away_ge_0: "0 \<le> x \<Longrightarrow> 0 \<le> half_away p x"
  using half_away_pos_mono[of 0 x p] by (simp add: half_away_id)

lemma half_away_mono: "x \<le> y \<Longrightarrow> half_away p x \<le> half_away p y"
proof -
  assume le: "x \<le> y"
  consider "0 \<le> x" | "x < 0" "0 \<le> y" | "y < 0" by linarith
  then show ?thesis
  proof cases
    case 1
    then show ?thesis using le by (rule half_away_pos_mono)
  next
    case 2
    then have "0 \<le> half_away p (- x)" and "0 \<le> half_away p y" by (simp_all add: half_away_ge_0)
    then show ?thesis by (simp add: half_away_minus)
  next
    case 3
    then have "half_away p (- y) \<le> half_away p (- x)" using le by (simp add: half_away_pos_mono)
    then show ?thesis by (simp add: half_away_minus)
  qed
qed

lemma half_away_near_pos: "0 \<le> x \<Longrightarrow> \<bar>half_away p x - x\<bar> \<le> 1 / (2 * 10 ^ p)"
proof -
  assume "0 \<le> x"
  let ?n = "of_int \<lfloor>x * 10 ^ p + 1 / 2\<rfloor> :: rat"
  have "\<bar>?n - x * 10 ^ p\<bar> \<le> 1 / 2" by linarith
  then have "\<bar>?n - x * 10 ^ p\<bar> / 10 ^ p \<le> 1 / 2 / 10 ^ p" by (rule divide_right_mono) simp
  then have "\<bar>(?n - x * 10 ^ p) / 10 ^ p\<bar> \<le> 1 / (2 * 10 ^ p)" by (simp add: abs_divide)
  moreover have "(?n - x * 10 ^ p) / 10 ^ p = half_away p x - x"
    using \<open>0 \<le> x\<close> by (simp add: half_away_nonneg diff_divide_distrib)
  ultimately show ?thesis by metis
qed

lemma half_away_near: "\<bar>half_away p x - x\<bar> \<le> 1 / (2 * 10 ^ p)"
proof (cases "0 \<le> x")
  case True
  then show ?thesis by (rule half_away_near_pos)
next
  case False
  then have "\<bar>half_away p (- x) - - x\<bar> \<le> 1 / (2 * 10 ^ p)" by (intro half_away_near_pos) simp
  moreover have "\<bar>half_away p (- x) - - x\<bar> = \<bar>half_away p x - x\<bar>" by (simp add: half_away_minus)
  ultimately show ?thesis by metis
qed

definition dec_ref :: decimal_lib where
  "dec_ref = \<lparr>dec_round = half_away,
     dec_div = (\<lambda>a b. half_away 16 (a / b)),
     dec_of_float = (\<lambda>x. if x = float_1_2 then 12 / 10 else x),
     dec_parse = (\<lambda>s. map_option of_int (atoi s)),
     dec_string = (\<lambda>x. itoa \<lfloor>x\<rfloor>),
     dec_string_fixed = (\<lambda>p x. itoa \<lfloor>x\<rfloor>)\<rparr>"

lemma float_1_2_not_int: "of_int k \<noteq> float_1_2"
proof
  assume "of_int k = float_1_2"
  then have "of_int (k * 2 ^ 52) = (of_int 5404319552844595 :: rat)"
    by (simp add: float_1_2_def field_simps)
  then have "k * 2 ^ 52 = 5404319552844595" by (simp only: of_int_eq_iff)
  moreover have "even (k * 2 ^ 52)" and "odd (5404319552844595 :: int)" by simp_all
  ultimately show False by argo
qed

lemma dec_ref_ok: "decimal_ok dec_ref"
  by (simp add: decimal_ok_def dec_ref_def half_away_grid half_away_id half_away_mono
      half_away_minus half_away_near float_1_2_not_int)

section \<open>money.go\<close>

definition money_scale :: nat where
  "money_scale = 8"

definition multiplier_scale :: nat where
  "multiplier_scale = 4"

definition currency_usd :: string where
  "currency_usd = ''USD''"

definition money_from_float :: "decimal_lib \<Rightarrow> go_float \<Rightarrow> money" where
  "money_from_float D f =
     (case f of FNaN \<Rightarrow> 0 | FInf _ \<Rightarrow> 0
      | FFin x \<Rightarrow> dec_round D money_scale (dec_of_float D x))"

definition money_from_string :: "decimal_lib \<Rightarrow> string \<Rightarrow> money option" where
  "money_from_string D s = dec_parse D s"

definition money_from_int :: "int \<Rightarrow> money" where
  "money_from_int i = of_int i"

definition quantize_money :: "decimal_lib \<Rightarrow> money \<Rightarrow> money" where
  "quantize_money D m = dec_round D money_scale m"

definition money_string :: "decimal_lib \<Rightarrow> money \<Rightarrow> string" where
  "money_string D m = dec_string D m"

definition format_money_usd :: "decimal_lib \<Rightarrow> money \<Rightarrow> string" where
  "format_money_usd D m = ''$'' @ dec_string_fixed D 4 m"

definition multiplier_from_float :: "decimal_lib \<Rightarrow> go_float \<Rightarrow> multiplier" where
  "multiplier_from_float D f =
     (case f of FNaN \<Rightarrow> 1 | FInf _ \<Rightarrow> 1
      | FFin x \<Rightarrow> dec_round D multiplier_scale (dec_of_float D x))"

fun sum_money_from :: "money \<Rightarrow> money list \<Rightarrow> money" where
  "sum_money_from acc [] = acc"
| "sum_money_from acc (v # vs) = sum_money_from (acc + v) vs"

definition sum_money :: "money list \<Rightarrow> money" where
  "sum_money values = sum_money_from 0 values"

definition money_or_zero :: "money option \<Rightarrow> money" where
  "money_or_zero m = (case m of None \<Rightarrow> 0 | Some v \<Rightarrow> v)"

lemma sum_money_from_eq: "sum_money_from t vs = t + sum_list vs"
  by (induction vs arbitrary: t) (auto simp: algebra_simps)

lemma sum_money_eq: "sum_money vs = sum_list vs"
  by (simp add: sum_money_def sum_money_from_eq)

abbreviation money_grid :: "money \<Rightarrow> bool" where
  "money_grid m \<equiv> on_grid money_scale m"

lemma quantize_grid: "decimal_ok D \<Longrightarrow> money_grid (quantize_money D m)"
  by (simp add: quantize_money_def dec_round_grid)

lemma quantize_id: "decimal_ok D \<Longrightarrow> money_grid m \<Longrightarrow> quantize_money D m = m"
  by (simp add: quantize_money_def dec_round_id)

lemma quantize_mono: "decimal_ok D \<Longrightarrow> x \<le> y \<Longrightarrow> quantize_money D x \<le> quantize_money D y"
  by (simp add: quantize_money_def dec_round_mono)

lemma quantize_nonneg: "decimal_ok D \<Longrightarrow> 0 \<le> x \<Longrightarrow> 0 \<le> quantize_money D x"
  by (simp add: quantize_money_def dec_round_nonneg)

lemma quantize_0: "decimal_ok D \<Longrightarrow> quantize_money D 0 = 0"
  by (simp add: quantize_id)

lemma money_from_float_12: "decimal_ok D \<Longrightarrow> money_from_float D (FFin float_1_2) = 12 / 10"
proof -
  assume ok: "decimal_ok D"
  have "on_grid 8 (12 / 10)"
    unfolding on_grid_iff by (rule exI[of _ 120000000]) simp
  with ok show ?thesis
    by (simp add: money_from_float_def dec_float_1_2 dec_round_id money_scale_def)
qed

text \<open>
  Quantising a sum of amounts once is the sum of the quantised amounts only when the amounts are
  already on the grid; then no rounding happens at all.
\<close>

lemma quantize_sum_money:
  "decimal_ok D \<Longrightarrow> (\<And>v. v \<in> set vs \<Longrightarrow> money_grid v) \<Longrightarrow> quantize_money D (sum_money vs) = sum_money vs"
  by (simp add: sum_money_eq quantize_id on_grid_sum_list)

end
