(* ===== verification/Go_Errors.thy ===== *)
theory Go_Errors
  imports Money
begin

text \<open>
  Errors: \<open>backend/internal/designkit/domain/errors.go\<close>, the repository errors of
  \<open>domain/port.go\<close> and the item errors of \<open>worker/errors.go\<close>. A Go \<open>error\<close> is a value of
  \<open>go_error\<close>: a sentinel made by \<open>errors.New\<close>, any other error of which only the text is known,
  a wrapping made by \<open>fmt.Errorf\<close> with \<open>%w\<close>, and the three structured errors of the package.
  \<open>errors.Is\<close> and \<open>errors.As\<close> follow the chain the code's \<open>Unwrap\<close> methods give. The Chinese
  texts are written out as the UTF-8 bytes of the source.
\<close>

section \<open>Error values\<close>

datatype sentinel =
    ErrNotFound | ErrConflict | ErrInsufficientBalance | ErrLeaseLost | ErrIllegalTransition
  | ErrObjectNotFound | ErrInvalidBillingRequestID | ErrInvalidRatio | ErrRatioNotAllowed
  | ErrNoDB | ErrMissingDependency | ErrInvalidKey | ErrInternalKeyGone
  | ContextDeadlineExceeded | ContextCanceled

datatype go_error =
    Sentinel sentinel
  | Opaque string
  | Wrapped string go_error
  | InsufficientBalanceError (ib_required: money) (ib_available: money) (ib_shortfall: money)
  | Dk dk_error
  | ItemError dk_error bool
and dk_error =
    DesignkitError (dk_code: string) (dk_message: string) (dk_status: int) (dk_upstream: string)
      (dk_cause: "go_error option")

text \<open>The texts the sentinels are made with.\<close>

fun sentinel_text :: "sentinel \<Rightarrow> string" where
  "sentinel_text ErrNotFound = ''designkit: not found''"
| "sentinel_text ErrConflict = ''designkit: conflict''"
| "sentinel_text ErrInsufficientBalance = ''designkit: insufficient balance''"
| "sentinel_text ErrLeaseLost = ''designkit: lease lost''"
| "sentinel_text ErrIllegalTransition = ''designkit: illegal status transition''"
| "sentinel_text ErrObjectNotFound = ''designkit: object not found''"
| "sentinel_text ErrInvalidBillingRequestID = ''designkit: invalid billing request id''"
| "sentinel_text ErrInvalidRatio = ''designkit: invalid ratio''"
| "sentinel_text ErrRatioNotAllowed = ''designkit: ratio not allowed''"
| "sentinel_text ErrNoDB =
     bytes [100, 101, 115, 105, 103, 110, 107, 105, 116, 32, 114, 101, 112, 111, 115, 105, 116, 111,
      114, 121, 58, 32, 230, 149, 176, 230, 141, 174, 229, 186, 147, 232, 191, 158, 230, 142,
      165, 230, 177, 160, 230, 156, 170, 229, 136, 157, 229, 167, 139, 229, 140, 150]"
| "sentinel_text ErrMissingDependency =
     bytes [100, 101, 115, 105, 103, 110, 107, 105, 116, 32, 119, 111, 114, 107, 101, 114, 58, 32, 231,
      188, 186, 229, 176, 145, 229, 191, 133, 233, 161, 187, 231, 154, 132, 228, 190, 157, 232,
      181, 150]"
| "sentinel_text ErrInvalidKey = ''designkit storage: '' @ (bytes [233, 157, 158, 230, 179, 149, 231, 154, 132, 32, 111, 98, 106, 101, 99, 116, 32, 107, 101,
     121])"
| "sentinel_text ErrInternalKeyGone = ''designkit: internal api key gone''"
| "sentinel_text ContextDeadlineExceeded = ''context deadline exceeded''"
| "sentinel_text ContextCanceled = ''context canceled''"

fun unwrap :: "go_error \<Rightarrow> go_error option" where
  "unwrap (Sentinel s) = None"
| "unwrap (Opaque t) = None"
| "unwrap (Wrapped t e) = Some e"
| "unwrap (InsufficientBalanceError r a s) = Some (Sentinel ErrInsufficientBalance)"
| "unwrap (Dk d) = dk_cause d"
| "unwrap (ItemError d r) = Some (Dk d)"

fun errors_is :: "go_error \<Rightarrow> sentinel \<Rightarrow> bool" where
  "errors_is (Sentinel s) t \<longleftrightarrow> s = t"
| "errors_is (Opaque x) t \<longleftrightarrow> False"
| "errors_is (Wrapped x e) t \<longleftrightarrow> errors_is e t"
| "errors_is (InsufficientBalanceError r a s) t \<longleftrightarrow> t = ErrInsufficientBalance"
| "errors_is (Dk (DesignkitError c m h u None)) t \<longleftrightarrow> False"
| "errors_is (Dk (DesignkitError c m h u (Some e))) t \<longleftrightarrow> errors_is e t"
| "errors_is (ItemError (DesignkitError c m h u None) r) t \<longleftrightarrow> False"
| "errors_is (ItemError (DesignkitError c m h u (Some e)) r) t \<longleftrightarrow> errors_is e t"

fun as_designkit_error :: "go_error \<Rightarrow> dk_error option" where
  "as_designkit_error (Wrapped x e) = as_designkit_error e"
| "as_designkit_error (Dk d) = Some d"
| "as_designkit_error (ItemError d r) = Some d"
| "as_designkit_error e = None"

fun as_item_error :: "go_error \<Rightarrow> (dk_error \<times> bool) option" where
  "as_item_error (Wrapped x e) = as_item_error e"
| "as_item_error (ItemError d r) = Some (d, r)"
| "as_item_error (Dk (DesignkitError c m h u (Some e))) = as_item_error e"
| "as_item_error e = None"

fun as_insufficient :: "go_error \<Rightarrow> (money \<times> money \<times> money) option" where
  "as_insufficient (Wrapped x e) = as_insufficient e"
| "as_insufficient (InsufficientBalanceError r a s) = Some (r, a, s)"
| "as_insufficient (Dk (DesignkitError c m h u (Some e))) = as_insufficient e"
| "as_insufficient (ItemError (DesignkitError c m h u (Some e)) r) = as_insufficient e"
| "as_insufficient e = None"

fun with_cause :: "dk_error \<Rightarrow> go_error \<Rightarrow> dk_error" where
  "with_cause (DesignkitError c m h u _) e = DesignkitError c m h u (Some e)"

fun with_upstream :: "dk_error \<Rightarrow> string \<Rightarrow> dk_error" where
  "with_upstream (DesignkitError c m h _ e) raw = DesignkitError c m h (trim_space raw) e"

fun with_message :: "dk_error \<Rightarrow> string \<Rightarrow> dk_error" where
  "with_message (DesignkitError c _ h u e) msg = DesignkitError c msg h u e"

lemma with_simps [simp]:
  "dk_code (with_cause d e) = dk_code d" "dk_message (with_cause d e) = dk_message d"
  "dk_status (with_cause d e) = dk_status d" "dk_upstream (with_cause d e) = dk_upstream d"
  "dk_cause (with_cause d e) = Some e"
  "dk_code (with_upstream d r) = dk_code d" "dk_message (with_upstream d r) = dk_message d"
  "dk_status (with_upstream d r) = dk_status d" "dk_upstream (with_upstream d r) = trim_space r"
  "dk_cause (with_upstream d r) = dk_cause d"
  "dk_code (with_message d m) = dk_code d" "dk_message (with_message d m) = m"
  "dk_status (with_message d m) = dk_status d" "dk_upstream (with_message d m) = dk_upstream d"
  "dk_cause (with_message d m) = dk_cause d"
  by (cases d; simp)+

section \<open>Error types of the public JSON\<close>

definition error_type_for_status :: "int \<Rightarrow> string" where
  "error_type_for_status status =
     (if status = 401 \<or> status = 403 then ''authentication_error''
      else if status = 429 then ''rate_limit_error''
      else if 400 \<le> status \<and> status < 500 then ''invalid_request_error''
      else ''api_error'')"

definition error_type :: "dk_error \<Rightarrow> string" where
  "error_type e = error_type_for_status (dk_status e)"

section \<open>The error codes\<close>

abbreviation ErrCodeInsufficientBalance :: string where
  "ErrCodeInsufficientBalance \<equiv> ''DK_INSUFFICIENT_BALANCE''"

abbreviation ErrCodeQuotaExhausted :: string where
  "ErrCodeQuotaExhausted \<equiv> ''DK_QUOTA_EXHAUSTED''"

abbreviation ErrCodeUpstreamBusy :: string where
  "ErrCodeUpstreamBusy \<equiv> ''DK_UPSTREAM_BUSY''"

abbreviation ErrCodeRateLimited :: string where
  "ErrCodeRateLimited \<equiv> ''DK_RATE_LIMITED''"

abbreviation ErrCodeNoAvailableAccount :: string where
  "ErrCodeNoAvailableAccount \<equiv> ''DK_NO_AVAILABLE_ACCOUNT''"

abbreviation ErrCodeImageNotEnabled :: string where
  "ErrCodeImageNotEnabled \<equiv> ''DK_IMAGE_NOT_ENABLED''"

abbreviation ErrCodeModelNotAllowed :: string where
  "ErrCodeModelNotAllowed \<equiv> ''DK_MODEL_NOT_ALLOWED''"

abbreviation ErrCodeImagesAPIUnsupported :: string where
  "ErrCodeImagesAPIUnsupported \<equiv> ''DK_IMAGES_API_UNSUPPORTED''"

abbreviation ErrCodeUpstreamBaseURL :: string where
  "ErrCodeUpstreamBaseURL \<equiv> ''DK_UPSTREAM_BASE_URL_INVALID''"

abbreviation ErrCodeUpstreamUnauthorized :: string where
  "ErrCodeUpstreamUnauthorized \<equiv> ''DK_UPSTREAM_UNAUTHORIZED''"

abbreviation ErrCodeContentBlocked :: string where
  "ErrCodeContentBlocked \<equiv> ''DK_CONTENT_BLOCKED''"

abbreviation ErrCodeTimeout :: string where
  "ErrCodeTimeout \<equiv> ''DK_TIMEOUT''"

abbreviation ErrCodeCanceled :: string where
  "ErrCodeCanceled \<equiv> ''DK_CANCELED''"

abbreviation ErrCodeUpstreamError :: string where
  "ErrCodeUpstreamError \<equiv> ''DK_UPSTREAM_ERROR''"

abbreviation ErrCodeStale :: string where
  "ErrCodeStale \<equiv> ''DK_STALE''"

abbreviation ErrCodeInvalidRequest :: string where
  "ErrCodeInvalidRequest \<equiv> ''DK_INVALID_REQUEST''"

abbreviation ErrCodeRatioNotAllowed :: string where
  "ErrCodeRatioNotAllowed \<equiv> ''DK_RATIO_NOT_ALLOWED''"

abbreviation ErrCodeBatchTooLarge :: string where
  "ErrCodeBatchTooLarge \<equiv> ''DK_BATCH_TOO_LARGE''"

abbreviation ErrCodeIdempotencyKeyRequired :: string where
  "ErrCodeIdempotencyKeyRequired \<equiv> ''DK_IDEMPOTENCY_KEY_REQUIRED''"

abbreviation ErrCodeIdempotencyKeyConflict :: string where
  "ErrCodeIdempotencyKeyConflict \<equiv> ''DK_IDEMPOTENCY_KEY_CONFLICT''"

abbreviation ErrCodeUnsupportedImageFormat :: string where
  "ErrCodeUnsupportedImageFormat \<equiv> ''DK_UNSUPPORTED_IMAGE_FORMAT''"

abbreviation ErrCodeImageTooLarge :: string where
  "ErrCodeImageTooLarge \<equiv> ''DK_IMAGE_TOO_LARGE''"

abbreviation ErrCodeMaxAttemptsExceeded :: string where
  "ErrCodeMaxAttemptsExceeded \<equiv> ''DK_MAX_ATTEMPTS_EXCEEDED''"

abbreviation ErrCodeJobAlreadySettled :: string where
  "ErrCodeJobAlreadySettled \<equiv> ''DK_JOB_ALREADY_SETTLED''"

abbreviation ErrCodeIllegalStateTransition :: string where
  "ErrCodeIllegalStateTransition \<equiv> ''DK_ILLEGAL_STATE_TRANSITION''"

abbreviation ErrCodeJobNotFound :: string where
  "ErrCodeJobNotFound \<equiv> ''DK_JOB_NOT_FOUND''"

abbreviation ErrCodeItemNotFound :: string where
  "ErrCodeItemNotFound \<equiv> ''DK_ITEM_NOT_FOUND''"

abbreviation ErrCodeAssetNotFound :: string where
  "ErrCodeAssetNotFound \<equiv> ''DK_ASSET_NOT_FOUND''"

abbreviation ErrCodeImageNotFound :: string where
  "ErrCodeImageNotFound \<equiv> ''DK_IMAGE_NOT_FOUND''"

abbreviation ErrCodePromptNotFound :: string where
  "ErrCodePromptNotFound \<equiv> ''DK_PROMPT_NOT_FOUND''"

abbreviation ErrCodeChatSessionNotFound :: string where
  "ErrCodeChatSessionNotFound \<equiv> ''DK_CHAT_SESSION_NOT_FOUND''"

abbreviation ErrCodeQuotaRequestNotFound :: string where
  "ErrCodeQuotaRequestNotFound \<equiv> ''DK_QUOTA_REQUEST_NOT_FOUND''"

abbreviation ErrCodeUnauthorized :: string where
  "ErrCodeUnauthorized \<equiv> ''DK_UNAUTHORIZED''"

abbreviation ErrCodeForbidden :: string where
  "ErrCodeForbidden \<equiv> ''DK_FORBIDDEN''"

abbreviation ErrCodeAPIKeyMissing :: string where
  "ErrCodeAPIKeyMissing \<equiv> ''DK_API_KEY_MISSING''"

abbreviation ErrCodeUpscaleUnavailable :: string where
  "ErrCodeUpscaleUnavailable \<equiv> ''DK_UPSCALE_UNAVAILABLE''"

abbreviation ErrCodeUpscaleQueueFull :: string where
  "ErrCodeUpscaleQueueFull \<equiv> ''DK_UPSCALE_QUEUE_FULL''"

abbreviation ErrCodeUpscaleNotFound :: string where
  "ErrCodeUpscaleNotFound \<equiv> ''DK_UPSCALE_NOT_FOUND''"

abbreviation ErrCodeUpscaleFailed :: string where
  "ErrCodeUpscaleFailed \<equiv> ''DK_UPSCALE_FAILED''"

abbreviation ErrCodePreprocessFailed :: string where
  "ErrCodePreprocessFailed \<equiv> ''DK_PREPROCESS_FAILED''"

abbreviation ErrCodeStorageError :: string where
  "ErrCodeStorageError \<equiv> ''DK_STORAGE_ERROR''"

abbreviation ErrCodeSyncInProgress :: string where
  "ErrCodeSyncInProgress \<equiv> ''DK_SYNC_IN_PROGRESS''"

abbreviation ErrCodeInternal :: string where
  "ErrCodeInternal \<equiv> ''DK_INTERNAL''"

definition error_codes :: "string list" where
  "error_codes =
     [ErrCodeInsufficientBalance, ErrCodeQuotaExhausted, ErrCodeUpstreamBusy,
      ErrCodeRateLimited, ErrCodeNoAvailableAccount, ErrCodeImageNotEnabled,
      ErrCodeModelNotAllowed, ErrCodeImagesAPIUnsupported, ErrCodeUpstreamBaseURL,
      ErrCodeUpstreamUnauthorized, ErrCodeContentBlocked, ErrCodeTimeout,
      ErrCodeCanceled, ErrCodeUpstreamError, ErrCodeStale,
      ErrCodeInvalidRequest, ErrCodeRatioNotAllowed, ErrCodeBatchTooLarge,
      ErrCodeIdempotencyKeyRequired, ErrCodeIdempotencyKeyConflict, ErrCodeUnsupportedImageFormat,
      ErrCodeImageTooLarge, ErrCodeMaxAttemptsExceeded, ErrCodeJobAlreadySettled,
      ErrCodeIllegalStateTransition, ErrCodeJobNotFound, ErrCodeItemNotFound,
      ErrCodeAssetNotFound, ErrCodeImageNotFound, ErrCodePromptNotFound,
      ErrCodeChatSessionNotFound, ErrCodeQuotaRequestNotFound, ErrCodeUnauthorized,
      ErrCodeForbidden, ErrCodeAPIKeyMissing, ErrCodeUpscaleUnavailable,
      ErrCodeUpscaleQueueFull, ErrCodeUpscaleNotFound, ErrCodeUpscaleFailed,
      ErrCodePreprocessFailed, ErrCodeStorageError, ErrCodeSyncInProgress,
      ErrCodeInternal]"

section \<open>The catalogue: message and HTTP status of every code\<close>

definition catalog_upstream :: "(string \<times> string \<times> int) list" where
  "catalog_upstream =
    [(ErrCodeInsufficientBalance, (bytes [228, 189, 153, 233, 162, 157, 228, 184, 141, 232, 182, 179, 239, 188, 140, 232, 191, 153,
       228, 184, 128, 230, 137, 185, 229, 135, 186, 228, 184, 141, 228, 186, 134, 227, 128, 130,
       229, 143, 175, 228, 187, 165, 231, 130, 185, 227, 128, 140, 231, 148, 179, 232, 175, 183,
       233, 162, 157, 229, 186, 166, 227, 128, 141, 233, 128, 154, 231, 159, 165, 231, 174, 161,
       231, 144, 134, 229, 145, 152, 239, 188, 140, 230, 136, 150, 232, 128, 133, 229, 176, 145,
       233, 128, 137, 229, 135, 160, 229, 188, 160, 229, 134, 141, 230, 143, 144, 228, 186, 164,
       227, 128, 130], 402)),
     (ErrCodeQuotaExhausted, (bytes [232, 191, 153, 228, 184, 170, 232, 180, 166, 229, 143, 183, 231, 154, 132, 231, 148, 168,
       233, 135, 143, 233, 162, 157, 229, 186, 166, 229, 183, 178, 231, 187, 143, 231, 148, 168,
       229, 174, 140, 228, 186, 134, 239, 188, 140, 232, 175, 183, 232, 129, 148, 231, 179, 187,
       231, 174, 161, 231, 144, 134, 229, 145, 152, 232, 176, 131, 230, 149, 180, 233, 162, 157,
       229, 186, 166, 227, 128, 130], 403)),
     (ErrCodeUpstreamBusy, (bytes [229, 135, 186, 229, 155, 190, 233, 128, 154, 233, 129, 147, 230, 173, 163, 229, 191, 153,
       239, 188, 140, 232, 191, 153, 229, 188, 160, 230, 142, 146, 229, 156, 168, 229, 144, 142,
       233, 157, 162, 228, 186, 134, 239, 188, 140, 231, 168, 141, 231, 173, 137, 228, 188, 154,
       232, 135, 170, 229, 138, 168, 233, 135, 141, 232, 175, 149, 227, 128, 130], 429)),
     (ErrCodeRateLimited, (bytes [230, 147, 141, 228, 189, 156, 229, 164, 170, 233, 162, 145, 231, 185, 129, 228, 186, 134,
       239, 188, 140, 232, 175, 183, 231, 173, 137, 229, 135, 160, 231, 167, 146, 229, 134, 141,
       232, 175, 149, 227, 128, 130], 429)),
     (ErrCodeNoAvailableAccount, (bytes [230, 154, 130, 230, 151, 182, 230, 178, 161, 230, 156, 137, 229, 143, 175, 231, 148, 168,
       231, 154, 132, 229, 135, 186, 229, 155, 190, 232, 180, 166, 229, 143, 183, 239, 188, 140,
       232, 175, 183, 231, 168, 141, 229, 144, 142, 229, 134, 141, 232, 175, 149, 239, 188, 155,
       228, 184, 128, 231, 155, 180, 232, 191, 153, 230, 160, 183, 229, 176, 177, 230, 152, 175,
       232, 180, 166, 229, 143, 183, 229, 135, 186, 233, 151, 174, 233, 162, 152, 228, 186, 134,
       239, 188, 140, 232, 175, 183, 232, 129, 148, 231, 179, 187, 231, 174, 161, 231, 144, 134,
       229, 145, 152, 227, 128, 130], 503)),
     (ErrCodeImageNotEnabled, (bytes [229, 189, 147, 229, 137, 141, 232, 180, 166, 229, 143, 183, 230, 137, 128, 229, 156, 168,
       231, 154, 132, 229, 136, 134, 231, 187, 132, 230, 178, 161, 230, 156, 137, 229, 188, 128,
       233, 128, 154, 229, 135, 186, 229, 155, 190, 229, 138, 159, 232, 131, 189, 239, 188, 140,
       232, 175, 183, 232, 129, 148, 231, 179, 187, 231, 174, 161, 231, 144, 134, 229, 145, 152,
       229, 156, 168, 229, 136, 134, 231, 187, 132, 232, 174, 190, 231, 189, 174, 233, 135, 140,
       230, 137, 147, 229, 188, 128, 229, 155, 190, 231, 137, 135, 231, 148, 159, 230, 136, 144,
       227, 128, 130], 403)),
     (ErrCodeModelNotAllowed, (bytes [229, 189, 147, 229, 137, 141, 229, 136, 134, 231, 187, 132, 228, 184, 141, 229, 133, 129,
       232, 174, 184, 228, 189, 191, 231, 148, 168, 232, 191, 153, 228, 184, 170, 229, 135, 186,
       229, 155, 190, 230, 168, 161, 229, 158, 139, 239, 188, 140, 232, 175, 183, 232, 129, 148,
       231, 179, 187, 231, 174, 161, 231, 144, 134, 229, 145, 152, 230, 138, 138, 230, 168, 161,
       229, 158, 139, 229, 138, 160, 232, 191, 155, 231, 153, 189, 229, 144, 141, 229, 141, 149,
       227, 128, 130], 403)),
     (ErrCodeImagesAPIUnsupported, (bytes [229, 189, 147, 229, 137, 141, 229, 136, 134, 231, 187, 132, 231, 187, 145, 229, 174, 154,
       231, 154, 132, 232, 180, 166, 229, 143, 183, 231, 177, 187, 229, 158, 139, 228, 184, 141,
       230, 148, 175, 230, 140, 129, 229, 135, 186, 229, 155, 190, 230, 142, 165, 229, 143, 163,
       239, 188, 140, 232, 175, 183, 232, 129, 148, 231, 179, 187, 231, 174, 161, 231, 144, 134,
       229, 145, 152, 230, 141, 162, 228, 184, 128, 228, 184, 170, 229, 136, 134, 231, 187, 132,
       227, 128, 130], 404)),
     (ErrCodeUpstreamBaseURL, (bytes [229, 135, 186, 229, 155, 190, 232, 180, 166, 229, 143, 183, 231, 154, 132, 227, 128, 140,
       228, 184, 173, 232, 189, 172, 229, 156, 176, 229, 157, 128, 227, 128, 141, 229, 161, 171,
       229, 190, 151, 228, 184, 141, 229, 175, 185, 239, 188, 140, 232, 191, 158, 228, 184, 141,
       228, 184, 138, 239, 188, 140, 232, 175, 183, 232, 129, 148, 231, 179, 187, 231, 174, 161,
       231, 144, 134, 229, 145, 152, 230, 163, 128, 230, 159, 165, 232, 180, 166, 229, 143, 183,
       233, 133, 141, 231, 189, 174, 227, 128, 130], 502)),
     (ErrCodeUpstreamUnauthorized, (bytes [229, 135, 186, 229, 155, 190, 232, 180, 166, 229, 143, 183, 231, 154, 132, 229, 175, 134,
       233, 146, 165, 230, 151, 160, 230, 149, 136, 230, 136, 150, 229, 183, 178, 232, 191, 135,
       230, 156, 159, 239, 188, 140, 232, 175, 183, 232, 129, 148, 231, 179, 187, 231, 174, 161,
       231, 144, 134, 229, 145, 152, 230, 155, 180, 230, 150, 176, 227, 128, 130], 502)),
     (ErrCodeContentBlocked, (bytes [232, 191, 153, 230, 157, 161, 230, 143, 144, 231, 164, 186, 232, 175, 141, 230, 136, 150,
       232, 191, 153, 229, 188, 160, 229, 149, 134, 229, 147, 129, 229, 155, 190, 232, 162, 171,
       229, 134, 133, 229, 174, 185, 229, 174, 161, 230, 160, 184, 230, 139, 166, 228, 184, 139,
       228, 186, 134, 239, 188, 140, 230, 141, 162, 228, 184, 170, 232, 175, 180, 230, 179, 149,
       230, 136, 150, 230, 141, 162, 229, 188, 160, 229, 155, 190, 229, 134, 141, 232, 175, 149,
       227, 128, 130], 422)),
     (ErrCodeTimeout, (bytes [232, 191, 153, 229, 188, 160, 229, 155, 190, 229, 143, 175, 232, 131, 189, 229, 183, 178,
       231, 187, 143, 231, 148, 159, 230, 136, 144, 229, 185, 182, 232, 174, 161, 232, 180, 185,
       239, 188, 140, 228, 189, 134, 230, 136, 145, 228, 187, 172, 230, 178, 161, 230, 148, 182,
       229, 136, 176, 231, 187, 147, 230, 158, 156, 227, 128, 130, 233, 156, 128, 232, 166, 129,
       231, 154, 132, 232, 175, 157, 229, 143, 175, 228, 187, 165, 230, 137, 139, 229, 138, 168,
       233, 135, 141, 232, 175, 149, 239, 188, 136, 228, 188, 154, 233, 135, 141, 230, 150, 176,
       230, 148, 182, 232, 180, 185, 239, 188, 137, 227, 128, 130], 504)),
     (ErrCodeCanceled, (bytes [232, 191, 153, 229, 188, 160, 229, 155, 190, 231, 154, 132, 232, 175, 183, 230, 177, 130,
       232, 162, 171, 228, 184, 173, 230, 150, 173, 228, 186, 134, 227, 128, 130], 500)),
     (ErrCodeUpstreamError, (bytes [229, 135, 186, 229, 155, 190, 229, 164, 177, 232, 180, 165, 239, 188, 140, 232, 175, 183,
       231, 168, 141, 229, 144, 142, 233, 135, 141, 232, 175, 149, 239, 188, 155, 228, 184, 128,
       231, 155, 180, 229, 164, 177, 232, 180, 165, 229, 176, 177, 230, 138, 138, 232, 191, 153,
       228, 184, 128, 232, 161, 140, 231, 154, 132, 233, 148, 153, 232, 175, 175, 231, 160, 129,
       229, 143, 145, 231, 187, 153, 231, 174, 161, 231, 144, 134, 229, 145, 152, 227, 128, 130], 502)),
     (ErrCodeStale, (bytes [231, 179, 187, 231, 187, 159, 233, 135, 141, 229, 144, 175, 229, 175, 188, 232, 135, 180,
       232, 191, 153, 230, 137, 185, 228, 187, 187, 229, 138, 161, 228, 184, 173, 230, 150, 173,
       228, 186, 134, 239, 188, 140, 229, 143, 175, 228, 187, 165, 233, 135, 141, 230, 150, 176,
       230, 143, 144, 228, 186, 164, 227, 128, 130, 229, 183, 178, 231, 187, 143, 229, 135, 186,
       229, 165, 189, 231, 154, 132, 229, 155, 190, 233, 131, 189, 229, 156, 168, 228, 189, 156,
       229, 147, 129, 229, 186, 147, 233, 135, 140, 227, 128, 130], 500))]"

definition catalog_request :: "(string \<times> string \<times> int) list" where
  "catalog_request =
    [(ErrCodeInvalidRequest, (bytes [230, 143, 144, 228, 186, 164, 231, 154, 132, 229, 134, 133, 229, 174, 185, 230, 156, 137,
       233, 151, 174, 233, 162, 152, 239, 188, 140, 232, 175, 183, 230, 163, 128, 230, 159, 165,
       229, 144, 142, 233, 135, 141, 232, 175, 149, 227, 128, 130], 400)),
     (ErrCodeRatioNotAllowed, (bytes [228, 184, 141, 230, 148, 175, 230, 140, 129, 232, 191, 153, 228, 184, 170, 229, 135, 186,
       229, 155, 190, 230, 175, 148, 228, 190, 139, 239, 188, 140, 232, 175, 183, 228, 187, 142,
       229, 136, 151, 232, 161, 168, 233, 135, 140, 233, 128, 137, 228, 184, 128, 228, 184, 170,
       227, 128, 130], 400)),
     (ErrCodeBatchTooLarge, (bytes [228, 184, 128, 230, 172, 161, 230, 143, 144, 228, 186, 164, 231, 154, 132, 229, 188, 160,
       230, 149, 176, 232, 182, 133, 232, 191, 135, 228, 184, 138, 233, 153, 144, 228, 186, 134,
       239, 188, 140, 232, 175, 183, 229, 176, 145, 233, 128, 137, 229, 135, 160, 229, 188, 160,
       229, 149, 134, 229, 147, 129, 229, 155, 190, 230, 136, 150, 230, 143, 144, 231, 164, 186,
       232, 175, 141, 227, 128, 130], 400)),
     (ErrCodeIdempotencyKeyRequired, (bytes [230, 143, 144, 228, 186, 164, 232, 175, 183, 230, 177, 130, 231, 188, 186, 229, 176, 145,
       233, 152, 178, 233, 135, 141, 229, 164, 141, 230, 160, 135, 232, 175, 134, 239, 188, 140,
       232, 175, 183, 229, 136, 183, 230, 150, 176, 233, 161, 181, 233, 157, 162, 233, 135, 141,
       232, 175, 149, 227, 128, 130], 400)),
     (ErrCodeIdempotencyKeyConflict, (bytes [232, 191, 153, 228, 184, 170, 230, 143, 144, 228, 186, 164, 230, 160, 135, 232, 175, 134,
       229, 136, 154, 230, 137, 141, 231, 148, 168, 232, 191, 135, 228, 186, 134, 239, 188, 140,
       228, 189, 134, 229, 134, 133, 229, 174, 185, 228, 184, 141, 228, 184, 128, 230, 160, 183,
       239, 188, 140, 232, 175, 183, 229, 136, 183, 230, 150, 176, 233, 161, 181, 233, 157, 162,
       233, 135, 141, 230, 150, 176, 230, 143, 144, 228, 186, 164, 227, 128, 130], 409)),
     (ErrCodeUnsupportedImageFormat, (bytes [232, 191, 153, 228, 184, 170, 229, 155, 190, 231, 137, 135, 230, 160, 188, 229, 188, 143,
       228, 184, 141, 230, 148, 175, 230, 140, 129, 239, 188, 140, 232, 175, 183, 228, 184, 138,
       228, 188, 160, 32, 74, 80, 71, 227, 128, 129, 80, 78, 71, 227, 128, 129, 87, 69, 66, 80,
       32, 230, 136, 150, 32, 72, 69, 73, 67, 227, 128, 130], 415)),
     (ErrCodeImageTooLarge, (bytes [229, 155, 190, 231, 137, 135, 229, 164, 170, 229, 164, 167, 228, 186, 134, 239, 188, 140,
       232, 175, 183, 229, 142, 139, 229, 136, 176, 32, 50, 48, 77, 66, 32, 228, 187, 165, 229,
       134, 133, 229, 134, 141, 228, 184, 138, 228, 188, 160, 227, 128, 130], 413)),
     (ErrCodeMaxAttemptsExceeded, (bytes [232, 191, 153, 229, 188, 160, 229, 155, 190, 229, 183, 178, 231, 187, 143, 233, 135, 141,
       232, 175, 149, 229, 136, 176, 228, 184, 138, 233, 153, 144, 228, 186, 134, 239, 188, 140,
       228, 184, 141, 232, 131, 189, 229, 134, 141, 232, 175, 149, 227, 128, 130, 230, 131, 179,
       231, 187, 167, 231, 187, 173, 229, 143, 175, 228, 187, 165, 233, 135, 141, 230, 150, 176,
       230, 143, 144, 228, 186, 164, 228, 184, 128, 230, 137, 185, 227, 128, 130], 409)),
     (ErrCodeJobAlreadySettled, (bytes [232, 191, 153, 230, 137, 185, 228, 187, 187, 229, 138, 161, 229, 183, 178, 231, 187, 143,
       231, 187, 147, 231, 174, 151, 239, 188, 140, 228, 184, 141, 232, 131, 189, 229, 134, 141,
       233, 135, 141, 232, 175, 149, 228, 186, 134, 239, 188, 140, 232, 175, 183, 233, 135, 141,
       230, 150, 176, 230, 143, 144, 228, 186, 164, 227, 128, 130], 409)),
     (ErrCodeIllegalStateTransition, (bytes [232, 191, 153, 228, 184, 170, 228, 187, 187, 229, 138, 161, 231, 154, 132, 231, 138, 182,
       230, 128, 129, 229, 183, 178, 231, 187, 143, 229, 143, 152, 228, 186, 134, 239, 188, 140,
       232, 175, 183, 229, 136, 183, 230, 150, 176, 233, 161, 181, 233, 157, 162, 231, 156, 139,
       230, 156, 128, 230, 150, 176, 232, 191, 155, 229, 186, 166, 227, 128, 130], 409)),
     (ErrCodeJobNotFound, (bytes [230, 137, 190, 228, 184, 141, 229, 136, 176, 232, 191, 153, 228, 184, 170, 228, 187, 187,
       229, 138, 161, 239, 188, 140, 229, 143, 175, 232, 131, 189, 229, 183, 178, 231, 187, 143,
       232, 162, 171, 229, 136, 160, 233, 153, 164, 228, 186, 134, 227, 128, 130], 404)),
     (ErrCodeChatSessionNotFound, (bytes [230, 137, 190, 228, 184, 141, 229, 136, 176, 232, 191, 153, 231, 187, 132, 229, 175, 185,
       232, 175, 157, 239, 188, 140, 229, 143, 175, 232, 131, 189, 229, 183, 178, 231, 187, 143,
       232, 162, 171, 229, 136, 160, 233, 153, 164, 228, 186, 134, 227, 128, 130], 404)),
     (ErrCodeItemNotFound, (bytes [230, 137, 190, 228, 184, 141, 229, 136, 176, 232, 191, 153, 228, 184, 128, 229, 188, 160,
       229, 155, 190, 231, 154, 132, 232, 174, 176, 229, 189, 149, 227, 128, 130], 404)),
     (ErrCodeAssetNotFound, (bytes [230, 137, 190, 228, 184, 141, 229, 136, 176, 232, 191, 153, 229, 188, 160, 229, 149, 134,
       229, 147, 129, 229, 155, 190, 239, 188, 140, 229, 143, 175, 232, 131, 189, 229, 183, 178,
       231, 187, 143, 232, 162, 171, 229, 136, 160, 233, 153, 164, 228, 186, 134, 227, 128, 130], 404)),
     (ErrCodeImageNotFound, (bytes [230, 137, 190, 228, 184, 141, 229, 136, 176, 232, 191, 153, 229, 188, 160, 231, 187, 147,
       230, 158, 156, 229, 155, 190, 239, 188, 140, 229, 143, 175, 232, 131, 189, 229, 183, 178,
       231, 187, 143, 232, 162, 171, 229, 136, 160, 233, 153, 164, 228, 186, 134, 227, 128, 130], 404)),
     (ErrCodePromptNotFound, (bytes [230, 137, 190, 228, 184, 141, 229, 136, 176, 232, 191, 153, 230, 157, 161, 230, 143, 144,
       231, 164, 186, 232, 175, 141, 239, 188, 140, 229, 143, 175, 232, 131, 189, 229, 183, 178,
       231, 187, 143, 228, 187, 142, 231, 129, 181, 230, 132, 159, 229, 186, 147, 228, 184, 139,
       230, 158, 182, 228, 186, 134, 227, 128, 130], 404)),
     (ErrCodeQuotaRequestNotFound, (bytes [230, 137, 190, 228, 184, 141, 229, 136, 176, 232, 191, 153, 230, 157, 161, 231, 148, 179,
       232, 175, 183, 239, 188, 140, 229, 136, 183, 230, 150, 176, 229, 136, 151, 232, 161, 168,
       231, 156, 139, 230, 156, 128, 230, 150, 176, 231, 138, 182, 230, 128, 129, 227, 128, 130], 404)),
     (ErrCodeUnauthorized, (bytes [231, 153, 187, 229, 189, 149, 229, 183, 178, 232, 191, 135, 230, 156, 159, 239, 188, 140,
       232, 175, 183, 233, 135, 141, 230, 150, 176, 231, 153, 187, 229, 189, 149, 227, 128, 130], 401)),
     (ErrCodeForbidden, (bytes [230, 178, 161, 230, 156, 137, 230, 157, 131, 233, 153, 144, 229, 129, 154, 232, 191, 153,
       228, 184, 170, 230, 147, 141, 228, 189, 156, 227, 128, 130], 403)),
     (ErrCodeAPIKeyMissing, (bytes [232, 180, 166, 229, 143, 183, 232, 191, 152, 230, 178, 161, 229, 188, 128, 233, 128, 154,
       229, 135, 186, 229, 155, 190, 230, 157, 131, 233, 153, 144, 239, 188, 140, 232, 175, 183,
       232, 129, 148, 231, 179, 187, 231, 174, 161, 231, 144, 134, 229, 145, 152, 227, 128, 130], 403)),
     (ErrCodeUpscaleUnavailable, (bytes [230, 148, 190, 229, 164, 167, 229, 138, 159, 232, 131, 189, 232, 191, 152, 230, 178, 161,
       229, 135, 134, 229, 164, 135, 229, 165, 189, 239, 188, 140, 232, 175, 183, 232, 129, 148,
       231, 179, 187, 231, 174, 161, 231, 144, 134, 229, 145, 152, 227, 128, 130], 503)),
     (ErrCodeUpscaleQueueFull, (bytes [230, 142, 146, 233, 152, 159, 230, 187, 161, 228, 186, 134, 239, 188, 140, 231, 173, 137,
       228, 188, 154, 229, 132, 191, 229, 134, 141, 232, 175, 149, 227, 128, 130], 429)),
     (ErrCodeUpscaleNotFound, (bytes [230, 178, 161, 230, 156, 137, 232, 191, 153, 229, 188, 160, 229, 155, 190, 231, 154, 132,
       230, 148, 190, 229, 164, 167, 228, 187, 187, 229, 138, 161, 239, 188, 140, 233, 135, 141,
       230, 150, 176, 231, 130, 185, 227, 128, 140, 233, 171, 152, 230, 184, 133, 230, 148, 190,
       229, 164, 167, 227, 128, 141, 227, 128, 130], 404)),
     (ErrCodeUpscaleFailed, (bytes [230, 148, 190, 229, 164, 167, 229, 164, 177, 232, 180, 165, 239, 188, 140, 233, 135, 141,
       232, 175, 149, 228, 184, 128, 230, 172, 161, 227, 128, 130], 502)),
     (ErrCodePreprocessFailed, (bytes [229, 149, 134, 229, 147, 129, 229, 155, 190, 229, 164, 132, 231, 144, 134, 229, 164, 177,
       232, 180, 165, 239, 188, 136, 232, 161, 165, 231, 153, 189, 232, 190, 185, 230, 136, 150,
       230, 160, 188, 229, 188, 143, 232, 189, 172, 230, 141, 162, 239, 188, 137, 239, 188, 140,
       232, 175, 183, 230, 141, 162, 228, 184, 128, 229, 188, 160, 229, 155, 190, 229, 134, 141,
       232, 175, 149, 227, 128, 130], 502)),
     (ErrCodeStorageError, (bytes [229, 155, 190, 231, 137, 135, 229, 173, 152, 229, 143, 150, 229, 164, 177, 232, 180, 165,
       239, 188, 140, 232, 175, 183, 231, 168, 141, 229, 144, 142, 233, 135, 141, 232, 175, 149,
       239, 188, 155, 228, 184, 128, 231, 155, 180, 229, 164, 177, 232, 180, 165, 232, 175, 183,
       232, 129, 148, 231, 179, 187, 231, 174, 161, 231, 144, 134, 229, 145, 152, 227, 128, 130], 500)),
     (ErrCodeSyncInProgress, (bytes [231, 129, 181, 230, 132, 159, 229, 186, 147, 230, 173, 163, 229, 156, 168, 229, 144, 140,
       230, 173, 165, 239, 188, 140, 232, 175, 183, 231, 173, 137, 232, 191, 153, 228, 184, 128,
       230, 172, 161, 232, 183, 145, 229, 174, 140, 229, 134, 141, 231, 130, 185, 227, 128, 130], 409)),
     (ErrCodeInternal, (bytes [231, 179, 187, 231, 187, 159, 229, 188, 128, 229, 176, 143, 229, 183, 174, 228, 186, 134,
       239, 188, 140, 232, 175, 183, 231, 168, 141, 229, 144, 142, 233, 135, 141, 232, 175, 149,
       239, 188, 155, 228, 184, 128, 231, 155, 180, 232, 191, 153, 230, 160, 183, 232, 175, 183,
       232, 129, 148, 231, 179, 187, 231, 174, 161, 231, 144, 134, 229, 145, 152, 227, 128, 130], 500))]"

definition error_catalog :: "string \<Rightarrow> (string \<times> int) option" where
  "error_catalog code = map_of (catalog_upstream @ catalog_request) code"

text \<open>\<open>NewError\<close>: an unknown code degrades to \<open>DK_INTERNAL\<close>.\<close>

definition new_error :: "string \<Rightarrow> dk_error" where
  "new_error code =
     (case error_catalog code of
        Some (msg, status) \<Rightarrow> DesignkitError code msg status [] None
      | None \<Rightarrow>
          (case error_catalog ErrCodeInternal of
             Some (msg, status) \<Rightarrow> DesignkitError ErrCodeInternal msg status [] None
           | None \<Rightarrow> DesignkitError ErrCodeInternal [] 0 [] None))"

section \<open>Upstream errors\<close>

text \<open>The rules in their order: the keywords of a rule, in lower case, and its code.\<close>

definition upstream_error_rules :: "(string \<times> string list) list" where
  "upstream_error_rules =
     [(ErrCodeContentBlocked,
       [''content policy'', ''content_policy'', ''content moderation'',
        ''content_moderation'', ''content filter'', ''content_filter'',
        ''moderation_blocked'', ''moderation blocked'', ''image is sensitive'',
        ''text is sensitive'', ''prohibited content'', ''forbidden content'',
        ''violates policy'', ''violates content policy'', ''safety system'',
        ''new_sensitive'']),
      (ErrCodeImageNotEnabled,
       [''image generation is not enabled for this group'',
        ''image generation disabled for group'']),
      (ErrCodeUpstreamBusy,
       [''image generation concurrency limit exceeded'', ''concurrency limit exceeded'',
        ''concurrency limit reached'', ''concurrency slot'', ''too many pending requests'']),
      (ErrCodeRateLimited,
       [''requests-per-minute limit exceeded'', ''rate limit exceeded'']),
      (ErrCodeQuotaExhausted,
       [
        ''api key '' @ bytes [233, 162, 157, 229, 186, 166, 229, 183, 178, 231, 148, 168, 229, 174, 140],
        ''api key 5'' @ bytes [229, 176, 143, 230, 151, 182, 233, 153, 144, 233, 162, 157, 229, 183, 178, 231, 148, 168, 229, 174, 140],
        ''api key '' @ bytes [230, 151, 165, 233, 153, 144, 233, 162, 157, 229, 183, 178, 231, 148, 168, 229, 174, 140],
        ''api key 7'' @ bytes [229, 164, 169, 233, 153, 144, 233, 162, 157, 229, 183, 178, 231, 148, 168, 229, 174, 140],
        ''daily usage limit exceeded'', ''weekly usage limit exceeded'',
        ''monthly usage limit exceeded'', ''usage quota exhausted for this platform'',
        ''quota exceeded'', ''insufficient_quota'']),
      (ErrCodeInsufficientBalance,
       [''insufficient balance'', ''insufficient account balance'', ''run out of credits'',
        ''billing hard limit'']),
      (ErrCodeNoAvailableAccount,
       [''no available account'', ''no healthy account'', ''no healthy upstream account'',
        ''account pool'']),
      (ErrCodeModelNotAllowed,
       [''not in whitelist'', ''model not supported'', ''unsupported model'',
        ''does not support the requested model'',
        ''not supported by any configured account'']),
      (ErrCodeImagesAPIUnsupported,
       [''images api is not supported for this platform'']),
      (ErrCodeUpstreamBaseURL,
       [''invalid base_url'', ''host is not allowed'']),
      (ErrCodeUpstreamUnauthorized,
       [''invalid_api_key'', ''invalid api key'', ''incorrect api key'', ''unauthorized'',
        ''authentication_error'']),
      (ErrCodeCanceled,
       [''context canceled'', ''client disconnected'']),
      (ErrCodeTimeout,
       [''context deadline exceeded'', ''timed out'', ''timeout''])]"

definition code_for_upstream_status :: "int \<Rightarrow> string" where
  "code_for_upstream_status status =
     (if status = 401 then ErrCodeUpstreamUnauthorized
      else if status = 402 then ErrCodeInsufficientBalance
      else if status = 429 then ErrCodeUpstreamBusy
      else if status = 408 \<or> status = 504 then ErrCodeTimeout
      else if status = 422 then ErrCodeContentBlocked
      else ErrCodeUpstreamError)"

definition rule_matches :: "string \<Rightarrow> string \<times> string list \<Rightarrow> bool" where
  "rule_matches text rule = list_ex (\<lambda>kw. contains text kw) (snd rule)"

definition map_upstream_error :: "int \<Rightarrow> string \<Rightarrow> dk_error" where
  "map_upstream_error upstream_status upstream_message =
     (let raw = trim_space upstream_message; lower = to_lower raw
      in case (if lower = [] then None else find (rule_matches lower) upstream_error_rules) of
           Some rule \<Rightarrow> with_upstream (new_error (fst rule)) raw
         | None \<Rightarrow> with_upstream (new_error (code_for_upstream_status upstream_status)) raw)"

section \<open>Facts about the catalogue\<close>

lemma catalog_codes: "map fst (catalog_upstream @ catalog_request) = [ErrCodeInsufficientBalance, ErrCodeQuotaExhausted, ErrCodeUpstreamBusy, ErrCodeRateLimited, ErrCodeNoAvailableAccount, ErrCodeImageNotEnabled, ErrCodeModelNotAllowed, ErrCodeImagesAPIUnsupported, ErrCodeUpstreamBaseURL, ErrCodeUpstreamUnauthorized, ErrCodeContentBlocked, ErrCodeTimeout, ErrCodeCanceled, ErrCodeUpstreamError, ErrCodeStale, ErrCodeInvalidRequest, ErrCodeRatioNotAllowed, ErrCodeBatchTooLarge, ErrCodeIdempotencyKeyRequired, ErrCodeIdempotencyKeyConflict, ErrCodeUnsupportedImageFormat, ErrCodeImageTooLarge, ErrCodeMaxAttemptsExceeded, ErrCodeJobAlreadySettled, ErrCodeIllegalStateTransition, ErrCodeJobNotFound, ErrCodeChatSessionNotFound, ErrCodeItemNotFound, ErrCodeAssetNotFound, ErrCodeImageNotFound, ErrCodePromptNotFound, ErrCodeQuotaRequestNotFound, ErrCodeUnauthorized, ErrCodeForbidden, ErrCodeAPIKeyMissing, ErrCodeUpscaleUnavailable, ErrCodeUpscaleQueueFull, ErrCodeUpscaleNotFound, ErrCodeUpscaleFailed, ErrCodePreprocessFailed, ErrCodeStorageError, ErrCodeSyncInProgress, ErrCodeInternal]"
  by (simp only: catalog_upstream_def catalog_request_def list.map append.simps fst_conv)

lemma catalog_statuses:
  "(code, msg, status) \<in> set (catalog_upstream @ catalog_request) \<Longrightarrow> 400 \<le> status \<and> status < 600"
proof -
  assume a: "(code, msg, status) \<in> set (catalog_upstream @ catalog_request)"
  have "list_all (\<lambda>s. 400 \<le> s \<and> s < 600) (map (snd \<circ> snd) (catalog_upstream @ catalog_request))"
    by (simp only: catalog_upstream_def catalog_request_def list.map append.simps o_apply snd_conv
        list.pred_inject) simp
  then show ?thesis using a by (force simp: list_all_iff)
qed

lemma codes_same_set: "set [ErrCodeInsufficientBalance, ErrCodeQuotaExhausted, ErrCodeUpstreamBusy, ErrCodeRateLimited, ErrCodeNoAvailableAccount, ErrCodeImageNotEnabled, ErrCodeModelNotAllowed, ErrCodeImagesAPIUnsupported, ErrCodeUpstreamBaseURL, ErrCodeUpstreamUnauthorized, ErrCodeContentBlocked, ErrCodeTimeout, ErrCodeCanceled, ErrCodeUpstreamError, ErrCodeStale, ErrCodeInvalidRequest, ErrCodeRatioNotAllowed, ErrCodeBatchTooLarge, ErrCodeIdempotencyKeyRequired, ErrCodeIdempotencyKeyConflict, ErrCodeUnsupportedImageFormat, ErrCodeImageTooLarge, ErrCodeMaxAttemptsExceeded, ErrCodeJobAlreadySettled, ErrCodeIllegalStateTransition, ErrCodeJobNotFound, ErrCodeChatSessionNotFound, ErrCodeItemNotFound, ErrCodeAssetNotFound, ErrCodeImageNotFound, ErrCodePromptNotFound, ErrCodeQuotaRequestNotFound, ErrCodeUnauthorized, ErrCodeForbidden, ErrCodeAPIKeyMissing, ErrCodeUpscaleUnavailable, ErrCodeUpscaleQueueFull, ErrCodeUpscaleNotFound, ErrCodeUpscaleFailed, ErrCodePreprocessFailed, ErrCodeStorageError, ErrCodeSyncInProgress, ErrCodeInternal] = set error_codes"
  by code_simp

lemma catalog_dom: "(error_catalog code \<noteq> None) = (code \<in> set error_codes)"
proof -
  have "(error_catalog code \<noteq> None) = (code \<in> set (map fst (catalog_upstream @ catalog_request)))"
    by (simp only: error_catalog_def map_of_eq_None_iff set_map) simp
  also have "\<dots> = (code \<in> set error_codes)"
    unfolding catalog_codes using codes_same_set by simp
  finally show ?thesis .
qed

lemma new_error_code: "dk_code (new_error code) = (if code \<in> set error_codes then code else ErrCodeInternal)"
proof (cases "error_catalog code")
  case None
  then have "code \<notin> set error_codes" using catalog_dom by blast
  with None show ?thesis by (cases "error_catalog ErrCodeInternal") (auto simp: new_error_def)
next
  case (Some p)
  then have "code \<in> set error_codes" using catalog_dom by blast
  with Some show ?thesis by (cases p) (simp add: new_error_def)
qed

lemma internal_listed: "ErrCodeInternal \<in> set error_codes"
  by (simp add: error_codes_def)

lemma new_error_listed: "dk_code (new_error code) \<in> set error_codes"
  using internal_listed by (simp add: new_error_code)

lemma new_error_status: "400 \<le> dk_status (new_error code) \<and> dk_status (new_error code) < 600"
proof -
  obtain c msg status where e: "error_catalog c = Some (msg, status)"
    and n: "dk_status (new_error code) = status"
  proof (cases "error_catalog code")
    case None
    obtain p where "error_catalog ErrCodeInternal = Some p" using catalog_dom internal_listed by blast
    with None that show ?thesis by (cases p) (auto simp: new_error_def)
  next
    case (Some p)
    with that show ?thesis by (cases p) (auto simp: new_error_def)
  qed
  from e have "(c, msg, status) \<in> set (catalog_upstream @ catalog_request)"
    unfolding error_catalog_def by (rule map_of_SomeD)
  with n show ?thesis using catalog_statuses by blast
qed

lemma new_error_plain [simp]: "dk_cause (new_error code) = None" "dk_upstream (new_error code) = []"
  by (auto simp: new_error_def split: option.splits)

lemma rules_listed: "rule \<in> set upstream_error_rules \<Longrightarrow> fst rule \<in> set error_codes"
proof -
  have "list_all (\<lambda>c. List.member error_codes c) (map fst upstream_error_rules)" by code_simp
  then show "rule \<in> set upstream_error_rules \<Longrightarrow> fst rule \<in> set error_codes"
    by (auto simp: list_all_iff)
qed

lemma rules_keywords: "rule \<in> set upstream_error_rules \<Longrightarrow> [] \<notin> set (snd rule)"
proof -
  have "list_all (\<lambda>r. list_all (\<lambda>k. k \<noteq> []) (snd r)) upstream_error_rules" by code_simp
  then show "rule \<in> set upstream_error_rules \<Longrightarrow> [] \<notin> set (snd rule)"
    by (auto simp: list_all_iff)
qed

lemma code_for_upstream_status_listed: "code_for_upstream_status st \<in> set error_codes"
  unfolding code_for_upstream_status_def error_codes_def by simp

lemma rule_matches_Nil: "rule \<in> set upstream_error_rules \<Longrightarrow> \<not> rule_matches [] rule"
  using rules_keywords by (auto simp: rule_matches_def list_ex_iff)

lemma find_nth: "find P xs = Some x \<longleftrightarrow> (\<exists>i < length xs. P (xs ! i) \<and> x = xs ! i \<and> (\<forall>j < i. \<not> P (xs ! j)))"
  by (simp add: find_Some_iff)

lemma map_upstream_error_code:
  "dk_code (map_upstream_error st m) =
     (case find (rule_matches (to_lower (trim_space m))) upstream_error_rules of
        Some rule \<Rightarrow> fst rule | None \<Rightarrow> code_for_upstream_status st)"
proof (cases "to_lower (trim_space m) = []")
  case True
  then have "find (rule_matches (to_lower (trim_space m))) upstream_error_rules = None"
    using rule_matches_Nil by (auto simp: find_None_iff)
  with True show ?thesis
    by (simp add: map_upstream_error_def Let_def new_error_code code_for_upstream_status_listed)
next
  case False
  then show ?thesis
    by (auto simp: map_upstream_error_def Let_def new_error_code code_for_upstream_status_listed
        dest!: find_SomeD dest: rules_listed split: option.splits)
qed

section \<open>Properties\<close>

text \<open>The error catalogue is total: for every code of the list \<open>NewError\<close> keeps the code, any
  other code degrades to \<open>DK_INTERNAL\<close>, and in both cases the error carries a 4xx or 5xx HTTP
  status and no upstream text.\<close>

theorem new_error_total:
  "dk_code (new_error code) = (if code \<in> set error_codes then code else ErrCodeInternal)
   \<and> 400 \<le> dk_status (new_error code) \<and> dk_status (new_error code) < 600
   \<and> dk_upstream (new_error code) = []"
  using new_error_code new_error_status by simp

text \<open>A keyword found in an upstream text decides its code before any later rule and before
  the HTTP status: the code is that of the rule with the keyword or of an earlier rule that also
  matches, and the status plays no part; the upstream text is kept, trimmed.\<close>

theorem map_upstream_error_priority:
  assumes "i < length upstream_error_rules"
    and "kw \<in> set (snd (upstream_error_rules ! i))"
    and "contains (to_lower (trim_space m)) kw"
  shows "(\<exists>j \<le> i. rule_matches (to_lower (trim_space m)) (upstream_error_rules ! j)
            \<and> (\<forall>st. dk_code (map_upstream_error st m) = fst (upstream_error_rules ! j)))
         \<and> dk_upstream (map_upstream_error st m) = trim_space (trim_space m)"
proof -
  let ?P = "rule_matches (to_lower (trim_space m))"
  have "?P (upstream_error_rules ! i)" using assms by (auto simp: rule_matches_def list_ex_iff)
  then have ex: "\<exists>k. ?P (upstream_error_rules ! k)" by blast
  define j where "j = (LEAST k. ?P (upstream_error_rules ! k))"
  have "?P (upstream_error_rules ! j)" and "j \<le> i" and least: "\<And>k. k < j \<Longrightarrow> \<not> ?P (upstream_error_rules ! k)"
    using ex \<open>?P (upstream_error_rules ! i)\<close> unfolding j_def
    by (auto intro: LeastI_ex Least_le dest: not_less_Least)
  with assms(1) have "find ?P upstream_error_rules = Some (upstream_error_rules ! j)"
    unfolding find_nth by (intro exI[of _ j]) auto
  then have "\<forall>st. dk_code (map_upstream_error st m) = fst (upstream_error_rules ! j)"
    by (simp add: map_upstream_error_code)
  moreover have "dk_upstream (map_upstream_error st m) = trim_space (trim_space m)"
    by (simp add: map_upstream_error_def Let_def split: option.splits)
  ultimately show ?thesis using \<open>j \<le> i\<close> \<open>?P (upstream_error_rules ! j)\<close> by blast
qed

lemma map_upstream_error_priority_witness:
  "\<exists>j \<le> 2. rule_matches (to_lower (trim_space ''Concurrency slot timeout'')) (upstream_error_rules ! j)
     \<and> (\<forall>st. dk_code (map_upstream_error st ''Concurrency slot timeout'') = fst (upstream_error_rules ! j))"
proof -
  have 1: "2 < length upstream_error_rules" by (simp add: upstream_error_rules_def)
  have 2: "''concurrency slot'' \<in> set (snd (upstream_error_rules ! 2))"
    by (simp add: upstream_error_rules_def)
  have "to_lower (trim_space ''Concurrency slot timeout'') = ''concurrency slot timeout''"
    by (simp add: trim_space_ends plain_char_def to_lower_ascii lower_char_def char_of_def bit_Suc_0_iff)
  then have 3: "contains (to_lower (trim_space ''Concurrency slot timeout'')) ''concurrency slot''"
    by (simp add: has_prefix_def)
  show ?thesis using map_upstream_error_priority[OF 1 2 3] by blast
qed

end
