(* ===== verification/Ratio.thy ===== *)
theory Ratio
  imports Go_Errors
begin

text \<open>
  Aspect ratios and billing tiers: \<open>domain/ratio.go\<close>. A \<open>Ratio\<close> is a string \<open>W:H\<close>. Go's \<open>int\<close> has
  64 bits, so the product in \<open>TargetSize\<close> is written with its wrap-around.
\<close>

type_synonym ratio = string

definition default_ratios :: "ratio list" where
  "default_ratios = [''1:1'', ''3:4'', ''4:3'', ''16:9'', ''9:16'']"

text \<open>The errors carry the rejected string; the sentence the code puts around it is left out.\<close>

definition invalid_ratio :: "string \<Rightarrow> go_error" where
  "invalid_ratio s = Wrapped s (Sentinel ErrInvalidRatio)"

definition parse_ratio_parts :: "string \<Rightarrow> go_error + int \<times> int" where
  "parse_ratio_parts s =
     (let parts = split_on (CHR '':'') (trim_space s)
      in if length parts \<noteq> 2 then Inl (invalid_ratio s)
         else case atoi (trim_space (parts ! 0)) of
             None \<Rightarrow> Inl (invalid_ratio s)
           | Some width \<Rightarrow>
               if width \<le> 0 then Inl (invalid_ratio s)
               else case atoi (trim_space (parts ! 1)) of
                   None \<Rightarrow> Inl (invalid_ratio s)
                 | Some height \<Rightarrow>
                     if height \<le> 0 then Inl (invalid_ratio s) else Inr (width, height))"

definition parse_ratio :: "string \<Rightarrow> go_error + ratio" where
  "parse_ratio s =
     (case parse_ratio_parts s of
        Inl e \<Rightarrow> Inl e | Inr (w, h) \<Rightarrow> Inr (itoa w @ '':'' @ itoa h))"

definition is_well_formed :: "ratio \<Rightarrow> bool" where
  "is_well_formed r = (case parse_ratio_parts r of Inl _ \<Rightarrow> False | Inr _ \<Rightarrow> True)"

definition is_allowed :: "ratio \<Rightarrow> ratio list \<Rightarrow> bool" where
  "is_allowed r allowed = list_ex (\<lambda>a. a = r) allowed"

definition validate_ratio :: "ratio \<Rightarrow> ratio list \<Rightarrow> go_error option" where
  "validate_ratio r allowed =
     (case parse_ratio_parts r of
        Inl e \<Rightarrow> Some e
      | Inr _ \<Rightarrow> if is_allowed r allowed then None else Some (Wrapped r (Sentinel ErrRatioNotAllowed)))"

definition target_size :: "ratio \<Rightarrow> int \<Rightarrow> go_error + int \<times> int" where
  "target_size r max_dimension =
     (case parse_ratio_parts r of
        Inl e \<Rightarrow> Inl e
      | Inr (w, h) \<Rightarrow>
          if max_dimension \<le> 0 then Inl (invalid_ratio (itoa max_dimension))
          else let (width, height) =
                 (if h \<le> w then (max_dimension, go_div (wrap64 (max_dimension * h)) w)
                  else (go_div (wrap64 (max_dimension * w)) h, max_dimension))
               in Inr (if width < 1 then 1 else width, if height < 1 then 1 else height))"

section \<open>Billing tiers\<close>

definition all_billing_tiers :: "string list" where
  "all_billing_tiers = [''1K'', ''2K'', ''4K'']"

definition classify_billing_tier :: "int \<Rightarrow> int \<Rightarrow> string" where
  "classify_billing_tier width height =
     (if width \<le> 0 \<or> height \<le> 0 then []
      else let max_edge = (if height > width then height else width)
           in if max_edge \<le> 1024 then ''1K'' else if max_edge \<le> 2048 then ''2K'' else ''4K'')"

definition classify_billing_tier_or_default :: "int \<Rightarrow> int \<Rightarrow> string" where
  "classify_billing_tier_or_default width height =
     (let tier = classify_billing_tier width height in if tier \<noteq> [] then tier else ''2K'')"

definition billing_tier_rank :: "string \<Rightarrow> int" where
  "billing_tier_rank tier =
     (if tier = ''1K'' then 1 else if tier = ''2K'' then 2 else if tier = ''4K'' then 3 else 0)"

fun highest_from :: "string \<Rightarrow> string list \<Rightarrow> string" where
  "highest_from best [] = best"
| "highest_from best (t # ts) =
     highest_from (if billing_tier_rank t > billing_tier_rank best then t else best) ts"

definition highest_billing_tier :: "string list \<Rightarrow> string" where
  "highest_billing_tier tiers = highest_from [] tiers"

section \<open>Lemmas\<close>

lemma itoa_plain: "0 \<le> n \<Longrightarrow> \<forall>c \<in> set (itoa n). plain_char c \<and> c \<noteq> CHR '':''"
  using fmt_pad_chars digit_val_plain by (auto simp: itoa_fmt_pad)

lemma parse_ratio_printed:
  assumes "0 < w" "w < 2 ^ 63" "0 < h" "h < 2 ^ 63"
  shows "parse_ratio_parts (itoa w @ '':'' @ itoa h) = Inr (w, h)"
proof -
  have w: "\<forall>c \<in> set (itoa w). plain_char c \<and> c \<noteq> CHR '':''"
    and h: "\<forall>c \<in> set (itoa h). plain_char c \<and> c \<noteq> CHR '':''"
    using itoa_plain[of w] itoa_plain[of h] assms by auto
  have "\<forall>c \<in> set (itoa w @ '':'' @ itoa h). plain_char c"
    using w h by (auto simp: plain_char_def)
  then have t: "trim_space (itoa w @ '':'' @ itoa h) = itoa w @ '':'' @ itoa h"
    by (rule trim_space_plain)
  have "CHR '':'' \<notin> set (itoa w)" "CHR '':'' \<notin> set (itoa h)" using w h by auto
  then have "split_on (CHR '':'') (itoa w @ '':'' @ itoa h) = [itoa w, itoa h]"
    using split_on_append[of "CHR '':''" "itoa w" "itoa h"] by (simp add: split_on_no_sep)
  moreover have "trim_space (itoa w) = itoa w" "trim_space (itoa h) = itoa h"
    using w h by (simp_all add: trim_space_plain)
  ultimately show ?thesis using assms unfolding parse_ratio_parts_def t by (simp add: atoi_itoa)
qed

lemma atoi_range: "atoi s = Some n \<Longrightarrow> in_int64 n"
  by (auto simp: atoi_def Let_def split: prod.splits if_splits option.splits)

lemma parse_ratio_parts_pos:
  "parse_ratio_parts s = Inr (w, h) \<Longrightarrow> 0 < w \<and> w < 2 ^ 63 \<and> 0 < h \<and> h < 2 ^ 63"
  by (auto simp: parse_ratio_parts_def Let_def dest: atoi_range split: if_splits option.splits)

lemma scaled_bounds:
  assumes "0 < m" "0 < a" "a \<le> b" "m * b < 2 ^ 63"
  shows "go_div (wrap64 (m * a)) b = m * a div b \<and> m * a div b \<le> m \<and> 0 \<le> m * a div b"
proof -
  have le: "m * a \<le> m * b" using assms by (simp add: mult_left_mono)
  have nn: "0 \<le> m * a" using assms by simp
  have "in_int64 (m * a)" using le nn assms(4) by linarith
  then have "wrap64 (m * a) = m * a" by (rule wrap64_id)
  moreover have "go_div (m * a) b = m * a div b" using assms nn by (intro go_div_nonneg) auto
  moreover have "m * a div b \<le> m * b div b" using le assms by (intro zdiv_mono1) auto
  moreover have "m * b div b = m" using assms by simp
  moreover have "0 \<le> m * a div b" using nn assms by (simp add: pos_imp_zdiv_nonneg_iff)
  ultimately show ?thesis by simp
qed

lemma highest_from_rank:
  "billing_tier_rank (highest_from b ts) = fold max (map billing_tier_rank ts) (billing_tier_rank b)
   \<and> (highest_from b ts = b \<or> highest_from b ts \<in> set ts)"
  by (induction ts arbitrary: b) (auto simp: max_def)

lemma fold_max_ge: "x \<le> fold max ts x" for x :: int
  by (induction ts arbitrary: x) (auto intro: order_trans[OF max.cobounded2])

lemma fold_max_upper: "t \<in> set ts \<Longrightarrow> t \<le> fold max ts x" for x :: int
proof (induction ts arbitrary: x)
  case (Cons y ys)
  then show ?case using fold_max_ge[of "max y x" ys] by auto
qed simp

section \<open>Properties\<close>

text \<open>\<open>ParseRatio\<close> normalises: whatever text it accepts, its result is printed in canonical
  form, has positive parts, parses to the same width and height, and parsing it again changes
  nothing.\<close>

theorem parse_ratio_canonical:
  assumes "parse_ratio s = Inr r"
  shows "\<exists>w h. 0 < w \<and> 0 < h \<and> r = itoa w @ '':'' @ itoa h
           \<and> parse_ratio_parts s = Inr (w, h) \<and> parse_ratio_parts r = Inr (w, h)
           \<and> is_well_formed r \<and> parse_ratio r = Inr r"
proof -
  obtain w h where p: "parse_ratio_parts s = Inr (w, h)" and r: "r = itoa w @ '':'' @ itoa h"
    using assms by (auto simp: parse_ratio_def split: sum.splits)
  note b = parse_ratio_parts_pos[OF p]
  have q: "parse_ratio_parts r = Inr (w, h)"
    unfolding r using b by (intro parse_ratio_printed) auto
  then have "parse_ratio r = Inr r" by (simp add: parse_ratio_def r)
  moreover have "is_well_formed r" using q by (simp add: is_well_formed_def)
  ultimately show ?thesis using b p q r by blast
qed

lemma parse_ratio_canonical_witness: "\<exists>w h. ''3:4'' = itoa w @ '':'' @ itoa h \<and> is_well_formed ''3:4''"
proof -
  have i: "itoa 3 = ''3''" "itoa 4 = ''4''"
    by (simp_all add: itoa_def nat_digits.simps digit_char_def char_of_def bit_Suc_0_iff)
  have "parse_ratio_parts (itoa 3 @ '':'' @ itoa 4) = Inr (3, 4)" by (rule parse_ratio_printed) simp_all
  then have "parse_ratio ''3:4'' = Inr ''3:4''" by (simp add: parse_ratio_def i)
  from parse_ratio_canonical[OF this] show ?thesis by blast
qed

text \<open>The target size keeps the longer edge at the given maximum and both edges between 1 and
  that maximum, for every well-formed ratio whose parts do not overflow the 64-bit product.\<close>

theorem target_size_bounds:
  assumes "parse_ratio_parts r = Inr (w, h)" and "0 < m" and "m * max w h < 2 ^ 63"
  shows "\<exists>width height. target_size r m = Inr (width, height)
           \<and> max width height = m \<and> 1 \<le> width \<and> 1 \<le> height
           \<and> (h \<le> w \<longrightarrow> height = max 1 (m * h div w)) \<and> (w < h \<longrightarrow> width = max 1 (m * w div h))"
proof -
  have pos: "0 < w" "0 < h" using parse_ratio_parts_pos[OF assms(1)] by auto
  show ?thesis
  proof (cases "h \<le> w")
    case True
    then have "m * w < 2 ^ 63" using assms(3) by (simp add: max_def split: if_splits)
    with scaled_bounds[of m h w] True pos assms(2)
    have "go_div (wrap64 (m * h)) w = m * h div w" "m * h div w \<le> m" "0 \<le> m * h div w" by auto
    then show ?thesis using True assms(1,2) by (auto simp: target_size_def max_def)
  next
    case False
    then have "m * h < 2 ^ 63" using assms(3) by (simp add: max_def split: if_splits)
    with scaled_bounds[of m w h] False pos assms(2)
    have "go_div (wrap64 (m * w)) h = m * w div h" "m * w div h \<le> m" "0 \<le> m * w div h" by auto
    then show ?thesis using False assms(1,2) by (auto simp: target_size_def max_def)
  qed
qed

lemma target_size_bounds_witness:
  "\<exists>width height. target_size (itoa 16 @ '':'' @ itoa 9) 2048 = Inr (width, height) \<and> max width height = 2048"
proof -
  have "parse_ratio_parts (itoa 16 @ '':'' @ itoa 9) = Inr (16, 9)" by (rule parse_ratio_printed) simp_all
  from target_size_bounds[OF this, of 2048] show ?thesis by auto
qed

text \<open>The tier of an image grows with both edges, and the tier taken for several images is one
  of theirs with the highest rank, or the empty one when none has a tier.\<close>

theorem highest_billing_tier_is_max:
  "(\<forall>t \<in> set tiers. billing_tier_rank t \<le> billing_tier_rank (highest_billing_tier tiers))
   \<and> (highest_billing_tier tiers \<in> set tiers \<or> highest_billing_tier tiers = [])
   \<and> (0 < w \<and> 0 < h \<and> w \<le> w' \<and> h \<le> h' \<longrightarrow>
        billing_tier_rank (classify_billing_tier w h) \<le> billing_tier_rank (classify_billing_tier w' h'))"
proof (intro conjI)
  have "billing_tier_rank t \<le> billing_tier_rank (highest_billing_tier tiers)" if "t \<in> set tiers" for t
    using that highest_from_rank[of "[]" tiers] unfolding highest_billing_tier_def
    by (simp add: fold_max_upper)
  then show "\<forall>t \<in> set tiers. billing_tier_rank t \<le> billing_tier_rank (highest_billing_tier tiers)" by blast
  show "highest_billing_tier tiers \<in> set tiers \<or> highest_billing_tier tiers = []"
    using highest_from_rank[of "[]" tiers] by (auto simp: highest_billing_tier_def)
  show "0 < w \<and> 0 < h \<and> w \<le> w' \<and> h \<le> h' \<longrightarrow>
      billing_tier_rank (classify_billing_tier w h) \<le> billing_tier_rank (classify_billing_tier w' h')"
    by (auto simp: classify_billing_tier_def billing_tier_rank_def Let_def)
qed

lemma highest_billing_tier_is_max_witness:
  "billing_tier_rank ''2K'' \<le> billing_tier_rank (highest_billing_tier [''1K'', ''2K''])"
  using highest_billing_tier_is_max[of "[''1K'', ''2K'']" 1 1 1 1] by simp

end
