(* ===== verification/Status.thy ===== *)
theory Status
  imports DK_Prelude
begin

text \<open>
  The state machines of \<open>domain/status.go\<close>. \<open>JobStatus\<close> and \<open>ItemStatus\<close> are strings in the source;
  here the constants are constructors, and any other string is \<open>JobStatusOther\<close> or
  \<open>ItemStatusOther\<close>, which is what \<open>IsValid\<close> rejects.
\<close>

datatype job_status =
    JobStatusCreated | JobStatusHolding | JobStatusRunning | JobStatusSettling
  | JobStatusSucceeded | JobStatusPartiallyFailed | JobStatusFailed | JobStatusCancelled
  | JobStatusOther string

datatype item_status =
    ItemStatusPending | ItemStatusRunning | ItemStatusSucceeded | ItemStatusFailed
  | ItemStatusCancelled | ItemStatusOther string

fun job_status_text :: "job_status \<Rightarrow> string" where
  "job_status_text JobStatusCreated = ''created''"
| "job_status_text JobStatusHolding = ''holding''"
| "job_status_text JobStatusRunning = ''running''"
| "job_status_text JobStatusSettling = ''settling''"
| "job_status_text JobStatusSucceeded = ''succeeded''"
| "job_status_text JobStatusPartiallyFailed = ''partially_failed''"
| "job_status_text JobStatusFailed = ''failed''"
| "job_status_text JobStatusCancelled = ''cancelled''"
| "job_status_text (JobStatusOther s) = s"

fun item_status_text :: "item_status \<Rightarrow> string" where
  "item_status_text ItemStatusPending = ''pending''"
| "item_status_text ItemStatusRunning = ''running''"
| "item_status_text ItemStatusSucceeded = ''succeeded''"
| "item_status_text ItemStatusFailed = ''failed''"
| "item_status_text ItemStatusCancelled = ''cancelled''"
| "item_status_text (ItemStatusOther s) = s"

definition all_job_statuses :: "job_status list" where
  "all_job_statuses =
     [JobStatusCreated, JobStatusHolding, JobStatusRunning, JobStatusSettling, JobStatusSucceeded,
      JobStatusPartiallyFailed, JobStatusFailed, JobStatusCancelled]"

definition all_item_statuses :: "item_status list" where
  "all_item_statuses =
     [ItemStatusPending, ItemStatusRunning, ItemStatusSucceeded, ItemStatusFailed, ItemStatusCancelled]"

definition job_is_valid :: "job_status \<Rightarrow> bool" where
  "job_is_valid s = list_ex (\<lambda>v. v = s) all_job_statuses"

definition item_is_valid :: "item_status \<Rightarrow> bool" where
  "item_is_valid s = list_ex (\<lambda>v. v = s) all_item_statuses"

fun job_is_terminal :: "job_status \<Rightarrow> bool" where
  "job_is_terminal JobStatusSucceeded = True"
| "job_is_terminal JobStatusPartiallyFailed = True"
| "job_is_terminal JobStatusFailed = True"
| "job_is_terminal JobStatusCancelled = True"
| "job_is_terminal s = False"

fun item_is_terminal :: "item_status \<Rightarrow> bool" where
  "item_is_terminal ItemStatusSucceeded = True"
| "item_is_terminal ItemStatusFailed = True"
| "item_is_terminal ItemStatusCancelled = True"
| "item_is_terminal s = False"

fun job_transitions :: "job_status \<Rightarrow> job_status list" where
  "job_transitions JobStatusCreated = [JobStatusHolding]"
| "job_transitions JobStatusHolding = [JobStatusRunning]"
| "job_transitions JobStatusRunning = [JobStatusSettling]"
| "job_transitions JobStatusSettling = [JobStatusSucceeded, JobStatusPartiallyFailed, JobStatusCancelled]"
| "job_transitions JobStatusSucceeded = [JobStatusRunning]"
| "job_transitions JobStatusPartiallyFailed = [JobStatusRunning]"
| "job_transitions JobStatusFailed = []"
| "job_transitions JobStatusCancelled = []"
| "job_transitions (JobStatusOther x) = []"

definition can_transition :: "job_status \<Rightarrow> job_status \<Rightarrow> bool" where
  "can_transition from_status to_status =
     (if \<not> job_is_valid from_status \<or> \<not> job_is_valid to_status then False
      else if to_status = JobStatusFailed then True
      else list_ex (\<lambda>allowed. allowed = to_status) (job_transitions from_status))"

fun item_transitions :: "item_status \<Rightarrow> item_status list" where
  "item_transitions ItemStatusPending = [ItemStatusRunning, ItemStatusCancelled, ItemStatusFailed]"
| "item_transitions ItemStatusRunning =
     [ItemStatusSucceeded, ItemStatusFailed, ItemStatusPending, ItemStatusRunning]"
| "item_transitions ItemStatusSucceeded = [ItemStatusPending]"
| "item_transitions ItemStatusFailed = [ItemStatusPending]"
| "item_transitions ItemStatusCancelled = [ItemStatusPending]"
| "item_transitions (ItemStatusOther x) = []"

definition can_transition_item :: "item_status \<Rightarrow> item_status \<Rightarrow> bool" where
  "can_transition_item from_status to_status =
     (if \<not> item_is_valid from_status \<or> \<not> item_is_valid to_status then False
      else list_ex (\<lambda>allowed. allowed = to_status) (item_transitions from_status))"

definition terminal_job_status :: "int \<Rightarrow> int \<Rightarrow> int \<Rightarrow> int \<Rightarrow> bool \<Rightarrow> job_status" where
  "terminal_job_status item_count success fail cancelled stop_requested =
     (if stop_requested \<and> cancelled > 0 then JobStatusCancelled
      else if item_count > 0 \<and> success = item_count then JobStatusSucceeded
      else if success > 0 then JobStatusPartiallyFailed
      else if cancelled > 0 \<and> fail = 0 then JobStatusCancelled
      else JobStatusFailed)"

lemmas status_simps = job_is_valid_def item_is_valid_def all_job_statuses_def all_item_statuses_def
  can_transition_def can_transition_item_def

lemma job_is_valid_iff: "job_is_valid s \<longleftrightarrow> (\<forall>x. s \<noteq> JobStatusOther x)"
  by (cases s) (auto simp: status_simps)

lemma job_is_valid_simps [simp]:
  "job_is_valid JobStatusCreated" "job_is_valid JobStatusHolding" "job_is_valid JobStatusRunning"
  "job_is_valid JobStatusSettling" "job_is_valid JobStatusSucceeded" "job_is_valid JobStatusPartiallyFailed"
  "job_is_valid JobStatusFailed" "job_is_valid JobStatusCancelled"
  by (simp_all add: job_is_valid_iff)

lemma item_is_valid_iff: "item_is_valid s \<longleftrightarrow> (\<forall>x. s \<noteq> ItemStatusOther x)"
  by (cases s) (auto simp: status_simps)

lemma terminal_job_status_terminal: "job_is_terminal (terminal_job_status n s f c stop)"
  by (simp add: terminal_job_status_def)

lemma settling_to_terminal: "can_transition JobStatusSettling (terminal_job_status n s f c stop)"
  by (simp add: terminal_job_status_def status_simps)

section \<open>Properties\<close>

text \<open>The job white list lets a job become succeeded, partially failed or cancelled only from
  settling, so no path to one of these results skips the settlement; running is reached only from
  holding or by a retry of a succeeded or partially failed job; a failed or cancelled job can only
  become failed; and every valid job can be failed.\<close>

theorem can_transition_discipline:
  "(can_transition a b \<and> b \<in> {JobStatusSucceeded, JobStatusPartiallyFailed, JobStatusCancelled}
      \<longrightarrow> a = JobStatusSettling)
   \<and> (can_transition a JobStatusRunning
      \<longrightarrow> a \<in> {JobStatusHolding, JobStatusSucceeded, JobStatusPartiallyFailed})
   \<and> (a \<in> {JobStatusFailed, JobStatusCancelled} \<and> can_transition a b \<longrightarrow> b = JobStatusFailed)
   \<and> (can_transition a JobStatusFailed \<longleftrightarrow> job_is_valid a)"
  by (cases a) (auto simp: status_simps split: if_splits)

lemma can_transition_discipline_witness:
  "can_transition JobStatusSettling JobStatusCancelled \<and> \<not> can_transition JobStatusRunning JobStatusCancelled"
  using can_transition_discipline[of JobStatusRunning JobStatusCancelled] by (auto simp: status_simps)

text \<open>The item white list never changes one final result into another: from a final status an
  item can only go back to pending, and it becomes succeeded only while running and cancelled only
  while pending.\<close>

theorem can_transition_item_discipline:
  "(item_is_terminal a \<and> can_transition_item a b \<longrightarrow> b = ItemStatusPending)
   \<and> (can_transition_item a ItemStatusSucceeded \<longleftrightarrow> a = ItemStatusRunning)
   \<and> (can_transition_item a ItemStatusCancelled \<longleftrightarrow> a = ItemStatusPending)
   \<and> (can_transition_item a ItemStatusFailed \<longleftrightarrow> a \<in> {ItemStatusPending, ItemStatusRunning})"
  by (cases a) (auto simp: status_simps split: if_splits)

lemma can_transition_item_discipline_witness:
  "can_transition_item ItemStatusFailed ItemStatusPending \<and> \<not> can_transition_item ItemStatusSucceeded ItemStatusFailed"
  using can_transition_item_discipline[of ItemStatusSucceeded ItemStatusFailed] by (auto simp: status_simps)

text \<open>When the three counters add up to the number of items, the computed result is a final
  status the white list allows from settling, and it means what it says: cancelled needs a
  cancelled item, succeeded that every item succeeded, partially failed that some but not all did,
  and failed that no item succeeded.\<close>

theorem terminal_job_status_meaning:
  assumes "0 \<le> s" "0 \<le> f" "0 \<le> c" and "s + f + c = n" and "0 < n"
  shows "job_is_terminal (terminal_job_status n s f c stop)
         \<and> can_transition JobStatusSettling (terminal_job_status n s f c stop)
         \<and> (case terminal_job_status n s f c stop of
              JobStatusCancelled \<Rightarrow> 0 < c \<and> (stop \<or> s = 0 \<and> f = 0)
            | JobStatusSucceeded \<Rightarrow> s = n
            | JobStatusPartiallyFailed \<Rightarrow> 0 < s \<and> s < n \<and> (stop \<longrightarrow> c = 0)
            | JobStatusFailed \<Rightarrow> s = 0 \<and> 0 < f
            | _ \<Rightarrow> False)"
  using assms terminal_job_status_terminal settling_to_terminal
  by (auto simp: terminal_job_status_def)

lemma terminal_job_status_meaning_witness:
  "terminal_job_status 3 1 1 1 True = JobStatusCancelled
   \<and> can_transition JobStatusSettling (terminal_job_status 3 1 1 1 True)"
  using terminal_job_status_meaning[of 1 1 1 3 True] by (simp add: terminal_job_status_def)

end
