(* ===== verification/Billing_Id.thy ===== *)
theory Billing_Id
  imports Go_Errors "HOL-Library.Word"
begin

unbundle bit_operations_syntax

text \<open>
  Identifiers: the billing request id of \<open>domain/billing_request_id.go\<close>, which is the idempotency
  key of every charge, and the ULID generator of \<open>worker/uid.go\<close>, on bytes as in the source.
\<close>

section \<open>ULIDs\<close>

definition ulid_alphabet :: string where
  "ulid_alphabet = ''0123456789ABCDEFGHJKMNPQRSTVWXYZ''"

definition ulid_length :: nat where
  "ulid_length = 26"

definition is_valid_ulid :: "string \<Rightarrow> bool" where
  "is_valid_ulid s \<longleftrightarrow> length s = ulid_length \<and> list_all (\<lambda>c. List.member ulid_alphabet c) s"

lemma is_valid_ulid_iff: "is_valid_ulid s \<longleftrightarrow> length s = 26 \<and> (\<forall>c \<in> set s. c \<in> set ulid_alphabet)"
  by (auto simp: is_valid_ulid_def ulid_length_def list_all_iff)

lemma ulid_chars: "is_valid_ulid s \<Longrightarrow> c \<in> set s \<Longrightarrow> plain_char c \<and> c \<noteq> CHR '':''"
proof -
  assume "is_valid_ulid s" "c \<in> set s"
  then have "c \<in> set ulid_alphabet" by (simp add: is_valid_ulid_iff)
  then show ?thesis unfolding ulid_alphabet_def by (auto simp: plain_char_def)
qed

text \<open>The generator: 48 bits of milliseconds, 80 random bits, five bits per character.\<close>

definition bit_at :: "8 word list \<Rightarrow> nat \<Rightarrow> 8 word" where
  "bit_at raw idx =
     (if idx < 2 then 0
      else let pos = idx - 2 in drop_bit (7 - pos mod 8) (raw ! (pos div 8)) AND 1)"

fun crockford_value :: "8 word list \<Rightarrow> nat \<Rightarrow> nat list \<Rightarrow> 8 word \<Rightarrow> 8 word" where
  "crockford_value raw i [] v = v"
| "crockford_value raw i (k # ks) v = crockford_value raw i ks (push_bit 1 v OR bit_at raw (i * 5 + k))"

definition encode_crockford :: "8 word list \<Rightarrow> string" where
  "encode_crockford raw =
     map (\<lambda>i. ulid_alphabet ! unat (crockford_value raw i [0, 1, 2, 3, 4] 0)) [0..<ulid_length]"

definition unix_epoch :: time where
  "unix_epoch = 62135596800 * second"

definition unix_milli :: "time \<Rightarrow> int" where
  "unix_milli t = (t - unix_epoch) div millisecond"

definition ulid_bytes :: "time \<Rightarrow> 8 word list \<Rightarrow> 8 word list" where
  "ulid_bytes t random =
     (let ms = word_of_int (unix_milli t) :: 64 word
      in map (\<lambda>k. ucast (drop_bit k ms)) [40, 32, 24, 16, 8, 0] @ random)"

text \<open>\<open>newULIDAt\<close>, with the ten bytes the random source gives.\<close>

definition new_ulid_at :: "time \<Rightarrow> 8 word list \<Rightarrow> string" where
  "new_ulid_at t random = encode_crockford (ulid_bytes t random)"

lemma bit_at_cases: "bit_at raw idx = 0 \<or> bit_at raw idx = 1"
proof -
  have "w AND 1 = 0 \<or> w AND 1 = (1 :: 8 word)" for w
    by (simp add: and_one_eq mod_2_eq_odd)
  then show ?thesis by (simp add: bit_at_def Let_def)
qed

definition bit_nat :: "8 word list \<Rightarrow> nat \<Rightarrow> nat" where
  "bit_nat raw idx = unat (bit_at raw idx)"

lemma bit_nat_le: "bit_nat raw idx \<le> 1"
  using bit_at_cases[of raw idx] by (auto simp: bit_nat_def)

lemma shift_in: "unat v < 128 \<Longrightarrow> unat (push_bit 1 v OR bit_at raw idx) = 2 * unat v + bit_nat raw idx"
  for v :: "8 word"
proof -
  assume v: "unat v < 128"
  have "push_bit 1 v = v * 2" by (simp add: push_bit_eq_mult)
  moreover have "unat (v * 2) = 2 * unat v" using v by (simp add: unat_mult_lem[THEN iffD1] unat_word_ariths)
  moreover have "(v * 2) OR 1 = v * 2 + 1"
    by (simp add: or_one_eq even_mult_iff)
  moreover have "unat (v * 2 + 1) = 2 * unat v + 1"
    using v by (simp add: unat_word_ariths)
  ultimately show ?thesis using bit_at_cases[of raw idx] by (auto simp: bit_nat_def)
qed

text \<open>The value of a character: its five bits read as a binary number.\<close>

definition five_bits :: "8 word list \<Rightarrow> nat \<Rightarrow> nat" where
  "five_bits raw i = 16 * bit_nat raw (5 * i) + 8 * bit_nat raw (5 * i + 1) + 4 * bit_nat raw (5 * i + 2)
     + 2 * bit_nat raw (5 * i + 3) + bit_nat raw (5 * i + 4)"

lemma five_bits_less: "five_bits raw i < 32"
  using bit_nat_le[of raw "5 * i"] bit_nat_le[of raw "5 * i + 1"] bit_nat_le[of raw "5 * i + 2"]
    bit_nat_le[of raw "5 * i + 3"] bit_nat_le[of raw "5 * i + 4"]
  by (simp add: five_bits_def)

lemma crockford_value_eq: "unat (crockford_value raw i [0, 1, 2, 3, 4] 0) = five_bits raw i"
proof -
  let ?b = "\<lambda>k. bit_nat raw (i * 5 + k)"
  define v1 where "v1 = (push_bit 1 0 OR bit_at raw (i * 5 + 0) :: 8 word)"
  define v2 where "v2 = (push_bit 1 v1 OR bit_at raw (i * 5 + 1) :: 8 word)"
  define v3 where "v3 = (push_bit 1 v2 OR bit_at raw (i * 5 + 2) :: 8 word)"
  define v4 where "v4 = (push_bit 1 v3 OR bit_at raw (i * 5 + 3) :: 8 word)"
  define v5 where "v5 = (push_bit 1 v4 OR bit_at raw (i * 5 + 4) :: 8 word)"
  have 1: "unat v1 = ?b 0" unfolding v1_def by (subst shift_in) simp_all
  have 2: "unat v2 = 2 * unat v1 + ?b 1" unfolding v2_def
    using 1 bit_nat_le[of raw "i * 5 + 0"] by (intro shift_in) simp
  have 3: "unat v3 = 2 * unat v2 + ?b 2" unfolding v3_def
    using 1 2 bit_nat_le[of raw "i * 5 + 0"] bit_nat_le[of raw "i * 5 + 1"] by (intro shift_in) simp
  have 4: "unat v4 = 2 * unat v3 + ?b 3" unfolding v4_def
    using 1 2 3 bit_nat_le[of raw "i * 5 + 0"] bit_nat_le[of raw "i * 5 + 1"] bit_nat_le[of raw "i * 5 + 2"]
    by (intro shift_in) simp
  have 5: "unat v5 = 2 * unat v4 + ?b 4" unfolding v5_def
    using 1 2 3 4 bit_nat_le[of raw "i * 5 + 0"] bit_nat_le[of raw "i * 5 + 1"]
      bit_nat_le[of raw "i * 5 + 2"] bit_nat_le[of raw "i * 5 + 3"]
    by (intro shift_in) simp
  have "crockford_value raw i [0, 1, 2, 3, 4] 0 = v5"
    by (simp add: v1_def v2_def v3_def v4_def v5_def)
  then show ?thesis using 1 2 3 4 5 by (simp add: five_bits_def mult.commute)
qed

lemma encode_crockford_eq: "encode_crockford raw = map (\<lambda>i. ulid_alphabet ! five_bits raw i) [0..<26]"
  by (simp only: encode_crockford_def crockford_value_eq ulid_length_def)

lemma length_ulid_alphabet: "length ulid_alphabet = 32"
  by (simp add: ulid_alphabet_def)

lemma distinct_ulid_alphabet: "distinct ulid_alphabet"
  by (simp add: ulid_alphabet_def)

lemma five_bits_inj:
  assumes "five_bits raw i = five_bits raw' i" and "k < 5"
  shows "bit_nat raw (5 * i + k) = bit_nat raw' (5 * i + k)"
proof -
  note le = bit_nat_le[of raw "5 * i"] bit_nat_le[of raw "5 * i + 1"] bit_nat_le[of raw "5 * i + 2"]
    bit_nat_le[of raw "5 * i + 3"] bit_nat_le[of raw "5 * i + 4"]
    bit_nat_le[of raw' "5 * i"] bit_nat_le[of raw' "5 * i + 1"] bit_nat_le[of raw' "5 * i + 2"]
    bit_nat_le[of raw' "5 * i + 3"] bit_nat_le[of raw' "5 * i + 4"]
  have "bit_nat raw (5 * i) = bit_nat raw' (5 * i)"
    using assms(1) le unfolding five_bits_def by linarith
  moreover from this have "bit_nat raw (5 * i + 1) = bit_nat raw' (5 * i + 1)"
    using assms(1) le unfolding five_bits_def by linarith
  moreover from calculation have "bit_nat raw (5 * i + 2) = bit_nat raw' (5 * i + 2)"
    using assms(1) le unfolding five_bits_def by linarith
  moreover from calculation have "bit_nat raw (5 * i + 3) = bit_nat raw' (5 * i + 3)"
    using assms(1) le unfolding five_bits_def by linarith
  moreover from calculation have "bit_nat raw (5 * i + 4) = bit_nat raw' (5 * i + 4)"
    using assms(1) le unfolding five_bits_def by linarith
  moreover have "k = 0 \<or> k = 1 \<or> k = 2 \<or> k = 3 \<or> k = 4" using assms(2) by linarith
  ultimately show ?thesis by auto
qed

lemma bit_nat_bit: "2 \<le> idx \<Longrightarrow> bit_nat raw idx = of_bool (bit (raw ! ((idx - 2) div 8)) (7 - (idx - 2) mod 8))"
  by (simp add: bit_nat_def bit_at_def Let_def and_one_eq mod_2_eq_odd flip: bit_iff_odd_drop_bit)

lemma encode_crockford_bits:
  assumes "encode_crockford raw = encode_crockford raw'" and "idx < 130"
  shows "bit_nat raw idx = bit_nat raw' idx"
proof -
  let ?i = "idx div 5"
  have i: "?i < 26" using assms(2) by linarith
  have "encode_crockford raw ! ?i = encode_crockford raw' ! ?i" using assms(1) by simp
  then have "ulid_alphabet ! five_bits raw ?i = ulid_alphabet ! five_bits raw' ?i"
    using i unfolding encode_crockford_eq by simp
  then have "five_bits raw ?i = five_bits raw' ?i"
    using five_bits_less[of raw ?i] five_bits_less[of raw' ?i]
    by (simp add: nth_eq_iff_index_eq distinct_ulid_alphabet length_ulid_alphabet)
  from five_bits_inj[OF this, of "idx mod 5"] show ?thesis by simp
qed

lemma encode_crockford_inj:
  assumes "length raw = 16" and "length raw' = 16" and "encode_crockford raw = encode_crockford raw'"
  shows "raw = raw'"
proof (rule nth_equalityI)
  show "length raw = length raw'" using assms by simp
  fix p
  assume "p < length raw"
  then have p: "p < 16" using assms(1) by simp
  have "bit (raw ! p) n = bit (raw' ! p) n" if n: "n < 8" for n
  proof -
    let ?idx = "8 * p + (7 - n) + 2"
    have q: "?idx - 2 = (7 - n) + p * 8" by simp
    have "7 - n < 8" by simp
    then have m: "7 - (?idx - 2) mod 8 = n" and d: "(?idx - 2) div 8 = p"
      using n by (simp_all only: q mod_mult_self1 mod_less div_mult_self1 div_less)
    have "?idx < 130" and "2 \<le> ?idx" using p by auto
    then have "bit_nat raw ?idx = bit_nat raw' ?idx" using assms(3) by (intro encode_crockford_bits) auto
    then show ?thesis unfolding bit_nat_bit[OF \<open>2 \<le> ?idx\<close>] d m by (simp add: of_bool_eq_iff)
  qed
  then show "raw ! p = raw' ! p" by (intro bit_word_eqI) simp
qed

lemma encode_crockford_valid: "is_valid_ulid (encode_crockford raw)"
  using five_bits_less[of raw] length_ulid_alphabet
  by (auto simp: is_valid_ulid_iff encode_crockford_eq intro!: nth_mem)

section \<open>Billing request ids\<close>

definition billing_request_id_prefix :: string where
  "billing_request_id_prefix = ''dki''"

definition upstream_client_request_id_prefix :: string where
  "upstream_client_request_id_prefix = ''client:''"

definition usage_log_request_id_max_len :: nat where
  "usage_log_request_id_max_len = 64"

definition billing_request_id_max_seq :: int where
  "billing_request_id_max_seq = 9999"

definition billing_request_id_max_attempt :: int where
  "billing_request_id_max_attempt = 99"

definition billing_request_id :: "string \<Rightarrow> int \<Rightarrow> int \<Rightarrow> string" where
  "billing_request_id job_uid seq attempt =
     billing_request_id_prefix @ '':'' @ job_uid @ '':'' @ fmt_pad 4 seq @ '':'' @ fmt_pad 2 attempt"

definition stored_billing_request_id :: "string \<Rightarrow> int \<Rightarrow> int \<Rightarrow> string" where
  "stored_billing_request_id job_uid seq attempt =
     upstream_client_request_id_prefix @ billing_request_id job_uid seq attempt"

text \<open>The errors carry the rejected value; the sentence the code puts around it is left out.\<close>

definition invalid_id :: "string \<Rightarrow> go_error" where
  "invalid_id text = Wrapped text (Sentinel ErrInvalidBillingRequestID)"

definition validate_billing_request_id_parts :: "string \<Rightarrow> int \<Rightarrow> int \<Rightarrow> go_error option" where
  "validate_billing_request_id_parts job_uid seq attempt =
     (if \<not> is_valid_ulid job_uid then Some (invalid_id job_uid)
      else if seq < 1 \<or> seq > billing_request_id_max_seq then Some (invalid_id (itoa seq))
      else if attempt < 1 \<or> attempt > billing_request_id_max_attempt then Some (invalid_id (itoa attempt))
      else None)"

definition parse_billing_request_id :: "string \<Rightarrow> go_error + string \<times> int \<times> int" where
  "parse_billing_request_id ident =
     (let raw = trim_prefix upstream_client_request_id_prefix (trim_space ident);
          parts = split_on (CHR '':'') raw
      in if length parts \<noteq> 4 \<or> parts ! 0 \<noteq> billing_request_id_prefix then Inl (invalid_id ident)
         else if \<not> is_valid_ulid (parts ! 1) then Inl (invalid_id ident)
         else case atoi (parts ! 2) of
             None \<Rightarrow> Inl (invalid_id ident)
           | Some seq \<Rightarrow>
               if seq < 1 then Inl (invalid_id ident)
               else case atoi (parts ! 3) of
                   None \<Rightarrow> Inl (invalid_id ident)
                 | Some attempt \<Rightarrow>
                     if attempt < 1 then Inl (invalid_id ident)
                     else Inr (parts ! 1, seq, attempt))"

lemmas billing_id_defs = billing_request_id_prefix_def upstream_client_request_id_prefix_def
  usage_log_request_id_max_len_def billing_request_id_max_seq_def billing_request_id_max_attempt_def

lemma fmt_pad_plain: "0 \<le> n \<Longrightarrow> \<forall>c \<in> set (fmt_pad w n). plain_char c \<and> c \<noteq> CHR '':''"
  using fmt_pad_chars digit_val_plain by blast

lemma billing_request_id_chars:
  assumes "is_valid_ulid uid" and "0 \<le> seq" and "0 \<le> attempt"
  shows "\<forall>c \<in> set (billing_request_id uid seq attempt). plain_char c"
proof -
  have "\<forall>c \<in> set (''dki'' @ '':''). plain_char c" by (simp add: plain_char_def)
  then show ?thesis
    using ulid_chars[OF assms(1)] fmt_pad_plain[OF assms(2), of 4] fmt_pad_plain[OF assms(3), of 2]
    unfolding billing_request_id_def billing_id_defs set_append by blast
qed

lemma split_billing_request_id:
  assumes "is_valid_ulid uid" and "0 \<le> seq" and "0 \<le> attempt"
  shows "split_on (CHR '':'') (billing_request_id uid seq attempt)
           = [''dki'', uid, fmt_pad 4 seq, fmt_pad 2 attempt]"
proof -
  have "CHR '':'' \<notin> set uid" "CHR '':'' \<notin> set (fmt_pad 4 seq)" "CHR '':'' \<notin> set (fmt_pad 2 attempt)"
    using ulid_chars[OF assms(1)] fmt_pad_plain[OF assms(2), of 4] fmt_pad_plain[OF assms(3), of 2]
    by blast+
  then show ?thesis
    using split_on_append[of "CHR '':''" "''dki''" "uid @ '':'' @ fmt_pad 4 seq @ '':'' @ fmt_pad 2 attempt"]
    by (simp add: billing_request_id_def billing_id_defs split_on_append split_on_no_sep)
qed

lemma length_billing_request_id:
  assumes "is_valid_ulid uid" and "1 \<le> seq" "seq \<le> 9999" and "1 \<le> attempt" "attempt \<le> 99"
  shows "length (billing_request_id uid seq attempt) = 38"
  using assms length_fmt_pad[of 4 seq] length_fmt_pad[of 2 attempt]
  by (simp add: billing_request_id_def billing_id_defs is_valid_ulid_iff)

text \<open>An id with or without the upstream prefix parses back to its parts.\<close>

lemma parse_raw_and_stored:
  assumes "is_valid_ulid uid" and "1 \<le> seq" "seq < 2 ^ 63" and "1 \<le> attempt" "attempt < 2 ^ 63"
  shows "parse_billing_request_id (billing_request_id uid seq attempt) = Inr (uid, seq, attempt)"
    and "parse_billing_request_id (stored_billing_request_id uid seq attempt) = Inr (uid, seq, attempt)"
proof -
  let ?id = "billing_request_id uid seq attempt"
  have plain: "\<forall>c \<in> set ?id. plain_char c" using assms by (intro billing_request_id_chars) auto
  have "\<not> has_prefix ''client:'' ?id"
    by (simp add: has_prefix_def billing_request_id_def billing_id_defs)
  then have 1: "trim_prefix ''client:'' (trim_space ?id) = ?id"
    by (simp add: trim_space_plain[OF plain] trim_prefix_def)
  have "\<forall>c \<in> set (''client:'' @ ?id). plain_char c" using plain by (auto simp: plain_char_def)
  then have 2: "trim_prefix ''client:'' (trim_space (''client:'' @ ?id)) = ?id"
    by (simp only: trim_space_plain trim_prefix_append)
  have core: "parse_billing_request_id s = Inr (uid, seq, attempt)"
    if "trim_prefix ''client:'' (trim_space s) = ?id" for s
  proof -
    have "split_on (CHR '':'') (trim_prefix upstream_client_request_id_prefix (trim_space s))
            = [''dki'', uid, fmt_pad 4 seq, fmt_pad 2 attempt]"
      using that split_billing_request_id[OF assms(1), of seq attempt] assms
      by (simp only: upstream_client_request_id_prefix_def)
    then show ?thesis
      using assms by (simp add: parse_billing_request_id_def billing_request_id_prefix_def atoi_fmt_pad)
  qed
  from core[OF 1] show "parse_billing_request_id ?id = Inr (uid, seq, attempt)" .
  show "parse_billing_request_id (stored_billing_request_id uid seq attempt) = Inr (uid, seq, attempt)"
    unfolding stored_billing_request_id_def upstream_client_request_id_prefix_def by (rule core[OF 2])
qed

lemma stored_id_inject:
  assumes "is_valid_ulid u" "1 \<le> s" "s < 2 ^ 63" "1 \<le> a" "a < 2 ^ 63"
    and "is_valid_ulid u'" "1 \<le> s'" "s' < 2 ^ 63" "1 \<le> a'" "a' < 2 ^ 63"
    and "stored_billing_request_id u s a = stored_billing_request_id u' s' a'"
  shows "u = u' \<and> s = s' \<and> a = a'"
  using parse_raw_and_stored(2)[OF assms(1-5)] parse_raw_and_stored(2)[OF assms(6-10)] assms(11)
  by (metis Inr_inject prod.inject)

lemma validate_parts_iff:
  "validate_billing_request_id_parts u s a = None \<longleftrightarrow>
     is_valid_ulid u \<and> 1 \<le> s \<and> s \<le> 9999 \<and> 1 \<le> a \<and> a \<le> 99"
  by (auto simp: validate_billing_request_id_parts_def billing_id_defs)

definition sample_uid :: string where
  "sample_uid = ''01J8ZK7Q9X2M4N6P8R0T2V4W6Y''"

lemma sample_uid_valid: "is_valid_ulid sample_uid"
  by (simp add: sample_uid_def is_valid_ulid_iff ulid_alphabet_def)

section \<open>Properties\<close>

text \<open>C35: For every job uid, sequence number and attempt that pass the validation, the billing
  request id and the stored id parse back to exactly those parts; the id has 38 characters, the
  stored one 45, which fits the 64 characters of the \<open>usage_logs\<close> column.\<close>

theorem billing_request_id_roundtrip:
  assumes "validate_billing_request_id_parts uid seq attempt = None"
  shows "parse_billing_request_id (billing_request_id uid seq attempt) = Inr (uid, seq, attempt)
         \<and> parse_billing_request_id (stored_billing_request_id uid seq attempt) = Inr (uid, seq, attempt)
         \<and> length (billing_request_id uid seq attempt) = 38
         \<and> length (stored_billing_request_id uid seq attempt) = 45
         \<and> length (stored_billing_request_id uid seq attempt) \<le> usage_log_request_id_max_len"
proof -
  have v: "is_valid_ulid uid" "1 \<le> seq" "seq \<le> 9999" "1 \<le> attempt" "attempt \<le> 99"
    using assms by (simp_all add: validate_parts_iff)
  moreover from this have "length (stored_billing_request_id uid seq attempt) = 45"
    using length_billing_request_id by (simp add: stored_billing_request_id_def upstream_client_request_id_prefix_def)
  ultimately show ?thesis
    using parse_raw_and_stored length_billing_request_id by (simp add: usage_log_request_id_max_len_def)
qed

lemma billing_request_id_roundtrip_witness:
  "parse_billing_request_id (stored_billing_request_id sample_uid 3 1) = Inr (sample_uid, 3, 1)"
  using billing_request_id_roundtrip[of sample_uid 3 1]
  by (simp add: validate_parts_iff sample_uid_valid)

text \<open>Stored ids are idempotency keys that tell charges apart: two images or two attempts with
  valid parts have the same stored id only when job, sequence number and attempt all agree, so a
  new attempt always gets a new key and a repeated submission of one attempt keeps its key.\<close>

theorem stored_billing_request_id_injective:
  assumes "validate_billing_request_id_parts u s a = None"
    and "validate_billing_request_id_parts u' s' a' = None"
  shows "stored_billing_request_id u s a = stored_billing_request_id u' s' a' \<longleftrightarrow> u = u' \<and> s = s' \<and> a = a'"
  using assms stored_id_inject[of u s a u' s' a'] by (auto simp: validate_parts_iff)

lemma stored_billing_request_id_injective_witness:
  "stored_billing_request_id sample_uid 3 1 \<noteq> stored_billing_request_id sample_uid 3 2"
  using stored_billing_request_id_injective[of sample_uid 3 1 sample_uid 3 2]
  by (simp add: validate_parts_iff sample_uid_valid)

text \<open>The generator's encoding of any 16 bytes is a valid ULID for the validator of the
  billing ids, and no two byte blocks have the same encoding, so uids differ whenever time or
  randomness does.\<close>

theorem encode_crockford_correct:
  assumes "length raw = 16" and "length raw' = 16"
  shows "is_valid_ulid (encode_crockford raw)
         \<and> (encode_crockford raw = encode_crockford raw' \<longleftrightarrow> raw = raw')"
  using assms encode_crockford_inj encode_crockford_valid by blast

lemma encode_crockford_correct_witness:
  "encode_crockford (replicate 16 0) \<noteq> encode_crockford (replicate 16 255)"
  using encode_crockford_correct[of "replicate 16 0" "replicate 16 255"] by simp

end
