(* ===== verification/Entities.thy ===== *)
theory Entities
  imports Ratio Status Billing_Id
begin

text \<open>
  The rows and parameter structures of \<open>domain/entity.go\<close> and \<open>domain/port.go\<close>, field by field.
  A Go pointer that stands for a nullable column is an \<open>option\<close>. A Go \<open>time.Time\<close> that may be the
  zero time is a plain \<open>time\<close>, compared with \<open>zero_time\<close> as the source does.
\<close>

section \<open>Constants\<close>

definition default_max_batch_items :: int where "default_max_batch_items = 50"
definition default_item_timeout_seconds :: int where "default_item_timeout_seconds = 180"
definition default_max_dimension :: int where "default_max_dimension = 2048"
definition default_worker_concurrency :: int where "default_worker_concurrency = 4"
definition default_model :: string where "default_model = ''gpt-image-2''"
definition default_max_attempts :: int where "default_max_attempts = 3"
definition default_keep_transparency :: bool where "default_keep_transparency = False"
definition default_lease_seconds :: int where "default_lease_seconds = 180"
definition default_lease_renew_seconds :: int where "default_lease_renew_seconds = 60"
definition default_heartbeat_seconds :: int where "default_heartbeat_seconds = 30"
definition default_stale_job_minutes :: int where "default_stale_job_minutes = 10"

lemmas entity_defaults = default_max_batch_items_def default_item_timeout_seconds_def
  default_max_dimension_def default_worker_concurrency_def default_model_def default_max_attempts_def
  default_keep_transparency_def default_lease_seconds_def default_lease_renew_seconds_def
  default_heartbeat_seconds_def default_stale_job_minutes_def

section \<open>Jobs, items and images\<close>

datatype origin = OriginWeb | OriginERP | OriginOther string

record job =
  job_id :: int
  job_uid :: string
  job_user_id :: int
  job_api_key_id :: int
  job_origin :: origin
  job_name :: string
  job_status :: job_status
  job_ratio :: ratio
  job_model :: string
  job_keep_transparency :: bool
  job_item_count :: int
  job_success_count :: int
  job_fail_count :: int
  job_cancelled_count :: int
  job_idempotency_key :: "string option"
  job_callback_url :: "string option"
  job_currency :: string
  job_estimated_cost :: money
  job_actual_cost :: "money option"
  job_base_unit_price :: money
  job_group_rate_multiplier :: multiplier
  job_account_rate_multiplier :: multiplier
  job_billing_mode :: string
  job_pricing_tier :: string
  job_price_source :: string
  job_pricing_snapshot_version :: int
  job_revision :: int
  job_last_error_code :: "string option"
  job_last_error_message :: "string option"
  job_heartbeat_at :: "time option"
  job_cancel_requested_at :: "time option"
  job_expires_at :: "time option"
  job_created_at :: time
  job_updated_at :: time
  job_started_at :: "time option"
  job_finished_at :: "time option"
  job_settled_at :: "time option"
  job_user_deleted_at :: "time option"

record job_item =
  it_id :: int
  it_job_id :: int
  it_seq :: int
  it_asset_id :: "int option"
  it_variant_id :: "int option"
  it_prompt_id :: "int option"
  it_prompt_text :: string
  it_status :: item_status
  it_attempt_count :: int
  it_max_attempts :: int
  it_last_error_code :: "string option"
  it_last_error_message :: "string option"
  it_billed_cost :: "money option"
  it_billing_request_id :: "string option"
  it_billing_mode :: "string option"
  it_billing_tier :: "string option"
  it_worker_id :: "string option"
  it_lease_expires_at :: "time option"
  it_available_at :: time
  it_created_at :: time
  it_updated_at :: time
  it_started_at :: "time option"
  it_finished_at :: "time option"

record image =
  img_id :: int
  img_uid :: string
  img_job_id :: int
  img_item_id :: int
  img_attempt :: int
  img_index :: int
  img_is_current :: bool
  img_object_key :: string
  img_content_type :: string
  img_byte_size :: int
  img_width :: "int option"
  img_height :: "int option"
  img_billing_tier :: "string option"
  img_created_at :: time
  img_deleted_at :: "time option"
  img_expires_at :: "time option"

text \<open>Product photos, and the padded copies of them made for one ratio.\<close>

record asset =
  as_id :: int
  as_uid :: string
  as_user_id :: int
  as_object_key :: string
  as_content_type :: string
  as_byte_size :: int
  as_width :: "int option"
  as_height :: "int option"
  as_sha256 :: "string option"
  as_origin :: origin
  as_created_at :: time
  as_deleted_at :: "time option"

record asset_variant =
  av_id :: int
  av_asset_id :: int
  av_ratio :: ratio
  av_keep_transparency :: bool
  av_max_dimension :: int
  av_object_key :: string
  av_width :: "int option"
  av_height :: "int option"
  av_content_type :: string
  av_created_at :: time

record upsert_variant_params =
  uv_asset_id :: int
  uv_ratio :: ratio
  uv_keep_transparency :: bool
  uv_max_dimension :: int
  uv_object_key :: string
  uv_width :: "int option"
  uv_height :: "int option"
  uv_content_type :: string

definition is_all_items_done :: "job option \<Rightarrow> bool" where
  "is_all_items_done jo =
     (case jo of None \<Rightarrow> False
      | Some j \<Rightarrow> job_success_count j + job_fail_count j + job_cancelled_count j \<ge> job_item_count j)"

definition is_settled :: "job option \<Rightarrow> bool" where
  "is_settled jo = (case jo of None \<Rightarrow> False | Some j \<Rightarrow> job_settled_at j \<noteq> None)"

definition is_stop_requested :: "job option \<Rightarrow> bool" where
  "is_stop_requested jo = (case jo of None \<Rightarrow> False | Some j \<Rightarrow> job_cancel_requested_at j \<noteq> None)"

definition can_retry :: "job_item option \<Rightarrow> bool" where
  "can_retry io = (case io of None \<Rightarrow> False | Some it \<Rightarrow> it_attempt_count it < it_max_attempts it)"

definition resolve_keep_transparency :: "bool option \<Rightarrow> bool" where
  "resolve_keep_transparency v = (case v of None \<Rightarrow> default_keep_transparency | Some b \<Rightarrow> b)"

section \<open>Holds, alerts, quota requests\<close>

datatype hold_status = HoldStatusOpen | HoldStatusSettled | HoldStatusReleased

record hold =
  hold_id :: int
  hold_job_id :: int
  hold_user_id :: int
  hold_amount :: money
  hold_status :: hold_status
  hold_created_at :: time
  hold_updated_at :: time

definition billing_alert_level_warn :: string where "billing_alert_level_warn = ''warn''"
definition billing_alert_level_critical :: string where "billing_alert_level_critical = ''critical''"

record billing_alert =
  al_id :: int
  al_job_id :: int
  al_estimated :: money
  al_actual :: money
  al_ratio_over :: multiplier
  al_level :: string
  al_created_at :: time

datatype quota_request_status =
  QuotaRequestPending | QuotaRequestHandled | QuotaRequestRejected | QuotaRequestOther string

record quota_request =
  qr_id :: int
  qr_user_id :: int
  qr_note :: "string option"
  qr_status :: quota_request_status
  qr_handled_by :: "int option"
  qr_handled_at :: "time option"
  qr_created_at :: time

text \<open>The two columns that only \<open>QuotaRequestDetail\<close> carries extend the row.\<close>

record quota_request_detail = quota_request +
  qr_handle_note :: "string option"
  qr_approved_amount :: "money option"

section \<open>Parameters and results of the repository\<close>

record pricing_snapshot =
  ps_base_unit_price :: money
  ps_group_rate_multiplier :: multiplier
  ps_account_rate_multiplier :: multiplier
  ps_billing_mode :: string
  ps_pricing_tier :: string
  ps_price_source :: string
  ps_version :: int

record create_job_item_params =
  cji_seq :: int
  cji_asset_id :: "int option"
  cji_variant_id :: "int option"
  cji_prompt_id :: "int option"
  cji_prompt_text :: string
  cji_max_attempts :: int

record create_job_params =
  cj_user_id :: int
  cj_api_key_id :: int
  cj_origin :: origin
  cj_job_uid :: string
  cj_name :: string
  cj_ratio :: ratio
  cj_model :: string
  cj_keep_transparency :: bool
  cj_idempotency_key :: "string option"
  cj_callback_url :: "string option"
  cj_estimated_cost :: money
  cj_pricing :: pricing_snapshot
  cj_items :: "create_job_item_params list"

record create_job_result =
  cr_job :: job
  cr_items :: "job_item list"
  cr_reused :: bool

record claim_item_params =
  cl_worker_id :: string
  cl_lease_for :: duration
  cl_now :: time

record new_image =
  ni_uid :: string
  ni_index :: int
  ni_object_key :: string
  ni_content_type :: string
  ni_byte_size :: int
  ni_width :: "int option"
  ni_height :: "int option"
  ni_billing_tier :: "string option"

record complete_item_success_params =
  cs_item_id :: int
  cs_worker_id :: string
  cs_attempt :: int
  cs_billing_request_id :: string
  cs_images :: "new_image list"
  cs_finished_at :: time

record complete_item_failure_params =
  cf_item_id :: int
  cf_worker_id :: string
  cf_error_code :: string
  cf_error_message :: string
  cf_terminal :: bool
  cf_retry_after :: duration
  cf_finished_at :: time

record finalize_job_params =
  fj_job_id :: int
  fj_status :: job_status
  fj_finished_at :: time

record retry_item_params =
  ri_user_id :: int
  ri_job_id :: int
  ri_seq :: int
  ri_estimated_cost :: money
  ri_idempotency_key :: "string option"

record settle_job_params =
  sj_job_id :: int
  sj_actual_cost :: money
  sj_status :: job_status
  sj_settled_at :: time

record list_jobs_query =
  lq_user_id :: int
  lq_statuses :: "job_status list"
  lq_cursor_created_at :: time
  lq_cursor_id :: int
  lq_limit :: int
  lq_include_deleted :: bool

record job_page =
  pg_jobs :: "job list"
  pg_next_cursor_created_at :: time
  pg_next_cursor_id :: int
  pg_has_more :: bool

record usage_summary =
  us_image_count :: int
  us_cost :: money
  us_balance :: money
  us_available :: money
  us_currency :: string

section \<open>Requests to the image services\<close>

record preprocess_request =
  pr_data :: string
  pr_filename :: string
  pr_content_type :: string
  pr_ratio :: ratio
  pr_keep_transparency :: bool
  pr_max_dimension :: int

record preprocess_result =
  pp_data :: string
  pp_content_type :: string
  pp_width :: int
  pp_height :: int
  pp_changed :: bool
  pp_actions :: "string list"

record generate_request =
  gr_user_id :: int
  gr_api_key_id :: int
  gr_job_uid :: string
  gr_seq :: int
  gr_attempt :: int
  gr_model :: string
  gr_prompt :: string
  gr_size :: string
  gr_ratio :: ratio
  gr_image_data :: string
  gr_image_filename :: string
  gr_image_content_type :: string
  gr_billing_request_id :: string
  gr_timeout :: duration

record generated_image =
  gi_data :: string
  gi_content_type :: string
  gi_width :: int
  gi_height :: int

record generate_result =
  gx_images :: "generated_image list"
  gx_upstream_status :: int
  gx_raw_response :: string
  gx_stored_billing_request_id :: string

section \<open>Object keys\<close>

text \<open>The civil date (year, month, day) of a time in UTC, in the proleptic Gregorian calendar.\<close>

definition civil_date :: "time \<Rightarrow> int \<times> int \<times> int" where
  "civil_date t =
     (let z = t div (24 * hour) + 306;
          era = z div 146097;
          doe = z mod 146097;
          yoe = (doe - doe div 1460 + doe div 36524 - doe div 146096) div 365;
          doy = doe - (365 * yoe + yoe div 4 - yoe div 100);
          mp = (5 * doy + 2) div 153;
          d = doy - (153 * mp + 2) div 5 + 1;
          m = (if mp < 10 then mp + 3 else mp - 9)
      in ((if m \<le> 2 then yoe + era * 400 + 1 else yoe + era * 400), m, d))"

definition date_path :: "time \<Rightarrow> string" where
  "date_path t =
     (case civil_date t of (y, m, d) \<Rightarrow> fmt_pad 4 y @ ''/'' @ fmt_pad 2 m @ ''/'' @ fmt_pad 2 d)"

definition object_key_prefix :: string where
  "object_key_prefix = ''designkit''"

definition image_object_key :: "time \<Rightarrow> string \<Rightarrow> int \<Rightarrow> int \<Rightarrow> int \<Rightarrow> string" where
  "image_object_key created_at uid seq attempt image_index =
     object_key_prefix @ ''/'' @ date_path created_at @ ''/'' @
     uid @ ''-'' @ itoa seq @ ''-'' @ itoa attempt @ ''-'' @ itoa image_index @ ''.png''"

definition asset_object_key :: "time \<Rightarrow> string \<Rightarrow> string \<Rightarrow> string" where
  "asset_object_key created_at asset_uid ext =
     object_key_prefix @ ''/assets/'' @ date_path created_at @ ''/'' @ asset_uid @ ext"

definition variant_object_key :: "time \<Rightarrow> string \<Rightarrow> ratio \<Rightarrow> bool \<Rightarrow> int \<Rightarrow> string \<Rightarrow> string" where
  "variant_object_key created_at asset_uid r keep_transparency max_dimension ext =
     (let transparency = (if keep_transparency then ''t'' else ''o'');
          safe_ratio = map (\<lambda>c. if c = CHR '':'' then CHR ''x'' else c) r
      in object_key_prefix @ ''/variants/'' @ date_path created_at @ ''/'' @
         asset_uid @ ''-'' @ safe_ratio @ ''-'' @ transparency @ ''-'' @ itoa max_dimension @ ext)"

lemma append_digits_cancel:
  assumes "\<forall>c \<in> set xs. c \<noteq> z" and "\<forall>c \<in> set ys. c \<noteq> z" and "xs @ z # us = ys @ z # vs"
  shows "xs = ys \<and> us = vs"
  using assms
proof (induction xs arbitrary: ys)
  case Nil
  then show ?case by (cases ys) auto
next
  case (Cons x xs)
  then show ?case by (cases ys) auto
qed

lemma itoa_no_dash: "0 \<le> n \<Longrightarrow> \<forall>c \<in> set (itoa n). c \<noteq> CHR ''-'' \<and> c \<noteq> CHR ''.''"
proof -
  assume "0 \<le> n"
  then have "\<forall>c \<in> set (itoa n). digit_val c \<noteq> None" using fmt_pad_chars by (auto simp: itoa_fmt_pad)
  then show ?thesis by (auto dest: digit_val_plain simp: digit_val_def)
qed

lemma itoa_inject: "0 \<le> m \<Longrightarrow> 0 \<le> n \<Longrightarrow> itoa m = itoa n \<Longrightarrow> m = n"
  by (auto simp: itoa_def nat_digits_inject)

section \<open>Properties\<close>

text \<open>Two result images stored on the same day have the same object key only if job, sequence
  number, attempt and image index agree, so a retry never overwrites an earlier attempt's image.\<close>

theorem image_object_key_injective:
  assumes "is_valid_ulid u" "is_valid_ulid u'"
    and "0 \<le> s" "0 \<le> a" "0 \<le> i" "0 \<le> s'" "0 \<le> a'" "0 \<le> i'"
    and "image_object_key t u s a i = image_object_key t u' s' a' i'"
  shows "u = u' \<and> s = s' \<and> a = a' \<and> i = i'"
proof -
  have "CHR ''-'' \<notin> set ulid_alphabet" by (simp add: ulid_alphabet_def)
  then have dash: "\<forall>c \<in> set u. c \<noteq> CHR ''-''" "\<forall>c \<in> set u'. c \<noteq> CHR ''-''"
    using assms(1,2) unfolding is_valid_ulid_iff by blast+
  have eq: "u @ CHR ''-'' # itoa s @ CHR ''-'' # itoa a @ CHR ''-'' # itoa i @ CHR ''.'' # ''png''
      = u' @ CHR ''-'' # itoa s' @ CHR ''-'' # itoa a' @ CHR ''-'' # itoa i' @ CHR ''.'' # ''png''"
    using assms(9) unfolding image_object_key_def same_append_eq append.simps by simp
  from append_digits_cancel[OF dash eq]
  have u: "u = u'" and eq2: "itoa s @ CHR ''-'' # itoa a @ CHR ''-'' # itoa i @ CHR ''.'' # ''png''
      = itoa s' @ CHR ''-'' # itoa a' @ CHR ''-'' # itoa i' @ CHR ''.'' # ''png''" by auto
  from append_digits_cancel[OF _ _ eq2] have s: "itoa s = itoa s'"
    and eq3: "itoa a @ CHR ''-'' # itoa i @ CHR ''.'' # ''png'' = itoa a' @ CHR ''-'' # itoa i' @ CHR ''.'' # ''png''"
    using itoa_no_dash assms by auto
  from append_digits_cancel[OF _ _ eq3] have a: "itoa a = itoa a'"
    and eq4: "itoa i @ CHR ''.'' # ''png'' = itoa i' @ CHR ''.'' # ''png''"
    using itoa_no_dash assms by auto
  from append_digits_cancel[OF _ _ eq4] have i: "itoa i = itoa i'"
    using itoa_no_dash assms by auto
  show ?thesis using u s a i itoa_inject assms by blast
qed

lemma image_object_key_injective_witness:
  "image_object_key 0 sample_uid 1 2 1 \<noteq> image_object_key 0 sample_uid 1 1 1"
  using image_object_key_injective[of sample_uid sample_uid 1 2 1 1 1 1 0] sample_uid_valid by auto

end
