(* ===== verification/Database.thy ===== *)
theory Database
  imports Entities "HOL-Library.Product_Lexorder"
begin

text \<open>
  The database of the model. A table is the list of its rows; the serial keys of
  \<open>migrations/9001_designkit_init.sql\<close> are counters. A repository method is one transaction: a
  function of the state that returns an error, after which nothing has changed, or a value and the
  new state. \<open>NOW()\<close> is the argument \<open>now\<close>, the same for all statements of a transaction, as in
  PostgreSQL. The helpers of \<open>repository/repository.go\<close> and \<open>repository/cursor.go\<close> are here too.
  The nouns in the error texts are in English; no code reads them.
\<close>

record user_row =
  usr_id :: int
  usr_balance :: money
  usr_deleted_at :: "time option"

record usage_log =
  ul_user_id :: int
  ul_request_id :: string
  ul_actual_cost :: money
  ul_created_at :: time

record db =
  db_jobs :: "job list"
  db_items :: "job_item list"
  db_images :: "image list"
  db_holds :: "hold list"
  db_alerts :: "billing_alert list"
  db_quota :: "quota_request_detail list"
  db_users :: "user_row list"
  db_usage_logs :: "usage_log list"
  db_next_job :: int
  db_next_item :: int
  db_next_image :: int
  db_next_hold :: int
  db_next_alert :: int
  db_next_quota :: int

type_synonym 'a tx = "db \<Rightarrow> go_error + ('a \<times> db)"

section \<open>Errors of the repository\<close>

text \<open>
  The helpers that wrap a sentinel with a sentence. The nouns are the UTF-8 bytes of the source. What
  the driver adds to a violated unique constraint is not known here and left out; \<open>%q\<close> is written
  as the text between double quotes, which is what it gives for the worker ids the pool makes.
\<close>

definition noun_user :: string where "noun_user = bytes [231, 148, 168, 230, 136, 183]"
definition noun_job :: string where "noun_job = bytes [228, 187, 187, 229, 138, 161]"
definition noun_item :: string where "noun_item = bytes [228, 187, 187, 229, 138, 161, 233, 135, 140, 231, 154, 132, 232, 191, 153, 228, 184, 128,
     229, 188, 160]"
definition noun_this_item :: string where "noun_this_item = bytes [232, 191, 153, 228, 184, 128, 229, 188, 160]"
definition noun_claimable :: string where "noun_claimable = bytes [229, 143, 175, 233, 162, 134, 229, 143, 150, 231, 154, 132, 229, 190, 133, 229, 138, 158]"
definition noun_result_image :: string where "noun_result_image = bytes [231, 187, 147, 230, 158, 156, 229, 155, 190]"
definition noun_quota :: string where "noun_quota = bytes [233, 162, 157, 229, 186, 166, 231, 148, 179, 232, 175, 183]"

definition not_found_err :: "string \<Rightarrow> go_error" where
  "not_found_err what =
     Wrapped (''designkit: '' @ bytes [230, 137, 190, 228, 184, 141, 229, 136, 176] @ what @ '': '' @ sentinel_text ErrNotFound) (Sentinel ErrNotFound)"

definition conflict_err :: "string \<Rightarrow> go_error" where
  "conflict_err what = Wrapped (''designkit: '' @ what @ '': '' @ sentinel_text ErrConflict) (Sentinel ErrConflict)"

definition quoted :: "string \<Rightarrow> string" where
  "quoted s = CHR 0x22 # s @ [CHR 0x22]"

definition lease_lost_err :: "int \<Rightarrow> string \<Rightarrow> go_error" where
  "lease_lost_err item_id worker_id =
     Wrapped (''designkit: item '' @ itoa item_id @ bytes [32, 231, 154, 132, 231, 167, 159, 231, 186, 166, 229, 183, 178, 228, 184, 141, 229, 156,
         168, 32, 119, 111, 114, 107, 101, 114, 32] @ quoted worker_id @
         bytes [32, 230, 137, 139, 233, 135, 140] @ '': '' @ sentinel_text ErrLeaseLost) (Sentinel ErrLeaseLost)"

definition illegal_transition_err :: "string \<Rightarrow> string \<Rightarrow> string \<Rightarrow> go_error" where
  "illegal_transition_err what from_status to_status =
     Wrapped (''designkit: '' @ what @ bytes [32, 228, 184, 141, 229, 133, 129, 232, 174, 184, 228, 187, 142, 32] @ from_status @
         bytes [32, 232, 191, 129, 229, 136, 176, 32] @ to_status @ '': '' @ sentinel_text ErrIllegalTransition) (Sentinel ErrIllegalTransition)"

definition unique_violation :: "string \<Rightarrow> go_error" where
  "unique_violation what =
     Wrapped (''designkit: '' @ what @ bytes [32, 229, 148, 175, 228, 184, 128, 231, 186, 166, 230, 157, 159, 229, 134, 178, 231, 170,
         129, 58, 32] @ sentinel_text ErrConflict) (Sentinel ErrConflict)"

lemma repo_errors_is [simp]:
  "errors_is (not_found_err w) t \<longleftrightarrow> t = ErrNotFound"
  "errors_is (conflict_err w) t \<longleftrightarrow> t = ErrConflict"
  "errors_is (lease_lost_err i w) t \<longleftrightarrow> t = ErrLeaseLost"
  "errors_is (illegal_transition_err w f u) t \<longleftrightarrow> t = ErrIllegalTransition"
  "errors_is (unique_violation w) t \<longleftrightarrow> t = ErrConflict"
  by (auto simp: not_found_err_def conflict_err_def lease_lost_err_def illegal_transition_err_def
      unique_violation_def)

section \<open>Small helpers\<close>

definition default_page_limit :: int where "default_page_limit = 20"
definition max_page_limit :: int where "max_page_limit = 100"

definition clamp_limit :: "int \<Rightarrow> int \<Rightarrow> int \<Rightarrow> int" where
  "clamp_limit limit def max_limit =
     (let a = (if limit \<le> 0 then def else limit);
          b = (if a > max_limit then max_limit else a)
      in if b < 1 then 1 else b)"

text \<open>\<open>seconds\<close>: the interval handed to \<open>make_interval\<close>, kept in nanoseconds.\<close>

definition seconds :: "duration \<Rightarrow> duration \<Rightarrow> duration" where
  "seconds d fallback = (if d \<le> 0 then fallback else d)"

definition allowed_source_statuses :: "job_status \<Rightarrow> job_status list" where
  "allowed_source_statuses to_status = filter (\<lambda>s. can_transition s to_status) all_job_statuses"

definition trimmed_ptr :: "string option \<Rightarrow> string" where
  "trimmed_ptr s = (case s of None \<Rightarrow> [] | Some x \<Rightarrow> trim_space x)"

definition nullable_string_ptr :: "string option \<Rightarrow> string option" where
  "nullable_string_ptr s = (let v = trimmed_ptr s in if v = [] then None else Some v)"

definition nullable_string :: "string \<Rightarrow> string option" where
  "nullable_string s = (if s = [] then None else Some s)"

fun escape_like_pattern :: "string \<Rightarrow> string" where
  "escape_like_pattern [] = []"
| "escape_like_pattern (c # cs) =
     (if c = char_of (92 :: nat) \<or> c = CHR ''%'' \<or> c = CHR ''_''
      then char_of (92 :: nat) # c # escape_like_pattern cs else c # escape_like_pattern cs)"

lemma clamp_limit_bounds: "1 \<le> m \<Longrightarrow> 1 \<le> clamp_limit l d m \<and> clamp_limit l d m \<le> m"
  by (simp add: clamp_limit_def Let_def)

lemma seconds_pos: "0 < f \<Longrightarrow> 0 < seconds d f"
  by (simp add: seconds_def)

lemma allowed_sources_settling: "allowed_source_statuses JobStatusSettling = [JobStatusRunning]"
  by (simp add: allowed_source_statuses_def status_simps)

section \<open>The constraints of the schema\<close>

text \<open>
  Primary keys are distinct and below their counter, an item and a hold belong to a job, a job has
  one item per sequence number and at most one hold.
\<close>

definition job_ids :: "db \<Rightarrow> int set" where
  "job_ids d = set (map job_id (db_jobs d))"

definition schema_ok :: "db \<Rightarrow> bool" where
  "schema_ok d \<longleftrightarrow>
     distinct (map job_id (db_jobs d)) \<and> distinct (map job_uid (db_jobs d)) \<and>
     (\<forall>j \<in> set (db_jobs d). job_id j < db_next_job d) \<and>
     distinct (map it_id (db_items d)) \<and> (\<forall>i \<in> set (db_items d). it_id i < db_next_item d) \<and>
     (\<forall>i \<in> set (db_items d). it_job_id i \<in> job_ids d) \<and>
     distinct (map (\<lambda>i. (it_job_id i, it_seq i)) (db_items d)) \<and>
     distinct (map hold_job_id (db_holds d)) \<and> (\<forall>h \<in> set (db_holds d). hold_job_id h \<in> job_ids d)"

definition the_job :: "db \<Rightarrow> int \<Rightarrow> job option" where
  "the_job d jid = find (\<lambda>j. job_id j = jid) (db_jobs d)"

definition the_item :: "db \<Rightarrow> int \<Rightarrow> job_item option" where
  "the_item d iid = find (\<lambda>i. it_id i = iid) (db_items d)"

definition items_of :: "db \<Rightarrow> int \<Rightarrow> job_item list" where
  "items_of d jid = filter (\<lambda>i. it_job_id i = jid) (db_items d)"

text \<open>Updates of one table.\<close>

definition update_jobs :: "(job \<Rightarrow> bool) \<Rightarrow> (job \<Rightarrow> job) \<Rightarrow> db \<Rightarrow> db" where
  "update_jobs P f d = d\<lparr>db_jobs := upd P f (db_jobs d)\<rparr>"

definition update_items :: "(job_item \<Rightarrow> bool) \<Rightarrow> (job_item \<Rightarrow> job_item) \<Rightarrow> db \<Rightarrow> db" where
  "update_items P f d = d\<lparr>db_items := upd P f (db_items d)\<rparr>"

definition update_holds :: "(hold \<Rightarrow> bool) \<Rightarrow> (hold \<Rightarrow> hold) \<Rightarrow> db \<Rightarrow> db" where
  "update_holds P f d = d\<lparr>db_holds := upd P f (db_holds d)\<rparr>"

lemma update_fields [simp]:
  "db_jobs (update_jobs P f d) = upd P f (db_jobs d)" "db_items (update_jobs P f d) = db_items d"
  "db_holds (update_jobs P f d) = db_holds d" "db_users (update_jobs P f d) = db_users d"
  "db_usage_logs (update_jobs P f d) = db_usage_logs d" "db_images (update_jobs P f d) = db_images d"
  "db_alerts (update_jobs P f d) = db_alerts d" "db_quota (update_jobs P f d) = db_quota d"
  "db_next_job (update_jobs P f d) = db_next_job d" "db_next_item (update_jobs P f d) = db_next_item d"
  "db_next_hold (update_jobs P f d) = db_next_hold d"
  "db_items (update_items Q g d) = upd Q g (db_items d)" "db_jobs (update_items Q g d) = db_jobs d"
  "db_holds (update_items Q g d) = db_holds d" "db_users (update_items Q g d) = db_users d"
  "db_usage_logs (update_items Q g d) = db_usage_logs d" "db_images (update_items Q g d) = db_images d"
  "db_alerts (update_items Q g d) = db_alerts d" "db_quota (update_items Q g d) = db_quota d"
  "db_next_job (update_items Q g d) = db_next_job d" "db_next_item (update_items Q g d) = db_next_item d"
  "db_next_hold (update_items Q g d) = db_next_hold d"
  "db_holds (update_holds R h d) = upd R h (db_holds d)" "db_jobs (update_holds R h d) = db_jobs d"
  "db_items (update_holds R h d) = db_items d" "db_users (update_holds R h d) = db_users d"
  "db_usage_logs (update_holds R h d) = db_usage_logs d" "db_images (update_holds R h d) = db_images d"
  "db_alerts (update_holds R h d) = db_alerts d" "db_quota (update_holds R h d) = db_quota d"
  "db_next_job (update_holds R h d) = db_next_job d" "db_next_item (update_holds R h d) = db_next_item d"
  "db_next_hold (update_holds R h d) = db_next_hold d"
  by (simp_all add: update_jobs_def update_items_def update_holds_def)

end
