(* ===== verification/Job_Repo.thy ===== *)
theory Job_Repo
  imports Database
begin

text \<open>
  \<open>repository/job_repo.go\<close>: submission with admission control, the queue of items with leases, the
  write-back of results, stop, retry, finalisation and the reaper. Every SQL statement is written
  out as an update of the rows it selects; \<open>FOR UPDATE\<close> is the serialisation of transactions, and
  \<open>SKIP LOCKED\<close> is the parameter \<open>locked\<close>, the rows another transaction holds.
\<close>

section \<open>Submission\<close>

definition idempotency_lookup_window :: duration where
  "idempotency_lookup_window = 24 * hour"

text \<open>The two messages of the validation, as the UTF-8 bytes of the source.\<close>

definition empty_batch_message :: string where
  "empty_batch_message =
     bytes [232, 191, 153, 228, 184, 128, 230, 137, 185, 228, 184, 128, 229, 188, 160, 229, 155, 190,
      233, 131, 189, 230, 178, 161, 230, 156, 137, 239, 188, 140, 232, 175, 183, 229, 133, 136,
      233, 128, 137, 229, 149, 134, 229, 147, 129, 229, 155, 190, 229, 146, 140, 230, 143, 144,
      231, 164, 186, 232, 175, 141, 227, 128, 130]"

definition bad_seq_message :: "int \<Rightarrow> int \<Rightarrow> string" where
  "bad_seq_message n seq =
     bytes [230, 137, 185, 230, 172, 161, 229, 134, 133, 229, 186, 143, 229, 143, 183, 228, 184, 141,
      232, 191, 158, 231, 187, 173, 239, 188, 136, 231, 172, 172, 32] @ itoa n @
     bytes [32, 228, 184, 170, 231, 154, 132, 32, 115, 101, 113, 32, 230, 152, 175, 32] @ itoa seq @
     bytes [239, 188, 137, 239, 188, 140, 232, 175, 183, 233, 135, 141, 230, 150, 176, 230, 143, 144,
      228, 186, 164, 227, 128, 130]"

fun first_bad_seq :: "int \<Rightarrow> create_job_item_params list \<Rightarrow> (int \<times> int) option" where
  "first_bad_seq i [] = None"
| "first_bad_seq i (item # rest) =
     (if cji_seq item \<noteq> i + 1 then Some (i + 1, cji_seq item) else first_bad_seq (i + 1) rest)"

definition missing_user_err :: go_error where
  "missing_user_err =
     Wrapped (''designkit: '' @ bytes [230, 143, 144, 228, 186, 164, 230, 137, 185, 230, 172, 161, 231, 188, 186, 229, 176, 145] @ '' user_id: '' @
         sentinel_text ErrNotFound) (Sentinel ErrNotFound)"

definition validate_create_job_params :: "create_job_params \<Rightarrow> go_error option" where
  "validate_create_job_params params =
     (if cj_user_id params \<le> 0 then Some missing_user_err
      else if cj_api_key_id params \<le> 0 then Some (Dk (new_error ErrCodeAPIKeyMissing))
      else if cj_items params = [] then
        Some (Dk (with_message (new_error ErrCodeInvalidRequest) empty_batch_message))
      else case first_bad_seq 0 (cj_items params) of
          Some (n, s) \<Rightarrow> Some (Dk (with_message (new_error ErrCodeInvalidRequest) (bad_seq_message n s)))
        | None \<Rightarrow> None)"

definition lock_user_balance :: "db \<Rightarrow> int \<Rightarrow> go_error + money" where
  "lock_user_balance d user_id =
     (case find (\<lambda>u. usr_id u = user_id \<and> usr_deleted_at u = None) (db_users d) of
        None \<Rightarrow> Inl (not_found_err noun_user)
      | Some u \<Rightarrow> Inr (usr_balance u))"

definition sum_open_holds :: "db \<Rightarrow> int \<Rightarrow> money" where
  "sum_open_holds d user_id =
     sum_col hold_amount (\<lambda>h. hold_user_id h = user_id \<and> hold_status h = HoldStatusOpen) (db_holds d)"

definition new_insufficient_balance :: "decimal_lib \<Rightarrow> money \<Rightarrow> money \<Rightarrow> go_error" where
  "new_insufficient_balance D required available =
     (let gap = required - available;
          shortfall = (if gap < 0 then 0 else gap)
      in InsufficientBalanceError required available (quantize_money D shortfall))"

text \<open>\<open>ORDER BY id DESC LIMIT 1\<close> is the last of the matching rows sorted by id.\<close>

definition find_job_by_idempotency_key :: "time \<Rightarrow> db \<Rightarrow> int \<Rightarrow> string \<Rightarrow> job option" where
  "find_job_by_idempotency_key now d user_id key =
     (let rows = filter (\<lambda>j. job_user_id j = user_id \<and> job_idempotency_key j = Some key
                           \<and> job_created_at j > now - idempotency_lookup_window) (db_jobs d)
      in case rev (sort_key job_id rows) of [] \<Rightarrow> None | j # _ \<Rightarrow> Some j)"

definition list_job_items :: "db \<Rightarrow> int \<Rightarrow> job_item list" where
  "list_job_items d jid = sort_key it_seq (filter (\<lambda>i. it_job_id i = jid) (db_items d))"

definition new_job_row :: "decimal_lib \<Rightarrow> time \<Rightarrow> create_job_params \<Rightarrow> money \<Rightarrow> int \<Rightarrow> job" where
  "new_job_row D now params estimated new_id =
     \<lparr>job_id = new_id, job_uid = cj_job_uid params, job_user_id = cj_user_id params,
      job_api_key_id = cj_api_key_id params,
      job_origin = (if cj_origin params = OriginOther [] then OriginWeb else cj_origin params),
      job_name = cj_name params, job_status = JobStatusCreated, job_ratio = cj_ratio params,
      job_model = cj_model params, job_keep_transparency = cj_keep_transparency params,
      job_item_count = int (length (cj_items params)), job_success_count = 0, job_fail_count = 0,
      job_cancelled_count = 0, job_idempotency_key = nullable_string_ptr (cj_idempotency_key params),
      job_callback_url = nullable_string_ptr (cj_callback_url params), job_currency = currency_usd,
      job_estimated_cost = estimated, job_actual_cost = None,
      job_base_unit_price = quantize_money D (ps_base_unit_price (cj_pricing params)),
      job_group_rate_multiplier = ps_group_rate_multiplier (cj_pricing params),
      job_account_rate_multiplier = ps_account_rate_multiplier (cj_pricing params),
      job_billing_mode = ps_billing_mode (cj_pricing params),
      job_pricing_tier = ps_pricing_tier (cj_pricing params),
      job_price_source = ps_price_source (cj_pricing params),
      job_pricing_snapshot_version = ps_version (cj_pricing params), job_revision = 0,
      job_last_error_code = None, job_last_error_message = None, job_heartbeat_at = Some now,
      job_cancel_requested_at = None, job_expires_at = None, job_created_at = now,
      job_updated_at = now, job_started_at = None, job_finished_at = None, job_settled_at = None,
      job_user_deleted_at = None\<rparr>"

definition insert_job :: "decimal_lib \<Rightarrow> time \<Rightarrow> create_job_params \<Rightarrow> money \<Rightarrow> job tx" where
  "insert_job D now params estimated d =
     (if list_ex (\<lambda>j. job_uid j = cj_job_uid params) (db_jobs d) then Inl (unique_violation noun_job)
      else let row = new_job_row D now params estimated (db_next_job d)
           in Inr (row, d\<lparr>db_jobs := db_jobs d @ [row], db_next_job := db_next_job d + 1\<rparr>))"

definition new_item_row :: "time \<Rightarrow> int \<Rightarrow> create_job_item_params \<Rightarrow> int \<Rightarrow> job_item" where
  "new_item_row now jid p new_id =
     \<lparr>it_id = new_id, it_job_id = jid, it_seq = cji_seq p, it_asset_id = cji_asset_id p,
      it_variant_id = cji_variant_id p, it_prompt_id = cji_prompt_id p,
      it_prompt_text = cji_prompt_text p, it_status = ItemStatusPending, it_attempt_count = 0,
      it_max_attempts = (if cji_max_attempts p \<le> 0 then default_max_attempts else cji_max_attempts p),
      it_last_error_code = None, it_last_error_message = None, it_billed_cost = None,
      it_billing_request_id = None, it_billing_mode = None, it_billing_tier = None,
      it_worker_id = None, it_lease_expires_at = None, it_available_at = now, it_created_at = now,
      it_updated_at = now, it_started_at = None, it_finished_at = None\<rparr>"

fun insert_job_items :: "time \<Rightarrow> int \<Rightarrow> create_job_item_params list \<Rightarrow> db \<Rightarrow> db" where
  "insert_job_items now jid [] d = d"
| "insert_job_items now jid (p # ps) d =
     insert_job_items now jid ps
       (d\<lparr>db_items := db_items d @ [new_item_row now jid p (db_next_item d)],
          db_next_item := db_next_item d + 1\<rparr>)"

text \<open>\<open>INSERT ... ON CONFLICT (job_id) DO UPDATE\<close>: an open hold grows, a closed one is opened anew.\<close>

definition insert_hold :: "time \<Rightarrow> int \<Rightarrow> int \<Rightarrow> money \<Rightarrow> db \<Rightarrow> db" where
  "insert_hold now jid user_id amount d =
     (if list_ex (\<lambda>h. hold_job_id h = jid) (db_holds d) then
        update_holds (\<lambda>h. hold_job_id h = jid)
          (\<lambda>h. h\<lparr>hold_amount := (if hold_status h = HoldStatusOpen then hold_amount h + amount else amount),
                 hold_status := HoldStatusOpen, hold_updated_at := now\<rparr>) d
      else d\<lparr>db_holds := db_holds d @
               [\<lparr>hold_id = db_next_hold d, hold_job_id = jid, hold_user_id = user_id, hold_amount = amount,
                 hold_status = HoldStatusOpen, hold_created_at = now, hold_updated_at = now\<rparr>],
             db_next_hold := db_next_hold d + 1\<rparr>)"

definition create_job_with_items_and_hold ::
  "decimal_lib \<Rightarrow> time \<Rightarrow> create_job_params \<Rightarrow> create_job_result tx" where
  "create_job_with_items_and_hold D now params d =
     (case validate_create_job_params params of
        Some e \<Rightarrow> Inl e
      | None \<Rightarrow>
        (case lock_user_balance d (cj_user_id params) of
           Inl e \<Rightarrow> Inl e
         | Inr balance \<Rightarrow>
           (let key = trimmed_ptr (cj_idempotency_key params) in
            case (if key \<noteq> [] then find_job_by_idempotency_key now d (cj_user_id params) key else None) of
              Some existing \<Rightarrow>
                Inr (\<lparr>cr_job = existing, cr_items = list_job_items d (job_id existing), cr_reused = True\<rparr>, d)
            | None \<Rightarrow>
              (let held = sum_open_holds d (cj_user_id params);
                   estimated = quantize_money D (cj_estimated_cost params);
                   avail = quantize_money D (balance - held)
               in if avail < estimated then Inl (new_insufficient_balance D estimated avail)
                  else case insert_job D now params estimated d of
                      Inl e \<Rightarrow> Inl e
                    | Inr (j, d1) \<Rightarrow>
                      (let d2 = insert_job_items now (job_id j) (cj_items params) d1;
                           items = list_job_items d2 (job_id j);
                           d3 = insert_hold now (job_id j) (cj_user_id params) estimated d2
                       in Inr (\<lparr>cr_job = j, cr_items = items, cr_reused = False\<rparr>, d3))))))"

section \<open>Reads\<close>

definition get_job_by_uid :: "db \<Rightarrow> int \<Rightarrow> string \<Rightarrow> go_error + job" where
  "get_job_by_uid d user_id uid =
     (case find (\<lambda>j. job_uid j = uid \<and> job_user_id j = user_id \<and> job_user_deleted_at j = None) (db_jobs d) of
        None \<Rightarrow> Inl (not_found_err noun_job) | Some j \<Rightarrow> Inr j)"

definition get_job_by_id :: "db \<Rightarrow> int \<Rightarrow> go_error + job" where
  "get_job_by_id d jid = (case the_job d jid of None \<Rightarrow> Inl (not_found_err noun_job) | Some j \<Rightarrow> Inr j)"

definition get_job_item_by_seq :: "db \<Rightarrow> int \<Rightarrow> int \<Rightarrow> go_error + job_item" where
  "get_job_item_by_seq d jid seq =
     (case find (\<lambda>i. it_job_id i = jid \<and> it_seq i = seq) (db_items d) of
        None \<Rightarrow> Inl (not_found_err noun_item) | Some i \<Rightarrow> Inr i)"

text \<open>\<open>ORDER BY created_at DESC, id DESC\<close> with one row more than the page, which tells whether
  there is a next page.\<close>

definition list_jobs_rows :: "db \<Rightarrow> list_jobs_query \<Rightarrow> job list" where
  "list_jobs_rows d q =
     rev (sort_key (\<lambda>j. (job_created_at j, job_id j))
       (filter (\<lambda>j. job_user_id j = lq_user_id q
          \<and> (lq_include_deleted q \<or> job_user_deleted_at j = None)
          \<and> (lq_statuses q = [] \<or> job_status j \<in> set (lq_statuses q))
          \<and> (lq_cursor_created_at q \<noteq> zero_time \<and> lq_cursor_id q > 0 \<longrightarrow>
               (job_created_at j, job_id j) < (lq_cursor_created_at q, lq_cursor_id q)))
        (db_jobs d)))"

definition list_jobs :: "db \<Rightarrow> list_jobs_query \<Rightarrow> job_page" where
  "list_jobs d q =
     (let limit = nat (clamp_limit (lq_limit q) default_page_limit max_page_limit);
          jobs = take (limit + 1) (list_jobs_rows d q);
          has_more = length jobs > limit;
          page = (if has_more then take limit jobs else jobs)
      in if page \<noteq> [] \<and> has_more
         then \<lparr>pg_jobs = page, pg_next_cursor_created_at = job_created_at (last page),
               pg_next_cursor_id = job_id (last page), pg_has_more = has_more\<rparr>
         else \<lparr>pg_jobs = page, pg_next_cursor_created_at = zero_time, pg_next_cursor_id = 0,
               pg_has_more = has_more\<rparr>)"

definition list_images_by_item :: "db \<Rightarrow> int \<Rightarrow> bool \<Rightarrow> image list" where
  "list_images_by_item d iid current_only =
     sort_key (\<lambda>i. (img_index i, img_attempt i, img_id i))
       (filter (\<lambda>i. img_item_id i = iid \<and> img_deleted_at i = None \<and> (current_only \<longrightarrow> img_is_current i))
          (db_images d))"

section \<open>Status\<close>

definition status_gone_message :: "int \<Rightarrow> job_status \<Rightarrow> string" where
  "status_gone_message jid from_status =
     noun_job @ '' '' @ itoa jid @ bytes [32, 229, 183, 178, 231, 187, 143, 228, 184, 141, 229, 156, 168, 32] @
     job_status_text from_status @ bytes [32, 231, 138, 182, 230, 128, 129]"

definition update_job_status :: "time \<Rightarrow> int \<Rightarrow> job_status \<Rightarrow> job_status \<Rightarrow> unit tx" where
  "update_job_status now jid from_status to_status d =
     (if \<not> can_transition from_status to_status
      then Inl (illegal_transition_err noun_job (job_status_text from_status) (job_status_text to_status))
      else let P = (\<lambda>j. job_id j = jid \<and> job_status j = from_status)
           in if affected P (db_jobs d) = 0 then Inl (conflict_err (status_gone_message jid from_status))
              else Inr ((), update_jobs P
                (\<lambda>j. j\<lparr>job_status := to_status,
                       job_started_at := (if to_status = JobStatusRunning \<and> job_started_at j = None
                                          then Some now else job_started_at j),
                       job_heartbeat_at := Some now, job_updated_at := now\<rparr>) d))"

section \<open>The queue\<close>

definition claimable :: "time \<Rightarrow> job_item \<Rightarrow> bool" where
  "claimable now i \<longleftrightarrow>
     (it_status i = ItemStatusPending \<and> it_available_at i \<le> now \<and> it_attempt_count i < it_max_attempts i)
     \<or> (it_status i = ItemStatusRunning \<and>
          (case it_lease_expires_at i of None \<Rightarrow> False | Some lease \<Rightarrow> lease < now))"

definition claim_item :: "string \<Rightarrow> duration \<Rightarrow> time \<Rightarrow> job_item \<Rightarrow> job_item" where
  "claim_item worker lease now i =
     i\<lparr>it_status := ItemStatusRunning, it_worker_id := Some worker,
       it_lease_expires_at := Some (now + lease), it_attempt_count := it_attempt_count i + 1,
       it_started_at := (case it_started_at i of None \<Rightarrow> Some now | Some t \<Rightarrow> Some t),
       it_updated_at := now\<rparr>"

definition claim_without_worker :: go_error where
  "claim_without_worker =
     Opaque (bytes [100, 101, 115, 105, 103, 110, 107, 105, 116, 58, 32, 233, 162, 134, 229, 143, 150, 228,
         187, 187, 229, 138, 161, 229, 191, 133, 233, 161, 187, 229, 184, 166, 32, 119, 111, 114,
         107, 101, 114, 95, 105, 100, 239, 188, 136, 229, 134, 153, 229, 155, 158, 231, 187, 147,
         230, 158, 156, 230, 151, 182, 232, 166, 129, 230, 139, 191, 229, 174, 131, 229, 129, 154,
         229, 174, 136, 229, 141, 171, 239, 188, 137])"

definition claim_next_item ::
  "time \<Rightarrow> (int \<Rightarrow> bool) \<Rightarrow> claim_item_params \<Rightarrow> job_item tx" where
  "claim_next_item db_now locked params d =
     (if trim_space (cl_worker_id params) = [] then Inl claim_without_worker
      else
        let lease = seconds (cl_lease_for params) (default_lease_seconds * second);
            now = (if cl_now params = zero_time then db_now else cl_now params);
            rows = filter (\<lambda>i. claimable now i \<and> \<not> locked (it_id i)) (db_items d)
        in case sort_key (\<lambda>i. (it_job_id i, it_seq i)) rows of
             [] \<Rightarrow> Inl (not_found_err noun_claimable)
           | i # _ \<Rightarrow>
               Inr (claim_item (cl_worker_id params) lease now i,
                    update_items (\<lambda>r. it_id r = it_id i) (claim_item (cl_worker_id params) lease now) d))"

text \<open>The guard of every write-back: the item is still running under this worker's lease.\<close>

definition lease_guard :: "int \<Rightarrow> string \<Rightarrow> job_item \<Rightarrow> bool" where
  "lease_guard iid worker i \<longleftrightarrow>
     it_id i = iid \<and> it_worker_id i = Some worker \<and> it_status i = ItemStatusRunning"

definition renew_item_lease :: "time \<Rightarrow> int \<Rightarrow> string \<Rightarrow> duration \<Rightarrow> unit tx" where
  "renew_item_lease now iid worker lease_for d =
     (if affected (lease_guard iid worker) (db_items d) \<noteq> 1 then Inl (lease_lost_err iid worker)
      else Inr ((), update_items (lease_guard iid worker)
        (\<lambda>i. i\<lparr>it_lease_expires_at := Some (now + seconds lease_for (default_lease_seconds * second)),
               it_updated_at := now\<rparr>) d))"

section \<open>Writing back a success\<close>

definition no_image_message :: string where
  "no_image_message =
     bytes [229, 135, 186, 229, 155, 190, 230, 136, 144, 229, 138, 159, 229, 141, 180, 228, 184, 128,
      229, 188, 160, 229, 155, 190, 233, 131, 189, 230, 178, 161, 230, 156, 137, 239, 188, 140,
      229, 183, 178, 228, 184, 162, 229, 188, 131, 232, 191, 153, 230, 172, 161, 231, 187, 147,
      230, 158, 156, 227, 128, 130]"

definition new_image_row :: "time \<Rightarrow> int \<Rightarrow> complete_item_success_params \<Rightarrow> new_image \<Rightarrow> int \<Rightarrow> image" where
  "new_image_row now jid params img new_id =
     \<lparr>img_id = new_id, img_uid = ni_uid img, img_job_id = jid, img_item_id = cs_item_id params,
      img_attempt = cs_attempt params, img_index = ni_index img, img_is_current = True,
      img_object_key = ni_object_key img, img_content_type = ni_content_type img,
      img_byte_size = ni_byte_size img, img_width = ni_width img, img_height = ni_height img,
      img_billing_tier = ni_billing_tier img, img_created_at = now, img_deleted_at = None,
      img_expires_at = None\<rparr>"

definition image_conflict :: "int \<Rightarrow> int \<Rightarrow> image \<Rightarrow> bool" where
  "image_conflict iid index r \<longleftrightarrow>
     img_item_id r = iid \<and> img_index r = index \<and> img_is_current r \<and> img_deleted_at r = None"

definition insert_image :: "time \<Rightarrow> int \<Rightarrow> complete_item_success_params \<Rightarrow> new_image \<Rightarrow> unit tx" where
  "insert_image now jid params img d =
     (let hit = image_conflict (cs_item_id params) (ni_index img)
      in if list_ex hit (db_images d) then
           (if list_ex (\<lambda>r. \<not> hit r \<and> img_uid r = ni_uid img) (db_images d)
            then Inl (unique_violation noun_result_image)
            else Inr ((), d\<lparr>db_images := upd hit
              (\<lambda>r. r\<lparr>img_uid := ni_uid img, img_attempt := cs_attempt params,
                     img_object_key := ni_object_key img, img_content_type := ni_content_type img,
                     img_byte_size := ni_byte_size img, img_width := ni_width img,
                     img_height := ni_height img, img_billing_tier := ni_billing_tier img\<rparr>)
              (db_images d)\<rparr>))
         else if list_ex (\<lambda>r. img_uid r = ni_uid img) (db_images d) then Inl (unique_violation noun_result_image)
         else Inr ((), d\<lparr>db_images := db_images d @ [new_image_row now jid params img (db_next_image d)],
                         db_next_image := db_next_image d + 1\<rparr>))"

fun insert_images :: "time \<Rightarrow> int \<Rightarrow> complete_item_success_params \<Rightarrow> new_image list \<Rightarrow> unit tx" where
  "insert_images now jid params [] d = Inr ((), d)"
| "insert_images now jid params (img # imgs) d =
     (case insert_image now jid params img d of
        Inl e \<Rightarrow> Inl e | Inr (_, d1) \<Rightarrow> insert_images now jid params imgs d1)"

definition succeed_item :: "time \<Rightarrow> time \<Rightarrow> complete_item_success_params \<Rightarrow> job_item \<Rightarrow> job_item" where
  "succeed_item now finished_at params i =
     i\<lparr>it_status := ItemStatusSucceeded,
       it_billing_request_id := nullable_string (cs_billing_request_id params),
       it_last_error_code := None, it_last_error_message := None, it_lease_expires_at := None,
       it_finished_at := Some finished_at, it_updated_at := now\<rparr>"

definition complete_item_success :: "time \<Rightarrow> complete_item_success_params \<Rightarrow> unit tx" where
  "complete_item_success now params d =
     (if cs_images params = [] then Inl (Dk (with_message (new_error ErrCodeInternal) no_image_message))
      else
        let finished_at = (if cs_finished_at params = zero_time then now else cs_finished_at params);
            guard = lease_guard (cs_item_id params) (cs_worker_id params)
        in case find guard (db_items d) of
             None \<Rightarrow> Inl (lease_lost_err (cs_item_id params) (cs_worker_id params))
           | Some i \<Rightarrow>
             (let jid = it_job_id i;
                  d1 = update_items guard (succeed_item now finished_at params) d;
                  d2 = d1\<lparr>db_images := upd
                     (\<lambda>r. img_item_id r = cs_item_id params \<and> img_attempt r \<noteq> cs_attempt params
                        \<and> img_is_current r \<and> img_deleted_at r = None)
                     (\<lambda>r. r\<lparr>img_is_current := False\<rparr>) (db_images d1)\<rparr>
              in case insert_images now jid params (cs_images params) d2 of
                   Inl e \<Rightarrow> Inl e
                 | Inr (_, d3) \<Rightarrow>
                   Inr ((), update_jobs (\<lambda>j. job_id j = jid)
                     (\<lambda>j. j\<lparr>job_success_count := job_success_count j + 1,
                            job_started_at := (case job_started_at j of None \<Rightarrow> Some now | Some t \<Rightarrow> Some t),
                            job_heartbeat_at := Some now, job_updated_at := now\<rparr>) d3)))"

section \<open>Writing back a failure\<close>

definition requeue_item :: "time \<Rightarrow> complete_item_failure_params \<Rightarrow> job_item \<Rightarrow> job_item" where
  "requeue_item now params i =
     i\<lparr>it_status := ItemStatusPending, it_last_error_code := nullable_string (cf_error_code params),
       it_last_error_message := nullable_string (cf_error_message params),
       it_available_at := now + seconds (cf_retry_after params) second,
       it_worker_id := None, it_lease_expires_at := None, it_updated_at := now\<rparr>"

definition fail_item :: "time \<Rightarrow> time \<Rightarrow> complete_item_failure_params \<Rightarrow> job_item \<Rightarrow> job_item" where
  "fail_item now finished_at params i =
     i\<lparr>it_status := ItemStatusFailed, it_last_error_code := nullable_string (cf_error_code params),
       it_last_error_message := nullable_string (cf_error_message params),
       it_worker_id := None, it_lease_expires_at := None, it_finished_at := Some finished_at,
       it_updated_at := now\<rparr>"

definition complete_item_failure :: "time \<Rightarrow> complete_item_failure_params \<Rightarrow> unit tx" where
  "complete_item_failure now params d =
     (let finished_at = (if cf_finished_at params = zero_time then now else cf_finished_at params);
          guard = lease_guard (cf_item_id params) (cf_worker_id params);
          lost = lease_lost_err (cf_item_id params) (cf_worker_id params)
      in if \<not> cf_terminal params then
           (if affected guard (db_items d) \<noteq> 1 then Inl lost
            else Inr ((), update_items guard (requeue_item now params) d))
         else case find guard (db_items d) of
             None \<Rightarrow> Inl lost
           | Some i \<Rightarrow>
               Inr ((), update_jobs (\<lambda>j. job_id j = it_job_id i)
                 (\<lambda>j. j\<lparr>job_fail_count := job_fail_count j + 1, job_heartbeat_at := Some now,
                        job_updated_at := now\<rparr>)
                 (update_items guard (fail_item now finished_at params) d)))"

section \<open>Stop\<close>

definition cancel_item :: "time \<Rightarrow> job_item \<Rightarrow> job_item" where
  "cancel_item now i = i\<lparr>it_status := ItemStatusCancelled, it_finished_at := Some now, it_updated_at := now\<rparr>"

definition request_job_stop :: "time \<Rightarrow> int \<Rightarrow> int tx" where
  "request_job_stop now jid d =
     (if affected (\<lambda>j. job_id j = jid) (db_jobs d) = 0 then Inl (not_found_err noun_job)
      else
        let d1 = update_jobs (\<lambda>j. job_id j = jid)
              (\<lambda>j. j\<lparr>job_cancel_requested_at :=
                       (case job_cancel_requested_at j of None \<Rightarrow> Some now | Some t \<Rightarrow> Some t),
                     job_updated_at := now\<rparr>) d;
            P = (\<lambda>i. it_job_id i = jid \<and> it_status i = ItemStatusPending);
            cancelled = affected P (db_items d1);
            d2 = update_items P (cancel_item now) d1
        in if cancelled = 0 then Inr (0, d2)
           else Inr (cancelled, update_jobs (\<lambda>j. job_id j = jid)
             (\<lambda>j. j\<lparr>job_cancelled_count := job_cancelled_count j + cancelled, job_updated_at := now\<rparr>) d2))"

section \<open>Retry\<close>

definition retry_count_adjust :: "item_status \<Rightarrow> job \<Rightarrow> job" where
  "retry_count_adjust s j =
     (case s of
        ItemStatusSucceeded \<Rightarrow> j\<lparr>job_success_count := max (job_success_count j - 1) 0\<rparr>
      | ItemStatusFailed \<Rightarrow> j\<lparr>job_fail_count := max (job_fail_count j - 1) 0\<rparr>
      | ItemStatusCancelled \<Rightarrow> j\<lparr>job_cancelled_count := max (job_cancelled_count j - 1) 0\<rparr>
      | _ \<Rightarrow> j)"

definition status_changed_message :: "int \<Rightarrow> string" where
  "status_changed_message jid =
     noun_job @ '' '' @ itoa jid @ bytes [32, 231, 154, 132, 231, 138, 182, 230, 128, 129, 229, 183, 178, 231, 187, 143, 232, 162,
      171, 229, 136, 171, 228, 186, 186, 230, 148, 185, 232, 191, 135, 228, 186, 134]"

definition update_job_for_retry :: "time \<Rightarrow> job \<Rightarrow> item_status \<Rightarrow> unit tx" where
  "update_job_for_retry now j item_from d =
     (let base = (\<lambda>r. retry_count_adjust item_from (r\<lparr>job_updated_at := now, job_heartbeat_at := Some now\<rparr>));
          run = (\<lambda>P f. if affected P (db_jobs d) \<noteq> 1 then Inl (conflict_err (status_changed_message (job_id j)))
                       else Inr ((), update_jobs P f d))
      in if job_is_terminal (job_status j) then
           (if \<not> can_transition (job_status j) JobStatusRunning
            then Inl (illegal_transition_err noun_job (job_status_text (job_status j)) (job_status_text JobStatusRunning))
            else run (\<lambda>r. job_id r = job_id j \<and> job_settled_at r = None \<and> job_status r = job_status j)
              (\<lambda>r. (base r)\<lparr>job_status := JobStatusRunning, job_finished_at := None,
                             job_revision := job_revision r + 1\<rparr>))
         else if job_status j = JobStatusRunning \<or> job_status j = JobStatusHolding then
           run (\<lambda>r. job_id r = job_id j \<and> job_settled_at r = None) base
         else Inl (illegal_transition_err noun_job (job_status_text (job_status j)) (job_status_text JobStatusRunning)))"

definition retry_item_row :: "time \<Rightarrow> job_item \<Rightarrow> job_item" where
  "retry_item_row now i =
     i\<lparr>it_status := ItemStatusPending, it_available_at := now, it_worker_id := None,
       it_lease_expires_at := None, it_last_error_code := None, it_last_error_message := None,
       it_finished_at := None, it_updated_at := now\<rparr>"

definition retry_item :: "decimal_lib \<Rightarrow> time \<Rightarrow> retry_item_params \<Rightarrow> job_item tx" where
  "retry_item D now params d =
     (case lock_user_balance d (ri_user_id params) of
        Inl e \<Rightarrow> Inl e
      | Inr balance \<Rightarrow>
       (case find (\<lambda>j. job_id j = ri_job_id params \<and> job_user_id j = ri_user_id params) (db_jobs d) of
          None \<Rightarrow> Inl (not_found_err noun_job)
        | Some j \<Rightarrow>
          if is_settled (Some j) then
            Inl (Dk (with_cause (new_error ErrCodeJobAlreadySettled) (Sentinel ErrConflict)))
          else case get_job_item_by_seq d (ri_job_id params) (ri_seq params) of
            Inl e \<Rightarrow> Inl e
          | Inr current \<Rightarrow>
            if \<not> can_transition_item (it_status current) ItemStatusPending then
              Inl (illegal_transition_err noun_this_item (item_status_text (it_status current))
                     (item_status_text ItemStatusPending))
            else if \<not> can_retry (Some current) then
              Inl (Dk (with_cause (new_error ErrCodeMaxAttemptsExceeded) (Sentinel ErrConflict)))
            else
              let held = sum_open_holds d (ri_user_id params);
                  estimated = quantize_money D (ri_estimated_cost params);
                  avail = quantize_money D (balance - held)
              in if avail < estimated then Inl (new_insufficient_balance D estimated avail)
                 else case update_job_for_retry now j (it_status current) d of
                     Inl e \<Rightarrow> Inl e
                   | Inr (_, d1) \<Rightarrow>
                     Inr (retry_item_row now current,
                          insert_hold now (job_id j) (ri_user_id params) estimated
                            (update_items (\<lambda>i. it_id i = it_id current \<and> it_status i = it_status current)
                               (retry_item_row now) d1))))"

section \<open>Finalisation and heartbeat\<close>

definition finalize_source_statuses :: "job_status list" where
  "finalize_source_statuses =
     (let sources = allowed_source_statuses JobStatusSettling;
          add = (\<lambda>extra l. if extra \<in> set l then l else l @ [extra])
      in add JobStatusHolding (add JobStatusCreated sources))"

definition counters_full :: "job \<Rightarrow> bool" where
  "counters_full j \<longleftrightarrow> job_success_count j + job_fail_count j + job_cancelled_count j = job_item_count j"

definition finalize_guard :: "job \<Rightarrow> bool" where
  "finalize_guard j \<longleftrightarrow>
     job_finished_at j = None \<and> counters_full j \<and> job_status j \<in> set finalize_source_statuses"

definition finalize_job :: "time \<Rightarrow> finalize_job_params \<Rightarrow> bool tx" where
  "finalize_job now params d =
     (let finished_at = (if fj_finished_at params = zero_time then now else fj_finished_at params)
      in if fj_status params \<noteq> JobStatusOther [] \<and> \<not> job_is_valid (fj_status params)
         then Inl (illegal_transition_err noun_job ''?'' (job_status_text (fj_status params)))
         else let P = (\<lambda>j. job_id j = fj_job_id params \<and> finalize_guard j)
              in Inr (affected P (db_jobs d) = 1,
                   update_jobs P (\<lambda>j. j\<lparr>job_status := JobStatusSettling, job_finished_at := Some finished_at,
                                       job_updated_at := now\<rparr>) d))"

definition touch_job_heartbeat :: "time \<Rightarrow> int list \<Rightarrow> db \<Rightarrow> db" where
  "touch_job_heartbeat now ids d =
     (if ids = [] then d
      else update_jobs (\<lambda>j. job_id j \<in> set ids) (\<lambda>j. j\<lparr>job_heartbeat_at := Some now\<rparr>) d)"

section \<open>The reaper\<close>

definition stale_settling_after :: duration where
  "stale_settling_after = 60 * minute"

text \<open>\<open>SELECT id ... ORDER BY id FOR UPDATE SKIP LOCKED LIMIT n\<close>.\<close>

definition select_ids :: "(int \<Rightarrow> bool) \<Rightarrow> int \<Rightarrow> ('r \<Rightarrow> int) \<Rightarrow> ('r \<Rightarrow> bool) \<Rightarrow> 'r list \<Rightarrow> int list" where
  "select_ids locked limit key P rows =
     take (nat limit) (sort (map key (filter (\<lambda>r. P r \<and> \<not> locked (key r)) rows)))"

definition dead_pending :: "job_item \<Rightarrow> bool" where
  "dead_pending i \<longleftrightarrow>
     it_status i = ItemStatusPending \<and> it_attempt_count i > 0
     \<and> it_attempt_count i \<ge> (if it_max_attempts i > 0 then it_max_attempts i else default_max_attempts)"

definition dead_pending_note :: string where
  "dead_pending_note = ''item was pending with no attempt budget left; swept by designkit reaper''"

definition sweep_item :: "time \<Rightarrow> job_item \<Rightarrow> job_item" where
  "sweep_item now i =
     i\<lparr>it_status := ItemStatusFailed, it_last_error_code := Some ErrCodeMaxAttemptsExceeded,
       it_last_error_message :=
         (case it_last_error_message i of None \<Rightarrow> Some dead_pending_note | Some m \<Rightarrow> Some m),
       it_worker_id := None, it_lease_expires_at := None,
       it_finished_at := (case it_finished_at i of None \<Rightarrow> Some now | Some t \<Rightarrow> Some t),
       it_updated_at := now\<rparr>"

definition reap_dead_pending_items :: "time \<Rightarrow> (int \<Rightarrow> bool) \<Rightarrow> int \<Rightarrow> db \<Rightarrow> db" where
  "reap_dead_pending_items now locked limit d =
     (let ids = select_ids locked limit it_id dead_pending (db_items d);
          hit = (\<lambda>i. it_id i \<in> set ids);
          dead_of = (\<lambda>jid. affected (\<lambda>i. hit i \<and> it_job_id i = jid) (db_items d));
          d1 = update_jobs (\<lambda>j. dead_of (job_id j) > 0)
                 (\<lambda>j. j\<lparr>job_fail_count := job_fail_count j + dead_of (job_id j), job_updated_at := now\<rparr>)
                 (update_items hit (sweep_item now) d)
      in update_jobs (\<lambda>j. dead_of (job_id j) > 0 \<and> finalize_guard j)
           (\<lambda>j. j\<lparr>job_status := JobStatusSettling,
                  job_finished_at := (case job_finished_at j of None \<Rightarrow> Some now | Some t \<Rightarrow> Some t),
                  job_updated_at := now\<rparr>) d1)"

definition stale_job :: "time \<Rightarrow> duration \<Rightarrow> job \<Rightarrow> bool" where
  "stale_job now stale j \<longleftrightarrow>
     job_status j \<in> {JobStatusCreated, JobStatusHolding, JobStatusRunning}
     \<and> (case job_heartbeat_at j of None \<Rightarrow> job_created_at j | Some h \<Rightarrow> h) < now - stale"

definition reap_stale_job :: "time \<Rightarrow> job \<Rightarrow> job" where
  "reap_stale_job now j =
     j\<lparr>job_status := JobStatusFailed, job_last_error_code := Some ErrCodeStale,
       job_finished_at := (case job_finished_at j of None \<Rightarrow> Some now | Some t \<Rightarrow> Some t),
       job_updated_at := now\<rparr>"

definition stop_unfinished_item :: "time \<Rightarrow> job_item \<Rightarrow> job_item" where
  "stop_unfinished_item now i =
     i\<lparr>it_status := (if it_status i = ItemStatusPending then ItemStatusCancelled else ItemStatusFailed),
       it_last_error_code := (if it_status i = ItemStatusRunning then Some ErrCodeStale
                              else it_last_error_code i),
       it_worker_id := None, it_lease_expires_at := None,
       it_finished_at := (case it_finished_at i of None \<Rightarrow> Some now | Some t \<Rightarrow> Some t),
       it_updated_at := now\<rparr>"

definition stop_unfinished_items :: "time \<Rightarrow> int list \<Rightarrow> db \<Rightarrow> db" where
  "stop_unfinished_items now ids d =
     (let hit = (\<lambda>i. it_job_id i \<in> set ids
                   \<and> (it_status i = ItemStatusPending \<or> it_status i = ItemStatusRunning));
          stopped = (\<lambda>s jid. affected (\<lambda>i. hit i \<and> it_job_id i = jid \<and> it_status i = s) (db_items d))
      in update_jobs (\<lambda>j. stopped ItemStatusPending (job_id j) + stopped ItemStatusRunning (job_id j) > 0)
           (\<lambda>j. j\<lparr>job_cancelled_count := job_cancelled_count j + stopped ItemStatusPending (job_id j),
                  job_fail_count := job_fail_count j + stopped ItemStatusRunning (job_id j),
                  job_updated_at := now\<rparr>)
           (update_items hit (stop_unfinished_item now) d))"

definition close_hold :: "time \<Rightarrow> hold \<Rightarrow> hold" where
  "close_hold now h = h\<lparr>hold_amount := 0, hold_status := HoldStatusReleased, hold_updated_at := now\<rparr>"

definition release_holds_for_jobs :: "time \<Rightarrow> int list \<Rightarrow> db \<Rightarrow> db" where
  "release_holds_for_jobs now ids d =
     update_holds (\<lambda>h. hold_job_id h \<in> set ids \<and> hold_status h = HoldStatusOpen) (close_hold now) d"

definition stuck_settling :: "time \<Rightarrow> duration \<Rightarrow> job \<Rightarrow> bool" where
  "stuck_settling now stale j \<longleftrightarrow>
     job_status j = JobStatusSettling \<and> job_settled_at j = None
     \<and> (case job_finished_at j of None \<Rightarrow> job_updated_at j | Some t \<Rightarrow> t) < now - stale"

text \<open>The \<open>CASE\<close> of \<open>reapStuckSettlingSQL\<close>.\<close>

definition settled_status_sql :: "job \<Rightarrow> job_status" where
  "settled_status_sql j =
     (if job_cancel_requested_at j \<noteq> None \<and> job_cancelled_count j > 0 then JobStatusCancelled
      else if job_item_count j > 0 \<and> job_success_count j = job_item_count j then JobStatusSucceeded
      else if job_success_count j > 0 then JobStatusPartiallyFailed
      else if job_cancelled_count j > 0 \<and> job_fail_count j = 0 then JobStatusCancelled
      else JobStatusFailed)"

definition sum_billed :: "db \<Rightarrow> int \<Rightarrow> money" where
  "sum_billed d jid =
     sum_col (\<lambda>i. case it_billed_cost i of None \<Rightarrow> 0 | Some c \<Rightarrow> c) (\<lambda>i. it_job_id i = jid) (db_items d)"

definition close_stuck_job :: "time \<Rightarrow> db \<Rightarrow> job \<Rightarrow> job" where
  "close_stuck_job now d j =
     j\<lparr>job_status := settled_status_sql j,
       job_actual_cost := (case job_actual_cost j of None \<Rightarrow> Some (sum_billed d (job_id j)) | Some c \<Rightarrow> Some c),
       job_settled_at := (case job_settled_at j of None \<Rightarrow> Some now | Some t \<Rightarrow> Some t),
       job_finished_at := (case job_finished_at j of None \<Rightarrow> Some now | Some t \<Rightarrow> Some t),
       job_updated_at := now\<rparr>"

definition reap_stale_jobs ::
  "time \<Rightarrow> (int \<Rightarrow> bool) \<Rightarrow> (int \<Rightarrow> bool) \<Rightarrow> duration \<Rightarrow> int \<Rightarrow> db \<Rightarrow> int list \<times> db" where
  "reap_stale_jobs now locked_item locked_job stale_after limit_arg d =
     (let limit = (if limit_arg \<le> 0 then 50 else limit_arg);
          stale = seconds stale_after (default_stale_job_minutes * minute);
          d1 = reap_dead_pending_items now locked_item limit d;
          stale_ids = select_ids locked_job limit job_id (stale_job now stale) (db_jobs d1);
          d2 = update_jobs (\<lambda>j. job_id j \<in> set stale_ids) (reap_stale_job now) d1;
          d3 = (if stale_ids = [] then d2
                else release_holds_for_jobs now stale_ids (stop_unfinished_items now stale_ids d2));
          settling_ids = select_ids locked_job limit job_id (stuck_settling now stale_settling_after) (db_jobs d3);
          d4 = update_jobs (\<lambda>j. job_id j \<in> set settling_ids) (close_stuck_job now d3) d3;
          d5 = (if settling_ids = [] then d4 else release_holds_for_jobs now settling_ids d4)
      in (stale_ids @ settling_ids, d5))"

section \<open>Small statements\<close>

definition clear_job_idempotency_key :: "time \<Rightarrow> int \<Rightarrow> db \<Rightarrow> db" where
  "clear_job_idempotency_key now jid d =
     update_jobs (\<lambda>j. job_id j = jid \<and> job_idempotency_key j \<noteq> None)
       (\<lambda>j. j\<lparr>job_idempotency_key := None, job_updated_at := now\<rparr>) d"

definition soft_delete_job :: "time \<Rightarrow> int \<Rightarrow> string \<Rightarrow> unit tx" where
  "soft_delete_job now user_id uid d =
     (let P = (\<lambda>j. job_uid j = uid \<and> job_user_id j = user_id \<and> job_user_deleted_at j = None)
      in if affected P (db_jobs d) = 0 then Inl (not_found_err noun_job)
         else Inr ((), update_jobs P (\<lambda>j. j\<lparr>job_user_deleted_at := Some now, job_updated_at := now\<rparr>) d))"

text \<open>\<open>ORDER BY finished_at ASC NULLS FIRST, id ASC\<close>: an absent time sorts before every time.\<close>

definition list_jobs_pending_settlement :: "db \<Rightarrow> int \<Rightarrow> job list" where
  "list_jobs_pending_settlement d limit =
     take (nat (clamp_limit limit default_page_limit max_page_limit))
       (sort_key (\<lambda>j. (case job_finished_at j of None \<Rightarrow> (0 :: int, 0) | Some t \<Rightarrow> (1, t), job_id j))
          (filter (\<lambda>j. job_status j = JobStatusSettling \<and> job_settled_at j = None) (db_jobs d)))"

end
