(* ===== verification/Counters.thy ===== *)
theory Counters
  imports Job_Repo
begin

text \<open>
  The invariants of the database that the repository operations keep: the schema constraints, the
  counters of a job, the statuses and the holds; with the lemmas on table updates that the
  preservation proofs share.
\<close>

section \<open>Schema\<close>

lemma schema_update_jobs:
  assumes "schema_ok d" and "\<And>j. job_id (f j) = job_id j" and "\<And>j. job_uid (f j) = job_uid j"
  shows "schema_ok (update_jobs P f d)"
proof -
  have "map job_id (upd P f (db_jobs d)) = map job_id (db_jobs d)"
    and "map job_uid (upd P f (db_jobs d)) = map job_uid (db_jobs d)"
    using assms(2,3) by (simp_all add: map_upd)
  with assms show ?thesis
    unfolding schema_ok_def job_ids_def update_fields by (auto simp: set_upd)
qed

lemma schema_update_items:
  assumes "schema_ok d" and "\<And>i. it_id (g i) = it_id i" and "\<And>i. it_job_id (g i) = it_job_id i"
    and "\<And>i. it_seq (g i) = it_seq i"
  shows "schema_ok (update_items Q g d)"
proof -
  have "map it_id (upd Q g (db_items d)) = map it_id (db_items d)"
    and "map (\<lambda>i. (it_job_id i, it_seq i)) (upd Q g (db_items d)) = map (\<lambda>i. (it_job_id i, it_seq i)) (db_items d)"
    using assms(2-) by (simp_all add: map_upd)
  with assms show ?thesis
    unfolding schema_ok_def job_ids_def update_fields by (auto simp: set_upd)
qed

lemma schema_update_holds:
  assumes "schema_ok d" and "\<And>h. hold_job_id (k h) = hold_job_id h"
  shows "schema_ok (update_holds R k d)"
proof -
  have "map hold_job_id (upd R k (db_holds d)) = map hold_job_id (db_holds d)"
    using assms(2) by (simp add: map_upd)
  with assms show ?thesis
    unfolding schema_ok_def job_ids_def update_fields by (auto simp: set_upd)
qed

lemma schema_distinct:
  assumes "schema_ok d"
  shows "distinct (map job_id (db_jobs d))" and "distinct (map it_id (db_items d))"
    and "distinct (map hold_job_id (db_holds d))"
  using assms by (simp_all add: schema_ok_def)

lemma same_job: "schema_ok d \<Longrightarrow> j \<in> set (db_jobs d) \<Longrightarrow> j' \<in> set (db_jobs d) \<Longrightarrow> job_id j = job_id j' \<Longrightarrow> j = j'"
  by (metis schema_distinct(1) distinct_map inj_onD)

lemma same_item: "schema_ok d \<Longrightarrow> i \<in> set (db_items d) \<Longrightarrow> i' \<in> set (db_items d) \<Longrightarrow> it_id i = it_id i' \<Longrightarrow> i = i'"
  by (metis schema_distinct(2) distinct_map inj_onD)

lemma new_job_no_hold:
  assumes "schema_ok d" and "h \<in> set (db_holds d)"
  shows "hold_job_id h \<noteq> db_next_job d"
  using assms by (force simp: schema_ok_def job_ids_def)

section \<open>The counters of a job\<close>

definition tally :: "db \<Rightarrow> item_status \<Rightarrow> int \<Rightarrow> int" where
  "tally d s jid = affected (\<lambda>i. it_job_id i = jid \<and> it_status i = s) (db_items d)"

definition counters_match :: "db \<Rightarrow> job \<Rightarrow> bool" where
  "counters_match d j \<longleftrightarrow>
     job_item_count j = affected (\<lambda>i. it_job_id i = job_id j) (db_items d)
     \<and> job_success_count j = tally d ItemStatusSucceeded (job_id j)
     \<and> job_fail_count j = tally d ItemStatusFailed (job_id j)
     \<and> job_cancelled_count j = tally d ItemStatusCancelled (job_id j)"

definition items_ok :: "db \<Rightarrow> bool" where
  "items_ok d \<longleftrightarrow> (\<forall>i \<in> set (db_items d).
     item_is_valid (it_status i) \<and> 0 \<le> it_attempt_count i \<and> 0 < it_max_attempts i
     \<and> (it_status i = ItemStatusRunning \<longrightarrow> it_worker_id i \<noteq> None \<and> it_lease_expires_at i \<noteq> None \<and> 0 < it_attempt_count i))"

definition unfinished :: "db \<Rightarrow> int \<Rightarrow> int" where
  "unfinished d jid = tally d ItemStatusPending jid + tally d ItemStatusRunning jid"

lemma tally_total:
  assumes "items_ok d"
  shows "affected (\<lambda>i. it_job_id i = jid) (db_items d)
       = tally d ItemStatusSucceeded jid + tally d ItemStatusFailed jid + tally d ItemStatusCancelled jid
         + unfinished d jid"
proof -
  have "\<forall>i \<in> set is. item_is_valid (it_status i) \<Longrightarrow>
      affected (\<lambda>i. it_job_id i = jid) is =
        affected (\<lambda>i. it_job_id i = jid \<and> it_status i = ItemStatusSucceeded) is
      + affected (\<lambda>i. it_job_id i = jid \<and> it_status i = ItemStatusFailed) is
      + affected (\<lambda>i. it_job_id i = jid \<and> it_status i = ItemStatusCancelled) is
      + (affected (\<lambda>i. it_job_id i = jid \<and> it_status i = ItemStatusPending) is
      + affected (\<lambda>i. it_job_id i = jid \<and> it_status i = ItemStatusRunning) is)" for "is"
  proof (induction "is")
    case Nil
    then show ?case by simp
  next
    case (Cons i "is")
    then show ?case by (cases "it_status i") (auto simp: item_is_valid_iff)
  qed
  with assms show ?thesis by (auto simp: tally_def unfinished_def items_ok_def)
qed

text \<open>A full set of counters means that no item is pending or running.\<close>

lemma full_no_unfinished:
  assumes "items_ok d" and "counters_match d j" and "counters_full j"
  shows "\<forall>i \<in> set (db_items d). it_job_id i = job_id j \<longrightarrow> item_is_terminal (it_status i)"
proof -
  have "unfinished d (job_id j) = 0"
    using assms tally_total[OF assms(1), of "job_id j"] by (simp add: counters_match_def counters_full_def)
  then have "tally d ItemStatusPending (job_id j) = 0" and "tally d ItemStatusRunning (job_id j) = 0"
    using affected_nonneg unfolding unfinished_def tally_def by (smt (verit) affected_nonneg)+
  then have np: "\<forall>i \<in> set (db_items d). it_job_id i = job_id j \<longrightarrow> it_status i \<noteq> ItemStatusPending"
    and nr: "\<forall>i \<in> set (db_items d). it_job_id i = job_id j \<longrightarrow> it_status i \<noteq> ItemStatusRunning"
    by (auto simp: tally_def affected_eq_0)
  show ?thesis
  proof (intro ballI impI)
    fix i
    assume i: "i \<in> set (db_items d)" "it_job_id i = job_id j"
    then have "item_is_valid (it_status i)" using assms(1) by (auto simp: items_ok_def)
    with i np nr show "item_is_terminal (it_status i)"
      by (cases "it_status i") (auto simp: item_is_valid_iff)
  qed
qed

section \<open>Counting after an update of items\<close>

lemma tally_update_jobs [simp]: "tally (update_jobs P f d) s jid = tally d s jid"
  by (simp add: tally_def)

lemma tally_update_holds [simp]: "tally (update_holds R k d) s jid = tally d s jid"
  by (simp add: tally_def)

lemma tally_same_items: "db_items d' = db_items d \<Longrightarrow> tally d' s jid = tally d s jid"
  by (simp add: tally_def)

lemma tally_keep:
  assumes "\<And>i. Q i \<Longrightarrow> it_status (g i) = it_status i" and "\<And>i. it_job_id (g i) = it_job_id i"
  shows "tally (update_items Q g d) s jid = tally d s jid"
  unfolding tally_def update_fields using assms by (intro affected_upd_same) auto

text \<open>One item, found by its id, changes its status.\<close>

lemma tally_move:
  assumes "schema_ok d" and "i \<in> set (db_items d)" and "Q i" and "\<And>r. Q r \<Longrightarrow> it_id r = it_id i"
    and "\<And>r. it_job_id (g r) = it_job_id r" and "\<And>r. it_status (g r) = b"
  shows "tally (update_items Q g d) s jid
       = tally d s jid - (if it_job_id i = jid \<and> it_status i = s then 1 else 0)
                       + (if it_job_id i = jid \<and> b = s then 1 else 0)"
proof -
  note dist = schema_distinct(2)[OF assms(1)]
  have only: "Q r \<longleftrightarrow> it_id r = it_id i" if "r \<in> set (db_items d)" for r
    using assms(1-4) that same_item by metis
  have "affected (\<lambda>r. Q r \<and> it_job_id r = jid \<and> it_status r = s) (db_items d)
      = affected (\<lambda>r. it_id r = it_id i \<and> (it_job_id r = jid \<and> it_status r = s)) (db_items d)"
    using only by (intro affected_cong) auto
  also have "\<dots> = (if it_job_id i = jid \<and> it_status i = s then 1 else 0)"
    using dist assms(2) by (rule affected_unique)
  finally have out: "affected (\<lambda>r. Q r \<and> it_job_id r = jid \<and> it_status r = s) (db_items d)
      = (if it_job_id i = jid \<and> it_status i = s then 1 else 0)" .
  have "affected (\<lambda>r. Q r \<and> it_job_id (g r) = jid \<and> it_status (g r) = s) (db_items d)
      = affected (\<lambda>r. it_id r = it_id i \<and> (it_job_id r = jid \<and> b = s)) (db_items d)"
    using only assms(5,6) by (intro affected_cong) auto
  also have "\<dots> = (if it_job_id i = jid \<and> b = s then 1 else 0)"
    using dist assms(2) by (rule affected_unique)
  finally show ?thesis unfolding tally_def update_fields affected_upd_diff out by simp
qed

text \<open>All items that satisfy a condition implying one status change to another one.\<close>

lemma tally_bulk:
  assumes "\<And>r. Q r \<Longrightarrow> it_status r = a" and "\<And>r. it_job_id (g r) = it_job_id r" and "\<And>r. Q r \<Longrightarrow> it_status (g r) = b"
  shows "tally (update_items Q g d) s jid
       = tally d s jid - (if a = s then affected (\<lambda>i. Q i \<and> it_job_id i = jid) (db_items d) else 0)
                       + (if b = s then affected (\<lambda>i. Q i \<and> it_job_id i = jid) (db_items d) else 0)"
proof -
  have 1: "affected (\<lambda>r. Q r \<and> it_job_id r = jid \<and> it_status r = s) (db_items d)
      = (if a = s then affected (\<lambda>i. Q i \<and> it_job_id i = jid) (db_items d) else 0)"
    using assms(1) by (auto simp: affected_eq_0 intro: affected_cong)
  have 2: "affected (\<lambda>r. Q r \<and> it_job_id (g r) = jid \<and> it_status (g r) = s) (db_items d)
      = (if b = s then affected (\<lambda>i. Q i \<and> it_job_id i = jid) (db_items d) else 0)"
    using assms(2,3) by (auto simp: affected_eq_0 intro: affected_cong)
  show ?thesis unfolding tally_def update_fields affected_upd_diff 1 2 ..
qed

lemma item_total_keep:
  "(\<And>i. it_job_id (g i) = it_job_id i) \<Longrightarrow>
   affected (\<lambda>i. it_job_id i = jid) (db_items (update_items Q g d)) = affected (\<lambda>i. it_job_id i = jid) (db_items d)"
  by (simp add: affected_upd_same)

end
