(* ===== verification/Billing_Repo.thy ===== *)
theory Billing_Repo
  imports Job_Repo
begin

text \<open>
  \<open>repository/billing_repo.go\<close>: the available balance, the actual costs of the upstream usage log,
  the billing of items against the hold, settlement, alerts and the requests for more quota.
\<close>

section \<open>Balance and costs\<close>

definition get_available_balance :: "db \<Rightarrow> int \<Rightarrow> go_error + money" where
  "get_available_balance d user_id =
     (case lock_user_balance d user_id of
        Inl e \<Rightarrow> Inl e | Inr balance \<Rightarrow> Inr (balance - sum_open_holds d user_id))"

text \<open>\<open>SELECT request_id, SUM(actual_cost) ... GROUP BY request_id\<close>: an id without a row is absent.\<close>

definition sum_usage_log_costs :: "db \<Rightarrow> string list \<Rightarrow> string \<rightharpoonup> money" where
  "sum_usage_log_costs d ids =
     (\<lambda>ident. if ident \<in> set ids \<and> list_ex (\<lambda>u. ul_request_id u = ident) (db_usage_logs d)
              then Some (sum_col ul_actual_cost (\<lambda>u. ul_request_id u = ident) (db_usage_logs d)) else None)"

definition decrement_hold :: "time \<Rightarrow> int \<Rightarrow> money \<Rightarrow> db \<Rightarrow> db" where
  "decrement_hold now jid delta d =
     update_holds (\<lambda>h. hold_job_id h = jid \<and> hold_status h = HoldStatusOpen)
       (\<lambda>h. h\<lparr>hold_amount := max (hold_amount h - delta) 0, hold_updated_at := now\<rparr>) d"

definition bill_item :: "time \<Rightarrow> money \<Rightarrow> string \<Rightarrow> string \<Rightarrow> job_item \<Rightarrow> job_item" where
  "bill_item now cost mode tier i =
     i\<lparr>it_billed_cost := Some cost, it_billing_mode := nullable_string mode,
       it_billing_tier := nullable_string tier, it_updated_at := now\<rparr>"

definition apply_item_billing ::
  "decimal_lib \<Rightarrow> time \<Rightarrow> int \<Rightarrow> money \<Rightarrow> string \<Rightarrow> string \<Rightarrow> unit tx" where
  "apply_item_billing D now iid cost mode tier d =
     (let new_cost = quantize_money D cost
      in case the_item d iid of
           None \<Rightarrow> Inl (not_found_err noun_item)
         | Some i \<Rightarrow>
           (let old_cost = (case it_billed_cost i of None \<Rightarrow> 0 | Some c \<Rightarrow> c)
            in if it_billed_cost i \<noteq> None \<and> \<not> new_cost > old_cost then Inr ((), d)
               else
                 let d1 = update_items (\<lambda>r. it_id r = iid) (bill_item now new_cost mode tier) d;
                     delta = quantize_money D (new_cost - old_cost)
                 in if delta \<le> 0 then Inr ((), d1)
                    else Inr ((), decrement_hold now (it_job_id i) delta d1)))"

section \<open>Settlement\<close>

definition settle_source_statuses :: "job_status \<Rightarrow> job_status list" where
  "settle_source_statuses to_status =
     (let sources = allowed_source_statuses to_status
      in if to_status \<in> set sources then sources else sources @ [to_status])"

definition release_hold :: "time \<Rightarrow> int \<Rightarrow> db \<Rightarrow> db" where
  "release_hold now jid d =
     update_holds (\<lambda>h. hold_job_id h = jid \<and> hold_status h = HoldStatusOpen) (close_hold now) d"

definition settle_guard :: "settle_job_params \<Rightarrow> job \<Rightarrow> bool" where
  "settle_guard params j \<longleftrightarrow>
     job_id j = sj_job_id params \<and> job_settled_at j = None
     \<and> job_status j \<in> set (settle_source_statuses (sj_status params))"

definition settle_row :: "decimal_lib \<Rightarrow> time \<Rightarrow> time \<Rightarrow> settle_job_params \<Rightarrow> job \<Rightarrow> job" where
  "settle_row D now settled_at params j =
     j\<lparr>job_actual_cost := Some (quantize_money D (sj_actual_cost params)), job_status := sj_status params,
       job_settled_at := Some settled_at,
       job_finished_at := (case job_finished_at j of None \<Rightarrow> Some settled_at | Some t \<Rightarrow> Some t),
       job_updated_at := now\<rparr>"

definition settled_message :: "int \<Rightarrow> string" where
  "settled_message jid =
     noun_job @ '' '' @ itoa jid @ bytes [32, 229, 183, 178, 231, 187, 143, 231, 187, 147, 231, 174, 151, 232, 191, 135, 227, 128,
      129, 230, 136, 150, 231, 138, 182, 230, 128, 129, 228, 184, 141, 229, 133, 129, 232, 174,
      184, 231, 187, 147, 231, 174, 151]"

definition settle_job :: "decimal_lib \<Rightarrow> time \<Rightarrow> settle_job_params \<Rightarrow> unit tx" where
  "settle_job D now params d =
     (if \<not> job_is_terminal (sj_status params)
      then Inl (illegal_transition_err noun_job ''settling'' (job_status_text (sj_status params)))
      else
        let settled_at = (if sj_settled_at params = zero_time then now else sj_settled_at params)
        in if affected (settle_guard params) (db_jobs d) = 0 then Inl (conflict_err (settled_message (sj_job_id params)))
           else Inr ((), release_hold now (sj_job_id params)
                  (update_jobs (settle_guard params) (settle_row D now settled_at params) d)))"

definition nil_alert_message :: string where
  "nil_alert_message =
     bytes [100, 101, 115, 105, 103, 110, 107, 105, 116, 58, 32, 229, 145, 138, 232, 173, 166, 232,
      174, 176, 229, 189, 149, 228, 184, 186, 231, 169, 186]"

definition insert_billing_alert :: "decimal_lib \<Rightarrow> time \<Rightarrow> billing_alert option \<Rightarrow> billing_alert tx" where
  "insert_billing_alert D now alert d =
     (case alert of
        None \<Rightarrow> Inl (Opaque nil_alert_message)
      | Some a \<Rightarrow>
        let row = a\<lparr>al_id := db_next_alert d, al_estimated := quantize_money D (al_estimated a),
                    al_actual := quantize_money D (al_actual a),
                    al_level := (if al_level a = [] then billing_alert_level_warn else al_level a),
                    al_created_at := now\<rparr>
        in Inr (row, d\<lparr>db_alerts := db_alerts d @ [row], db_next_alert := db_next_alert d + 1\<rparr>))"

section \<open>Requests for more quota\<close>

text \<open>The partial unique index of the schema: at most one pending request per user.\<close>

definition pending_of :: "int \<Rightarrow> quota_request_detail \<Rightarrow> bool" where
  "pending_of user_id q \<longleftrightarrow> qr_user_id q = user_id \<and> qr_status q = QuotaRequestPending"

definition create_quota_request :: "time \<Rightarrow> int \<Rightarrow> string option \<Rightarrow> quota_request_detail tx" where
  "create_quota_request now user_id note d =
     (if list_ex (pending_of user_id) (db_quota d) then Inl (unique_violation noun_quota)
      else let row = \<lparr>qr_id = db_next_quota d, qr_user_id = user_id, qr_note = nullable_string_ptr note,
                      qr_status = QuotaRequestPending, qr_handled_by = None, qr_handled_at = None,
                      qr_created_at = now, qr_handle_note = None, qr_approved_amount = None\<rparr>
           in Inr (row, d\<lparr>db_quota := db_quota d @ [row], db_next_quota := db_next_quota d + 1\<rparr>))"

definition list_quota_requests ::
  "db \<Rightarrow> quota_request_status \<Rightarrow> int \<Rightarrow> int \<Rightarrow> quota_request_detail list" where
  "list_quota_requests d status limit offset =
     (let lim = clamp_limit limit default_page_limit max_page_limit;
          off = (if offset < 0 then 0 else offset);
          rows = filter (\<lambda>q. status = QuotaRequestOther [] \<or> qr_status q = status) (db_quota d)
      in take (nat lim) (drop (nat off) (rev (sort_key (\<lambda>q. (qr_created_at q, qr_id q)) rows))))"

definition count_pending_quota_requests :: "db \<Rightarrow> int" where
  "count_pending_quota_requests d = affected (\<lambda>q. qr_status q = QuotaRequestPending) (db_quota d)"

definition handle_row ::
  "decimal_lib \<Rightarrow> time \<Rightarrow> int \<Rightarrow> quota_request_status \<Rightarrow> string option \<Rightarrow> money option
   \<Rightarrow> quota_request_detail \<Rightarrow> quota_request_detail" where
  "handle_row D now handled_by status handle_note approved q =
     q\<lparr>qr_status := status, qr_handled_by := Some handled_by, qr_handled_at := Some now,
       qr_handle_note := nullable_string_ptr handle_note,
       qr_approved_amount := map_option (quantize_money D) approved\<rparr>"

definition quota_handled_message :: "int \<Rightarrow> string" where
  "quota_handled_message qid =
     noun_quota @ '' '' @ itoa qid @ bytes [32, 229, 183, 178, 231, 187, 143, 232, 162, 171, 229, 164, 132, 231, 144, 134, 232, 191,
      135, 228, 186, 134]"

fun quota_status_text :: "quota_request_status \<Rightarrow> string" where
  "quota_status_text QuotaRequestPending = ''pending''"
| "quota_status_text QuotaRequestHandled = ''handled''"
| "quota_status_text QuotaRequestRejected = ''rejected''"
| "quota_status_text (QuotaRequestOther s) = s"

definition bad_quota_status :: "quota_request_status \<Rightarrow> go_error" where
  "bad_quota_status status =
     Wrapped (''designkit: '' @ bytes [229, 164, 132, 231, 144, 134, 233, 162, 157, 229, 186, 166, 231, 148, 179, 232, 175, 183,
         229, 143, 170, 232, 131, 189, 231, 189, 174] @ '' handled '' @
         bytes [230, 136, 150] @ '' rejected'' @ bytes [239, 188, 140, 230, 148, 182, 229, 136, 176, 32] @ quoted (quota_status_text status) @ '': '' @
         sentinel_text ErrConflict) (Sentinel ErrConflict)"

definition handle_quota_request ::
  "decimal_lib \<Rightarrow> time \<Rightarrow> int \<Rightarrow> int \<Rightarrow> quota_request_status \<Rightarrow> string option \<Rightarrow> money option
   \<Rightarrow> quota_request_detail tx" where
  "handle_quota_request D now qid handled_by status handle_note approved d =
     (if status \<noteq> QuotaRequestHandled \<and> status \<noteq> QuotaRequestRejected
      then Inl (bad_quota_status status)
      else
        let P = (\<lambda>q. qr_id q = qid \<and> qr_status q = QuotaRequestPending);
            f = handle_row D now handled_by status handle_note approved
        in case find P (db_quota d) of
             Some q \<Rightarrow> Inr (f q, d\<lparr>db_quota := upd P f (db_quota d)\<rparr>)
           | None \<Rightarrow>
               if \<not> list_ex (\<lambda>q. qr_id q = qid) (db_quota d) then Inl (not_found_err noun_quota)
               else Inl (conflict_err (quota_handled_message qid)))"

definition reopen_quota_request :: "int \<Rightarrow> unit tx" where
  "reopen_quota_request qid d =
     (let P = (\<lambda>q. qr_id q = qid \<and> qr_status q = QuotaRequestHandled)
      in if list_ex (\<lambda>q. P q \<and> list_ex (pending_of (qr_user_id q)) (db_quota d)) (db_quota d)
         then Inl (unique_violation noun_quota)
         else if affected P (db_quota d) \<noteq> 1 then Inl (not_found_err noun_quota)
         else Inr ((), d\<lparr>db_quota := upd P
           (\<lambda>q. q\<lparr>qr_status := QuotaRequestPending, qr_handled_by := None, qr_handled_at := None,
                  qr_handle_note := None, qr_approved_amount := None\<rparr>) (db_quota d)\<rparr>))"

section \<open>The usage summary\<close>

definition designkit_usage_log_prefix :: string where
  "designkit_usage_log_prefix = upstream_client_request_id_prefix @ billing_request_id_prefix @ '':''"

definition get_usage_summary :: "db \<Rightarrow> int \<Rightarrow> time \<Rightarrow> time \<Rightarrow> go_error + usage_summary" where
  "get_usage_summary d user_id from_t to_t =
     (case lock_user_balance d user_id of
        Inl e \<Rightarrow> Inl e
      | Inr balance \<Rightarrow>
        Inr \<lparr>us_image_count = affected (\<lambda>i. list_ex (\<lambda>j. job_id j = img_job_id i \<and> job_user_id j = user_id) (db_jobs d)
                \<and> img_deleted_at i = None \<and> from_t \<le> img_created_at i \<and> img_created_at i < to_t) (db_images d),
             us_cost = sum_col ul_actual_cost (\<lambda>u. ul_user_id u = user_id
                \<and> has_prefix designkit_usage_log_prefix (ul_request_id u)
                \<and> from_t \<le> ul_created_at u \<and> ul_created_at u < to_t) (db_usage_logs d),
             us_balance = balance, us_available = balance - sum_open_holds d user_id,
             us_currency = currency_usd\<rparr>)"

end
