(* ===== verification/Invariants.thy ===== *)
theory Invariants
  imports Counters Billing_Repo
begin

text \<open>
  The invariant of the database and its preservation by every statement of the repository. A job
  is consistent when its counters count its items and its status, finishing and settling times
  agree (\<open>life_ok\<close>); a hold is open with a nonnegative amount, or released with none, and belongs to
  an unsettled job while it is open.
\<close>

section \<open>The invariant\<close>

definition life_ok :: "job \<Rightarrow> bool" where
  "life_ok j \<longleftrightarrow>
     job_is_valid (job_status j) \<and> job_revision j = 0 \<and> 0 < job_item_count j
     \<and> (job_status j \<in> {JobStatusSettling, JobStatusSucceeded, JobStatusPartiallyFailed, JobStatusCancelled}
          \<longrightarrow> counters_full j \<and> job_finished_at j \<noteq> None)
     \<and> (job_status j \<in> {JobStatusSucceeded, JobStatusPartiallyFailed, JobStatusCancelled}
          \<longrightarrow> job_settled_at j \<noteq> None)
     \<and> (job_settled_at j \<noteq> None \<longrightarrow> job_is_terminal (job_status j) \<and> counters_full j
          \<and> job_actual_cost j \<noteq> None \<and> job_finished_at j \<noteq> None)
     \<and> (job_status j \<in> {JobStatusCreated, JobStatusHolding, JobStatusRunning} \<longrightarrow> job_finished_at j = None)"

definition jobs_ok :: "db \<Rightarrow> bool" where
  "jobs_ok d \<longleftrightarrow> (\<forall>j \<in> set (db_jobs d). counters_match d j \<and> life_ok j)"

definition hold_ok :: "hold \<Rightarrow> bool" where
  "hold_ok h \<longleftrightarrow> 0 \<le> hold_amount h \<and> hold_status h \<noteq> HoldStatusSettled
     \<and> (hold_status h = HoldStatusReleased \<longrightarrow> hold_amount h = 0)"

definition holds_ok :: "db \<Rightarrow> bool" where
  "holds_ok d \<longleftrightarrow>
     (\<forall>h \<in> set (db_holds d). hold_ok h)
     \<and> (\<forall>j \<in> set (db_jobs d). \<forall>h \<in> set (db_holds d). hold_job_id h = job_id j \<longrightarrow>
           hold_user_id h = job_user_id j \<and> (job_settled_at j \<noteq> None \<longrightarrow> hold_status h = HoldStatusReleased))
     \<and> (\<forall>j \<in> set (db_jobs d). \<exists>h \<in> set (db_holds d). hold_job_id h = job_id j)"

definition inv :: "db \<Rightarrow> bool" where
  "inv d \<longleftrightarrow> schema_ok d \<and> items_ok d \<and> jobs_ok d \<and> holds_ok d"

lemma invI: "schema_ok d \<Longrightarrow> items_ok d \<Longrightarrow> jobs_ok d \<Longrightarrow> holds_ok d \<Longrightarrow> inv d"
  by (simp add: inv_def)

lemma invD:
  assumes "inv d"
  shows inv_schema: "schema_ok d" and inv_items: "items_ok d" and inv_jobs: "jobs_ok d" and inv_holds: "holds_ok d"
  using assms by (simp_all add: inv_def)

lemma inv_job:
  assumes "inv d" and "j \<in> set (db_jobs d)"
  shows "counters_match d j" and "life_ok j"
  using assms by (auto simp: inv_def jobs_ok_def)

lemma inv_item_job:
  assumes "inv d" and "i \<in> set (db_items d)"
  obtains j where "j \<in> set (db_jobs d)" and "job_id j = it_job_id i"
  using assms by (auto simp: inv_def schema_ok_def job_ids_def)

text \<open>The two halves of a life: before settling nothing is finished, after it everything is.\<close>

lemma life_active:
  assumes "life_ok j" and "job_status j \<in> {JobStatusCreated, JobStatusHolding, JobStatusRunning}"
  shows "job_settled_at j = None" and "job_finished_at j = None"
proof -
  have "\<not> job_is_terminal (job_status j)" using assms(2) by (elim insertE) simp_all
  moreover have "job_settled_at j \<noteq> None \<longrightarrow> job_is_terminal (job_status j)"
    using assms(1) unfolding life_ok_def by blast
  ultimately show "job_settled_at j = None" by blast
  show "job_finished_at j = None" using assms unfolding life_ok_def by blast
qed

lemma life_not_full:
  assumes "life_ok j" and "\<not> counters_full j"
  shows "job_settled_at j = None"
    and "job_status j \<in> {JobStatusCreated, JobStatusHolding, JobStatusRunning, JobStatusFailed}"
proof -
  show "job_settled_at j = None" using assms unfolding life_ok_def by blast
  have "job_is_valid (job_status j)"
    and "job_status j \<notin> {JobStatusSettling, JobStatusSucceeded, JobStatusPartiallyFailed, JobStatusCancelled}"
    using assms unfolding life_ok_def by blast+
  then show "job_status j \<in> {JobStatusCreated, JobStatusHolding, JobStatusRunning, JobStatusFailed}"
    by (cases "job_status j") (simp_all add: job_is_valid_iff)
qed

text \<open>A job with an item in the queue or in flight is neither settling nor settled.\<close>

lemma unfinished_job:
  assumes "inv d" and "i \<in> set (db_items d)" and "\<not> item_is_terminal (it_status i)"
    and "j \<in> set (db_jobs d)" and "job_id j = it_job_id i"
  shows "\<not> counters_full j" and "job_settled_at j = None"
    and "job_status j \<in> {JobStatusCreated, JobStatusHolding, JobStatusRunning, JobStatusFailed}"
proof -
  note m = inv_job[OF assms(1,4)]
  show nf: "\<not> counters_full j"
    using full_no_unfinished[OF inv_items[OF assms(1)] m(1)] assms by auto
  show "job_settled_at j = None"
    and "job_status j \<in> {JobStatusCreated, JobStatusHolding, JobStatusRunning, JobStatusFailed}"
    using life_not_full[OF m(2) nf] by simp_all
qed

section \<open>Updates that touch one table\<close>

lemma items_ok_same: "items_ok d \<Longrightarrow> db_items d' = db_items d \<Longrightarrow> items_ok d'"
  by (simp add: items_ok_def)

lemma holds_update_jobs:
  assumes "holds_ok d" and "\<And>j. job_id (f j) = job_id j" and "\<And>j. job_user_id (f j) = job_user_id j"
    and "\<And>j. job_settled_at (f j) = job_settled_at j"
  shows "holds_ok (update_jobs P f d)"
  using assms unfolding holds_ok_def by (auto simp: set_upd)

lemma holds_update_items: "holds_ok d \<Longrightarrow> holds_ok (update_items Q g d)"
  by (simp add: holds_ok_def)

lemma holds_update_holds:
  assumes "holds_ok d" and "\<And>h. hold_job_id (k h) = hold_job_id h" and "\<And>h. hold_user_id (k h) = hold_user_id h"
    and "\<And>h. h \<in> set (db_holds d) \<Longrightarrow> R h \<Longrightarrow> hold_ok (k h)"
    and "\<And>h. R h \<Longrightarrow> hold_status (k h) = HoldStatusReleased \<or> hold_status (k h) = hold_status h"
  shows "holds_ok (update_holds R k d)"
proof -
  let ?k = "\<lambda>h. if R h then k h else h"
  have 1: "hold_ok (?k h)" if "h \<in> set (db_holds d)" for h
    using that assms(1,4) by (simp add: holds_ok_def)
  have 2: "hold_user_id (?k h) = job_user_id j \<and> (job_settled_at j \<noteq> None \<longrightarrow> hold_status (?k h) = HoldStatusReleased)"
    if "j \<in> set (db_jobs d)" "h \<in> set (db_holds d)" "hold_job_id (?k h) = job_id j" for j h
  proof -
    have h: "hold_job_id h = job_id j" using that(3) assms(2) by (simp split: if_splits)
    with that assms(1) have "hold_user_id h = job_user_id j"
      and "job_settled_at j \<noteq> None \<longrightarrow> hold_status h = HoldStatusReleased"
      by (auto simp: holds_ok_def)
    then show ?thesis using assms(3) assms(5)[of h] by auto
  qed
  have 3: "\<exists>h \<in> set (db_holds d). hold_job_id (?k h) = job_id j" if "j \<in> set (db_jobs d)" for j
    using that assms(1,2) by (simp add: holds_ok_def)
  show ?thesis
    unfolding holds_ok_def update_fields ball_upd bex_upd using 1 2 3 by blast
qed

text \<open>The common case: jobs change in fields the invariant does not mention or in their status.\<close>

lemma inv_update_jobs:
  assumes "inv d"
    and keep: "\<And>j. job_id (f j) = job_id j" "\<And>j. job_uid (f j) = job_uid j" "\<And>j. job_user_id (f j) = job_user_id j"
      "\<And>j. job_settled_at (f j) = job_settled_at j"
    and ok: "\<And>j. j \<in> set (db_jobs d) \<Longrightarrow> P j \<Longrightarrow> counters_match d j \<Longrightarrow> life_ok j \<Longrightarrow> counters_match d (f j) \<and> life_ok (f j)"
  shows "inv (update_jobs P f d)"
proof (rule invI)
  note i = invD[OF assms(1)]
  show "schema_ok (update_jobs P f d)" by (rule schema_update_jobs[OF i(1) keep(1,2)])
  show "items_ok (update_jobs P f d)" using i(2) by (rule items_ok_same) simp
  show "holds_ok (update_jobs P f d)" by (rule holds_update_jobs[OF i(4) keep(1,3,4)])
  have "counters_match (update_jobs P f d) j = counters_match d j" for j
    by (simp add: counters_match_def)
  then show "jobs_ok (update_jobs P f d)"
    using i(3) ok by (auto simp: jobs_ok_def set_upd)
qed

text \<open>Items change in fields other than the status.\<close>

lemma inv_update_items_keep:
  assumes "inv d"
    and keep: "\<And>i. it_id (g i) = it_id i" "\<And>i. it_job_id (g i) = it_job_id i" "\<And>i. it_seq (g i) = it_seq i"
      "\<And>i. Q i \<Longrightarrow> it_status (g i) = it_status i"
    and ok: "\<And>i. i \<in> set (db_items d) \<Longrightarrow> Q i \<Longrightarrow> 0 \<le> it_attempt_count i \<Longrightarrow> 0 < it_max_attempts i \<Longrightarrow>
        0 \<le> it_attempt_count (g i) \<and> 0 < it_max_attempts (g i)
        \<and> (it_status i = ItemStatusRunning \<and> it_worker_id i \<noteq> None \<and> it_lease_expires_at i \<noteq> None \<and> 0 < it_attempt_count i \<longrightarrow>
             it_worker_id (g i) \<noteq> None \<and> it_lease_expires_at (g i) \<noteq> None \<and> 0 < it_attempt_count (g i))"
  shows "inv (update_items Q g d)"
proof (rule invI)
  note i = invD[OF assms(1)]
  show "schema_ok (update_items Q g d)" by (rule schema_update_items[OF i(1) keep(1-3)])
  show "items_ok (update_items Q g d)"
    using i(2) ok keep(4) unfolding items_ok_def by (auto simp: set_upd)
  show "holds_ok (update_items Q g d)" using i(4) by (rule holds_update_items)
  have "tally (update_items Q g d) s jid = tally d s jid" for s jid
    using keep by (intro tally_keep) auto
  moreover have "affected (\<lambda>r. it_job_id r = jid) (upd Q g (db_items d)) = affected (\<lambda>r. it_job_id r = jid) (db_items d)" for jid
    using keep(2) by (intro affected_upd_same) auto
  ultimately have "counters_match (update_items Q g d) j = counters_match d j" for j
    by (simp add: counters_match_def)
  then show "jobs_ok (update_items Q g d)" using i(3) by (simp add: jobs_ok_def)
qed

lemma inv_update_holds:
  assumes "inv d" and "\<And>h. hold_job_id (k h) = hold_job_id h" and "\<And>h. hold_user_id (k h) = hold_user_id h"
    and "\<And>h. h \<in> set (db_holds d) \<Longrightarrow> R h \<Longrightarrow> hold_ok h \<Longrightarrow> hold_ok (k h)"
    and "\<And>h. R h \<Longrightarrow> hold_status (k h) = HoldStatusReleased \<or> hold_status (k h) = hold_status h"
  shows "inv (update_holds R k d)"
proof (rule invI)
  note i = invD[OF assms(1)]
  show "schema_ok (update_holds R k d)" using i(1) assms(2) by (rule schema_update_holds)
  show "items_ok (update_holds R k d)" using i(2) by (rule items_ok_same) simp
  have ok: "\<forall>h \<in> set (db_holds d). hold_ok h" using i(4) by (simp add: holds_ok_def)
  show "holds_ok (update_holds R k d)"
    using ok assms(4) by (intro holds_update_holds[OF i(4) assms(2,3) _ assms(5)]) auto
  have "counters_match (update_holds R k d) j = counters_match d j" for j
    by (simp add: counters_match_def)
  then show "jobs_ok (update_holds R k d)" using i(3) by (simp add: jobs_ok_def)
qed

text \<open>Items change together with the counters of their jobs.\<close>

lemma inv_items_and_jobs:
  assumes "inv d"
    and item: "\<And>i. it_id (g i) = it_id i" "\<And>i. it_job_id (g i) = it_job_id i" "\<And>i. it_seq (g i) = it_seq i"
    and iok: "items_ok (update_items Q g d)"
    and job: "\<And>j. job_id (f j) = job_id j" "\<And>j. job_uid (f j) = job_uid j" "\<And>j. job_user_id (f j) = job_user_id j"
      "\<And>j. job_settled_at (f j) = job_settled_at j" "\<And>j. job_item_count (f j) = job_item_count j"
    and cnt: "\<And>j s. j \<in> set (db_jobs d) \<Longrightarrow>
       (let j' = (if P j then f j else j) in
        job_success_count j' - job_success_count j
          = tally (update_items Q g d) ItemStatusSucceeded (job_id j) - tally d ItemStatusSucceeded (job_id j)
        \<and> job_fail_count j' - job_fail_count j
          = tally (update_items Q g d) ItemStatusFailed (job_id j) - tally d ItemStatusFailed (job_id j)
        \<and> job_cancelled_count j' - job_cancelled_count j
          = tally (update_items Q g d) ItemStatusCancelled (job_id j) - tally d ItemStatusCancelled (job_id j))"
    and life: "\<And>j. j \<in> set (db_jobs d) \<Longrightarrow> P j \<Longrightarrow> life_ok j \<Longrightarrow> life_ok (f j)"
  shows "inv (update_jobs P f (update_items Q g d))"
proof (rule invI)
  note i = invD[OF assms(1)]
  show "schema_ok (update_jobs P f (update_items Q g d))"
    using i(1) item job by (intro schema_update_jobs schema_update_items) auto
  show "items_ok (update_jobs P f (update_items Q g d))" using iok by (rule items_ok_same) simp
  show "holds_ok (update_jobs P f (update_items Q g d))"
    using i(4) job by (intro holds_update_jobs holds_update_items) auto
  have tot: "affected (\<lambda>r. it_job_id r = jid) (upd Q g (db_items d)) = affected (\<lambda>r. it_job_id r = jid) (db_items d)" for jid
    using item(2) by (intro affected_upd_same) auto
  have "counters_match (update_jobs P f (update_items Q g d)) (if P j then f j else j) \<and> life_ok (if P j then f j else j)"
    if "j \<in> set (db_jobs d)" for j
  proof
    note jj = inv_job[OF assms(1) that]
    show "counters_match (update_jobs P f (update_items Q g d)) (if P j then f j else j)"
      using jj(1) cnt[OF that] job by (auto simp: counters_match_def tot Let_def)
    show "life_ok (if P j then f j else j)" using jj(2) life[OF that] by simp
  qed
  then show "jobs_ok (update_jobs P f (update_items Q g d))"
    unfolding jobs_ok_def update_fields ball_upd by blast
qed

section \<open>Statements on jobs alone\<close>

lemma inv_update_job_status:
  assumes "inv d" and "update_job_status now jid a b d = Inr ((), d')"
    and "(a, b) \<in> {(JobStatusCreated, JobStatusHolding), (JobStatusHolding, JobStatusRunning),
                    (JobStatusCreated, JobStatusFailed), (JobStatusHolding, JobStatusFailed)}"
  shows "inv d'"
proof -
  have d': "d' = update_jobs (\<lambda>j. job_id j = jid \<and> job_status j = a)
      (\<lambda>j. j\<lparr>job_status := b,
             job_started_at := (if b = JobStatusRunning \<and> job_started_at j = None then Some now else job_started_at j),
             job_heartbeat_at := Some now, job_updated_at := now\<rparr>) d"
    using assms(2) by (auto simp: update_job_status_def Let_def split: if_splits)
  let ?f = "\<lambda>j. j\<lparr>job_status := b,
             job_started_at := (if b = JobStatusRunning \<and> job_started_at j = None then Some now else job_started_at j),
             job_heartbeat_at := Some now, job_updated_at := now\<rparr>"
  show ?thesis unfolding d' using assms(1)
  proof (rule inv_update_jobs)
    fix j
    assume a: "job_id j = jid \<and> job_status j = a" and m: "counters_match d j" and l: "life_ok j"
    have "counters_match d (?f j)" using m by (simp add: counters_match_def)
    moreover have "job_status j \<in> {JobStatusCreated, JobStatusHolding, JobStatusRunning}" using a assms(3) by auto
    note n = life_active[OF l this]
    have "job_is_valid (job_status j)" "job_revision j = 0" "0 < job_item_count j"
      using l unfolding life_ok_def by blast+
    then have "life_ok (?f j)" using assms(3) n by (elim insertE) (simp_all add: life_ok_def)
    ultimately show "counters_match d (?f j) \<and> life_ok (?f j)" ..
  qed simp_all
qed

lemma finalize_sources: "finalize_source_statuses = [JobStatusRunning, JobStatusCreated, JobStatusHolding]"
  by (simp add: finalize_source_statuses_def allowed_sources_settling)

lemma finalize_guard_status:
  "finalize_guard j \<longleftrightarrow> job_finished_at j = None \<and> counters_full j
     \<and> job_status j \<in> {JobStatusRunning, JobStatusCreated, JobStatusHolding}"
  by (auto simp: finalize_guard_def finalize_sources)

lemma inv_to_settling:
  assumes "inv d" and "\<And>j. P j \<Longrightarrow> finalize_guard j"
    and "\<And>j. t j \<noteq> None"
  shows "inv (update_jobs P (\<lambda>j. j\<lparr>job_status := JobStatusSettling, job_finished_at := t j, job_updated_at := now\<rparr>) d)"
  using assms(1)
proof (rule inv_update_jobs)
  fix j
  assume "P j" and m: "counters_match d j" and l: "life_ok j"
  then have g: "counters_full j" "job_status j \<in> {JobStatusRunning, JobStatusCreated, JobStatusHolding}"
    using assms(2) by (auto simp: finalize_guard_status)
  have "job_status j \<in> {JobStatusCreated, JobStatusHolding, JobStatusRunning}" using g(2) by blast
  note n = life_active[OF l this]
  have "job_revision j = 0" "0 < job_item_count j" using l unfolding life_ok_def by blast+
  then show "counters_match d (j\<lparr>job_status := JobStatusSettling, job_finished_at := t j, job_updated_at := now\<rparr>)
      \<and> life_ok (j\<lparr>job_status := JobStatusSettling, job_finished_at := t j, job_updated_at := now\<rparr>)"
    using g(1) m n assms(3) by (simp add: counters_match_def life_ok_def counters_full_def)
qed simp_all

lemma inv_finalize_job: "inv d \<Longrightarrow> finalize_job now params d = Inr (won, d') \<Longrightarrow> inv d'"
  by (auto simp: finalize_job_def Let_def intro!: inv_to_settling split: if_splits)

lemma inv_heartbeat_like:
  assumes "inv d"
    and "\<And>j. job_id (f j) = job_id j" "\<And>j. job_uid (f j) = job_uid j" "\<And>j. job_user_id (f j) = job_user_id j"
      "\<And>j. job_settled_at (f j) = job_settled_at j" "\<And>j. job_status (f j) = job_status j"
      "\<And>j. job_finished_at (f j) = job_finished_at j" "\<And>j. job_actual_cost (f j) = job_actual_cost j"
      "\<And>j. job_revision (f j) = job_revision j" "\<And>j. job_item_count (f j) = job_item_count j"
      "\<And>j. job_success_count (f j) = job_success_count j" "\<And>j. job_fail_count (f j) = job_fail_count j"
      "\<And>j. job_cancelled_count (f j) = job_cancelled_count j"
  shows "inv (update_jobs P f d)"
  using assms(1-5)
proof (rule inv_update_jobs)
  fix j
  assume "counters_match d j" "life_ok j"
  then show "counters_match d (f j) \<and> life_ok (f j)"
    by (simp add: counters_match_def life_ok_def counters_full_def assms(2-))
qed

lemma inv_touch_job_heartbeat: "inv d \<Longrightarrow> inv (touch_job_heartbeat now ids d)"
  by (simp add: touch_job_heartbeat_def inv_heartbeat_like)

lemma inv_clear_job_idempotency_key: "inv d \<Longrightarrow> inv (clear_job_idempotency_key now jid d)"
  by (simp add: clear_job_idempotency_key_def inv_heartbeat_like)

lemma inv_soft_delete_job: "inv d \<Longrightarrow> soft_delete_job now uid u d = Inr ((), d') \<Longrightarrow> inv d'"
  by (auto simp: soft_delete_job_def Let_def inv_heartbeat_like split: if_splits)

section \<open>Statements on holds alone\<close>

lemma inv_close_holds: "inv d \<Longrightarrow> inv (update_holds R (close_hold now) d)"
  by (rule inv_update_holds) (auto simp: close_hold_def hold_ok_def)

lemma inv_release_hold: "inv d \<Longrightarrow> inv (release_hold now jid d)"
  by (simp add: release_hold_def inv_close_holds)

lemma inv_release_holds_for_jobs: "inv d \<Longrightarrow> inv (release_holds_for_jobs now ids d)"
  by (simp add: release_holds_for_jobs_def inv_close_holds)

lemma inv_decrement_hold: "inv d \<Longrightarrow> inv (decrement_hold now jid delta d)"
  unfolding decrement_hold_def by (rule inv_update_holds) (auto simp: hold_ok_def)

section \<open>Leases\<close>

lemma claim_item_simps [simp]:
  "it_id (claim_item w l now i) = it_id i" "it_job_id (claim_item w l now i) = it_job_id i"
  "it_seq (claim_item w l now i) = it_seq i" "it_status (claim_item w l now i) = ItemStatusRunning"
  "it_attempt_count (claim_item w l now i) = it_attempt_count i + 1"
  "it_max_attempts (claim_item w l now i) = it_max_attempts i"
  "it_worker_id (claim_item w l now i) = Some w"
  "it_lease_expires_at (claim_item w l now i) = Some (now + l)"
  "it_billed_cost (claim_item w l now i) = it_billed_cost i"
  by (simp_all add: claim_item_def)

lemma claim_next_itemD:
  assumes "claim_next_item db_now locked params d = Inr (i, d')"
  defines "now \<equiv> if cl_now params = zero_time then db_now else cl_now params"
  defines "lease \<equiv> seconds (cl_lease_for params) (default_lease_seconds * second)"
  obtains r where "r \<in> set (db_items d)" and "claimable now r" and "\<not> locked (it_id r)"
    and "\<And>r'. r' \<in> set (db_items d) \<Longrightarrow> claimable now r' \<Longrightarrow> \<not> locked (it_id r') \<Longrightarrow>
           (it_job_id r, it_seq r) \<le> (it_job_id r', it_seq r')"
    and "i = claim_item (cl_worker_id params) lease now r"
    and "d' = update_items (\<lambda>x. it_id x = it_id r) (claim_item (cl_worker_id params) lease now) d"
proof -
  let ?key = "\<lambda>i. (it_job_id i, it_seq i)"
  let ?rows = "filter (\<lambda>i. claimable now i \<and> \<not> locked (it_id i)) (db_items d)"
  from assms(1) obtain r rs where s: "sort_key ?key ?rows = r # rs"
    and i: "i = claim_item (cl_worker_id params) lease now r"
    and d': "d' = update_items (\<lambda>x. it_id x = it_id r) (claim_item (cl_worker_id params) lease now) d"
    unfolding claim_next_item_def Let_def now_def lease_def
    by (auto split: if_splits list.splits)
  have set_eq: "set (r # rs) = set ?rows" using s by (metis set_sort)
  have "sorted (map ?key (r # rs))" using s by (metis sorted_sort_key)
  then have least: "\<forall>x \<in> set (r # rs). ?key r \<le> ?key x" by simp
  show thesis
  proof (rule that)
    show "r \<in> set (db_items d)" "claimable now r" "\<not> locked (it_id r)" using set_eq by auto
    show "(it_job_id r, it_seq r) \<le> (it_job_id r', it_seq r')"
      if "r' \<in> set (db_items d)" "claimable now r'" "\<not> locked (it_id r')" for r'
    proof -
      have "r' \<in> set (r # rs)" using that set_eq by simp
      then show ?thesis using least by blast
    qed
  qed (use i d' in auto)
qed

lemma claimable_status: "claimable now i \<Longrightarrow> it_status i = ItemStatusPending \<or> it_status i = ItemStatusRunning"
  by (auto simp: claimable_def)

lemma inv_claim_next_item:
  assumes "inv d" and "claim_next_item db_now locked params d = Inr (i, d')"
  shows "inv d'"
  using assms(2)
proof (rule claim_next_itemD)
  fix r
  assume r: "r \<in> set (db_items d)" "claimable (if cl_now params = zero_time then db_now else cl_now params) r"
    and d': "d' = update_items (\<lambda>x. it_id x = it_id r) (claim_item (cl_worker_id params)
        (seconds (cl_lease_for params) (default_lease_seconds * second))
        (if cl_now params = zero_time then db_now else cl_now params)) d"
  let ?g = "claim_item (cl_worker_id params) (seconds (cl_lease_for params) (default_lease_seconds * second))
        (if cl_now params = zero_time then db_now else cl_now params)"
  let ?d = "update_items (\<lambda>x. it_id x = it_id r) ?g d"
  note i = invD[OF assms(1)]
  have s: "it_status r \<in> {ItemStatusPending, ItemStatusRunning}" using claimable_status[OF r(2)] by auto
  have "tally ?d s jid = tally d s jid" if "s \<in> {ItemStatusSucceeded, ItemStatusFailed, ItemStatusCancelled}" for s jid
    using tally_move[OF i(1) r(1), of "\<lambda>x. it_id x = it_id r" ?g ItemStatusRunning s jid] that s by auto
  moreover have "affected (\<lambda>x. it_job_id x = jid) (db_items ?d) = affected (\<lambda>x. it_job_id x = jid) (db_items d)" for jid
    by (rule item_total_keep) simp
  ultimately have "counters_match ?d j = counters_match d j" for j by (simp add: counters_match_def)
  then have "jobs_ok ?d" using i(3) by (simp add: jobs_ok_def)
  moreover have "items_ok ?d"
    using i(2) unfolding items_ok_def update_fields ball_upd by (auto simp: item_is_valid_iff)
  moreover have "schema_ok ?d" using i(1) by (rule schema_update_items) simp_all
  moreover have "holds_ok ?d" using i(4) by (rule holds_update_items)
  ultimately show ?thesis unfolding d' by (intro invI)
qed

lemma inv_renew_item_lease: "inv d \<Longrightarrow> renew_item_lease now iid w l d = Inr ((), d') \<Longrightarrow> inv d'"
  by (auto simp: renew_item_lease_def intro!: inv_update_items_keep split: if_splits)

section \<open>Writing back results\<close>

lemma inv_cong:
  assumes "db_jobs d' = db_jobs d" "db_items d' = db_items d" "db_holds d' = db_holds d"
    and "db_next_job d' = db_next_job d" "db_next_item d' = db_next_item d"
  shows "inv d' = inv d"
proof -
  have "counters_match d' j = counters_match d j" for j
    using assms by (simp add: counters_match_def tally_def)
  moreover have "schema_ok d' = schema_ok d" using assms by (simp add: schema_ok_def job_ids_def)
  moreover have "items_ok d' = items_ok d" "holds_ok d' = holds_ok d"
    using assms by (simp_all add: items_ok_def holds_ok_def)
  ultimately show ?thesis using assms(1) by (simp add: inv_def jobs_ok_def)
qed

lemma insert_image_frame:
  assumes "insert_image now jid params img d = Inr (u, d')"
  shows "db_jobs d' = db_jobs d" "db_items d' = db_items d" "db_holds d' = db_holds d"
    and "db_next_job d' = db_next_job d" "db_next_item d' = db_next_item d" "db_users d' = db_users d"
  using assms by (auto simp: insert_image_def Let_def split: if_splits)

lemma insert_images_frame:
  "insert_images now jid params imgs d = Inr (u, d') \<Longrightarrow>
     db_jobs d' = db_jobs d \<and> db_items d' = db_items d \<and> db_holds d' = db_holds d
     \<and> db_next_job d' = db_next_job d \<and> db_next_item d' = db_next_item d \<and> db_users d' = db_users d"
proof (induction imgs arbitrary: d)
  case Nil
  then show ?case by simp
next
  case (Cons img imgs)
  from Cons.prems obtain d1 where 1: "insert_image now jid params img d = Inr ((), d1)"
    and 2: "insert_images now jid params imgs d1 = Inr (u, d')"
    by (auto split: sum.splits)
  show ?case using insert_image_frame[OF 1] Cons.IH[OF 2] by simp
qed

text \<open>A running item reaches a final status and the counter for that status goes up by one.\<close>

lemma inv_item_done:
  assumes "inv d" and i: "i \<in> set (db_items d)" "Q i" "it_status i \<in> {ItemStatusPending, ItemStatusRunning}"
    and only: "\<And>r. Q r \<Longrightarrow> it_id r = it_id i"
    and g: "\<And>r. it_id (g r) = it_id r" "\<And>r. it_job_id (g r) = it_job_id r" "\<And>r. it_seq (g r) = it_seq r"
      "\<And>r. it_status (g r) = b" "\<And>r. it_attempt_count (g r) = it_attempt_count r"
      "\<And>r. it_max_attempts (g r) = it_max_attempts r"
    and f: "\<And>j. job_id (f j) = job_id j" "\<And>j. job_uid (f j) = job_uid j" "\<And>j. job_user_id (f j) = job_user_id j"
      "\<And>j. job_settled_at (f j) = job_settled_at j" "\<And>j. job_item_count (f j) = job_item_count j"
      "\<And>j. job_status (f j) = job_status j" "\<And>j. job_finished_at (f j) = job_finished_at j"
      "\<And>j. job_revision (f j) = job_revision j"
      "\<And>j. job_success_count (f j) = job_success_count j + (if b = ItemStatusSucceeded then 1 else 0)"
      "\<And>j. job_fail_count (f j) = job_fail_count j + (if b = ItemStatusFailed then 1 else 0)"
      "\<And>j. job_cancelled_count (f j) = job_cancelled_count j + (if b = ItemStatusCancelled then 1 else 0)"
    and b: "b \<in> {ItemStatusSucceeded, ItemStatusFailed, ItemStatusCancelled}"
  shows "inv (update_jobs (\<lambda>j. job_id j = it_job_id i) f (update_items Q g d))"
proof (rule inv_items_and_jobs[OF assms(1) g(1-3) _ f(1-5)])
  note v = invD[OF assms(1)]
  show "items_ok (update_items Q g d)"
    using v(2) b unfolding items_ok_def update_fields ball_upd by (auto simp: g item_is_valid_iff)
  have move: "tally (update_items Q g d) s jid = tally d s jid + (if it_job_id i = jid \<and> b = s then 1 else 0)"
    if "s \<in> {ItemStatusSucceeded, ItemStatusFailed, ItemStatusCancelled}" for s jid
    using tally_move[where d = d and i = i and Q = Q and g = g and b = b and s = s and jid = jid,
        OF v(1) i(1,2) only g(2) g(4)] i(3) that by auto
  fix j
  assume j: "j \<in> set (db_jobs d)"
  show "let j' = if job_id j = it_job_id i then f j else j
         in job_success_count j' - job_success_count j
            = tally (update_items Q g d) ItemStatusSucceeded (job_id j) - tally d ItemStatusSucceeded (job_id j) \<and>
            job_fail_count j' - job_fail_count j
            = tally (update_items Q g d) ItemStatusFailed (job_id j) - tally d ItemStatusFailed (job_id j) \<and>
            job_cancelled_count j' - job_cancelled_count j
            = tally (update_items Q g d) ItemStatusCancelled (job_id j) - tally d ItemStatusCancelled (job_id j)"
    using b by (auto simp: move f Let_def)
  assume jid: "job_id j = it_job_id i" and l: "life_ok j"
  have nt: "\<not> item_is_terminal (it_status i)" using i(3) by (elim insertE) simp_all
  note u = unfinished_job[OF assms(1) i(1) nt j jid]
  show "life_ok (f j)"
    using l u(2,3) by (elim insertE) (simp_all add: life_ok_def f)
qed

lemma lease_guardD: "lease_guard iid w i \<Longrightarrow> it_id i = iid \<and> it_worker_id i = Some w \<and> it_status i = ItemStatusRunning"
  by (simp add: lease_guard_def)

lemma inv_complete_item_success:
  assumes "inv d" and "complete_item_success now params d = Inr ((), d')"
  shows "inv d'"
proof -
  let ?guard = "lease_guard (cs_item_id params) (cs_worker_id params)"
  let ?fin = "if cs_finished_at params = zero_time then now else cs_finished_at params"
  let ?g = "succeed_item now ?fin params"
  let ?f = "\<lambda>j. j\<lparr>job_success_count := job_success_count j + 1,
                 job_started_at := (case job_started_at j of None \<Rightarrow> Some now | Some t \<Rightarrow> Some t),
                 job_heartbeat_at := Some now, job_updated_at := now\<rparr>"
  from assms(2) obtain i d2 d3 where i: "find ?guard (db_items d) = Some i"
    and d2: "d2 = (update_items ?guard ?g d)\<lparr>db_images := upd
                     (\<lambda>r. img_item_id r = cs_item_id params \<and> img_attempt r \<noteq> cs_attempt params
                        \<and> img_is_current r \<and> img_deleted_at r = None)
                     (\<lambda>r. r\<lparr>img_is_current := False\<rparr>) (db_images (update_items ?guard ?g d))\<rparr>"
    and d3: "insert_images now (it_job_id i) params (cs_images params) d2 = Inr ((), d3)"
    and d': "d' = update_jobs (\<lambda>j. job_id j = it_job_id i) ?f d3"
    by (auto simp: complete_item_success_def Let_def split: if_splits option.splits sum.splits)
  have g: "i \<in> set (db_items d)" "?guard i" using find_SomeD[OF i] by auto
  have "inv (update_jobs (\<lambda>j. job_id j = it_job_id i) ?f (update_items ?guard ?g d))"
    using assms(1) g lease_guardD[OF g(2)]
    by (intro inv_item_done[where b = ItemStatusSucceeded]) (auto simp: succeed_item_def dest: lease_guardD)
  then show ?thesis
    unfolding d' using insert_images_frame[OF d3]
    by (subst inv_cong[of _ "update_jobs (\<lambda>j. job_id j = it_job_id i) ?f (update_items ?guard ?g d)"])
      (simp_all add: d2)
qed

lemma inv_complete_item_failure:
  assumes "inv d" and "complete_item_failure now params d = Inr ((), d')"
  shows "inv d'"
proof (cases "cf_terminal params")
  case True
  let ?guard = "lease_guard (cf_item_id params) (cf_worker_id params)"
  let ?fin = "if cf_finished_at params = zero_time then now else cf_finished_at params"
  from assms(2) True obtain i where i: "find ?guard (db_items d) = Some i"
    and d': "d' = update_jobs (\<lambda>j. job_id j = it_job_id i)
        (\<lambda>j. j\<lparr>job_fail_count := job_fail_count j + 1, job_heartbeat_at := Some now, job_updated_at := now\<rparr>)
        (update_items ?guard (fail_item now ?fin params) d)"
    by (auto simp: complete_item_failure_def Let_def split: option.splits)
  have g: "i \<in> set (db_items d)" "?guard i" using find_SomeD[OF i] by auto
  show ?thesis
    unfolding d' using assms(1) g lease_guardD[OF g(2)]
    by (intro inv_item_done[where b = ItemStatusFailed]) (auto simp: fail_item_def dest: lease_guardD)
next
  case False
  let ?guard = "lease_guard (cf_item_id params) (cf_worker_id params)"
  let ?d = "update_items ?guard (requeue_item now params) d"
  note i = invD[OF assms(1)]
  from assms(2) False have one: "affected ?guard (db_items d) = 1" and d': "d' = ?d"
    by (auto simp: complete_item_failure_def Let_def split: if_splits)
  have "tally ?d s jid = tally d s jid" if "s \<in> {ItemStatusSucceeded, ItemStatusFailed, ItemStatusCancelled}" for s jid
    using that by (subst tally_bulk[where a = ItemStatusRunning and b = ItemStatusPending])
      (auto simp: requeue_item_def dest: lease_guardD)
  moreover have "affected (\<lambda>x. it_job_id x = jid) (db_items ?d) = affected (\<lambda>x. it_job_id x = jid) (db_items d)" for jid
    by (rule item_total_keep) (simp add: requeue_item_def)
  ultimately have "counters_match ?d j = counters_match d j" for j by (simp add: counters_match_def)
  then have "jobs_ok ?d" using i(3) by (simp add: jobs_ok_def)
  moreover have "items_ok ?d"
    using i(2) unfolding items_ok_def update_fields ball_upd by (auto simp: item_is_valid_iff requeue_item_def)
  moreover have "schema_ok ?d" using i(1) by (rule schema_update_items) (simp_all add: requeue_item_def)
  moreover have "holds_ok ?d" using i(4) by (rule holds_update_items)
  ultimately show ?thesis unfolding d' by (intro invI)
qed

section \<open>Stop\<close>

lemma unfinished_item_job:
  assumes "inv d" and "j \<in> set (db_jobs d)"
    and "0 < affected (\<lambda>i. Q i \<and> it_job_id i = job_id j) (db_items d)"
    and "\<And>i. Q i \<Longrightarrow> \<not> item_is_terminal (it_status i)"
  shows "job_settled_at j = None"
    and "job_status j \<in> {JobStatusCreated, JobStatusHolding, JobStatusRunning, JobStatusFailed}"
proof -
  from assms(3) have "affected (\<lambda>i. Q i \<and> it_job_id i = job_id j) (db_items d) \<noteq> 0" by linarith
  then obtain i where "i \<in> set (db_items d)" "Q i" "it_job_id i = job_id j"
    unfolding affected_eq_0 by blast
  then have i: "i \<in> set (db_items d)" "\<not> item_is_terminal (it_status i)" "job_id j = it_job_id i"
    using assms(4) by simp_all
  show "job_settled_at j = None"
    and "job_status j \<in> {JobStatusCreated, JobStatusHolding, JobStatusRunning, JobStatusFailed}"
    using unfinished_job(2,3)[OF assms(1) i(1,2) assms(2) i(3)] by simp_all
qed

lemma update_items_none:
  assumes "\<forall>i \<in> set (db_items d). \<not> P i"
  shows "update_items P g d = d"
proof -
  have "upd P g (db_items d) = db_items d" using assms by (intro upd_id) auto
  then show ?thesis by (simp add: update_items_def)
qed

lemma life_ok_counts:
  assumes "life_ok j" and "job_settled_at j = None"
    and "job_status j \<in> {JobStatusCreated, JobStatusHolding, JobStatusRunning, JobStatusFailed}"
    and "job_settled_at (f j) = job_settled_at j" "job_status (f j) = job_status j"
      "job_finished_at (f j) = job_finished_at j" "job_revision (f j) = job_revision j"
      "job_item_count (f j) = job_item_count j"
  shows "life_ok (f j)"
  using assms by (elim insertE) (simp_all add: life_ok_def)

lemma inv_request_job_stop:
  assumes "inv d" and "request_job_stop now jid d = Inr (n, d')"
  shows "inv d'"
proof -
  let ?stop = "\<lambda>j. j\<lparr>job_cancel_requested_at :=
        (case job_cancel_requested_at j of None \<Rightarrow> Some now | Some t \<Rightarrow> Some t), job_updated_at := now\<rparr>"
  let ?d1 = "update_jobs (\<lambda>j. job_id j = jid) ?stop d"
  let ?P = "\<lambda>i. it_job_id i = jid \<and> it_status i = ItemStatusPending"
  let ?n = "affected ?P (db_items ?d1)"
  let ?f = "\<lambda>j. j\<lparr>job_cancelled_count := job_cancelled_count j + ?n, job_updated_at := now\<rparr>"
  have 1: "inv ?d1" using assms(1) by (rule inv_heartbeat_like) simp_all
  have cong: "affected (\<lambda>i. ?P i \<and> it_job_id i = k) (db_items ?d1) = (if k = jid then ?n else 0)" for k
    by (auto simp: affected_eq_0 intro: affected_cong)
  show ?thesis
  proof (cases "?n = 0")
    case True
    then have "\<forall>i \<in> set (db_items ?d1). \<not> ?P i" by (simp add: affected_eq_0)
    then have "update_items ?P (cancel_item now) ?d1 = ?d1"
      by (rule update_items_none)
    with True 1 assms(2) show ?thesis
      by (auto simp: request_job_stop_def Let_def split: if_splits)
  next
    case False
    then have d': "d' = update_jobs (\<lambda>j. job_id j = jid) ?f (update_items ?P (cancel_item now) ?d1)"
      using assms(2) by (auto simp: request_job_stop_def Let_def split: if_splits)
    show ?thesis unfolding d'
    proof (rule inv_items_and_jobs[OF 1])
      show "items_ok (update_items ?P (cancel_item now) ?d1)"
        using inv_items[OF 1] unfolding items_ok_def update_fields ball_upd
        by (auto simp: cancel_item_def item_is_valid_iff)
      have t: "tally (update_items ?P (cancel_item now) ?d1) s k
          = tally ?d1 s k + (if s = ItemStatusCancelled \<and> k = jid then ?n else 0)"
        if "s \<noteq> ItemStatusPending" for s k
      proof -
        have "tally (update_items ?P (cancel_item now) ?d1) s k
            = tally ?d1 s k - (if ItemStatusPending = s then affected (\<lambda>i. ?P i \<and> it_job_id i = k) (db_items ?d1) else 0)
                + (if ItemStatusCancelled = s then affected (\<lambda>i. ?P i \<and> it_job_id i = k) (db_items ?d1) else 0)"
          by (rule tally_bulk) (simp_all add: cancel_item_def)
        then show ?thesis unfolding cong using that by auto
      qed
      fix j
      assume j: "j \<in> set (db_jobs ?d1)"
      show "let j' = if job_id j = jid then ?f j else j
         in job_success_count j' - job_success_count j
            = tally (update_items ?P (cancel_item now) ?d1) ItemStatusSucceeded (job_id j) - tally ?d1 ItemStatusSucceeded (job_id j) \<and>
            job_fail_count j' - job_fail_count j
            = tally (update_items ?P (cancel_item now) ?d1) ItemStatusFailed (job_id j) - tally ?d1 ItemStatusFailed (job_id j) \<and>
            job_cancelled_count j' - job_cancelled_count j
            = tally (update_items ?P (cancel_item now) ?d1) ItemStatusCancelled (job_id j) - tally ?d1 ItemStatusCancelled (job_id j)"
        by (simp add: t Let_def)
      assume jj: "job_id j = jid" and l: "life_ok j"
      have "0 < ?n" using False affected_nonneg[of ?P "db_items ?d1"] by linarith
      then have "0 < affected (\<lambda>i. ?P i \<and> it_job_id i = job_id j) (db_items ?d1)"
        unfolding cong jj by simp
      note u = unfinished_item_job[OF 1 j this]
      show "life_ok (?f j)" by (rule life_ok_counts[where f = ?f, OF l u]) simp_all
    qed (simp_all add: cancel_item_def)
  qed
qed

section \<open>Reaper\<close>

lemma select_ids_sound:
  "k \<in> set (select_ids locked limit key P rows) \<Longrightarrow> \<exists>r \<in> set rows. key r = k \<and> P r \<and> \<not> locked k"
  unfolding select_ids_def by (drule in_set_takeD) auto

lemma select_ids_row:
  assumes "distinct (map key rows)" and "r \<in> set rows" and "key r \<in> set (select_ids locked limit key P rows)"
  shows "P r"
proof -
  obtain r' where "r' \<in> set rows" "key r' = key r" "P r'" using select_ids_sound[OF assms(3)] by blast
  with assms(1,2) have "r' = r" by (metis distinct_map inj_onD)
  with \<open>P r'\<close> show ?thesis by simp
qed

lemma inv_reap_dead_pending_items:
  assumes "inv d"
  shows "inv (reap_dead_pending_items now locked limit d)"
proof -
  define ids where "ids = select_ids locked limit it_id dead_pending (db_items d)"
  let ?hit = "\<lambda>i. it_id i \<in> set ids"
  let ?Q = "\<lambda>i. it_id i \<in> set ids \<and> it_status i = ItemStatusPending"
  let ?n = "\<lambda>k. affected (\<lambda>i. ?hit i \<and> it_job_id i = k) (db_items d)"
  let ?f = "\<lambda>j. j\<lparr>job_fail_count := job_fail_count j + ?n (job_id j), job_updated_at := now\<rparr>"
  let ?d1 = "update_items ?hit (sweep_item now) d"
  let ?d2 = "update_jobs (\<lambda>j. ?n (job_id j) > 0) ?f ?d1"
  note i = invD[OF assms]
  have pend: "it_status r = ItemStatusPending" if "r \<in> set (db_items d)" "?hit r" for r
    using select_ids_row[OF schema_distinct(2)[OF i(1)] that(1), of locked limit dead_pending] that(2)
    by (simp add: ids_def dead_pending_def)
  have same: "?d1 = update_items ?Q (sweep_item now) d"
    unfolding update_items_def using pend by (intro arg_cong[where f = "\<lambda>x. d\<lparr>db_items := x\<rparr>"] upd_cong) auto
  have n: "affected (\<lambda>i. ?Q i \<and> it_job_id i = k) (db_items d) = ?n k" for k
    using pend by (intro affected_cong) auto
  have "inv ?d2" unfolding same
  proof (rule inv_items_and_jobs[OF assms])
    show "items_ok (update_items ?Q (sweep_item now) d)"
      using i(2) unfolding items_ok_def update_fields ball_upd by (auto simp: sweep_item_def item_is_valid_iff)
    have t: "tally (update_items ?Q (sweep_item now) d) s k
        = tally d s k + (if s = ItemStatusFailed then ?n k else 0)" if "s \<noteq> ItemStatusPending" for s k
    proof -
      have "tally (update_items ?Q (sweep_item now) d) s k
          = tally d s k - (if ItemStatusPending = s then affected (\<lambda>i. ?Q i \<and> it_job_id i = k) (db_items d) else 0)
              + (if ItemStatusFailed = s then affected (\<lambda>i. ?Q i \<and> it_job_id i = k) (db_items d) else 0)"
        by (rule tally_bulk) (simp_all add: sweep_item_def)
      then show ?thesis unfolding n using that by auto
    qed
    fix j
    assume j: "j \<in> set (db_jobs d)"
    show "let j' = if ?n (job_id j) > 0 then ?f j else j
       in job_success_count j' - job_success_count j
          = tally (update_items ?Q (sweep_item now) d) ItemStatusSucceeded (job_id j) - tally d ItemStatusSucceeded (job_id j) \<and>
          job_fail_count j' - job_fail_count j
          = tally (update_items ?Q (sweep_item now) d) ItemStatusFailed (job_id j) - tally d ItemStatusFailed (job_id j) \<and>
          job_cancelled_count j' - job_cancelled_count j
          = tally (update_items ?Q (sweep_item now) d) ItemStatusCancelled (job_id j) - tally d ItemStatusCancelled (job_id j)"
    proof -
      have nn: "0 < ?n (job_id j) \<or> ?n (job_id j) = 0"
        using affected_nonneg[of "\<lambda>i. ?hit i \<and> it_job_id i = job_id j" "db_items d"] by linarith
      have t': "tally (update_items ?Q (sweep_item now) d) ItemStatusSucceeded (job_id j) = tally d ItemStatusSucceeded (job_id j)"
          "tally (update_items ?Q (sweep_item now) d) ItemStatusFailed (job_id j) = tally d ItemStatusFailed (job_id j) + ?n (job_id j)"
          "tally (update_items ?Q (sweep_item now) d) ItemStatusCancelled (job_id j) = tally d ItemStatusCancelled (job_id j)"
        using t[of ItemStatusSucceeded "job_id j"] t[of ItemStatusFailed "job_id j"]
          t[of ItemStatusCancelled "job_id j"] by simp_all
      show ?thesis unfolding t' using nn by (auto simp: Let_def)
    qed
    assume "?n (job_id j) > 0" and l: "life_ok j"
    then have "0 < affected (\<lambda>i. ?Q i \<and> it_job_id i = job_id j) (db_items d)" by (simp only: n)
    note u = unfinished_item_job[OF assms j this]
    show "life_ok (?f j)" by (rule life_ok_counts[where f = ?f, OF l u]) simp_all
  qed (simp_all add: sweep_item_def)
  then show ?thesis
    unfolding reap_dead_pending_items_def Let_def ids_def[symmetric]
    by (intro inv_to_settling) (auto split: option.splits)
qed

lemma affected_mono: "(\<And>r. P r \<Longrightarrow> Q r) \<Longrightarrow> affected P rows \<le> affected Q rows"
  by (induction rows) auto

lemma tally_change:
  assumes "\<And>r. it_job_id (g r) = it_job_id r"
  shows "tally (update_items Q g d) s k
       = tally d s k - affected (\<lambda>i. Q i \<and> it_job_id i = k \<and> it_status i = s) (db_items d)
                     + affected (\<lambda>i. Q i \<and> it_job_id i = k \<and> it_status (g i) = s) (db_items d)"
  unfolding tally_def update_fields affected_upd_diff assms ..

lemma inv_stop_unfinished_items:
  assumes "inv d"
  shows "inv (stop_unfinished_items now ids d)"
proof -
  let ?Q = "\<lambda>i. it_job_id i \<in> set ids \<and> (it_status i = ItemStatusPending \<or> it_status i = ItemStatusRunning)"
  let ?g = "stop_unfinished_item now"
  let ?n = "\<lambda>s k. affected (\<lambda>i. ?Q i \<and> it_job_id i = k \<and> it_status i = s) (db_items d)"
  let ?f = "\<lambda>j. j\<lparr>job_cancelled_count := job_cancelled_count j + ?n ItemStatusPending (job_id j),
                 job_fail_count := job_fail_count j + ?n ItemStatusRunning (job_id j), job_updated_at := now\<rparr>"
  let ?P = "\<lambda>j. ?n ItemStatusPending (job_id j) + ?n ItemStatusRunning (job_id j) > 0"
  note i = invD[OF assms]
  have zero: "?n ItemStatusSucceeded k = 0" "?n ItemStatusFailed k = 0" "?n ItemStatusCancelled k = 0" for k
    by (auto simp: affected_eq_0)
  have canc: "affected (\<lambda>i. ?Q i \<and> it_job_id i = k \<and> it_status (?g i) = ItemStatusCancelled) (db_items d)
      = ?n ItemStatusPending k" for k
    by (intro affected_cong) (auto simp: stop_unfinished_item_def)
  have fail: "affected (\<lambda>i. ?Q i \<and> it_job_id i = k \<and> it_status (?g i) = ItemStatusFailed) (db_items d)
      = ?n ItemStatusRunning k" for k
    by (intro affected_cong) (auto simp: stop_unfinished_item_def)
  have succ: "affected (\<lambda>i. ?Q i \<and> it_job_id i = k \<and> it_status (?g i) = ItemStatusSucceeded) (db_items d) = 0" for k
    by (auto simp: affected_eq_0 stop_unfinished_item_def)
  have tc: "tally (update_items ?Q ?g d) s k = tally d s k - ?n s k
      + affected (\<lambda>i. ?Q i \<and> it_job_id i = k \<and> it_status (?g i) = s) (db_items d)" for s k
    by (rule tally_change) (simp add: stop_unfinished_item_def)
  have t: "tally (update_items ?Q ?g d) ItemStatusSucceeded k = tally d ItemStatusSucceeded k"
      "tally (update_items ?Q ?g d) ItemStatusFailed k = tally d ItemStatusFailed k + ?n ItemStatusRunning k"
      "tally (update_items ?Q ?g d) ItemStatusCancelled k = tally d ItemStatusCancelled k + ?n ItemStatusPending k" for k
    unfolding tc canc fail succ
    using zero[of k] by - linarith+
  have "inv (update_jobs ?P ?f (update_items ?Q ?g d))"
  proof (rule inv_items_and_jobs[OF assms])
    show "items_ok (update_items ?Q ?g d)"
      using i(2) unfolding items_ok_def update_fields ball_upd
      by (auto simp: stop_unfinished_item_def item_is_valid_iff)
    fix j
    assume j: "j \<in> set (db_jobs d)"
    have nn: "0 \<le> ?n ItemStatusPending (job_id j)" "0 \<le> ?n ItemStatusRunning (job_id j)"
      by (rule affected_nonneg)+
    define p r where "p = ?n ItemStatusPending (job_id j)" and "r = ?n ItemStatusRunning (job_id j)"
    show "let j' = if ?P j then ?f j else j
       in job_success_count j' - job_success_count j
          = tally (update_items ?Q ?g d) ItemStatusSucceeded (job_id j) - tally d ItemStatusSucceeded (job_id j) \<and>
          job_fail_count j' - job_fail_count j
          = tally (update_items ?Q ?g d) ItemStatusFailed (job_id j) - tally d ItemStatusFailed (job_id j) \<and>
          job_cancelled_count j' - job_cancelled_count j
          = tally (update_items ?Q ?g d) ItemStatusCancelled (job_id j) - tally d ItemStatusCancelled (job_id j)"
      unfolding t p_def[symmetric] r_def[symmetric] using nn[folded p_def r_def] by (auto simp: Let_def)
    assume P: "?P j" and l: "life_ok j"
    have "?n ItemStatusPending (job_id j) \<le> affected (\<lambda>i. ?Q i \<and> it_job_id i = job_id j) (db_items d)"
        "?n ItemStatusRunning (job_id j) \<le> affected (\<lambda>i. ?Q i \<and> it_job_id i = job_id j) (db_items d)"
      by (auto intro!: affected_mono)
    then have "0 < affected (\<lambda>i. ?Q i \<and> it_job_id i = job_id j) (db_items d)" using P by linarith
    note u = unfinished_item_job[OF assms j this]
    have "\<And>i. ?Q i \<Longrightarrow> \<not> item_is_terminal (it_status i)" by auto
    note u = u[OF this]
    show "life_ok (?f j)" by (rule life_ok_counts[where f = ?f, OF l u]) simp_all
  qed (simp_all add: stop_unfinished_item_def)
  then show ?thesis by (simp add: stop_unfinished_items_def Let_def)
qed

lemma inv_reap_stale_job:
  assumes "inv d" and "\<And>j. j \<in> set (db_jobs d) \<Longrightarrow> P j \<Longrightarrow> stale_job now stale j"
  shows "inv (update_jobs P (reap_stale_job now) d)"
  using assms(1)
proof (rule inv_update_jobs)
  fix j
  assume "j \<in> set (db_jobs d)" "P j" and m: "counters_match d j" and l: "life_ok j"
  then have "job_status j \<in> {JobStatusCreated, JobStatusHolding, JobStatusRunning}"
    using assms(2) by (auto simp: stale_job_def)
  note n = life_active[OF l this]
  have "job_revision j = 0" "0 < job_item_count j" using l unfolding life_ok_def by blast+
  then show "counters_match d (reap_stale_job now j) \<and> life_ok (reap_stale_job now j)"
    using m n by (simp add: reap_stale_job_def counters_match_def life_ok_def)
qed (simp_all add: reap_stale_job_def)

text \<open>A job is settled and its hold released in the same transaction.\<close>

lemma inv_settle_and_release:
  assumes "inv d"
    and keep: "\<And>j. job_id (f j) = job_id j" "\<And>j. job_uid (f j) = job_uid j" "\<And>j. job_user_id (f j) = job_user_id j"
    and ok: "\<And>j. j \<in> set (db_jobs d) \<Longrightarrow> P j \<Longrightarrow> counters_match d (f j) \<and> life_ok (f j)"
    and R: "\<And>j h. j \<in> set (db_jobs d) \<Longrightarrow> P j \<Longrightarrow> hold_job_id h = job_id j \<Longrightarrow> hold_status h = HoldStatusOpen \<Longrightarrow> R h"
  shows "inv (update_holds R (close_hold now) (update_jobs P f d))"
proof (rule invI)
  note i = invD[OF assms(1)]
  let ?d = "update_holds R (close_hold now) (update_jobs P f d)"
  show "schema_ok ?d"
    using i(1) keep by (intro schema_update_holds schema_update_jobs) (auto simp: close_hold_def)
  show "items_ok ?d" using i(2) by (rule items_ok_same) simp
  have "counters_match ?d j = counters_match d j" for j by (simp add: counters_match_def)
  then show "jobs_ok ?d"
    using i(3) ok unfolding jobs_ok_def update_fields ball_upd by auto
  have 1: "hold_ok (if R h then close_hold now h else h)" if "h \<in> set (db_holds d)" for h
    using that i(4) by (auto simp: holds_ok_def hold_ok_def close_hold_def)
  have 2: "hold_user_id (if R h then close_hold now h else h) = job_user_id (if P j then f j else j)
      \<and> (job_settled_at (if P j then f j else j) \<noteq> None
           \<longrightarrow> hold_status (if R h then close_hold now h else h) = HoldStatusReleased)"
    if "j \<in> set (db_jobs d)" "h \<in> set (db_holds d)"
      "hold_job_id (if R h then close_hold now h else h) = job_id (if P j then f j else j)" for j h
  proof -
    have h: "hold_job_id h = job_id j" using that(3) keep by (auto simp: close_hold_def split: if_splits)
    have u: "hold_user_id h = job_user_id j" "job_settled_at j \<noteq> None \<longrightarrow> hold_status h = HoldStatusReleased"
      "hold_status h \<noteq> HoldStatusSettled"
      using that(1,2) h i(4) by (auto simp: holds_ok_def hold_ok_def)
    have "P j \<longrightarrow> R h \<or> hold_status h = HoldStatusReleased"
      using R[OF that(1) _ h] u(3) by (cases "hold_status h") auto
    then show ?thesis using u keep by (auto simp: close_hold_def)
  qed
  have 3: "\<exists>h \<in> set (db_holds d). hold_job_id (if R h then close_hold now h else h) = job_id (if P j then f j else j)"
    if "j \<in> set (db_jobs d)" for j
    using that i(4) keep unfolding holds_ok_def by (simp add: close_hold_def)
  show "holds_ok ?d"
    unfolding holds_ok_def update_fields ball_upd bex_upd using 1 2 3 by blast
qed

text \<open>The \<open>CASE\<close> in the reaper's SQL and the function of the domain package agree.\<close>

lemma settled_status_sql_eq:
  "settled_status_sql j = terminal_job_status (job_item_count j) (job_success_count j) (job_fail_count j)
     (job_cancelled_count j) (job_cancel_requested_at j \<noteq> None)"
  by (simp add: settled_status_sql_def terminal_job_status_def)

lemma life_ok_settled:
  assumes "life_ok j" and "job_status j = JobStatusSettling" and "job_is_terminal s" and "a \<noteq> None" "t \<noteq> None" "u \<noteq> None"
  shows "life_ok (j\<lparr>job_status := s, job_actual_cost := a, job_settled_at := t, job_finished_at := u, job_updated_at := n\<rparr>)"
proof -
  have "counters_full j" "job_revision j = 0" "0 < job_item_count j" using assms(1,2) unfolding life_ok_def by auto
  then show ?thesis
    using assms(3-) by (cases s) (simp_all add: life_ok_def counters_full_def)
qed

lemma inv_close_stuck:
  assumes "inv d"
    and "\<And>j. j \<in> set (db_jobs d) \<Longrightarrow> P j \<Longrightarrow> stuck_settling now stale j"
    and "\<And>j h. j \<in> set (db_jobs d) \<Longrightarrow> P j \<Longrightarrow> hold_job_id h = job_id j \<Longrightarrow> hold_status h = HoldStatusOpen \<Longrightarrow> R h"
  shows "inv (update_holds R (close_hold now) (update_jobs P (close_stuck_job now d) d))"
  using assms(1)
proof (rule inv_settle_and_release)
  fix j
  assume j: "j \<in> set (db_jobs d)" "P j"
  note m = inv_job[OF assms(1) j(1)]
  have s: "job_status j = JobStatusSettling" using assms(2)[OF j] by (simp add: stuck_settling_def)
  have "life_ok (close_stuck_job now d j)"
    unfolding close_stuck_job_def using m(2) s
    by (rule life_ok_settled)
      (simp_all add: settled_status_sql_eq terminal_job_status_terminal split: option.splits)
  then show "counters_match d (close_stuck_job now d j) \<and> life_ok (close_stuck_job now d j)"
    using m(1) by (simp add: counters_match_def close_stuck_job_def)
qed (use assms(3) in \<open>auto simp: close_stuck_job_def\<close>)

lemma reap_stale_jobs_parts:
  assumes "reap_stale_jobs now li lj stale limit d = (ids, d')"
  obtains lim st d1 d2 d3 d4 s u where "d1 = reap_dead_pending_items now li lim d"
    and "s = select_ids lj lim job_id (stale_job now st) (db_jobs d1)"
    and "d2 = update_jobs (\<lambda>j. job_id j \<in> set s) (reap_stale_job now) d1"
    and "d3 = (if s = [] then d2 else release_holds_for_jobs now s (stop_unfinished_items now s d2))"
    and "u = select_ids lj lim job_id (stuck_settling now stale_settling_after) (db_jobs d3)"
    and "d4 = update_jobs (\<lambda>j. job_id j \<in> set u) (close_stuck_job now d3) d3"
    and "d' = (if u = [] then d4 else release_holds_for_jobs now u d4)"
    and "ids = s @ u" and "st = seconds stale (default_stale_job_minutes * minute)"
proof -
  let ?r = "reap_stale_jobs now li lj stale limit d"
  have "d' = snd ?r" "ids = fst ?r" using assms by simp_all
  then show thesis
    unfolding reap_stale_jobs_def Let_def fst_conv snd_conv by (intro that[OF refl refl refl refl refl refl]) simp_all
qed

lemma inv_reap_stale_jobs:
  assumes "inv d" and "reap_stale_jobs now li lj stale limit d = (ids, d')"
  shows "inv d'"
  using assms(2)
proof (rule reap_stale_jobs_parts)
  fix lim st d1 d2 d3 d4 s u
  assume d1: "d1 = reap_dead_pending_items now li lim d"
    and s: "s = select_ids lj lim job_id (stale_job now st) (db_jobs d1)"
    and d2: "d2 = update_jobs (\<lambda>j. job_id j \<in> set s) (reap_stale_job now) d1"
    and d3: "d3 = (if s = [] then d2 else release_holds_for_jobs now s (stop_unfinished_items now s d2))"
    and u: "u = select_ids lj lim job_id (stuck_settling now stale_settling_after) (db_jobs d3)"
    and d4: "d4 = update_jobs (\<lambda>j. job_id j \<in> set u) (close_stuck_job now d3) d3"
    and d': "d' = (if u = [] then d4 else release_holds_for_jobs now u d4)"
  have 1: "inv d1" unfolding d1 using assms(1) by (rule inv_reap_dead_pending_items)
  have 2: "inv d2" unfolding d2 using 1
    by (rule inv_reap_stale_job)
      (use select_ids_row[OF schema_distinct(1)[OF inv_schema[OF 1]]] in \<open>auto simp: s\<close>)
  have 3: "inv d3" using 2 by (simp add: d3 inv_release_holds_for_jobs inv_stop_unfinished_items)
  have "inv (update_holds (\<lambda>h. hold_job_id h \<in> set u \<and> hold_status h = HoldStatusOpen) (close_hold now)
      (update_jobs (\<lambda>j. job_id j \<in> set u) (close_stuck_job now d3) d3))"
    using 3
    by (rule inv_close_stuck)
      (use select_ids_row[OF schema_distinct(1)[OF inv_schema[OF 3]]] in \<open>auto simp: u\<close>)
  then have 4: "inv (release_holds_for_jobs now u d4)" by (simp add: release_holds_for_jobs_def d4)
  have "d4 = d3" if "u = []" using that by (simp add: d4 update_jobs_def upd_def)
  with d' 3 4 show ?thesis by (cases "u = []") simp_all
qed

section \<open>Billing and settlement\<close>

lemma inv_apply_item_billing:
  assumes "inv d" and "apply_item_billing D now iid cost mode tier d = Inr ((), d')"
  shows "inv d'"
proof -
  have b: "inv (update_items (\<lambda>r. it_id r = iid) (bill_item now c mode tier) d)" for c
    using assms(1) by (rule inv_update_items_keep) (simp_all add: bill_item_def)
  show ?thesis
    using assms b
    by (auto simp: apply_item_billing_def Let_def inv_decrement_hold split: option.splits if_splits)
qed

text \<open>The settler settles a job it has read in status settling, with the status its counters give.\<close>

definition settles :: "db \<Rightarrow> settle_job_params \<Rightarrow> bool" where
  "settles d params \<longleftrightarrow>
     (\<forall>j \<in> set (db_jobs d). job_id j = sj_job_id params \<longrightarrow>
        job_status j = JobStatusSettling \<or> job_settled_at j \<noteq> None)"

lemma inv_settle_job:
  assumes "inv d" and "settle_job D now params d = Inr ((), d')" and "settles d params"
  shows "inv d'"
proof -
  let ?t = "if sj_settled_at params = zero_time then now else sj_settled_at params"
  from assms(2) have ter: "job_is_terminal (sj_status params)"
    and d': "d' = update_holds (\<lambda>h. hold_job_id h = sj_job_id params \<and> hold_status h = HoldStatusOpen) (close_hold now)
          (update_jobs (settle_guard params) (settle_row D now ?t params) d)"
    by (auto simp: settle_job_def Let_def release_hold_def split: if_splits)
  show ?thesis unfolding d' using assms(1)
  proof (rule inv_settle_and_release)
    fix j
    assume j: "j \<in> set (db_jobs d)" "settle_guard params j"
    note m = inv_job[OF assms(1) j(1)]
    have "job_id j = sj_job_id params" "job_settled_at j = None" using j(2) by (simp_all add: settle_guard_def)
    then have s: "job_status j = JobStatusSettling"
      using assms(3) j(1) by (auto simp: settles_def)
    have eq: "settle_row D now ?t params j = j\<lparr>job_status := sj_status params,
        job_actual_cost := Some (quantize_money D (sj_actual_cost params)), job_settled_at := Some ?t,
        job_finished_at := (case job_finished_at j of None \<Rightarrow> Some ?t | Some t \<Rightarrow> Some t), job_updated_at := now\<rparr>"
      by (simp add: settle_row_def)
    have "life_ok (settle_row D now ?t params j)"
      unfolding eq by (rule life_ok_settled[OF m(2) s ter]) (simp_all split: option.splits)
    then show "counters_match d (settle_row D now ?t params j) \<and> life_ok (settle_row D now ?t params j)"
      using m(1) by (simp add: counters_match_def settle_row_def)
  qed (auto simp: settle_row_def settle_guard_def)
qed

section \<open>Alerts and quota requests\<close>

lemma inv_other_tables [simp]:
  "inv (d\<lparr>db_alerts := x, db_next_alert := y\<rparr>) = inv d"
  "inv (d\<lparr>db_quota := q, db_next_quota := z\<rparr>) = inv d" "inv (d\<lparr>db_quota := q\<rparr>) = inv d"
  by (subst inv_cong[of _ d]; simp)+

lemma inv_insert_billing_alert: "inv d \<Longrightarrow> insert_billing_alert D now a d = Inr (r, d') \<Longrightarrow> inv d'"
  by (auto simp: insert_billing_alert_def Let_def split: option.splits)

lemma inv_create_quota_request: "inv d \<Longrightarrow> create_quota_request now u n d = Inr (r, d') \<Longrightarrow> inv d'"
  by (auto simp: create_quota_request_def Let_def split: if_splits)

lemma inv_handle_quota_request: "inv d \<Longrightarrow> handle_quota_request D now q b s n a d = Inr (r, d') \<Longrightarrow> inv d'"
  by (auto simp: handle_quota_request_def Let_def split: if_splits option.splits)

lemma inv_reopen_quota_request: "inv d \<Longrightarrow> reopen_quota_request q d = Inr (r, d') \<Longrightarrow> inv d'"
  by (auto simp: reopen_quota_request_def Let_def split: if_splits)

section \<open>Retry\<close>

lemma inv_insert_hold:
  assumes "inv d" and "j \<in> set (db_jobs d)" and "job_id j = jid" and "job_settled_at j = None" and "0 \<le> amount"
  shows "inv (insert_hold now jid user_id amount d)"
proof (rule invI)
  note i = invD[OF assms(1)]
  let ?R = "\<lambda>h. hold_job_id h = jid"
  let ?k = "\<lambda>h. h\<lparr>hold_amount := (if hold_status h = HoldStatusOpen then hold_amount h + amount else amount),
                 hold_status := HoldStatusOpen, hold_updated_at := now\<rparr>"
  have "\<exists>h \<in> set (db_holds d). hold_job_id h = jid" using i(4) assms(2,3) unfolding holds_ok_def by blast
  then have eq: "insert_hold now jid user_id amount d = update_holds ?R ?k d"
    by (simp add: insert_hold_def list_ex_iff)
  show "schema_ok (insert_hold now jid user_id amount d)"
    unfolding eq using i(1) by (rule schema_update_holds) simp
  show "items_ok (insert_hold now jid user_id amount d)"
    unfolding eq using i(2) by (rule items_ok_same) simp
  have "counters_match (update_holds ?R ?k d) x = counters_match d x" for x by (simp add: counters_match_def)
  then show "jobs_ok (insert_hold now jid user_id amount d)" unfolding eq using i(3) by (simp add: jobs_ok_def)
  have 1: "hold_ok (if ?R h then ?k h else h)" if "h \<in> set (db_holds d)" for h
    using that i(4) assms(5) by (auto simp: holds_ok_def hold_ok_def)
  have only: "x = j" if "x \<in> set (db_jobs d)" "job_id x = jid" for x
    using that assms(2,3) same_job[OF i(1)] by metis
  have 2: "hold_user_id (if ?R h then ?k h else h) = job_user_id x
      \<and> (job_settled_at x \<noteq> None \<longrightarrow> hold_status (if ?R h then ?k h else h) = HoldStatusReleased)"
    if "x \<in> set (db_jobs d)" "h \<in> set (db_holds d)" "hold_job_id (if ?R h then ?k h else h) = job_id x" for x h
  proof -
    have h: "hold_job_id h = job_id x" using that(3) by (simp split: if_splits)
    have "hold_user_id h = job_user_id x" "job_settled_at x \<noteq> None \<longrightarrow> hold_status h = HoldStatusReleased"
      using i(4) that(1,2) h unfolding holds_ok_def by blast+
    then show ?thesis using h only[OF that(1)] assms(4) by auto
  qed
  have 3: "\<exists>h \<in> set (db_holds d). hold_job_id (if ?R h then ?k h else h) = job_id x" if "x \<in> set (db_jobs d)" for x
  proof -
    have "\<forall>j \<in> set (db_jobs d). \<exists>h \<in> set (db_holds d). hold_job_id h = job_id j"
      using i(4) unfolding holds_ok_def by (elim conjE)
    with that obtain h where "h \<in> set (db_holds d)" "hold_job_id h = job_id x" by blast
    then show ?thesis by (intro bexI[of _ h]) simp_all
  qed
  show "holds_ok (insert_hold now jid user_id amount d)"
    unfolding eq holds_ok_def update_fields ball_upd bex_upd using 1 2 3 by blast
qed

lemma update_tables_commute: "update_items Q g (update_jobs P f d) = update_jobs P f (update_items Q g d)"
  by (cases d) (simp add: update_jobs_def update_items_def)

lemma tally_pos: "i \<in> set (db_items d) \<Longrightarrow> 1 \<le> tally d (it_status i) (it_job_id i)"
proof -
  assume i: "i \<in> set (db_items d)"
  then have "tally d (it_status i) (it_job_id i) \<noteq> 0" unfolding tally_def affected_eq_0 by blast
  moreover have "0 \<le> tally d (it_status i) (it_job_id i)" by (simp add: tally_def)
  ultimately show ?thesis by linarith
qed

lemma retry_count_adjust_simps [simp]:
  "job_id (retry_count_adjust s j) = job_id j" "job_uid (retry_count_adjust s j) = job_uid j"
  "job_user_id (retry_count_adjust s j) = job_user_id j" "job_settled_at (retry_count_adjust s j) = job_settled_at j"
  "job_status (retry_count_adjust s j) = job_status j" "job_item_count (retry_count_adjust s j) = job_item_count j"
  "job_finished_at (retry_count_adjust s j) = job_finished_at j" "job_revision (retry_count_adjust s j) = job_revision j"
  "job_success_count (retry_count_adjust s j)
     = (if s = ItemStatusSucceeded then max (job_success_count j - 1) 0 else job_success_count j)"
  "job_fail_count (retry_count_adjust s j)
     = (if s = ItemStatusFailed then max (job_fail_count j - 1) 0 else job_fail_count j)"
  "job_cancelled_count (retry_count_adjust s j)
     = (if s = ItemStatusCancelled then max (job_cancelled_count j - 1) 0 else job_cancelled_count j)"
  by (cases s; simp add: retry_count_adjust_def)+

text \<open>What a successful retry did: the job was holding or running and unsettled, and the item's
  status allowed going back to pending.\<close>

lemma retry_itemD:
  assumes "inv d" and "retry_item D now params d = Inr (it, d')"
  obtains j i where "j \<in> set (db_jobs d)" and "job_id j = ri_job_id params" and "job_user_id j = ri_user_id params"
    and "job_settled_at j = None" and "job_status j \<in> {JobStatusHolding, JobStatusRunning}"
    and "i \<in> set (db_items d)" and "it_job_id i = job_id j" and "it_seq i = ri_seq params"
    and "can_transition_item (it_status i) ItemStatusPending" and "it_attempt_count i < it_max_attempts i"
    and "it = retry_item_row now i"
    and "d' = insert_hold now (job_id j) (ri_user_id params) (quantize_money D (ri_estimated_cost params))
          (update_jobs (\<lambda>r. job_id r = job_id j \<and> job_settled_at r = None)
             (\<lambda>r. retry_count_adjust (it_status i) (r\<lparr>job_updated_at := now, job_heartbeat_at := Some now\<rparr>))
             (update_items (\<lambda>r. it_id r = it_id i \<and> it_status r = it_status i) (retry_item_row now) d))"
proof -
  from assms(2) obtain j i d1 where
    fj: "find (\<lambda>j. job_id j = ri_job_id params \<and> job_user_id j = ri_user_id params) (db_jobs d) = Some j"
    and ns: "job_settled_at j = None"
    and fi: "get_job_item_by_seq d (ri_job_id params) (ri_seq params) = Inr i"
    and tr: "can_transition_item (it_status i) ItemStatusPending" and at: "it_attempt_count i < it_max_attempts i"
    and u: "update_job_for_retry now j (it_status i) d = Inr ((), d1)"
    and it: "it = retry_item_row now i"
    and d': "d' = insert_hold now (job_id j) (ri_user_id params) (quantize_money D (ri_estimated_cost params))
        (update_items (\<lambda>r. it_id r = it_id i \<and> it_status r = it_status i) (retry_item_row now) d1)"
    unfolding retry_item_def Let_def is_settled_def can_retry_def
    by (auto split: sum.splits option.splits if_splits)
  have j: "j \<in> set (db_jobs d)" "job_id j = ri_job_id params" "job_user_id j = ri_user_id params"
    using find_SomeD[OF fj] by auto
  have i: "i \<in> set (db_items d)" "it_job_id i = ri_job_id params" "it_seq i = ri_seq params"
    using fi by (auto simp: get_job_item_by_seq_def dest!: find_SomeD split: option.splits)
  have l: "life_ok j" by (rule inv_job(2)[OF assms(1) j(1)])
  have "job_status j \<notin> {JobStatusSucceeded, JobStatusPartiallyFailed, JobStatusCancelled}"
    using l ns unfolding life_ok_def by blast
  then have s: "job_status j \<in> {JobStatusHolding, JobStatusRunning}"
    and d1: "d1 = update_jobs (\<lambda>r. job_id r = job_id j \<and> job_settled_at r = None)
        (\<lambda>r. retry_count_adjust (it_status i) (r\<lparr>job_updated_at := now, job_heartbeat_at := Some now\<rparr>)) d"
    using u by (cases "job_status j"; simp add: update_job_for_retry_def status_simps Let_def split: if_splits)+
  have "d' = insert_hold now (job_id j) (ri_user_id params) (quantize_money D (ri_estimated_cost params))
          (update_jobs (\<lambda>r. job_id r = job_id j \<and> job_settled_at r = None)
             (\<lambda>r. retry_count_adjust (it_status i) (r\<lparr>job_updated_at := now, job_heartbeat_at := Some now\<rparr>))
             (update_items (\<lambda>r. it_id r = it_id i \<and> it_status r = it_status i) (retry_item_row now) d))"
    unfolding d' d1 by (simp only: update_tables_commute)
  with that[OF j ns s i(1) _ i(3) tr at it] i(2) j(2) show thesis by simp
qed

lemma retry_item_row_simps [simp]:
  "it_id (retry_item_row now i) = it_id i" "it_job_id (retry_item_row now i) = it_job_id i"
  "it_seq (retry_item_row now i) = it_seq i" "it_status (retry_item_row now i) = ItemStatusPending"
  "it_attempt_count (retry_item_row now i) = it_attempt_count i"
  "it_max_attempts (retry_item_row now i) = it_max_attempts i" "it_worker_id (retry_item_row now i) = None"
  by (simp_all add: retry_item_row_def)

lemma inv_retry_item:
  assumes "inv d" and "retry_item D now params d = Inr (it, d')"
    and "decimal_ok D" and "0 \<le> ri_estimated_cost params"
  shows "inv d'"
  using assms(1,2)
proof (rule retry_itemD)
  fix j i
  assume j: "j \<in> set (db_jobs d)" "job_settled_at j = None" "job_status j \<in> {JobStatusHolding, JobStatusRunning}"
    and i: "i \<in> set (db_items d)" "it_job_id i = job_id j"
    and d': "d' = insert_hold now (job_id j) (ri_user_id params) (quantize_money D (ri_estimated_cost params))
          (update_jobs (\<lambda>r. job_id r = job_id j \<and> job_settled_at r = None)
             (\<lambda>r. retry_count_adjust (it_status i) (r\<lparr>job_updated_at := now, job_heartbeat_at := Some now\<rparr>))
             (update_items (\<lambda>r. it_id r = it_id i \<and> it_status r = it_status i) (retry_item_row now) d))"
  let ?P = "\<lambda>r. job_id r = job_id j \<and> job_settled_at r = None"
  let ?f = "\<lambda>r. retry_count_adjust (it_status i) (r\<lparr>job_updated_at := now, job_heartbeat_at := Some now\<rparr>)"
  let ?Q = "\<lambda>r. it_id r = it_id i \<and> it_status r = it_status i"
  let ?d = "update_items ?Q (retry_item_row now) d"
  note v = invD[OF assms(1)]
  have move: "tally ?d s k = tally d s k - (if it_job_id i = k \<and> it_status i = s then 1 else 0)
      + (if it_job_id i = k \<and> ItemStatusPending = s then 1 else 0)" for s k
    by (rule tally_move[where i = i]) (use v(1) i in auto)
  have pos: "1 \<le> tally d (it_status i) (job_id j)" using tally_pos[OF i(1)] i(2) by simp
  have 1: "inv (update_jobs ?P ?f ?d)"
  proof (rule inv_items_and_jobs[OF assms(1)])
    show "items_ok ?d" using v(2) unfolding items_ok_def update_fields ball_upd by (auto simp: item_is_valid_iff)
    fix x
    assume x: "x \<in> set (db_jobs d)"
    have m: "job_success_count x = tally d ItemStatusSucceeded (job_id x)"
        "job_fail_count x = tally d ItemStatusFailed (job_id x)"
        "job_cancelled_count x = tally d ItemStatusCancelled (job_id x)"
      using inv_job(1)[OF assms(1) x] by (simp_all add: counters_match_def)
    have xj: "job_id x = job_id j \<longrightarrow> x = j" using same_job[OF v(1) x j(1)] by simp
    show "let j' = if ?P x then ?f x else x
         in job_success_count j' - job_success_count x
            = tally ?d ItemStatusSucceeded (job_id x) - tally d ItemStatusSucceeded (job_id x) \<and>
            job_fail_count j' - job_fail_count x
            = tally ?d ItemStatusFailed (job_id x) - tally d ItemStatusFailed (job_id x) \<and>
            job_cancelled_count j' - job_cancelled_count x
            = tally ?d ItemStatusCancelled (job_id x) - tally d ItemStatusCancelled (job_id x)"
    proof (cases "job_id x = job_id j")
      case True
      with xj j(2) have "?P x" by simp
      with True show ?thesis using pos m i(2) by (auto simp: move Let_def max_def)
    next
      case False
      with i(2) show ?thesis by (simp add: move Let_def)
    qed
    assume "?P x" and l: "life_ok x"
    with xj have "x = j" by simp
    then show "life_ok (?f x)"
      using j(3) by (intro life_ok_counts[where f = ?f, OF l]) (use j(2) in auto)
  qed simp_all
  show "inv d'"
    unfolding d'
  proof (rule inv_insert_hold[OF 1])
    show "?f j \<in> set (db_jobs (update_jobs ?P ?f ?d))" using j by (auto simp: set_upd)
    show "0 \<le> quantize_money D (ri_estimated_cost params)" using assms(3,4) by (rule quantize_nonneg)
  qed (use j in simp_all)
qed

section \<open>Submission\<close>

text \<open>The rows of a new batch, and what inserting them does to the tables.\<close>

fun item_rows :: "time \<Rightarrow> int \<Rightarrow> create_job_item_params list \<Rightarrow> int \<Rightarrow> job_item list" where
  "item_rows now jid [] n = []"
| "item_rows now jid (p # ps) n = new_item_row now jid p n # item_rows now jid ps (n + 1)"

lemma insert_job_items_eq:
  "insert_job_items now jid ps d =
     d\<lparr>db_items := db_items d @ item_rows now jid ps (db_next_item d),
       db_next_item := db_next_item d + int (length ps)\<rparr>"
  by (induction ps arbitrary: d) (simp_all add: algebra_simps)

lemma item_rows_ids: "map it_id (item_rows now jid ps n) = map (\<lambda>k. n + int k) [0..<length ps]"
proof (induction ps arbitrary: n)
  case Nil
  then show ?case by simp
next
  case (Cons p ps)
  have "map (\<lambda>k. n + int k) [0..<Suc (length ps)] = n # map (\<lambda>k. n + 1 + int k) [0..<length ps]"
    by (simp only: upt_conv_Cons[OF zero_less_Suc] map_Suc_upt[symmetric] list.map map_map) (simp add: o_def)
  with Cons show ?case by (simp add: new_item_row_def)
qed

lemma item_rows_fields:
  "r \<in> set (item_rows now jid ps n) \<Longrightarrow>
     it_job_id r = jid \<and> it_status r = ItemStatusPending \<and> it_attempt_count r = 0 \<and> 0 < it_max_attempts r"
  by (induction ps arbitrary: n) (auto simp: new_item_row_def default_max_attempts_def)

lemma item_rows_seq: "map it_seq (item_rows now jid ps n) = map cji_seq ps"
  by (induction ps arbitrary: n) (auto simp: new_item_row_def)

lemma first_bad_seq_None: "first_bad_seq i ps = None \<Longrightarrow> map cji_seq ps = map (\<lambda>k. i + 1 + int k) [0..<length ps]"
proof (induction ps arbitrary: i)
  case Nil
  then show ?case by simp
next
  case (Cons p ps)
  then have "cji_seq p = i + 1" and "first_bad_seq (i + 1) ps = None" by (auto split: if_splits)
  moreover have "map (\<lambda>k. i + 1 + int k) [0..<Suc (length ps)] = (i + 1) # map (\<lambda>k. i + 1 + 1 + int k) [0..<length ps]"
    by (simp only: upt_conv_Cons[OF zero_less_Suc] map_Suc_upt[symmetric] list.map map_map) (simp add: o_def)
  ultimately show ?case using Cons.IH by simp
qed

lemma distinct_from: "distinct (map (\<lambda>k. (n :: int) + int k) [0..<m])"
  by (simp add: distinct_map inj_on_def)

lemma set_from: "set (map (\<lambda>k. (n :: int) + int k) [0..<m]) = {n ..< n + int m}"
proof (intro set_eqI iffI)
  fix x
  assume "x \<in> {n ..< n + int m}"
  then have "x = n + int (nat (x - n))" and "nat (x - n) < m" by auto
  then show "x \<in> set (map (\<lambda>k. n + int k) [0..<m])" by (metis atLeastLessThan_iff image_eqI le0 list.set_map set_upt)
qed auto

text \<open>What a successful submission did.\<close>

lemma create_jobD:
  assumes "create_job_with_items_and_hold D now params d = Inr (r, d')"
  obtains (reused) j where "cr_reused r" and "cr_job r = j" and "d' = d" and "j \<in> set (db_jobs d)"
      and "job_user_id j = cj_user_id params" and "job_idempotency_key j = Some (trimmed_ptr (cj_idempotency_key params))"
  | (created) balance where "\<not> cr_reused r" and "validate_create_job_params params = None"
      and "lock_user_balance d (cj_user_id params) = Inr balance"
      and "quantize_money D (cj_estimated_cost params)
             \<le> quantize_money D (balance - sum_open_holds d (cj_user_id params))"
      and "\<not> list_ex (\<lambda>j. job_uid j = cj_job_uid params) (db_jobs d)"
      and "cr_job r = new_job_row D now params (quantize_money D (cj_estimated_cost params)) (db_next_job d)"
      and "d' = insert_hold now (db_next_job d) (cj_user_id params) (quantize_money D (cj_estimated_cost params))
             (d\<lparr>db_jobs := db_jobs d @ [cr_job r], db_next_job := db_next_job d + 1,
                db_items := db_items d @ item_rows now (db_next_job d) (cj_items params) (db_next_item d),
                db_next_item := db_next_item d + int (length (cj_items params))\<rparr>)"
proof -
  let ?key = "trimmed_ptr (cj_idempotency_key params)"
  let ?found = "if ?key \<noteq> [] then find_job_by_idempotency_key now d (cj_user_id params) ?key else None"
  from assms have v: "validate_create_job_params params = None"
    unfolding create_job_with_items_and_hold_def by (cases "validate_create_job_params params") auto
  with assms obtain balance where b: "lock_user_balance d (cj_user_id params) = Inr balance"
    unfolding create_job_with_items_and_hold_def by (cases "lock_user_balance d (cj_user_id params)") auto
  show thesis
  proof (cases ?found)
    case (Some j)
    then have key: "?key \<noteq> []" and f: "find_job_by_idempotency_key now d (cj_user_id params) ?key = Some j"
      by (auto split: if_splits)
    have r: "r = \<lparr>cr_job = j, cr_items = list_job_items d (job_id j), cr_reused = True\<rparr> \<and> d' = d"
      using assms v b Some unfolding create_job_with_items_and_hold_def by (auto simp: Let_def)
    let ?rows = "filter (\<lambda>j. job_user_id j = cj_user_id params \<and> job_idempotency_key j = Some ?key
        \<and> job_created_at j > now - idempotency_lookup_window) (db_jobs d)"
    from f obtain js where "rev (sort_key job_id ?rows) = j # js"
      by (auto simp: find_job_by_idempotency_key_def Let_def split: list.splits)
    then have "j \<in> set (rev (sort_key job_id ?rows))" by simp
    then have "j \<in> set ?rows" by simp
    with r show thesis by (intro reused[of j]) auto
  next
    case None
    with assms v b have le: "\<not> quantize_money D (balance - sum_open_holds d (cj_user_id params))
        < quantize_money D (cj_estimated_cost params)"
      and u: "\<not> list_ex (\<lambda>j. job_uid j = cj_job_uid params) (db_jobs d)"
      unfolding create_job_with_items_and_hold_def insert_job_def by (auto simp: Let_def split: if_splits)
    let ?j = "new_job_row D now params (quantize_money D (cj_estimated_cost params)) (db_next_job d)"
    have jid: "job_id ?j = db_next_job d" by (simp add: new_job_row_def)
    have "cr_job r = ?j \<and> \<not> cr_reused r \<and> d' = insert_hold now (db_next_job d) (cj_user_id params) (quantize_money D (cj_estimated_cost params))
             (d\<lparr>db_jobs := db_jobs d @ [?j], db_next_job := db_next_job d + 1,
                db_items := db_items d @ item_rows now (db_next_job d) (cj_items params) (db_next_item d),
                db_next_item := db_next_item d + int (length (cj_items params))\<rparr>)"
      using assms v b None le u
      unfolding create_job_with_items_and_hold_def insert_job_def
      by (simp add: Let_def insert_job_items_eq jid split: if_splits) (auto simp: jid)
    with v b le u show thesis by (intro created[of balance]) auto
  qed
qed

lemma validate_create_job_paramsD:
  assumes "validate_create_job_params params = None"
  shows "cj_items params \<noteq> []" and "map cji_seq (cj_items params) = map (\<lambda>k. 1 + int k) [0..<length (cj_items params)]"
    and "0 < cj_user_id params"
  using assms first_bad_seq_None[of 0 "cj_items params"]
  by (auto simp: validate_create_job_params_def split: if_splits option.splits)

lemma new_job_row_fields [simp]:
  "job_id (new_job_row D now p e n) = n" "job_uid (new_job_row D now p e n) = cj_job_uid p"
  "job_user_id (new_job_row D now p e n) = cj_user_id p" "job_status (new_job_row D now p e n) = JobStatusCreated"
  "job_settled_at (new_job_row D now p e n) = None" "job_finished_at (new_job_row D now p e n) = None"
  "job_item_count (new_job_row D now p e n) = int (length (cj_items p))"
  "job_success_count (new_job_row D now p e n) = 0" "job_fail_count (new_job_row D now p e n) = 0"
  "job_cancelled_count (new_job_row D now p e n) = 0" "job_revision (new_job_row D now p e n) = 0"
  "job_created_at (new_job_row D now p e n) = now" "job_estimated_cost (new_job_row D now p e n) = e"
  by (simp_all add: new_job_row_def)

lemma insert_hold_new:
  "\<forall>h \<in> set (db_holds d). hold_job_id h \<noteq> jid \<Longrightarrow>
   insert_hold now jid uid amount d = d\<lparr>db_holds := db_holds d @
      [\<lparr>hold_id = db_next_hold d, hold_job_id = jid, hold_user_id = uid, hold_amount = amount,
        hold_status = HoldStatusOpen, hold_created_at = now, hold_updated_at = now\<rparr>],
      db_next_hold := db_next_hold d + 1\<rparr>"
  by (auto simp: insert_hold_def list_ex_iff)

lemma affected_all: "(\<And>r. r \<in> set rows \<Longrightarrow> P r) \<Longrightarrow> affected P rows = int (length rows)"
  by (induction rows) auto

lemma affected_none: "(\<And>r. r \<in> set rows \<Longrightarrow> \<not> P r) \<Longrightarrow> affected P rows = 0"
  by (simp add: affected_eq_0)

lemma length_item_rows: "length (item_rows now jid ps n) = length ps"
  by (induction ps arbitrary: n) auto

lemma inv_create_job:
  assumes "inv d" and "create_job_with_items_and_hold D now params d = Inr (r, d')"
    and "decimal_ok D" and "0 \<le> cj_estimated_cost params"
  shows "inv d'"
  using assms(2)
proof (cases rule: create_jobD)
  case (reused j)
  with assms(1) show ?thesis by simp
next
  case (created balance)
  let ?n = "db_next_job d"
  let ?e = "quantize_money D (cj_estimated_cost params)"
  let ?j = "new_job_row D now params ?e ?n"
  let ?rows = "item_rows now ?n (cj_items params) (db_next_item d)"
  let ?h = "\<lparr>hold_id = db_next_hold d, hold_job_id = ?n, hold_user_id = cj_user_id params, hold_amount = ?e,
        hold_status = HoldStatusOpen, hold_created_at = now, hold_updated_at = now\<rparr>"
  note v = invD[OF assms(1)]
  have fresh: "?n \<notin> job_ids d" using v(1) by (auto simp: schema_ok_def job_ids_def)
  have no_item: "it_job_id i \<noteq> ?n" if "i \<in> set (db_items d)" for i
    using that fresh v(1) by (auto simp: schema_ok_def)
  have no_hold: "hold_job_id h \<noteq> ?n" if "h \<in> set (db_holds d)" for h
    using that fresh v(1) by (auto simp: schema_ok_def)
  have old: "job_id j \<noteq> ?n" if "j \<in> set (db_jobs d)" for j
    using that fresh by (metis image_eqI job_ids_def set_map)
  define d1 where "d1 = d\<lparr>db_jobs := db_jobs d @ [?j], db_next_job := ?n + 1,
      db_items := db_items d @ ?rows, db_next_item := db_next_item d + int (length (cj_items params))\<rparr>"
  have d': "d' = d1\<lparr>db_holds := db_holds d @ [?h], db_next_hold := db_next_hold d + 1\<rparr>"
    unfolding created(7) created(6) d1_def[symmetric]
    using no_hold by (subst insert_hold_new) (simp_all add: d1_def)
  have tabs: "db_jobs d' = db_jobs d @ [?j]" "db_items d' = db_items d @ ?rows" "db_holds d' = db_holds d @ [?h]"
    "db_next_job d' = ?n + 1" "db_next_item d' = db_next_item d + int (length (cj_items params))"
    by (simp_all add: d' d1_def)
  note vp = validate_create_job_paramsD[OF created(2)]
  have ids: "job_ids d' = insert ?n (job_ids d)" by (auto simp: job_ids_def tabs)
  have row_ids: "set (map it_id ?rows) = {db_next_item d ..< db_next_item d + int (length (cj_items params))}"
    unfolding item_rows_ids by (rule set_from)
  show ?thesis
  proof (rule invI)
    have "distinct (map it_id (db_items d @ ?rows))"
      using schema_distinct(2)[OF v(1)] v(1) item_rows_ids distinct_from row_ids
      by (auto simp: schema_ok_def distinct_append)
    moreover have "distinct (map (\<lambda>i. (it_job_id i, it_seq i)) (db_items d @ ?rows))"
    proof -
      have "map (\<lambda>i. (it_job_id i, it_seq i)) ?rows = map (\<lambda>s. (?n, s)) (map it_seq ?rows)"
        using item_rows_fields by auto
      then have "distinct (map (\<lambda>i. (it_job_id i, it_seq i)) ?rows)"
        unfolding item_rows_seq vp(2) by (simp add: distinct_map inj_on_def)
      then show ?thesis using v(1) no_item item_rows_fields by (auto simp: schema_ok_def)
    qed
    ultimately show "schema_ok d'"
      using v(1) created(5) no_hold old item_rows_fields row_ids
      unfolding schema_ok_def ids tabs by (auto simp: job_ids_def list_ex_iff)
    show "items_ok d'"
      using v(2) item_rows_fields unfolding items_ok_def tabs by (auto simp: item_is_valid_iff)
    have t_old: "tally d' s k = tally d s k" if "k \<noteq> ?n" for s k
      using that item_rows_fields by (auto simp: tally_def tabs affected_eq_0)
    have t_new: "tally d' s ?n = 0" if "s \<noteq> ItemStatusPending" for s
      unfolding tally_def tabs by (intro affected_none) (use that no_item item_rows_fields in auto)
    have c_old: "counters_match d' j" if "j \<in> set (db_jobs d)" for j
    proof -
      have "affected (\<lambda>i. it_job_id i = job_id j) ?rows = 0"
        by (intro affected_none) (use old[OF that] item_rows_fields in fastforce)
      then show ?thesis
        using inv_job(1)[OF assms(1) that] t_old[OF old[OF that]] by (simp add: counters_match_def tabs)
    qed
    have c_new: "counters_match d' ?j"
    proof -
      have "affected (\<lambda>i. it_job_id i = ?n) (db_items d) = 0" using no_item by (intro affected_none) auto
      moreover have "affected (\<lambda>i. it_job_id i = ?n) ?rows = int (length (cj_items params))"
        using affected_all[of ?rows "\<lambda>i. it_job_id i = ?n"] item_rows_fields by (simp add: length_item_rows)
      ultimately show ?thesis by (simp add: counters_match_def tabs t_new)
    qed
    have "life_ok ?j" using vp(1) by (simp add: life_ok_def)
    then show "jobs_ok d'"
      using v(3) c_old c_new unfolding jobs_ok_def tabs by auto
    have "hold_ok ?h" using quantize_nonneg[OF assms(3,4)] by (simp add: hold_ok_def)
    then show "holds_ok d'"
      using v(4) no_hold old unfolding holds_ok_def tabs by auto
  qed
qed

end
