(* ===== verification/Lifecycle.thy ===== *)
theory Lifecycle
  imports Invariants
begin

text \<open>
  The life of the whole database: a step relation with one rule per repository call that the
  service, the workers, the settler and the reaper make, its reachable states, and what holds in
  all of them. A settler first reads a job in status settling and closes it later; the jobs it has
  read are the second component of the state.
\<close>

section \<open>How a job row may change\<close>

fun status_rank :: "job_status \<Rightarrow> nat" where
  "status_rank JobStatusCreated = 0"
| "status_rank JobStatusHolding = 1"
| "status_rank JobStatusRunning = 2"
| "status_rank JobStatusSettling = 3"
| "status_rank _ = 4"

lemma terminal_rank: "job_is_terminal s \<Longrightarrow> status_rank s = 4"
  by (cases s) simp_all

definition job_terms :: "job \<Rightarrow> int \<times> string \<times> int \<times> int \<times> time" where
  "job_terms j = (job_id j, job_uid j, job_user_id j, job_item_count j, job_created_at j)"

definition price_terms :: "job \<Rightarrow> money \<times> money \<times> multiplier \<times> multiplier \<times> string \<times> string \<times> int" where
  "price_terms j = (job_estimated_cost j, job_base_unit_price j, job_group_rate_multiplier j,
     job_account_rate_multiplier j, job_billing_mode j, job_currency j, job_pricing_snapshot_version j)"

definition job_progress :: "job \<Rightarrow> job \<Rightarrow> bool" where
  "job_progress j j' \<longleftrightarrow>
     job_terms j' = job_terms j \<and> price_terms j' = price_terms j
     \<and> status_rank (job_status j) \<le> status_rank (job_status j')
     \<and> (job_is_terminal (job_status j) \<longrightarrow> job_status j' = job_status j)
     \<and> (job_status j = JobStatusSettling \<longrightarrow> job_status j' = JobStatusSettling \<or> job_settled_at j' \<noteq> None)
     \<and> (job_settled_at j \<noteq> None \<longrightarrow> job_settled_at j' = job_settled_at j \<and> job_actual_cost j' = job_actual_cost j)"

lemma job_progress_refl [simp]: "job_progress j j"
  by (simp add: job_progress_def)

lemma job_progress_trans:
  assumes "job_progress a b" and "job_progress b c"
  shows "job_progress a c"
proof -
  have "job_is_terminal (job_status a) \<longrightarrow> job_status c = job_status a"
    using assms by (metis job_progress_def)
  moreover have "job_status a = JobStatusSettling \<longrightarrow> job_status c = JobStatusSettling \<or> job_settled_at c \<noteq> None"
    using assms by (metis job_progress_def)
  moreover have "job_settled_at a \<noteq> None \<longrightarrow> job_settled_at c = job_settled_at a \<and> job_actual_cost c = job_actual_cost a"
    using assms by (metis job_progress_def)
  ultimately show ?thesis using assms by (auto simp: job_progress_def)
qed

text \<open>The updates that keep status, settlement and terms.\<close>

lemma job_progress_same:
  "job_terms j' = job_terms j \<Longrightarrow> price_terms j' = price_terms j \<Longrightarrow> job_status j' = job_status j \<Longrightarrow>
   job_settled_at j' = job_settled_at j \<Longrightarrow> job_actual_cost j' = job_actual_cost j \<Longrightarrow> job_progress j j'"
  by (simp add: job_progress_def)

definition evolves :: "db \<Rightarrow> db \<Rightarrow> bool" where
  "evolves d d' \<longleftrightarrow> (\<forall>j \<in> set (db_jobs d). \<exists>j' \<in> set (db_jobs d'). job_progress j j')"

lemma evolvesD:
  assumes "evolves d d'" and "j \<in> set (db_jobs d)"
  obtains j' where "j' \<in> set (db_jobs d')" and "job_progress j j'"
  using assms by (auto simp: evolves_def)

lemma evolves_same_jobs: "db_jobs d' = db_jobs d \<Longrightarrow> evolves d d'"
  by (auto simp: evolves_def intro: job_progress_refl)

lemma evolves_refl [simp]: "evolves d d"
  by (rule evolves_same_jobs) simp

lemma evolves_trans: "evolves a b \<Longrightarrow> evolves b c \<Longrightarrow> evolves a c"
  unfolding evolves_def by (meson job_progress_trans)

lemma evolves_update_jobs:
  assumes "\<And>j. j \<in> set (db_jobs d) \<Longrightarrow> P j \<Longrightarrow> job_progress j (f j)"
  shows "evolves d (update_jobs P f d)"
proof -
  have "\<exists>j' \<in> set (upd P f (db_jobs d)). job_progress j j'" if "j \<in> set (db_jobs d)" for j
    using that assms[of j] unfolding bex_upd by (intro bexI[of _ j]) auto
  then show ?thesis by (simp add: evolves_def)
qed

text \<open>Rules that follow the shape of an operation, from the last update to the first.\<close>

lemma evolves_jobs:
  "evolves d d1 \<Longrightarrow> (\<And>j. P j \<Longrightarrow> job_progress j (f j)) \<Longrightarrow> evolves d (update_jobs P f d1)"
  by (rule evolves_trans, assumption) (rule evolves_update_jobs)

lemma evolves_frame: "evolves d d1 \<Longrightarrow> db_jobs d2 = db_jobs d1 \<Longrightarrow> evolves d d2"
  by (simp add: evolves_def)

lemma evolves_items: "evolves d d1 \<Longrightarrow> evolves d (update_items Q g d1)"
  by (erule evolves_frame) simp

lemma evolves_holds: "evolves d d1 \<Longrightarrow> evolves d (update_holds R k d1)"
  by (erule evolves_frame) simp

lemma insert_hold_frame [simp]:
  "db_jobs (insert_hold now jid uid a d) = db_jobs d" "db_items (insert_hold now jid uid a d) = db_items d"
  "db_users (insert_hold now jid uid a d) = db_users d"
  by (simp_all add: insert_hold_def)

lemmas evolves_rules = evolves_jobs evolves_items evolves_holds evolves_refl job_progress_same
lemmas terms_defs = job_terms_def price_terms_def

section \<open>Every operation is progress\<close>

lemma evolves_update_job_status:
  assumes "update_job_status now jid a b d = Inr ((), d')"
    and "(a, b) \<in> {(JobStatusCreated, JobStatusHolding), (JobStatusHolding, JobStatusRunning),
                    (JobStatusCreated, JobStatusFailed), (JobStatusHolding, JobStatusFailed)}"
  shows "evolves d d'"
  using assms
  by (auto simp: update_job_status_def Let_def job_progress_def terms_defs intro!: evolves_update_jobs split: if_splits)

lemma evolves_claim_next_item: "claim_next_item t locked params d = Inr (i, d') \<Longrightarrow> evolves d d'"
  by (erule claim_next_itemD) (simp add: evolves_rules)

lemma evolves_renew_item_lease: "renew_item_lease now iid w l d = Inr ((), d') \<Longrightarrow> evolves d d'"
  by (auto simp: renew_item_lease_def intro!: evolves_rules split: if_splits)

lemma evolves_complete_item_success:
  assumes "complete_item_success now params d = Inr ((), d')"
  shows "evolves d d'"
proof -
  from assms obtain jid t n d3 where "db_jobs d3 = db_jobs d"
    and d': "d' = update_jobs (\<lambda>j. job_id j = jid) (\<lambda>j. j\<lparr>job_success_count := job_success_count j + 1,
        job_started_at := t j, job_heartbeat_at := n, job_updated_at := now\<rparr>) d3"
    unfolding complete_item_success_def Let_def
    by (auto split: if_splits option.splits sum.splits dest!: insert_images_frame)
  then have "evolves d d3" by (simp add: evolves_same_jobs)
  then show ?thesis unfolding d' by (auto intro!: evolves_rules simp: terms_defs)
qed

lemma evolves_complete_item_failure: "complete_item_failure now params d = Inr ((), d') \<Longrightarrow> evolves d d'"
  by (auto simp: complete_item_failure_def Let_def terms_defs split: if_splits option.splits intro!: evolves_rules)

lemma evolves_request_job_stop: "request_job_stop now jid d = Inr (n, d') \<Longrightarrow> evolves d d'"
  by (auto simp: request_job_stop_def Let_def terms_defs split: if_splits intro!: evolves_rules)

lemma evolves_retry_item:
  assumes "inv d" and "retry_item D now params d = Inr (it, d')"
  shows "evolves d d'"
proof -
  have adj: "job_progress j (retry_count_adjust s (j\<lparr>job_updated_at := now, job_heartbeat_at := Some now\<rparr>))" for j s
    by (cases s) (simp_all add: job_progress_same terms_defs retry_count_adjust_def)
  show ?thesis
    using assms by (rule retry_itemD) (auto intro!: evolves_rules evolves_frame[OF _ insert_hold_frame(1)] adj)
qed

lemma settling_progress:
  assumes "job_status j \<in> {JobStatusCreated, JobStatusHolding, JobStatusRunning}" and "job_settled_at j = None"
  shows "job_progress j (j\<lparr>job_status := JobStatusSettling, job_finished_at := t, job_updated_at := now\<rparr>)"
  using assms by (elim insertE) (simp_all add: job_progress_def terms_defs)

definition timed :: "db \<Rightarrow> bool" where
  "timed d \<longleftrightarrow> (\<forall>j \<in> set (db_jobs d). job_settled_at j \<noteq> None \<longrightarrow> job_finished_at j \<noteq> None)"

lemma inv_timed: "inv d \<Longrightarrow> timed d"
  unfolding timed_def using inv_job(2) unfolding life_ok_def by blast

lemma timed_update_jobs:
  assumes "timed d" and "\<And>j. job_settled_at (f j) = job_settled_at j" "\<And>j. job_finished_at (f j) = job_finished_at j"
  shows "timed (update_jobs P f d)"
  using assms unfolding timed_def update_fields ball_upd by simp

lemma timed_update_items: "timed d \<Longrightarrow> timed (update_items Q g d)"
  by (simp add: timed_def)

lemma evolves_to_settling:
  assumes "timed d" and "\<And>j. P j \<Longrightarrow> finalize_guard j"
  shows "evolves d (update_jobs P (\<lambda>j. j\<lparr>job_status := JobStatusSettling, job_finished_at := t j, job_updated_at := now\<rparr>) d)"
proof (rule evolves_update_jobs)
  fix j
  assume j: "j \<in> set (db_jobs d)" "P j"
  then have "job_status j \<in> {JobStatusCreated, JobStatusHolding, JobStatusRunning}" and "job_settled_at j = None"
    using assms by (auto simp: finalize_guard_status timed_def)
  then show "job_progress j (j\<lparr>job_status := JobStatusSettling, job_finished_at := t j, job_updated_at := now\<rparr>)"
    by (intro settling_progress)
qed

lemma evolves_finalize_job: "inv d \<Longrightarrow> finalize_job now params d = Inr (won, d') \<Longrightarrow> evolves d d'"
  by (auto simp: finalize_job_def Let_def intro!: evolves_to_settling inv_timed split: if_splits)

lemma evolves_small:
  "evolves d (touch_job_heartbeat now ids d)" "evolves d (clear_job_idempotency_key now jid d)"
  "evolves d (release_hold now jid d)" "evolves d (release_holds_for_jobs now ids d)"
  "soft_delete_job now uid u d = Inr ((), d') \<Longrightarrow> evolves d d'"
  "apply_item_billing D now iid cost mode tier d = Inr ((), d') \<Longrightarrow> evolves d d'"
  by (auto simp: touch_job_heartbeat_def clear_job_idempotency_key_def release_hold_def release_holds_for_jobs_def
      soft_delete_job_def apply_item_billing_def decrement_hold_def Let_def terms_defs
      intro!: evolves_rules split: if_splits option.splits)

lemma evolves_reap_dead_pending_items:
  assumes "inv d"
  shows "evolves d (reap_dead_pending_items now locked limit d)"
proof -
  define P :: "job \<Rightarrow> bool" where "P = (\<lambda>j. affected (\<lambda>i. it_id i \<in> set (select_ids locked limit it_id dead_pending (db_items d))
      \<and> it_job_id i = job_id j) (db_items d) > 0)"
  define n where "n = (\<lambda>jid. affected (\<lambda>i. it_id i \<in> set (select_ids locked limit it_id dead_pending (db_items d))
      \<and> it_job_id i = jid) (db_items d))"
  define d1 where "d1 = update_jobs P (\<lambda>j. j\<lparr>job_fail_count := job_fail_count j + n (job_id j), job_updated_at := now\<rparr>)
      (update_items (\<lambda>i. it_id i \<in> set (select_ids locked limit it_id dead_pending (db_items d))) (sweep_item now) d)"
  have 1: "evolves d d1" by (auto simp: d1_def terms_defs intro!: evolves_rules)
  have "timed d1" unfolding d1_def using inv_timed[OF assms] by (intro timed_update_jobs timed_update_items) simp_all
  then have "evolves d1 (update_jobs (\<lambda>j. P j \<and> finalize_guard j)
      (\<lambda>j. j\<lparr>job_status := JobStatusSettling,
             job_finished_at := (case job_finished_at j of None \<Rightarrow> Some now | Some t \<Rightarrow> Some t),
             job_updated_at := now\<rparr>) d1)"
    by (rule evolves_to_settling) simp
  with 1 show ?thesis
    unfolding reap_dead_pending_items_def Let_def P_def n_def d1_def by (rule evolves_trans)
qed

lemma evolves_stop_unfinished_items: "evolves d (stop_unfinished_items now ids d)"
  by (auto simp: stop_unfinished_items_def Let_def terms_defs intro!: evolves_rules)

lemma evolves_reap_stale_job:
  assumes "inv d" and "\<And>j. j \<in> set (db_jobs d) \<Longrightarrow> P j \<Longrightarrow> stale_job now stale j"
  shows "evolves d (update_jobs P (reap_stale_job now) d)"
proof (rule evolves_update_jobs)
  fix j
  assume j: "j \<in> set (db_jobs d)" "P j"
  then have s: "job_status j \<in> {JobStatusCreated, JobStatusHolding, JobStatusRunning}"
    using assms(2) by (auto simp: stale_job_def)
  note n = life_active(1)[OF inv_job(2)[OF assms(1) j(1)] s]
  show "job_progress j (reap_stale_job now j)"
    using s n by (elim insertE) (simp_all add: job_progress_def terms_defs reap_stale_job_def)
qed

lemma evolves_close_stuck:
  assumes "\<And>j. j \<in> set (db_jobs d) \<Longrightarrow> P j \<Longrightarrow> stuck_settling now stale j"
  shows "evolves d (update_jobs P (close_stuck_job now d) d)"
  using assms
  by (auto simp: job_progress_def terms_defs close_stuck_job_def stuck_settling_def settled_status_sql_eq
      terminal_rank terminal_job_status_terminal intro!: evolves_update_jobs split: option.splits)

lemma evolves_reap_stale_jobs:
  assumes "inv d" and "reap_stale_jobs now li lj stale limit d = (ids, d')"
  shows "evolves d d'"
  using assms(2)
proof (rule reap_stale_jobs_parts)
  fix lim st d1 d2 d3 d4 s u
  assume d1: "d1 = reap_dead_pending_items now li lim d"
    and s: "s = select_ids lj lim job_id (stale_job now st) (db_jobs d1)"
    and d2: "d2 = update_jobs (\<lambda>j. job_id j \<in> set s) (reap_stale_job now) d1"
    and d3: "d3 = (if s = [] then d2 else release_holds_for_jobs now s (stop_unfinished_items now s d2))"
    and u: "u = select_ids lj lim job_id (stuck_settling now stale_settling_after) (db_jobs d3)"
    and d4: "d4 = update_jobs (\<lambda>j. job_id j \<in> set u) (close_stuck_job now d3) d3"
    and d': "d' = (if u = [] then d4 else release_holds_for_jobs now u d4)"
  have 1: "evolves d d1" unfolding d1 by (rule evolves_reap_dead_pending_items[OF assms(1)])
  have i1: "inv d1" unfolding d1 using assms(1) by (rule inv_reap_dead_pending_items)
  have st: "stale_job now st j" if "j \<in> set (db_jobs d1)" "job_id j \<in> set s" for j
    using select_ids_row[OF schema_distinct(1)[OF inv_schema[OF i1]] that(1)] that(2) by (simp add: s)
  have 2: "evolves d1 d2" unfolding d2 using i1 st by (rule evolves_reap_stale_job)
  have i2: "inv d2" unfolding d2 using i1 st by (rule inv_reap_stale_job)
  have 3: "evolves d2 d3"
    using evolves_trans[OF evolves_stop_unfinished_items evolves_small(4)] by (simp add: d3)
  have i3: "inv d3" using i2 by (simp add: d3 inv_release_holds_for_jobs inv_stop_unfinished_items)
  have "stuck_settling now stale_settling_after j" if "j \<in> set (db_jobs d3)" "job_id j \<in> set u" for j
    using select_ids_row[OF schema_distinct(1)[OF inv_schema[OF i3]] that(1)] that(2) by (simp add: u)
  then have 4: "evolves d3 d4" unfolding d4 by (rule evolves_close_stuck)
  have 5: "evolves d4 d'" by (simp add: d' evolves_small)
  show ?thesis using 1 2 3 4 5 by (meson evolves_trans)
qed

lemma evolves_settle_job:
  assumes "settle_job D now params d = Inr ((), d')" and "settles d params"
  shows "evolves d d'"
proof -
  let ?t = "if sj_settled_at params = zero_time then now else sj_settled_at params"
  from assms(1) have ter: "job_is_terminal (sj_status params)"
    and d': "d' = release_hold now (sj_job_id params) (update_jobs (settle_guard params) (settle_row D now ?t params) d)"
    by (auto simp: settle_job_def Let_def split: if_splits)
  have "evolves d (update_jobs (settle_guard params) (settle_row D now ?t params) d)"
    using ter assms(2)
    by (auto simp: job_progress_def terms_defs settle_row_def settle_guard_def settles_def terminal_rank
        intro!: evolves_update_jobs)
  then show ?thesis unfolding d' using evolves_small(3) by (rule evolves_trans)
qed

lemma evolves_create_job:
  assumes "create_job_with_items_and_hold D now params d = Inr (r, d')"
  shows "evolves d d'"
  using assms
proof (cases rule: create_jobD)
  case (reused j)
  then show ?thesis by simp
next
  case (created balance)
  then show ?thesis by (auto simp: evolves_def intro: job_progress_refl)
qed

section \<open>The step relation\<close>

text \<open>
  One rule per call that changes the database. \<open>step_status\<close> covers the status changes the service
  asks for: start (created, holding, running) and abandon. The price estimates handed to the
  repository are not negative. \<open>step_outside\<close> is the rest of the platform: users are charged and
  topped up, and the gateway writes its usage log.
\<close>

type_synonym sys = "db \<times> int set"

inductive step :: "decimal_lib \<Rightarrow> sys \<Rightarrow> sys \<Rightarrow> bool" for D where
  step_create: "create_job_with_items_and_hold D now p d = Inr (r, d') \<Longrightarrow> 0 \<le> cj_estimated_cost p \<Longrightarrow> step D (d, seen) (d', seen)"
| step_status: "update_job_status now jid a b d = Inr ((), d') \<Longrightarrow>
    (a, b) \<in> {(JobStatusCreated, JobStatusHolding), (JobStatusHolding, JobStatusRunning),
              (JobStatusCreated, JobStatusFailed), (JobStatusHolding, JobStatusFailed)} \<Longrightarrow> step D (d, seen) (d', seen)"
| step_claim: "claim_next_item now locked cp d = Inr (i, d') \<Longrightarrow> step D (d, seen) (d', seen)"
| step_renew: "renew_item_lease now iid w l d = Inr ((), d') \<Longrightarrow> step D (d, seen) (d', seen)"
| step_success: "complete_item_success now sp d = Inr ((), d') \<Longrightarrow> step D (d, seen) (d', seen)"
| step_failure: "complete_item_failure now fp d = Inr ((), d') \<Longrightarrow> step D (d, seen) (d', seen)"
| step_stop: "request_job_stop now jid d = Inr (n, d') \<Longrightarrow> step D (d, seen) (d', seen)"
| step_retry: "retry_item D now rp d = Inr (it, d') \<Longrightarrow> 0 \<le> ri_estimated_cost rp \<Longrightarrow> step D (d, seen) (d', seen)"
| step_finalize: "finalize_job now jp d = Inr (won, d') \<Longrightarrow> step D (d, seen) (d', seen)"
| step_heartbeat: "step D (d, seen) (touch_job_heartbeat now ids d, seen)"
| step_reap: "reap_stale_jobs now li lj stale limit d = (ids, d') \<Longrightarrow> step D (d, seen) (d', seen)"
| step_clear_key: "step D (d, seen) (clear_job_idempotency_key now jid d, seen)"
| step_delete: "soft_delete_job now uid u d = Inr ((), d') \<Longrightarrow> step D (d, seen) (d', seen)"
| step_bill: "apply_item_billing D now iid cost mode tier d = Inr ((), d') \<Longrightarrow> step D (d, seen) (d', seen)"
| step_read: "j \<in> set (db_jobs d) \<Longrightarrow> job_status j = JobStatusSettling \<Longrightarrow> step D (d, seen) (d, insert (job_id j) seen)"
| step_settle: "settle_job D now ep d = Inr ((), d') \<Longrightarrow> sj_job_id ep \<in> seen \<Longrightarrow> step D (d, seen) (d', seen)"
| step_release: "step D (d, seen) (release_hold now jid d, seen)"
| step_alert: "insert_billing_alert D now al d = Inr (row, d') \<Longrightarrow> step D (d, seen) (d', seen)"
| step_ask_quota: "create_quota_request now uid note d = Inr (q, d') \<Longrightarrow> step D (d, seen) (d', seen)"
| step_handle_quota: "handle_quota_request D now qid byy st note am d = Inr (q, d') \<Longrightarrow> step D (d, seen) (d', seen)"
| step_reopen_quota: "reopen_quota_request qid d = Inr ((), d') \<Longrightarrow> step D (d, seen) (d', seen)"
| step_outside: "step D (d, seen) (d\<lparr>db_users := us, db_usage_logs := ls\<rparr>, seen)"

abbreviation steps :: "decimal_lib \<Rightarrow> sys \<Rightarrow> sys \<Rightarrow> bool" where
  "steps D \<equiv> (step D)\<^sup>*\<^sup>*"

text \<open>The empty database with any users, as the migration leaves it.\<close>

definition empty_db :: "user_row list \<Rightarrow> db" where
  "empty_db us = \<lparr>db_jobs = [], db_items = [], db_images = [], db_holds = [], db_alerts = [], db_quota = [],
     db_users = us, db_usage_logs = [], db_next_job = 1, db_next_item = 1, db_next_image = 1, db_next_hold = 1,
     db_next_alert = 1, db_next_quota = 1\<rparr>"

definition reachable :: "decimal_lib \<Rightarrow> sys \<Rightarrow> bool" where
  "reachable D s \<longleftrightarrow> (\<exists>us. steps D (empty_db us, {}) s)"

text \<open>What a settler has read once stays settling until it is settled.\<close>

definition read_ok :: "db \<Rightarrow> int set \<Rightarrow> bool" where
  "read_ok d seen \<longleftrightarrow>
     (\<forall>jid \<in> seen. \<exists>j \<in> set (db_jobs d). job_id j = jid \<and> (job_status j = JobStatusSettling \<or> job_settled_at j \<noteq> None))"

lemma read_ok_evolves:
  assumes "read_ok d seen" and "evolves d d'"
  shows "read_ok d' seen"
  unfolding read_ok_def
proof
  fix jid
  assume "jid \<in> seen"
  with assms(1) obtain j where j: "j \<in> set (db_jobs d)" "job_id j = jid"
    "job_status j = JobStatusSettling \<or> job_settled_at j \<noteq> None"
    by (auto simp: read_ok_def)
  obtain j' where j': "j' \<in> set (db_jobs d')" "job_progress j j'" using assms(2) j(1) by (rule evolvesD)
  then have "job_id j' = jid" and "job_status j' = JobStatusSettling \<or> job_settled_at j' \<noteq> None"
    using j(2,3) by (auto simp: job_progress_def terms_defs)
  with j'(1) show "\<exists>j \<in> set (db_jobs d'). job_id j = jid \<and> (job_status j = JobStatusSettling \<or> job_settled_at j \<noteq> None)"
    by blast
qed

lemma read_ok_settles:
  assumes "inv d" and "read_ok d seen" and "sj_job_id ep \<in> seen"
  shows "settles d ep"
  using assms same_job[OF inv_schema[OF assms(1)]] unfolding settles_def read_ok_def by metis

lemma inv_empty_db: "inv (empty_db us)"
  by (simp add: inv_def schema_ok_def items_ok_def jobs_ok_def holds_ok_def empty_db_def)

lemma inv_outside: "inv d \<Longrightarrow> inv (d\<lparr>db_users := us, db_usage_logs := ls\<rparr>)"
  by (subst inv_cong[of _ d]) simp_all

lemmas inv_rules = inv_create_job inv_update_job_status inv_claim_next_item inv_renew_item_lease
  inv_complete_item_success inv_complete_item_failure inv_request_job_stop inv_retry_item inv_finalize_job
  inv_touch_job_heartbeat inv_reap_stale_jobs inv_clear_job_idempotency_key inv_soft_delete_job
  inv_apply_item_billing inv_settle_job inv_release_hold inv_insert_billing_alert inv_create_quota_request
  inv_handle_quota_request inv_reopen_quota_request inv_outside

lemma evolves_other_tables:
  "insert_billing_alert D now al d = Inr (row, d') \<Longrightarrow> evolves d d'"
  "create_quota_request now uid note d = Inr (q, d') \<Longrightarrow> evolves d d'"
  "handle_quota_request D now qid byy st note am d = Inr (q', d') \<Longrightarrow> evolves d d'"
  "reopen_quota_request qid d = Inr ((), d') \<Longrightarrow> evolves d d'"
  "evolves d (d\<lparr>db_users := us, db_usage_logs := ls\<rparr>)"
  by (auto simp: insert_billing_alert_def create_quota_request_def handle_quota_request_def
      reopen_quota_request_def Let_def evolves_same_jobs split: option.splits if_splits)

text \<open>One step keeps the invariant and lets jobs only progress.\<close>

lemma step_ok:
  assumes "step D (d, seen) (d', seen')" and "decimal_ok D" and "inv d" and "read_ok d seen"
  shows "inv d' \<and> evolves d d'"
  using assms(1)
proof (cases rule: step.cases)
  case (step_settle now ep)
  note s = read_ok_settles[OF assms(3,4) step_settle(3)]
  show ?thesis using inv_settle_job[OF assms(3) step_settle(2) s] evolves_settle_job[OF step_settle(2) s] ..
next
  case (step_reap now li lj stale limit ids)
  then show ?thesis using inv_reap_stale_jobs[OF assms(3)] evolves_reap_stale_jobs[OF assms(3)] by blast
next
  case (step_status now jid a b)
  then show ?thesis using inv_update_job_status[OF assms(3)] evolves_update_job_status by blast
next
  case (step_finalize now jp won)
  then show ?thesis using inv_finalize_job[OF assms(3)] evolves_finalize_job[OF assms(3)] by blast
next
  case (step_retry now rp it)
  then show ?thesis using inv_retry_item[OF assms(3) _ assms(2)] evolves_retry_item[OF assms(3)] by blast
qed (use assms(2,3) in \<open>auto intro: inv_rules evolves_claim_next_item evolves_renew_item_lease
    evolves_complete_item_success evolves_complete_item_failure evolves_request_job_stop evolves_small
    evolves_create_job evolves_other_tables\<close>)

lemma step_read_ok:
  assumes "step D (d, seen) (d', seen')" and "read_ok d seen" and "evolves d d'"
  shows "read_ok d' seen'"
proof -
  have r: "read_ok d' seen" using assms(2,3) by (rule read_ok_evolves)
  show ?thesis using assms(1)
  proof (cases rule: step.cases)
    case (step_read j)
    then show ?thesis using assms(2) by (auto simp: read_ok_def)
  qed (use r in auto)
qed

lemma steps_ok:
  assumes "steps D s s'" and "decimal_ok D" and "inv (fst s)" and "read_ok (fst s) (snd s)"
  shows "inv (fst s') \<and> evolves (fst s) (fst s') \<and> read_ok (fst s') (snd s')"
  using assms(1)
proof (induction rule: rtranclp_induct)
  case base
  then show ?case using assms by simp
next
  case (step y z)
  then have st: "step D (fst y, snd y) (fst z, snd z)" by simp
  have i: "inv (fst z) \<and> evolves (fst y) (fst z)" using step_ok[OF st assms(2)] step.IH by blast
  have "read_ok (fst z) (snd z)" using step_read_ok[OF st] step.IH i by blast
  with i step.IH show ?case by (meson evolves_trans)
qed

lemma reachable_ok:
  assumes "reachable D (d, seen)" and "decimal_ok D"
  shows "inv d" and "read_ok d seen"
proof -
  from assms(1) obtain us where s: "steps D (empty_db us, {}) (d, seen)" by (auto simp: reachable_def)
  show "inv d" "read_ok d seen"
    using steps_ok[OF s assms(2)] by (simp_all add: inv_empty_db read_ok_def)
qed

lemma reachable_start: "reachable D (empty_db us, {})"
  by (auto simp: reachable_def)

lemma reachable_step: "reachable D s \<Longrightarrow> step D s s' \<Longrightarrow> reachable D s'"
  unfolding reachable_def by (meson rtranclp.rtrancl_into_rtrancl)

end
