(* ===== verification/Scenario.thy ===== *)
theory Scenario
  imports Lifecycle Billing_Id
begin

text \<open>
  A concrete run of the life cycle, evaluated in the kernel: a batch of two images is submitted,
  started, one image succeeds, the other fails for good, the batch is finalised, billed and
  settled. The states are the inputs of the witnesses.
\<close>

definition now0 :: time where "now0 = 1000000000000"

definition demo_user :: user_row where
  "demo_user = \<lparr>usr_id = 7, usr_balance = 100, usr_deleted_at = None\<rparr>"

definition demo_item :: "int \<Rightarrow> create_job_item_params" where
  "demo_item n = \<lparr>cji_seq = n, cji_asset_id = Some 5, cji_variant_id = None, cji_prompt_id = None,
     cji_prompt_text = ''a red mug'', cji_max_attempts = 2\<rparr>"

definition demo_pricing :: pricing_snapshot where
  "demo_pricing = \<lparr>ps_base_unit_price = 3, ps_group_rate_multiplier = 1, ps_account_rate_multiplier = 1,
     ps_billing_mode = ''image'', ps_pricing_tier = ''2K'', ps_price_source = ''group'', ps_version = 1\<rparr>"

definition demo_params :: create_job_params where
  "demo_params = \<lparr>cj_user_id = 7, cj_api_key_id = 3, cj_origin = OriginWeb, cj_job_uid = sample_uid,
     cj_name = ''mugs'', cj_ratio = ''1:1'', cj_model = ''gpt-image-2'', cj_keep_transparency = False,
     cj_idempotency_key = Some ''k1'', cj_callback_url = None, cj_estimated_cost = 6,
     cj_pricing = demo_pricing, cj_items = [demo_item 1, demo_item 2]\<rparr>"

text \<open>The rows of the run, as functions of the columns that change.\<close>

definition demo_job :: "job_status \<Rightarrow> int \<Rightarrow> int \<Rightarrow> time option \<Rightarrow> time option \<Rightarrow> money option \<Rightarrow> time option \<Rightarrow> job" where
  "demo_job st succ fails started fin actual settled =
     \<lparr>job_id = 1, job_uid = sample_uid, job_user_id = 7, job_api_key_id = 3, job_origin = OriginWeb,
      job_name = ''mugs'', job_status = st, job_ratio = ''1:1'', job_model = ''gpt-image-2'',
      job_keep_transparency = False, job_item_count = 2, job_success_count = succ, job_fail_count = fails,
      job_cancelled_count = 0, job_idempotency_key = Some ''k1'', job_callback_url = None,
      job_currency = ''USD'', job_estimated_cost = 6, job_actual_cost = actual, job_base_unit_price = 3,
      job_group_rate_multiplier = 1, job_account_rate_multiplier = 1, job_billing_mode = ''image'',
      job_pricing_tier = ''2K'', job_price_source = ''group'', job_pricing_snapshot_version = 1,
      job_revision = 0, job_last_error_code = None, job_last_error_message = None,
      job_heartbeat_at = Some now0, job_cancel_requested_at = None, job_expires_at = None,
      job_created_at = now0, job_updated_at = now0, job_started_at = started, job_finished_at = fin,
      job_settled_at = settled, job_user_deleted_at = None\<rparr>"

definition demo_row ::
  "int \<Rightarrow> item_status \<Rightarrow> int \<Rightarrow> string option \<Rightarrow> time option \<Rightarrow> time option \<Rightarrow> time option \<Rightarrow> job_item" where
  "demo_row n st attempts worker lease started fin =
     \<lparr>it_id = n, it_job_id = 1, it_seq = n, it_asset_id = Some 5, it_variant_id = None, it_prompt_id = None,
      it_prompt_text = ''a red mug'', it_status = st, it_attempt_count = attempts, it_max_attempts = 2,
      it_last_error_code = None, it_last_error_message = None, it_billed_cost = None,
      it_billing_request_id = None, it_billing_mode = None, it_billing_tier = None, it_worker_id = worker,
      it_lease_expires_at = lease, it_available_at = now0, it_created_at = now0, it_updated_at = now0,
      it_started_at = started, it_finished_at = fin\<rparr>"

definition demo_hold :: "money \<Rightarrow> hold_status \<Rightarrow> hold" where
  "demo_hold amount st = \<lparr>hold_id = 1, hold_job_id = 1, hold_user_id = 7, hold_amount = amount, hold_status = st,
     hold_created_at = now0, hold_updated_at = now0\<rparr>"

definition demo_db :: "job \<Rightarrow> job_item \<Rightarrow> job_item \<Rightarrow> image list \<Rightarrow> hold \<Rightarrow> db" where
  "demo_db j a b imgs h = \<lparr>db_jobs = [j], db_items = [a, b], db_images = imgs, db_holds = [h], db_alerts = [],
     db_quota = [], db_users = [demo_user], db_usage_logs = [], db_next_job = 2, db_next_item = 3,
     db_next_image = int (length imgs) + 1, db_next_hold = 2, db_next_alert = 1, db_next_quota = 1\<rparr>"

definition pending_row :: "int \<Rightarrow> job_item" where
  "pending_row n = demo_row n ItemStatusPending 0 None None None None"
definition running_row :: "int \<Rightarrow> job_item" where
  "running_row n = demo_row n ItemStatusRunning 1 (Some ''w1'') (Some (now0 + 180000000000)) (Some now0) None"

definition demo_start :: db where "demo_start = empty_db [demo_user]"

definition demo_created :: db where
  "demo_created = demo_db (demo_job JobStatusCreated 0 0 None None None None)
     (pending_row 1) (pending_row 2) [] (demo_hold 6 HoldStatusOpen)"

definition demo_holding :: db where
  "demo_holding = demo_db (demo_job JobStatusHolding 0 0 None None None None)
     (pending_row 1) (pending_row 2) [] (demo_hold 6 HoldStatusOpen)"

definition demo_running :: db where
  "demo_running = demo_db (demo_job JobStatusRunning 0 0 (Some now0) None None None)
     (pending_row 1) (pending_row 2) [] (demo_hold 6 HoldStatusOpen)"

definition demo_claim :: claim_item_params where
  "demo_claim = \<lparr>cl_worker_id = ''w1'', cl_lease_for = 180000000000, cl_now = zero_time\<rparr>"

definition demo_claimed :: db where
  "demo_claimed = demo_db (demo_job JobStatusRunning 0 0 (Some now0) None None None)
     (running_row 1) (pending_row 2) [] (demo_hold 6 HoldStatusOpen)"

definition demo_image :: new_image where
  "demo_image = \<lparr>ni_uid = ''img1'', ni_index = 1, ni_object_key = ''k'', ni_content_type = ''image/png'',
     ni_byte_size = 10, ni_width = None, ni_height = None, ni_billing_tier = None\<rparr>"

definition demo_success :: complete_item_success_params where
  "demo_success = \<lparr>cs_item_id = 1, cs_worker_id = ''w1'', cs_attempt = 1, cs_billing_request_id = ''b1'',
     cs_images = [demo_image], cs_finished_at = zero_time\<rparr>"

definition demo_images :: "image list" where
  "demo_images = [new_image_row now0 1 demo_success demo_image 1]"

definition done_row :: job_item where
  "done_row = (demo_row 1 ItemStatusSucceeded 1 (Some ''w1'') None (Some now0) (Some now0))\<lparr>it_billing_request_id := Some ''b1''\<rparr>"

definition demo_one_done :: db where
  "demo_one_done = demo_db (demo_job JobStatusRunning 1 0 (Some now0) None None None)
     done_row (pending_row 2) demo_images (demo_hold 6 HoldStatusOpen)"

definition demo_claimed2 :: db where
  "demo_claimed2 = demo_db (demo_job JobStatusRunning 1 0 (Some now0) None None None)
     done_row (running_row 2) demo_images (demo_hold 6 HoldStatusOpen)"

definition demo_failure :: complete_item_failure_params where
  "demo_failure = \<lparr>cf_item_id = 2, cf_worker_id = ''w1'', cf_error_code = [], cf_error_message = [],
     cf_terminal = True, cf_retry_after = 0, cf_finished_at = zero_time\<rparr>"

definition failed_row :: job_item where
  "failed_row = demo_row 2 ItemStatusFailed 1 None None (Some now0) (Some now0)"

definition demo_all_done :: db where
  "demo_all_done = demo_db (demo_job JobStatusRunning 1 1 (Some now0) None None None)
     done_row failed_row demo_images (demo_hold 6 HoldStatusOpen)"

definition demo_finalize :: finalize_job_params where
  "demo_finalize = \<lparr>fj_job_id = 1, fj_status = JobStatusSettling, fj_finished_at = zero_time\<rparr>"

definition demo_settling :: db where
  "demo_settling = demo_db (demo_job JobStatusSettling 1 1 (Some now0) (Some now0) None None)
     done_row failed_row demo_images (demo_hold 6 HoldStatusOpen)"

definition billed_row :: job_item where
  "billed_row = done_row\<lparr>it_billed_cost := Some 3, it_billing_mode := Some ''image'', it_billing_tier := Some ''2K''\<rparr>"

definition demo_billed :: db where
  "demo_billed = demo_db (demo_job JobStatusSettling 1 1 (Some now0) (Some now0) None None)
     billed_row failed_row demo_images (demo_hold 3 HoldStatusOpen)"

definition demo_settle :: settle_job_params where
  "demo_settle = \<lparr>sj_job_id = 1, sj_actual_cost = 3, sj_status = JobStatusPartiallyFailed, sj_settled_at = zero_time\<rparr>"

definition demo_settled :: db where
  "demo_settled = demo_db (demo_job JobStatusPartiallyFailed 1 1 (Some now0) (Some now0) (Some 3) (Some now0))
     billed_row failed_row demo_images (demo_hold 0 HoldStatusReleased)"

lemmas demo_rows = demo_job_def demo_row_def demo_hold_def demo_db_def pending_row_def running_row_def
  done_row_def failed_row_def billed_row_def demo_images_def demo_user_def
lemmas demo_states = demo_start_def demo_created_def demo_holding_def demo_running_def demo_claimed_def
  demo_one_done_def demo_claimed2_def demo_all_done_def demo_settling_def demo_billed_def demo_settled_def

lemma quantize_numeral [simp]: "quantize_money dec_ref (numeral k) = numeral k"
proof -
  have "on_grid money_scale (of_int (numeral k))" by (rule on_grid_of_int)
  then show ?thesis by (simp add: quantize_id[OF dec_ref_ok])
qed

lemma trim_demo [simp]: "trim_space ''k1'' = ''k1''" "trim_space ''w1'' = ''w1''"
  by code_simp+

section \<open>The run\<close>

lemma run_create:
  "create_job_with_items_and_hold dec_ref now0 demo_params demo_start =
     Inr (\<lparr>cr_job = demo_job JobStatusCreated 0 0 None None None None, cr_items = [pending_row 1, pending_row 2],
           cr_reused = False\<rparr>, demo_created)"
  by (simp add: create_job_with_items_and_hold_def validate_create_job_params_def demo_params_def demo_start_def
      empty_db_def demo_user_def lock_user_balance_def demo_item_def trimmed_ptr_def
      find_job_by_idempotency_key_def sum_open_holds_def insert_job_def new_job_row_def demo_pricing_def
      new_item_row_def insert_hold_def list_job_items_def nullable_string_ptr_def currency_usd_def
      demo_created_def demo_rows Let_def)

lemma run_hold:
  "update_job_status now0 1 JobStatusCreated JobStatusHolding demo_created = Inr ((), demo_holding)"
  by (simp add: update_job_status_def update_jobs_def status_simps demo_states demo_rows upd_def)

lemma run_start:
  "update_job_status now0 1 JobStatusHolding JobStatusRunning demo_holding = Inr ((), demo_running)"
  by (simp add: update_job_status_def update_jobs_def status_simps demo_states demo_rows upd_def)

lemmas claim_simps = claim_next_item_def claimable_def claim_item_def update_items_def demo_claim_def seconds_def

lemma run_claim:
  "claim_next_item now0 (\<lambda>i. False) demo_claim demo_running = Inr (running_row 1, demo_claimed)"
  by (simp add: claim_simps demo_states demo_rows upd_def Let_def)

lemma run_success: "complete_item_success now0 demo_success demo_claimed = Inr ((), demo_one_done)"
  by (simp add: complete_item_success_def demo_success_def demo_image_def lease_guard_def succeed_item_def
      update_items_def update_jobs_def insert_image_def image_conflict_def new_image_row_def nullable_string_def
      demo_states demo_rows upd_def Let_def)

lemma run_claim2:
  "claim_next_item now0 (\<lambda>i. False) demo_claim demo_one_done = Inr (running_row 2, demo_claimed2)"
  by (simp add: claim_simps demo_states demo_rows upd_def Let_def)

lemma run_failure: "complete_item_failure now0 demo_failure demo_claimed2 = Inr ((), demo_all_done)"
  by (simp add: complete_item_failure_def demo_failure_def lease_guard_def fail_item_def nullable_string_def
      update_items_def update_jobs_def demo_states demo_rows upd_def Let_def)

lemma run_finalize: "finalize_job now0 demo_finalize demo_all_done = Inr (True, demo_settling)"
  by (simp add: finalize_job_def demo_finalize_def finalize_guard_status counters_full_def
      update_jobs_def demo_states demo_rows upd_def Let_def)

lemma run_bill: "apply_item_billing dec_ref now0 1 3 ''image'' ''2K'' demo_settling = Inr ((), demo_billed)"
  by (simp add: apply_item_billing_def the_item_def bill_item_def decrement_hold_def nullable_string_def
      update_items_def update_holds_def demo_states demo_rows upd_def Let_def)

lemma run_settle: "settle_job dec_ref now0 demo_settle demo_billed = Inr ((), demo_settled)"
  by (simp add: settle_job_def demo_settle_def settle_guard_def settle_row_def settle_source_statuses_def
      allowed_source_statuses_def status_simps release_hold_def close_hold_def
      update_jobs_def update_holds_def demo_states demo_rows upd_def Let_def)

section \<open>Its states are reachable\<close>

lemma reachable_demo_created: "reachable dec_ref (demo_created, {})"
  using reachable_step[OF _ step_create[OF run_create]]
  by (simp add: demo_start_def reachable_start demo_params_def)

lemma reachable_demo_holding: "reachable dec_ref (demo_holding, {})"
  using reachable_step[OF reachable_demo_created step_status[OF run_hold]] by simp

lemma reachable_demo_running: "reachable dec_ref (demo_running, {})"
  using reachable_step[OF reachable_demo_holding step_status[OF run_start]] by simp

lemmas reachable_demo_claimed = reachable_step[OF reachable_demo_running step_claim[OF run_claim]]
lemmas reachable_demo_one_done = reachable_step[OF reachable_demo_claimed step_success[OF run_success]]
lemmas reachable_demo_claimed2 = reachable_step[OF reachable_demo_one_done step_claim[OF run_claim2]]
lemmas reachable_demo_all_done = reachable_step[OF reachable_demo_claimed2 step_failure[OF run_failure]]
lemmas reachable_demo_settling = reachable_step[OF reachable_demo_all_done step_finalize[OF run_finalize]]

lemma reachable_demo_read: "reachable dec_ref (demo_settling, {1})"
  using reachable_step[OF reachable_demo_settling step_read[of "demo_job JobStatusSettling 1 1 (Some now0) (Some now0) None None"]]
  by (simp add: demo_states demo_rows)

lemma steps_demo_settled: "steps dec_ref (demo_settling, {1}) (demo_settled, {1})"
proof -
  have "step dec_ref (demo_settling, {1}) (demo_billed, {1})" by (rule step_bill[OF run_bill])
  moreover have "step dec_ref (demo_billed, {1}) (demo_settled, {1})"
    by (rule step_settle[OF run_settle]) (simp add: demo_settle_def)
  ultimately show ?thesis by (meson converse_rtranclp_into_rtranclp r_into_rtranclp)
qed

lemma reachable_demo_settled: "reachable dec_ref (demo_settled, {1})"
  using reachable_demo_read steps_demo_settled unfolding reachable_def by (meson rtranclp_trans)

end
