(* ===== verification/Job_Guarantees.thy ===== *)
theory Job_Guarantees
  imports Scenario
begin

text \<open>
  What the job tables guarantee in every reachable state and along every run: counters, settlement,
  the finality of settled jobs, retries and the single winner of finalisation.
\<close>

section \<open>Reachable states\<close>

text \<open>C4: In every reachable state the stored counters of a job are exact. Its item count, success,
  fail and cancelled counters equal the number of its items and of its items in the corresponding
  final status, so they never drift however claims, write-backs, stops, retries and reaper sweeps
  interleave.\<close>

theorem reachable_counters_exact:
  assumes "decimal_ok D" and "reachable D (d, seen)" and "j \<in> set (db_jobs d)"
  shows "job_item_count j = affected (\<lambda>i. it_job_id i = job_id j) (db_items d)
    \<and> job_success_count j = affected (\<lambda>i. it_job_id i = job_id j \<and> it_status i = ItemStatusSucceeded) (db_items d)
    \<and> job_fail_count j = affected (\<lambda>i. it_job_id i = job_id j \<and> it_status i = ItemStatusFailed) (db_items d)
    \<and> job_cancelled_count j = affected (\<lambda>i. it_job_id i = job_id j \<and> it_status i = ItemStatusCancelled) (db_items d)"
  using inv_job(1)[OF reachable_ok(1)[OF assms(2,1)] assms(3)]
  by (simp_all add: counters_match_def tally_def)

lemma demo_settled_job: "demo_job JobStatusPartiallyFailed 1 1 (Some now0) (Some now0) (Some 3) (Some now0) \<in> set (db_jobs demo_settled)"
  by (simp add: demo_settled_def demo_db_def)

theorem reachable_counters_exact_witness:
  "job_success_count (demo_job JobStatusPartiallyFailed 1 1 (Some now0) (Some now0) (Some 3) (Some now0)) = 1
   \<and> affected (\<lambda>i. it_job_id i = 1 \<and> it_status i = ItemStatusSucceeded) (db_items demo_settled) = 1"
  using reachable_counters_exact[OF dec_ref_ok reachable_demo_settled demo_settled_job]
  by (simp add: demo_job_def)

text \<open>C3: In every reachable state no hold of any user is negative, every job that is settling or settled
  has no pending or running item left, and every settled job has a terminal status, an actual cost, and
  no money held: its hold is released and zero.\<close>

theorem reachable_settlement_complete:
  assumes "decimal_ok D" and "reachable D (d, seen)"
  shows "(\<forall>h \<in> set (db_holds d). 0 \<le> hold_amount h)
    \<and> (\<forall>j \<in> set (db_jobs d). job_status j = JobStatusSettling \<or> job_settled_at j \<noteq> None \<longrightarrow>
         (\<forall>i \<in> set (db_items d). it_job_id i = job_id j \<longrightarrow> item_is_terminal (it_status i)))
    \<and> (\<forall>j \<in> set (db_jobs d). job_settled_at j \<noteq> None \<longrightarrow> job_is_terminal (job_status j) \<and> job_actual_cost j \<noteq> None
         \<and> (\<forall>h \<in> set (db_holds d). hold_job_id h = job_id j \<longrightarrow> hold_status h = HoldStatusReleased \<and> hold_amount h = 0))"
proof (intro conjI ballI impI)
  note i = reachable_ok(1)[OF assms(2,1)]
  note life = inv_job[OF i, unfolded life_ok_def]
  have h: "holds_ok d" by (rule inv_holds[OF i])
  then show "0 \<le> hold_amount h" if "h \<in> set (db_holds d)" for h
    using that by (simp add: holds_ok_def hold_ok_def)
  fix j assume j: "j \<in> set (db_jobs d)"
  show "item_is_terminal (it_status k)"
    if "job_status j = JobStatusSettling \<or> job_settled_at j \<noteq> None" and "k \<in> set (db_items d)" and "it_job_id k = job_id j" for k
    using that life[OF j] full_no_unfinished[OF inv_items[OF i]] by blast
  assume s: "job_settled_at j \<noteq> None"
  then show "job_is_terminal (job_status j)" and "job_actual_cost j \<noteq> None" using life[OF j] by blast+
  fix h' assume "h' \<in> set (db_holds d)" and "hold_job_id h' = job_id j"
  then show "hold_status h' = HoldStatusReleased" and "hold_amount h' = 0"
    using h s j by (simp_all add: holds_ok_def hold_ok_def)
qed

lemma demo_settled_hold: "demo_hold 0 HoldStatusReleased \<in> set (db_holds demo_settled)"
  by (simp add: demo_settled_def demo_db_def)

theorem reachable_settlement_complete_witness:
  "hold_status (demo_hold 0 HoldStatusReleased) = HoldStatusReleased \<and> hold_amount (demo_hold 0 HoldStatusReleased) = 0"
  using reachable_settlement_complete[OF dec_ref_ok reachable_demo_settled] demo_settled_job demo_settled_hold
  by (auto simp: demo_job_def demo_hold_def)

section \<open>Runs\<close>

text \<open>C6: Along every run a job only moves forward. Its identity, owner and the price terms frozen
  at submission never change, its status rank never decreases, a terminal status is never left, and
  once it is settled neither the settlement time nor the charged amount ever changes again.\<close>

theorem settled_job_is_final:
  assumes "decimal_ok D" and "reachable D (d, seen)" and "steps D (d, seen) (d', seen')" and "j \<in> set (db_jobs d)"
  shows "\<exists>j' \<in> set (db_jobs d'). job_id j' = job_id j \<and> job_user_id j' = job_user_id j
     \<and> price_terms j' = price_terms j
     \<and> status_rank (job_status j) \<le> status_rank (job_status j')
     \<and> (job_is_terminal (job_status j) \<longrightarrow> job_status j' = job_status j)
     \<and> (job_settled_at j \<noteq> None \<longrightarrow> job_settled_at j' = job_settled_at j \<and> job_actual_cost j' = job_actual_cost j)"
proof -
  note r = reachable_ok[OF assms(2,1)]
  have "evolves d d'" using steps_ok[OF assms(3,1)] r by simp
  then obtain j' where "j' \<in> set (db_jobs d')" "job_progress j j'" using assms(4) by (rule evolvesD)
  then show ?thesis by (auto simp: job_progress_def job_terms_def)
qed

theorem settled_job_is_final_witness:
  "\<exists>j' \<in> set (db_jobs demo_settled). job_id j' = 1 \<and> 3 \<le> status_rank (job_status j')"
  using settled_job_is_final[OF dec_ref_ok reachable_demo_read steps_demo_settled,
      of "demo_job JobStatusSettling 1 1 (Some now0) (Some now0) None None"]
  by (auto simp: demo_settling_def demo_db_def demo_job_def)

text \<open>C37: A job is finalised at most once. After a call of FinalizeJob in a reachable state has won, no later
  call of FinalizeJob on the same job wins, whatever repository steps are taken in between, so the
  settlement of a job is handed out once.\<close>

theorem finalize_wins_once:
  assumes "decimal_ok D" and "reachable D (d, seen)"
    and "finalize_job now params d = Inr (True, d1)" and "steps D (d1, seen) (d2, seen2)"
    and "finalize_job now' params' d2 = Inr (won, d3)" and "fj_job_id params' = fj_job_id params"
  shows "\<not> won"
proof
  assume won
  note r = reachable_ok[OF assms(2,1)]
  have s1: "reachable D (d1, seen)" using assms(2) step_finalize[OF assms(3)] by (rule reachable_step)
  note r1 = reachable_ok[OF s1 assms(1)]
  have o: "inv d2" "evolves d1 d2" using steps_ok[OF assms(4,1)] r1 by simp_all
  let ?P = "\<lambda>j. job_id j = fj_job_id params \<and> finalize_guard j"
  have one: "\<exists>j \<in> set (db_jobs d). ?P j"
    and d1: "\<exists>t. db_jobs d1 = upd ?P (\<lambda>j. j\<lparr>job_status := JobStatusSettling, job_finished_at := Some t, job_updated_at := now\<rparr>) (db_jobs d)"
    using assms(3) affected_none[of "db_jobs d" ?P] by (auto simp: finalize_job_def Let_def split: if_splits)
  from one obtain j where j: "j \<in> set (db_jobs d)" "?P j" by blast
  from d1 obtain t where t: "db_jobs d1 = upd ?P (\<lambda>j. j\<lparr>job_status := JobStatusSettling,
      job_finished_at := Some t, job_updated_at := now\<rparr>) (db_jobs d)" by blast
  let ?j = "j\<lparr>job_status := JobStatusSettling, job_finished_at := Some t, job_updated_at := now\<rparr>"
  have "?j \<in> set (db_jobs d1)" unfolding t set_upd using j by (intro image_eqI[of _ _ j]) simp_all
  moreover have "job_id ?j = fj_job_id params" "job_status ?j = JobStatusSettling" using j(2) by simp_all
  ultimately obtain j1 where j1: "j1 \<in> set (db_jobs d1)" "job_id j1 = fj_job_id params"
    "job_status j1 = JobStatusSettling" by blast
  obtain j2 where j2: "j2 \<in> set (db_jobs d2)" "job_progress j1 j2" using o(2) j1(1) by (rule evolvesD)
  then have id2: "job_id j2 = fj_job_id params" and rank: "3 \<le> status_rank (job_status j2)"
    using j1 by (auto simp: job_progress_def job_terms_def)
  from assms(5,6) \<open>won\<close> have "affected (\<lambda>j. job_id j = fj_job_id params \<and> finalize_guard j) (db_jobs d2) = 1"
    by (auto simp: finalize_job_def Let_def split: if_splits)
  then obtain j3 where "j3 \<in> set (db_jobs d2)" "job_id j3 = fj_job_id params" "finalize_guard j3"
    using affected_none[of "db_jobs d2" "\<lambda>j. job_id j = fj_job_id params \<and> finalize_guard j"] by fastforce
  moreover then have "j3 = j2" using same_job[OF inv_schema[OF o(1)]] j2(1) id2 by metis
  ultimately show False using rank by (auto simp: finalize_guard_status)
qed

theorem finalize_wins_once_witness:
  "finalize_job now0 demo_finalize demo_settling = Inr (False, demo_settling)"
proof -
  have e: "finalize_job now0 demo_finalize demo_settling = Inr (affected (\<lambda>j. job_id j = 1 \<and> finalize_guard j) (db_jobs demo_settling) = 1, demo_settling)"
    by (simp add: finalize_job_def demo_finalize_def finalize_guard_status counters_full_def
      update_jobs_def demo_states demo_rows upd_def Let_def)
  have "\<not> (affected (\<lambda>j. job_id j = 1 \<and> finalize_guard j) (db_jobs demo_settling) = 1)"
    by (rule finalize_wins_once[OF dec_ref_ok reachable_demo_all_done run_finalize rtranclp.rtrancl_refl e]) simp
  with e show ?thesis by simp
qed

section \<open>Retry\<close>

text \<open>C34: Retry never reopens a finished batch. In every reachable state RetryItem rejects each item of
  a job that is settling or in a terminal status, and the revision of every job is 0: the branch of
  updateJobForRetry that pulls a succeeded or partially failed job back to running and raises its
  revision is never taken, because such jobs are always settled.\<close>

theorem retry_never_reopens:
  assumes "decimal_ok D" and "reachable D (d, seen)" and "j \<in> set (db_jobs d)"
  shows "job_revision j = 0
    \<and> (ri_job_id params = job_id j \<and> (job_is_terminal (job_status j) \<or> job_status j = JobStatusSettling)
         \<longrightarrow> (\<exists>e. retry_item D now params d = Inl e))"
proof (intro conjI impI)
  note i = reachable_ok(1)[OF assms(2,1)]
  show "job_revision j = 0" using inv_job(2)[OF i assms(3)] unfolding life_ok_def by blast
  assume j: "ri_job_id params = job_id j \<and> (job_is_terminal (job_status j) \<or> job_status j = JobStatusSettling)"
  show "\<exists>e. retry_item D now params d = Inl e"
  proof (rule ccontr)
    assume "\<not> (\<exists>e. retry_item D now params d = Inl e)"
    then obtain it d' where "retry_item D now params d = Inr (it, d')"
      by (metis old.prod.exhaust sum.exhaust)
    with i show False
    proof (rule retry_itemD)
      fix j' i'
      assume "j' \<in> set (db_jobs d)" "job_id j' = ri_job_id params" "job_status j' \<in> {JobStatusHolding, JobStatusRunning}"
      moreover then have "j' = j" using same_job[OF inv_schema[OF i]] j assms(3) by metis
      ultimately show False using j by auto
    qed
  qed
qed

definition demo_retry :: retry_item_params where
  "demo_retry = \<lparr>ri_user_id = 7, ri_job_id = 1, ri_seq = 2, ri_estimated_cost = 3, ri_idempotency_key = None\<rparr>"

theorem retry_never_reopens_witness:
  "\<exists>e. retry_item dec_ref now0 demo_retry demo_settled = Inl e"
  using retry_never_reopens[OF dec_ref_ok reachable_demo_settled demo_settled_job, of demo_retry now0]
  by (simp add: demo_job_def demo_retry_def)

text \<open>A retry that is accepted for an item still running takes the item away from its worker.
  The worker's success, for a generation the user is charged for, is then refused with ErrLeaseLost,
  and the item is generated again.\<close>

theorem retry_running_item_loses_result:
  assumes "decimal_ok D" and "reachable D (d, seen)"
    and "retry_item D now params d = Inr (it, d')"
    and "find (lease_guard iid worker) (db_items d) = Some i"
    and "it_job_id i = ri_job_id params" and "it_seq i = ri_seq params"
    and "cs_item_id sp = iid" and "cs_worker_id sp = worker" and "cs_images sp \<noteq> []"
  shows "complete_item_success now' sp d' = Inl (lease_lost_err iid worker)
    \<and> (\<exists>r \<in> set (db_items d'). it_id r = iid \<and> it_status r = ItemStatusPending
           \<and> it_attempt_count r = it_attempt_count i)"
proof -
  note inv = reachable_ok(1)[OF assms(2,1)]
  have i: "i \<in> set (db_items d)" "lease_guard iid worker i" using find_SomeD[OF assms(4)] by auto
  have sch: "schema_ok d" by (rule inv_schema[OF inv])
  from inv assms(3) obtain i' where i': "i' \<in> set (db_items d)" "it_job_id i' = ri_job_id params" "it_seq i' = ri_seq params"
    and items: "db_items d' = upd (\<lambda>r. it_id r = it_id i' \<and> it_status r = it_status i') (retry_item_row now) (db_items d)"
    by (rule retry_itemD) auto
  have "distinct (map (\<lambda>i. (it_job_id i, it_seq i)) (db_items d))" using sch by (simp add: schema_ok_def)
  then have "i' = i" using i(1) i' assms(5,6) by (auto simp: distinct_map dest!: inj_onD[of _ _ i i'])
  note items = items[unfolded this]
  have none: "\<not> lease_guard iid worker r" if "r \<in> set (db_items d')" for r
  proof
    assume g: "lease_guard iid worker r"
    from that obtain r0 where r0: "r0 \<in> set (db_items d)"
      "r = (if it_id r0 = it_id i \<and> it_status r0 = it_status i then retry_item_row now r0 else r0)"
      unfolding items set_upd by blast
    have "r = r0" using r0(2) g by (auto simp: lease_guard_def split: if_splits)
    then have "it_id r0 = it_id i" using g i(2) by (auto simp: lease_guard_def)
    then have "r0 = i" using same_item[OF sch r0(1) i(1)] by simp
    with r0(2) have "r = retry_item_row now i" by simp
    with g show False by (simp add: lease_guard_def)
  qed
  then have "find (lease_guard iid worker) (db_items d') = None" by (auto simp: find_None_iff)
  then have "complete_item_success now' sp d' = Inl (lease_lost_err iid worker)"
    using assms(7-9) by (simp add: complete_item_success_def)
  moreover have "retry_item_row now i \<in> set (db_items d')"
    unfolding items set_upd using i(1) by (intro image_eqI[of _ _ i]) simp_all
  ultimately show ?thesis using i(2) by (intro conjI bexI[of _ "retry_item_row now i"]) (simp_all add: lease_guard_def)
qed

definition demo_retry1 :: retry_item_params where
  "demo_retry1 = \<lparr>ri_user_id = 7, ri_job_id = 1, ri_seq = 1, ri_estimated_cost = 3, ri_idempotency_key = None\<rparr>"

lemma run_retry: "\<exists>it d'. retry_item dec_ref now0 demo_retry1 demo_claimed = Inr (it, d')"
  by (simp add: retry_item_def demo_retry1_def lock_user_balance_def is_settled_def get_job_item_by_seq_def
      can_retry_def sum_open_holds_def update_job_for_retry_def status_simps demo_states demo_rows Let_def)

theorem retry_running_item_loses_result_witness:
  "\<exists>d'. complete_item_success now0 demo_success d' = Inl (lease_lost_err 1 ''w1'')"
proof -
  from run_retry obtain it d' where r: "retry_item dec_ref now0 demo_retry1 demo_claimed = Inr (it, d')" by blast
  have f: "find (lease_guard 1 ''w1'') (db_items demo_claimed) = Some (running_row 1)"
    by (simp add: lease_guard_def demo_states demo_rows)
  have "complete_item_success now0 demo_success d' = Inl (lease_lost_err 1 ''w1'')"
    using retry_running_item_loses_result[OF dec_ref_ok reachable_demo_claimed r f, of demo_success now0]
    by (simp add: demo_retry1_def demo_success_def running_row_def demo_row_def)
  then show ?thesis by blast
qed

section \<open>Well-typed rows\<close>

text \<open>C30: Every reachable database is well typed. Keys are unique and below the counters that hand out
  new ones; every item and every hold belongs to a job of the table; an item has one of the five
  statuses, a number of its own within its batch and attempts counted from 0, and a running one has a
  worker and a lease; a job has one of the eight statuses and at least one item.\<close>

theorem reachable_rows_well_typed:
  assumes "decimal_ok D" and "reachable D (d, seen)"
  shows "distinct (map job_id (db_jobs d)) \<and> distinct (map job_uid (db_jobs d)) \<and> distinct (map it_id (db_items d))
    \<and> distinct (map (\<lambda>i. (it_job_id i, it_seq i)) (db_items d)) \<and> distinct (map hold_job_id (db_holds d))
    \<and> (\<forall>j \<in> set (db_jobs d). job_id j < db_next_job d \<and> job_is_valid (job_status j) \<and> 0 < job_item_count j)
    \<and> (\<forall>i \<in> set (db_items d). it_id i < db_next_item d \<and> item_is_valid (it_status i) \<and> 0 \<le> it_attempt_count i
         \<and> (\<exists>j \<in> set (db_jobs d). job_id j = it_job_id i)
         \<and> (it_status i = ItemStatusRunning \<longrightarrow> it_worker_id i \<noteq> None \<and> it_lease_expires_at i \<noteq> None))
    \<and> (\<forall>h \<in> set (db_holds d). 0 \<le> hold_amount h \<and> (\<exists>j \<in> set (db_jobs d). job_id j = hold_job_id h))"
proof -
  have i: "inv d" using reachable_ok(1)[OF assms(2,1)] .
  note s = inv_schema[OF i, unfolded schema_ok_def job_ids_def]
  have 1: "\<forall>j \<in> set (db_jobs d). job_id j < db_next_job d \<and> job_is_valid (job_status j) \<and> 0 < job_item_count j"
    using s inv_jobs[OF i] by (simp add: jobs_ok_def life_ok_def)
  have 2: "\<forall>i \<in> set (db_items d). it_id i < db_next_item d \<and> item_is_valid (it_status i) \<and> 0 \<le> it_attempt_count i
         \<and> (\<exists>j \<in> set (db_jobs d). job_id j = it_job_id i)
         \<and> (it_status i = ItemStatusRunning \<longrightarrow> it_worker_id i \<noteq> None \<and> it_lease_expires_at i \<noteq> None)"
    using s inv_items[OF i] unfolding items_ok_def image_iff by fastforce
  have 3: "\<forall>h \<in> set (db_holds d). 0 \<le> hold_amount h \<and> (\<exists>j \<in> set (db_jobs d). job_id j = hold_job_id h)"
    using s inv_holds[OF i] unfolding holds_ok_def hold_ok_def image_iff by fastforce
  show ?thesis using s 1 2 3 by blast
qed

theorem reachable_rows_well_typed_witness:
  "distinct (map job_id (db_jobs demo_settled)) \<and> list_all (\<lambda>i. item_is_valid (it_status i)) (db_items demo_settled)"
  using reachable_rows_well_typed[OF dec_ref_ok reachable_demo_settled] by (simp add: list_all_iff)

end
