(* ===== verification/Queue_Guarantees.thy ===== *)
theory Queue_Guarantees
  imports Scenario
begin

text \<open>
  What the queue of items guarantees: the order of claims and the attempt count, exclusive leases,
  the reaper, and listing page by page.
\<close>

section \<open>Claims\<close>

text \<open>C32: A claim hands out the least claimable item in the order of job and sequence number, records
  the worker, a lease of the requested length and one attempt more, and changes no other row. It
  never hands out an item whose lease has not run out, and a pending one only while attempts are
  left.\<close>

theorem claim_next_item_contract:
  assumes "schema_ok d" and "claim_next_item db_now locked params d = Inr (i, d')"
    and "now = (if cl_now params = zero_time then db_now else cl_now params)"
  shows "\<exists>r \<in> set (db_items d).
       (it_status r = ItemStatusPending \<and> it_attempt_count r < it_max_attempts r \<and> it_available_at r \<le> now
         \<or> it_status r = ItemStatusRunning \<and> (\<exists>l. it_lease_expires_at r = Some l \<and> l < now))
     \<and> (\<forall>r' \<in> set (db_items d). claimable now r' \<and> \<not> locked (it_id r') \<longrightarrow>
          (it_job_id r, it_seq r) \<le> (it_job_id r', it_seq r'))
     \<and> it_id i = it_id r \<and> it_status i = ItemStatusRunning \<and> it_worker_id i = Some (cl_worker_id params)
     \<and> it_attempt_count i = it_attempt_count r + 1
     \<and> it_lease_expires_at i = Some (now + seconds (cl_lease_for params) (default_lease_seconds * second))
     \<and> db_items d' = map (\<lambda>x. if it_id x = it_id r then i else x) (db_items d)
     \<and> db_jobs d' = db_jobs d \<and> db_holds d' = db_holds d"
  using assms(2)
proof (rule claim_next_itemD)
  fix r
  let ?now = "if cl_now params = zero_time then db_now else cl_now params"
  let ?lease = "seconds (cl_lease_for params) (default_lease_seconds * second)"
  assume r: "r \<in> set (db_items d)" "claimable ?now r"
    and least: "\<And>r'. r' \<in> set (db_items d) \<Longrightarrow> claimable ?now r' \<Longrightarrow> \<not> locked (it_id r') \<Longrightarrow>
           (it_job_id r, it_seq r) \<le> (it_job_id r', it_seq r')"
    and i: "i = claim_item (cl_worker_id params) ?lease ?now r"
    and d': "d' = update_items (\<lambda>x. it_id x = it_id r) (claim_item (cl_worker_id params) ?lease ?now) d"
  have "db_items d' = map (\<lambda>x. if it_id x = it_id r then i else x) (db_items d)"
    unfolding d' update_fields upd_def i using same_item[OF assms(1) _ r(1)] by (intro map_cong) auto
  moreover have "db_jobs d' = db_jobs d" "db_holds d' = db_holds d" by (simp_all add: d')
  ultimately show ?thesis
    using r least unfolding assms(3)
    by (intro bexI[of _ r]) (auto simp: i claim_item_def claimable_def split: option.splits)
qed

lemma demo_running_schema: "schema_ok demo_running"
  using inv_schema[OF reachable_ok(1)[OF reachable_demo_running dec_ref_ok]] .

theorem claim_next_item_contract_witness:
  "it_attempt_count (running_row 1) = 1 \<and> db_jobs demo_claimed = db_jobs demo_running"
  using claim_next_item_contract[OF demo_running_schema run_claim refl]
  by (auto simp: running_row_def demo_row_def demo_running_def demo_claimed_def demo_db_def pending_row_def)

text \<open>C33: A lease is exclusive. While a worker holds the lease of an item, no other worker can renew
  it, report its success or report its failure: each of these calls fails with ErrLeaseLost, and
  the item stays as it is.\<close>

theorem lease_is_exclusive:
  assumes "schema_ok d" and "i \<in> set (db_items d)" and "it_worker_id i = Some owner" and "other \<noteq> owner"
  shows "renew_item_lease now (it_id i) other lease d = Inl (lease_lost_err (it_id i) other)
    \<and> (cs_item_id sp = it_id i \<and> cs_worker_id sp = other \<and> cs_images sp \<noteq> [] \<longrightarrow>
         complete_item_success now sp d = Inl (lease_lost_err (it_id i) other))
    \<and> (cf_item_id fp = it_id i \<and> cf_worker_id fp = other \<longrightarrow>
         complete_item_failure now fp d = Inl (lease_lost_err (it_id i) other))"
proof -
  have no: "\<not> lease_guard (it_id i) other r" if "r \<in> set (db_items d)" for r
    using same_item[OF assms(1) that assms(2)] assms(3,4) by (auto simp: lease_guard_def)
  then have "find (lease_guard (it_id i) other) (db_items d) = None" by (simp add: find_None_iff)
  moreover have "affected (lease_guard (it_id i) other) (db_items d) = 0" using no by (simp add: affected_eq_0)
  ultimately show ?thesis
    by (simp add: renew_item_lease_def complete_item_success_def complete_item_failure_def Let_def)
qed

theorem lease_is_exclusive_witness:
  "renew_item_lease now0 1 ''w2'' 0 demo_claimed = Inl (lease_lost_err 1 ''w2'')"
proof -
  have s: "schema_ok demo_claimed"
    using inv_schema[OF reachable_ok(1)[OF reachable_demo_claimed dec_ref_ok]] .
  have i: "running_row 1 \<in> set (db_items demo_claimed)" by (simp add: demo_claimed_def demo_db_def)
  show ?thesis
    using lease_is_exclusive[OF s i, of "''w1''" "''w2''" now0 0] by (simp add: running_row_def demo_row_def)
qed

section \<open>The reaper\<close>

lemma release_holds_closed:
  "h \<in> set (db_holds (release_holds_for_jobs now ids d)) \<Longrightarrow> hold_job_id h \<in> set ids \<Longrightarrow> hold_status h \<noteq> HoldStatusOpen"
  by (auto simp: release_holds_for_jobs_def set_upd close_hold_def)

lemma stop_unfinished_finished:
  "i \<in> set (db_items (stop_unfinished_items now ids d)) \<Longrightarrow> it_job_id i \<in> set ids \<Longrightarrow>
     it_status i \<noteq> ItemStatusPending \<and> it_status i \<noteq> ItemStatusRunning"
  by (auto simp: stop_unfinished_items_def Let_def set_upd stop_unfinished_item_def)

lemma stop_unfinished_status:
  assumes "j \<in> set (db_jobs (stop_unfinished_items now ids d))"
  shows "\<exists>j0 \<in> set (db_jobs d). job_id j0 = job_id j \<and> job_status j0 = job_status j"
  using assms by (auto simp: stop_unfinished_items_def Let_def set_upd)

text \<open>After a pass of the reaper every job it reports is out of the way for good. It has a terminal
  status, none of its items is pending or running, and it holds no money: no customer balance stays
  frozen by a batch whose worker has died.\<close>

theorem reaper_frees_stale_jobs:
  assumes "decimal_ok D" and "reachable D (d, seen)"
    and "reap_stale_jobs now locked_item locked_job stale limit d = (ids, d')"
    and "j \<in> set (db_jobs d')" and "job_id j \<in> set ids"
  shows "job_is_terminal (job_status j)
    \<and> (\<forall>i \<in> set (db_items d'). it_job_id i = job_id j \<longrightarrow> item_is_terminal (it_status i))
    \<and> (\<forall>h \<in> set (db_holds d'). hold_job_id h = job_id j \<longrightarrow> hold_status h = HoldStatusReleased \<and> hold_amount h = 0)"
  using assms(3)
proof (rule reap_stale_jobs_parts)
  fix lim st d1 d2 d3 d4 s u
  assume d1: "d1 = reap_dead_pending_items now locked_item lim d"
    and s: "s = select_ids locked_job lim job_id (stale_job now st) (db_jobs d1)"
    and d2: "d2 = update_jobs (\<lambda>j. job_id j \<in> set s) (reap_stale_job now) d1"
    and d3: "d3 = (if s = [] then d2 else release_holds_for_jobs now s (stop_unfinished_items now s d2))"
    and u: "u = select_ids locked_job lim job_id (stuck_settling now stale_settling_after) (db_jobs d3)"
    and d4: "d4 = update_jobs (\<lambda>j. job_id j \<in> set u) (close_stuck_job now d3) d3"
    and d': "d' = (if u = [] then d4 else release_holds_for_jobs now u d4)"
    and ids: "ids = s @ u"
  have sch: "inv d'" using inv_reap_stale_jobs[OF reachable_ok(1)[OF assms(2,1)] assms(3)] .
  have jobs: "db_jobs d' = upd (\<lambda>j. job_id j \<in> set u) (close_stuck_job now d3) (db_jobs d3)"
    and items: "db_items d' = db_items d3"
    by (simp_all add: d' d4 release_holds_for_jobs_def)
  have ho: "hold_status h = HoldStatusReleased \<and> hold_amount h = 0"
    if h: "h \<in> set (db_holds d')" "hold_job_id h \<in> set ids" for h
  proof -
    have "hold_status h \<noteq> HoldStatusOpen"
    proof (cases "hold_job_id h \<in> set u")
      case True
      then have "d' = release_holds_for_jobs now u d4" by (auto simp: d')
      with h(1) True show ?thesis using release_holds_closed by metis
    next
      case False
      with h(2) have k: "hold_job_id h \<in> set s" by (simp add: ids)
      then have "db_holds d3 = db_holds (release_holds_for_jobs now s (stop_unfinished_items now s d2))"
        by (auto simp: d3)
      then have "\<forall>h \<in> set (db_holds d3). hold_job_id h \<in> set s \<longrightarrow> hold_status h \<noteq> HoldStatusOpen"
        using release_holds_closed by metis
      then show ?thesis using h(1) k by (auto simp: d' d4 release_holds_for_jobs_def set_upd close_hold_def split: if_splits)
    qed
    moreover have "hold_ok h" using inv_holds[OF sch] h(1) by (simp add: holds_ok_def)
    ultimately show ?thesis by (cases "hold_status h") (simp_all add: hold_ok_def)
  qed
  have "job_is_terminal (job_status j) \<and> (\<forall>i \<in> set (db_items d'). it_job_id i = job_id j \<longrightarrow> item_is_terminal (it_status i))"
  proof (cases "job_id j \<in> set u")
    case True
    with assms(4) have "job_settled_at j \<noteq> None"
      unfolding jobs by (auto simp: set_upd close_stuck_job_def split: option.splits)
    moreover have "life_ok j" by (rule inv_job(2)[OF sch assms(4)])
    ultimately have "job_is_terminal (job_status j)" "counters_full j" unfolding life_ok_def by blast+
    then show ?thesis using full_no_unfinished[OF inv_items[OF sch] inv_job(1)[OF sch assms(4)]] by blast
  next
    case False
    then have k: "job_id j \<in> set s" using assms(5) by (simp add: ids)
    then have d3': "d3 = release_holds_for_jobs now s (stop_unfinished_items now s d2)" by (auto simp: d3)
    have "j \<in> set (db_jobs (stop_unfinished_items now s d2))"
      using assms(4) False unfolding jobs by (auto simp: set_upd close_stuck_job_def d3' release_holds_for_jobs_def)
    then obtain j0 where "j0 \<in> set (db_jobs d2)" "job_id j0 = job_id j" "job_status j0 = job_status j"
      using stop_unfinished_status by blast
    then have "job_status j = JobStatusFailed" using k by (auto simp: d2 set_upd reap_stale_job_def)
    moreover have "item_is_terminal (it_status i)" if "i \<in> set (db_items d')" "it_job_id i = job_id j" for i
    proof -
      have "i \<in> set (db_items (stop_unfinished_items now s d2))"
        using that(1) by (simp add: items d3' release_holds_for_jobs_def)
      with k that(2) have "it_status i \<noteq> ItemStatusPending \<and> it_status i \<noteq> ItemStatusRunning"
        using stop_unfinished_finished by metis
      moreover have "item_is_valid (it_status i)" using inv_items[OF sch] that(1) by (simp add: items_ok_def)
      ultimately show ?thesis by (cases "it_status i") (auto simp: item_is_valid_iff)
    qed
    ultimately show ?thesis by simp
  qed
  then show ?thesis using ho assms(5) by auto
qed

text \<open>Eleven minutes after the last heartbeat the running batch of the scenario is reaped.\<close>

definition later :: time where "later = now0 + 660000000000"

lemma run_sweep: "reap_dead_pending_items later (\<lambda>i. False) 50 demo_claimed = demo_claimed"
  by (simp add: reap_dead_pending_items_def select_ids_def dead_pending_def update_items_def update_jobs_def
      demo_states demo_rows upd_def Let_def)

lemma run_reap: "1 \<in> set (fst (reap_stale_jobs later (\<lambda>i. False) (\<lambda>i. False) 0 0 demo_claimed))"
proof -
  have "select_ids (\<lambda>i. False) 50 job_id (stale_job later (seconds 0 (default_stale_job_minutes * minute))) (db_jobs demo_claimed) = [1]"
    by (simp add: select_ids_def stale_job_def seconds_def default_stale_job_minutes_def later_def duration_defs demo_claimed_def
        demo_db_def demo_job_def)
  then show ?thesis unfolding reap_stale_jobs_def Let_def by (simp add: run_sweep)
qed

theorem reaper_frees_stale_jobs_witness:
  "\<exists>j \<in> set (db_jobs (snd (reap_stale_jobs later (\<lambda>i. False) (\<lambda>i. False) 0 0 demo_claimed))).
     job_id j = 1 \<and> job_is_terminal (job_status j)"
proof -
  let ?r = "reap_stale_jobs later (\<lambda>i. False) (\<lambda>i. False) 0 0 demo_claimed"
  have r: "?r = (fst ?r, snd ?r)" by simp
  have i: "inv demo_claimed" by (rule reachable_ok(1)[OF reachable_demo_claimed dec_ref_ok])
  have "\<exists>j \<in> set (db_jobs demo_claimed). job_id j = 1" by (simp add: demo_claimed_def demo_db_def demo_job_def)
  then obtain j0 where j0: "j0 \<in> set (db_jobs demo_claimed)" "job_id j0 = 1" by blast
  obtain j where "j \<in> set (db_jobs (snd ?r))" "job_progress j0 j"
    using evolves_reap_stale_jobs[OF i r] j0(1) by (rule evolvesD)
  with j0(2) have j: "j \<in> set (db_jobs (snd ?r))" "job_id j = 1" by (simp_all add: job_progress_def job_terms_def)
  have "job_id j \<in> set (fst ?r)" using j(2) run_reap by simp
  with reaper_frees_stale_jobs[OF dec_ref_ok reachable_demo_claimed r j(1)] j show ?thesis by blast
qed

section \<open>Listing page by page\<close>

definition list_key :: "job \<Rightarrow> time \<times> int" where
  "list_key j = (job_created_at j, job_id j)"

definition list_filter :: "list_jobs_query \<Rightarrow> job \<Rightarrow> bool" where
  "list_filter q j \<longleftrightarrow> job_user_id j = lq_user_id q \<and> (lq_include_deleted q \<or> job_user_deleted_at j = None)
     \<and> (lq_statuses q = [] \<or> job_status j \<in> set (lq_statuses q))"

definition list_before :: "list_jobs_query \<Rightarrow> job \<Rightarrow> bool" where
  "list_before q j \<longleftrightarrow> (lq_cursor_created_at q \<noteq> zero_time \<and> lq_cursor_id q > 0 \<longrightarrow>
     list_key j < (lq_cursor_created_at q, lq_cursor_id q))"

lemma list_jobs_rows_eq:
  "list_jobs_rows d q = filter (list_before q) (filter (list_filter q) (rev (sort_key list_key (db_jobs d))))"
  unfolding list_jobs_rows_def rev_filter[symmetric] filter_sort
  by (simp add: list_key_def[abs_def] list_before_def[abs_def] list_filter_def[abs_def] conj_ac)

lemma strictly_descending:
  assumes "schema_ok d"
  shows "sorted_wrt (\<lambda>a b. list_key b < list_key a) (list_jobs_rows d q)"
proof -
  let ?xs = "sort_key list_key (db_jobs d)"
  have "distinct (map job_id (db_jobs d))" by (rule schema_distinct(1)[OF assms])
  then have "distinct (map list_key (db_jobs d))" by (auto simp: distinct_map list_key_def inj_on_def)
  then have "distinct (map list_key ?xs)" by (simp add: distinct_map)
  then have "sorted_wrt (<) (map list_key ?xs)" by (simp add: strict_sorted_iff)
  then have "sorted_wrt (\<lambda>a b. list_key b < list_key a) (rev ?xs)"
    by (simp add: sorted_wrt_map sorted_wrt_rev)
  then show ?thesis unfolding list_jobs_rows_eq by (intro sorted_wrt_filter)
qed

text \<open>The pages of the job list cover every job once. When a page says there is more, the rows from
  its cursor on are exactly the rows after the page: following the cursors neither skips nor repeats
  a job of the user, and a page is never longer than the clamped limit.\<close>

theorem list_jobs_pages:
  assumes "schema_ok d" and "\<forall>j \<in> set (db_jobs d). 0 < job_id j \<and> job_created_at j \<noteq> zero_time"
    and "pg_has_more (list_jobs d q)"
  shows "list_jobs_rows d q = pg_jobs (list_jobs d q) @
      list_jobs_rows d (q\<lparr>lq_cursor_created_at := pg_next_cursor_created_at (list_jobs d q),
                          lq_cursor_id := pg_next_cursor_id (list_jobs d q)\<rparr>)
    \<and> 1 \<le> length (pg_jobs (list_jobs d q)) \<and> length (pg_jobs (list_jobs d q)) \<le> 100"
proof -
  let ?R = "list_jobs_rows d q" and ?L = "nat (clamp_limit (lq_limit q) default_page_limit max_page_limit)"
  have L: "1 \<le> ?L" "?L \<le> 100"
    using clamp_limit_bounds[of max_page_limit "lq_limit q" default_page_limit] by (auto simp: max_page_limit_def)
  have more: "?L < length ?R" using assms(3) by (auto simp: list_jobs_def Let_def split: if_splits)
  define xs where "xs = take ?L ?R"
  define ys where "ys = drop ?L ?R"
  have R: "?R = xs @ ys" by (simp add: xs_def ys_def)
  have len: "length xs = ?L" using more by (simp add: xs_def)
  with L have ne: "xs \<noteq> []" by auto
  define l where "l = last xs"
  have page: "list_jobs d q = \<lparr>pg_jobs = xs, pg_next_cursor_created_at = job_created_at l,
      pg_next_cursor_id = job_id l, pg_has_more = True\<rparr>"
    using more ne by (simp add: list_jobs_def Let_def xs_def l_def min_def)
  have lR: "l \<in> set ?R" using ne by (simp add: R l_def)
  then have l: "l \<in> set (db_jobs d)" "list_before q l" by (simp_all add: list_jobs_rows_eq)
  let ?q = "q\<lparr>lq_cursor_created_at := job_created_at l, lq_cursor_id := job_id l\<rparr>"
  have bef: "list_before ?q j \<longleftrightarrow> list_key j < list_key l" for j
    using assms(2) l(1) by (simp add: list_before_def list_key_def)
  have "list_before q j" if "list_key j < list_key l" for j
    using that l(2) by (auto simp: list_before_def)
  then have "list_jobs_rows d ?q = filter (\<lambda>j. list_key j < list_key l) ?R"
    by (auto simp: list_jobs_rows_eq bef list_filter_def intro!: filter_cong)
  also have "\<dots> = ys"
  proof -
    have srt: "sorted_wrt (\<lambda>a b. list_key b < list_key a) (xs @ ys)"
      using strictly_descending[OF assms(1), of q] by (simp add: R)
    have "\<not> list_key x < list_key l" if "x \<in> set xs" for x
    proof (cases "x = l")
      case False
      have "xs = butlast xs @ [l]" using ne by (simp add: l_def)
      then have "sorted_wrt (\<lambda>a b. list_key b < list_key a) (butlast xs @ [l])" using srt by (simp add: sorted_wrt_append)
      moreover have "x \<in> set (butlast xs)" using that False \<open>xs = butlast xs @ [l]\<close> by (metis in_set_conv_decomp_last UnE empty_iff empty_set insert_iff list.simps(15) set_append)
      ultimately show ?thesis by (auto simp: sorted_wrt_append)
    qed simp
    moreover have "list_key y < list_key l" if "y \<in> set ys" for y
      using srt that ne by (auto simp: sorted_wrt_append l_def)
    ultimately show ?thesis by (simp add: R)
  qed
  finally show ?thesis using page R len L by simp
qed

definition demo_query :: list_jobs_query where
  "demo_query = \<lparr>lq_user_id = 7, lq_statuses = [], lq_cursor_created_at = zero_time, lq_cursor_id = 0,
     lq_limit = 1, lq_include_deleted = False\<rparr>"

definition two_jobs :: db where
  "two_jobs = (empty_db [demo_user])\<lparr>db_jobs := [demo_job JobStatusCreated 0 0 None None None None,
     (demo_job JobStatusCreated 0 0 None None None None)\<lparr>job_id := 2, job_uid := ''u2''\<rparr>], db_next_job := 3\<rparr>"

theorem list_jobs_pages_witness:
  "list_jobs_rows two_jobs demo_query = pg_jobs (list_jobs two_jobs demo_query) @
     list_jobs_rows two_jobs (demo_query\<lparr>lq_cursor_created_at := now0, lq_cursor_id := 2\<rparr>)"
proof -
  have p: "pg_has_more (list_jobs two_jobs demo_query)" "pg_next_cursor_created_at (list_jobs two_jobs demo_query) = now0"
    "pg_next_cursor_id (list_jobs two_jobs demo_query) = 2"
    by (simp_all add: list_jobs_def list_jobs_rows_def demo_query_def two_jobs_def empty_db_def demo_job_def
        clamp_limit_def max_page_limit_def)
  have "schema_ok two_jobs" by (simp add: schema_ok_def two_jobs_def empty_db_def demo_job_def sample_uid_def)
  moreover have "\<forall>j \<in> set (db_jobs two_jobs). 0 < job_id j \<and> job_created_at j \<noteq> zero_time"
    by (simp add: two_jobs_def empty_db_def demo_job_def now0_def zero_time_def)
  ultimately show ?thesis using list_jobs_pages[OF _ _ p(1)] unfolding p(2,3) by blast
qed

end
