(* ===== verification/Billing_Guarantees.thy ===== *)
theory Billing_Guarantees
  imports Scenario "HOL-Library.Multiset"
begin

text \<open>
  What the money tables guarantee: admission never promises more than the balance, a repeated
  submission creates nothing, billing an item is monotone and idempotent, a job is settled once, and
  a request for more quota is answered once.
\<close>

section \<open>Holds are multiples of the smallest amount\<close>

definition holds_grid :: "db \<Rightarrow> bool" where
  "holds_grid d \<longleftrightarrow> (\<forall>h \<in> set (db_holds d). money_grid (hold_amount h))"

lemma grid_same: "holds_grid d \<Longrightarrow> db_holds d' = db_holds d \<Longrightarrow> holds_grid d'"
  by (simp add: holds_grid_def)

lemma grid_jobs: "holds_grid d \<Longrightarrow> holds_grid (update_jobs P f d)" and
  grid_items: "holds_grid d \<Longrightarrow> holds_grid (update_items Q g d)"
  by (simp_all add: holds_grid_def)

lemma grid_close: "holds_grid d \<Longrightarrow> holds_grid (update_holds R (close_hold now) d)"
  by (auto simp: holds_grid_def set_upd close_hold_def)

lemma grid_decrement: "holds_grid d \<Longrightarrow> money_grid delta \<Longrightarrow> holds_grid (decrement_hold now jid delta d)"
  by (auto simp: holds_grid_def decrement_hold_def set_upd intro!: on_grid_max on_grid_diff)

lemma grid_insert_hold: "holds_grid d \<Longrightarrow> money_grid a \<Longrightarrow> holds_grid (insert_hold now jid uid a d)"
  by (auto simp: holds_grid_def insert_hold_def set_upd intro!: on_grid_add)

lemmas grid_rules = grid_jobs grid_items grid_close grid_decrement grid_insert_hold

lemma step_grid:
  assumes "step D (d, seen) (d', seen')" and "decimal_ok D" and "inv d" and "holds_grid d"
  shows "holds_grid d'"
  using assms(1)
proof (cases rule: step.cases)
  case (step_create now p r)
  from step_create(2) show ?thesis
  proof (cases rule: create_jobD)
    case (reused j)
    then show ?thesis using assms(4) by simp
  next
    case (created balance)
    note g = quantize_grid[OF assms(2)]
    show ?thesis unfolding created(7) by (intro grid_insert_hold g grid_same[OF assms(4)]) simp
  qed
next
  case (step_retry now rp it)
  from assms(3) step_retry(2) show ?thesis
    by (rule retry_itemD) (use assms(2,4) in \<open>auto intro!: grid_rules quantize_grid\<close>)
next
  case (step_reap now li lj stale limit ids)
  from step_reap(2) show ?thesis
    by (rule reap_stale_jobs_parts)
      (use assms(4) in \<open>auto intro!: grid_rules simp: reap_dead_pending_items_def release_holds_for_jobs_def
        stop_unfinished_items_def Let_def\<close>)
next
  case (step_success now sp)
  then show ?thesis using assms(4) unfolding complete_item_success_def Let_def
    by (auto intro!: grid_rules intro: grid_same split: if_splits option.splits sum.splits dest!: insert_images_frame)
next
  case (step_bill now iid cost mode tier)
  then show ?thesis using assms(2,4)
    by (auto simp: apply_item_billing_def Let_def intro!: grid_rules quantize_grid split: if_splits option.splits)
next
  case (step_claim now locked cp i)
  from step_claim(2) show ?thesis by (rule claim_next_itemD) (use assms(4) in \<open>auto intro: grid_rules\<close>)
qed (use assms(4) in \<open>auto intro!: grid_rules intro: grid_same simp: update_job_status_def renew_item_lease_def
    complete_item_failure_def request_job_stop_def finalize_job_def touch_job_heartbeat_def
    clear_job_idempotency_key_def soft_delete_job_def settle_job_def release_hold_def insert_billing_alert_def
    create_quota_request_def handle_quota_request_def reopen_quota_request_def Let_def
    split: if_splits option.splits\<close>)

lemma reachable_grid:
  assumes "reachable D (d, seen)" and "decimal_ok D"
  shows "holds_grid d"
proof -
  from assms(1) obtain us where "steps D (empty_db us, {}) (d, seen)" by (auto simp: reachable_def)
  then have "holds_grid (fst (d, seen))"
  proof (induction rule: rtranclp_induct)
    case base
    then show ?case by (simp add: holds_grid_def empty_db_def)
  next
    case (step y z)
    have "reachable D (fst y, snd y)" using step(1) by (auto simp: reachable_def)
    then have "inv (fst y)" using assms(2) by (rule reachable_ok(1))
    moreover have "step D (fst y, snd y) (fst z, snd z)" using step(2) by simp
    ultimately show ?case using step_grid assms(2) step.IH by blast
  qed
  then show ?thesis by simp
qed

lemma grid_sum_open_holds: "holds_grid d \<Longrightarrow> money_grid (sum_open_holds d uid)"
  by (auto simp: sum_open_holds_def sum_col_def holds_grid_def intro!: on_grid_sum_list)

section \<open>Admission\<close>

text \<open>C5: Admission never promises more than the balance. A submission that is accepted adds exactly
  its estimate to the open holds of the user, and the open holds of that user together, the new one
  included, do not exceed the balance the platform has for the user.\<close>

theorem admission_no_overdraft:
  assumes "decimal_ok D" and "reachable D (d, seen)"
    and "create_job_with_items_and_hold D now params d = Inr (r, d')" and "\<not> cr_reused r"
    and "lock_user_balance d (cj_user_id params) = Inr balance" and "money_grid balance"
  shows "sum_open_holds d' (cj_user_id params)
           = sum_open_holds d (cj_user_id params) + quantize_money D (cj_estimated_cost params)
    \<and> sum_open_holds d' (cj_user_id params) \<le> balance"
  using assms(3)
proof (cases rule: create_jobD)
  case (reused j)
  with assms(4) show ?thesis by simp
next
  case (created b)
  note i = reachable_ok(1)[OF assms(2,1)]
  have b: "b = balance" using created(3) assms(5) by simp
  have "money_grid (sum_open_holds d (cj_user_id params))"
    using reachable_grid[OF assms(2,1)] by (rule grid_sum_open_holds)
  then have le: "quantize_money D (cj_estimated_cost params) \<le> balance - sum_open_holds d (cj_user_id params)"
    using created(4) assms(6) by (simp add: b quantize_id[OF assms(1)] on_grid_diff)
  have "\<forall>h \<in> set (db_holds d). hold_job_id h \<noteq> db_next_job d"
    using new_job_no_hold[OF inv_schema[OF i]] by blast
  then have "sum_open_holds d' (cj_user_id params)
      = sum_open_holds d (cj_user_id params) + quantize_money D (cj_estimated_cost params)"
    unfolding created(7) by (subst insert_hold_new) (simp_all add: sum_open_holds_def)
  with le show ?thesis by simp
qed

theorem admission_no_overdraft_witness: "sum_open_holds demo_created 7 \<le> 100"
proof -
  have b: "lock_user_balance demo_start (cj_user_id demo_params) = Inr 100"
    by (simp add: lock_user_balance_def demo_start_def empty_db_def demo_user_def demo_params_def)
  have g: "money_grid 100" using on_grid_of_int[of money_scale 100] by simp
  have r: "reachable dec_ref (demo_start, {})" by (simp add: demo_start_def reachable_start)
  have "cj_user_id demo_params = 7" by (simp add: demo_params_def)
  then show ?thesis using admission_no_overdraft[OF dec_ref_ok r run_create _ b g] by simp
qed

text \<open>A submission is all or nothing and complete. When it succeeds with a new job, the job is
  created with one pending, never attempted item for each requested image, numbered from 1 without a
  gap, and one open hold of the estimate; when it fails there is no new state at all.\<close>

theorem create_job_complete:
  assumes "inv d" and "create_job_with_items_and_hold D now params d = Inr (r, d')" and "\<not> cr_reused r"
  shows "cr_job r \<in> set (db_jobs d') \<and> job_status (cr_job r) = JobStatusCreated
    \<and> job_user_id (cr_job r) = cj_user_id params
    \<and> job_item_count (cr_job r) = int (length (cj_items params))
    \<and> map it_seq (items_of d' (job_id (cr_job r))) = map (\<lambda>k. 1 + int k) [0..<length (cj_items params)]
    \<and> (\<forall>i \<in> set (items_of d' (job_id (cr_job r))). it_status i = ItemStatusPending \<and> it_attempt_count i = 0)
    \<and> filter (\<lambda>h. hold_job_id h = job_id (cr_job r)) (db_holds d')
        = [\<lparr>hold_id = db_next_hold d, hold_job_id = job_id (cr_job r), hold_user_id = cj_user_id params,
            hold_amount = quantize_money D (cj_estimated_cost params), hold_status = HoldStatusOpen,
            hold_created_at = now, hold_updated_at = now\<rparr>]"
  using assms(2)
proof (cases rule: create_jobD)
  case (reused j)
  with assms(3) show ?thesis by simp
next
  case (created b)
  note sch = inv_schema[OF assms(1)]
  let ?n = "db_next_job d"
  have id: "job_id (cr_job r) = ?n" by (simp add: created(6))
  have h: "\<forall>h \<in> set (db_holds d). hold_job_id h \<noteq> ?n" using new_job_no_hold[OF sch] by blast
  have "it_job_id i \<noteq> ?n" if "i \<in> set (db_items d)" for i
    using sch that by (force simp: schema_ok_def job_ids_def)
  then have old: "filter (\<lambda>i. it_job_id i = ?n) (db_items d) = []" by (simp add: filter_empty_conv)
  have new: "filter (\<lambda>i. it_job_id i = ?n) (item_rows now ?n (cj_items params) k) = item_rows now ?n (cj_items params) k" for k
    using item_rows_fields by (auto simp: filter_id_conv)
  have items: "items_of d' ?n = item_rows now ?n (cj_items params) (db_next_item d)"
    by (simp add: items_of_def created(7) old new)
  have seq: "map it_seq (items_of d' ?n) = map (\<lambda>k. 1 + int k) [0..<length (cj_items params)]"
    unfolding items item_rows_seq using validate_create_job_paramsD(2)[OF created(2)] .
  have st: "\<forall>i \<in> set (items_of d' ?n). it_status i = ItemStatusPending \<and> it_attempt_count i = 0"
    unfolding items using item_rows_fields by blast
  have "filter (\<lambda>h. hold_job_id h = ?n) (db_holds d) = []" using h by (simp add: filter_empty_conv)
  then have holds: "filter (\<lambda>h. hold_job_id h = ?n) (db_holds d')
      = [\<lparr>hold_id = db_next_hold d, hold_job_id = ?n, hold_user_id = cj_user_id params,
          hold_amount = quantize_money D (cj_estimated_cost params), hold_status = HoldStatusOpen,
          hold_created_at = now, hold_updated_at = now\<rparr>]"
    unfolding created(7) using h by (subst insert_hold_new) simp_all
  have "cr_job r \<in> set (db_jobs d')" by (simp add: created(7))
  then show ?thesis using seq st holds unfolding id by (simp add: created(6))
qed

theorem create_job_complete_witness:
  "map it_seq (items_of demo_created 1) = [1, 2]"
proof -
  have "inv demo_start" by (simp add: demo_start_def inv_empty_db)
  from create_job_complete[OF this run_create] show ?thesis
    by (simp add: demo_job_def demo_params_def upt_rec)
qed

section \<open>Idempotent submission\<close>

lemma last_is_greatest:
  assumes "ys \<noteq> []" and "sorted (map f ys)" and "x \<in> set ys"
  shows "f x \<le> f (last ys)"
proof -
  have "sorted (map f (butlast ys) @ [f (last ys)])" using assms(1,2) by (metis append_butlast_last_id list.simps(8,9) map_append)
  moreover have "x = last ys \<or> x \<in> set (butlast ys)" using assms(1,3) by (metis append_butlast_last_id in_set_conv_decomp set_ConsD Un_iff set_append empty_iff empty_set)
  ultimately show ?thesis by (auto simp: sorted_append)
qed

text \<open>The look-up gives the newest batch that carries the key.\<close>

lemma newest_with_key:
  assumes "distinct (map job_id (db_jobs d))" and "j \<in> set (db_jobs d)" and "job_user_id j = user_id"
    and "job_idempotency_key j = Some key" and "job_created_at j > now - idempotency_lookup_window"
  obtains k where "find_job_by_idempotency_key now d user_id key = Some k" and "k \<in> set (db_jobs d)"
    and "job_user_id k = user_id" and "job_idempotency_key k = Some key" and "job_id j \<le> job_id k"
    and "(\<forall>k \<in> set (db_jobs d). job_user_id k = user_id \<and> job_idempotency_key k = Some key \<longrightarrow> job_id k \<le> job_id j) \<Longrightarrow> k = j"
proof -
  let ?rows = "filter (\<lambda>j. job_user_id j = user_id \<and> job_idempotency_key j = Some key
      \<and> job_created_at j > now - idempotency_lookup_window) (db_jobs d)"
  let ?ys = "sort_key job_id ?rows"
  have j: "j \<in> set ?ys" using assms(2-5) by simp
  then have ne: "?ys \<noteq> []" by (metis empty_iff empty_set)
  define k where "k = last ?ys"
  have k: "k \<in> set ?ys" unfolding k_def using ne by (rule last_in_set)
  have f: "find_job_by_idempotency_key now d user_id key = Some k"
    using ne by (cases ?ys rule: rev_cases) (simp_all add: find_job_by_idempotency_key_def k_def)
  have le: "job_id j \<le> job_id k" unfolding k_def by (rule last_is_greatest[OF ne _ j]) simp
  moreover have "k = j" if "\<forall>k \<in> set (db_jobs d). job_user_id k = user_id \<and> job_idempotency_key k = Some key \<longrightarrow> job_id k \<le> job_id j"
  proof -
    have "job_id k = job_id j" using that k le by fastforce
    then show ?thesis using assms(1,2) k by (auto simp: distinct_map dest: inj_onD)
  qed
  ultimately show thesis using that[OF f] k by simp
qed

text \<open>C31: A repeated submission creates and charges nothing. After a submission with an idempotency key, and an
  estimate that is not negative, has created a batch in a reachable state, whatever steps have been taken since, as long as the batch still carries the key and its user still exists, every
  valid submission of the same user with that key less than 24 hours after the first is answered with a batch of this
  user that carries the key, marked as reused, and leaves the database as it is. The batch answered is the one created
  first, unless a newer batch of the user carries the key.\<close>

theorem idempotent_submission:
  assumes "decimal_ok D" and "reachable D (d, seen)" and "create_job_with_items_and_hold D now params d = Inr (r, d1)"
    and "\<not> cr_reused r" and "0 \<le> cj_estimated_cost params" and "trimmed_ptr (cj_idempotency_key params) \<noteq> []"
    and "steps D (d1, seen) (d2, seen2)"
    and "j \<in> set (db_jobs d2)" and "job_id j = job_id (cr_job r)"
    and "job_idempotency_key j = Some (trimmed_ptr (cj_idempotency_key params))"
    and "lock_user_balance d2 (cj_user_id params) = Inr balance"
    and "cj_user_id again = cj_user_id params"
    and "trimmed_ptr (cj_idempotency_key again) = trimmed_ptr (cj_idempotency_key params)"
    and "validate_create_job_params again = None" and "now' < now + 24 * hour"
  shows "\<exists>r'. create_job_with_items_and_hold D now' again d2 = Inr (r', d2) \<and> cr_reused r'
    \<and> cr_job r' \<in> set (db_jobs d2) \<and> job_user_id (cr_job r') = cj_user_id params
    \<and> job_idempotency_key (cr_job r') = Some (trimmed_ptr (cj_idempotency_key params))
    \<and> ((\<forall>k \<in> set (db_jobs d2). job_user_id k = cj_user_id params
          \<and> job_idempotency_key k = Some (trimmed_ptr (cj_idempotency_key params)) \<longrightarrow> job_id k \<le> job_id j) \<longrightarrow> cr_job r' = j)"
proof -
  let ?key = "trimmed_ptr (cj_idempotency_key params)"
  have "reachable D (d1, seen)" using assms(2) step_create[OF assms(3,5)] by (rule reachable_step)
  note r1 = reachable_ok[OF this assms(1)]
  from steps_ok[OF assms(7,1)] r1 have d2: "inv d2" "evolves d1 d2" by simp_all
  have first: "cr_job r \<in> set (db_jobs d1) \<and> job_user_id (cr_job r) = cj_user_id params \<and> job_created_at (cr_job r) = now"
    using assms(3)
  proof (cases rule: create_jobD)
    case (created b)
    have "cr_job r \<in> set (db_jobs d1)" unfolding created(7) by simp
    moreover have "job_user_id (cr_job r) = cj_user_id params \<and> job_created_at (cr_job r) = now"
      unfolding created(6) by (simp add: new_job_row_def)
    ultimately show ?thesis by simp
  qed (use assms(4) in simp)
  from d2(2) first[THEN conjunct1] obtain j' where j': "j' \<in> set (db_jobs d2)" "job_progress (cr_job r) j'" by (rule evolvesD)
  have ids: "distinct (map job_id (db_jobs d2))" by (rule schema_distinct(1)[OF inv_schema[OF d2(1)]])
  have terms: "job_id j' = job_id (cr_job r)" "job_user_id j' = job_user_id (cr_job r)" "job_created_at j' = job_created_at (cr_job r)"
    using j'(2) by (simp_all add: job_progress_def job_terms_def)
  have "inj_on job_id (set (db_jobs d2))" using ids by (simp add: distinct_map)
  then have "j' = j" using j'(1) assms(8,9) terms(1) by (metis inj_onD)
  then have "job_user_id j = cj_user_id params" "job_created_at j > now' - idempotency_lookup_window"
    using terms first assms(15) by (simp_all add: idempotency_lookup_window_def)
  then obtain k where k: "find_job_by_idempotency_key now' d2 (cj_user_id params) ?key = Some k" "k \<in> set (db_jobs d2)"
    "job_user_id k = cj_user_id params" "job_idempotency_key k = Some ?key"
    "(\<forall>k \<in> set (db_jobs d2). job_user_id k = cj_user_id params \<and> job_idempotency_key k = Some ?key \<longrightarrow> job_id k \<le> job_id j) \<longrightarrow> k = j"
    using newest_with_key[OF ids assms(8) _ assms(10)] by metis
  then show ?thesis using assms(6,11-14) by (simp add: create_job_with_items_and_hold_def Let_def)
qed

theorem idempotent_submission_witness:
  "\<exists>r'. create_job_with_items_and_hold dec_ref (now0 + 60) demo_params demo_running = Inr (r', demo_running)
     \<and> cr_reused r' \<and> job_id (cr_job r') = 1"
proof -
  have r: "reachable dec_ref (demo_start, {})" by (simp add: demo_start_def reachable_start)
  have v: "validate_create_job_params demo_params = None"
    by (simp add: validate_create_job_params_def demo_params_def demo_item_def)
  have k: "trimmed_ptr (cj_idempotency_key demo_params) \<noteq> []" "0 \<le> cj_estimated_cost demo_params"
    by (simp_all add: demo_params_def trimmed_ptr_def)
  have s: "steps dec_ref (demo_created, {}) (demo_running, {})"
    using step_status[OF run_hold] step_status[OF run_start] by (meson converse_rtranclp_into_rtranclp r_into_rtranclp insertI1 insertI2)
  let ?j = "demo_job JobStatusRunning 0 0 (Some now0) None None None"
  have j: "?j \<in> set (db_jobs demo_running)" "job_id ?j = 1" "job_idempotency_key ?j = Some (trimmed_ptr (cj_idempotency_key demo_params))"
    "\<forall>k \<in> set (db_jobs demo_running). job_id k \<le> job_id ?j"
    by (simp_all add: demo_running_def demo_db_def demo_job_def demo_params_def trimmed_ptr_def)
  have b: "lock_user_balance demo_running (cj_user_id demo_params) = Inr 100"
    by (simp add: lock_user_balance_def demo_running_def demo_db_def demo_user_def demo_params_def)
  show ?thesis
    using idempotent_submission[OF dec_ref_ok r run_create _ k(2,1) s j(1) _ j(3) b refl refl v, of "now0 + 60"] j(2,4)
    by (auto simp: hour_def demo_job_def)
qed

section \<open>Billing an item\<close>

abbreviation no_hold_grew :: "db \<Rightarrow> db \<Rightarrow> bool" where
  "no_hold_grew d d' \<equiv> list_all2 (\<lambda>h h'. hold_id h' = hold_id h \<and> hold_status h' = hold_status h
            \<and> 0 \<le> hold_amount h' \<and> hold_amount h' \<le> hold_amount h) (db_holds d) (db_holds d')"

lemma the_item_found:
  assumes "schema_ok d" and "i \<in> set (db_items d)"
  shows "the_item d (it_id i) = Some i"
proof -
  have "find (\<lambda>r. it_id r = it_id i) (db_items d) \<noteq> None" using assms(2) by (auto simp: find_None_iff)
  then obtain r where f: "find (\<lambda>r. it_id r = it_id i) (db_items d) = Some r" by blast
  with find_SomeD[OF f] same_item[OF assms(1) _ assms(2)] have "r = i" by auto
  with f show ?thesis by (simp add: the_item_def)
qed

text \<open>The call that raises the bill: the item carries the new cost, and its hold gives way to it.\<close>

lemma apply_billing_raises:
  assumes "inv d" and the: "the_item d iid = Some i" and "i \<in> set (db_items d)" and "it_id i = iid"
    and new: "\<not> (it_billed_cost i \<noteq> None \<and> \<not> quantize_money D cost > (case it_billed_cost i of None \<Rightarrow> 0 | Some c \<Rightarrow> c))"
    and run: "apply_item_billing D now iid cost mode tier d = Inr ((), d')"
  shows "bill_item now (quantize_money D cost) mode tier i \<in> set (db_items d')" and "no_hold_grew d d'"
    and "apply_item_billing D now' iid cost mode' tier' d' = Inr ((), d')"
proof -
  let ?new = "quantize_money D cost" and ?old = "case it_billed_cost i of None \<Rightarrow> 0 | Some c \<Rightarrow> c"
  define d1 where "d1 = update_items (\<lambda>r. it_id r = iid) (bill_item now ?new mode tier) d"
  have d': "d' = (if quantize_money D (?new - ?old) \<le> 0 then d1
      else decrement_hold now (it_job_id i) (quantize_money D (?new - ?old)) d1)"
    using run the new by (auto simp: apply_item_billing_def Let_def d1_def split: if_splits)
  have items: "db_items d' = upd (\<lambda>r. it_id r = iid) (bill_item now ?new mode tier) (db_items d)"
    by (simp add: d' d1_def decrement_hold_def)
  show "bill_item now ?new mode tier i \<in> set (db_items d')"
    unfolding items using assms(3,4) by (rule upd_mem)
  have "find (\<lambda>r. it_id r = iid) (upd (\<lambda>r. it_id r = iid) (bill_item now ?new mode tier) xs)
      = map_option (bill_item now ?new mode tier) (find (\<lambda>r. it_id r = iid) xs)" for xs
    by (induction xs) (simp_all add: upd_def bill_item_def)
  then have "the_item d' iid = Some (bill_item now ?new mode tier i)" using the by (simp add: the_item_def items)
  then show "apply_item_billing D now' iid cost mode' tier' d' = Inr ((), d')"
    by (simp add: apply_item_billing_def bill_item_def Let_def)
  have "hold_ok h \<Longrightarrow> 0 < x \<Longrightarrow> 0 \<le> max (hold_amount h - x) 0 \<and> max (hold_amount h - x) 0 \<le> hold_amount h" for h x
    by (auto simp: hold_ok_def)
  then show "no_hold_grew d d'"
    using inv_holds[OF assms(1)] unfolding d' d1_def decrement_hold_def
    by (auto simp: holds_ok_def hold_ok_def upd_def list.rel_map intro!: list.rel_refl_strong)
qed

text \<open>C38: Billing an item is monotone and idempotent. In a database that satisfies the
  invariant, a billing call that succeeds makes the billed cost of the item the greater of what was billed
  before and the new cost in the units of the database; no hold grows or becomes negative, or changes its
  status; and the same cost reported again, at any time and with any mode and tier, changes nothing at all.\<close>

theorem apply_item_billing_idempotent:
  assumes "decimal_ok D" and "inv d" and "apply_item_billing D now iid cost mode tier d = Inr ((), d')"
    and "i \<in> set (db_items d)" and "it_id i = iid"
  shows "(\<exists>i' \<in> set (db_items d'). it_id i' = iid \<and> it_billed_cost i' = Some
            (case it_billed_cost i of None \<Rightarrow> quantize_money D cost | Some old \<Rightarrow> max old (quantize_money D cost)))
    \<and> list_all2 (\<lambda>h h'. hold_id h' = hold_id h \<and> hold_status h' = hold_status h
            \<and> 0 \<le> hold_amount h' \<and> hold_amount h' \<le> hold_amount h) (db_holds d) (db_holds d')
    \<and> apply_item_billing D now' iid cost mode' tier' d' = Inr ((), d')"
proof -
  have the: "the_item d iid = Some i" using the_item_found[OF inv_schema[OF assms(2)] assms(4)] assms(5) by simp
  show ?thesis
  proof (cases "it_billed_cost i \<noteq> None \<and> \<not> quantize_money D cost > (case it_billed_cost i of None \<Rightarrow> 0 | Some c \<Rightarrow> c)")
    case True
    then have "d' = d" using assms(3) the by (auto simp: apply_item_billing_def Let_def)
    moreover have "apply_item_billing D now' iid cost mode' tier' d = Inr ((), d)"
      using True the by (simp add: apply_item_billing_def Let_def)
    moreover have "no_hold_grew d d"
      using inv_holds[OF assms(2)] by (auto simp: holds_ok_def hold_ok_def intro!: list.rel_refl_strong)
    ultimately show ?thesis using True assms(4,5) by (auto intro!: bexI[of _ i])
  next
    case False
    note raised = apply_billing_raises[OF assms(2) the assms(4,5) False assms(3)]
    have "it_id (bill_item now (quantize_money D cost) mode tier i) = iid \<and> it_billed_cost (bill_item now (quantize_money D cost) mode tier i)
        = Some (case it_billed_cost i of None \<Rightarrow> quantize_money D cost | Some old \<Rightarrow> max old (quantize_money D cost))"
      using False assms(5) by (auto simp: bill_item_def max_def split: option.splits)
    with raised show ?thesis by blast
  qed
qed

theorem apply_item_billing_idempotent_witness:
  "apply_item_billing dec_ref now0 1 3 ''image'' ''2K'' demo_billed = Inr ((), demo_billed)"
proof -
  have i: "inv demo_settling" by (rule reachable_ok(1)[OF reachable_demo_settling dec_ref_ok])
  have m: "done_row \<in> set (db_items demo_settling)" "it_id done_row = 1"
    by (simp_all add: demo_settling_def demo_db_def done_row_def demo_row_def)
  from apply_item_billing_idempotent[OF dec_ref_ok i run_bill m, of now0 "''image''" "''2K''"] show ?thesis by blast
qed

section \<open>Settlement\<close>

text \<open>A job is charged once. A settlement that succeeds records the amount, a terminal status and the
  time, and releases the hold in the same transaction; any later settlement of the same job, with
  whatever amount, is refused as a conflict.\<close>

theorem settle_job_once:
  assumes "inv d" and "settle_job D now params d = Inr ((), d')" and "sj_job_id again = sj_job_id params"
  shows "(\<exists>j \<in> set (db_jobs d'). job_id j = sj_job_id params \<and> job_settled_at j \<noteq> None
           \<and> job_status j = sj_status params \<and> job_actual_cost j = Some (quantize_money D (sj_actual_cost params)))
    \<and> (\<forall>h \<in> set (db_holds d'). hold_job_id h = sj_job_id params \<longrightarrow> hold_status h \<noteq> HoldStatusOpen)
    \<and> (\<exists>e. settle_job D now' again d' = Inl e)"
proof -
  let ?t = "if sj_settled_at params = zero_time then now else sj_settled_at params"
  from assms(2) have one: "affected (settle_guard params) (db_jobs d) \<noteq> 0"
    and d': "d' = release_hold now (sj_job_id params) (update_jobs (settle_guard params) (settle_row D now ?t params) d)"
    by (auto simp: settle_job_def Let_def split: if_splits)
  from one obtain j where j: "j \<in> set (db_jobs d)" "settle_guard params j" by (auto simp: affected_eq_0)
  have m: "settle_row D now ?t params j \<in> set (db_jobs d')"
    using upd_mem[of j "db_jobs d" "settle_guard params", OF j] by (simp add: d' release_hold_def)
  have "job_settled_at r \<noteq> None" if "r \<in> set (db_jobs d')" "job_id r = sj_job_id params" for r
  proof -
    from that(1) obtain r0 where r0: "r0 \<in> set (db_jobs d)"
      "r = (if settle_guard params r0 then settle_row D now ?t params r0 else r0)"
      by (auto simp: d' release_hold_def set_upd)
    have "job_id r0 = sj_job_id params" using r0(2) that(2) by (auto simp: settle_guard_def split: if_splits)
    then have "r0 = j" using same_job[OF inv_schema[OF assms(1)] r0(1) j(1)] j(2) by (simp add: settle_guard_def)
    then show ?thesis using r0(2) j(2) by (simp add: settle_row_def)
  qed
  then have "affected (settle_guard again) (db_jobs d') = 0"
    using assms(3) by (auto simp: affected_eq_0 settle_guard_def)
  then have "\<exists>e. settle_job D now' again d' = Inl e" by (simp add: settle_job_def)
  moreover have "\<forall>h \<in> set (db_holds d'). hold_job_id h = sj_job_id params \<longrightarrow> hold_status h \<noteq> HoldStatusOpen"
    by (auto simp: d' release_hold_def set_upd close_hold_def)
  ultimately show ?thesis
    using m j(2) by (auto simp: settle_row_def settle_guard_def intro!: bexI[of _ "settle_row D now ?t params j"])
qed

theorem settle_job_once_witness: "\<exists>e. settle_job dec_ref now0 demo_settle demo_settled = Inl e"
proof -
  have "inv demo_billed"
    by (rule inv_apply_item_billing[OF reachable_ok(1)[OF reachable_demo_settling dec_ref_ok] run_bill])
  from settle_job_once[OF this run_settle refl, of now0] show ?thesis by blast
qed

text \<open>The status the reaper writes when it closes a stuck settlement is the one the settler would
  have written: the CASE expression of reapStuckSettlingSQL and TerminalJobStatus agree on every job,
  and always give a terminal status.\<close>

theorem reaper_status_agrees:
  "settled_status_sql j = terminal_job_status (job_item_count j) (job_success_count j) (job_fail_count j)
     (job_cancelled_count j) (is_stop_requested (Some j)) \<and> job_is_terminal (settled_status_sql j)"
  by (simp add: settled_status_sql_def terminal_job_status_def is_stop_requested_def)

section \<open>Requests for more quota\<close>

definition one_pending :: "db \<Rightarrow> bool" where
  "one_pending d \<longleftrightarrow> (\<forall>u. affected (pending_of u) (db_quota d) \<le> 1)"

lemma one_pending_same: "one_pending d \<Longrightarrow> db_quota d' = db_quota d \<Longrightarrow> one_pending d'"
  by (simp add: one_pending_def)

lemma quota_insert_hold [simp]: "db_quota (insert_hold now jid uid a d) = db_quota d"
  by (simp add: insert_hold_def)

lemma quota_insert_images:
  "insert_images now jid params imgs d = Inr (u, d') \<Longrightarrow> db_quota d' = db_quota d"
proof (induction imgs arbitrary: d)
  case (Cons img imgs)
  then obtain d1 where 1: "insert_image now jid params img d = Inr ((), d1)"
    and 2: "insert_images now jid params imgs d1 = Inr (u, d')"
    by (auto split: sum.splits)
  have "db_quota d1 = db_quota d" using 1 by (auto simp: insert_image_def Let_def split: if_splits)
  with Cons.IH[OF 2] show ?case by simp
qed simp

lemma one_pending_create:
  assumes "one_pending d" and "create_quota_request now uid note d = Inr (q, d')"
  shows "one_pending d'"
proof -
  from assms(2) have "\<not> list_ex (pending_of uid) (db_quota d)"
    and q: "db_quota d' = db_quota d @ [q]" "qr_user_id q = uid"
    by (auto simp: create_quota_request_def Let_def split: if_splits)
  then have "affected (pending_of uid) (db_quota d) = 0" by (simp add: affected_eq_0 list_ex_iff)
  then show ?thesis using assms(1) q by (auto simp: one_pending_def pending_of_def)
qed

lemma one_pending_handle:
  assumes "one_pending d" and "handle_quota_request D now qid byy st note am d = Inr (q, d')"
  shows "one_pending d'"
proof -
  let ?P = "\<lambda>q. qr_id q = qid \<and> qr_status q = QuotaRequestPending"
  from assms(2) have st: "st = QuotaRequestHandled \<or> st = QuotaRequestRejected"
    and q: "db_quota d' = upd ?P (handle_row D now byy st note am) (db_quota d)"
    by (auto simp: handle_quota_request_def Let_def split: if_splits option.splits)
  have "affected (pending_of u) (db_quota d') \<le> affected (pending_of u) (db_quota d)" for u
    unfolding q affected_upd_diff using st affected_nonneg[of "\<lambda>r. ?P r \<and> pending_of u r" "db_quota d"]
    by (auto simp: pending_of_def handle_row_def affected_none)
  then show ?thesis using assms(1) by (meson one_pending_def order_trans)
qed

lemma one_pending_reopen:
  assumes "one_pending d" and "reopen_quota_request qid d = Inr ((), d')"
  shows "one_pending d'"
proof -
  let ?P = "\<lambda>q. qr_id q = qid \<and> qr_status q = QuotaRequestHandled"
  let ?f = "\<lambda>q. q\<lparr>qr_status := QuotaRequestPending, qr_handled_by := None, qr_handled_at := None,
                  qr_handle_note := None, qr_approved_amount := None\<rparr>"
  from assms(2) have n: "\<not> list_ex (\<lambda>q. ?P q \<and> list_ex (pending_of (qr_user_id q)) (db_quota d)) (db_quota d)"
    and one: "affected ?P (db_quota d) = 1" and q: "db_quota d' = upd ?P ?f (db_quota d)"
    by (auto simp: reopen_quota_request_def Let_def split: if_splits)
  have "affected (pending_of u) (db_quota d') \<le> 1" for u
  proof -
    let ?n = "affected (\<lambda>r. ?P r \<and> pending_of u (?f r)) (db_quota d)"
    have le: "?n \<le> 1" using one affected_mono[of "\<lambda>r. ?P r \<and> pending_of u (?f r)" ?P "db_quota d"] by auto
    have eq: "affected (pending_of u) (db_quota d') = affected (pending_of u) (db_quota d) + ?n"
      unfolding q affected_upd_diff by (simp add: pending_of_def affected_none)
    show ?thesis
    proof (cases "?n = 0")
      case True
      then show ?thesis using eq assms(1) by (simp add: one_pending_def)
    next
      case False
      then obtain r where "r \<in> set (db_quota d)" "?P r" "qr_user_id r = u"
        by (auto simp: affected_eq_0 pending_of_def)
      then have "affected (pending_of u) (db_quota d) = 0" using n by (auto simp: list_ex_iff affected_eq_0)
      then show ?thesis using eq le by simp
    qed
  qed
  then show ?thesis by (simp add: one_pending_def)
qed

lemma quota_frame:
  assumes "step D (d, seen) (d', seen')" and "inv d"
  shows "db_quota d' = db_quota d \<or> (\<exists>now uid note q. create_quota_request now uid note d = Inr (q, d'))
     \<or> (\<exists>now qid byy st note am q. handle_quota_request D now qid byy st note am d = Inr (q, d'))
     \<or> (\<exists>qid. reopen_quota_request qid d = Inr ((), d'))"
  using assms(1)
proof (cases rule: step.cases)
  case (step_create now p r)
  from step_create(2) show ?thesis by (cases rule: create_jobD) auto
next
  case (step_retry now rp it)
  from assms(2) step_retry(2) show ?thesis by (rule retry_itemD) simp
next
  case (step_reap now li lj stale limit ids)
  from step_reap(2) show ?thesis
    by (rule reap_stale_jobs_parts)
      (simp add: reap_dead_pending_items_def release_holds_for_jobs_def stop_unfinished_items_def Let_def)
next
  case (step_success now sp)
  then show ?thesis unfolding complete_item_success_def Let_def
    by (auto split: if_splits option.splits sum.splits dest!: quota_insert_images)
next
  case (step_claim now locked cp i)
  from step_claim(2) show ?thesis by (rule claim_next_itemD) simp
next
  case (step_ask_quota now uid nt q)
  then show ?thesis by blast
next
  case (step_handle_quota now qid byy st nt am q)
  then show ?thesis by blast
next
  case (step_reopen_quota qid)
  then show ?thesis by blast
qed (auto simp: update_job_status_def renew_item_lease_def decrement_hold_def apply_item_billing_def
    complete_item_failure_def request_job_stop_def finalize_job_def touch_job_heartbeat_def
    clear_job_idempotency_key_def soft_delete_job_def settle_job_def release_hold_def insert_billing_alert_def
    Let_def split: if_splits option.splits)

text \<open>In every reachable state a user has at most one pending request for more quota, and a request
  is answered at most once: after an answer, any further answer to the same request is refused as a
  conflict.\<close>

theorem quota_request_answered_once:
  assumes "decimal_ok D" and "reachable D (d, seen)"
    and "handle_quota_request D now qid byy st note am d = Inr (q, d')" and "st' \<in> {QuotaRequestHandled, QuotaRequestRejected}"
  shows "affected (pending_of uid) (db_quota d) \<le> 1
    \<and> qr_status q = st \<and> q \<in> set (db_quota d')
    \<and> handle_quota_request D now' qid byy' st' note' am' d' = Inl (conflict_err (quota_handled_message qid))"
proof -
  from assms(2) obtain us where "steps D (empty_db us, {}) (d, seen)" by (auto simp: reachable_def)
  then have "one_pending (fst (d, seen))"
  proof (induction rule: rtranclp_induct)
    case base
    then show ?case by (simp add: one_pending_def empty_db_def)
  next
    case (step y z)
    have "reachable D (fst y, snd y)" using step(1) by (auto simp: reachable_def)
    then have "inv (fst y)" using assms(1) by (rule reachable_ok(1))
    moreover have "step D (fst y, snd y) (fst z, snd z)" using step(2) by simp
    ultimately show ?case
      using quota_frame step.IH one_pending_same one_pending_create one_pending_handle one_pending_reopen by metis
  qed
  then have one: "affected (pending_of uid) (db_quota d) \<le> 1" by (simp add: one_pending_def)
  let ?P = "\<lambda>q. qr_id q = qid \<and> qr_status q = QuotaRequestPending"
  let ?f = "handle_row D now byy st note am"
  from assms(3) obtain q0 where st: "st = QuotaRequestHandled \<or> st = QuotaRequestRejected"
    and q0: "q0 \<in> set (db_quota d)" "?P q0" and q: "q = ?f q0" and d': "db_quota d' = upd ?P ?f (db_quota d)"
    by (auto simp: handle_quota_request_def Let_def dest: find_SomeD split: if_splits option.splits)
  have m: "q \<in> set (db_quota d')" unfolding d' q using q0 by (rule upd_mem)
  have id: "qr_id q = qid" "qr_status q = st" using q0(2) by (simp_all add: q handle_row_def)
  have "\<not> ?P r" if "r \<in> set (db_quota d')" for r
  proof -
    from that obtain r0 where "r = (if ?P r0 then ?f r0 else r0)" unfolding d' set_upd by blast
    moreover have "qr_status (?f r0) \<noteq> QuotaRequestPending" using st by (auto simp: handle_row_def)
    ultimately show ?thesis by (cases "?P r0") simp_all
  qed
  then have "find ?P (db_quota d') = None" by (simp add: find_None_iff)
  moreover have "list_ex (\<lambda>q. qr_id q = qid) (db_quota d')" using m id(1) by (auto simp: list_ex_iff)
  ultimately have "handle_quota_request D now' qid byy' st' note' am' d' = Inl (conflict_err (quota_handled_message qid))"
    using assms(4) by (auto simp: handle_quota_request_def Let_def)
  with one m id(2) show ?thesis by blast
qed

lemma run_ask: "\<exists>q d'. create_quota_request now0 7 None demo_start = Inr (q, d') \<and> list_ex (\<lambda>q. qr_id q = 1 \<and> qr_status q = QuotaRequestPending) (db_quota d')"
  by (simp add: create_quota_request_def demo_start_def empty_db_def Let_def)

theorem quota_request_answered_once_witness:
  "\<exists>q d'. handle_quota_request dec_ref now0 1 9 QuotaRequestHandled None None d' = Inl (conflict_err (quota_handled_message 1))"
proof -
  from run_ask obtain q d1 where c: "create_quota_request now0 7 None demo_start = Inr (q, d1)"
    and p: "list_ex (\<lambda>q. qr_id q = 1 \<and> qr_status q = QuotaRequestPending) (db_quota d1)" by blast
  have "reachable dec_ref (demo_start, {})" by (simp add: demo_start_def reachable_start)
  then have r: "reachable dec_ref (d1, {})" using step_ask_quota[OF c] by (rule reachable_step)
  let ?P = "\<lambda>q. qr_id q = 1 \<and> qr_status q = QuotaRequestPending"
  have "find ?P (db_quota d1) \<noteq> None" using p by (auto simp: find_None_iff list_ex_iff)
  then obtain q0 where "find ?P (db_quota d1) = Some q0" by blast
  then obtain d2 q2 where h: "handle_quota_request dec_ref now0 1 9 QuotaRequestHandled None None d1 = Inr (q2, d2)"
    by (simp add: handle_quota_request_def Let_def)
  show ?thesis
    using quota_request_answered_once[OF dec_ref_ok r h, of QuotaRequestHandled] by blast
qed

end
