(* ===== verification/Worker_Policy.thy ===== *)
theory Worker_Policy
  imports Go_Errors Entities
begin

text \<open>
  The decisions of the worker that need no database: \<open>worker/errors.go\<close> (what is retried, and after
  how long), \<open>worker/config.go\<close> (defaults, settings and their clamping) and the pure parts of
  \<open>worker/pool.go\<close> and \<open>worker/heartbeat.go\<close>. Durations are nanoseconds in an \<open>int64\<close>, and the product
  in a backoff wraps around as in Go.
\<close>

section \<open>The text of an error\<close>

text \<open>The library that formats a decimal is a parameter, as in the money theory.\<close>

fun error_text :: "decimal_lib \<Rightarrow> go_error \<Rightarrow> string" and dk_error_text :: "decimal_lib \<Rightarrow> dk_error \<Rightarrow> string" where
  "error_text D (Sentinel s) = sentinel_text s"
| "error_text D (Opaque t) = t"
| "error_text D (Wrapped t e) = t"
| "error_text D (InsufficientBalanceError r a s) =
     ''designkit: insufficient balance, shortfall '' @ money_string D s"
| "error_text D (Dk d) = dk_error_text D d"
| "error_text D (ItemError d r) = dk_error_text D d"
| "dk_error_text D (DesignkitError c m h u e) =
     c @ '': '' @ m @ (if u = [] then [] else '' (upstream: '' @ u @ '')'')
     @ (case e of None \<Rightarrow> [] | Some x \<Rightarrow> '' (cause: '' @ error_text D x @ '')'')"

section \<open>Item errors\<close>

text \<open>\<open>itemError\<close> is the pair of the error and whether to retry; a nil receiver is \<open>None\<close>.\<close>

type_synonym item_error = "dk_error \<times> bool"

definition item_err :: "item_error \<Rightarrow> go_error" where
  "item_err e = ItemError (fst e) (snd e)"

definition fail_retry :: "string \<Rightarrow> item_error" where
  "fail_retry code = (new_error code, True)"

definition fail_final :: "string \<Rightarrow> item_error" where
  "fail_final code = (new_error code, False)"

definition item_with_cause :: "item_error option \<Rightarrow> go_error \<Rightarrow> item_error" where
  "item_with_cause eo cause =
     (case eo of None \<Rightarrow> (with_cause (fst (fail_final ErrCodeInternal)) cause, False)
      | Some e \<Rightarrow> (with_cause (fst e) cause, snd e))"

definition item_with_upstream :: "item_error option \<Rightarrow> string \<Rightarrow> item_error" where
  "item_with_upstream eo raw =
     (case eo of None \<Rightarrow> (with_upstream (fst (fail_final ErrCodeInternal)) raw, False)
      | Some e \<Rightarrow> (with_upstream (fst e) raw, snd e))"

definition retryable_codes :: "string list" where
  "retryable_codes =
     [ErrCodeUpstreamBusy, ErrCodeRateLimited, ErrCodeUpstreamError, ErrCodeNoAvailableAccount, ErrCodeInternal]"

definition timeout_message :: string where
  "timeout_message =
     bytes [232, 191, 153, 229, 188, 160, 229, 155, 190, 229, 143, 175, 232, 131, 189, 229, 183,
      178,
      231, 187, 143, 231, 148, 159, 230, 136, 144, 229, 185, 182, 232, 174, 161, 232,
      180, 185,
      239, 188, 140, 228, 189, 134, 230, 136, 145, 228, 187, 172, 230, 178, 161,
      230, 148, 182,
      229, 136, 176, 231, 187, 147, 230, 158, 156, 227, 128, 130, 233, 156,
      128, 232, 166, 129,
      231, 154, 132, 232, 175, 157, 229, 143, 175, 228, 187, 165, 230,
      137, 139, 229, 138, 168,
      233, 135, 141, 232, 175, 149, 239, 188, 136, 228, 188, 154,
      233, 135, 141, 230, 150, 176,
      230, 148, 182, 232, 180, 185, 239, 188, 137, 227, 128,
      130]"

section \<open>The attempt budget\<close>

definition normalize_max_attempts :: "int \<Rightarrow> int" where
  "normalize_max_attempts m = (if m \<le> 0 then default_max_attempts else m)"

definition attempt_budget_exceeded :: "int \<Rightarrow> int \<Rightarrow> bool" where
  "attempt_budget_exceeded attempts m \<longleftrightarrow> attempts > normalize_max_attempts m"

definition attempt_budget_exhausted :: "int \<Rightarrow> int \<Rightarrow> bool" where
  "attempt_budget_exhausted attempts m \<longleftrightarrow> attempts \<ge> normalize_max_attempts m"

lemma normalize_pos: "0 < normalize_max_attempts m"
  by (simp add: normalize_max_attempts_def default_max_attempts_def)

section \<open>Classification\<close>

definition classify :: "go_error option \<Rightarrow> int \<Rightarrow> int \<Rightarrow> dk_error option \<times> bool" where
  "classify eo attempts m =
     (case eo of
        None \<Rightarrow> (None, True)
      | Some e \<Rightarrow>
        (let (d, retryable) =
               (case as_item_error e of
                  Some (d, r) \<Rightarrow> (d, r)
                | None \<Rightarrow>
                  if errors_is e ContextDeadlineExceeded then (with_cause (new_error ErrCodeTimeout) e, False)
                  else if errors_is e ContextCanceled then (with_cause (new_error ErrCodeCanceled) e, True)
                  else case as_designkit_error e of
                      Some parsed \<Rightarrow> (parsed, dk_code parsed \<in> set retryable_codes)
                    | None \<Rightarrow> (with_cause (new_error ErrCodeInternal) e, True));
             d1 = (if dk_code d = ErrCodeTimeout then with_message d timeout_message else d)
         in if \<not> retryable then (Some d1, True)
            else if attempt_budget_exhausted attempts m then
              (Some (with_cause (with_upstream (new_error ErrCodeMaxAttemptsExceeded) (dk_upstream d1)) (Dk d1)), True)
            else (Some d1, False)))"

section \<open>Backoff\<close>

definition default_settle_backoff_base :: duration where "default_settle_backoff_base = 5 * second"
definition default_settle_backoff_max :: duration where "default_settle_backoff_max = 2 * minute"
definition default_retry_backoff_base :: duration where "default_retry_backoff_base = 15 * second"
definition default_retry_backoff_max :: duration where "default_retry_backoff_max = 5 * minute"

definition retry_backoff :: "duration \<Rightarrow> int \<Rightarrow> duration" where
  "retry_backoff base0 attempts =
     (let base = (if base0 \<le> 0 then default_retry_backoff_base else base0);
          a = (if attempts < 1 then 1 else attempts);
          shift = (if a - 1 > 16 then 16 else a - 1);
          d = wrap64 (base * 2 ^ nat shift)
      in if d \<le> 0 \<or> d > default_retry_backoff_max then default_retry_backoff_max else d)"

definition settle_backoff :: "duration \<Rightarrow> int \<Rightarrow> duration" where
  "settle_backoff base0 attempt =
     (let base = (if base0 \<le> 0 then default_settle_backoff_base else base0);
          a = (if attempt < 1 then 1 else attempt);
          shift = (if a - 1 > 16 then 16 else a - 1);
          d = wrap64 (base * 2 ^ nat shift)
      in if d \<le> 0 \<or> d > default_settle_backoff_max then default_settle_backoff_max else d)"

lemma settle_backoff_pos: "0 < settle_backoff b a \<and> settle_backoff b a \<le> default_settle_backoff_max"
  by (auto simp: settle_backoff_def Let_def default_settle_backoff_max_def duration_defs)

section \<open>Configuration\<close>

record worker_config =
  wc_concurrency :: int
  wc_item_timeout :: duration
  wc_max_dimension :: int
  wc_lease_for :: duration
  wc_lease_renew_interval :: duration
  wc_heartbeat_interval :: duration
  wc_stale_after :: duration
  wc_reap_interval :: duration
  wc_reap_limit :: int
  wc_settle_interval :: duration
  wc_settle_batch :: int
  wc_settle_max_attempts :: int
  wc_settle_backoff_base :: duration
  wc_retry_backoff_base :: duration
  wc_idle_delay :: duration
  wc_error_delay :: duration
  wc_write_back_timeout :: duration
  wc_shutdown_wait :: duration
  wc_disable_reaper :: bool
  wc_disable_settlement :: bool

definition default_reap_limit :: int where "default_reap_limit = 100"
definition default_settle_batch :: int where "default_settle_batch = 20"
definition default_settle_max_attempts :: int where "default_settle_max_attempts = 5"
definition max_concurrency :: int where "max_concurrency = 16"

definition or_default :: "int \<Rightarrow> int \<Rightarrow> int" where
  "or_default v d = (if v \<le> 0 then d else v)"

definition renew_interval :: "duration \<Rightarrow> duration \<Rightarrow> duration" where
  "renew_interval lease renew0 =
     (let renew = or_default renew0 (default_lease_renew_seconds * second)
      in if renew \<ge> lease then (let third = go_div lease 3 in if third \<le> 0 then second else third)
         else renew)"

definition with_defaults :: "worker_config \<Rightarrow> worker_config" where
  "with_defaults c =
     (let lease = or_default (wc_lease_for c) (default_lease_seconds * second)
      in c\<lparr>wc_lease_for := lease,
           wc_lease_renew_interval := renew_interval lease (wc_lease_renew_interval c),
           wc_heartbeat_interval := or_default (wc_heartbeat_interval c) (default_heartbeat_seconds * second),
           wc_stale_after := or_default (wc_stale_after c) (default_stale_job_minutes * minute),
           wc_reap_interval := or_default (wc_reap_interval c) minute,
           wc_reap_limit := or_default (wc_reap_limit c) default_reap_limit,
           wc_settle_interval := or_default (wc_settle_interval c) (10 * second),
           wc_settle_batch := or_default (wc_settle_batch c) default_settle_batch,
           wc_settle_max_attempts := or_default (wc_settle_max_attempts c) default_settle_max_attempts,
           wc_settle_backoff_base := or_default (wc_settle_backoff_base c) default_settle_backoff_base,
           wc_retry_backoff_base := or_default (wc_retry_backoff_base c) default_retry_backoff_base,
           wc_idle_delay := or_default (wc_idle_delay c) (2 * second),
           wc_error_delay := or_default (wc_error_delay c) (5 * second),
           wc_write_back_timeout := or_default (wc_write_back_timeout c) (10 * second),
           wc_shutdown_wait := or_default (wc_shutdown_wait c) (4 * second)\<rparr>)"

text \<open>Which of the four required dependencies are given.\<close>

record worker_deps =
  wd_repo :: bool
  wd_store :: bool
  wd_preprocessor :: bool
  wd_gateway :: bool

definition missing_dependency :: "string \<Rightarrow> go_error" where
  "missing_dependency what =
     Wrapped (sentinel_text ErrMissingDependency @ '': '' @ what) (Sentinel ErrMissingDependency)"

definition validate_deps :: "worker_deps \<Rightarrow> go_error option" where
  "validate_deps d =
     (if \<not> wd_repo d then Some (missing_dependency (''Repo'' @ bytes [239, 188, 136, 230, 140, 129, 228, 185, 133, 229, 140, 150, 239, 188,
          137]))
      else if \<not> wd_store d then Some (missing_dependency (''Store'' @ bytes [239, 188, 136, 229, 175, 185, 232, 177, 161, 229, 173, 152, 229, 130,
          168, 239, 188, 137]))
      else if \<not> wd_preprocessor d then Some (missing_dependency (''Preprocessor'' @ bytes [239, 188, 136, 229, 155, 190, 231, 137, 135, 233, 162, 132, 229, 164,
          132, 231, 144, 134,
      230, 156, 141, 229, 138, 161, 239, 188, 137]))
      else if \<not> wd_gateway d then Some (missing_dependency (''Gateway'' @ bytes [239, 188, 136, 229, 135, 186, 229, 155, 190, 231, 189, 145, 229, 133,
          179, 239, 188, 137]))
      else None)"

section \<open>Settings\<close>

text \<open>
  \<open>json.Unmarshal\<close> of a scalar into an \<open>int\<close>: white space around it, \<open>null\<close> leaves the variable at 0,
  a number without fraction, exponent or leading zero, in the range of an \<open>int64\<close>.
\<close>

definition json_space :: "char \<Rightarrow> bool" where
  "json_space c \<longleftrightarrow> (let n = (of_char c :: nat) in n = 32 \<or> n = 9 \<or> n = 10 \<or> n = 13)"

definition json_trim :: "string \<Rightarrow> string" where
  "json_trim s = rev (dropWhile json_space (rev (dropWhile json_space s)))"

definition json_int :: "string \<Rightarrow> int option" where
  "json_int raw =
     (let s = json_trim raw;
          ds = (if has_prefix ''-'' s then drop 1 s else s)
      in if s = ''null'' then Some 0
         else if ds = [] \<or> (1 < length ds \<and> hd ds = CHR ''0'') then None
         else case digits_val 0 ds of
             None \<Rightarrow> None
           | Some n \<Rightarrow> (let v = (if has_prefix ''-'' s then - int n else int n)
                        in if in_int64 v then Some v else None))"

text \<open>
  \<open>get\<close> is \<open>GetSetting\<close> of the repository, absent when there is no repository; the value is the text
  of the JSONB column.
\<close>

definition read_int_setting ::
  "(string \<Rightarrow> go_error + string option) option \<Rightarrow> string \<Rightarrow> int \<Rightarrow> int \<Rightarrow> int \<Rightarrow> int" where
  "read_int_setting repo key def lo hi =
     (case repo of
        None \<Rightarrow> def
      | Some get \<Rightarrow>
        (case get key of
           Inl e \<Rightarrow> def
         | Inr None \<Rightarrow> def
         | Inr (Some value) \<Rightarrow>
           if value = [] then def
           else case json_int value of
               None \<Rightarrow> def
             | Some v \<Rightarrow> if v < lo \<or> v > hi then (if v < lo then lo else hi) else v))"

record worker_settings =
  ws_concurrency :: int
  ws_item_timeout :: duration
  ws_max_dimension :: int

definition setting_key_worker_concurrency :: string where "setting_key_worker_concurrency = ''worker_concurrency''"
definition setting_key_item_timeout_seconds :: string where "setting_key_item_timeout_seconds = ''item_timeout_seconds''"
definition setting_key_max_dimension :: string where "setting_key_max_dimension = ''max_dimension''"

definition load_settings :: "(string \<Rightarrow> go_error + string option) option \<Rightarrow> worker_settings" where
  "load_settings repo =
     \<lparr>ws_concurrency = read_int_setting repo setting_key_worker_concurrency default_worker_concurrency 1 max_concurrency,
      ws_item_timeout = read_int_setting repo setting_key_item_timeout_seconds default_item_timeout_seconds 10 3600 * second,
      ws_max_dimension = read_int_setting repo setting_key_max_dimension default_max_dimension 256 8192\<rparr>"

text \<open>\<open>Start\<close> lets the fields of the configuration that are set override the settings.\<close>

definition start_settings :: "worker_config \<Rightarrow> worker_settings \<Rightarrow> worker_settings" where
  "start_settings c s =
     \<lparr>ws_concurrency = (if wc_concurrency c > 0 then wc_concurrency c else ws_concurrency s),
      ws_item_timeout = (if wc_item_timeout c > 0 then wc_item_timeout c else ws_item_timeout s),
      ws_max_dimension = (if wc_max_dimension c > 0 then wc_max_dimension c else ws_max_dimension s)\<rparr>"

section \<open>The pool\<close>

definition min_write_back_timeout :: duration where "min_write_back_timeout = 250 * millisecond"

text \<open>\<open>stop_deadline\<close> is zero until \<open>Stop\<close> is called; \<open>now\<close> is the real clock.\<close>

definition write_back_budget :: "worker_config \<Rightarrow> time \<Rightarrow> time \<Rightarrow> duration" where
  "write_back_budget c stop_deadline now =
     (let budget = or_default (wc_write_back_timeout c) (10 * second)
      in if stop_deadline = zero_time then budget
         else let remaining = stop_deadline - now;
                  b = (if remaining < budget then remaining else budget)
              in if b < min_write_back_timeout then min_write_back_timeout else b)"

text \<open>\<open>Stop\<close>: the earlier of the shutdown window and the deadline of the caller.\<close>

definition stop_deadline_of :: "worker_config \<Rightarrow> time \<Rightarrow> time option \<Rightarrow> time" where
  "stop_deadline_of c now caller =
     (let deadline = now + wc_shutdown_wait c
      in case caller of None \<Rightarrow> deadline | Some t \<Rightarrow> if t < deadline then t else deadline)"

definition truncate_worker_id :: "string \<Rightarrow> string" where
  "truncate_worker_id ident = (if length ident \<le> 64 then ident else drop (length ident - 64) ident)"

definition worker_id :: "string \<Rightarrow> int \<Rightarrow> nat \<Rightarrow> string" where
  "worker_id host pid i =
     truncate_worker_id (''dk-'' @ (if host = [] then ''unknown'' else host) @ ''-'' @ itoa pid @ ''-'' @ itoa (int i))"

section \<open>Jobs in flight and heartbeats\<close>

type_synonym inflight = "int \<Rightarrow> nat"

definition inflight_add :: "int \<Rightarrow> inflight \<Rightarrow> inflight" where
  "inflight_add jid f = (if jid \<le> 0 then f else f(jid := f jid + 1))"

definition inflight_remove :: "int \<Rightarrow> inflight \<Rightarrow> inflight" where
  "inflight_remove jid f = (if jid \<le> 0 then f else f(jid := (if f jid \<le> 1 then 0 else f jid - 1)))"

text \<open>\<open>mergeIDs\<close>: the positive ids of both lists without repetition, sorted.\<close>

fun add_ids :: "int list \<Rightarrow> int list \<Rightarrow> int list" where
  "add_ids out [] = out"
| "add_ids out (x # xs) = (if x \<le> 0 \<or> x \<in> set out then add_ids out xs else add_ids (out @ [x]) xs)"

definition merge_ids :: "int list \<Rightarrow> int list \<Rightarrow> int list" where
  "merge_ids a b = sort (add_ids (add_ids [] a) b)"

text \<open>The active jobs come from a callback that may be absent or fail.\<close>

definition heartbeat_targets :: "int list \<Rightarrow> (go_error + int list) option \<Rightarrow> int list" where
  "heartbeat_targets ids active =
     (case active of Some (Inr act) \<Rightarrow> merge_ids ids act | _ \<Rightarrow> ids)"

lemma add_ids_set: "set (add_ids out xs) = set out \<union> {x \<in> set xs. 0 < x}"
  by (induction xs arbitrary: out) auto

lemma add_ids_distinct: "distinct out \<Longrightarrow> distinct (add_ids out xs)"
  by (induction xs arbitrary: out) auto

section \<open>What the decisions guarantee\<close>

lemma new_error_codes [simp]:
  "dk_code (new_error ErrCodeTimeout) = ErrCodeTimeout" "dk_code (new_error ErrCodeCanceled) = ErrCodeCanceled"
  "dk_code (new_error ErrCodeInternal) = ErrCodeInternal"
  "dk_code (new_error ErrCodeMaxAttemptsExceeded) = ErrCodeMaxAttemptsExceeded"
  by (simp_all add: new_error_code error_codes_def)

text \<open>A retry is only ever scheduled when it is both allowed and worth its price. If classify does not
  end the item, attempts are left below the (normalised) limit, and the cause is an item error marked
  retryable, a cancellation, an error nobody knows, or one of the five retryable codes. A timeout,
  for which the user may already have paid, always ends the item, with the code DK_TIMEOUT and the
  message that says so.\<close>

theorem classify_retry_policy:
  assumes "classify (Some e) attempts m = (Some d, terminal)"
  shows "(\<not> terminal \<longrightarrow> attempts < normalize_max_attempts m
           \<and> (case as_item_error e of Some (x, r) \<Rightarrow> r
              | None \<Rightarrow> \<not> errors_is e ContextDeadlineExceeded
                  \<and> (errors_is e ContextCanceled \<or> as_designkit_error e = None \<or> dk_code d \<in> set retryable_codes)))
       \<and> (as_item_error e = None \<and> errors_is e ContextDeadlineExceeded \<longrightarrow>
            terminal \<and> dk_code d = ErrCodeTimeout \<and> dk_message d = timeout_message)
       \<and> (as_item_error e = None \<and> dk_code d = ErrCodeTimeout \<longrightarrow> terminal)"
proof -
  obtain d0 r0 where c: "(case as_item_error e of Some (d, r) \<Rightarrow> (d, r)
      | None \<Rightarrow> if errors_is e ContextDeadlineExceeded then (with_cause (new_error ErrCodeTimeout) e, False)
          else if errors_is e ContextCanceled then (with_cause (new_error ErrCodeCanceled) e, True)
          else case as_designkit_error e of
              Some parsed \<Rightarrow> (parsed, dk_code parsed \<in> set retryable_codes)
            | None \<Rightarrow> (with_cause (new_error ErrCodeInternal) e, True)) = (d0, r0)"
    by fastforce
  define d1 where "d1 = (if dk_code d0 = ErrCodeTimeout then with_message d0 timeout_message else d0)"
  have code1: "dk_code d1 = dk_code d0" by (simp add: d1_def)
  have r: "classify (Some e) attempts m =
     (if \<not> r0 then (Some d1, True)
      else if attempt_budget_exhausted attempts m then
        (Some (with_cause (with_upstream (new_error ErrCodeMaxAttemptsExceeded) (dk_upstream d1)) (Dk d1)), True)
      else (Some d1, False))"
    unfolding classify_def option.case c Let_def prod.case d1_def by (rule refl)
  have open_end: "r0 \<and> \<not> attempt_budget_exhausted attempts m \<and> d = d1" if "\<not> terminal"
    using that assms r by (auto split: if_splits)
  have codes: "ErrCodeTimeout \<notin> set retryable_codes" by (simp add: retryable_codes_def)
  have 1: "\<not> terminal \<Longrightarrow> attempts < normalize_max_attempts m
           \<and> (case as_item_error e of Some (x, r) \<Rightarrow> r
              | None \<Rightarrow> \<not> errors_is e ContextDeadlineExceeded
                  \<and> (errors_is e ContextCanceled \<or> as_designkit_error e = None \<or> dk_code d \<in> set retryable_codes))"
    using open_end c code1 by (auto simp: attempt_budget_exhausted_def split: option.splits if_splits)
  have 2: "terminal \<and> dk_code d = ErrCodeTimeout \<and> dk_message d = timeout_message"
    if "as_item_error e = None" "errors_is e ContextDeadlineExceeded"
  proof -
    have "d0 = with_cause (new_error ErrCodeTimeout) e" "\<not> r0" using c that by auto
    then have "terminal" and "d = with_message (with_cause (new_error ErrCodeTimeout) e) timeout_message"
      using assms r by (auto simp: d1_def)
    then show ?thesis by simp
  qed
  have 3: "terminal" if "as_item_error e = None" "dk_code d = ErrCodeTimeout"
  proof (rule ccontr)
    assume "\<not> terminal"
    with open_end code1 have "r0" "dk_code d0 = ErrCodeTimeout" using that by auto
    with c that codes show False by (auto split: option.splits if_splits)
  qed
  show ?thesis using 1 2 3 by blast
qed

theorem classify_retry_policy_witness:
  "snd (classify (Some (Sentinel ContextDeadlineExceeded)) 1 3)"
proof -
  have e: "classify (Some (Sentinel ContextDeadlineExceeded)) 1 3
      = (Some (with_message (with_cause (new_error ErrCodeTimeout) (Sentinel ContextDeadlineExceeded)) timeout_message), True)"
    by (simp add: classify_def)
  from classify_retry_policy[OF e] show ?thesis by (simp add: e)
qed

text \<open>The pause before a retry is the base doubled with every attempt, at most five minutes, and never
  zero or negative. It is exactly min (base * 2 ^ (attempt - 1)) (5 minutes), with the exponent capped
  at 16, for every base up to about 19 hours, where the 64-bit product cannot wrap around.\<close>

theorem retry_backoff_schedule:
  assumes "0 < base" and "base \<le> 2 ^ 46" and "1 \<le> attempts"
  shows "retry_backoff base attempts = min (base * 2 ^ nat (min (attempts - 1) 16)) (5 * minute)
    \<and> 0 < retry_backoff base attempts
    \<and> retry_backoff base attempts \<le> retry_backoff base (attempts + 1)"
proof -
  have eq: "retry_backoff base a = min (base * 2 ^ nat (min (a - 1) 16)) (5 * minute)" if "1 \<le> a" for a
  proof -
    let ?n = "nat (min (a - 1) 16)"
    have "(2 :: int) ^ ?n \<le> 2 ^ 16" using that by (intro power_increasing) auto
    then have "base * 2 ^ ?n \<le> 2 ^ 46 * 2 ^ 16" using assms(1,2) by (intro mult_mono) auto
    moreover have pos: "0 < base * 2 ^ ?n" using assms(1) by simp
    ultimately have w: "wrap64 (base * 2 ^ ?n) = base * 2 ^ ?n" by (intro wrap64_id) simp
    have "retry_backoff base a = (let d = wrap64 (base * 2 ^ ?n)
        in if d \<le> 0 \<or> d > default_retry_backoff_max then default_retry_backoff_max else d)"
      using that assms(1) by (simp add: retry_backoff_def Let_def min_def)
    then show ?thesis
      using pos unfolding w by (simp add: default_retry_backoff_max_def min_def)
  qed
  have "(2 :: int) ^ nat (min (attempts - 1) 16) \<le> 2 ^ nat (min attempts 16)"
    using assms(3) by (intro power_increasing) auto
  then have le: "base * 2 ^ nat (min (attempts - 1) 16) \<le> base * 2 ^ nat (min attempts 16)"
    using assms(1) by (intro mult_left_mono) auto
  have e: "retry_backoff base (attempts + 1) = min (base * 2 ^ nat (min attempts 16)) (5 * minute)"
    using eq[of "attempts + 1"] assms(3) by simp
  have "0 < min (base * 2 ^ nat (min (attempts - 1) 16)) (5 * minute)"
    using assms(1) by (simp add: duration_defs)
  then show ?thesis unfolding eq[OF assms(3)] e using le by (meson min.mono order_refl)
qed

theorem retry_backoff_schedule_witness: "retry_backoff (15 * second) 2 = 30 * second"
  using retry_backoff_schedule[of "15 * second" 2] by (simp add: duration_defs)

text \<open>The lease outlives its renewal. After the defaults are filled in, every interval and limit of the
  configuration is positive, and the renewal interval is shorter than the lease, whatever was
  configured (the lease being unset or at least three nanoseconds): a lease is always renewed before
  it can expire, so no second worker generates the same image.\<close>

theorem with_defaults_lease:
  assumes "wc_lease_for c \<le> 0 \<or> 3 \<le> wc_lease_for c"
  shows "0 < wc_lease_renew_interval (with_defaults c)
    \<and> wc_lease_renew_interval (with_defaults c) < wc_lease_for (with_defaults c)
    \<and> (\<forall>v \<in> {wc_lease_for (with_defaults c), wc_heartbeat_interval (with_defaults c), wc_stale_after (with_defaults c),
          wc_reap_interval (with_defaults c), wc_reap_limit (with_defaults c), wc_settle_interval (with_defaults c),
          wc_settle_batch (with_defaults c), wc_settle_max_attempts (with_defaults c),
          wc_settle_backoff_base (with_defaults c), wc_retry_backoff_base (with_defaults c),
          wc_idle_delay (with_defaults c), wc_error_delay (with_defaults c),
          wc_write_back_timeout (with_defaults c), wc_shutdown_wait (with_defaults c)}. 0 < v)"
proof -
  have pos: "0 < d \<Longrightarrow> 0 < or_default v d" for v d by (simp add: or_default_def)
  define lease where "lease = or_default (wc_lease_for c) (default_lease_seconds * second)"
  have lease: "3 \<le> lease"
    using assms by (auto simp: lease_def or_default_def default_lease_seconds_def duration_defs)
  have "0 < renew_interval lease r \<and> renew_interval lease r < lease" for r
  proof -
    have "go_div lease 3 = lease div 3" using lease by (intro go_div_nonneg) auto
    moreover have "0 < lease div 3" "lease div 3 < lease" using lease by simp_all
    moreover have "0 < or_default r (default_lease_renew_seconds * second)"
      by (rule pos) (simp add: default_lease_renew_seconds_def duration_defs)
    ultimately show ?thesis by (auto simp: renew_interval_def Let_def)
  qed
  note renew = this
  show ?thesis
    using lease unfolding with_defaults_def Let_def lease_def[symmetric]
    by (simp add: renew) (simp add: pos duration_defs entity_defaults
        default_reap_limit_def default_settle_batch_def default_settle_max_attempts_def
        default_settle_backoff_base_def default_retry_backoff_base_def)
qed

definition zero_config :: worker_config where
  "zero_config = \<lparr>wc_concurrency = 0, wc_item_timeout = 0, wc_max_dimension = 0, wc_lease_for = 0,
     wc_lease_renew_interval = 0, wc_heartbeat_interval = 0, wc_stale_after = 0, wc_reap_interval = 0,
     wc_reap_limit = 0, wc_settle_interval = 0, wc_settle_batch = 0, wc_settle_max_attempts = 0,
     wc_settle_backoff_base = 0, wc_retry_backoff_base = 0, wc_idle_delay = 0, wc_error_delay = 0,
     wc_write_back_timeout = 0, wc_shutdown_wait = 0, wc_disable_reaper = False, wc_disable_settlement = False\<rparr>"

theorem with_defaults_lease_witness:
  "wc_lease_renew_interval (with_defaults zero_config) < wc_lease_for (with_defaults zero_config)"
  using with_defaults_lease[of zero_config] by (simp add: zero_config_def)

end
