(* ===== verification/Image_Pipeline.thy ===== *)
theory Image_Pipeline
  imports Worker_Policy Job_Repo
begin

text \<open>
  \<open>worker/process.go\<close>: the pipeline of one image (preprocessing, generation, storing) and the prompt
  text sent to the model. The services the worker calls (the gateway, the preprocessing service, the
  object store, the asset repository) are interfaces in the source; here they are the fields of a
  record that every function takes. The effects on them are recorded in a trace, in the order in
  which the code performs them.
\<close>

section \<open>The ratio in the prompt\<close>

definition ratio_instructions :: "(ratio \<times> string) list" where
  "ratio_instructions =
     [(''1:1'', bytes [231, 148, 187, 233, 157, 162, 229, 191, 133, 233, 161, 187, 230, 152, 175, 230,
        173, 163,
      230, 150, 185, 229, 189, 162, 230, 158, 132, 229, 155, 190, 239, 188,
        140, 229, 174, 189,
      233, 171, 152, 230, 175, 148, 228, 184, 165, 230, 160, 188,
        32, 49, 58, 49, 227, 128, 130]),
      (''3:4'', bytes [231, 148, 187, 233, 157, 162, 229, 191, 133, 233, 161, 187, 230, 152, 175, 231,
        171, 150,
      231, 137, 136, 230, 158, 132, 229, 155, 190, 239, 188, 140, 229, 174,
        189, 233, 171, 152,
      230, 175, 148, 228, 184, 165, 230, 160, 188, 32, 51, 58, 52,
        239, 188, 136, 233, 171, 152,
      230, 175, 148, 229, 174, 189, 233, 149, 191, 239,
        188, 137, 227, 128, 130]),
      (''4:3'', bytes [231, 148, 187, 233, 157, 162, 229, 191, 133, 233, 161, 187, 230, 152, 175, 230,
        168, 170,
      231, 137, 136, 230, 158, 132, 229, 155, 190, 239, 188, 140, 229, 174,
        189, 233, 171, 152,
      230, 175, 148, 228, 184, 165, 230, 160, 188, 32, 52, 58, 51,
        239, 188, 136, 229, 174, 189,
      230, 175, 148, 233, 171, 152, 233, 149, 191, 239,
        188, 137, 227, 128, 130]),
      (''16:9'', bytes [231, 148, 187, 233, 157, 162, 229, 191, 133, 233, 161, 187, 230, 152, 175, 229,
        174, 189,
      229, 185, 133, 230, 168, 170, 231, 137, 136, 230, 158, 132, 229, 155,
        190, 239, 188, 140,
      229, 174, 189, 233, 171, 152, 230, 175, 148, 228, 184, 165,
        230, 160, 188, 32, 49, 54, 58,
      57, 227, 128, 130]),
      (''9:16'', bytes [231, 148, 187, 233, 157, 162, 229, 191, 133, 233, 161, 187, 230, 152, 175, 231,
        171, 150,
      233, 149, 191, 230, 157, 161, 230, 158, 132, 229, 155, 190, 239, 188,
        140, 229, 174, 189,
      233, 171, 152, 230, 175, 148, 228, 184, 165, 230, 160, 188,
        32, 57, 58, 49, 54, 239, 188,
      136, 230, 137, 139, 230, 156, 186, 229, 133, 168,
        229, 177, 143, 233, 130, 163, 231, 167,
      141, 230, 175, 148, 228, 190, 139, 239,
        188, 137, 227, 128, 130])]"

text \<open>
  \<open>ratioTokenPattern\<close> matches somewhere iff there is a digit, white space, a colon (half or full
  width), white space and a digit. The white space of a Go pattern is ASCII.
\<close>

definition re_space :: "char \<Rightarrow> bool" where
  "re_space c \<longleftrightarrow> (let n = (of_char c :: nat) in n = 9 \<or> n = 10 \<or> n = 12 \<or> n = 13 \<or> n = 32)"

definition full_colon :: string where
  "full_colon = bytes [239, 188, 154]"

definition token_at :: "string \<Rightarrow> bool" where
  "token_at s \<longleftrightarrow>
     (case s of [] \<Rightarrow> False
      | c # cs \<Rightarrow> digit_val c \<noteq> None \<and>
          (let r = dropWhile re_space cs;
               rest = (if has_prefix '':'' r then Some (drop 1 r)
                       else if has_prefix full_colon r then Some (drop 3 r) else None)
           in case rest of None \<Rightarrow> False
              | Some t \<Rightarrow> (case dropWhile re_space t of [] \<Rightarrow> False | x # xs \<Rightarrow> digit_val x \<noteq> None)))"

fun ratio_token :: "string \<Rightarrow> bool" where
  "ratio_token [] = False"
| "ratio_token (c # cs) \<longleftrightarrow> token_at (c # cs) \<or> ratio_token cs"

text \<open>A case-insensitive match of an ASCII word folds the long s, whose lower case is s, as well.\<close>

function fold_case :: "string \<Rightarrow> string" where
  "fold_case [] = []"
| "fold_case (c # cs) =
     (if has_prefix (bytes [197, 191]) (c # cs) then CHR ''s'' # fold_case (drop 1 cs)
      else lower_char c # fold_case cs)"
  by pat_completeness auto
termination
  by (relation "measure length") auto

definition shape_words :: "string list" where
  "shape_words =
     [bytes [230, 173, 163, 230, 150, 185, 229, 189, 162], bytes [230, 150, 185, 229, 189, 162],
      bytes [231, 171, 150, 231, 137, 136], bytes [230, 168, 170, 231, 137, 136],
      bytes [231, 171, 150, 230, 158, 132, 229, 155, 190],
      bytes [230, 168, 170, 230, 158, 132, 229, 155, 190], bytes [231, 171, 150, 229, 185, 133],
      bytes [230, 168, 170, 229, 185, 133]]"

definition context_words :: "string list" where
  "context_words =
     [bytes [230, 158, 132, 229, 155, 190], bytes [231, 148, 187, 229, 185, 133],
      bytes [230, 175, 148, 228, 190, 139], bytes [231, 148, 187, 233, 157, 162]]"

definition ratio_shape :: "string \<Rightarrow> bool" where
  "ratio_shape s \<longleftrightarrow> list_ex (contains s) shape_words
     \<or> list_ex (contains (fold_case s)) [''square'', ''portrait'', ''landscape'']"

definition ratio_context :: "string \<Rightarrow> bool" where
  "ratio_context s \<longleftrightarrow> list_ex (contains s) context_words
     \<or> list_ex (contains (fold_case s)) [''composition'', ''aspect'', ''ratio'', ''framing'']"

definition is_ratio_clause :: "string \<Rightarrow> bool" where
  "is_ratio_clause clause \<longleftrightarrow> (if ratio_token clause then True else ratio_shape clause \<and> ratio_context clause)"

definition separators :: "string list" where
  "separators = [bytes [239, 188, 140], bytes [227, 128, 130], bytes [239, 188, 155], bytes [227, 128, 129],
     '','', '';'', ''.'', [char_of (10 :: nat)]]"

text \<open>\<open>splitKeepingSeparators\<close>: \<open>acc\<close> is the piece read so far, reversed.\<close>

function split_keep :: "string \<Rightarrow> string \<Rightarrow> string list" where
  "split_keep acc [] = (if acc = [] then [] else [rev acc])"
| "split_keep acc (c # cs) =
     (case find (\<lambda>p. has_prefix p (c # cs)) separators of
        Some p \<Rightarrow> (rev acc @ p) # split_keep [] (drop (length p - 1) cs)
      | None \<Rightarrow> split_keep (c # acc) cs)"
  by pat_completeness auto
termination
  by (relation "measure (\<lambda>(acc, s). length s)") auto

declare split_keep.simps [simp del]

definition split_keeping_separators :: "string \<Rightarrow> string list" where
  "split_keeping_separators s = split_keep [] s"

text \<open>\<open>strings.Trim\<close> and \<open>strings.TrimRight\<close> with a set of characters.\<close>

definition trim_right_set :: "string list \<Rightarrow> string \<Rightarrow> string" where
  "trim_right_set ps s = rev (strip_left (map rev ps) (rev s))"

definition trim_set :: "string list \<Rightarrow> string \<Rightarrow> string" where
  "trim_set ps s = trim_right_set ps (strip_left ps s)"

definition cut_set :: "string list" where
  "cut_set = separators @ ['' '']"

definition drops_clause :: "string \<Rightarrow> bool" where
  "drops_clause part \<longleftrightarrow>
     (let body = trim_space (trim_set cut_set part) in body \<noteq> [] \<and> is_ratio_clause body)"

definition strip_ratio_clauses :: "string \<Rightarrow> string" where
  "strip_ratio_clauses prompt =
     (if prompt = [] then []
      else let kept = filter (\<lambda>part. \<not> drops_clause part) (split_keeping_separators prompt);
               out = trim_right_set cut_set (trim_space (concat kept))
           in if out = [] then [] else out @ bytes [227, 128, 130])"

definition with_ratio_instruction :: "string \<Rightarrow> ratio \<Rightarrow> string" where
  "with_ratio_instruction prompt r =
     (case map_of ratio_instructions r of
        None \<Rightarrow> prompt
      | Some instruction \<Rightarrow>
        (let p = strip_ratio_clauses (trim_space prompt)
         in if p = [] then instruction
            else p @ [char_of (10 :: nat), char_of (10 :: nat)] @ instruction))"

lemma separators_nonempty: "p \<in> set separators \<Longrightarrow> p \<noteq> []"
  by (auto simp: separators_def bytes_def)

text \<open>Splitting loses nothing: the pieces put together are the text.\<close>

lemma concat_split_keep: "concat (split_keep acc s) = rev acc @ s"
proof (induction acc s rule: split_keep.induct)
  case (1 acc)
  then show ?case by (simp add: split_keep.simps)
next
  case (2 acc c cs)
  show ?case
  proof (cases "find (\<lambda>p. has_prefix p (c # cs)) separators")
    case None
    with "2.IH"(1) show ?thesis by (simp add: split_keep.simps)
  next
    case (Some p)
    then have p: "p \<noteq> []" "has_prefix p (c # cs)"
      using separators_nonempty by (auto dest: find_SomeD)
    then obtain r where "c # cs = p @ r" by (auto simp: has_prefix_iff)
    then have "p @ drop (length p - 1) cs = c # cs" using p(1) by (cases p) auto
    with "2.IH"(2)[OF Some] Some show ?thesis by (simp add: split_keep.simps)
  qed
qed

section \<open>Requests and results\<close>

record item_result =
  ir_images :: "new_image list"
  ir_stored_billing_request_id :: string

record prepared_image =
  pi_data :: string
  pi_content_type :: string
  pi_filename :: string
  pi_width :: int
  pi_height :: int

text \<open>
  What the services answer while one image is processed. \<open>we_put key n\<close> is the answer of the store to
  attempt \<open>n\<close> (from 0) to write \<open>key\<close>, \<open>we_ctx key n\<close> the error of the context before that attempt,
  and \<open>we_sleep key n\<close> whether the pause after it ran to its end. \<open>we_now\<close> is the clock of the
  database, \<open>we_clock\<close> that of the worker.
\<close>

record worker_env =
  we_now :: time
  we_clock :: time
  we_generate :: "generate_request \<Rightarrow> go_error + generate_result"
  we_get_assets :: "int \<Rightarrow> int list \<Rightarrow> go_error + asset option list"
  we_get_variant :: "int \<Rightarrow> ratio \<Rightarrow> bool \<Rightarrow> int \<Rightarrow> go_error + asset_variant option"
  we_get :: "string \<Rightarrow> go_error + (string \<times> string)"
  we_put :: "string \<Rightarrow> nat \<Rightarrow> go_error option"
  we_ctx :: "string \<Rightarrow> nat \<Rightarrow> go_error option"
  we_sleep :: "string \<Rightarrow> nat \<Rightarrow> bool"
  we_preprocess :: "preprocess_request \<Rightarrow> go_error + preprocess_result option"
  we_new_uid :: "nat \<Rightarrow> string"

datatype effect =
    Generated generate_request
  | Stored string string string
  | Preprocessed preprocess_request
  | VariantUpserted upsert_variant_params

section \<open>Small helpers\<close>

fun first_nonempty :: "string list \<Rightarrow> string" where
  "first_nonempty [] = []"
| "first_nonempty (v # vs) = (if trim_space v \<noteq> [] then trim_space v else first_nonempty vs)"

definition ext_for_content_type :: "string \<Rightarrow> string" where
  "ext_for_content_type content_type =
     (let t = to_lower (trim_space (hd (split_on CHR '';'' content_type)))
      in if t = ''image/jpeg'' \<or> t = ''image/jpg'' then ''.jpg''
         else if t = ''image/webp'' then ''.webp''
         else if t = ''image/heic'' \<or> t = ''image/heif'' then ''.heic''
         else if t = ''image/png'' then ''.png''
         else ''.png'')"

definition filename_for :: "string \<Rightarrow> string \<Rightarrow> string" where
  "filename_for object_key content_type =
     (let name = last (split_on CHR ''/'' object_key)
      in if name = [] then ''image'' @ ext_for_content_type content_type else name)"

text \<open>\<open>targetSize\<close>: never 0, a square when the ratio cannot be parsed.\<close>

definition target_size_or_square :: "ratio \<Rightarrow> int \<Rightarrow> int \<times> int" where
  "target_size_or_square r max_dimension =
     (let m = (if max_dimension \<le> 0 then default_max_dimension else max_dimension)
      in case Ratio.target_size r m of
           Inl e \<Rightarrow> (m, m)
         | Inr (w, h) \<Rightarrow> if w \<le> 0 \<or> h \<le> 0 then (m, m) else (w, h))"

definition int_or_target :: "int option \<Rightarrow> ratio \<Rightarrow> int \<Rightarrow> bool \<Rightarrow> int" where
  "int_or_target v r max_dimension want_width =
     (case v of
        Some n \<Rightarrow> if n > 0 then n
                  else (if want_width then fst (target_size_or_square r max_dimension)
                        else snd (target_size_or_square r max_dimension))
      | None \<Rightarrow> (if want_width then fst (target_size_or_square r max_dimension)
                 else snd (target_size_or_square r max_dimension)))"

definition truncate_for_log :: "string \<Rightarrow> string" where
  "truncate_for_log raw =
     (let s = trim_space raw
      in if length s \<le> 2000 then s else take 2000 s @ bytes [226, 128, 166] @ ''(truncated)'')"

section \<open>Storing\<close>

text \<open>\<open>putWithRetry\<close>: three attempts, the index of the attempt counted up.\<close>

fun put_attempts :: "worker_env \<Rightarrow> string \<Rightarrow> nat \<Rightarrow> nat \<Rightarrow> go_error option \<Rightarrow> go_error option" where
  "put_attempts env key i 0 last_err = last_err"
| "put_attempts env key i (Suc fuel) last_err =
     (case we_ctx env key i of
        Some e \<Rightarrow> Some e
      | None \<Rightarrow>
        (case we_put env key i of
           None \<Rightarrow> None
         | Some e \<Rightarrow> if \<not> we_sleep env key i then Some e else put_attempts env key (i + 1) fuel (Some e)))"

definition put_with_retry :: "worker_env \<Rightarrow> string \<Rightarrow> string \<Rightarrow> string \<Rightarrow> go_error option \<times> effect list" where
  "put_with_retry env key content_type data =
     (case put_attempts env key 0 3 None of
        None \<Rightarrow> (None, [Stored key content_type data]) | Some e \<Rightarrow> (Some e, []))"

definition positive_or_none :: "int \<Rightarrow> int option" where
  "positive_or_none n = (if n > 0 then Some n else None)"

definition new_image_of :: "worker_env \<Rightarrow> generated_image \<Rightarrow> nat \<Rightarrow> string \<Rightarrow> string \<Rightarrow> new_image" where
  "new_image_of env img index key content_type =
     \<lparr>ni_uid = we_new_uid env index, ni_index = int index, ni_object_key = key, ni_content_type = content_type,
      ni_byte_size = int (length (gi_data img)), ni_width = positive_or_none (gi_width img),
      ni_height = positive_or_none (gi_height img),
      ni_billing_tier = Some (classify_billing_tier_or_default (gi_width img) (gi_height img))\<rparr>"

text \<open>\<open>storeImages\<close>: \<open>index\<close> counts from 1; the first image that cannot be stored ends the item.\<close>

fun store_images ::
  "worker_env \<Rightarrow> job \<Rightarrow> job_item \<Rightarrow> nat \<Rightarrow> generated_image list \<Rightarrow> (go_error + new_image list) \<times> effect list" where
  "store_images env j it index [] = (Inr [], [])"
| "store_images env j it index (img # imgs) =
     (let key = image_object_key (we_clock env) (job_uid j) (it_seq it) (it_attempt_count it) (int index);
          content_type = first_nonempty [gi_content_type img, ''image/png'']
      in case put_with_retry env key content_type (gi_data img) of
           (Some e, tr) \<Rightarrow>
             (Inl (item_err (item_with_upstream (Some (item_with_cause (Some (fail_final ErrCodeStorageError)) e))
                (''failed to persist generated image at '' @ key))), tr)
         | (None, tr) \<Rightarrow>
             (case store_images env j it (index + 1) imgs of
                (Inl e, tr') \<Rightarrow> (Inl e, tr @ tr')
              | (Inr rest, tr') \<Rightarrow> (Inr (new_image_of env img index key content_type # rest), tr @ tr')))"

section \<open>The input image\<close>

definition retry_cause :: "string \<Rightarrow> go_error \<Rightarrow> go_error" where
  "retry_cause code e = item_err (item_with_cause (Some (fail_retry code)) e)"

definition final_cause :: "string \<Rightarrow> go_error \<Rightarrow> go_error" where
  "final_cause code e = item_err (item_with_cause (Some (fail_final code)) e)"

definition final_upstream :: "string \<Rightarrow> string \<Rightarrow> go_error" where
  "final_upstream code raw = item_err (item_with_upstream (Some (fail_final code)) raw)"

definition preprocess ::
  "worker_env \<Rightarrow> job \<Rightarrow> int \<Rightarrow> int \<Rightarrow> (go_error + prepared_image) \<times> effect list" where
  "preprocess env j asset_id max_dimension =
     (case we_get_assets env (job_user_id j) [asset_id] of
        Inl e \<Rightarrow> (Inl (retry_cause ErrCodeInternal e), [])
      | Inr assets \<Rightarrow>
        (case (case assets of [] \<Rightarrow> None | a # _ \<Rightarrow> a) of
           None \<Rightarrow> (Inl (final_upstream ErrCodeAssetNotFound
                     (''asset '' @ itoa asset_id @ '' not found for user '' @ itoa (job_user_id j))), [])
         | Some asset \<Rightarrow>
           (case we_get env (as_object_key asset) of
              Inl e \<Rightarrow> (Inl (if errors_is e ErrObjectNotFound then final_cause ErrCodeAssetNotFound e
                              else retry_cause ErrCodeStorageError e), [])
            | Inr (raw, ct) \<Rightarrow>
              (let content_type = first_nonempty [ct, as_content_type asset, ''application/octet-stream''];
                   req = \<lparr>pr_data = raw, pr_filename = filename_for (as_object_key asset) content_type,
                          pr_content_type = content_type, pr_ratio = job_ratio j,
                          pr_keep_transparency = job_keep_transparency j, pr_max_dimension = max_dimension\<rparr>
               in case we_preprocess env req of
                    Inl e \<Rightarrow> (Inl (final_cause ErrCodePreprocessFailed e), [Preprocessed req])
                  | Inr None \<Rightarrow>
                      (Inl (final_upstream ErrCodePreprocessFailed ''preprocess returned empty body''), [Preprocessed req])
                  | Inr (Some result) \<Rightarrow>
                    if pp_data result = [] then
                      (Inl (final_upstream ErrCodePreprocessFailed ''preprocess returned empty body''), [Preprocessed req])
                    else
                      (let out_type = first_nonempty [pp_content_type result, ''image/png''];
                           key = variant_object_key (we_clock env) (as_uid asset) (job_ratio j)
                                   (job_keep_transparency j) max_dimension (ext_for_content_type out_type)
                       in case put_with_retry env key out_type (pp_data result) of
                            (Some e, tr) \<Rightarrow> (Inl (retry_cause ErrCodeStorageError e), Preprocessed req # tr)
                          | (None, tr) \<Rightarrow>
                            (let row = \<lparr>uv_asset_id = as_id asset, uv_ratio = job_ratio j,
                                 uv_keep_transparency = job_keep_transparency j, uv_max_dimension = max_dimension,
                                 uv_object_key = key, uv_width = Some (pp_width result),
                                 uv_height = Some (pp_height result), uv_content_type = out_type\<rparr>;
                                 (w, h) = (if pp_width result \<le> 0 \<or> pp_height result \<le> 0
                                           then target_size_or_square (job_ratio j) max_dimension
                                           else (pp_width result, pp_height result))
                             in (Inr \<lparr>pi_data = pp_data result, pi_content_type = out_type,
                                      pi_filename = filename_for key out_type, pi_width = w, pi_height = h\<rparr>,
                                 Preprocessed req # tr @ [VariantUpserted row])))))))"

definition resolve_image ::
  "worker_env \<Rightarrow> worker_settings \<Rightarrow> job \<Rightarrow> job_item \<Rightarrow> (go_error + prepared_image) \<times> effect list" where
  "resolve_image env s j it =
     (case it_asset_id it of
        None \<Rightarrow> (Inl (final_upstream ErrCodeInvalidRequest ''job item has no asset''), [])
      | Some asset_id \<Rightarrow>
        (let max_dimension = ws_max_dimension s;
             redo = preprocess env j asset_id max_dimension
         in case we_get_variant env asset_id (job_ratio j) (job_keep_transparency j) max_dimension of
              Inl e \<Rightarrow> if errors_is e ErrNotFound then redo else (Inl (retry_cause ErrCodeInternal e), [])
            | Inr None \<Rightarrow> redo
            | Inr (Some v) \<Rightarrow>
              (case we_get env (av_object_key v) of
                 Inl e \<Rightarrow> if errors_is e ErrObjectNotFound then redo
                          else (Inl (retry_cause ErrCodeStorageError e), [])
               | Inr (data, ct) \<Rightarrow>
                 (Inr \<lparr>pi_data = data,
                       pi_content_type = first_nonempty [ct, av_content_type v, ''image/png''],
                       pi_filename = filename_for (av_object_key v) (first_nonempty [ct, av_content_type v]),
                       pi_width = int_or_target (av_width v) (job_ratio j) max_dimension True,
                       pi_height = int_or_target (av_height v) (job_ratio j) max_dimension False\<rparr>, []))))"

section \<open>One item\<close>

definition generate_request_of :: "worker_settings \<Rightarrow> job \<Rightarrow> job_item \<Rightarrow> prepared_image \<Rightarrow> generate_request" where
  "generate_request_of s j it input =
     \<lparr>gr_user_id = job_user_id j, gr_api_key_id = job_api_key_id j, gr_job_uid = job_uid j, gr_seq = it_seq it,
      gr_attempt = it_attempt_count it,
      gr_model = (if trim_space (job_model j) = [] then default_model else trim_space (job_model j)),
      gr_prompt = with_ratio_instruction (it_prompt_text it) (job_ratio j),
      gr_size = itoa (pi_width input) @ ''x'' @ itoa (pi_height input), gr_ratio = job_ratio j,
      gr_image_data = pi_data input, gr_image_filename = pi_filename input,
      gr_image_content_type = pi_content_type input,
      gr_billing_request_id = billing_request_id (job_uid j) (it_seq it) (it_attempt_count it),
      gr_timeout = ws_item_timeout s\<rparr>"

definition budget_text :: "job_item \<Rightarrow> string" where
  "budget_text it = ''attempt '' @ itoa (it_attempt_count it) @ '' exceeds max_attempts '' @
     itoa (normalize_max_attempts (it_max_attempts it))"

text \<open>The first image claimed takes its job from holding to running; a conflict is no error here.\<close>

definition start_running :: "worker_env \<Rightarrow> job \<Rightarrow> db \<Rightarrow> db" where
  "start_running env j d =
     (if job_status j = JobStatusHolding then
        (case update_job_status (we_now env) (job_id j) JobStatusHolding JobStatusRunning d of
           Inl e \<Rightarrow> d | Inr (_, d') \<Rightarrow> d')
      else d)"

definition process_item ::
  "worker_env \<Rightarrow> worker_settings \<Rightarrow> job \<Rightarrow> job_item \<Rightarrow> db \<Rightarrow> (go_error + item_result) \<times> effect list \<times> db" where
  "process_item env s j it d =
     (if attempt_budget_exceeded (it_attempt_count it) (it_max_attempts it) then
        (Inl (final_upstream ErrCodeMaxAttemptsExceeded (budget_text it)), [], d)
      else if is_stop_requested (Some j) then
        (Inl (final_upstream ErrCodeCanceled ''job stop requested before this item started''), [], d)
      else
        (let d1 = start_running env j d
         in case validate_billing_request_id_parts (job_uid j) (it_seq it) (it_attempt_count it) of
              Some e \<Rightarrow> (Inl (final_cause ErrCodeInternal e), [], d1)
            | None \<Rightarrow>
              (case resolve_image env s j it of
                 (Inl e, tr) \<Rightarrow> (Inl e, tr, d1)
               | (Inr input, tr) \<Rightarrow>
                 (let req = generate_request_of s j it input
                  in case we_generate env req of
                       Inl e \<Rightarrow> (Inl e, tr @ [Generated req], d1)
                     | Inr res \<Rightarrow>
                       if gx_images res = [] then
                         (Inl (final_upstream ErrCodeUpstreamError (truncate_for_log (gx_raw_response res))),
                          tr @ [Generated req], d1)
                       else
                         (let stored = (if trim_space (gx_stored_billing_request_id res) = []
                                then stored_billing_request_id (job_uid j) (it_seq it) (it_attempt_count it)
                                else trim_space (gx_stored_billing_request_id res))
                          in case store_images env j it 1 (gx_images res) of
                               (Inl e, tr') \<Rightarrow> (Inl e, tr @ Generated req # tr', d1)
                             | (Inr images, tr') \<Rightarrow>
                               (Inr \<lparr>ir_images = images, ir_stored_billing_request_id = stored\<rparr>,
                                tr @ Generated req # tr', d1))))))"

section \<open>What the pipeline guarantees\<close>

fun is_generated :: "effect \<Rightarrow> bool" where
  "is_generated (Generated req) = True"
| "is_generated e = False"

lemma put_with_retry_no_gen: "put_with_retry env key ct data = (r, tr) \<Longrightarrow> filter is_generated tr = []"
  by (auto simp: put_with_retry_def split: option.splits)

lemma put_with_retry_stored: "put_with_retry env key ct data = (None, tr) \<Longrightarrow> tr = [Stored key ct data]"
  by (auto simp: put_with_retry_def split: option.splits)

lemma store_images_no_gen: "store_images env j it n imgs = (r, tr) \<Longrightarrow> filter is_generated tr = []"
proof (induction imgs arbitrary: n r tr)
  case (Cons img imgs)
  then show ?case
    by (auto simp: Let_def split: prod.splits option.splits sum.splits dest!: put_with_retry_no_gen)
qed simp

lemma preprocess_no_gen: "preprocess env j a m = (r, tr) \<Longrightarrow> filter is_generated tr = []"
  unfolding preprocess_def Let_def
  by (auto split: sum.splits option.splits list.splits prod.splits if_splits dest!: put_with_retry_no_gen)

lemma resolve_image_no_gen: "resolve_image env s j it = (r, tr) \<Longrightarrow> filter is_generated tr = []"
  unfolding resolve_image_def Let_def
  by (auto split: sum.splits option.splits prod.splits if_splits dest: preprocess_no_gen)

text \<open>The three shapes of a trace: nothing was generated, the gateway failed, or the images were stored.\<close>

lemma process_item_trace:
  assumes "process_item env s j it d = (r, tr, d')"
  shows "filter is_generated tr = [] \<or>
     (\<exists>t1 t2 input. tr = t1 @ Generated (generate_request_of s j it input) # t2
        \<and> filter is_generated t1 = [] \<and> filter is_generated t2 = []
        \<and> \<not> attempt_budget_exceeded (it_attempt_count it) (it_max_attempts it) \<and> \<not> is_stop_requested (Some j)
        \<and> validate_billing_request_id_parts (job_uid j) (it_seq it) (it_attempt_count it) = None)"
proof -
  note unf = assms[unfolded process_item_def Let_def]
  show ?thesis
  proof (cases "attempt_budget_exceeded (it_attempt_count it) (it_max_attempts it) \<or> is_stop_requested (Some j)
      \<or> validate_billing_request_id_parts (job_uid j) (it_seq it) (it_attempt_count it) \<noteq> None")
    case True
    then have "tr = []" using unf by (auto split: if_splits option.splits)
    then show ?thesis by simp
  next
    case False
    obtain a t1 where res: "resolve_image env s j it = (a, t1)" by fastforce
    note t1 = resolve_image_no_gen[OF res]
    show ?thesis
    proof (cases a)
      case (Inl e)
      with unf False res t1 show ?thesis by simp
    next
      case (Inr input)
      let ?req = "generate_request_of s j it input"
      have "\<exists>t2. tr = t1 @ Generated ?req # t2 \<and> filter is_generated t2 = []"
      proof (cases "we_generate env ?req")
        case gen: (Inl e)
        with unf False res Inr have "tr = t1 @ [Generated ?req]" by auto
        then show ?thesis by simp
      next
        case gen: (Inr out)
        obtain b t2 where st: "store_images env j it 1 (gx_images out) = (b, t2)" by fastforce
        have "tr = fst (snd (process_item env s j it d))" by (simp add: assms)
        also have "\<dots> = t1 @ Generated ?req # (if gx_images out = [] then [] else t2)"
          using False by (cases b) (simp_all add: process_item_def res Inr gen st[simplified])
        finally have "tr = t1 @ Generated ?req # (if gx_images out = [] then [] else t2)" .
        moreover have "filter is_generated (if gx_images out = [] then [] else t2) = []"
          using store_images_no_gen[OF st] by simp
        ultimately show ?thesis by (intro exI) (rule conjI)
      qed
      then obtain t2 where t2: "tr = t1 @ Generated ?req # t2" "filter is_generated t2 = []" by (elim exE conjE)
      show ?thesis
        by (rule disjI2, rule exI[of _ t1], rule exI[of _ t2], rule exI[of _ input]) (simp add: t2 t1 False[simplified])
    qed
  qed
qed

text \<open>Processing an item spends at most once and only within its rights. The trace holds at most one
  call of the gateway; there is none when the attempts are used up or the user has asked to stop; and
  a call that is made carries the billing id of exactly this job, sequence number and attempt, valid
  for the upstream ledger.\<close>

theorem process_item_spends_once:
  assumes "process_item env s j it d = (r, tr, d')"
  shows "length (filter is_generated tr) \<le> 1
    \<and> (\<forall>req. Generated req \<in> set tr \<longrightarrow>
         it_attempt_count it \<le> normalize_max_attempts (it_max_attempts it)
         \<and> job_cancel_requested_at j = None
         \<and> validate_billing_request_id_parts (job_uid j) (it_seq it) (it_attempt_count it) = None
         \<and> gr_billing_request_id req = billing_request_id (job_uid j) (it_seq it) (it_attempt_count it)
         \<and> gr_user_id req = job_user_id j \<and> gr_attempt req = it_attempt_count it)"
proof -
  have none: "req \<notin> {req. Generated req \<in> set t}" if "filter is_generated t = []" for t req
    using that by (auto simp: filter_empty_conv)
  consider (no) "filter is_generated tr = []"
    | (yes) t1 t2 input where "tr = t1 @ Generated (generate_request_of s j it input) # t2"
        "filter is_generated t1 = []" "filter is_generated t2 = []"
        "\<not> attempt_budget_exceeded (it_attempt_count it) (it_max_attempts it)" "\<not> is_stop_requested (Some j)"
        "validate_billing_request_id_parts (job_uid j) (it_seq it) (it_attempt_count it) = None"
    using process_item_trace[OF assms] by blast
  then show ?thesis
  proof cases
    case no
    then show ?thesis by (auto simp: filter_empty_conv)
  next
    case yes
    have len: "length (filter is_generated tr) \<le> 1" by (simp add: yes(1-3))
    have "gr_billing_request_id req = billing_request_id (job_uid j) (it_seq it) (it_attempt_count it)
        \<and> gr_user_id req = job_user_id j \<and> gr_attempt req = it_attempt_count it" if "Generated req \<in> set tr" for req
    proof -
      have "req = generate_request_of s j it input"
        using that none[OF yes(2)] none[OF yes(3)] by (simp add: yes(1))
      then show ?thesis by (simp add: generate_request_of_def)
    qed
    moreover have "it_attempt_count it \<le> normalize_max_attempts (it_max_attempts it)" "job_cancel_requested_at j = None"
      using yes(4,5) by (simp_all add: attempt_budget_exceeded_def is_stop_requested_def)
    ultimately show ?thesis using len yes(6) by blast
  qed
qed

lemma preprocess_ok:
  assumes "preprocess env j asset_id m = (Inr input, tr)"
  shows "\<exists>req res. we_preprocess env req = Inr (Some res) \<and> pi_data input = pp_data res \<and> pp_data res \<noteq> []
      \<and> pr_ratio req = job_ratio j \<and> pr_keep_transparency req = job_keep_transparency j \<and> pr_max_dimension req = m"
proof -
  note unf = assms[unfolded preprocess_def Let_def]
  from unf obtain asset rest where as: "we_get_assets env (job_user_id j) [asset_id] = Inr (Some asset # rest)"
    by (auto split: sum.splits list.splits option.splits)
  note unf = unf[unfolded as sum.case list.case option.case]
  then obtain raw ct where get: "we_get env (as_object_key asset) = Inr (raw, ct)"
    by (cases "we_get env (as_object_key asset)") auto
  let ?ct = "first_nonempty [ct, as_content_type asset, ''application/octet-stream'']"
  define req where "req = \<lparr>pr_data = raw, pr_filename = filename_for (as_object_key asset) ?ct, pr_content_type = ?ct,
      pr_ratio = job_ratio j, pr_keep_transparency = job_keep_transparency j, pr_max_dimension = m\<rparr>"
  note unf = unf[unfolded get sum.case prod.case, folded req_def]
  then obtain res where pre: "we_preprocess env req = Inr (Some res)"
    by (cases "we_preprocess env req") (auto split: option.splits)
  note unf = unf[unfolded pre sum.case option.case]
  then have ne: "pp_data res \<noteq> []" by auto
  with unf have "pi_data input = pp_data res" by (auto split: prod.splits option.splits)
  with pre ne show ?thesis by (intro exI[of _ req] exI[of _ res]) (simp add: req_def)
qed

text \<open>Preprocessing fails closed. Whenever an input image is sent on, its bytes are those of a stored
  variant for exactly this asset, ratio, transparency and size, or the non-empty answer of the
  preprocessing service to a request with exactly these parameters; the original upload is never
  used in its place.\<close>

theorem resolve_image_fails_closed:
  assumes "resolve_image env s j it = (Inr input, tr)"
  shows "\<exists>asset_id. it_asset_id it = Some asset_id \<and>
     ((\<exists>v ct. we_get_variant env asset_id (job_ratio j) (job_keep_transparency j) (ws_max_dimension s) = Inr (Some v)
          \<and> we_get env (av_object_key v) = Inr (pi_data input, ct))
      \<or> (\<exists>req res. we_preprocess env req = Inr (Some res) \<and> pi_data input = pp_data res \<and> pp_data res \<noteq> []
          \<and> pr_ratio req = job_ratio j \<and> pr_keep_transparency req = job_keep_transparency j
          \<and> pr_max_dimension req = ws_max_dimension s))"
proof -
  obtain asset_id where a: "it_asset_id it = Some asset_id"
    using assms by (cases "it_asset_id it") (auto simp: resolve_image_def)
  let ?m = "ws_max_dimension s"
  have pre: "\<exists>req res. we_preprocess env req = Inr (Some res) \<and> pi_data input = pp_data res \<and> pp_data res \<noteq> []
      \<and> pr_ratio req = job_ratio j \<and> pr_keep_transparency req = job_keep_transparency j \<and> pr_max_dimension req = ?m"
    if "preprocess env j asset_id ?m = (Inr input, t)" for t
    using preprocess_ok[OF that] by blast
  note unf = assms[unfolded resolve_image_def Let_def a option.case]
  show ?thesis
  proof (cases "we_get_variant env asset_id (job_ratio j) (job_keep_transparency j) ?m")
    case (Inl e)
    with unf have "preprocess env j asset_id ?m = (Inr input, tr)" by (simp split: if_splits)
    from pre[OF this] a show ?thesis by blast
  next
    case var: (Inr vo)
    show ?thesis
    proof (cases vo)
      case None
      with unf var have "preprocess env j asset_id ?m = (Inr input, tr)" by simp
      from pre[OF this] a show ?thesis by blast
    next
      case (Some v)
      show ?thesis
      proof (cases "we_get env (av_object_key v)")
        case (Inl e)
        with unf var Some have "preprocess env j asset_id ?m = (Inr input, tr)" by (simp split: if_splits)
        from pre[OF this] a show ?thesis by blast
      next
        case (Inr c)
        obtain data ct where c: "c = (data, ct)" by fastforce
        with unf var Some Inr have "pi_data input = data" by auto
        with a var Some Inr c show ?thesis by blast
      qed
    qed
  qed
qed

lemma upt_shift: "map (\<lambda>k. f (int n + int k)) [0..<Suc m] = f (int n) # map (\<lambda>k. f (int (n + 1) + int k)) [0..<m]"
  unfolding upt_conv_Cons[OF zero_less_Suc] map_Suc_upt[symmetric] by (simp add: ac_simps)

lemma store_images_all:
  "store_images env j it n imgs = (Inr rows, tr) \<Longrightarrow>
     map ni_index rows = map (\<lambda>k. int n + int k) [0..<length imgs]
     \<and> map ni_object_key rows = map (\<lambda>k. image_object_key (we_clock env) (job_uid j) (it_seq it)
           (it_attempt_count it) (int n + int k)) [0..<length imgs]
     \<and> (\<forall>k < length imgs. \<exists>ct. Stored (image_object_key (we_clock env) (job_uid j) (it_seq it)
           (it_attempt_count it) (int n + int k)) ct (gi_data (imgs ! k)) \<in> set tr)"
proof (induction imgs arbitrary: n rows tr)
  case Nil
  then show ?case by simp
next
  case (Cons img imgs)
  let ?key = "\<lambda>i. image_object_key (we_clock env) (job_uid j) (it_seq it) (it_attempt_count it) i"
  let ?ct = "first_nonempty [gi_content_type img, ''image/png'']"
  from Cons.prems obtain t1 rest t2 where p: "put_with_retry env (?key (int n)) ?ct (gi_data img) = (None, t1)"
    and r: "store_images env j it (n + 1) imgs = (Inr rest, t2)"
    and rows: "rows = new_image_of env img n (?key (int n)) ?ct # rest" and tr: "tr = t1 @ t2"
    by (auto simp: Let_def split: prod.splits option.splits sum.splits)
  note IH = Cons.IH[OF r]
  have t1: "t1 = [Stored (?key (int n)) ?ct (gi_data img)]" by (rule put_with_retry_stored[OF p])
  have stored: "\<exists>ct. Stored (?key (int n + int k)) ct (gi_data ((img # imgs) ! k)) \<in> set tr" if "k < Suc (length imgs)" for k
  proof (cases k)
    case 0
    then show ?thesis by (auto simp: tr t1)
  next
    case (Suc m)
    then have "\<exists>ct. Stored (?key (int (n + 1) + int m)) ct (gi_data (imgs ! m)) \<in> set t2" using IH that by simp
    then show ?thesis by (auto simp: tr Suc ac_simps)
  qed
  show ?case
    using IH stored upt_shift[of "\<lambda>x. x" n "length imgs"] upt_shift[of ?key n "length imgs"]
    by (simp add: rows new_image_of_def)
qed

text \<open>No paid image is lost or overwritten. When an item succeeds, the result has one row for every
  image the gateway returned, numbered from 1 in the order returned, each with the object key of its
  number, and every image's bytes have been written under that key.\<close>

theorem process_item_stores_all:
  assumes "process_item env s j it d = (Inr result, tr, d')"
  shows "\<exists>input out. Generated (generate_request_of s j it input) \<in> set tr
     \<and> we_generate env (generate_request_of s j it input) = Inr out \<and> gx_images out \<noteq> []
     \<and> map ni_index (ir_images result) = map (\<lambda>k. 1 + int k) [0..<length (gx_images out)]
     \<and> map ni_object_key (ir_images result) = map (\<lambda>k. image_object_key (we_clock env) (job_uid j) (it_seq it)
           (it_attempt_count it) (1 + int k)) [0..<length (gx_images out)]
     \<and> (\<forall>k < length (gx_images out). \<exists>ct. Stored (image_object_key (we_clock env) (job_uid j) (it_seq it)
           (it_attempt_count it) (1 + int k)) ct (gi_data (gx_images out ! k)) \<in> set tr)"
proof -
  note unf = assms[unfolded process_item_def Let_def]
  have g: "\<not> attempt_budget_exceeded (it_attempt_count it) (it_max_attempts it)" "\<not> is_stop_requested (Some j)"
    "validate_billing_request_id_parts (job_uid j) (it_seq it) (it_attempt_count it) = None"
    using unf by (auto split: if_splits option.splits)
  obtain a t1 where res: "resolve_image env s j it = (a, t1)" by fastforce
  with unf g obtain input where a: "a = Inr input" by (cases a) auto
  let ?req = "generate_request_of s j it input"
  from unf g res a obtain out where gen: "we_generate env ?req = Inr out" and ne: "gx_images out \<noteq> []"
    by (auto split: sum.splits if_splits)
  obtain b t2 where st: "store_images env j it 1 (gx_images out) = (b, t2)" by fastforce
  from unf g res a gen ne st obtain rows where b: "b = Inr rows" by (cases b) auto
  from unf g res a gen ne st b have r: "ir_images result = rows" and tr: "tr = t1 @ Generated ?req # t2" by auto
  from store_images_all[OF st[unfolded b]] have "map ni_index rows = map (\<lambda>k. 1 + int k) [0..<length (gx_images out)]"
    and "map ni_object_key rows = map (\<lambda>k. image_object_key (we_clock env) (job_uid j) (it_seq it)
           (it_attempt_count it) (1 + int k)) [0..<length (gx_images out)]"
    and "\<forall>k < length (gx_images out). \<exists>ct. Stored (image_object_key (we_clock env) (job_uid j) (it_seq it)
           (it_attempt_count it) (1 + int k)) ct (gi_data (gx_images out ! k)) \<in> set t2"
    by simp_all
  with gen ne show ?thesis unfolding r tr by (intro exI[of _ input] exI[of _ out]) auto
qed

section \<open>A run of the pipeline\<close>

definition sample_env :: worker_env where
  "sample_env = \<lparr>we_now = 5, we_clock = 5,
     we_generate = (\<lambda>req. Inr \<lparr>gx_images = [\<lparr>gi_data = ''png'', gi_content_type = ''image/png'', gi_width = 1024,
        gi_height = 1024\<rparr>], gx_upstream_status = 200, gx_raw_response = [], gx_stored_billing_request_id = []\<rparr>),
     we_get_assets = (\<lambda>u ids. Inr []),
     we_get_variant = (\<lambda>a r k m. Inr (Some \<lparr>av_id = 1, av_asset_id = a, av_ratio = r, av_keep_transparency = k,
        av_max_dimension = m, av_object_key = ''v'', av_width = Some 10, av_height = Some 10,
        av_content_type = ''image/png'', av_created_at = 0\<rparr>)),
     we_get = (\<lambda>k. Inr (''data'', ''image/png'')), we_put = (\<lambda>k n. None), we_ctx = (\<lambda>k n. None),
     we_sleep = (\<lambda>k n. True), we_preprocess = (\<lambda>req. Inr None), we_new_uid = (\<lambda>n. sample_uid)\<rparr>"

definition sample_settings :: worker_settings where
  "sample_settings = \<lparr>ws_concurrency = 4, ws_item_timeout = 180000000000, ws_max_dimension = 2048\<rparr>"

definition sample_job :: job where
  "sample_job = \<lparr>job_id = 1, job_uid = sample_uid, job_user_id = 7, job_api_key_id = 3, job_origin = OriginWeb,
      job_name = ''mugs'', job_status = JobStatusRunning, job_ratio = ''1:1'', job_model = ''gpt-image-2'',
      job_keep_transparency = False, job_item_count = 1, job_success_count = 0, job_fail_count = 0,
      job_cancelled_count = 0, job_idempotency_key = None, job_callback_url = None,
      job_currency = ''USD'', job_estimated_cost = 3, job_actual_cost = None, job_base_unit_price = 3,
      job_group_rate_multiplier = 1, job_account_rate_multiplier = 1, job_billing_mode = ''image'',
      job_pricing_tier = ''2K'', job_price_source = ''group'', job_pricing_snapshot_version = 1,
      job_revision = 0, job_last_error_code = None, job_last_error_message = None,
      job_heartbeat_at = None, job_cancel_requested_at = None, job_expires_at = None,
      job_created_at = 1, job_updated_at = 1, job_started_at = None, job_finished_at = None,
      job_settled_at = None, job_user_deleted_at = None\<rparr>"

definition sample_item :: job_item where
  "sample_item = \<lparr>it_id = 1, it_job_id = 1, it_seq = 1, it_asset_id = Some 5, it_variant_id = None, it_prompt_id = None,
      it_prompt_text = ''a red mug'', it_status = ItemStatusRunning, it_attempt_count = 1, it_max_attempts = 2,
      it_last_error_code = None, it_last_error_message = None, it_billed_cost = None,
      it_billing_request_id = None, it_billing_mode = None, it_billing_tier = None, it_worker_id = Some ''w1'',
      it_lease_expires_at = Some 9, it_available_at = 1, it_created_at = 1, it_updated_at = 1,
      it_started_at = Some 1, it_finished_at = None\<rparr>"

lemmas sample_defs = sample_env_def sample_settings_def sample_job_def sample_item_def

lemma sample_resolve:
  "\<exists>input. resolve_image sample_env sample_settings sample_job sample_item = (Inr input, [])"
  by (simp add: resolve_image_def sample_defs Let_def)

definition sample_result :: generate_result where
  "sample_result = \<lparr>gx_images = [\<lparr>gi_data = ''png'', gi_content_type = ''image/png'', gi_width = 1024,
     gi_height = 1024\<rparr>], gx_upstream_status = 200, gx_raw_response = [], gx_stored_billing_request_id = []\<rparr>"

definition sample_db :: db where
  "sample_db = \<lparr>db_jobs = [sample_job], db_items = [sample_item], db_images = [], db_holds = [], db_alerts = [],
     db_quota = [], db_users = [], db_usage_logs = [], db_next_job = 2, db_next_item = 2, db_next_image = 1,
     db_next_hold = 1, db_next_alert = 1, db_next_quota = 1\<rparr>"

lemma sample_fields:
  "we_generate sample_env req = Inr sample_result" "gx_images sample_result \<noteq> []"
  "it_attempt_count sample_item = 1" "it_max_attempts sample_item = 2" "it_seq sample_item = 1"
  "job_uid sample_job = sample_uid" "job_status sample_job = JobStatusRunning" "job_cancel_requested_at sample_job = None"
  by (simp_all add: sample_defs sample_result_def)

lemma sample_process:
  "\<exists>result tr. process_item sample_env sample_settings sample_job sample_item sample_db = (Inr result, tr, sample_db)"
proof -
  have v: "validate_billing_request_id_parts sample_uid 1 1 = None"
    using sample_uid_valid by (simp add: validate_billing_request_id_parts_def billing_request_id_max_seq_def
        billing_request_id_max_attempt_def)
  from sample_resolve obtain input where r: "resolve_image sample_env sample_settings sample_job sample_item = (Inr input, [])"
    by blast
  have "\<exists>rows tr. store_images sample_env sample_job sample_item 1 (gx_images sample_result) = (Inr rows, tr)"
    by (simp add: Let_def put_with_retry_def sample_env_def sample_result_def numeral_3_eq_3)
  then obtain rows tr where st: "store_images sample_env sample_job sample_item 1 (gx_images sample_result) = (Inr rows, tr)"
    by blast
  show ?thesis
    using v r st
    by (simp add: process_item_def Let_def attempt_budget_exceeded_def normalize_max_attempts_def
        is_stop_requested_def start_running_def sample_fields)
qed

theorem process_item_spends_once_witness:
  "\<exists>result tr. process_item sample_env sample_settings sample_job sample_item sample_db = (Inr result, tr, sample_db)
     \<and> length (filter is_generated tr) \<le> 1"
  using sample_process process_item_spends_once by blast

theorem resolve_image_fails_closed_witness: "\<exists>asset_id. it_asset_id sample_item = Some asset_id"
  using sample_resolve resolve_image_fails_closed by blast

theorem process_item_stores_all_witness:
  "\<exists>result tr. process_item sample_env sample_settings sample_job sample_item sample_db = (Inr result, tr, sample_db)
     \<and> ir_images result \<noteq> []"
proof -
  from sample_process obtain result tr
    where p: "process_item sample_env sample_settings sample_job sample_item sample_db = (Inr result, tr, sample_db)" by blast
  from process_item_stores_all[OF p] have "ir_images result \<noteq> []"
    by (elim exE conjE) (metis length_0_conv length_map length_upt minus_nat.diff_0)
  with p show ?thesis by blast
qed

end
