(* ===== verification/Repo_Call.thy ===== *)
theory Repo_Call
  imports Database
begin

text \<open>
  A repository call of a process, seen from that process: before the call the other processes may
  have changed the data, the call runs in a transaction of its own, and it may fail, which changes
  nothing. The data is the database, or one of the tables kept apart from it.
\<close>

definition repo_call ::
  "('p \<Rightarrow> 'd \<Rightarrow> 'd) \<Rightarrow> ('p \<Rightarrow> go_error option) \<Rightarrow> 'p \<Rightarrow> ('d \<Rightarrow> go_error + 'a \<times> 'd) \<Rightarrow> 'd
   \<Rightarrow> (go_error + 'a) \<times> 'd" where
  "repo_call meanwhile fails p f d =
     (let d0 = meanwhile p d
      in case fails p of
           Some err \<Rightarrow> (Inl err, d0)
         | None \<Rightarrow> (case f d0 of Inl err \<Rightarrow> (Inl err, d0) | Inr (a, d1) \<Rightarrow> (Inr a, d1)))"

text \<open>
  Everything a run of calls may do to the database lies in a relation that is closed under
  composition, provided that what the others do and each call alone lie in it.
\<close>

locale run_relation =
  fixes R :: "'d \<Rightarrow> 'd \<Rightarrow> bool"
  assumes R_refl: "R d d"
    and R_trans: "R a b \<Longrightarrow> R b c \<Longrightarrow> R a c"
begin

lemma call_related:
  assumes "\<And>p d. R d (meanwhile p d)" and "repo_call meanwhile fails p f d = (r, d')"
    and "\<And>d0 a d1. f d0 = Inr (a, d1) \<Longrightarrow> R d0 d1"
  shows "R d d'"
proof -
  from assms(2) consider "d' = meanwhile p d" | a where "f (meanwhile p d) = Inr (a, d')"
    by (auto simp: repo_call_def Let_def split: option.splits sum.splits)
  then show ?thesis
  proof cases
    case 2
    then show ?thesis using assms(3) assms(1)[of d p] R_trans by blast
  qed (simp add: assms(1))
qed

lemma read_related:
  "(\<And>p d. R d (meanwhile p d)) \<Longrightarrow> repo_call meanwhile fails p (\<lambda>x. Inr (g x, x)) d = (r, d') \<Longrightarrow> R d d'"
  by (erule (1) call_related) (auto intro: R_refl)

lemma chain: "R a b \<Longrightarrow> R b c \<Longrightarrow> R c d \<Longrightarrow> R a d"
  using R_trans by blast

end

end
