(* ===== verification/Settlement.thy ===== *)
theory Settlement
  imports Worker_Policy Billing_Repo Repo_Call
begin

text \<open>
  The settler: \<open>backend/internal/designkit/worker/settlement.go\<close>. A round lists the batches that are
  settling, asks the usage log for every attempt of every image, waits with a backoff until the
  attempts that were certainly charged have their bill, and then writes the billed costs, the
  actual cost, the final status and, where due, one alert.

  Every repository call happens at a \<open>call_point\<close>. The environment says what the other processes do
  to the database before that call and whether the call fails; a failing call changes nothing. The
  usage log and the bills are the platform's. Log lines have no effect on the state and are left out,
  and the lists of the repository hold no nil pointer.
\<close>

section \<open>Constants\<close>

definition settle_stale_after :: duration where
  "settle_stale_after = 30 * minute"

definition max_enumerated_attempts :: int where
  "max_enumerated_attempts = billing_request_id_max_attempt"

definition billing_alert_warn_factor :: "decimal_lib \<Rightarrow> money" where
  "billing_alert_warn_factor D = money_from_float D (FFin float_1_2)"

definition billing_alert_critical_factor :: money where
  "billing_alert_critical_factor = money_from_int 2"

section \<open>The retry state of a batch\<close>

record settle_state =
  st_attempts :: int
  st_next_at :: time
  st_last_seen :: time

type_synonym settler = "int \<Rightarrow> settle_state option"

definition new_settler :: settler where
  "new_settler = (\<lambda>jid. None)"

definition state_for :: "int \<Rightarrow> time \<Rightarrow> settler \<Rightarrow> settle_state" where
  "state_for jid now states =
     (case states jid of
        None \<Rightarrow> \<lparr>st_attempts = 0, st_next_at = zero_time, st_last_seen = now\<rparr>
      | Some st \<Rightarrow> st\<lparr>st_last_seen := now\<rparr>)"

definition prune :: "time \<Rightarrow> settler \<Rightarrow> settler" where
  "prune now states =
     (\<lambda>jid. case states jid of None \<Rightarrow> None
            | Some st \<Rightarrow> if now - st_last_seen st > hour then None else Some st)"

definition schedule_retry :: "worker_config \<Rightarrow> settle_state \<Rightarrow> time \<Rightarrow> settle_state" where
  "schedule_retry cfg st now =
     (let a = st_attempts st + 1
      in st\<lparr>st_attempts := a, st_next_at := now + settle_backoff (wc_settle_backoff_base cfg) a\<rparr>)"

definition stuck_in_settling :: "job option \<Rightarrow> time \<Rightarrow> bool" where
  "stuck_in_settling jo now =
     (case jo of None \<Rightarrow> False
      | Some j \<Rightarrow>
        let since = (case job_finished_at j of
                       Some t \<Rightarrow> if t \<noteq> zero_time then t else job_updated_at j
                     | None \<Rightarrow> job_updated_at j)
        in if since = zero_time then False else now - since > settle_stale_after)"

section \<open>The bills of an image\<close>

record item_billing =
  bg_item :: job_item
  bg_ids :: "string list"
  bg_required_id :: string
  bg_total :: money
  bg_hits :: int

definition contains_str :: "string list \<Rightarrow> string \<Rightarrow> bool" where
  "contains_str l want = list_ex (\<lambda>v. v = want) l"

definition billing_candidates :: "string \<Rightarrow> job_item \<Rightarrow> string list \<times> string" where
  "billing_candidates uid i =
     (let attempts = (if it_attempt_count i > max_enumerated_attempts then max_enumerated_attempts
                      else it_attempt_count i);
          ids0 = map (\<lambda>a. stored_billing_request_id uid (it_seq i) (1 + int a)) [0..<nat attempts];
          stored = (case it_billing_request_id i of None \<Rightarrow> [] | Some s \<Rightarrow> trim_space s);
          ids = (if stored \<noteq> [] \<and> \<not> contains_str ids0 stored then ids0 @ [stored] else ids0)
      in if it_status i \<noteq> ItemStatusSucceeded then (ids, [])
         else if stored \<noteq> [] then (ids, stored)
         else if ids \<noteq> [] then (ids, last ids)
         else (ids, []))"

fun add_unseen :: "string list \<Rightarrow> string list \<Rightarrow> string list" where
  "add_unseen all [] = all"
| "add_unseen all (i # ids) = add_unseen (if i \<in> set all then all else all @ [i]) ids"

definition billing_of :: "job \<Rightarrow> job_item \<Rightarrow> item_billing" where
  "billing_of j i =
     (case billing_candidates (job_uid j) i of
        (ids, required) \<Rightarrow> \<lparr>bg_item = i, bg_ids = ids, bg_required_id = required, bg_total = 0, bg_hits = 0\<rparr>)"

fun collect_billings_from :: "job \<Rightarrow> job_item list \<Rightarrow> string list \<Rightarrow> item_billing list \<times> string list" where
  "collect_billings_from j [] all = ([], all)"
| "collect_billings_from j (i # is) all =
     (let b = billing_of j i; (bs, all') = collect_billings_from j is (add_unseen all (bg_ids b))
      in (b # bs, all'))"

definition collect_billings :: "job \<Rightarrow> job_item list \<Rightarrow> item_billing list \<times> string list" where
  "collect_billings j is = collect_billings_from j is []"

text \<open>The running values of the inner loop: total, hits, required, required hits, optional missing.\<close>

type_synonym fill = "money \<times> int \<times> int \<times> int \<times> int"

fun fill_ids :: "string \<Rightarrow> (string \<Rightarrow> money option) \<Rightarrow> string list \<Rightarrow> fill \<Rightarrow> fill" where
  "fill_ids required_id costs [] acc = acc"
| "fill_ids required_id costs (i # ids) (amount, hits, req, req_hits, opt) =
     fill_ids required_id costs ids
       (case costs i of
          Some cost \<Rightarrow>
            if i = required_id \<and> required_id \<noteq> [] then (amount + cost, hits + 1, req + 1, req_hits + 1, opt)
            else (amount + cost, hits + 1, req, req_hits, opt)
        | None \<Rightarrow>
            if i = required_id \<and> required_id \<noteq> [] then (amount, hits, req + 1, req_hits, opt)
            else (amount, hits, req, req_hits, opt + 1))"

fun fill_costs ::
  "decimal_lib \<Rightarrow> (string \<Rightarrow> money option) \<Rightarrow> item_billing list \<Rightarrow> int \<times> int \<times> int
   \<Rightarrow> item_billing list \<times> int \<times> int \<times> int" where
  "fill_costs D costs [] counts = ([], counts)"
| "fill_costs D costs (b # bs) (req, req_hits, opt) =
     (let (amount, hits, req', req_hits', opt') =
            fill_ids (bg_required_id b) costs (bg_ids b) (0, bg_hits b, req, req_hits, opt);
          (bs', counts) = fill_costs D costs bs (req', req_hits', opt')
      in (b\<lparr>bg_total := quantize_money D amount, bg_hits := hits\<rparr> # bs', counts))"

section \<open>The environment of a round\<close>

datatype call_point =
    AtListJobs | AtListItems int | AtSumCosts int | AtListImages int | AtApply int | AtSettle int | AtAlert int

record settle_env =
  se_cfg :: worker_config
  se_round_now :: time
  se_now :: time
  se_cancelled :: "int \<Rightarrow> bool"
  se_meanwhile :: "call_point \<Rightarrow> db \<Rightarrow> db"
  se_fails :: "call_point \<Rightarrow> go_error option"

definition deref_string :: "string option \<Rightarrow> string \<Rightarrow> string" where
  "deref_string v fallback = (case v of Some s \<Rightarrow> if s \<noteq> [] then s else fallback | None \<Rightarrow> fallback)"

definition int_or_zero :: "int option \<Rightarrow> int" where
  "int_or_zero v = (case v of None \<Rightarrow> 0 | Some x \<Rightarrow> x)"

definition image_tier :: "image \<Rightarrow> string" where
  "image_tier img =
     (case img_billing_tier img of
        Some t \<Rightarrow> if t \<noteq> [] then t
                  else classify_billing_tier (int_or_zero (img_width img)) (int_or_zero (img_height img))
      | None \<Rightarrow> classify_billing_tier (int_or_zero (img_width img)) (int_or_zero (img_height img)))"

text \<open>One repository call: the others first, then the call, which may fail and then changes nothing.\<close>

definition settle_call ::
  "settle_env \<Rightarrow> call_point \<Rightarrow> (db \<Rightarrow> go_error + 'a \<times> db) \<Rightarrow> db \<Rightarrow> (go_error + 'a) \<times> db" where
  "settle_call e = repo_call (se_meanwhile e) (se_fails e)"

definition tier_of_images :: "settle_env \<Rightarrow> job_item \<Rightarrow> job \<Rightarrow> db \<Rightarrow> string \<times> db" where
  "tier_of_images e i j d =
     (case settle_call e (AtListImages (it_id i)) (\<lambda>x. Inr (list_images_by_item x (it_id i) True, x)) d of
        (Inl _, d1) \<Rightarrow> (job_pricing_tier j, d1)
      | (Inr images, d1) \<Rightarrow>
          let tier = (if images = [] then [] else highest_billing_tier (map image_tier images))
          in (if tier \<noteq> [] then tier else job_pricing_tier j, d1))"

definition resolve_billing_tier :: "settle_env \<Rightarrow> job_item \<Rightarrow> job \<Rightarrow> db \<Rightarrow> string \<times> db" where
  "resolve_billing_tier e i j d =
     (case it_billing_tier i of
        Some t \<Rightarrow> if t \<noteq> [] then (t, d) else tier_of_images e i j d
      | None \<Rightarrow> tier_of_images e i j d)"

section \<open>Settling a batch\<close>

fun bill_items :: "decimal_lib \<Rightarrow> settle_env \<Rightarrow> job \<Rightarrow> item_billing list \<Rightarrow> money \<Rightarrow> db \<Rightarrow> money \<times> db" where
  "bill_items D e j [] amount d = (amount, d)"
| "bill_items D e j (b # bs) amount d =
     (let i = bg_item b; old = money_or_zero (it_billed_cost i)
      in if bg_hits b = 0 then bill_items D e j bs (amount + old) d
         else if it_billed_cost i \<noteq> None \<and> \<not> bg_total b > old then bill_items D e j bs (amount + old) d
         else
           let mode = deref_string (it_billing_mode i) (job_billing_mode j);
               (tier, d1) = resolve_billing_tier e i j d;
               (r, d2) = settle_call e (AtApply (it_id i))
                           (apply_item_billing D (se_now e) (it_id i) (bg_total b) mode tier) d1
           in bill_items D e j bs (amount + bg_total b) d2)"

definition settler_apply_item_billing ::
  "decimal_lib \<Rightarrow> settle_env \<Rightarrow> job \<Rightarrow> item_billing list \<Rightarrow> db \<Rightarrow> money \<times> db" where
  "settler_apply_item_billing D e j bs d =
     (let (amount, d1) = bill_items D e j bs 0 d in (quantize_money D amount, d1))"

definition settlement_alert_level :: "decimal_lib \<Rightarrow> job \<Rightarrow> money \<Rightarrow> bool \<Rightarrow> string" where
  "settlement_alert_level D j actual forced =
     (if forced then billing_alert_level_critical
      else if job_estimated_cost j \<le> 0 then []
      else if actual > job_estimated_cost j * billing_alert_critical_factor then billing_alert_level_critical
      else if actual > job_estimated_cost j * billing_alert_warn_factor D then billing_alert_level_warn
      else [])"

definition ratio_over :: "decimal_lib \<Rightarrow> money \<Rightarrow> money \<Rightarrow> multiplier" where
  "ratio_over D actual estimated =
     (if estimated > 0 then dec_round D multiplier_scale (dec_div D actual estimated) else 0)"

definition record_billing_alert :: "decimal_lib \<Rightarrow> settle_env \<Rightarrow> job \<Rightarrow> money \<Rightarrow> string \<Rightarrow> db \<Rightarrow> db" where
  "record_billing_alert D e j actual level d =
     (if level = [] then d
      else snd (settle_call e (AtAlert (job_id j))
             (insert_billing_alert D (se_now e)
               (Some \<lparr>al_id = 0, al_job_id = job_id j, al_estimated = job_estimated_cost j, al_actual = actual,
                      al_ratio_over = ratio_over D actual (job_estimated_cost j), al_level = level,
                      al_created_at = se_now e\<rparr>)) d))"

text \<open>The second half of \<open>settleJob\<close>, once there is nothing left to wait for.\<close>

definition close_settlement ::
  "decimal_lib \<Rightarrow> settle_env \<Rightarrow> job \<Rightarrow> settle_state \<Rightarrow> item_billing list \<Rightarrow> bool \<Rightarrow> db
   \<Rightarrow> bool \<times> settle_state \<times> db" where
  "close_settlement D e j st bs untrusted d =
     (let (actual, d1) = settler_apply_item_billing D e j bs d;
          computed = terminal_job_status (job_item_count j) (job_success_count j) (job_fail_count j)
                       (job_cancelled_count j) (is_stop_requested (Some j))
      in if \<not> can_transition (job_status j) computed \<and> \<not> job_is_terminal (job_status j) then (True, st, d1)
         else
           let status = (if can_transition (job_status j) computed then computed else job_status j)
           in case settle_call e (AtSettle (job_id j))
                  (settle_job D (se_now e) \<lparr>sj_job_id = job_id j, sj_actual_cost = actual, sj_status = status,
                                             sj_settled_at = se_now e\<rparr>) d1 of
                (Inl _, d2) \<Rightarrow> (False, schedule_retry (se_cfg e) st (se_now e), d2)
              | (Inr _, d2) \<Rightarrow>
                  (True, st, record_billing_alert D e j actual (settlement_alert_level D j actual untrusted) d2))"

definition sum_costs_call :: "settle_env \<Rightarrow> job \<Rightarrow> string list \<Rightarrow> db \<Rightarrow> (go_error + (string \<Rightarrow> money option)) \<times> db" where
  "sum_costs_call e j ids d =
     (if ids = [] then (Inr (\<lambda>x. None), d)
      else settle_call e (AtSumCosts (job_id j)) (\<lambda>x. Inr (sum_usage_log_costs x ids, x)) d)"

definition settler_settle_job ::
  "decimal_lib \<Rightarrow> settle_env \<Rightarrow> job \<Rightarrow> settle_state \<Rightarrow> db \<Rightarrow> bool \<times> settle_state \<times> db" where
  "settler_settle_job D e j st d =
     (case settle_call e (AtListItems (job_id j)) (\<lambda>x. Inr (list_job_items x (job_id j), x)) d of
        (Inl _, d1) \<Rightarrow> (False, schedule_retry (se_cfg e) st (se_now e), d1)
      | (Inr items, d1) \<Rightarrow>
        (case collect_billings j items of
           (bs, ids) \<Rightarrow>
           (case sum_costs_call e j ids d1 of
              (Inl _, d2) \<Rightarrow> (False, schedule_retry (se_cfg e) st (se_now e), d2)
            | (Inr costs, d2) \<Rightarrow>
              (case fill_costs D costs bs (0, 0, 0) of
                 (bs', required, required_hits, optional_missing) \<Rightarrow>
                 let missing = required - required_hits;
                     stale = stuck_in_settling (Some j) (se_now e);
                     waiting = missing > 0 \<or> (required = 0 \<and> optional_missing > 0 \<and> st_attempts st = 0)
                 in if waiting \<and> \<not> stale \<and> st_attempts st < wc_settle_max_attempts (se_cfg e)
                    then (False, schedule_retry (se_cfg e) st (se_now e), d2)
                    else close_settlement D e j st bs' (missing > 0 \<or> stale) d2))))"

section \<open>A round\<close>

text \<open>The flag tells whether the loop ran to its end; a cancelled round returns without pruning.\<close>

fun settle_jobs :: "decimal_lib \<Rightarrow> settle_env \<Rightarrow> job list \<Rightarrow> settler \<Rightarrow> db \<Rightarrow> bool \<times> settler \<times> db" where
  "settle_jobs D e [] states d = (True, states, d)"
| "settle_jobs D e (j # js) states d =
     (if se_cancelled e (job_id j) then (False, states, d)
      else
        let st = state_for (job_id j) (se_round_now e) states;
            states1 = states(job_id j := Some st)
        in if se_round_now e < st_next_at st then settle_jobs D e js states1 d
           else case settler_settle_job D e j st d of
               (done, st', d1) \<Rightarrow>
                 settle_jobs D e js (states1(job_id j := if done then None else Some st')) d1)"

definition run_settler :: "decimal_lib \<Rightarrow> settle_env \<Rightarrow> settler \<Rightarrow> db \<Rightarrow> settler \<times> db" where
  "run_settler D e states d =
     (case settle_call e AtListJobs (\<lambda>x. Inr (list_jobs_pending_settlement x (wc_settle_batch (se_cfg e)), x)) d of
        (Inl _, d1) \<Rightarrow> (states, d1)
      | (Inr jobs, d1) \<Rightarrow>
        (case settle_jobs D e jobs states d1 of
           (finished, states1, d2) \<Rightarrow> (if finished then prune (se_round_now e) states1 else states1, d2)))"

text \<open>
  \<open>withAdvisoryLock\<close>: without a locker the task runs; otherwise it runs only when the lock was taken.
\<close>

definition with_advisory_lock :: "(go_error + bool) option \<Rightarrow> ('s \<Rightarrow> 's) \<Rightarrow> 's \<Rightarrow> 's" where
  "with_advisory_lock locker task s =
     (case locker of None \<Rightarrow> task s
      | Some (Inl _) \<Rightarrow> s
      | Some (Inr locked) \<Rightarrow> if locked then task s else s)"

definition settle_once ::
  "decimal_lib \<Rightarrow> settle_env \<Rightarrow> (go_error + bool) option \<Rightarrow> settler \<times> db \<Rightarrow> settler \<times> db" where
  "settle_once D e locker = with_advisory_lock locker (\<lambda>(states, d). run_settler D e states d)"

definition reap_once ::
  "(go_error + bool) option \<Rightarrow> worker_config \<Rightarrow> time \<Rightarrow> (int \<Rightarrow> bool) \<Rightarrow> (int \<Rightarrow> bool) \<Rightarrow> go_error option \<Rightarrow> db \<Rightarrow> db" where
  "reap_once locker cfg now locked_items locked_jobs fails =
     with_advisory_lock locker (\<lambda>d. case fails of Some _ \<Rightarrow> d
       | None \<Rightarrow> snd (reap_stale_jobs now locked_items locked_jobs (wc_stale_after cfg) (wc_reap_limit cfg) d))"

end
