(* ===== verification/Interleaving.thy ===== *)
theory Interleaving
  imports Lifecycle Repo_Call
begin

text \<open>
  Runs of the repository steps between two states, as the composition-closed relation in which the
  background workers move, whatever the other processes do between their calls.
\<close>

text \<open>What a run may do once the jobs of a set have been read as settling.\<close>

definition runs :: "decimal_lib \<Rightarrow> int set \<Rightarrow> db \<Rightarrow> db \<Rightarrow> bool" where
  "runs D jids d d' \<longleftrightarrow> (\<forall>seen. jids \<subseteq> seen \<longrightarrow> (\<exists>seen'. steps D (d, seen) (d', seen')))"

lemma step_seen: "step D s s' \<Longrightarrow> snd s \<subseteq> snd s'"
  by (cases rule: step.cases) auto

lemma steps_seen: "steps D s s' \<Longrightarrow> snd s \<subseteq> snd s'"
  by (induction rule: rtranclp_induct) (auto dest: step_seen)

lemma runs_refl [simp, intro]: "runs D jids d d"
  by (auto simp: runs_def)

lemma runs_trans:
  assumes "runs D jids a b" and "runs D jids b c"
  shows "runs D jids a c"
  unfolding runs_def
proof (intro allI impI)
  fix seen
  assume "jids \<subseteq> seen"
  with assms(1) obtain s1 where 1: "steps D (a, seen) (b, s1)" unfolding runs_def by blast
  with \<open>jids \<subseteq> seen\<close> have "jids \<subseteq> s1" using steps_seen[OF 1] by auto
  with assms(2) obtain s2 where "steps D (b, s1) (c, s2)" unfolding runs_def by blast
  with 1 show "\<exists>s'. steps D (a, seen) (c, s')" by (meson rtranclp_trans)
qed

lemma runs_mono: "runs D jids d d' \<Longrightarrow> jids \<subseteq> bigger \<Longrightarrow> runs D bigger d d'"
  unfolding runs_def by blast

lemma runs_step: "(\<And>seen. jids \<subseteq> seen \<Longrightarrow> step D (d, seen) (d', seen)) \<Longrightarrow> runs D jids d d'"
  unfolding runs_def by blast

interpretation seen_runs: run_relation "runs D jids" for D jids
  by unfold_locales (auto intro: runs_trans)

definition interferes :: "decimal_lib \<Rightarrow> ('p \<Rightarrow> db \<Rightarrow> db) \<Rightarrow> bool" where
  "interferes D meanwhile \<longleftrightarrow> (\<forall>p d. runs D {} d (meanwhile p d))"

lemma meanwhile_runs: "interferes D meanwhile \<Longrightarrow> runs D jids d (meanwhile p d)"
  unfolding interferes_def using runs_mono by blast

lemma call_runs:
  "interferes D meanwhile \<Longrightarrow> repo_call meanwhile fails p f d = (r, d')
   \<Longrightarrow> (\<And>d0 a d1. f d0 = Inr (a, d1) \<Longrightarrow> runs D jids d0 d1) \<Longrightarrow> runs D jids d d'"
  by (rule seen_runs.call_related) (auto intro: meanwhile_runs)

lemma read_runs:
  "interferes D meanwhile \<Longrightarrow> repo_call meanwhile fails p (\<lambda>x. Inr (g x, x)) d = (r, d') \<Longrightarrow> runs D jids d d'"
  by (rule seen_runs.read_related) (auto intro: meanwhile_runs)

end
