(* ===== verification/Settlement_Guarantees.thy ===== *)
theory Settlement_Guarantees
  imports Settlement Interleaving Scenario "HOL-Library.Multiset"
begin

text \<open>
  What the settler guarantees: its rounds are made of repository steps whatever the other processes
  do in between, so every invariant of the reachable states survives them; left to itself it
  settles every batch within the configured number of rounds, for exactly what the items were
  billed, and an item is billed for all its attempts.
\<close>

section \<open>Rounds are made of steps\<close>

abbreviation interference_ok :: "decimal_lib \<Rightarrow> settle_env \<Rightarrow> bool" where
  "interference_ok D e \<equiv> interferes D (se_meanwhile e)"

lemma settle_call_runs:
  assumes "interference_ok D e" and "settle_call e p f d = (r, d')"
    and "\<And>d0 a d1. f d0 = Inr (a, d1) \<Longrightarrow> runs D jids d0 d1"
  shows "runs D jids d d'"
  using call_runs[OF assms(1) assms(2)[unfolded settle_call_def]] assms(3) by blast

lemma read_call_runs:
  "interference_ok D e \<Longrightarrow> settle_call e p (\<lambda>x. Inr (g x, x)) d = (r, d') \<Longrightarrow> runs D jids d d'"
  unfolding settle_call_def by (rule read_runs)

lemma sum_costs_runs: "interference_ok D e \<Longrightarrow> sum_costs_call e j ids d = (r, d') \<Longrightarrow> runs D jids d d'"
  by (auto simp: sum_costs_call_def intro: read_call_runs split: if_splits)

lemma tier_of_images_runs: "interference_ok D e \<Longrightarrow> tier_of_images e i j d = (t, d') \<Longrightarrow> runs D jids d d'"
  by (auto simp: tier_of_images_def Let_def intro: read_call_runs split: prod.splits sum.splits)

lemma resolve_tier_runs: "interference_ok D e \<Longrightarrow> resolve_billing_tier e i j d = (t, d') \<Longrightarrow> runs D jids d d'"
  by (auto simp: resolve_billing_tier_def intro: tier_of_images_runs split: option.splits if_splits)

lemma apply_call_runs:
  "interference_ok D e \<Longrightarrow> settle_call e p (apply_item_billing D now iid cost mode tier) d = (r, d')
   \<Longrightarrow> runs D jids d d'"
  by (erule settle_call_runs) (auto intro!: runs_step step_bill)

lemma bill_items_runs:
  assumes "interference_ok D e"
  shows "bill_items D e j bs amount d = (amount', d') \<Longrightarrow> runs D jids d d'"
proof (induction bs arbitrary: amount d)
  case (Cons b bs)
  show ?case
  proof (cases "bg_hits b = 0 \<or> (it_billed_cost (bg_item b) \<noteq> None \<and> \<not> bg_total b > money_or_zero (it_billed_cost (bg_item b)))")
    case True
    with Cons.prems have "bill_items D e j bs (amount + money_or_zero (it_billed_cost (bg_item b))) d = (amount', d')"
      by (auto simp: Let_def split: if_splits)
    then show ?thesis by (rule Cons.IH)
  next
    case False
    obtain tier d1 where 1: "resolve_billing_tier e (bg_item b) j d = (tier, d1)" by fastforce
    obtain r d2 where 2: "settle_call e (AtApply (it_id (bg_item b))) (apply_item_billing D (se_now e) (it_id (bg_item b))
        (bg_total b) (deref_string (it_billing_mode (bg_item b)) (job_billing_mode j)) tier) d1 = (r, d2)" by fastforce
    have 3: "bill_items D e j bs (amount + bg_total b) d2 = (amount', d')"
      using Cons.prems False 1 2 by (auto simp: Let_def split: if_splits)
    show ?thesis
      using resolve_tier_runs[OF assms 1] apply_call_runs[OF assms 2] Cons.IH[OF 3] by (meson runs_trans)
  qed
qed simp

lemma record_alert_runs: "interference_ok D e \<Longrightarrow> runs D jids d (record_billing_alert D e j actual level d)"
proof -
  assume ok: "interference_ok D e"
  have "runs D jids d (snd (settle_call e p (insert_billing_alert D now a) d))" for p now a
  proof -
    obtain r d' where c: "settle_call e p (insert_billing_alert D now a) d = (r, d')" by fastforce
    have "runs D jids d d'" by (rule settle_call_runs[OF ok c]) (auto intro!: runs_step step_alert)
    with c show ?thesis by simp
  qed
  then show ?thesis by (simp add: record_billing_alert_def)
qed

lemma close_settlement_runs:
  assumes "interference_ok D e" and "job_id j \<in> jids" and "close_settlement D e j st bs u d = (dn, st', d')"
  shows "runs D jids d d'"
proof -
  obtain actual d1 where a: "settler_apply_item_billing D e j bs d = (actual, d1)" by fastforce
  have 1: "runs D jids d d1"
    using a bill_items_runs[OF assms(1)] by (auto simp: settler_apply_item_billing_def split: prod.splits)
  define call where "call = (\<lambda>status. settle_call e (AtSettle (job_id j)) (settle_job D (se_now e)
      \<lparr>sj_job_id = job_id j, sj_actual_cost = actual, sj_status = status, sj_settled_at = se_now e\<rparr>) d1)"
  have 2: "runs D jids d1 d2" if "call status = (r, d2)" for status r d2
    using that unfolding call_def
    by (rule settle_call_runs[OF assms(1)]) (use assms(2) in \<open>auto intro!: runs_step step_settle\<close>)
  define comp where "comp = terminal_job_status (job_item_count j) (job_success_count j) (job_fail_count j)
      (job_cancelled_count j) (is_stop_requested (Some j))"
  define status where "status = (if can_transition (job_status j) comp then comp else job_status j)"
  obtain r d2 where c: "call status = (r, d2)" by fastforce
  have "d' = d1 \<or> d' = d2 \<or> (\<exists>l. d' = record_billing_alert D e j actual l d2)"
    using assms(3) a c unfolding close_settlement_def call_def comp_def[symmetric] status_def Let_def
    by (auto split: if_splits sum.splits)
  then show ?thesis using 1 2[OF c] record_alert_runs[OF assms(1)] by (meson runs_trans)
qed

lemma settler_settle_job_runs:
  assumes "interference_ok D e" and "job_id j \<in> jids" and "settler_settle_job D e j st d = (dn, st', d')"
  shows "runs D jids d d'"
proof -
  obtain r1 d1 where 1: "settle_call e (AtListItems (job_id j)) (\<lambda>x. Inr (list_job_items x (job_id j), x)) d = (r1, d1)"
    by fastforce
  note s1 = read_call_runs[OF assms(1) 1]
  show ?thesis
  proof (cases r1)
    case (Inl err)
    with assms(3) 1 have "d' = d1" by (simp add: settler_settle_job_def)
    with s1 show ?thesis by simp
  next
    case (Inr items)
    obtain bs ids where cb: "collect_billings j items = (bs, ids)" by fastforce
    obtain r2 d2 where 2: "sum_costs_call e j ids d1 = (r2, d2)" by fastforce
    note s2 = sum_costs_runs[OF assms(1) 2]
    show ?thesis
    proof (cases r2)
      case (Inl err)
      with assms(3) 1 Inr cb 2 have "d' = d2" by (simp add: settler_settle_job_def)
      with s1 s2 show ?thesis by (blast intro: runs_trans)
    next
      case (Inr costs)
      obtain bs' a b c where f: "fill_costs D costs bs (0, 0, 0) = (bs', a, b, c)" by (metis prod.exhaust)
      have "d' = d2 \<or> (\<exists>u. close_settlement D e j st bs' u d2 = (dn, st', d'))"
        using assms(3) 1 \<open>r1 = Inr items\<close> cb 2 Inr f by (auto simp: settler_settle_job_def Let_def split: if_splits)
      with s1 s2 close_settlement_runs[OF assms(1,2)] show ?thesis by (meson runs_trans)
    qed
  qed
qed

lemma settle_jobs_runs:
  assumes "interference_ok D e"
  shows "job_id ` set js \<subseteq> jids \<Longrightarrow> settle_jobs D e js states d = (fin, states', d') \<Longrightarrow> runs D jids d d'"
proof (induction js arbitrary: states d)
  case (Cons j js)
  have j: "job_id j \<in> jids" "job_id ` set js \<subseteq> jids" using Cons.prems(1) by auto
  let ?st = "state_for (job_id j) (se_round_now e) states"
  obtain dn st1 d1 where s: "settler_settle_job D e j ?st d = (dn, st1, d1)" by (metis prod.exhaust)
  consider "d' = d" | states1 where "settle_jobs D e js states1 d = (fin, states', d')"
    | states1 where "settle_jobs D e js states1 d1 = (fin, states', d')"
    using Cons.prems(2) s by (auto simp: Let_def split: if_splits)
  then show ?case
  proof cases
    case 3
    then show ?thesis using settler_settle_job_runs[OF assms j(1) s] Cons.IH[OF j(2)] by (blast intro: runs_trans)
  qed (use Cons.IH[OF j(2)] in auto)
qed simp

lemma steps_read:
  assumes "\<And>j. j \<in> set js \<Longrightarrow> j \<in> set (db_jobs d) \<and> job_status j = JobStatusSettling"
  shows "steps D (d, seen) (d, job_id ` set js \<union> seen)"
  using assms
proof (induction js)
  case (Cons j js)
  then have "steps D (d, seen) (d, job_id ` set js \<union> seen)" by simp
  moreover have "step D (d, job_id ` set js \<union> seen) (d, insert (job_id j) (job_id ` set js \<union> seen))"
    using Cons.prems by (intro step_read) auto
  ultimately show ?case by (simp add: rtranclp.rtrancl_into_rtrancl)
qed simp

lemma pending_settlement_rows:
  "j \<in> set (list_jobs_pending_settlement d n) \<Longrightarrow>
     j \<in> set (db_jobs d) \<and> job_status j = JobStatusSettling \<and> job_settled_at j = None"
  by (auto simp: list_jobs_pending_settlement_def dest!: in_set_takeD)

lemma run_settler_steps:
  assumes "interference_ok D e" and "run_settler D e states d = (states', d')"
  shows "\<exists>seen'. steps D (d, seen) (d', seen')"
proof -
  obtain r d1 where 1: "settle_call e AtListJobs
      (\<lambda>x. Inr (list_jobs_pending_settlement x (wc_settle_batch (se_cfg e)), x)) d = (r, d1)" by fastforce
  obtain s1 where s1: "steps D (d, seen) (d1, s1)"
    using read_call_runs[OF assms(1) 1, of "{}"] unfolding runs_def by blast
  show ?thesis
  proof (cases r)
    case (Inl err)
    with assms(2) 1 have "d' = d1" by (simp add: run_settler_def)
    with s1 show ?thesis by blast
  next
    case (Inr jobs)
    have "jobs = list_jobs_pending_settlement d1 (wc_settle_batch (se_cfg e))"
      using 1 Inr by (auto simp: settle_call_def repo_call_def Let_def split: option.splits)
    then have "steps D (d1, s1) (d1, job_id ` set jobs \<union> s1)"
      using pending_settlement_rows by (intro steps_read) auto
    moreover obtain fin st1 d2 where 2: "settle_jobs D e jobs states d1 = (fin, st1, d2)" by (metis prod.exhaust)
    then have "runs D (job_id ` set jobs) d1 d2" by (intro settle_jobs_runs[OF assms(1)]) auto
    then obtain s2 where "steps D (d1, job_id ` set jobs \<union> s1) (d2, s2)" unfolding runs_def by blast
    moreover have "d2 = d'" using assms(2) 1 Inr 2 by (auto simp: run_settler_def split: if_splits)
    ultimately show ?thesis using s1 by (meson rtranclp_trans)
  qed
qed

section \<open>A settler left to itself\<close>

definition quiet :: "settle_env \<Rightarrow> bool" where
  "quiet e \<longleftrightarrow> (\<forall>p d. se_meanwhile e p d = d) \<and> (\<forall>p. se_fails e p = None)"

lemma quiet_call:
  "quiet e \<Longrightarrow> settle_call e p f d = (case f d of Inl err \<Rightarrow> (Inl err, d) | Inr (a, d1) \<Rightarrow> (Inr a, d1))"
  by (simp add: quiet_def settle_call_def repo_call_def)

lemma quiet_tier: "quiet e \<Longrightarrow> \<exists>t. resolve_billing_tier e i j d = (t, d)"
  by (auto simp: resolve_billing_tier_def tier_of_images_def quiet_call Let_def split: option.splits)

text \<open>What an item has been billed after a round.\<close>

definition new_bill :: "item_billing \<Rightarrow> money" where
  "new_bill b =
     (let old = money_or_zero (it_billed_cost (bg_item b))
      in if bg_hits b = 0 then old
         else if it_billed_cost (bg_item b) \<noteq> None \<and> \<not> bg_total b > old then old else bg_total b)"

lemma sum_col_upd_one:
  fixes f :: "'r \<Rightarrow> 'v :: ab_group_add"
  assumes "distinct (map k rows)" and "r \<in> set rows" and "P r" and "P (g r)"
  shows "sum_col f P (upd (\<lambda>x. k x = k r) g rows) = sum_col f P rows + (f (g r) - f r)"
  using assms
proof (induction rows)
  case (Cons x xs)
  show ?case
  proof (cases "k x = k r")
    case True
    then have "r = x" using Cons.prems(1,2) by (auto simp: image_iff)
    moreover have "upd (\<lambda>x. k x = k r) g xs = xs"
      using Cons.prems(1) True by (intro upd_id) (auto simp: image_iff)
    ultimately show ?thesis using Cons.prems by simp
  next
    case False
    then have "r \<in> set xs" using Cons.prems(2) by auto
    with False Cons show ?thesis by (simp add: algebra_simps)
  qed
qed simp

lemma the_item_mem: "the_item d iid = Some i \<Longrightarrow> i \<in> set (db_items d) \<and> it_id i = iid"
  by (auto simp: the_item_def dest: find_SomeD)

lemma the_item_upd:
  assumes "\<And>r. it_id (g r) = it_id r" and "x \<noteq> iid" and "db_items d' = upd (\<lambda>r. it_id r = iid) g (db_items d)"
  shows "the_item d' x = the_item d x"
proof -
  have "find (\<lambda>i. it_id i = x) (upd (\<lambda>r. it_id r = iid) g rows) = find (\<lambda>i. it_id i = x) rows" for rows
    using assms(1,2) by (induction rows) auto
  then show ?thesis by (simp add: the_item_def assms(3))
qed

text \<open>One billed item: the call succeeds, changes that row only, and no job.\<close>

lemma apply_billing_row:
  assumes "the_item d iid = Some i" and "quantize_money D cost = cost"
    and "it_billed_cost i = None \<or> cost > money_or_zero (it_billed_cost i)"
  obtains d' where "apply_item_billing D now iid cost mode tier d = Inr ((), d')"
    and "db_items d' = upd (\<lambda>r. it_id r = iid) (bill_item now cost mode tier) (db_items d)"
    and "db_jobs d' = db_jobs d" and "db_usage_logs d' = db_usage_logs d" and "db_images d' = db_images d"
proof -
  let ?old = "case it_billed_cost i of None \<Rightarrow> 0 | Some c \<Rightarrow> c"
  let ?d1 = "update_items (\<lambda>r. it_id r = iid) (bill_item now cost mode tier) d"
  let ?delta = "quantize_money D (cost - ?old)"
  let ?d' = "if ?delta \<le> 0 then ?d1 else decrement_hold now (it_job_id i) ?delta ?d1"
  have "\<not> (it_billed_cost i \<noteq> None \<and> \<not> cost > ?old)" using assms(3) by (auto simp: money_or_zero_def)
  then have "apply_item_billing D now iid cost mode tier d = Inr ((), ?d')"
    unfolding apply_item_billing_def Let_def assms(1,2) option.case by (auto simp del: not_less)
  moreover have "db_items ?d' = db_items ?d1" "db_jobs ?d' = db_jobs ?d1" "db_usage_logs ?d' = db_usage_logs ?d1"
    "db_images ?d' = db_images ?d1"
    by (simp_all add: decrement_hold_def update_holds_def)
  ultimately show thesis using that[of ?d'] by (simp add: update_items_def)
qed

lemma bill_item_fields [simp]:
  "it_id (bill_item now cost mode tier r) = it_id r" "it_job_id (bill_item now cost mode tier r) = it_job_id r"
  "it_billed_cost (bill_item now cost mode tier r) = Some cost" "it_seq (bill_item now cost mode tier r) = it_seq r"
  by (simp_all add: bill_item_def)

definition billed_as :: "db \<Rightarrow> item_billing \<Rightarrow> bool" where
  "billed_as d b \<longleftrightarrow> (\<exists>i. the_item d (it_id (bg_item b)) = Some i \<and> money_or_zero (it_billed_cost i) = new_bill b
     \<and> (bg_hits b \<noteq> 0 \<longrightarrow> it_billed_cost i = Some (new_bill b))
     \<and> (bg_hits b = 0 \<longrightarrow> it_billed_cost i = it_billed_cost (bg_item b)))"

definition billable :: "decimal_lib \<Rightarrow> db \<Rightarrow> int \<Rightarrow> item_billing \<Rightarrow> bool" where
  "billable D d jid b \<longleftrightarrow> the_item d (it_id (bg_item b)) = Some (bg_item b) \<and> it_job_id (bg_item b) = jid
     \<and> quantize_money D (bg_total b) = bg_total b"

definition billed_round :: "db \<Rightarrow> int \<Rightarrow> item_billing list \<Rightarrow> db \<Rightarrow> bool" where
  "billed_round d jid bs d' \<longleftrightarrow>
     sum_billed d' jid = sum_billed d jid + sum_list (map (\<lambda>b. new_bill b - money_or_zero (it_billed_cost (bg_item b))) bs)
     \<and> db_jobs d' = db_jobs d \<and> db_usage_logs d' = db_usage_logs d
     \<and> map it_id (db_items d') = map it_id (db_items d)
     \<and> (\<forall>b \<in> set bs. billed_as d' b)
     \<and> (\<forall>x. x \<notin> (\<lambda>b. it_id (bg_item b)) ` set bs \<longrightarrow> the_item d' x = the_item d x)"

lemma the_item_upd_same:
  assumes "the_item d iid = Some i" and "\<And>r. it_id (g r) = it_id r" and "db_items d' = upd (\<lambda>r. it_id r = iid) g (db_items d)"
  shows "the_item d' iid = Some (g i)"
proof -
  have "find (\<lambda>i. it_id i = iid) (upd (\<lambda>r. it_id r = iid) g rows) = Some (g i)"
    if "find (\<lambda>i. it_id i = iid) rows = Some i" for rows
    using that assms(2) by (induction rows) (auto split: if_splits)
  then show ?thesis using assms(1) by (simp add: the_item_def assms(3))
qed

lemma bill_items_quiet:
  assumes "quiet e"
  shows "\<lbrakk>distinct (map (\<lambda>b. it_id (bg_item b)) bs); distinct (map it_id (db_items d));
     \<forall>b \<in> set bs. billable D d jid b; bill_items D e j bs amount d = (amount', d')\<rbrakk>
   \<Longrightarrow> amount' = amount + sum_list (map new_bill bs) \<and> billed_round d jid bs d'"
proof (induction bs arbitrary: amount d)
  case Nil
  then show ?case by (simp add: billed_round_def)
next
  case (Cons b bs)
  let ?i = "bg_item b" and ?old = "money_or_zero (it_billed_cost (bg_item b))"
  have b: "the_item d (it_id ?i) = Some ?i" "it_job_id ?i = jid" "quantize_money D (bg_total b) = bg_total b"
    using Cons.prems(3) by (auto simp: billable_def)
  have notin: "it_id ?i \<notin> (\<lambda>b. it_id (bg_item b)) ` set bs" and dist: "distinct (map (\<lambda>b. it_id (bg_item b)) bs)"
    using Cons.prems(1) by auto
  show ?case
  proof (cases "bg_hits b = 0 \<or> (it_billed_cost ?i \<noteq> None \<and> \<not> bg_total b > ?old)")
    case True
    then have n: "new_bill b = ?old" by (auto simp: new_bill_def Let_def)
    from Cons.prems(4) True have "bill_items D e j bs (amount + ?old) d = (amount', d')"
      by (auto simp: Let_def split: if_splits)
    from Cons.IH[OF dist Cons.prems(2) _ this] Cons.prems(3)
    have IH: "amount' = amount + ?old + sum_list (map new_bill bs)" "billed_round d jid bs d'" by auto
    have "the_item d' (it_id ?i) = Some ?i" using IH(2) notin b(1) by (simp add: billed_round_def)
    moreover have "bg_hits b \<noteq> 0 \<Longrightarrow> it_billed_cost ?i = Some ?old" using True by (auto simp: money_or_zero_def)
    ultimately have "billed_as d' b" using n by (auto simp: billed_as_def)
    with IH n show ?thesis by (simp add: billed_round_def)
  next
    case False
    then have n: "new_bill b = bg_total b" by (auto simp: new_bill_def Let_def)
    obtain tier where t: "resolve_billing_tier e ?i j d = (tier, d)" using quiet_tier[OF assms] by blast
    obtain d1 where ap: "apply_item_billing D (se_now e) (it_id ?i) (bg_total b)
        (deref_string (it_billing_mode ?i) (job_billing_mode j)) tier d = Inr ((), d1)"
      and d1: "db_items d1 = upd (\<lambda>r. it_id r = it_id ?i) (bill_item (se_now e) (bg_total b)
        (deref_string (it_billing_mode ?i) (job_billing_mode j)) tier) (db_items d)"
      "db_jobs d1 = db_jobs d" "db_usage_logs d1 = db_usage_logs d"
      by (rule apply_billing_row[OF b(1,3)]) (use False in auto)
    from Cons.prems(4) False t ap have rest: "bill_items D e j bs (amount + bg_total b) d1 = (amount', d')"
      by (auto simp: Let_def quiet_call[OF assms] split: if_splits)
    have ids: "map it_id (db_items d1) = map it_id (db_items d)" unfolding d1 by (simp add: map_upd)
    have keep: "the_item d1 x = the_item d x" if "x \<noteq> it_id ?i" for x
      using the_item_upd[OF _ that d1(1)] by simp
    have "\<forall>b' \<in> set bs. billable D d1 jid b'" using Cons.prems(3) notin keep by (fastforce simp: billable_def image_iff)
    from Cons.IH[OF dist _ this rest] Cons.prems(2) ids
    have IH: "amount' = amount + bg_total b + sum_list (map new_bill bs)" "billed_round d1 jid bs d'" by auto
    have "the_item d1 (it_id ?i) = Some (bill_item (se_now e) (bg_total b)
        (deref_string (it_billing_mode ?i) (job_billing_mode j)) tier ?i)"
      by (rule the_item_upd_same[OF b(1) _ d1(1)]) simp
    then have "billed_as d' b" using IH(2) notin n False by (auto simp: billed_round_def billed_as_def money_or_zero_def)
    moreover have "sum_billed d1 jid = sum_billed d jid + (bg_total b - ?old)"
    proof -
      have "?i \<in> set (db_items d)" using the_item_mem[OF b(1)] by simp
      then show ?thesis unfolding sum_billed_def d1(1)
        by (subst sum_col_upd_one[OF Cons.prems(2)]) (use b(2) in \<open>simp_all add: money_or_zero_def\<close>)
    qed
    ultimately show ?thesis using IH n keep ids d1 by (auto simp: billed_round_def)
  qed
qed

text \<open>\<open>fill_costs\<close> keeps the items and ids of the billings and rounds their totals.\<close>

lemma fill_costs_keeps:
  assumes "decimal_ok D"
  shows "fill_costs D costs bs counts = (bs', counts') \<Longrightarrow>
     map bg_item bs' = map bg_item bs \<and> map bg_ids bs' = map bg_ids bs
     \<and> map bg_required_id bs' = map bg_required_id bs \<and> (\<forall>b \<in> set bs'. quantize_money D (bg_total b) = bg_total b)"
proof (induction bs arbitrary: counts bs')
  case (Cons b bs)
  obtain r h o' where c: "counts = (r, h, o')" by (metis prod.exhaust)
  then show ?case using Cons quantize_id[OF assms quantize_grid[OF assms]]
    by (auto simp: Let_def split: prod.splits)
qed simp

lemma collect_items: "collect_billings_from j is all = (bs, all') \<Longrightarrow> map bg_item bs = is"
  by (induction "is" arbitrary: all bs) (auto simp: Let_def billing_of_def split: prod.splits)

section \<open>A quiet settlement\<close>

abbreviation settled_status :: "job \<Rightarrow> job_status" where
  "settled_status j \<equiv> terminal_job_status (job_item_count j) (job_success_count j) (job_fail_count j)
     (job_cancelled_count j) (is_stop_requested (Some j))"

definition settled_exactly :: "decimal_lib \<Rightarrow> job \<Rightarrow> db \<Rightarrow> bool" where
  "settled_exactly D j d \<longleftrightarrow>
     (\<exists>j' \<in> set (db_jobs d). job_id j' = job_id j \<and> job_settled_at j' \<noteq> None \<and> job_status j' = settled_status j
        \<and> job_actual_cost j' = Some (quantize_money D (sum_billed d (job_id j))))"

lemma list_job_items_set: "set (list_job_items d jid) = {i \<in> set (db_items d). it_job_id i = jid}"
  by (auto simp: list_job_items_def)

lemma list_job_items_distinct:
  "distinct (map it_id (db_items d)) \<Longrightarrow> distinct (map it_id (list_job_items d jid))"
  by (auto simp: list_job_items_def distinct_map inj_on_def)

lemma sum_list_job_items:
  "sum_list (map (\<lambda>i. money_or_zero (it_billed_cost i)) (list_job_items d jid)) = sum_billed d jid"
proof -
  have "mset (map (\<lambda>i. money_or_zero (it_billed_cost i)) (list_job_items d jid))
      = mset (map (\<lambda>i. money_or_zero (it_billed_cost i)) (filter (\<lambda>i. it_job_id i = jid) (db_items d)))"
    by (simp add: list_job_items_def)
  then have "sum_list (map (\<lambda>i. money_or_zero (it_billed_cost i)) (list_job_items d jid))
      = sum_list (map (\<lambda>i. money_or_zero (it_billed_cost i)) (filter (\<lambda>i. it_job_id i = jid) (db_items d)))"
    by (metis sum_mset_sum_list)
  then show ?thesis by (simp add: sum_billed_def sum_col_def money_or_zero_def)
qed

lemma the_item_unique: "distinct (map it_id (db_items d)) \<Longrightarrow> i \<in> set (db_items d) \<Longrightarrow> the_item d (it_id i) = Some i"
proof -
  have "find (\<lambda>x. it_id x = it_id i) rows = Some i" if "distinct (map it_id rows)" "i \<in> set rows" for rows
    using that by (induction rows) (auto simp: image_iff)
  then show "distinct (map it_id (db_items d)) \<Longrightarrow> i \<in> set (db_items d) \<Longrightarrow> the_item d (it_id i) = Some i"
    by (simp add: the_item_def)
qed

lemma settled_status_allowed:
  "job_is_terminal (settled_status j) \<and> can_transition JobStatusSettling (settled_status j)"
  by (auto simp: terminal_job_status_def status_simps)

lemma source_of_transition:
  "can_transition s to_status \<Longrightarrow> s \<in> set all_job_statuses \<Longrightarrow> s \<in> set (settle_source_statuses to_status)"
  by (simp add: settle_source_statuses_def allowed_source_statuses_def Let_def)

lemma settle_succeeds:
  assumes "j \<in> set (db_jobs d)" and "job_status j = JobStatusSettling" and "job_settled_at j = None"
  obtains d' where "settle_job D now \<lparr>sj_job_id = job_id j, sj_actual_cost = c, sj_status = settled_status j, sj_settled_at = t\<rparr> d
      = Inr ((), d')"
    and "db_items d' = db_items d" and "db_alerts d' = db_alerts d"
    and "\<exists>j' \<in> set (db_jobs d'). job_id j' = job_id j \<and> job_settled_at j' \<noteq> None \<and> job_status j' = settled_status j
           \<and> job_actual_cost j' = Some (quantize_money D c)"
proof -
  let ?p = "\<lparr>sj_job_id = job_id j, sj_actual_cost = c, sj_status = settled_status j, sj_settled_at = t\<rparr>"
  let ?t = "if t = zero_time then now else t"
  let ?d' = "release_hold now (job_id j) (update_jobs (settle_guard ?p) (settle_row D now ?t ?p) d)"
  have g: "settle_guard ?p j"
    using assms settled_status_allowed[of j] source_of_transition[of JobStatusSettling]
    by (simp add: settle_guard_def all_job_statuses_def)
  then have "affected (settle_guard ?p) (db_jobs d) \<noteq> 0" using assms(1) by (auto simp: affected_eq_0)
  then have s: "settle_job D now ?p d = Inr ((), ?d')"
    using settled_status_allowed[of j] by (simp add: settle_job_def Let_def)
  have "settle_row D now ?t ?p j \<in> set (db_jobs ?d')"
    using upd_mem[OF assms(1), of "settle_guard ?p" "settle_row D now ?t ?p"] g
    by (simp add: release_hold_def update_holds_def update_jobs_def)
  then have "\<exists>j' \<in> set (db_jobs ?d'). job_id j' = job_id j \<and> job_settled_at j' \<noteq> None \<and> job_status j' = settled_status j
           \<and> job_actual_cost j' = Some (quantize_money D c)"
    by (rule bexI[rotated]) (simp add: settle_row_def)
  moreover have "db_items ?d' = db_items d" "db_alerts ?d' = db_alerts d"
    by (simp_all add: release_hold_def update_holds_def update_jobs_def)
  ultimately show thesis using that s by blast
qed

definition flagged :: "job \<Rightarrow> db \<Rightarrow> bool" where
  "flagged j d \<longleftrightarrow> (\<exists>a \<in> set (db_alerts d). al_job_id a = job_id j \<and> al_level a = billing_alert_level_critical)"

lemma record_alert_quiet:
  assumes "quiet e"
  shows "db_items (record_billing_alert D e j actual level d) = db_items d"
    and "db_jobs (record_billing_alert D e j actual level d) = db_jobs d"
    and "level = billing_alert_level_critical \<Longrightarrow> flagged j (record_billing_alert D e j actual level d)"
  using assms
  by (auto simp: record_billing_alert_def quiet_call insert_billing_alert_def Let_def flagged_def
      billing_alert_level_critical_def)

lemma close_settlement_quiet:
  assumes "decimal_ok D" and "inv d" and "quiet e" and "j \<in> set (db_jobs d)" and "job_status j = JobStatusSettling"
    and "map bg_item bs = list_job_items d (job_id j)" and "\<forall>b \<in> set bs. quantize_money D (bg_total b) = bg_total b"
  shows "\<exists>d'. close_settlement D e j st bs u d = (True, st, d') \<and> settled_exactly D j d'
           \<and> (\<forall>b \<in> set bs. billed_as d' b) \<and> (u \<longrightarrow> flagged j d')"
proof -
  note ids = schema_distinct(2)[OF inv_schema[OF assms(2)]]
  obtain amount d1 where b: "bill_items D e j bs 0 d = (amount, d1)" by fastforce
  have dist: "distinct (map (\<lambda>b. it_id (bg_item b)) bs)"
    using list_job_items_distinct[OF ids, of "job_id j"] unfolding assms(6)[symmetric] by (simp add: comp_def)
  have "bg_item ` set bs = set (list_job_items d (job_id j))" using assms(6) by (metis set_map)
  then have mem: "bg_item b \<in> set (db_items d) \<and> it_job_id (bg_item b) = job_id j" if "b \<in> set bs" for b
    using that by (auto simp: list_job_items_set)
  then have "\<forall>b \<in> set bs. billable D d (job_id j) b"
    using assms(7) the_item_unique[OF ids] by (simp add: billable_def)
  from bill_items_quiet[OF assms(3) dist ids this b]
  have a: "amount = sum_list (map new_bill bs)" and r: "billed_round d (job_id j) bs d1" by auto
  have "sum_list (map (\<lambda>b. new_bill b - money_or_zero (it_billed_cost (bg_item b))) bs)
      = sum_list (map new_bill bs) - sum_list (map (\<lambda>i. money_or_zero (it_billed_cost i)) (map bg_item bs))"
    by (induction bs) (simp_all add: algebra_simps)
  then have sb: "sum_billed d1 (job_id j) = amount"
    using r a unfolding assms(6) sum_list_job_items by (simp add: billed_round_def)
  have s: "job_settled_at j = None" using inv_job(2)[OF assms(2,4)] assms(5) unfolding life_ok_def by auto
  have j1: "j \<in> set (db_jobs d1)" using r assms(4) by (simp add: billed_round_def)
  let ?q = "quantize_money D amount"
  obtain d2 where d2: "settle_job D (se_now e) \<lparr>sj_job_id = job_id j, sj_actual_cost = ?q, sj_status = settled_status j,
      sj_settled_at = se_now e\<rparr> d1 = Inr ((), d2)"
    "db_items d2 = db_items d1" "db_alerts d2 = db_alerts d1"
    "\<exists>j' \<in> set (db_jobs d2). job_id j' = job_id j \<and> job_settled_at j' \<noteq> None \<and> job_status j' = settled_status j
           \<and> job_actual_cost j' = Some (quantize_money D ?q)"
    by (rule settle_succeeds[OF j1 assms(5) s])
  let ?d' = "record_billing_alert D e j ?q (settlement_alert_level D j ?q u) d2"
  have c: "close_settlement D e j st bs u d = (True, st, ?d')"
    using b d2(1) settled_status_allowed[of j] assms(5)
    by (simp add: close_settlement_def settler_apply_item_billing_def Let_def quiet_call[OF assms(3)])
  note ra = record_alert_quiet[OF assms(3)]
  have "quantize_money D ?q = quantize_money D (sum_billed ?d' (job_id j))"
    using sb d2(2) ra(1) quantize_id[OF assms(1) quantize_grid[OF assms(1)]] by (simp add: sum_billed_def)
  with d2(4) ra(2) have "settled_exactly D j ?d'" by (auto simp: settled_exactly_def)
  moreover have "the_item ?d' x = the_item d1 x" for x using d2(2) ra(1) by (simp add: the_item_def)
  then have "\<forall>b \<in> set bs. billed_as ?d' b" using r by (simp add: billed_round_def billed_as_def)
  moreover have "u \<longrightarrow> flagged j ?d'" using ra(3) by (simp add: settlement_alert_level_def)
  ultimately show ?thesis using c by blast
qed

section \<open>Counting the bills\<close>

lemma fill_ids_step:
  "\<exists>a1 h1 r1 rh1 o1. fill_ids rid costs (i # ids) (a, h, r, rh, opt) = fill_ids rid costs ids (a1, h1, r1, rh1, o1)
     \<and> a1 = a + money_or_zero (costs i) \<and> h1 = h + (if costs i \<noteq> None then 1 else 0)
     \<and> r1 - rh1 = r - rh + (if i = rid \<and> rid \<noteq> [] \<and> costs i = None then 1 else 0)"
proof -
  let ?q = "i = rid \<and> rid \<noteq> []"
  have "fill_ids rid costs (i # ids) (a, h, r, rh, opt) = fill_ids rid costs ids
      (a + money_or_zero (costs i), h + (if costs i \<noteq> None then 1 else 0), if ?q then r + 1 else r,
       if ?q \<and> costs i \<noteq> None then rh + 1 else rh, if \<not> ?q \<and> costs i = None then opt + 1 else opt)"
    by (cases "costs i") (simp_all add: money_or_zero_def)
  then show ?thesis by (intro exI conjI, assumption) simp_all
qed

lemma fill_ids_result:
  "fill_ids rid costs ids (a, h, r, rh, opt) = (a', h', r', rh', opt') \<Longrightarrow>
     a' = a + sum_list (map (\<lambda>i. money_or_zero (costs i)) ids)
     \<and> h' = h + int (length (filter (\<lambda>i. costs i \<noteq> None) ids))
     \<and> r' - rh' = r - rh + int (length (filter (\<lambda>i. i = rid \<and> rid \<noteq> [] \<and> costs i = None) ids))"
proof (induction ids arbitrary: a h r rh opt)
  case (Cons i ids)
  obtain a1 h1 r1 rh1 o1
    where f: "fill_ids rid costs (i # ids) (a, h, r, rh, opt) = fill_ids rid costs ids (a1, h1, r1, rh1, o1)"
      and v: "a1 = a + money_or_zero (costs i)" "h1 = h + (if costs i \<noteq> None then 1 else 0)"
        "r1 - rh1 = r - rh + (if i = rid \<and> rid \<noteq> [] \<and> costs i = None then 1 else 0)"
    using fill_ids_step by blast
  note Cons.IH[OF Cons.prems[unfolded f]]
  then show ?case using v by (cases "i = rid \<and> rid \<noteq> [] \<and> costs i = None"; cases "costs i = None") simp_all
qed simp

definition lacks_required :: "(string \<Rightarrow> money option) \<Rightarrow> item_billing \<Rightarrow> bool" where
  "lacks_required costs b \<longleftrightarrow> bg_required_id b \<noteq> [] \<and> bg_required_id b \<in> set (bg_ids b) \<and> costs (bg_required_id b) = None"

lemma fill_costs_missing:
  "fill_costs D costs bs (r, rh, opt) = (bs', r', rh', opt') \<Longrightarrow>
     0 \<le> (r' - rh') - (r - rh) \<and> ((\<exists>b \<in> set bs. lacks_required costs b) \<longrightarrow> 0 < (r' - rh') - (r - rh))"
proof (induction bs arbitrary: r rh opt bs')
  case (Cons b bs)
  obtain a h r1 rh1 o1 where f: "fill_ids (bg_required_id b) costs (bg_ids b) (0, bg_hits b, r, rh, opt) = (a, h, r1, rh1, o1)"
    by (metis prod.exhaust)
  obtain bs1 where rest: "fill_costs D costs bs (r1, rh1, o1) = (bs1, r', rh', opt')"
    using Cons.prems f by (auto simp: Let_def split: prod.splits)
  let ?n = "int (length (filter (\<lambda>i. i = bg_required_id b \<and> bg_required_id b \<noteq> [] \<and> costs i = None) (bg_ids b)))"
  have n: "r1 - rh1 = r - rh + ?n" using fill_ids_result[OF f] by simp
  have "lacks_required costs b \<Longrightarrow> 0 < ?n"
    by (auto simp: lacks_required_def filter_empty_conv)
  then show ?case using Cons.IH[OF rest] n by fastforce
qed simp

lemma fill_costs_items:
  assumes "fill_costs D costs bs counts = (bs', counts')" and "b' \<in> set bs'" and "\<forall>b \<in> set bs. bg_hits b = 0"
  shows "bg_total b' = quantize_money D (sum_list (map (\<lambda>i. money_or_zero (costs i)) (bg_ids b')))
     \<and> bg_hits b' = int (length (filter (\<lambda>i. costs i \<noteq> None) (bg_ids b')))"
  using assms
proof (induction bs arbitrary: counts bs')
  case (Cons b bs)
  obtain r rh opt where c: "counts = (r, rh, opt)" by (metis prod.exhaust)
  obtain a h r1 rh1 o1 where f: "fill_ids (bg_required_id b) costs (bg_ids b) (0, bg_hits b, r, rh, opt) = (a, h, r1, rh1, o1)"
    by (metis prod.exhaust)
  obtain bs1 where rest: "fill_costs D costs bs (r1, rh1, o1) = (bs1, counts')"
    and bs': "bs' = b\<lparr>bg_total := quantize_money D a, bg_hits := h\<rparr> # bs1"
    using Cons.prems(1) c f by (auto simp: Let_def split: prod.splits)
  have "a = sum_list (map (\<lambda>i. money_or_zero (costs i)) (bg_ids b))" "h = int (length (filter (\<lambda>i. costs i \<noteq> None) (bg_ids b)))"
    using fill_ids_result[OF f] Cons.prems(3) by simp_all
  with bs' Cons.IH[OF rest] Cons.prems(2,3) show ?case by auto
qed simp

section \<open>The candidates of an item\<close>

lemma fmt_pad_inj: "0 \<le> m \<Longrightarrow> 0 \<le> n \<Longrightarrow> fmt_pad w m = fmt_pad w n \<Longrightarrow> m = n"
  using digits_val_fmt_pad[of m w] digits_val_fmt_pad[of n w] by simp

lemma stored_id_attempt_inj:
  "0 \<le> a \<Longrightarrow> 0 \<le> a' \<Longrightarrow> stored_billing_request_id uid s a = stored_billing_request_id uid s a' \<Longrightarrow> a = a'"
  by (simp add: stored_billing_request_id_def billing_request_id_def fmt_pad_inj)

lemma candidates_attempts:
  assumes "billing_candidates uid i = (ids, rid)" and "1 \<le> a" and "a \<le> it_attempt_count i" and "a \<le> 99"
  shows "stored_billing_request_id uid (it_seq i) a \<in> set ids"
proof -
  let ?n = "nat (if it_attempt_count i > max_enumerated_attempts then max_enumerated_attempts else it_attempt_count i)"
  have "nat (a - 1) < ?n" and "1 + int (nat (a - 1)) = a"
    using assms by (auto simp: max_enumerated_attempts_def billing_request_id_max_attempt_def)
  then have "stored_billing_request_id uid (it_seq i) a \<in> (\<lambda>k. stored_billing_request_id uid (it_seq i) (1 + int k)) ` {0..<?n}"
    by (metis atLeastLessThan_iff image_eqI zero_le)
  then show ?thesis using assms(1) by (auto simp: billing_candidates_def Let_def split: if_splits)
qed

lemma candidates_distinct: "billing_candidates uid i = (ids, rid) \<Longrightarrow> distinct ids"
proof -
  have "distinct (map (\<lambda>a. stored_billing_request_id uid (it_seq i) (1 + int a)) [0..<n])" for n
    by (auto simp: distinct_map inj_on_def dest: stored_id_attempt_inj[rotated 2])
  then show "billing_candidates uid i = (ids, rid) \<Longrightarrow> distinct ids"
    by (auto simp: billing_candidates_def Let_def contains_str_def list_ex_iff split: if_splits)
qed

lemma candidates_required:
  assumes "billing_candidates uid i = (ids, rid)" and "rid \<noteq> []"
  shows "rid \<in> set ids"
proof -
  have pick: "rid \<in> set ids"
    if "(if c then (ids0 :: string list, [] :: string) else if stored \<noteq> [] then (ids0, stored)
         else if ids0 \<noteq> [] then (ids0, last ids0) else (ids0, [])) = (ids, rid)" and "stored \<noteq> [] \<Longrightarrow> stored \<in> set ids0"
    for c ids0 stored
    using that assms(2) last_in_set by (auto split: if_splits)
  show ?thesis
    using assms(1) unfolding billing_candidates_def Let_def
    by (rule pick) (auto simp: contains_str_def list_ex_iff)
qed

lemma candidates_certain:
  "billing_candidates uid i = (ids, rid) \<Longrightarrow> it_status i = ItemStatusSucceeded \<Longrightarrow> it_attempt_count i > 0 \<Longrightarrow> rid \<noteq> []"
  by (auto simp: billing_candidates_def Let_def stored_billing_request_id_def upstream_client_request_id_prefix_def
      max_enumerated_attempts_def billing_request_id_max_attempt_def last_map split: if_splits)

lemma add_unseen_set: "set (add_unseen all ids) = set all \<union> set ids"
  by (induction all ids rule: add_unseen.induct) auto

lemma collect_from:
  "collect_billings_from j is all = (bs, all') \<Longrightarrow>
     bs = map (billing_of j) is \<and> set all' = set all \<union> (\<Union>b \<in> set bs. set (bg_ids b))"
proof (induction "is" arbitrary: all bs)
  case (Cons i "is")
  then show ?case by (auto simp: Let_def add_unseen_set split: prod.splits)
qed simp

lemma sum_over_ids:
  assumes "distinct ids" and "set ids \<subseteq> set all"
  shows "sum_list (map (\<lambda>i. money_or_zero (sum_usage_log_costs d all i)) ids)
       = sum_col ul_actual_cost (\<lambda>u. ul_request_id u \<in> set ids) (db_usage_logs d)"
proof -
  have one: "money_or_zero (sum_usage_log_costs d all i) = sum_col ul_actual_cost (\<lambda>u. ul_request_id u = i) (db_usage_logs d)"
    if "i \<in> set all" for i
  proof (cases "list_ex (\<lambda>u. ul_request_id u = i) (db_usage_logs d)")
    case False
    then have "filter (\<lambda>u. ul_request_id u = i) (db_usage_logs d) = []" by (auto simp: filter_empty_conv list_ex_iff)
    with False show ?thesis by (simp add: sum_usage_log_costs_def sum_col_def money_or_zero_def)
  qed (use that in \<open>simp add: sum_usage_log_costs_def money_or_zero_def\<close>)
  have add: "sum_list (map (\<lambda>i. sum_col ul_actual_cost (\<lambda>u. ul_request_id u = i) rows) ids)
      = sum_col ul_actual_cost (\<lambda>u. ul_request_id u \<in> set ids) rows" if "distinct ids" for ids rows
  proof (induction rows)
    case (Cons u rows)
    have "sum_list (map (\<lambda>i. if ul_request_id u = i then ul_actual_cost u else 0) ids)
        = (if ul_request_id u \<in> set ids then ul_actual_cost u else 0)"
      using that by (induction ids) auto
    moreover have "sum_list (map (\<lambda>i. sum_col ul_actual_cost (\<lambda>u. ul_request_id u = i) (u # rows)) ids)
        = sum_list (map (\<lambda>i. if ul_request_id u = i then ul_actual_cost u else 0) ids)
          + sum_list (map (\<lambda>i. sum_col ul_actual_cost (\<lambda>u. ul_request_id u = i) rows) ids)"
      by (simp add: sum_list_addf)
    ultimately show ?case using Cons.IH by simp
  qed simp
  have "map (\<lambda>i. money_or_zero (sum_usage_log_costs d all i)) ids
      = map (\<lambda>i. sum_col ul_actual_cost (\<lambda>u. ul_request_id u = i) (db_usage_logs d)) ids"
    using assms(2) one by auto
  then show ?thesis using add[OF assms(1)] by metis
qed

section \<open>One round for one batch\<close>

text \<open>Everything the usage log charged for an item, over all the ids it may have been charged under.\<close>

abbreviation item_ids :: "job \<Rightarrow> job_item \<Rightarrow> string set" where
  "item_ids j i \<equiv> set (fst (billing_candidates (job_uid j) i))"

definition bills :: "db \<Rightarrow> job \<Rightarrow> job_item \<Rightarrow> money" where
  "bills d j i = sum_col ul_actual_cost (\<lambda>u. ul_request_id u \<in> item_ids j i) (db_usage_logs d)"

definition charged :: "db \<Rightarrow> job \<Rightarrow> job_item \<Rightarrow> bool" where
  "charged d j i \<longleftrightarrow> (\<exists>u \<in> set (db_usage_logs d). ul_request_id u \<in> item_ids j i)"

lemma billing_of_fields [simp]:
  "bg_item (billing_of j i) = i" "bg_hits (billing_of j i) = 0"
  "bg_ids (billing_of j i) = fst (billing_candidates (job_uid j) i)"
  "bg_required_id (billing_of j i) = snd (billing_candidates (job_uid j) i)"
  by (simp_all add: billing_of_def split: prod.split)

lemma usage_cost_found:
  "ident \<in> set all \<Longrightarrow> sum_usage_log_costs d all ident \<noteq> None \<longleftrightarrow> (\<exists>u \<in> set (db_usage_logs d). ul_request_id u = ident)"
  by (auto simp: sum_usage_log_costs_def list_ex_iff)

lemma round_costs:
  assumes "decimal_ok D" and c: "collect_billings j is = (bs, all)"
    and f: "fill_costs D (sum_usage_log_costs d all) bs (0, 0, 0) = (bs', counts)" and "b' \<in> set bs'"
  shows "bg_item b' \<in> set is" and "bg_total b' = quantize_money D (bills d j (bg_item b'))"
    and "bg_hits b' \<noteq> 0 \<longleftrightarrow> charged d j (bg_item b')"
proof -
  let ?costs = "sum_usage_log_costs d all"
  from c have bs: "bs = map (billing_of j) is" and all: "set all = (\<Union>b \<in> set bs. set (bg_ids b))"
    using collect_from by (auto simp: collect_billings_def)
  note keep = fill_costs_keeps[OF assms(1) f]
  have "(bg_item b', bg_ids b') \<in> set (zip (map bg_item bs') (map bg_ids bs'))"
    using assms(4) by (auto simp: zip_map_map zip_same_conv_map)
  then have "(bg_item b', bg_ids b') \<in> set (zip (map bg_item bs) (map bg_ids bs))" using keep by simp
  then obtain b where b: "b \<in> set bs" "bg_item b' = bg_item b" "bg_ids b' = bg_ids b"
    by (auto simp: zip_map_map zip_same_conv_map)
  then obtain i where i: "i \<in> set is" "b = billing_of j i" using bs by auto
  have item: "bg_item b' = i" and ids: "bg_ids b' = fst (billing_candidates (job_uid j) i)" using b i by simp_all
  show "bg_item b' \<in> set is" using item i by simp
  have sub: "item_ids j i \<subseteq> set all" using all b i by auto
  have dist: "distinct (fst (billing_candidates (job_uid j) i))" using candidates_distinct by (metis prod.collapse)
  have z: "\<forall>b \<in> set bs. bg_hits b = 0" using bs by auto
  have "bg_total b' = quantize_money D (sum_list (map (\<lambda>i. money_or_zero (?costs i)) (bg_ids b')))"
    and h: "bg_hits b' = int (length (filter (\<lambda>i. ?costs i \<noteq> None) (bg_ids b')))"
    using fill_costs_items[OF f assms(4) z] by auto
  then show "bg_total b' = quantize_money D (bills d j (bg_item b'))"
    using sum_over_ids[OF dist sub] by (simp add: bills_def item ids)
  have "bg_hits b' \<noteq> 0 \<longleftrightarrow> (\<exists>x \<in> set (bg_ids b'). ?costs x \<noteq> None)"
    by (simp add: h filter_empty_conv)
  also have "\<dots> \<longleftrightarrow> charged d j i"
    using sub usage_cost_found unfolding ids charged_def by blast
  finally show "bg_hits b' \<noteq> 0 \<longleftrightarrow> charged d j (bg_item b')" using item by simp
qed

lemma round_missing:
  assumes c: "collect_billings j is = (bs, all)"
    and f: "fill_costs D (sum_usage_log_costs d all) bs (0, 0, 0) = (bs', r, rh, opt)"
    and "i \<in> set is" and "it_status i = ItemStatusSucceeded" and "it_attempt_count i > 0" and "\<not> charged d j i"
  shows "r - rh > 0"
proof -
  from c have bs: "bs = map (billing_of j) is" and all: "set all = (\<Union>b \<in> set bs. set (bg_ids b))"
    using collect_from by (auto simp: collect_billings_def)
  obtain ids rid where bc: "billing_candidates (job_uid j) i = (ids, rid)" by fastforce
  have "rid \<noteq> []" "rid \<in> set ids"
    using candidates_certain[OF bc assms(4,5)] candidates_required[OF bc] by auto
  moreover have "rid \<in> set all" using all bs assms(3) bc \<open>rid \<in> set ids\<close> by force
  then have "sum_usage_log_costs d all rid = None"
    using usage_cost_found[of rid all d] assms(6) bc \<open>rid \<in> set ids\<close> by (auto simp: charged_def)
  ultimately have "lacks_required (sum_usage_log_costs d all) (billing_of j i)"
    by (simp add: lacks_required_def bc)
  moreover have "billing_of j i \<in> set bs" using bs assms(3) by simp
  ultimately show ?thesis using fill_costs_missing[OF f] by auto
qed

text \<open>What a settled batch looks like.\<close>

definition billed_for :: "decimal_lib \<Rightarrow> db \<Rightarrow> job \<Rightarrow> db \<Rightarrow> job_item \<Rightarrow> bool" where
  "billed_for D d j d' i \<longleftrightarrow>
     (\<exists>i'. the_item d' (it_id i) = Some i'
        \<and> it_billed_cost i' =
            (if charged d j i
             then Some (if it_billed_cost i \<noteq> None
                        then max (money_or_zero (it_billed_cost i)) (quantize_money D (bills d j i))
                        else quantize_money D (bills d j i))
             else it_billed_cost i))"

definition unpaid :: "db \<Rightarrow> job \<Rightarrow> job_item \<Rightarrow> bool" where
  "unpaid d j i \<longleftrightarrow> it_status i = ItemStatusSucceeded \<and> it_attempt_count i > 0 \<and> \<not> charged d j i"

definition settlement_done :: "decimal_lib \<Rightarrow> db \<Rightarrow> job \<Rightarrow> db \<Rightarrow> bool" where
  "settlement_done D d j d' \<longleftrightarrow> settled_exactly D j d'
     \<and> (\<forall>i \<in> set (list_job_items d (job_id j)). billed_for D d j d' i)
     \<and> ((\<exists>i \<in> set (list_job_items d (job_id j)). unpaid d j i) \<longrightarrow> flagged j d')"

lemma billed_for_round:
  assumes "billed_as d' b" and "bg_total b = quantize_money D (bills d j (bg_item b))"
    and "bg_hits b \<noteq> 0 \<longleftrightarrow> charged d j (bg_item b)"
  shows "billed_for D d j d' (bg_item b)"
proof -
  from assms(1) obtain i where i: "the_item d' (it_id (bg_item b)) = Some i"
    "bg_hits b \<noteq> 0 \<longrightarrow> it_billed_cost i = Some (new_bill b)"
    "bg_hits b = 0 \<longrightarrow> it_billed_cost i = it_billed_cost (bg_item b)" by (auto simp: billed_as_def)
  have "bg_hits b \<noteq> 0 \<Longrightarrow> new_bill b = (if it_billed_cost (bg_item b) \<noteq> None
      then max (money_or_zero (it_billed_cost (bg_item b))) (bg_total b) else bg_total b)"
    by (auto simp: new_bill_def Let_def money_or_zero_def max_def)
  with i assms(2,3) show ?thesis by (auto simp: billed_for_def)
qed

lemma settler_round:
  assumes "decimal_ok D" and "inv d" and "quiet e" and "j \<in> set (db_jobs d)" and "job_status j = JobStatusSettling"
  shows "(\<exists>d'. settler_settle_job D e j st d = (True, st, d') \<and> settlement_done D d j d')
       \<or> (settler_settle_job D e j st d = (False, schedule_retry (se_cfg e) st (se_now e), d)
            \<and> st_attempts st < wc_settle_max_attempts (se_cfg e) \<and> \<not> stuck_in_settling (Some j) (se_now e))"
proof -
  let ?is = "list_job_items d (job_id j)"
  obtain bs all where c: "collect_billings j ?is = (bs, all)" by fastforce
  let ?costs = "sum_usage_log_costs d all"
  have costs: "sum_costs_call e j all d = (Inr ?costs, d)"
    by (simp add: sum_costs_call_def quiet_call[OF assms(3)]) (auto simp: sum_usage_log_costs_def)
  obtain bs' r rh opt where f: "fill_costs D ?costs bs (0, 0, 0) = (bs', r, rh, opt)" by (metis prod.exhaust)
  let ?stale = "stuck_in_settling (Some j) (se_now e)"
  let ?wait = "(r - rh > 0 \<or> (r = 0 \<and> opt > 0 \<and> st_attempts st = 0)) \<and> \<not> ?stale
      \<and> st_attempts st < wc_settle_max_attempts (se_cfg e)"
  have run: "settler_settle_job D e j st d =
      (if ?wait then (False, schedule_retry (se_cfg e) st (se_now e), d)
       else close_settlement D e j st bs' (r - rh > 0 \<or> ?stale) d)"
    by (simp add: settler_settle_job_def quiet_call[OF assms(3)] c costs f Let_def)
  show ?thesis
  proof (cases ?wait)
    case False
    note keep = fill_costs_keeps[OF assms(1) f]
    then have items: "map bg_item bs' = ?is" and q: "\<forall>b \<in> set bs'. quantize_money D (bg_total b) = bg_total b"
      using collect_items c by (simp_all add: collect_billings_def)
    from close_settlement_quiet[OF assms items q, of st "r - rh > 0 \<or> ?stale"]
    obtain d' where d': "close_settlement D e j st bs' (r - rh > 0 \<or> ?stale) d = (True, st, d')"
      "settled_exactly D j d'" "\<forall>b \<in> set bs'. billed_as d' b" and fl: "r - rh > 0 \<or> ?stale \<longrightarrow> flagged j d'"
      by (elim exE conjE) (rule that)
    have "billed_for D d j d' i" if "i \<in> set ?is" for i
    proof -
      from that items obtain b where "b \<in> set bs'" "bg_item b = i" by (metis image_iff set_map)
      moreover from this d'(3) have "billed_as d' b" by blast
      ultimately show ?thesis
        using billed_for_round[OF _ round_costs(2,3)[OF assms(1) c f]] by blast
    qed
    moreover have "(\<exists>i \<in> set ?is. unpaid d j i) \<longrightarrow> flagged j d'"
      using round_missing[OF c f] fl by (auto simp: unpaid_def)
    ultimately have "settlement_done D d j d'" using d'(2) unfolding settlement_done_def by blast
    moreover have "settler_settle_job D e j st d = (True, st, d')"
      unfolding run using False d'(1) by (simp only: if_False)
    ultimately show ?thesis by blast
  next
    case True
    have "settler_settle_job D e j st d = (False, schedule_retry (se_cfg e) st (se_now e), d)"
      unfolding run by (rule if_P[OF True])
    with True show ?thesis by blast
  qed
qed

section \<open>A round over all batches\<close>

text \<open>What a round for another batch leaves alone: the row of a batch and its images.\<close>

definition left_alone :: "int \<Rightarrow> db \<Rightarrow> db \<Rightarrow> bool" where
  "left_alone jid d d' \<longleftrightarrow>
     filter (\<lambda>j. job_id j = jid) (db_jobs d') = filter (\<lambda>j. job_id j = jid) (db_jobs d)
     \<and> filter (\<lambda>i. it_job_id i = jid) (db_items d') = filter (\<lambda>i. it_job_id i = jid) (db_items d)"

lemma left_alone_refl [simp]: "left_alone jid d d"
  by (simp add: left_alone_def)

lemma left_alone_trans: "left_alone jid a b \<Longrightarrow> left_alone jid b c \<Longrightarrow> left_alone jid a c"
  by (simp add: left_alone_def)

lemma left_alone_job:
  assumes "left_alone (job_id j) d d'" shows "j \<in> set (db_jobs d') \<longleftrightarrow> j \<in> set (db_jobs d)"
proof -
  have "j \<in> set (db_jobs x) \<longleftrightarrow> j \<in> set (filter (\<lambda>k. job_id k = job_id j) (db_jobs x))" for x by simp
  with assms show ?thesis by (metis left_alone_def)
qed

lemma filter_upd_apart:
  assumes "\<And>r. r \<in> set rows \<Longrightarrow> P r \<Longrightarrow> \<not> Q r \<and> \<not> Q (g r)"
  shows "filter Q (upd P g rows) = filter Q rows"
  using assms by (induction rows) auto

lemma apply_billing_leaves:
  assumes "apply_item_billing D now iid cost mode tier d = Inr (u, d')"
    and "\<And>r. r \<in> set (db_items d) \<Longrightarrow> it_id r = iid \<Longrightarrow> it_job_id r = jid"
  shows "db_jobs d' = db_jobs d" and "map (\<lambda>r. (it_id r, it_job_id r)) (db_items d') = map (\<lambda>r. (it_id r, it_job_id r)) (db_items d)"
    and "x \<noteq> jid \<Longrightarrow> left_alone x d d'"
proof -
  let ?bill = "bill_item now (quantize_money D cost) mode tier"
  from assms(1) have "db_items d' = db_items d \<or> db_items d' = upd (\<lambda>r. it_id r = iid) ?bill (db_items d)"
    and jobs: "db_jobs d' = db_jobs d"
    by (auto simp: apply_item_billing_def Let_def update_items_def decrement_hold_def update_holds_def split: option.splits if_splits)
  then show "db_jobs d' = db_jobs d" "map (\<lambda>r. (it_id r, it_job_id r)) (db_items d') = map (\<lambda>r. (it_id r, it_job_id r)) (db_items d)"
    and "x \<noteq> jid \<Longrightarrow> left_alone x d d'"
    using filter_upd_apart[of "db_items d" "\<lambda>r. it_id r = iid" "\<lambda>i. it_job_id i = x" ?bill] assms(2)
    by (auto simp: left_alone_def map_upd)
qed

lemma owner_of_pairs:
  assumes "map (\<lambda>r. (it_id r, it_job_id r)) rows' = map (\<lambda>r. (it_id r, it_job_id r)) rows"
    and "\<forall>r \<in> set rows. it_id r \<in> ids \<longrightarrow> it_job_id r = jid"
  shows "\<forall>r \<in> set rows'. it_id r \<in> ids \<longrightarrow> it_job_id r = jid"
proof -
  have "(\<forall>r \<in> set xs. it_id r \<in> ids \<longrightarrow> it_job_id r = jid) \<longleftrightarrow>
      (\<forall>p \<in> set (map (\<lambda>r. (it_id r, it_job_id r)) xs). fst p \<in> ids \<longrightarrow> snd p = jid)" for xs
    by simp
  with assms show ?thesis by metis
qed

lemma bill_items_leaves:
  assumes "quiet e" and "x \<noteq> jid"
  shows "\<lbrakk>\<forall>r \<in> set (db_items d). it_id r \<in> (\<lambda>b. it_id (bg_item b)) ` set bs \<longrightarrow> it_job_id r = jid;
     bill_items D e j bs amount d = (amount', d')\<rbrakk> \<Longrightarrow> left_alone x d d'"
proof (induction bs arbitrary: amount d)
  case (Cons b bs)
  let ?i = "bg_item b"
  show ?case
  proof (cases "bg_hits b = 0 \<or> (it_billed_cost ?i \<noteq> None \<and> \<not> bg_total b > money_or_zero (it_billed_cost ?i))")
    case True
    with Cons.prems(2) obtain a where "bill_items D e j bs a d = (amount', d')" by (auto simp: Let_def split: if_splits)
    from Cons.IH[OF _ this] Cons.prems(1) show ?thesis by simp
  next
    case False
    obtain tier where t: "resolve_billing_tier e ?i j d = (tier, d)" using quiet_tier[OF assms(1)] by blast
    let ?apply = "apply_item_billing D (se_now e) (it_id ?i) (bg_total b)
        (deref_string (it_billing_mode ?i) (job_billing_mode j)) tier d"
    obtain d1 a where d1: "d1 = d \<or> (\<exists>u. ?apply = Inr (u, d1))" and rest: "bill_items D e j bs a d1 = (amount', d')"
      using Cons.prems(2) False t by (auto simp: Let_def quiet_call[OF assms(1)] split: if_splits sum.splits prod.splits)
    have own: "r \<in> set (db_items d) \<Longrightarrow> it_id r = it_id ?i \<Longrightarrow> it_job_id r = jid" for r
      using Cons.prems(1) by simp
    from d1 have "left_alone x d d1 \<and> map (\<lambda>r. (it_id r, it_job_id r)) (db_items d1) = map (\<lambda>r. (it_id r, it_job_id r)) (db_items d)"
    proof
      assume "\<exists>u. ?apply = Inr (u, d1)"
      then obtain u where u: "?apply = Inr (u, d1)" by blast
      note leaves = apply_billing_leaves[OF u own]
      show ?thesis by (intro conjI leaves(2,3) assms(2))
    qed simp
    moreover have "\<forall>r \<in> set (db_items d). it_id r \<in> (\<lambda>b. it_id (bg_item b)) ` set bs \<longrightarrow> it_job_id r = jid"
      using Cons.prems(1) by simp
    ultimately have "left_alone x d d1" and "\<forall>r \<in> set (db_items d1). it_id r \<in> (\<lambda>b. it_id (bg_item b)) ` set bs \<longrightarrow> it_job_id r = jid"
      using owner_of_pairs by blast+
    with Cons.IH[OF _ rest] show ?thesis by (blast intro: left_alone_trans)
  qed
qed simp

lemma settle_job_leaves:
  "settle_job D now p d = Inr (u, d') \<Longrightarrow> x \<noteq> sj_job_id p \<Longrightarrow> left_alone x d d'"
  using filter_upd_apart[of "db_jobs d" "settle_guard p" "\<lambda>j. job_id j = x" "settle_row D now t p" for t]
  by (auto simp: settle_job_def Let_def left_alone_def release_hold_def update_holds_def update_jobs_def settle_guard_def settle_row_def
      split: if_splits)

lemma close_settlement_leaves:
  assumes "quiet e" and "x \<noteq> job_id j"
    and "\<forall>r \<in> set (db_items d). it_id r \<in> (\<lambda>b. it_id (bg_item b)) ` set bs \<longrightarrow> it_job_id r = job_id j"
    and "close_settlement D e j st bs u d = (dn, st', d')"
  shows "left_alone x d d'"
proof -
  obtain actual d1 where a: "settler_apply_item_billing D e j bs d = (actual, d1)" by fastforce
  have 1: "left_alone x d d1"
    using a bill_items_leaves[OF assms(1-3)] by (auto simp: settler_apply_item_billing_def split: prod.splits)
  have alert: "left_alone x d2 (record_billing_alert D e j c l d2)" for c l d2
    using record_alert_quiet(1,2)[OF assms(1)] by (simp add: left_alone_def)
  from assms(4) a consider "d' = d1"
    | p d2 v c l where "settle_job D (se_now e) p d1 = Inr (v, d2)" "sj_job_id p = job_id j" "d' = record_billing_alert D e j c l d2"
    by (fastforce simp: close_settlement_def Let_def quiet_call[OF assms(1)] split: if_splits sum.splits prod.splits)
  then show ?thesis
  proof cases
    case 2
    from settle_job_leaves[OF 2(1), of x] 2(2,3) assms(2) 1 alert left_alone_trans show ?thesis by metis
  qed (use 1 in simp)
qed

lemma settler_settle_job_leaves:
  assumes "decimal_ok D" and "inv d" and "quiet e" and "x \<noteq> job_id j" and "settler_settle_job D e j st d = (dn, st', d')"
  shows "left_alone x d d'"
proof -
  let ?is = "list_job_items d (job_id j)"
  obtain bs all where c: "collect_billings j ?is = (bs, all)" by fastforce
  have "\<exists>costs. sum_costs_call e j all d = (Inr costs, d)"
    by (simp add: sum_costs_call_def quiet_call[OF assms(3)])
  then obtain costs where costs: "sum_costs_call e j all d = (Inr costs, d)" by blast
  obtain bs' r rh opt where f: "fill_costs D costs bs (0, 0, 0) = (bs', r, rh, opt)" by (metis prod.exhaust)
  have "map bg_item bs' = ?is"
    using fill_costs_keeps[OF assms(1) f] collect_items c by (simp add: collect_billings_def)
  then have "bg_item ` set bs' = set ?is" by (metis set_map)
  then have ids: "(\<lambda>b. it_id (bg_item b)) ` set bs' = it_id ` set ?is" by (metis image_image)
  have "it_job_id k = job_id j" if k: "k \<in> set (db_items d)" "it_id k \<in> it_id ` set ?is" for k
  proof -
    from k(2) obtain i where "i \<in> set (db_items d)" "it_job_id i = job_id j" "it_id k = it_id i" by (auto simp: list_job_items_set)
    with k(1) the_item_unique[OF schema_distinct(2)[OF inv_schema[OF assms(2)]]] show ?thesis by (metis option.inject)
  qed
  then have own: "\<forall>k \<in> set (db_items d). it_id k \<in> (\<lambda>b. it_id (bg_item b)) ` set bs' \<longrightarrow> it_job_id k = job_id j"
    unfolding ids by blast
  have "d' = d \<or> (\<exists>u. close_settlement D e j st bs' u d = (dn, st', d'))"
    using assms(5) by (auto simp: settler_settle_job_def quiet_call[OF assms(3)] c costs f Let_def split: if_splits)
  then show ?thesis using close_settlement_leaves[OF assms(3,4) own] by auto
qed

lemma settled_exactly_left:
  assumes "left_alone (job_id j) d d'" and "settled_exactly D j d"
  shows "settled_exactly D j d'"
proof -
  have "sum_billed d' (job_id j) = sum_billed d (job_id j)" using assms(1) by (simp add: sum_billed_def sum_col_def left_alone_def)
  moreover from assms(2) obtain k where k: "k \<in> set (db_jobs d)" "job_id k = job_id j" "job_settled_at k \<noteq> None"
    "job_status k = settled_status j" "job_actual_cost k = Some (quantize_money D (sum_billed d (job_id j)))"
    by (auto simp: settled_exactly_def)
  moreover have "k \<in> set (db_jobs d')" using k(1,2) left_alone_job[of k d d'] assms(1) by simp
  ultimately show ?thesis by (auto simp: settled_exactly_def)
qed

text \<open>The turn of one batch: it is settled, or it waits and nothing has changed.\<close>

lemma settler_turn:
  assumes "decimal_ok D" and "inv d" and "quiet e" and "j \<in> set (db_jobs d)" and "job_status j = JobStatusSettling"
  obtains dn st' d' where "settler_settle_job D e j st d = (dn, st', d')" and "inv d'"
    and "\<And>x. x \<noteq> job_id j \<Longrightarrow> left_alone x d d'"
    and "dn \<Longrightarrow> settled_exactly D j d'"
    and "\<not> dn \<Longrightarrow> d' = d \<and> st' = schedule_retry (se_cfg e) st (se_now e) \<and> st_attempts st < wc_settle_max_attempts (se_cfg e)"
proof -
  obtain dn st' d' where t: "settler_settle_job D e j st d = (dn, st', d')" by (metis prod.exhaust)
  have "interference_ok D e" using assms(3) by (simp add: quiet_def interferes_def)
  then have "runs D {job_id j} d d'" using settler_settle_job_runs[OF _ _ t] by simp
  moreover have "steps D (d, {}) (d, {job_id j})" using steps_read[of "[j]" d D "{}"] assms(4,5) by simp
  ultimately obtain seen' where "steps D (d, {}) (d', seen')" unfolding runs_def by (meson order_refl rtranclp_trans)
  from steps_ok[OF this assms(1)] have "inv d'" using assms(2) by (simp add: read_ok_def)
  moreover note settler_settle_job_leaves[OF assms(1-3) _ t]
  moreover from settler_round[OF assms, of st] t
  have "dn \<Longrightarrow> settled_exactly D j d'"
    and "\<not> dn \<Longrightarrow> d' = d \<and> st' = schedule_retry (se_cfg e) st (se_now e) \<and> st_attempts st < wc_settle_max_attempts (se_cfg e)"
    by (auto simp: settlement_done_def)
  ultimately show thesis using that[OF t] by blast
qed

text \<open>What a round has done for a batch on its list, whose retry state was \<open>st\<close>.\<close>

definition turn_taken :: "decimal_lib \<Rightarrow> settle_env \<Rightarrow> job \<Rightarrow> settle_state \<Rightarrow> db \<Rightarrow> db \<Rightarrow> settle_state option \<Rightarrow> bool" where
  "turn_taken D e j st d d' s \<longleftrightarrow>
     (settled_exactly D j d' \<and> s = None)
   \<or> (left_alone (job_id j) d d' \<and> s = Some (schedule_retry (se_cfg e) st (se_now e)) \<and> st_attempts st < wc_settle_max_attempts (se_cfg e))
   \<or> (left_alone (job_id j) d d' \<and> s = Some st \<and> se_round_now e < st_next_at st)"

lemma settle_jobs_quiet:
  assumes "decimal_ok D" and "quiet e" and "\<And>jid. \<not> se_cancelled e jid"
  shows "\<lbrakk>inv d; distinct (map job_id js); \<forall>j \<in> set js. j \<in> set (db_jobs d) \<and> job_status j = JobStatusSettling\<rbrakk> \<Longrightarrow>
    \<exists>states' d'. settle_jobs D e js states d = (True, states', d') \<and> inv d'
      \<and> (\<forall>x. x \<notin> job_id ` set js \<longrightarrow> left_alone x d d' \<and> states' x = states x)
      \<and> (\<forall>j \<in> set js. turn_taken D e j (state_for (job_id j) (se_round_now e) states) d d' (states' (job_id j)))"
proof (induction js arbitrary: states d)
  case (Cons j js)
  let ?jid = "job_id j" and ?st = "state_for (job_id j) (se_round_now e) states"
  have j: "j \<in> set (db_jobs d)" "job_status j = JobStatusSettling" and new: "?jid \<notin> job_id ` set js" using Cons.prems(2,3) by auto
  obtain states1 d1 where run: "settle_jobs D e (j # js) states d = settle_jobs D e js states1 d1" and "inv d1"
    and others: "\<And>x. x \<noteq> ?jid \<Longrightarrow> left_alone x d d1 \<and> states1 x = states x"
    and mine: "turn_taken D e j ?st d d1 (states1 ?jid)"
  proof (cases "se_round_now e < st_next_at ?st")
    case True
    with that[of "states(?jid \<mapsto> ?st)" d] assms(3) Cons.prems(1) show thesis by (simp add: turn_taken_def Let_def)
  next
    case False
    obtain dn st' d' where t: "settler_settle_job D e j ?st d = (dn, st', d')" and "inv d'" "\<And>x. x \<noteq> ?jid \<Longrightarrow> left_alone x d d'"
      "dn \<Longrightarrow> settled_exactly D j d'"
      "\<not> dn \<Longrightarrow> d' = d \<and> st' = schedule_retry (se_cfg e) ?st (se_now e) \<and> st_attempts ?st < wc_settle_max_attempts (se_cfg e)"
      by (rule settler_turn[OF assms(1) Cons.prems(1) assms(2) j, where st = ?st]) (rule that; assumption)
    then show thesis using that[of "states(?jid := if dn then None else Some st')" d'] False assms(3)
      by (auto simp: turn_taken_def Let_def)
  qed
  have "\<forall>k \<in> set js. k \<in> set (db_jobs d1) \<and> job_status k = JobStatusSettling"
    using Cons.prems(3) new others left_alone_job by (metis image_eqI list.set_intros(2))
  from Cons.IH[OF \<open>inv d1\<close> _ this, of states1] Cons.prems(2) obtain states' d' where
    rest: "settle_jobs D e js states1 d1 = (True, states', d')" "inv d'"
      "\<And>x. x \<notin> job_id ` set js \<Longrightarrow> left_alone x d1 d' \<and> states' x = states1 x"
      "\<And>k. k \<in> set js \<Longrightarrow> turn_taken D e k (state_for (job_id k) (se_round_now e) states1) d1 d' (states' (job_id k))"
    by auto
  have "turn_taken D e j ?st d d' (states' ?jid)"
    using mine rest(3)[OF new] settled_exactly_left left_alone_trans unfolding turn_taken_def by metis
  moreover have "turn_taken D e k (state_for (job_id k) (se_round_now e) states) d d' (states' (job_id k))" if "k \<in> set js" for k
  proof -
    have "job_id k \<noteq> ?jid" using that new by (metis image_eqI)
    with rest(4)[OF that] others show ?thesis unfolding turn_taken_def state_for_def by (metis left_alone_trans)
  qed
  moreover have "left_alone x d d' \<and> states' x = states x" if "x \<notin> job_id ` set (j # js)" for x
    using that rest(3)[of x] others[of x] left_alone_trans by simp blast
  ultimately show ?case using run rest(1,2) by (intro exI conjI) auto
qed simp

text \<open>
  A round left to itself: nobody else writes, no call fails, it is not cancelled, and the limit of a
  round covers the batches that are settling.
\<close>

definition full_round :: "int \<Rightarrow> db \<Rightarrow> settle_env \<Rightarrow> bool" where
  "full_round m d e \<longleftrightarrow> quiet e \<and> (\<forall>jid. \<not> se_cancelled e jid) \<and> wc_settle_max_attempts (se_cfg e) = m
     \<and> affected (\<lambda>j. job_status j = JobStatusSettling) (db_jobs d)
         \<le> clamp_limit (wc_settle_batch (se_cfg e)) default_page_limit max_page_limit"

lemma listed_batches:
  assumes "inv d" and "full_round m d e"
  shows "set (list_jobs_pending_settlement d (wc_settle_batch (se_cfg e))) = {j \<in> set (db_jobs d). job_status j = JobStatusSettling}"
    and "distinct (map job_id (list_jobs_pending_settlement d (wc_settle_batch (se_cfg e))))"
proof -
  have "job_settled_at j = None" if "j \<in> set (db_jobs d)" "job_status j = JobStatusSettling" for j
    using inv_job(2)[OF assms(1) that(1)] that(2) unfolding life_ok_def by auto
  then have "filter (\<lambda>j. job_status j = JobStatusSettling \<and> job_settled_at j = None) (db_jobs d)
      = filter (\<lambda>j. job_status j = JobStatusSettling) (db_jobs d)"
    by (auto intro: filter_cong)
  moreover have "length (filter (\<lambda>j. job_status j = JobStatusSettling) (db_jobs d))
      \<le> nat (clamp_limit (wc_settle_batch (se_cfg e)) default_page_limit max_page_limit)"
    using assms(2) by (simp add: full_round_def affected_def) linarith
  ultimately show "set (list_jobs_pending_settlement d (wc_settle_batch (se_cfg e))) = {j \<in> set (db_jobs d). job_status j = JobStatusSettling}"
    by (simp add: list_jobs_pending_settlement_def)
  show "distinct (map job_id (list_jobs_pending_settlement d (wc_settle_batch (se_cfg e))))"
  proof -
    have "distinct (db_jobs d)" and inj: "inj_on job_id (set (db_jobs d))"
      using schema_distinct(1)[OF inv_schema[OF assms(1)]] by (simp_all add: distinct_map)
    then have "distinct (list_jobs_pending_settlement d (wc_settle_batch (se_cfg e)))"
      by (simp add: list_jobs_pending_settlement_def)
    moreover have "set (list_jobs_pending_settlement d (wc_settle_batch (se_cfg e))) \<subseteq> set (db_jobs d)"
      using pending_settlement_rows by blast
    ultimately show ?thesis using inj by (simp add: distinct_map inj_on_subset)
  qed
qed

lemma full_round_run:
  assumes "decimal_ok D" and "inv d" and "full_round m d e"
  obtains states' d' where "run_settler D e states d = (states', d')" and "inv d'"
    and "affected (\<lambda>j. job_status j = JobStatusSettling) (db_jobs d') \<le> affected (\<lambda>j. job_status j = JobStatusSettling) (db_jobs d)"
    and "\<And>x. (\<forall>j \<in> set (db_jobs d). job_id j = x \<longrightarrow> job_status j \<noteq> JobStatusSettling) \<Longrightarrow> left_alone x d d'"
    and "\<And>j. j \<in> set (db_jobs d) \<Longrightarrow> job_status j = JobStatusSettling \<Longrightarrow>
           turn_taken D e j (state_for (job_id j) (se_round_now e) states) d d' (states' (job_id j))"
proof -
  let ?js = "list_jobs_pending_settlement d (wc_settle_batch (se_cfg e))" and ?settling = "\<lambda>j. job_status j = JobStatusSettling"
  note l = listed_batches[OF assms(2,3)]
  have q: "quiet e" "\<And>jid. \<not> se_cancelled e jid" using assms(3) by (auto simp: full_round_def)
  from settle_jobs_quiet[OF assms(1) q assms(2) l(2), of states] l(1) obtain states1 d' where
    run: "settle_jobs D e ?js states d = (True, states1, d')" "inv d'"
      "\<And>x. x \<notin> job_id ` set ?js \<Longrightarrow> left_alone x d d'"
      "\<And>j. j \<in> set ?js \<Longrightarrow> turn_taken D e j (state_for (job_id j) (se_round_now e) states) d d' (states1 (job_id j))"
    by auto
  have "run_settler D e states d = (prune (se_round_now e) states1, d')"
    by (simp add: run_settler_def quiet_call[OF q(1)] run(1))
  moreover have "turn_taken D e j (state_for (job_id j) (se_round_now e) states) d d' (prune (se_round_now e) states1 (job_id j))"
    if "j \<in> set (db_jobs d)" "?settling j" for j
  proof -
    have "st_last_seen (state_for x t states) = t" for x t by (simp add: state_for_def split: option.split)
    then show ?thesis using run(4)[of j] that l(1)
      by (auto simp: turn_taken_def prune_def schedule_retry_def Let_def duration_defs)
  qed
  moreover have "left_alone x d d'" if "\<forall>j \<in> set (db_jobs d). job_id j = x \<longrightarrow> \<not> ?settling j" for x
    using run(3)[of x] that l(1) by auto
  moreover have "affected ?settling (db_jobs d') \<le> affected ?settling (db_jobs d)"
  proof -
    let ?ids = "\<lambda>x. job_id ` set (filter ?settling (db_jobs x))"
    have "k \<in> set (db_jobs d)" if "k \<in> set (db_jobs d')" "?settling k" "job_id k \<notin> ?ids d" for k
      using run(3)[of "job_id k"] that left_alone_job[of k d d'] l(1) by auto
    then have "?ids d' \<subseteq> ?ids d" by fastforce
    then have "card (?ids d') \<le> card (?ids d)" by (simp add: card_mono)
    moreover have "card (?ids x) = length (filter ?settling (db_jobs x))" if "inv x" for x
      using schema_distinct(1)[OF inv_schema[OF that]] by (metis distinct_card distinct_map_filter length_map list.set_map)
    ultimately show ?thesis using assms(2) run(2) by (simp add: affected_def)
  qed
  ultimately show thesis using that run(2) by blast
qed

section \<open>All rounds\<close>

abbreviation rounds :: "decimal_lib \<Rightarrow> settle_env list \<Rightarrow> settler \<times> db \<Rightarrow> settler \<times> db" where
  "rounds D \<equiv> fold (\<lambda>e. settle_once D e (Some (Inr True)))"

lemma settle_once_locked: "settle_once D e (Some (Inr True)) (states, d) = run_settler D e states d"
  by (simp add: settle_once_def with_advisory_lock_def)

lemma state_for_same:
  "st_attempts (state_for x t states) = st_attempts (state_for x u states)"
  "st_next_at (state_for x t states) = st_next_at (state_for x u states)"
  by (simp_all add: state_for_def split: option.split)

lemma full_round_mono:
  "full_round m d e \<Longrightarrow> affected (\<lambda>j. job_status j = JobStatusSettling) (db_jobs d') \<le> affected (\<lambda>j. job_status j = JobStatusSettling) (db_jobs d)
   \<Longrightarrow> full_round m d' e"
  by (auto simp: full_round_def)

lemma settled_not_settling:
  assumes "inv d" and "settled_exactly D j d" and "k \<in> set (db_jobs d)" and "job_id k = job_id j"
  shows "job_status k \<noteq> JobStatusSettling"
proof -
  from assms(2) obtain k' where k': "k' \<in> set (db_jobs d)" "job_id k' = job_id j" "job_status k' = settled_status j"
    by (auto simp: settled_exactly_def)
  have "inj_on job_id (set (db_jobs d))" using schema_distinct(1)[OF inv_schema[OF assms(1)]] by (simp add: distinct_map)
  then have "k = k'" using k' assms(3,4) by (metis inj_onD)
  then show ?thesis using k'(3) settled_status_allowed[of j] by (auto simp: status_simps)
qed

text \<open>Once a batch is settled, no later round touches it.\<close>

lemma rounds_keep_settled:
  assumes "decimal_ok D"
  shows "\<lbrakk>inv d; settled_exactly D j d; \<And>e. e \<in> set es \<Longrightarrow> full_round m d e; rounds D es (states, d) = (states', d')\<rbrakk> \<Longrightarrow>
    inv d' \<and> settled_exactly D j d'"
proof (induction es arbitrary: states d)
  case (Cons e es)
  obtain s1 d1 where r: "run_settler D e states d = (s1, d1)" "inv d1"
    "affected (\<lambda>j. job_status j = JobStatusSettling) (db_jobs d1) \<le> affected (\<lambda>j. job_status j = JobStatusSettling) (db_jobs d)"
    "\<And>x. (\<forall>j \<in> set (db_jobs d). job_id j = x \<longrightarrow> job_status j \<noteq> JobStatusSettling) \<Longrightarrow> left_alone x d d1"
    by (rule full_round_run[OF assms Cons.prems(1) Cons.prems(3)[OF list.set_intros(1)], where states = states]) (rule that; assumption)
  have "left_alone (job_id j) d d1" using r(4) settled_not_settling[OF Cons.prems(1,2)] by blast
  then have "settled_exactly D j d1" using Cons.prems(2) by (rule settled_exactly_left)
  moreover have "\<And>e'. e' \<in> set es \<Longrightarrow> full_round m d1 e'" using Cons.prems(3) full_round_mono[OF _ r(3)] by simp
  moreover have "rounds D es (s1, d1) = (states', d')" using Cons.prems(4) r(1) by (simp add: settle_once_locked)
  ultimately show ?case using Cons.IH r(2) by blast
qed simp

lemma rounds_settle:
  assumes "decimal_ok D"
  shows "\<lbrakk>inv d; j \<in> set (db_jobs d); job_status j = JobStatusSettling; \<And>e. e \<in> set es \<Longrightarrow> full_round m d e;
     sorted_wrt (\<lambda>e e'. se_now e + default_settle_backoff_max \<le> se_round_now e') es;
     \<And>e. e \<in> set es \<Longrightarrow> st_next_at (state_for (job_id j) 0 states) \<le> se_round_now e;
     nat (m - st_attempts (state_for (job_id j) 0 states)) < length es; rounds D es (states, d) = (states', d')\<rbrakk> \<Longrightarrow>
    inv d' \<and> settled_exactly D j d'"
proof (induction es arbitrary: states d)
  case (Cons e es)
  let ?st = "state_for (job_id j) (se_round_now e) states"
  obtain s1 d1 where r: "run_settler D e states d = (s1, d1)" "inv d1"
    "affected (\<lambda>j. job_status j = JobStatusSettling) (db_jobs d1) \<le> affected (\<lambda>j. job_status j = JobStatusSettling) (db_jobs d)"
    "turn_taken D e j ?st d d1 (s1 (job_id j))"
    using full_round_run[OF assms Cons.prems(1) Cons.prems(4)[of e], where states = states] Cons.prems(2,3) by (metis list.set_intros(1))
  have full: "\<And>e'. e' \<in> set es \<Longrightarrow> full_round m d1 e'" using Cons.prems(4) full_round_mono[OF _ r(3)] by simp
  have rest: "rounds D es (s1, d1) = (states', d')" using Cons.prems(8) r(1) by (simp add: settle_once_locked)
  have m: "wc_settle_max_attempts (se_cfg e) = m" using Cons.prems(4)[of e] by (simp add: full_round_def)
  have due: "\<not> se_round_now e < st_next_at ?st"
    using Cons.prems(6)[of e] state_for_same(2)[of "job_id j" "se_round_now e" states 0] by simp
  show ?case
  proof (cases "settled_exactly D j d1")
    case True
    then show ?thesis using rounds_keep_settled[OF assms r(2) _ full rest] by blast
  next
    case False
    let ?next = "schedule_retry (se_cfg e) ?st (se_now e)"
    from r(4) False due have w: "left_alone (job_id j) d d1" "s1 (job_id j) = Some ?next" "st_attempts ?st < m"
      by (auto simp: turn_taken_def m)
    have s1: "st_attempts (state_for (job_id j) 0 s1) = st_attempts ?st + 1"
      "st_next_at (state_for (job_id j) 0 s1) \<le> se_now e + default_settle_backoff_max"
      using settle_backoff_pos by (simp_all add: state_for_def w(2) schedule_retry_def Let_def)
    have "j \<in> set (db_jobs d1)" using Cons.prems(2) left_alone_job[OF w(1)] by simp
    moreover have "nat (m - st_attempts (state_for (job_id j) 0 s1)) < length es"
      using Cons.prems(7) w(3) s1(1) state_for_same(1)[of "job_id j" "se_round_now e" states 0] by simp
    moreover have "sorted_wrt (\<lambda>e e'. se_now e + default_settle_backoff_max \<le> se_round_now e') es" using Cons.prems(5) by simp
    moreover have "\<And>e'. e' \<in> set es \<Longrightarrow> st_next_at (state_for (job_id j) 0 s1) \<le> se_round_now e'"
      using Cons.prems(5) s1(2) by force
    ultimately show ?thesis using Cons.IH[OF r(2) _ Cons.prems(3) full] rest by blast
  qed
qed simp


section \<open>The guarantees\<close>

text \<open>C16: A settling batch is settled after at most one round more than the configured number of attempts,
  counting the attempts its retry state already has. The rounds are those of the settler: each holds the lock, is
  left to itself (nobody else writes, no call fails, it is not cancelled), has a limit that covers the batches that
  are settling, starts when the back-off of the batch is over, and leaves the longest back-off between itself and the
  next. After them the batch has its settlement time, the final status its counters call for, as actual cost exactly
  the sum of what its items were billed, and no hold of it is open: each is released and zero.\<close>

theorem settler_settles_in_time:
  assumes "decimal_ok D" and "reachable D (d, seen)" and "j \<in> set (db_jobs d)" and "job_status j = JobStatusSettling"
    and "\<And>e. e \<in> set es \<Longrightarrow> full_round m d e"
    and "sorted_wrt (\<lambda>e e'. se_now e + default_settle_backoff_max \<le> se_round_now e') es"
    and "\<And>e. e \<in> set es \<Longrightarrow> st_next_at (state_for (job_id j) 0 states) \<le> se_round_now e"
    and "nat (m - st_attempts (state_for (job_id j) 0 states)) < length es"
    and "fold (\<lambda>e. settle_once D e (Some (Inr True))) es (states, d) = (states', d')"
  shows "(\<exists>j' \<in> set (db_jobs d'). job_id j' = job_id j \<and> job_settled_at j' \<noteq> None
       \<and> job_status j' = terminal_job_status (job_item_count j) (job_success_count j) (job_fail_count j)
            (job_cancelled_count j) (is_stop_requested (Some j))
       \<and> job_actual_cost j' = Some (quantize_money D (sum_billed d' (job_id j))))
    \<and> (\<forall>h \<in> set (db_holds d'). hold_job_id h = job_id j \<longrightarrow> hold_status h = HoldStatusReleased \<and> hold_amount h = 0)"
proof -
  note r = rounds_settle[OF assms(1) reachable_ok(1)[OF assms(2,1)] assms(3-9)]
  then obtain k where k: "k \<in> set (db_jobs d')" "job_id k = job_id j" "job_settled_at k \<noteq> None"
    by (auto simp: settled_exactly_def)
  moreover have "holds_ok d'" using r by (blast intro: inv_holds)
  ultimately have "\<forall>h \<in> set (db_holds d'). hold_job_id h = job_id j \<longrightarrow> hold_status h = HoldStatusReleased \<and> hold_amount h = 0"
    by (fastforce simp: holds_ok_def hold_ok_def)
  with r show ?thesis by (simp add: settled_exactly_def)
qed

text \<open>C17: The round that settles a batch, while nobody else writes and no call fails, bills an image for everything
  the usage log holds under its attempts, failed ones included. When one of its attempts (the ids name at most 99)
  was charged, its billed cost is afterwards the rounded sum of all these charges, unless it had been billed more
  before: it never falls.\<close>

theorem settler_bills_every_attempt:
  assumes "decimal_ok D" and "reachable D (d, seen)" and "quiet e" and "j \<in> set (db_jobs d)"
    and "job_status j = JobStatusSettling" and "i \<in> set (db_items d)" and "it_job_id i = job_id j"
    and "u \<in> set (db_usage_logs d)" and "ul_request_id u = stored_billing_request_id (job_uid j) (it_seq i) a"
    and "1 \<le> a" and "a \<le> it_attempt_count i" and "a \<le> 99"
    and "settler_settle_job D e j st d = (True, st', d')"
  shows "\<exists>i'. the_item d' (it_id i) = Some i' \<and> it_billed_cost i' =
           Some (case it_billed_cost i of None \<Rightarrow> quantize_money D (bills d j i)
                 | Some old \<Rightarrow> max old (quantize_money D (bills d j i)))"
proof -
  obtain ids rid where c: "billing_candidates (job_uid j) i = (ids, rid)" by fastforce
  have "charged d j i"
    unfolding charged_def c fst_conv using candidates_attempts[OF c assms(10-12)] assms(8,9) by (metis)
  moreover have "billed_for D d j d' i"
    using settler_round[OF assms(1) reachable_ok(1)[OF assms(2,1)] assms(3-5), of st] assms(6,7,13)
    by (auto simp: settlement_done_def list_job_items_set)
  ultimately show ?thesis by (auto simp: billed_for_def money_or_zero_def split: option.split)
qed

text \<open>No charge goes missing in silence. When a batch is settled although the usage log holds no
  bill for an image that was generated successfully, a critical alert for the batch is on record.\<close>

theorem settler_flags_missing_bill:
  assumes "decimal_ok D" and "reachable D (d, seen)" and "quiet e" and "j \<in> set (db_jobs d)"
    and "job_status j = JobStatusSettling" and "i \<in> set (db_items d)" and "it_job_id i = job_id j"
    and "it_status i = ItemStatusSucceeded" and "0 < it_attempt_count i"
    and "\<forall>u \<in> set (db_usage_logs d). ul_request_id u \<notin> item_ids j i"
    and "settler_settle_job D e j st d = (True, st', d')"
  shows "\<exists>al \<in> set (db_alerts d'). al_job_id al = job_id j \<and> al_level al = billing_alert_level_critical"
proof -
  have "unpaid d j i" using assms(8-10) by (auto simp: unpaid_def charged_def)
  then have "flagged j d'"
    using settler_round[OF assms(1) reachable_ok(1)[OF assms(2,1)] assms(3-5), of st] assms(6,7,11)
    by (auto simp: settlement_done_def list_job_items_set)
  then show ?thesis by (simp add: flagged_def)
qed

text \<open>A round of the settler refines the repository steps: whatever the other processes write
  between its calls, whichever calls fail and wherever it is cancelled, with or without the advisory
  lock, it ends in a reachable state. Every invariant of the reachable states thus holds after it.\<close>

theorem settle_once_refines_steps:
  assumes "reachable D (d, seen)" and "interference_ok D e"
  shows "\<exists>seen'. reachable D (snd (settle_once D e locker (states, d)), seen')"
proof -
  obtain s' d' where r: "run_settler D e states d = (s', d')" by fastforce
  from run_settler_steps[OF assms(2) this] obtain seen' where "steps D (d, seen) (d', seen')" by blast
  with assms(1) have "reachable D (d', seen')" unfolding reachable_def by (meson rtranclp_trans)
  moreover have "settle_once D e locker (states, d) = (states, d) \<or> settle_once D e locker (states, d) = (s', d')"
    using r by (simp add: settle_once_def with_advisory_lock_def split: option.split sum.split)
  ultimately show ?thesis using assms(1) by (metis snd_conv)
qed

section \<open>The guarantees on the demonstration batch\<close>

text \<open>Image 1 of the batch was generated twice as far as the usage log knows; image 2 failed.\<close>

definition demo_logs :: "usage_log list" where
  "demo_logs = [\<lparr>ul_user_id = 7, ul_request_id = stored_billing_request_id sample_uid 1 1, ul_actual_cost = 2, ul_created_at = now0\<rparr>,
     \<lparr>ul_user_id = 7, ul_request_id = ''b1'', ul_actual_cost = 3, ul_created_at = now0\<rparr>]"

definition demo_charged :: db where
  "demo_charged = demo_settling\<lparr>db_users := [demo_user], db_usage_logs := demo_logs\<rparr>"

definition demo_env :: "int \<Rightarrow> settle_env" where
  "demo_env m = \<lparr>se_cfg = zero_config\<lparr>wc_settle_max_attempts := m\<rparr>, se_round_now = now0, se_now = now0,
     se_cancelled = (\<lambda>jid. False), se_meanwhile = (\<lambda>p d. d), se_fails = (\<lambda>p. None)\<rparr>"

definition demo_state :: settle_state where
  "demo_state = \<lparr>st_attempts = 0, st_next_at = zero_time, st_last_seen = now0\<rparr>"

abbreviation demo_batch :: job where
  "demo_batch \<equiv> demo_job JobStatusSettling 1 1 (Some now0) (Some now0) None None"

lemma demo_env_quiet [simp]: "quiet (demo_env m)" "wc_settle_max_attempts (se_cfg (demo_env m)) = m"
  by (simp_all add: quiet_def demo_env_def)

text \<open>A round during which another replica sends heartbeats and the alert insert fails.\<close>

definition busy_env :: settle_env where
  "busy_env = (demo_env 0)\<lparr>se_meanwhile := (\<lambda>p d. touch_job_heartbeat now0 [1] d),
     se_fails := (\<lambda>p. if p = AtAlert 1 then Some (Opaque ''connection reset'') else None)\<rparr>"

lemma busy_env_interference: "interference_ok D busy_env"
proof -
  have "runs D {} d (touch_job_heartbeat now0 [1] d)" for d
    by (rule runs_step) (rule step_heartbeat)
  then show ?thesis by (simp add: interferes_def busy_env_def)
qed

lemma reachable_demo_charged: "reachable dec_ref (demo_charged, {})"
  unfolding demo_charged_def by (rule reachable_step[OF reachable_demo_settling step_outside])

lemma demo_batch_mem:
  "demo_batch \<in> set (db_jobs demo_settling)" "demo_batch \<in> set (db_jobs demo_charged)"
  "job_status demo_batch = JobStatusSettling" "job_id demo_batch = 1" "job_uid demo_batch = sample_uid"
  "done_row \<in> set (db_items demo_settling)" "done_row \<in> set (db_items demo_charged)"
  "it_job_id done_row = 1" "it_status done_row = ItemStatusSucceeded" "it_attempt_count done_row = 1" "it_id done_row = 1"
  "it_seq done_row = 1" "it_billed_cost done_row = None"
  by (simp_all add: demo_charged_def demo_settling_def demo_rows)

lemma demo_ids: "item_ids demo_batch done_row = {stored_billing_request_id sample_uid 1 1, ''b1''}"
proof -
  have "trim_space ''b1'' = ''b1''" "stored_billing_request_id sample_uid 1 1 \<noteq> ''b1''" by code_simp+
  then show ?thesis
    by (simp add: billing_candidates_def demo_batch_mem max_enumerated_attempts_def billing_request_id_max_attempt_def
        contains_str_def done_row_def demo_row_def Let_def)
qed

lemma demo_bills: "bills demo_charged demo_batch done_row = 5"
  unfolding bills_def demo_ids by (simp add: demo_charged_def demo_logs_def sum_col_def)

lemma demo_round:
  assumes "reachable dec_ref (d, seen)" and "demo_batch \<in> set (db_jobs d)"
  obtains d' where "settler_settle_job dec_ref (demo_env 0) demo_batch demo_state d = (True, demo_state, d')"
  using settler_round[OF dec_ref_ok reachable_ok(1)[OF assms(1) dec_ref_ok] demo_env_quiet(1) assms(2) demo_batch_mem(3),
      of 0 demo_state] that
  by (auto simp: demo_state_def)

text \<open>Six rounds, the longest back-off apart.\<close>

definition late_env :: "nat \<Rightarrow> settle_env" where
  "late_env k = (demo_env 5)\<lparr>se_round_now := int k * default_settle_backoff_max, se_now := int k * default_settle_backoff_max\<rparr>"

lemma late_env_full: "full_round 5 demo_charged (late_env k)"
proof -
  have "db_jobs demo_charged = [demo_batch]" by (simp add: demo_charged_def demo_settling_def demo_db_def)
  then show ?thesis
    by (simp add: full_round_def late_env_def demo_env_def quiet_def demo_job_def clamp_limit_def default_page_limit_def max_page_limit_def Let_def)
qed

lemma late_env_apart:
  "sorted_wrt (\<lambda>e e'. se_now e + default_settle_backoff_max \<le> se_round_now e') (map late_env [0..<6])"
  by (simp add: upt_rec late_env_def default_settle_backoff_max_def duration_defs)

theorem settler_settles_in_time_witness:
  "\<exists>j' \<in> set (db_jobs (snd (rounds dec_ref (map late_env [0..<6]) (new_settler, demo_charged)))).
     job_id j' = 1 \<and> job_settled_at j' \<noteq> None \<and> job_status j' = JobStatusPartiallyFailed"
proof -
  obtain s' d' where run: "rounds dec_ref (map late_env [0..<6]) (new_settler, demo_charged) = (s', d')" by fastforce
  have start: "st_next_at (state_for x t new_settler) = zero_time" "st_attempts (state_for x t new_settler) = 0" for x t
    by (simp_all add: state_for_def new_settler_def)
  have due: "zero_time \<le> se_round_now (late_env k)" for k
    by (simp add: late_env_def default_settle_backoff_max_def duration_defs zero_time_def)
  have "settled_status demo_batch = JobStatusPartiallyFailed"
    by (simp add: demo_job_def terminal_job_status_def is_stop_requested_def)
  with settler_settles_in_time[OF dec_ref_ok reachable_demo_charged demo_batch_mem(2,3) _ late_env_apart _ _ run]
    late_env_full start due demo_batch_mem(4) show ?thesis unfolding run snd_conv by fastforce
qed

theorem settler_bills_every_attempt_witness:
  "\<exists>d' i'. settler_settle_job dec_ref (demo_env 0) demo_batch demo_state demo_charged = (True, demo_state, d')
     \<and> the_item d' 1 = Some i' \<and> it_billed_cost i' = Some 5"
proof -
  obtain d' where d': "settler_settle_job dec_ref (demo_env 0) demo_batch demo_state demo_charged = (True, demo_state, d')"
    using demo_round[OF reachable_demo_charged demo_batch_mem(2)] .
  have "hd demo_logs \<in> set (db_usage_logs demo_charged)" by (simp add: demo_charged_def demo_logs_def)
  from settler_bills_every_attempt[OF dec_ref_ok reachable_demo_charged demo_env_quiet(1) demo_batch_mem(2,3,7) _ this _ _ _ _ d', of 1]
  show ?thesis using d' by (auto simp: demo_batch_mem demo_bills demo_logs_def)
qed

theorem settler_flags_missing_bill_witness:
  "\<exists>d'. settler_settle_job dec_ref (demo_env 0) demo_batch demo_state demo_settling = (True, demo_state, d')
     \<and> (\<exists>al \<in> set (db_alerts d'). al_job_id al = 1 \<and> al_level al = billing_alert_level_critical)"
proof -
  obtain d' where d': "settler_settle_job dec_ref (demo_env 0) demo_batch demo_state demo_settling = (True, demo_state, d')"
    using demo_round[OF reachable_demo_settling demo_batch_mem(1)] .
  have "db_usage_logs demo_settling = []" by (simp add: demo_settling_def demo_db_def)
  with settler_flags_missing_bill[OF dec_ref_ok reachable_demo_settling demo_env_quiet(1) demo_batch_mem(1,3,6) _ _ _ _ d']
  show ?thesis using d' by (simp add: demo_batch_mem)
qed

theorem settle_once_refines_steps_witness:
  "\<exists>seen'. reachable dec_ref (snd (settle_once dec_ref busy_env (Some (Inr True)) (new_settler, demo_charged)), seen')"
  by (rule settle_once_refines_steps[OF reachable_demo_charged busy_env_interference])


section \<open>A failed billing call\<close>

text \<open>The round of the demonstration batch in which the call that bills image 1 fails.\<close>

definition failing_env :: settle_env where
  "failing_env = (demo_env 0)\<lparr>se_fails := (\<lambda>p. if p = AtApply 1 then Some (Opaque ''connection reset'') else None)\<rparr>"

lemma demo_candidates:
  "billing_candidates sample_uid done_row = ([stored_billing_request_id sample_uid 1 1, ''b1''], ''b1'')"
  "billing_candidates sample_uid failed_row = ([stored_billing_request_id sample_uid 2 1], [])"
proof -
  have "trim_space ''b1'' = ''b1''" "stored_billing_request_id sample_uid 1 1 \<noteq> ''b1''" by code_simp+
  then show "billing_candidates sample_uid done_row = ([stored_billing_request_id sample_uid 1 1, ''b1''], ''b1'')"
    "billing_candidates sample_uid failed_row = ([stored_billing_request_id sample_uid 2 1], [])"
    by (simp_all add: billing_candidates_def demo_batch_mem max_enumerated_attempts_def billing_request_id_max_attempt_def
        contains_str_def done_row_def failed_row_def demo_row_def Let_def)
qed

lemma demo_ids_differ:
  "stored_billing_request_id sample_uid 1 1 \<noteq> ''b1''" "stored_billing_request_id sample_uid 2 1 \<noteq> ''b1''"
  "stored_billing_request_id sample_uid 2 1 \<noteq> stored_billing_request_id sample_uid 1 1"
  "stored_billing_request_id sample_uid 1 1 \<noteq> []" "stored_billing_request_id sample_uid 2 1 \<noteq> []"
  by code_simp+

lemma demo_items: "list_job_items demo_charged 1 = [done_row, failed_row]"
  by (simp add: demo_charged_def demo_settling_def demo_db_def list_job_items_def done_row_def failed_row_def demo_row_def)

abbreviation demo_bg :: "job_item \<Rightarrow> string list \<Rightarrow> string \<Rightarrow> money \<Rightarrow> int \<Rightarrow> item_billing" where
  "demo_bg i ids r a h \<equiv> \<lparr>bg_item = i, bg_ids = ids, bg_required_id = r, bg_total = a, bg_hits = h\<rparr>"

abbreviation "id11 \<equiv> stored_billing_request_id sample_uid 1 1"
abbreviation "id21 \<equiv> stored_billing_request_id sample_uid 2 1"

lemma demo_collect: "collect_billings demo_batch [done_row, failed_row] =
    ([demo_bg done_row [id11, ''b1''] ''b1'' 0 0, demo_bg failed_row [id21] [] 0 0], [id11, ''b1'', id21])"
  using demo_ids_differ
  by (simp add: collect_billings_def billing_of_def demo_batch_mem demo_candidates Let_def)

lemma demo_sums: "sum_usage_log_costs demo_charged [id11, ''b1'', id21] = [id11 \<mapsto> 2, ''b1'' \<mapsto> 3]"
  using demo_ids_differ
  by (auto simp: fun_eq_iff sum_usage_log_costs_def demo_charged_def demo_logs_def sum_col_def)

lemma demo_fill: "fill_costs dec_ref [id11 \<mapsto> 2, ''b1'' \<mapsto> 3]
    [demo_bg done_row [id11, ''b1''] ''b1'' 0 0, demo_bg failed_row [id21] [] 0 0] (0, 0, 0) =
    ([demo_bg done_row [id11, ''b1''] ''b1'' 5 2, demo_bg failed_row [id21] [] 0 0], 1, 1, 1)"
  using demo_ids_differ
  by (simp add: quantize_0[OF dec_ref_ok])

lemma demo_bill: "bill_items dec_ref failing_env demo_batch
    [demo_bg done_row [id11, ''b1''] ''b1'' 5 2, demo_bg failed_row [id21] [] 0 0] 0 demo_charged = (5, demo_charged)"
  by (simp add: demo_batch_mem failing_env_def demo_env_def Let_def resolve_billing_tier_def tier_of_images_def settle_call_def repo_call_def
    money_or_zero_def failed_row_def demo_row_def done_row_def split: prod.splits option.splits)

text \<open>A run in which the call that writes an item's billed cost fails. The round logs it and settles the batch
  all the same: the batch is settled for 5 while its items add up to 0, although actual cost
  is meant to be the sum of the billed costs. Settled batches are never visited again.\<close>

theorem failed_item_billing_breaks_the_sum:
  "\<exists>d'. settler_settle_job dec_ref failing_env demo_batch demo_state demo_charged = (True, demo_state, d')
     \<and> map job_actual_cost (db_jobs d') = [Some 5] \<and> map job_status (db_jobs d') = [JobStatusPartiallyFailed]
     \<and> sum_billed d' 1 = 0"
proof -
  let ?p = "\<lparr>sj_job_id = 1, sj_actual_cost = 5, sj_status = JobStatusPartiallyFailed, sj_settled_at = now0\<rparr>"
  have quiet: "settle_call failing_env p f d = (case f d of Inl err \<Rightarrow> (Inl err, d) | Inr (a, d1) \<Rightarrow> (Inr a, d1))"
    if "p \<noteq> AtApply 1" for p f d
    using that by (simp add: settle_call_def repo_call_def failing_env_def demo_env_def)
  have env: "se_now failing_env = now0" "wc_settle_max_attempts (se_cfg failing_env) = 0"
    by (simp_all add: failing_env_def demo_env_def)
  have max: "st_attempts demo_state < 0 = False" by (simp add: demo_state_def)
  have status: "settled_status demo_batch = JobStatusPartiallyFailed"
    by (simp add: demo_job_def terminal_job_status_def is_stop_requested_def)
  obtain d2 where d2: "settle_job dec_ref now0 ?p demo_charged = Inr ((), d2)" "map job_actual_cost (db_jobs d2) = [Some 5]"
    "map job_status (db_jobs d2) = [JobStatusPartiallyFailed]" "db_items d2 = [done_row, failed_row]"
    by (simp add: settle_job_def settle_guard_def settle_row_def settle_source_statuses_def
      allowed_source_statuses_def status_simps release_hold_def close_hold_def
      update_jobs_def update_holds_def demo_charged_def demo_states demo_rows upd_def Let_def)
  define d' where "d' = record_billing_alert dec_ref failing_env demo_batch 5 (settlement_alert_level dec_ref demo_batch 5
     (stuck_in_settling (Some demo_batch) now0)) d2"
  have "settler_settle_job dec_ref failing_env demo_batch demo_state demo_charged = (True, demo_state, d')"
    using demo_batch_mem
    by (simp add: settler_settle_job_def sum_costs_call_def quiet env max demo_items demo_collect demo_sums demo_fill
       close_settlement_def settler_apply_item_billing_def demo_bill status d2(1) d'_def Let_def status_simps
       del: fill_costs.simps fill_ids.simps bill_items.simps)
  moreover have "db_jobs d' = db_jobs d2" "db_items d' = db_items d2"
    by (simp_all add: d'_def record_billing_alert_def quiet insert_billing_alert_def Let_def)
  moreover have "sum_billed d2 1 = 0"
    by (simp add: sum_billed_def d2(4) sum_col_def done_row_def failed_row_def demo_row_def)
  ultimately show ?thesis using d2 by (auto simp: sum_billed_def)
qed

end
