(* ===== verification/Worker_Queue.thy ===== *)
theory Worker_Queue
  imports Image_Pipeline Repo_Call
begin

text \<open>
  The generation workers: \<open>backend/internal/designkit/worker/queue.go\<close>. A worker claims an item,
  generates its image while a second goroutine renews the lease, and writes the outcome back.

  As for the settler, every repository call happens at a \<open>queue_point\<close>, where the environment says
  what the other processes do before the call and whether it fails. The environment also says how
  often the renewal ticker fires, whether the context is cancelled and whether the process is
  stopping. The list of external effects of an item is part of the result. Log lines are left out.
\<close>

section \<open>The environment of a round\<close>

datatype queue_point =
    AtClaim | AtTouch | AtGetJob | AtProcess | AtRenew bool nat | AtComplete | AtFinalize

record queue_env =
  qe_cfg :: worker_config
  qe_settings :: worker_settings
  qe_worker :: worker_env
  qe_now :: time
  qe_locked :: "int \<Rightarrow> bool"
  qe_cancelled :: bool
  qe_stopping :: bool
  qe_early_ticks :: nat
  qe_late_ticks :: nat
  qe_meanwhile :: "queue_point \<Rightarrow> db \<Rightarrow> db"
  qe_fails :: "queue_point \<Rightarrow> go_error option"

definition queue_call :: "queue_env \<Rightarrow> queue_point \<Rightarrow> (db \<Rightarrow> go_error + 'a \<times> db) \<Rightarrow> db \<Rightarrow> (go_error + 'a) \<times> db" where
  "queue_call e = repo_call (qe_meanwhile e) (qe_fails e)"

definition pool_touch_heartbeat :: "queue_env \<Rightarrow> int list \<Rightarrow> db \<Rightarrow> db" where
  "pool_touch_heartbeat e ids d =
     (if ids = [] then d
      else snd (queue_call e AtTouch (\<lambda>x. Inr ((), touch_job_heartbeat (qe_now e) ids x)) d))"

section \<open>Renewing the lease\<close>

text \<open>
  The ticks of the renewal goroutine; the result tells whether the lease was found lost, upon which
  the goroutine cancels the item and ends. Another failure is only logged.
\<close>

fun renew_ticks :: "queue_env \<Rightarrow> bool \<Rightarrow> nat \<Rightarrow> string \<Rightarrow> job_item \<Rightarrow> db \<Rightarrow> bool \<times> db" where
  "renew_ticks e late 0 worker it d = (False, d)"
| "renew_ticks e late (Suc n) worker it d =
     (case queue_call e (AtRenew late n) (renew_item_lease (qe_now e) (it_id it) worker (wc_lease_for (qe_cfg e))) d of
        (Inr _, d1) \<Rightarrow> renew_ticks e late n worker it d1
      | (Inl err, d1) \<Rightarrow> if errors_is err ErrLeaseLost then (True, d1) else renew_ticks e late n worker it d1)"

section \<open>Writing the outcome back\<close>

definition pool_finalize_job :: "queue_env \<Rightarrow> int \<Rightarrow> db \<Rightarrow> db" where
  "pool_finalize_job e jid d =
     snd (queue_call e AtFinalize
       (finalize_job (qe_now e) \<lparr>fj_job_id = jid, fj_status = JobStatusSettling, fj_finished_at = qe_now e\<rparr>) d)"

definition write_success :: "queue_env \<Rightarrow> job_item \<Rightarrow> string \<Rightarrow> item_result option \<Rightarrow> db \<Rightarrow> db" where
  "write_success e it worker result d =
     (case result of None \<Rightarrow> d
      | Some r \<Rightarrow>
        (case queue_call e AtComplete
            (complete_item_success (qe_now e)
              \<lparr>cs_item_id = it_id it, cs_worker_id = worker, cs_attempt = it_attempt_count it,
               cs_billing_request_id = ir_stored_billing_request_id r, cs_images = ir_images r,
               cs_finished_at = qe_now e\<rparr>) d of
           (Inr _, d1) \<Rightarrow> pool_finalize_job e (it_job_id it) d1
         | (Inl _, d1) \<Rightarrow> d1))"

definition failure_params ::
  "decimal_lib \<Rightarrow> queue_env \<Rightarrow> job_item \<Rightarrow> string \<Rightarrow> go_error \<Rightarrow> dk_error option \<times> bool \<Rightarrow> complete_item_failure_params" where
  "failure_params D e it worker err =
     (\<lambda>(classified, terminal).
        let dk = (case classified of None \<Rightarrow> new_error ErrCodeInternal | Some x \<Rightarrow> x)
        in \<lparr>cf_item_id = it_id it, cf_worker_id = worker, cf_error_code = dk_code dk,
            cf_error_message = (if dk_upstream dk = [] then error_text D err else dk_upstream dk),
            cf_terminal = terminal,
            cf_retry_after = (if terminal then 0
                              else retry_backoff (wc_retry_backoff_base (qe_cfg e)) (it_attempt_count it)),
            cf_finished_at = qe_now e\<rparr>)"

definition write_failure :: "decimal_lib \<Rightarrow> queue_env \<Rightarrow> job_item \<Rightarrow> string \<Rightarrow> go_error option \<Rightarrow> db \<Rightarrow> db" where
  "write_failure D e it worker cause d =
     (case cause of None \<Rightarrow> d
      | Some err \<Rightarrow>
        let params = failure_params D e it worker err (classify cause (it_attempt_count it) (it_max_attempts it))
        in case queue_call e AtComplete (complete_item_failure (qe_now e) params) d of
             (Inr _, d1) \<Rightarrow> if cf_terminal params then pool_finalize_job e (it_job_id it) d1 else d1
           | (Inl _, d1) \<Rightarrow> d1)"

definition fail_exhausted_item :: "queue_env \<Rightarrow> job_item \<Rightarrow> string \<Rightarrow> string \<Rightarrow> db \<Rightarrow> db" where
  "fail_exhausted_item e it worker upstream d =
     (case queue_call e AtComplete
        (complete_item_failure (qe_now e)
          \<lparr>cf_item_id = it_id it, cf_worker_id = worker, cf_error_code = ErrCodeMaxAttemptsExceeded,
           cf_error_message = upstream, cf_terminal = True, cf_retry_after = 0, cf_finished_at = qe_now e\<rparr>) d of
        (Inr _, d1) \<Rightarrow> pool_finalize_job e (it_job_id it) d1
      | (Inl _, d1) \<Rightarrow> d1)"

definition release_lease :: "queue_env \<Rightarrow> job_item \<Rightarrow> string \<Rightarrow> db \<Rightarrow> db" where
  "release_lease e it worker d =
     (if attempt_budget_exhausted (it_attempt_count it) (it_max_attempts it) then
        fail_exhausted_item e it worker
          (''worker shutting down at attempt '' @ itoa (it_attempt_count it) @ '' of max_attempts '' @
           itoa (normalize_max_attempts (it_max_attempts it)) @ ''; no retry budget left'') d
      else snd (queue_call e AtComplete
        (complete_item_failure (qe_now e)
          \<lparr>cf_item_id = it_id it, cf_worker_id = worker, cf_error_code = ErrCodeStale,
           cf_error_message = ''designkit worker shutting down, lease returned to queue'',
           cf_terminal = False, cf_retry_after = 0, cf_finished_at = qe_now e\<rparr>) d))"

definition first_object_key :: "new_image list \<Rightarrow> string" where
  "first_object_key images = (case images of [] \<Rightarrow> [] | img # _ \<Rightarrow> ni_object_key img)"

section \<open>One item\<close>

text \<open>Reading the job and generating the image.\<close>

definition generate_item ::
  "queue_env \<Rightarrow> job_item \<Rightarrow> db \<Rightarrow> (go_error + item_result) \<times> effect list \<times> db" where
  "generate_item e it d =
     (case queue_call e AtGetJob (\<lambda>x. case get_job_by_id x (it_job_id it) of Inl err \<Rightarrow> Inl err | Inr j \<Rightarrow> Inr (j, x)) d of
        (Inl err, d1) \<Rightarrow> (Inl (retry_cause ErrCodeInternal err), [], d1)
      | (Inr j, d1) \<Rightarrow> process_item (qe_worker e) (qe_settings e) j it (qe_meanwhile e AtProcess d1))"

text \<open>The effects, and the database after the item has been handled.\<close>

definition handle_item ::
  "decimal_lib \<Rightarrow> queue_env \<Rightarrow> string \<Rightarrow> job_item \<Rightarrow> db \<Rightarrow> effect list \<times> db" where
  "handle_item D e worker it d =
     (if attempt_budget_exceeded (it_attempt_count it) (it_max_attempts it) then
        ([], fail_exhausted_item e it worker
          (''attempt '' @ itoa (it_attempt_count it) @ '' exceeds max_attempts '' @
           itoa (normalize_max_attempts (it_max_attempts it)) @ ''; upstream call skipped'') d)
      else
        case renew_ticks e False (qe_early_ticks e) worker it (pool_touch_heartbeat e [it_job_id it] d) of
          (lost_early, d1) \<Rightarrow>
          (case generate_item e it d1 of
             (r, effects, d2) \<Rightarrow>
             (case (if lost_early then (True, d2) else renew_ticks e True (qe_late_ticks e) worker it d2) of
                (lost, d3) \<Rightarrow>
                (effects,
                 case r of
                   Inl err \<Rightarrow>
                     if qe_stopping e \<and> errors_is err ContextCanceled then release_lease e it worker d3
                     else if lost then d3
                     else write_failure D e it worker (Some err) d3
                 | Inr res \<Rightarrow> if lost then d3 else write_success e it worker (Some res) d3))))"

section \<open>The loop of a worker\<close>

datatype after_round = Quit | Again | SleepFor duration

definition item_worker_round ::
  "decimal_lib \<Rightarrow> queue_env \<Rightarrow> string \<Rightarrow> db \<Rightarrow> after_round \<times> effect list \<times> db" where
  "item_worker_round D e worker d =
     (if qe_cancelled e then (Quit, [], d)
      else case queue_call e AtClaim
             (claim_next_item (qe_now e) (qe_locked e)
               \<lparr>cl_worker_id = worker, cl_lease_for = wc_lease_for (qe_cfg e), cl_now = zero_time\<rparr>) d of
          (Inr it, d1) \<Rightarrow> (case handle_item D e worker it d1 of (effects, d2) \<Rightarrow> (Again, effects, d2))
        | (Inl err, d1) \<Rightarrow>
            (SleepFor (if errors_is err ErrNotFound then wc_idle_delay (qe_cfg e) else wc_error_delay (qe_cfg e)), [], d1))"

text \<open>One environment per round; a cancelled sleep shows as a cancelled next round.\<close>

fun run_item_worker :: "decimal_lib \<Rightarrow> string \<Rightarrow> queue_env list \<Rightarrow> db \<Rightarrow> effect list \<times> db" where
  "run_item_worker D worker [] d = ([], d)"
| "run_item_worker D worker (e # es) d =
     (case item_worker_round D e worker d of
        (next_action, effects, d1) \<Rightarrow>
          if next_action = Quit then (effects, d1)
          else case run_item_worker D worker es d1 of (rest, d2) \<Rightarrow> (effects @ rest, d2))"

end
