(* ===== verification/Item_History.thy ===== *)
theory Item_History
  imports Interleaving
begin

text \<open>
  What a run may do to the items: an item is never deleted, it keeps its job and sequence number,
  and its attempts are only counted up. A claim counts one up, so no attempt is handed out twice.
\<close>

section \<open>Items only progress\<close>

definition item_progress :: "job_item \<Rightarrow> job_item \<Rightarrow> bool" where
  "item_progress i i' \<longleftrightarrow> it_id i' = it_id i \<and> it_job_id i' = it_job_id i \<and> it_seq i' = it_seq i
     \<and> it_max_attempts i' = it_max_attempts i \<and> it_attempt_count i \<le> it_attempt_count i'"

definition items_grow :: "db \<Rightarrow> db \<Rightarrow> bool" where
  "items_grow d d' \<longleftrightarrow> (\<forall>i \<in> set (db_items d). \<exists>i' \<in> set (db_items d'). item_progress i i')"

lemma item_progress_refl [simp]: "item_progress i i"
  by (simp add: item_progress_def)

lemma item_progress_trans: "item_progress a b \<Longrightarrow> item_progress b c \<Longrightarrow> item_progress a c"
  by (auto simp: item_progress_def)

lemma items_grow_same: "set (db_items d) \<subseteq> set (db_items d') \<Longrightarrow> items_grow d d'"
  unfolding items_grow_def using item_progress_refl by blast

lemma items_grow_refl [simp]: "items_grow d d"
  by (rule items_grow_same) simp

lemma items_grow_trans: "items_grow a b \<Longrightarrow> items_grow b c \<Longrightarrow> items_grow a c"
  unfolding items_grow_def by (meson item_progress_trans)

interpretation item_runs: run_relation items_grow
  by unfold_locales (auto intro: items_grow_trans)

lemma items_grow_frame: "items_grow d d1 \<Longrightarrow> db_items d2 = db_items d1 \<Longrightarrow> items_grow d d2"
  by (simp add: items_grow_def)

lemma items_grow_jobs: "items_grow d d1 \<Longrightarrow> items_grow d (update_jobs P f d1)"
  by (erule items_grow_frame) simp

lemma items_grow_holds: "items_grow d d1 \<Longrightarrow> items_grow d (update_holds R k d1)"
  by (erule items_grow_frame) simp

lemma items_grow_items:
  assumes "items_grow d d1" and "\<And>i. item_progress i (g i)"
  shows "items_grow d (update_items Q g d1)"
proof -
  have "\<exists>i' \<in> set (upd Q g (db_items d1)). item_progress i i'" if "i \<in> set (db_items d1)" for i
    using that assms(2)[of i] unfolding bex_upd by (intro bexI[of _ i]) auto
  then have "items_grow d1 (update_items Q g d1)" by (simp add: items_grow_def)
  with assms(1) show ?thesis by (rule items_grow_trans)
qed

lemma row_progress:
  "item_progress i (claim_item w l now i)" "item_progress i (succeed_item now t sp i)"
  "item_progress i (requeue_item now fp i)" "item_progress i (fail_item now t fp i)"
  "item_progress i (cancel_item now i)" "item_progress i (retry_item_row now i)"
  "item_progress i (sweep_item now i)" "item_progress i (stop_unfinished_item now i)"
  "item_progress i (bill_item now c m tier i)"
  "item_progress i (i\<lparr>it_lease_expires_at := e, it_updated_at := now\<rparr>)"
  by (simp_all add: item_progress_def claim_item_def succeed_item_def requeue_item_def fail_item_def
      cancel_item_def retry_item_row_def sweep_item_def stop_unfinished_item_def bill_item_def)

lemmas grow_rules = items_grow_jobs items_grow_holds items_grow_items items_grow_refl row_progress

lemma items_grow_success:
  assumes "complete_item_success now params d = Inr ((), d')"
  shows "items_grow d d'"
proof -
  from assms obtain P g t d3 where d3: "db_items d3 = db_items (update_items P (succeed_item now t params) d)"
    and d': "d' = update_jobs (\<lambda>j. job_id j = g) (\<lambda>j. j\<lparr>job_success_count := job_success_count j + 1,
        job_started_at := (case job_started_at j of None \<Rightarrow> Some now | Some t \<Rightarrow> Some t),
        job_heartbeat_at := Some now, job_updated_at := now\<rparr>) d3"
    unfolding complete_item_success_def Let_def
    by (auto split: if_splits option.splits sum.splits dest!: insert_images_frame)
  have "items_grow d (update_items P (succeed_item now t params) d)" by (intro grow_rules)
  then show ?thesis unfolding d' using d3 by (intro items_grow_jobs) (rule items_grow_frame)
qed

lemma items_grow_reap:
  assumes "reap_stale_jobs now li lj stale limit d = (ids, d')"
  shows "items_grow d d'"
  using assms
proof (rule reap_stale_jobs_parts)
  fix lim st d1 d2 d3 d4 s u
  assume d: "d1 = reap_dead_pending_items now li lim d" "d2 = update_jobs (\<lambda>j. job_id j \<in> set s) (reap_stale_job now) d1"
    "d3 = (if s = [] then d2 else release_holds_for_jobs now s (stop_unfinished_items now s d2))"
    "d4 = update_jobs (\<lambda>j. job_id j \<in> set u) (close_stuck_job now d3) d3"
    "d' = (if u = [] then d4 else release_holds_for_jobs now u d4)"
  have "items_grow d d1" unfolding d(1) reap_dead_pending_items_def Let_def by (intro grow_rules)
  then have "items_grow d d2" unfolding d(2) by (rule items_grow_jobs)
  moreover have "items_grow d2 d3"
    unfolding d(3) release_holds_for_jobs_def stop_unfinished_items_def Let_def by (simp add: grow_rules)
  moreover have "items_grow d3 d'" unfolding d(4,5) release_holds_for_jobs_def by (simp add: grow_rules)
  ultimately show ?thesis by (rule item_runs.chain)
qed

lemma items_grow_small:
  "claim_next_item now locked cp d = Inr (i, d') \<Longrightarrow> items_grow d d'"
  "renew_item_lease now iid w l d = Inr ((), d') \<Longrightarrow> items_grow d d'"
  "complete_item_failure now fp d = Inr ((), d') \<Longrightarrow> items_grow d d'"
  "request_job_stop now jid d = Inr (n, d') \<Longrightarrow> items_grow d d'"
  "update_job_status now jid a b d = Inr ((), d') \<Longrightarrow> items_grow d d'"
  "finalize_job now jp d = Inr (won, d') \<Longrightarrow> items_grow d d'"
  "soft_delete_job now uid u d = Inr ((), d') \<Longrightarrow> items_grow d d'"
  "apply_item_billing D now iid cost mode tier d = Inr ((), d') \<Longrightarrow> items_grow d d'"
  "settle_job D now ep d = Inr ((), d') \<Longrightarrow> items_grow d d'"
  by (auto simp: claim_next_item_def renew_item_lease_def complete_item_failure_def request_job_stop_def
      update_job_status_def finalize_job_def soft_delete_job_def apply_item_billing_def decrement_hold_def
      settle_job_def release_hold_def Let_def intro!: grow_rules split: if_splits option.splits list.splits)

lemma items_grow_other:
  "items_grow d (touch_job_heartbeat now ids d)" "items_grow d (clear_job_idempotency_key now jid d)"
  "items_grow d (release_hold now jid d)" "items_grow d (d\<lparr>db_users := us, db_usage_logs := ls\<rparr>)"
  "insert_billing_alert D now al d = Inr (row, d') \<Longrightarrow> items_grow d d'"
  "create_quota_request now uid note d = Inr (q, d') \<Longrightarrow> items_grow d d'"
  "handle_quota_request D now qid byy st note am d = Inr (q', d') \<Longrightarrow> items_grow d d'"
  "reopen_quota_request qid d = Inr ((), d') \<Longrightarrow> items_grow d d'"
  by (auto simp: touch_job_heartbeat_def clear_job_idempotency_key_def release_hold_def
      insert_billing_alert_def create_quota_request_def handle_quota_request_def
      reopen_quota_request_def Let_def items_grow_same intro!: grow_rules split: option.splits if_splits)

lemma items_grow_retry: "inv d \<Longrightarrow> retry_item D now rp d = Inr (it, d') \<Longrightarrow> items_grow d d'"
  by (erule (1) retry_itemD) (auto intro!: grow_rules items_grow_frame[OF _ insert_hold_frame(2)])

lemma items_grow_create: "create_job_with_items_and_hold D now p d = Inr (r, d') \<Longrightarrow> items_grow d d'"
  by (erule create_jobD) (auto intro!: items_grow_same)

lemma step_items_grow: "step D (d, seen) (d', seen') \<Longrightarrow> inv d \<Longrightarrow> items_grow d d'"
  by (erule step.cases) (auto intro: items_grow_create items_grow_small items_grow_success items_grow_retry
      items_grow_reap items_grow_other)

text \<open>Runs from a state that satisfies the invariant.\<close>

lemma steps_items_grow:
  assumes "steps D (d, seen) (d', seen')" and "decimal_ok D" and "inv d" and "read_ok d seen"
  shows "items_grow d d'"
proof -
  have "items_grow (fst s) (fst s')" if "steps D s s'" "inv (fst s)" "read_ok (fst s) (snd s)" for s s'
    using that
  proof (induction rule: rtranclp_induct)
    case (step y z)
    have "inv (fst y)" using steps_ok[OF step.hyps(1) assms(2) step.prems] by simp
    then have "items_grow (fst y) (fst z)" using step.hyps(2) step_items_grow by (metis prod.collapse)
    with step.IH step.prems show ?case by (blast intro: items_grow_trans)
  qed simp
  from this[OF assms(1)] show ?thesis using assms(3,4) by simp
qed

text \<open>What holds after a run from a good state, in the form the workers use.\<close>

lemma runs_good:
  assumes "runs D {} d d'" and "decimal_ok D" and "inv d"
  shows "inv d'" and "items_grow d d'" and "evolves d d'"
proof -
  from assms(1) obtain seen' where s: "steps D (d, {}) (d', seen')" by (auto simp: runs_def)
  have r: "read_ok d {}" by (simp add: read_ok_def)
  show "inv d'" "evolves d d'" using steps_ok[OF s assms(2)] assms(3) r by simp_all
  show "items_grow d d'" using steps_items_grow[OF s assms(2,3) r] .
qed

section \<open>Attempts are handed out once\<close>

text \<open>
  The contract between a queue and its workers, as far as attempts go: along every run the number
  of attempts of an item only grows, and a claim returns a number above the one before. The claims
  of a run then return pairwise different pairs of item and attempt.
\<close>

locale attempt_queue =
  fixes good :: "'d \<Rightarrow> bool"
    and moves :: "'d \<Rightarrow> 'd \<Rightarrow> bool"
    and attempt_of :: "'d \<Rightarrow> int \<Rightarrow> int \<Rightarrow> bool"
    and claims :: "'d \<Rightarrow> int \<Rightarrow> int \<Rightarrow> 'd \<Rightarrow> bool"
  assumes moves_good: "good d \<Longrightarrow> moves d d' \<Longrightarrow> good d'"
    and moves_up: "good d \<Longrightarrow> moves d d' \<Longrightarrow> attempt_of d i a \<Longrightarrow> \<exists>a' \<ge> a. attempt_of d' i a'"
    and claims_moves: "claims d i a d' \<Longrightarrow> moves d d'"
    and claims_fresh: "good d \<Longrightarrow> claims d i a d' \<Longrightarrow> attempt_of d' i a \<and> (\<forall>b. attempt_of d i b \<longrightarrow> b < a)"
begin

inductive run_of_claims :: "'d \<Rightarrow> (int \<times> int) list \<Rightarrow> 'd \<Rightarrow> bool" where
  no_claim: "run_of_claims d [] d"
| move: "moves d d1 \<Longrightarrow> run_of_claims d1 cs d2 \<Longrightarrow> run_of_claims d cs d2"
| claim: "claims d i a d1 \<Longrightarrow> run_of_claims d1 cs d2 \<Longrightarrow> run_of_claims d ((i, a) # cs) d2"

lemma claims_above:
  "run_of_claims d cs d2 \<Longrightarrow> good d \<Longrightarrow> attempt_of d i a \<Longrightarrow> (i, b) \<in> set cs \<Longrightarrow> a < b"
proof (induction arbitrary: a rule: run_of_claims.induct)
  case (move d d1 cs d2)
  then show ?case by (metis moves_good moves_up order_le_less_trans)
next
  case (claim d j c d1 cs d2)
  have g: "good d1" using claim.prems(1) claims_moves[OF claim.hyps(1)] moves_good by blast
  show ?case
  proof (cases "(i, b) = (j, c)")
    case True
    then show ?thesis using claims_fresh[OF claim.prems(1) claim.hyps(1)] claim.prems(2) by blast
  next
    case False
    then have m: "(i, b) \<in> set cs" using claim.prems(3) by auto
    obtain a' where "a \<le> a'" "attempt_of d1 i a'"
      using moves_up[OF claim.prems(1) claims_moves[OF claim.hyps(1)] claim.prems(2)] by blast
    then show ?thesis using claim.IH[OF g _ m] by force
  qed
qed simp

lemma claims_distinct: "run_of_claims d cs d2 \<Longrightarrow> good d \<Longrightarrow> distinct cs"
proof (induction rule: run_of_claims.induct)
  case (claim d i a d1 cs d2)
  have g: "good d1" using claim.prems claims_moves[OF claim.hyps(1)] moves_good by blast
  have "attempt_of d1 i a" using claims_fresh[OF claim.prems claim.hyps(1)] by blast
  then have "(i, a) \<notin> set cs" using claims_above[OF claim.hyps(2) g] by blast
  then show ?case using claim.IH[OF g] by simp
qed (auto intro: moves_good)

end

section \<open>Finalisation\<close>

text \<open>An active batch has something left to do.\<close>

definition open_or_settling :: "db \<Rightarrow> int \<Rightarrow> bool" where
  "open_or_settling d jid \<longleftrightarrow> (\<exists>i \<in> set (db_items d). it_job_id i = jid \<and> \<not> item_is_terminal (it_status i))
     \<or> (\<forall>j \<in> set (db_jobs d). job_id j = jid \<longrightarrow> job_status j \<notin> {JobStatusCreated, JobStatusHolding, JobStatusRunning})"

lemma idle_guard:
  assumes "inv d" and "j \<in> set (db_jobs d)" and "job_status j \<in> {JobStatusCreated, JobStatusHolding, JobStatusRunning}"
    and "unfinished d (job_id j) = 0"
  shows "finalize_guard j"
proof -
  have "counters_full j"
    using inv_job(1)[OF assms(1,2)] tally_total[OF inv_items[OF assms(1)], of "job_id j"] assms(4)
    by (simp add: counters_match_def counters_full_def)
  then show ?thesis
    using life_active(2)[OF inv_job(2)[OF assms(1,2)] assms(3)] assms(3) by (auto simp: finalize_guard_status)
qed

lemma active_finished_guard:
  assumes "inv d" and "j \<in> set (db_jobs d)" and "job_status j \<in> {JobStatusCreated, JobStatusHolding, JobStatusRunning}"
    and "\<forall>i \<in> set (db_items d). it_job_id i = job_id j \<longrightarrow> item_is_terminal (it_status i)"
  shows "finalize_guard j"
proof -
  have "tally d ItemStatusPending (job_id j) = 0" "tally d ItemStatusRunning (job_id j) = 0"
    using assms(4) by (auto simp: tally_def affected_eq_0)
  then show ?thesis using idle_guard[OF assms(1-3)] by (simp add: unfinished_def)
qed

lemma finalize_job_open:
  assumes "inv d" and "finalize_job now p d = Inr (won, d')" and "fj_job_id p = jid"
  shows "open_or_settling d' jid"
proof (cases "\<exists>i \<in> set (db_items d). it_job_id i = jid \<and> \<not> item_is_terminal (it_status i)")
  case True
  moreover have "db_items d' = db_items d" using assms(2) by (auto simp: finalize_job_def Let_def split: if_splits)
  ultimately show ?thesis by (simp add: open_or_settling_def)
next
  case False
  let ?P = "\<lambda>j. job_id j = jid \<and> finalize_guard j"
  obtain f where d': "d' = update_jobs ?P f d" and f: "\<And>j. job_status (f j) = JobStatusSettling \<and> job_id (f j) = job_id j"
    using assms(2,3) by (auto simp: finalize_job_def Let_def split: if_splits)
  have "job_status j \<notin> {JobStatusCreated, JobStatusHolding, JobStatusRunning}" if j: "j \<in> set (db_jobs d')" "job_id j = jid" for j
  proof
    assume active: "job_status j \<in> {JobStatusCreated, JobStatusHolding, JobStatusRunning}"
    from j(1) obtain j0 where j0: "j0 \<in> set (db_jobs d)" "j = (if ?P j0 then f j0 else j0)"
      unfolding d' by (auto simp: upd_def)
    then have n: "\<not> ?P j0" "j = j0" using active f by (auto split: if_splits)
    have "finalize_guard j0" using active_finished_guard[OF assms(1) j0(1)] active n(2) j(2) False by simp
    then show False using n j(2) by simp
  qed
  then show ?thesis by (simp add: open_or_settling_def)
qed

section \<open>Stop\<close>

text \<open>
  A stop request cancels exactly the items that have not started. Running and finished items of the
  job, all items of other jobs, and the holds keep their rows; the cancelled counter grows by the
  number returned; the time of the first request is kept.
\<close>

lemma request_job_stop_contract:
  assumes "inv d" and "request_job_stop now jid d = Inr (n, d')" and "j \<in> set (db_jobs d)" and "job_id j = jid"
  shows "n = affected (\<lambda>i. it_job_id i = jid \<and> it_status i = ItemStatusPending) (db_items d)
    \<and> db_items d' = map (\<lambda>i. if it_job_id i = jid \<and> it_status i = ItemStatusPending then cancel_item now i else i) (db_items d)
    \<and> db_holds d' = db_holds d
    \<and> (\<exists>j' \<in> set (db_jobs d'). job_id j' = jid \<and> job_status j' = job_status j
         \<and> job_cancelled_count j' = job_cancelled_count j + n
         \<and> job_cancel_requested_at j' = (case job_cancel_requested_at j of None \<Rightarrow> Some now | Some t \<Rightarrow> Some t))"
proof -
  let ?P = "\<lambda>i. it_job_id i = jid \<and> it_status i = ItemStatusPending"
  let ?s = "j\<lparr>job_cancel_requested_at := (case job_cancel_requested_at j of None \<Rightarrow> Some now | Some t \<Rightarrow> Some t),
      job_updated_at := now\<rparr>"
  let ?C = "\<lambda>m j. j\<lparr>job_cancelled_count := job_cancelled_count j + m, job_updated_at := now\<rparr>"
  let ?S = "\<lambda>j. j\<lparr>job_cancel_requested_at := (case job_cancel_requested_at j of None \<Rightarrow> Some now | Some t \<Rightarrow> Some t),
      job_updated_at := now\<rparr>"
  have s: "?S j \<in> set (upd (\<lambda>j. job_id j = jid) ?S (db_jobs d))" using assms(3,4) by (rule upd_mem)
  have c: "?C m (?S j) \<in> set (upd (\<lambda>j. job_id j = jid) (?C m) (upd (\<lambda>j. job_id j = jid) ?S (db_jobs d)))" for m
    by (rule upd_mem[OF s]) (simp add: assms(4))
  have n: "n = affected ?P (db_items d)" and items: "db_items d' = upd ?P (cancel_item now) (db_items d)"
    and holds: "db_holds d' = db_holds d"
    and jobs: "db_jobs d' = (if n = 0 then upd (\<lambda>j. job_id j = jid) ?S (db_jobs d)
        else upd (\<lambda>j. job_id j = jid) (?C n) (upd (\<lambda>j. job_id j = jid) ?S (db_jobs d)))"
    using assms(2) by (auto simp: request_job_stop_def Let_def split: if_splits)
  have "\<exists>j' \<in> set (db_jobs d'). job_id j' = jid \<and> job_status j' = job_status j
         \<and> job_cancelled_count j' = job_cancelled_count j + n
         \<and> job_cancel_requested_at j' = (case job_cancel_requested_at j of None \<Rightarrow> Some now | Some t \<Rightarrow> Some t)"
  proof (cases "n = 0")
    case True
    with jobs s assms(4) show ?thesis by (intro bexI[of _ "?S j"]) simp_all
  next
    case False
    with jobs c[of n] assms(4) show ?thesis by (intro bexI[of _ "?C n (?S j)"]) simp_all
  qed
  with n items holds show ?thesis by (simp add: upd_def)
qed

end
