(* ===== verification/Worker_Guarantees.thy ===== *)
theory Worker_Guarantees
  imports Worker_Queue Item_History Scenario "HOL-Library.Sublist"
begin

text \<open>
  What the workers guarantee, with any number of them, crashes and expired leases included: their
  rounds are repository steps, no attempt is charged twice, and an item never costs more calls of
  the gateway than it has attempts.
\<close>

section \<open>Rounds are made of steps\<close>

abbreviation queue_interference_ok :: "decimal_lib \<Rightarrow> queue_env \<Rightarrow> bool" where
  "queue_interference_ok D e \<equiv> interferes D (qe_meanwhile e)"

lemma queue_call_runs:
  assumes "queue_interference_ok D e" and "queue_call e p f d = (r, d')"
    and "\<And>d0 a d1. f d0 = Inr (a, d1) \<Longrightarrow> (\<forall>seen. step D (d0, seen) (d1, seen)) \<or> d1 = d0"
  shows "runs D {} d d'"
  using assms(2) unfolding queue_call_def
  by (rule call_runs[OF assms(1)]) (use assms(3) in \<open>metis runs_refl runs_step\<close>)

lemma touch_runs: "queue_interference_ok D e \<Longrightarrow> runs D {} d (pool_touch_heartbeat e ids d)"
proof -
  assume ok: "queue_interference_ok D e"
  obtain r d' where c: "queue_call e AtTouch (\<lambda>x. Inr ((), touch_job_heartbeat (qe_now e) ids x)) d = (r, d')" by fastforce
  have "runs D {} d d'" by (rule queue_call_runs[OF ok c]) (auto intro: step_heartbeat)
  with c show ?thesis by (simp add: pool_touch_heartbeat_def)
qed

lemma finalize_runs: "queue_interference_ok D e \<Longrightarrow> runs D {} d (pool_finalize_job e jid d)"
proof -
  assume ok: "queue_interference_ok D e"
  obtain r d' where c: "queue_call e AtFinalize (finalize_job (qe_now e)
      \<lparr>fj_job_id = jid, fj_status = JobStatusSettling, fj_finished_at = qe_now e\<rparr>) d = (r, d')" by fastforce
  have "runs D {} d d'" by (rule queue_call_runs[OF ok c]) (auto intro: step_finalize)
  with c show ?thesis by (simp add: pool_finalize_job_def)
qed

lemma renew_ticks_runs:
  assumes "queue_interference_ok D e"
  shows "renew_ticks e late n worker it d = (lost, d') \<Longrightarrow> runs D {} d d'"
proof (induction n arbitrary: d)
  case (Suc n)
  obtain r d1 where c: "queue_call e (AtRenew late n)
      (renew_item_lease (qe_now e) (it_id it) worker (wc_lease_for (qe_cfg e))) d = (r, d1)" by fastforce
  have "runs D {} d d1" by (rule queue_call_runs[OF assms c]) (auto intro: step_renew)
  moreover have "d' = d1 \<or> renew_ticks e late n worker it d1 = (lost, d')"
    using Suc.prems c by (auto split: sum.splits if_splits)
  ultimately show ?case using Suc.IH by (blast intro: runs_trans)
qed simp

lemma write_success_runs: "queue_interference_ok D e \<Longrightarrow> runs D {} d (write_success e it worker result d)"
proof -
  assume ok: "queue_interference_ok D e"
  have "runs D {} d d1" if "queue_call e AtComplete (complete_item_success now sp) d = (r, d1)" for now sp r d1
    using that by (rule queue_call_runs[OF ok]) (auto intro: step_success)
  then show ?thesis
    by (auto simp: write_success_def split: option.split prod.split sum.split intro: runs_trans[OF _ finalize_runs[OF ok]])
qed

lemma fail_call_runs:
  "queue_interference_ok D e \<Longrightarrow> queue_call e AtComplete (complete_item_failure now fp) d = (r, d1) \<Longrightarrow> runs D {} d d1"
  by (erule queue_call_runs) (auto intro: step_failure)

lemma write_failure_runs: "queue_interference_ok D e \<Longrightarrow> runs D {} d (write_failure D e it worker cause d)"
  by (auto simp: write_failure_def Let_def split: option.split prod.split sum.split
      intro: runs_trans[OF _ finalize_runs] dest: fail_call_runs)

lemma fail_exhausted_runs: "queue_interference_ok D e \<Longrightarrow> runs D {} d (fail_exhausted_item e it worker up d)"
  by (auto simp: fail_exhausted_item_def split: prod.split sum.split
      intro: runs_trans[OF _ finalize_runs] dest: fail_call_runs)

lemma release_lease_runs: "queue_interference_ok D e \<Longrightarrow> runs D {} d (release_lease e it worker d)"
  by (auto simp: release_lease_def fail_exhausted_runs intro: fail_call_runs[OF _ prod.collapse[symmetric]])

lemma start_running_runs: "runs D {} d (start_running env j d)"
proof -
  have "runs D {} d d'" if "update_job_status now jid JobStatusHolding JobStatusRunning d = Inr ((), d')" for now jid d'
    by (rule runs_step) (rule step_status[OF that], simp)
  then show ?thesis by (auto simp: start_running_def split: sum.split)
qed

lemma process_item_db: "snd (snd (process_item env s j it d)) \<in> {d, start_running env j d}"
proof -
  obtain a t1 where res: "resolve_image env s j it = (a, t1)" by fastforce
  show ?thesis
  proof (cases a)
    case (Inr input)
    show ?thesis
    proof (cases "we_generate env (generate_request_of s j it input)")
      case gen: (Inr out)
      obtain b t2 where "store_images env j it 1 (gx_images out) = (b, t2)" by fastforce
      then show ?thesis by (cases b) (simp_all add: process_item_def Let_def res Inr gen split: option.split)
    qed (simp add: process_item_def Let_def res Inr split: option.split)
  qed (simp add: process_item_def Let_def res split: option.split)
qed

lemma get_job_call:
  assumes "queue_interference_ok D e"
    and "queue_call e AtGetJob (\<lambda>x. case get_job_by_id x jid of Inl err \<Rightarrow> Inl err | Inr j \<Rightarrow> Inr (j, x)) d = (r, d1)"
  shows "runs D {} d d1" and "r = Inr j \<Longrightarrow> j \<in> set (db_jobs d1) \<and> job_id j = jid"
proof -
  show "runs D {} d d1" using assms(2) by (rule queue_call_runs[OF assms(1)]) (auto split: sum.splits)
  show "r = Inr j \<Longrightarrow> j \<in> set (db_jobs d1) \<and> job_id j = jid"
    using assms(2) by (auto simp: queue_call_def repo_call_def Let_def get_job_by_id_def the_job_def
        split: option.splits sum.splits dest!: find_SomeD)
qed

lemma generate_item_runs:
  assumes "queue_interference_ok D e" and "generate_item e it d = (r, effects, d')"
  shows "runs D {} d d'"
proof -
  obtain r1 d1 where c: "queue_call e AtGetJob
      (\<lambda>x. case get_job_by_id x (it_job_id it) of Inl err \<Rightarrow> Inl err | Inr j \<Rightarrow> Inr (j, x)) d = (r1, d1)" by fastforce
  note g = get_job_call(1)[OF assms(1) c]
  have "d' = d1 \<or> d' = qe_meanwhile e AtProcess d1 \<or> (\<exists>env j. d' = start_running env j (qe_meanwhile e AtProcess d1))"
  proof (cases r1)
    case (Inr j)
    then have "d' = snd (snd (process_item (qe_worker e) (qe_settings e) j it (qe_meanwhile e AtProcess d1)))"
      using assms(2) c by (simp add: generate_item_def)
    then show ?thesis using process_item_db by blast
  qed (use assms(2) c in \<open>simp add: generate_item_def\<close>)
  then show ?thesis using g meanwhile_runs[OF assms(1)] start_running_runs by (metis runs_trans)
qed

lemma handle_item_runs:
  assumes "queue_interference_ok D e" and "handle_item D e worker it d = (effects, d')"
  shows "runs D {} d d'"
proof (cases "attempt_budget_exceeded (it_attempt_count it) (it_max_attempts it)")
  case True
  then show ?thesis using assms(2) fail_exhausted_runs[OF assms(1)] by (auto simp: handle_item_def)
next
  case False
  obtain l1 d1 where 1: "renew_ticks e False (qe_early_ticks e) worker it (pool_touch_heartbeat e [it_job_id it] d) = (l1, d1)"
    by fastforce
  obtain r tr d2 where 2: "generate_item e it d1 = (r, tr, d2)" by (metis prod.exhaust)
  obtain l3 d3 where 3: "(if l1 then (True, d2) else renew_ticks e True (qe_late_ticks e) worker it d2) = (l3, d3)" by fastforce
  have "runs D {} d d1" using renew_ticks_runs[OF assms(1) 1] touch_runs[OF assms(1)] runs_trans by blast
  moreover have "runs D {} d1 d2" by (rule generate_item_runs[OF assms(1) 2])
  moreover have "runs D {} d2 d3" using 3 renew_ticks_runs[OF assms(1)] by (auto split: if_splits)
  moreover have "runs D {} d3 d'"
    using assms(2) False 1 2 3 release_lease_runs[OF assms(1)] write_failure_runs[OF assms(1)] write_success_runs[OF assms(1)]
    by (auto simp: handle_item_def split: sum.splits if_splits)
  ultimately show ?thesis by (meson runs_trans)
qed

lemma claim_call:
  assumes "queue_interference_ok D e" and "queue_call e AtClaim (claim_next_item now locked cp) d = (r, d1)"
  shows "runs D {} d d1"
    and "r = Inr it \<Longrightarrow> \<exists>d0. runs D {} d d0 \<and> claim_next_item now locked cp d0 = Inr (it, d1)"
proof -
  show "runs D {} d d1" using assms(2) by (rule queue_call_runs[OF assms(1)]) (auto intro: step_claim)
  show "r = Inr it \<Longrightarrow> \<exists>d0. runs D {} d d0 \<and> claim_next_item now locked cp d0 = Inr (it, d1)"
    using assms(2) meanwhile_runs[OF assms(1)] by (auto simp: queue_call_def repo_call_def Let_def split: option.splits sum.splits)
qed

lemma item_worker_round_runs:
  assumes "queue_interference_ok D e" and "item_worker_round D e worker d = (a, effects, d')"
  shows "runs D {} d d'"
proof (cases "qe_cancelled e")
  case False
  define cp where "cp = \<lparr>cl_worker_id = worker, cl_lease_for = wc_lease_for (qe_cfg e), cl_now = zero_time\<rparr>"
  obtain r d1 where c: "queue_call e AtClaim (claim_next_item (qe_now e) (qe_locked e) cp) d = (r, d1)" by fastforce
  have "d' = d1 \<or> (\<exists>it tr. handle_item D e worker it d1 = (tr, d'))"
    using assms(2) False c by (auto simp: item_worker_round_def cp_def[symmetric] split: sum.splits prod.splits)
  then show ?thesis
    using claim_call(1)[OF assms(1) c] handle_item_runs[OF assms(1)] runs_trans by blast
qed (use assms(2) in \<open>simp add: item_worker_round_def\<close>)

lemma run_item_worker_runs:
  "(\<And>e. e \<in> set es \<Longrightarrow> queue_interference_ok D e) \<Longrightarrow> run_item_worker D worker es d = (effects, d') \<Longrightarrow> runs D {} d d'"
proof (induction es arbitrary: d effects)
  case (Cons e es)
  obtain a tr d1 where r: "item_worker_round D e worker d = (a, tr, d1)" by (metis prod.exhaust)
  have 1: "runs D {} d d1" using item_worker_round_runs[OF _ r] Cons.prems(1) by simp
  have "d' = d1 \<or> (\<exists>tr'. run_item_worker D worker es d1 = (tr', d'))"
    using Cons.prems(2) r by (auto split: if_splits prod.splits)
  then show ?case using 1 Cons.IH Cons.prems(1) runs_trans by (metis list.set_intros(2))
qed simp

section \<open>Claims and the calls they lead to\<close>

definition item_attempt :: "db \<Rightarrow> int \<Rightarrow> int \<Rightarrow> bool" where
  "item_attempt d i a \<longleftrightarrow> (\<exists>r \<in> set (db_items d). it_id r = i \<and> it_attempt_count r = a)"

definition repo_claims :: "db \<Rightarrow> int \<Rightarrow> int \<Rightarrow> db \<Rightarrow> bool" where
  "repo_claims d i a d' \<longleftrightarrow> (\<exists>now locked cp r. claim_next_item now locked cp d = Inr (r, d')
     \<and> it_id r = i \<and> it_attempt_count r = a)"

lemma claimed_row:
  assumes "claim_next_item now locked cp d = Inr (r, d')"
  shows "r \<in> set (db_items d')" and "\<exists>r0 \<in> set (db_items d). it_id r0 = it_id r \<and> it_attempt_count r = it_attempt_count r0 + 1"
proof -
  obtain r0 w l n where r0: "r0 \<in> set (db_items d)" "r = claim_item w l n r0"
    "d' = update_items (\<lambda>x. it_id x = it_id r0) (claim_item w l n) d"
    using assms by (rule claim_next_itemD)
  then show "r \<in> set (db_items d')" by (auto simp: update_items_def intro!: upd_mem)
  show "\<exists>r0 \<in> set (db_items d). it_id r0 = it_id r \<and> it_attempt_count r = it_attempt_count r0 + 1"
    using r0 by (intro bexI[of _ r0]) simp_all
qed

interpretation repo_queue: attempt_queue "\<lambda>d. decimal_ok D \<and> inv d" "runs D {}" item_attempt repo_claims for D
proof
  fix d d' i a
  assume g: "decimal_ok D \<and> inv d"
  show "runs D {} d d' \<Longrightarrow> decimal_ok D \<and> inv d'" using g runs_good(1) by blast
  show "runs D {} d d' \<Longrightarrow> item_attempt d i a \<Longrightarrow> \<exists>a' \<ge> a. item_attempt d' i a'"
    using g runs_good(2) by (fastforce simp: item_attempt_def items_grow_def item_progress_def)
  show "repo_claims d i a d' \<Longrightarrow> item_attempt d' i a \<and> (\<forall>b. item_attempt d i b \<longrightarrow> b < a)"
    using g claimed_row same_item[OF inv_schema] unfolding repo_claims_def item_attempt_def
    by (metis less_add_one)
next
  show "repo_claims d i a d' \<Longrightarrow> runs D {} d d'" for d i a d'
    unfolding repo_claims_def by (blast intro: runs_step step_claim)
qed

fun gateway_calls :: "effect list \<Rightarrow> generate_request list" where
  "gateway_calls [] = []"
| "gateway_calls (Generated req # tr) = req # gateway_calls tr"
| "gateway_calls (_ # tr) = gateway_calls tr"

lemma gateway_calls_append [simp]: "gateway_calls (a @ b) = gateway_calls a @ gateway_calls b"
  by (induction a rule: gateway_calls.induct) simp_all

lemma no_gateway_calls: "filter is_generated tr = [] \<Longrightarrow> gateway_calls tr = []"
  by (induction tr rule: gateway_calls.induct) simp_all

text \<open>
  The calls a claimed item leads to: none, or those of \<open>process_item\<close> with the claimed row and the
  row of its job as read at some later time, whatever the state of the rest of the world.
\<close>

definition worker_calls :: "decimal_lib \<Rightarrow> db \<Rightarrow> job_item \<Rightarrow> generate_request list \<Rightarrow> bool" where
  "worker_calls D d it new \<longleftrightarrow> new = [] \<or>
     (\<exists>env s j dj dx r tr dy. runs D {} d dj \<and> j \<in> set (db_jobs dj) \<and> job_id j = it_job_id it
        \<and> process_item env s j it dx = (r, tr, dy) \<and> new = gateway_calls tr)"

text \<open>
  A run of the whole system together with the calls of the gateway in it, in the order of the claims
  that lead to them: any number of workers, each claim followed by its calls at whatever later time,
  and everything else in between.
\<close>

inductive charged_run :: "decimal_lib \<Rightarrow> db \<Rightarrow> generate_request list \<Rightarrow> db \<Rightarrow> bool" for D where
  charged_nothing: "charged_run D d [] d"
| charged_others: "runs D {} d d1 \<Longrightarrow> charged_run D d1 calls d2 \<Longrightarrow> charged_run D d calls d2"
| charged_worker: "claim_next_item now locked cp d = Inr (it, d1) \<Longrightarrow> worker_calls D d1 it new
    \<Longrightarrow> charged_run D d1 calls d2 \<Longrightarrow> charged_run D d (new @ calls) d2"

lemma charged_run_append:
  "charged_run D a c1 b \<Longrightarrow> charged_run D b c2 c \<Longrightarrow> charged_run D a (c1 @ c2) c"
  by (induction rule: charged_run.induct) (auto intro: charged_run.intros)

section \<open>The key of a call\<close>

text \<open>A call belongs to an attempt of an item: it carries the billing id of exactly that attempt.\<close>

definition keyed :: "db \<Rightarrow> generate_request \<Rightarrow> int \<times> int \<Rightarrow> bool" where
  "keyed d req k \<longleftrightarrow> (\<exists>r \<in> set (db_items d). \<exists>j \<in> set (db_jobs d).
     it_id r = fst k \<and> job_id j = it_job_id r \<and> gr_job_uid req = job_uid j \<and> gr_seq req = it_seq r
     \<and> gr_attempt req = snd k \<and> gr_billing_request_id req = billing_request_id (job_uid j) (it_seq r) (snd k)
     \<and> validate_billing_request_id_parts (job_uid j) (it_seq r) (snd k) = None
     \<and> snd k \<le> normalize_max_attempts (it_max_attempts r))"

lemma keyed_moves:
  assumes "decimal_ok D" and "inv d" and "runs D {} d d'" and "keyed d req k"
  shows "keyed d' req k"
proof -
  from assms(4) obtain r j where k: "r \<in> set (db_items d)" "j \<in> set (db_jobs d)" "it_id r = fst k" "job_id j = it_job_id r"
    "gr_job_uid req = job_uid j" "gr_seq req = it_seq r" "gr_attempt req = snd k"
    "gr_billing_request_id req = billing_request_id (job_uid j) (it_seq r) (snd k)"
    "validate_billing_request_id_parts (job_uid j) (it_seq r) (snd k) = None"
    "snd k \<le> normalize_max_attempts (it_max_attempts r)"
    by (auto simp: keyed_def)
  note g = runs_good[OF assms(3,1,2)]
  obtain j' where j': "j' \<in> set (db_jobs d')" "job_progress j j'" using g(3) k(2) by (rule evolvesD)
  obtain r' where r': "r' \<in> set (db_items d')" "item_progress r r'" using g(2) k(1) by (auto simp: items_grow_def)
  show ?thesis unfolding keyed_def
    by (rule bexI[OF _ r'(1)], rule bexI[OF _ j'(1)])
      (use k(3-) j'(2) r'(2) in \<open>simp add: job_progress_def item_progress_def terms_defs\<close>)
qed

lemma billing_id_inject:
  assumes "validate_billing_request_id_parts u s a = None" and "validate_billing_request_id_parts u' s' a' = None"
    and "billing_request_id u s a = billing_request_id u' s' a'"
  shows "u = u' \<and> s = s' \<and> a = a'"
  using assms stored_id_inject[of u s a u' s' a'] by (simp add: validate_parts_iff stored_billing_request_id_def)

lemma keyed_inject:
  assumes "inv d" and "keyed d q k" and "keyed d q' k'" and "gr_billing_request_id q = gr_billing_request_id q'"
  shows "k = k'"
proof -
  from assms(2,3) obtain r j r' j' where r: "r \<in> set (db_items d)" "r' \<in> set (db_items d)" "it_id r = fst k" "it_id r' = fst k'"
    and j: "j \<in> set (db_jobs d)" "j' \<in> set (db_jobs d)" "job_id j = it_job_id r" "job_id j' = it_job_id r'"
    and eq: "job_uid j = job_uid j' \<and> it_seq r = it_seq r' \<and> snd k = snd k'"
    using assms(4) billing_id_inject unfolding keyed_def by metis
  have s: "distinct (map job_uid (db_jobs d))" "distinct (map (\<lambda>i. (it_job_id i, it_seq i)) (db_items d))"
    using inv_schema[OF assms(1)] by (simp_all add: schema_ok_def)
  have "j = j'" using s(1) j(1,2) eq by (metis distinct_map inj_onD)
  then have "(it_job_id r, it_seq r) = (it_job_id r', it_seq r')" using j(3,4) eq by simp
  then have "r = r'" using s(2) r(1,2) by (metis (mono_tags, lifting) distinct_map inj_onD)
  then show ?thesis using r(3,4) eq by (simp add: prod_eq_iff)
qed

lemma worker_calls_keyed:
  assumes "decimal_ok D" and "inv d" and "claim_next_item now locked cp d = Inr (it, d1)" and "worker_calls D d1 it new"
  shows "new = [] \<or> (\<exists>req. new = [req] \<and> keyed d1 req (it_id it, it_attempt_count it))"
proof -
  from assms(4) consider "new = []" | env s j dj dx r tr dy where "runs D {} d1 dj" "j \<in> set (db_jobs dj)"
    "job_id j = it_job_id it" "process_item env s j it dx = (r, tr, dy)" "new = gateway_calls tr"
    unfolding worker_calls_def by blast
  then show ?thesis
  proof cases
    case 2
    have i1: "inv d1" using inv_claim_next_item[OF assms(2,3)] .
    obtain j1 where j1: "j1 \<in> set (db_jobs d1)" "job_id j1 = it_job_id it"
      using inv_item_job[OF i1 claimed_row(1)[OF assms(3)]] .
    note g = runs_good[OF 2(1) assms(1) i1]
    obtain j' where j': "j' \<in> set (db_jobs dj)" "job_progress j1 j'" using g(3) j1(1) by (rule evolvesD)
    then have terms: "job_id j' = job_id j1" "job_uid j' = job_uid j1" by (simp_all add: job_progress_def terms_defs)
    then have "j' = j" using same_job[OF inv_schema[OF g(1)] j'(1) 2(2)] 2(3) j1(2) by simp
    with terms(2) have uid: "job_uid j1 = job_uid j" by simp
    from process_item_trace[OF 2(4)] consider "filter is_generated tr = []"
      | t1 t2 input where "tr = t1 @ Generated (generate_request_of s j it input) # t2" "filter is_generated t1 = []"
        "filter is_generated t2 = []" "\<not> attempt_budget_exceeded (it_attempt_count it) (it_max_attempts it)"
        "validate_billing_request_id_parts (job_uid j) (it_seq it) (it_attempt_count it) = None" by blast
    then show ?thesis
    proof cases
      case t: 2
      have "new = [generate_request_of s j it input]" using 2(5) t(1) no_gateway_calls[OF t(2)] no_gateway_calls[OF t(3)] by simp
      moreover have "keyed d1 (generate_request_of s j it input) (it_id it, it_attempt_count it)"
        unfolding keyed_def
        by (rule bexI[OF _ claimed_row(1)[OF assms(3)]], rule bexI[OF _ j1(1)])
          (use j1(2) uid t(4,5) in \<open>simp add: generate_request_of_def attempt_budget_exceeded_def\<close>)
      ultimately show ?thesis by blast
    qed (use 2(5) no_gateway_calls in simp)
  qed simp
qed

lemma charged_run_runs: "charged_run D d calls d2 \<Longrightarrow> runs D {} d d2"
  by (induction rule: charged_run.induct) (auto intro: runs_trans runs_step step_claim)

lemma charged_run_keys:
  "charged_run D d calls d2 \<Longrightarrow> decimal_ok D \<Longrightarrow> inv d \<Longrightarrow>
     \<exists>cs ks. repo_queue.run_of_claims D d cs d2 \<and> subseq ks cs \<and> list_all2 (keyed d2) calls ks"
proof (induction rule: charged_run.induct)
  case (charged_nothing d)
  show ?case by (intro exI[of _ "[]"]) (simp add: repo_queue.no_claim)
next
  case (charged_others d d1 calls d2)
  then show ?case using runs_good(1) repo_queue.move by metis
next
  case (charged_worker now locked cp d it d1 new calls d2)
  have i1: "inv d1" using inv_claim_next_item[OF charged_worker.prems(2) charged_worker.hyps(1)] .
  obtain cs ks where IH: "repo_queue.run_of_claims D d1 cs d2" "subseq ks cs" "list_all2 (keyed d2) calls ks"
    using charged_worker.IH[OF charged_worker.prems(1) i1] by blast
  let ?k = "(it_id it, it_attempt_count it)"
  have "repo_claims d (fst ?k) (snd ?k) d1" using charged_worker.hyps(1) by (auto simp: repo_claims_def)
  from repo_queue.claim[OF this IH(1)] have c: "repo_queue.run_of_claims D d (?k # cs) d2" by simp
  from worker_calls_keyed[OF charged_worker.prems charged_worker.hyps(1,2)] show ?case
  proof
    assume "new = []"
    with c IH show ?thesis by - (rule exI[of _ "?k # cs"], rule exI[of _ ks], simp add: list_emb_Cons)
  next
    assume "\<exists>req. new = [req] \<and> keyed d1 req ?k"
    then obtain req where "new = [req]" "keyed d2 req ?k"
      using keyed_moves[OF charged_worker.prems(1) i1 charged_run_runs[OF charged_worker.hyps(3)]] by blast
    with c IH show ?thesis by - (rule exI[of _ "?k # cs"], rule exI[of _ "?k # ks"], simp)
  qed
qed

lemma charged_run_distinct_keys:
  assumes "charged_run D d calls d2" and "decimal_ok D" and "inv d"
  obtains ks where "distinct ks" and "list_all2 (keyed d2) calls ks"
proof -
  obtain cs ks where k: "repo_queue.run_of_claims D d cs d2" "subseq ks cs" "list_all2 (keyed d2) calls ks"
    using charged_run_keys[OF assms] by blast
  have "distinct cs" using repo_queue.claims_distinct[OF k(1)] assms(2,3) by simp
  with k(2) have "distinct ks" by (auto simp: subseq_conv_nths distinct_nthsI)
  with k(3) that show thesis by blast
qed

lemma charged_once:
  assumes "charged_run D d calls d2" and "decimal_ok D" and "inv d"
  shows "distinct (map gr_billing_request_id calls)"
proof -
  obtain ks where k: "distinct ks" "list_all2 (keyed d2) calls ks" using assms by (rule charged_run_distinct_keys)
  have i2: "inv d2" using runs_good(1)[OF charged_run_runs[OF assms(1)] assms(2,3)] .
  have "gr_billing_request_id (calls ! m) \<noteq> gr_billing_request_id (calls ! n)"
    if "m < length calls" "n < length calls" "m \<noteq> n" for m n
    using that k keyed_inject[OF i2] by (metis list_all2_lengthD list_all2_nthD nth_eq_iff_index_eq)
  then show ?thesis by (simp add: distinct_conv_nth)
qed

lemma length_le_range:
  fixes f :: "'a \<Rightarrow> int"
  assumes "inj_on f (set xs)" and "distinct xs" and "\<And>x. x \<in> set xs \<Longrightarrow> R x \<and> 1 \<le> f x \<and> f x \<le> m"
  shows "length xs \<le> nat m"
proof -
  have "f ` set xs \<subseteq> {1..m}" using assms(3) by auto
  then have "card (f ` set xs) \<le> nat m" using card_mono[of "{1..m}"] by simp
  then show ?thesis using card_image[OF assms(1)] distinct_card[OF assms(2)] by simp
qed

lemma charged_within_budget:
  assumes "charged_run D d calls d2" and "decimal_ok D" and "inv d" and "r \<in> set (db_items d2)"
    and "j \<in> set (db_jobs d2)" and "job_id j = it_job_id r"
  shows "int (length (filter (\<lambda>q. gr_job_uid q = job_uid j \<and> gr_seq q = it_seq r) calls))
     \<le> normalize_max_attempts (it_max_attempts r)"
proof -
  let ?own = "filter (\<lambda>q. gr_job_uid q = job_uid j \<and> gr_seq q = it_seq r) calls"
  let ?max = "normalize_max_attempts (it_max_attempts r)"
  obtain ks where "list_all2 (keyed d2) calls ks" using assms(1-3) by (rule charged_run_distinct_keys)
  then have k: "\<exists>k. keyed d2 q k" if "q \<in> set calls" for q
    using that by (metis in_set_conv_nth list_all2_conv_all_nth)
  have i2: "inv d2" using runs_good(1)[OF charged_run_runs[OF assms(1)] assms(2,3)] .
  have s: "distinct (map job_uid (db_jobs d2))" "distinct (map (\<lambda>i. (it_job_id i, it_seq i)) (db_items d2))"
    using inv_schema[OF i2] by (simp_all add: schema_ok_def)
  have own: "gr_billing_request_id q = billing_request_id (job_uid j) (it_seq r) (gr_attempt q)
      \<and> 1 \<le> gr_attempt q \<and> gr_attempt q \<le> ?max" if "q \<in> set ?own" for q
  proof -
    from that have q: "q \<in> set calls" "gr_job_uid q = job_uid j" "gr_seq q = it_seq r" by auto
    from k[OF q(1)] obtain k where "keyed d2 q k" ..
    with q(2,3) obtain r' j' where k': "r' \<in> set (db_items d2)" "j' \<in> set (db_jobs d2)" "job_id j' = it_job_id r'"
      "job_uid j' = job_uid j" "it_seq r' = it_seq r" "gr_attempt q = snd k"
      "gr_billing_request_id q = billing_request_id (job_uid j) (it_seq r) (snd k)"
      "validate_billing_request_id_parts (job_uid j) (it_seq r) (snd k) = None"
      "snd k \<le> normalize_max_attempts (it_max_attempts r')" by (auto simp: keyed_def)
    have "j' = j" using s(1) k'(2,4) assms(5) by (metis distinct_map inj_onD)
    then have "(it_job_id r', it_seq r') = (it_job_id r, it_seq r)" using k'(3,5) assms(6) by simp
    then have "r' = r" using s(2) k'(1) assms(4) by (metis (mono_tags, lifting) distinct_map inj_onD)
    with k' show ?thesis by (simp add: validate_parts_iff)
  qed
  have "inj_on gr_attempt (set ?own)"
  proof (rule inj_onI)
    fix p q
    assume p: "p \<in> set ?own" "q \<in> set ?own" "gr_attempt p = gr_attempt q"
    then have "gr_billing_request_id p = gr_billing_request_id q" using own by metis
    moreover have "inj_on gr_billing_request_id (set calls)" using charged_once[OF assms(1-3)] by (simp add: distinct_map)
    ultimately show "p = q" using p(1,2) by (auto dest: inj_onD)
  qed
  moreover have "distinct ?own" using charged_once[OF assms(1-3)] by (simp add: distinct_map)
  ultimately have "length ?own \<le> nat ?max" using own by (rule length_le_range)
  moreover have "0 < ?max" by (rule normalize_pos)
  ultimately show ?thesis by linarith
qed

section \<open>The worker loop is such a run\<close>

lemma generate_item_calls:
  assumes "queue_interference_ok D e" and "runs D {} d1 d" and "generate_item e it d = (r, effects, d')"
  shows "worker_calls D d1 it (gateway_calls effects)"
proof -
  obtain r1 d2 where c: "queue_call e AtGetJob
      (\<lambda>x. case get_job_by_id x (it_job_id it) of Inl err \<Rightarrow> Inl err | Inr j \<Rightarrow> Inr (j, x)) d = (r1, d2)" by fastforce
  show ?thesis
  proof (cases r1)
    case (Inl err)
    with assms(3) c show ?thesis by (auto simp: generate_item_def worker_calls_def)
  next
    case (Inr j)
    with assms(3) c have p: "process_item (qe_worker e) (qe_settings e) j it (qe_meanwhile e AtProcess d2) = (r, effects, d')"
      by (simp add: generate_item_def)
    have "runs D {} d1 d2" using get_job_call(1)[OF assms(1) c] assms(2) by (blast intro: runs_trans)
    moreover have "j \<in> set (db_jobs d2)" "job_id j = it_job_id it" using get_job_call(2)[OF assms(1) c Inr] by auto
    ultimately show ?thesis using p unfolding worker_calls_def by blast
  qed
qed

lemma handle_item_calls:
  assumes "queue_interference_ok D e" and "handle_item D e worker it d = (effects, d')"
  shows "worker_calls D d it (gateway_calls effects)"
proof (cases "attempt_budget_exceeded (it_attempt_count it) (it_max_attempts it)")
  case True
  then show ?thesis using assms(2) by (auto simp: handle_item_def worker_calls_def)
next
  case False
  obtain l1 d1 where 1: "renew_ticks e False (qe_early_ticks e) worker it (pool_touch_heartbeat e [it_job_id it] d) = (l1, d1)"
    by fastforce
  obtain r tr d2 where 2: "generate_item e it d1 = (r, tr, d2)" by (metis prod.exhaust)
  have "runs D {} d d1" using renew_ticks_runs[OF assms(1) 1] touch_runs[OF assms(1)] runs_trans by blast
  moreover have "effects = tr" using assms(2) False 1 2 by (auto simp: handle_item_def split: prod.splits)
  ultimately show ?thesis using generate_item_calls[OF assms(1) _ 2] by simp
qed

lemma charged_step:
  assumes "queue_interference_ok D e" and "item_worker_round D e worker d = (a, effects, d')"
  shows "charged_run D d (gateway_calls effects) d'"
proof (cases "qe_cancelled e")
  case True
  with assms(2) show ?thesis by (simp add: item_worker_round_def charged_nothing)
next
  case False
  define cp where "cp = \<lparr>cl_worker_id = worker, cl_lease_for = wc_lease_for (qe_cfg e), cl_now = zero_time\<rparr>"
  obtain r d1 where c: "queue_call e AtClaim (claim_next_item (qe_now e) (qe_locked e) cp) d = (r, d1)" by fastforce
  show ?thesis
  proof (cases r)
    case (Inl err)
    then have "effects = []" "d' = d1" using assms(2) False c by (auto simp: item_worker_round_def cp_def[symmetric])
    then show ?thesis using claim_call(1)[OF assms(1) c] by (auto intro: charged_others charged_nothing)
  next
    case (Inr it)
    then have h: "handle_item D e worker it d1 = (effects, d')"
      using assms(2) False c by (auto simp: item_worker_round_def cp_def[symmetric] split: prod.splits)
    obtain d0 where d0: "runs D {} d d0" "claim_next_item (qe_now e) (qe_locked e) cp d0 = Inr (it, d1)"
      using claim_call(2)[OF assms(1) c Inr] by blast
    have "charged_run D d1 [] d'" using handle_item_runs[OF assms(1) h] by (auto intro: charged_others charged_nothing)
    from charged_worker[OF d0(2) handle_item_calls[OF assms(1) h] this] show ?thesis
      using d0(1) by (auto intro: charged_others)
  qed
qed

lemma charged_loop:
  "(\<And>e. e \<in> set es \<Longrightarrow> queue_interference_ok D e) \<Longrightarrow> run_item_worker D worker es d = (effects, d')
   \<Longrightarrow> charged_run D d (gateway_calls effects) d'"
proof (induction es arbitrary: d d' effects)
  case Nil
  then show ?case by (simp add: charged_nothing)
next
  case (Cons e es)
  obtain a tr d1 where r: "item_worker_round D e worker d = (a, tr, d1)" by (metis prod.exhaust)
  have 1: "charged_run D d (gateway_calls tr) d1" using charged_step[OF _ r] Cons.prems(1) by simp
  show ?case
  proof (cases "a = Quit")
    case True
    with Cons.prems(2) r 1 show ?thesis by simp
  next
    case False
    obtain rest d2 where rest: "run_item_worker D worker es d1 = (rest, d2)" by fastforce
    with Cons.prems(2) r False have "effects = tr @ rest" "d' = d2" by auto
    then show ?thesis using charged_run_append[OF 1 Cons.IH[OF _ rest]] Cons.prems(1) by simp
  qed
qed

section \<open>The last item\<close>

text \<open>No other process acts between the calls of the worker, and the finalisation call does not fail; any
  other call may.\<close>

definition quiet_queue :: "queue_env \<Rightarrow> bool" where
  "quiet_queue e \<longleftrightarrow> (\<forall>p d. qe_meanwhile e p d = d) \<and> qe_fails e AtFinalize = None"

lemma quiet_queue_call:
  "quiet_queue e \<Longrightarrow> queue_call e p f d =
     (case qe_fails e p of Some err \<Rightarrow> (Inl err, d)
      | None \<Rightarrow> (case f d of Inl err \<Rightarrow> (Inl err, d) | Inr (a, d1) \<Rightarrow> (Inr a, d1)))"
  by (simp add: quiet_queue_def queue_call_def repo_call_def split: option.split)

lemma quiet_finalize_call:
  "quiet_queue e \<Longrightarrow> queue_call e AtFinalize f d = (case f d of Inl err \<Rightarrow> (Inl err, d) | Inr (a, d1) \<Rightarrow> (Inr a, d1))"
  by (simp add: quiet_queue_call) (simp add: quiet_queue_def)

lemma quiet_queue_interference: "quiet_queue e \<Longrightarrow> queue_interference_ok D e"
  by (simp add: quiet_queue_def interferes_def)

definition held_by :: "db \<Rightarrow> job_item \<Rightarrow> string \<Rightarrow> bool" where
  "held_by d it worker \<longleftrightarrow> (\<exists>r \<in> set (db_items d). lease_guard (it_id it) worker r \<and> it_job_id r = it_job_id it)"

lemma held_open: "held_by d it worker \<Longrightarrow> open_or_settling d (it_job_id it)"
  by (auto simp: held_by_def open_or_settling_def lease_guard_def)

lemma finalize_open:
  assumes "inv d" and "quiet_queue e"
  shows "open_or_settling (pool_finalize_job e jid d) jid"
proof -
  have "\<exists>won d'. finalize_job (qe_now e) \<lparr>fj_job_id = jid, fj_status = JobStatusSettling, fj_finished_at = qe_now e\<rparr> d = Inr (won, d')"
    by (simp add: finalize_job_def Let_def)
  then show ?thesis
    using finalize_job_open[OF assms(1)] by (fastforce simp: pool_finalize_job_def quiet_finalize_call[OF assms(2)])
qed

text \<open>A write-back that puts the item back leaves it open.\<close>

lemma requeue_open:
  assumes "complete_item_failure now fp d = Inr ((), d1)" and "\<not> cf_terminal fp" and "held_by d it worker"
    and "cf_item_id fp = it_id it" and "cf_worker_id fp = worker"
  shows "open_or_settling d1 (it_job_id it)"
proof -
  from assms(3) obtain r where r: "r \<in> set (db_items d)" "lease_guard (it_id it) worker r" "it_job_id r = it_job_id it"
    by (auto simp: held_by_def)
  have "d1 = update_items (lease_guard (it_id it) worker) (requeue_item now fp) d"
    using assms(1,2,4,5) by (auto simp: complete_item_failure_def Let_def split: if_splits)
  moreover have "requeue_item now fp r \<in> set (upd (lease_guard (it_id it) worker) (requeue_item now fp) (db_items d))"
    using upd_mem[OF r(1), of "lease_guard (it_id it) worker" "requeue_item now fp"] r(2) by simp
  ultimately show ?thesis using r(3)
    by (auto simp: open_or_settling_def requeue_item_def intro!: disjI1 bexI[of _ "requeue_item now fp r"])
qed

text \<open>The two shapes of a write-back: with and without finalisation.\<close>

lemma finalized_open:
  assumes "inv d" and "quiet_queue e" and "held_by d it worker" and "\<And>a d1. f d = Inr (a, d1) \<Longrightarrow> inv d1"
  shows "open_or_settling (case queue_call e p f d of (Inl _, d1) \<Rightarrow> d1 | (Inr _, d1) \<Rightarrow> pool_finalize_job e (it_job_id it) d1)
      (it_job_id it)"
  using assms(4) held_open[OF assms(3)] finalize_open[OF _ assms(2)]
  by (auto simp: quiet_queue_call[OF assms(2)] split: option.split sum.split prod.split)

lemma requeued_open:
  assumes "quiet_queue e" and "held_by d it worker" and "\<not> cf_terminal fp" and "cf_item_id fp = it_id it" and "cf_worker_id fp = worker"
  shows "open_or_settling (snd (queue_call e p (complete_item_failure now fp) d)) (it_job_id it)"
  using requeue_open[OF _ assms(3,2,4,5)] held_open[OF assms(2)]
  by (auto simp: quiet_queue_call[OF assms(1)] split: option.split sum.split prod.split)

lemma unit_call_inv:
  "inv d \<Longrightarrow> complete_item_failure now fp d = Inr (u, d1) \<Longrightarrow> inv d1"
  "inv d \<Longrightarrow> complete_item_success now sp d = Inr (u, d1) \<Longrightarrow> inv d1"
  using inv_complete_item_failure[of d now fp d1] inv_complete_item_success[of d now sp d1] by simp_all

lemma fail_exhausted_open:
  "inv d \<Longrightarrow> quiet_queue e \<Longrightarrow> held_by d it worker \<Longrightarrow> open_or_settling (fail_exhausted_item e it worker up d) (it_job_id it)"
  unfolding fail_exhausted_item_def by (rule finalized_open) (auto intro: unit_call_inv)

lemma write_success_open:
  assumes "inv d" and "quiet_queue e" and "held_by d it worker"
  shows "open_or_settling (write_success e it worker result d) (it_job_id it)"
proof (cases result)
  case None
  then show ?thesis using held_open[OF assms(3)] by (simp add: write_success_def)
next
  case (Some r)
  show ?thesis unfolding write_success_def Some option.case
    by (rule finalized_open[OF assms]) (rule unit_call_inv(2)[OF assms(1)])
qed

lemma release_lease_open:
  assumes "inv d" and "quiet_queue e" and "held_by d it worker"
  shows "open_or_settling (release_lease e it worker d) (it_job_id it)"
  using fail_exhausted_open[OF assms] requeued_open[OF assms(2,3)] by (simp add: release_lease_def)

lemma write_failure_open:
  assumes "inv d" and "quiet_queue e" and "held_by d it worker"
  shows "open_or_settling (write_failure D e it worker cause d) (it_job_id it)"
proof (cases cause)
  case None
  then show ?thesis using held_open[OF assms(3)] by (simp add: write_failure_def)
next
  case (Some err)
  define fp where "fp = failure_params D e it worker err (classify cause (it_attempt_count it) (it_max_attempts it))"
  have fp: "cf_item_id fp = it_id it" "cf_worker_id fp = worker"
    by (simp_all add: fp_def failure_params_def Let_def split: prod.split)
  have w: "write_failure D e it worker cause d = (case queue_call e AtComplete (complete_item_failure (qe_now e) fp) d of
      (Inl _, d1) \<Rightarrow> d1 | (Inr _, d1) \<Rightarrow> if cf_terminal fp then pool_finalize_job e (it_job_id it) d1 else d1)"
    by (simp only: write_failure_def fp_def Some option.case Let_def)
  show ?thesis
  proof (cases "cf_terminal fp")
    case True
    show ?thesis unfolding w if_P[OF True] by (rule finalized_open[OF assms]) (rule unit_call_inv(1)[OF assms(1)])
  next
    case False
    have "write_failure D e it worker cause d = snd (queue_call e AtComplete (complete_item_failure (qe_now e) fp) d)"
      unfolding w if_not_P[OF False] by (simp split: prod.split sum.split)
    then show ?thesis using requeued_open[OF assms(2,3) False fp] by simp
  qed
qed

lemma held_same_items: "held_by d it worker \<Longrightarrow> db_items d' = db_items d \<Longrightarrow> held_by d' it worker"
  by (simp add: held_by_def)

lemma renew_ticks_held:
  assumes "quiet_queue e"
  shows "held_by d it worker \<Longrightarrow> renew_ticks e late n worker it d = (lost, d') \<Longrightarrow> held_by d' it worker"
proof (induction n arbitrary: d)
  case (Suc n)
  have keep: "held_by d1 it worker" if r: "renew_item_lease now (it_id it) worker l d = Inr ((), d1)" for now l d1
  proof -
    from Suc.prems(1) obtain r where h: "r \<in> set (db_items d)" "lease_guard (it_id it) worker r" "it_job_id r = it_job_id it"
      by (auto simp: held_by_def)
    obtain lease where "db_items d1 = upd (lease_guard (it_id it) worker)
        (\<lambda>i. i\<lparr>it_lease_expires_at := lease, it_updated_at := now\<rparr>) (db_items d)"
      using r by (auto simp: renew_item_lease_def split: if_splits)
    then show ?thesis
      using upd_mem[OF h(1), of "lease_guard (it_id it) worker" "\<lambda>i. i\<lparr>it_lease_expires_at := lease, it_updated_at := now\<rparr>"] h(2,3)
      unfolding held_by_def by (intro bexI[of _ "r\<lparr>it_lease_expires_at := lease, it_updated_at := now\<rparr>"]) (simp_all add: lease_guard_def)
  qed
  show ?case
  proof (cases "renew_item_lease (qe_now e) (it_id it) worker (wc_lease_for (qe_cfg e)) d")
    case (Inl err)
    then have "d' = d \<or> renew_ticks e late n worker it d = (lost, d')"
      using Suc.prems(2) by (auto simp: quiet_queue_call[OF assms] split: if_splits option.splits)
    then show ?thesis using Suc.prems(1) Suc.IH by blast
  next
    case (Inr x)
    then obtain d1 where r: "renew_item_lease (qe_now e) (it_id it) worker (wc_lease_for (qe_cfg e)) d = Inr ((), d1)"
      by (cases x) simp
    then have "renew_ticks e late n worker it d1 = (lost, d') \<or> d' = d \<or> renew_ticks e late n worker it d = (lost, d')"
      using Suc.prems(2) by (auto simp: quiet_queue_call[OF assms] split: if_splits option.splits)
    then show ?thesis using keep[OF r] Suc.prems(1) Suc.IH by blast
  qed
qed simp

lemma handle_item_open:
  assumes "decimal_ok D" and "inv d" and "quiet_queue e" and "held_by d it worker"
    and "handle_item D e worker it d = (effects, d')"
  shows "open_or_settling d' (it_job_id it)"
proof (cases "attempt_budget_exceeded (it_attempt_count it) (it_max_attempts it)")
  case True
  then show ?thesis using assms(5) fail_exhausted_open[OF assms(2-4)] by (auto simp: handle_item_def)
next
  case False
  note ok = quiet_queue_interference[OF assms(3), of D]
  let ?d0 = "pool_touch_heartbeat e [it_job_id it] d"
  obtain l1 d1 where 1: "renew_ticks e False (qe_early_ticks e) worker it ?d0 = (l1, d1)"
    by fastforce
  obtain r tr d2 where 2: "generate_item e it d1 = (r, tr, d2)" by (metis prod.exhaust)
  obtain l3 d3 where 3: "(if l1 then (True, d2) else renew_ticks e True (qe_late_ticks e) worker it d2) = (l3, d3)" by fastforce
  have "held_by ?d0 it worker"
    by (rule held_same_items[OF assms(4)]) (simp add: pool_touch_heartbeat_def quiet_queue_call[OF assms(3)] touch_job_heartbeat_def split: option.split)
  then have h1: "held_by d1 it worker" using renew_ticks_held[OF assms(3) _ 1] by blast
  have "db_items d2 = db_items d1"
  proof -
    have "db_items (start_running env j x) = db_items x" for env j x
      by (auto simp: start_running_def update_job_status_def Let_def split: sum.splits)
    moreover have "db_items (snd (snd (process_item env s j it x))) = db_items (start_running env j x)
        \<or> db_items (snd (snd (process_item env s j it x))) = db_items x" for env s j x
      using process_item_db[of env s j it x] by auto
    ultimately have "db_items (snd (snd (process_item env s j it x))) = db_items x" for env s j x by metis
    moreover have "qe_meanwhile e AtProcess x = x" for x using assms(3) by (simp add: quiet_queue_def)
    ultimately have keep: "db_items (snd (snd (process_item env s j it (qe_meanwhile e AtProcess x)))) = db_items x" for env s j x
      by simp
    from 2 have "d2 = d1 \<or> (\<exists>j. process_item (qe_worker e) (qe_settings e) j it (qe_meanwhile e AtProcess d1) = (r, tr, d2))"
      by (auto simp: generate_item_def quiet_queue_call[OF assms(3)] split: sum.splits option.splits)
    then show ?thesis using keep by (metis snd_conv)
  qed
  then have "held_by d2 it worker" by (rule held_same_items[OF h1])
  then have h3: "held_by d3 it worker" using 3 renew_ticks_held[OF assms(3)] by (auto split: if_splits)
  have "runs D {} d d3"
  proof -
    have "runs D {} d2 d3" using 3 renew_ticks_runs[OF ok] by (auto split: if_splits)
    with touch_runs[OF ok] renew_ticks_runs[OF ok 1] generate_item_runs[OF ok 2] show ?thesis by (meson runs_trans)
  qed
  then have i3: "inv d3" using runs_good(1) assms(1,2) by blast
  show ?thesis
    using assms(5) False 1 2 3 held_open[OF h3] release_lease_open[OF i3 assms(3) h3] write_failure_open[OF i3 assms(3) h3]
      write_success_open[OF i3 assms(3) h3]
    by (auto simp: handle_item_def split: sum.splits if_splits)
qed

section \<open>The guarantees\<close>

text \<open>C2: No attempt is charged twice. In every run of the system, with any number of workers, restarts,
  expired leases, retries and reaper sweeps, all calls of the gateway carry pairwise different
  billing ids, so the platform never charges two calls under one id and no bill is lost or merged.\<close>

theorem gateway_calls_billed_once:
  assumes "decimal_ok D" and "reachable D (d, seen)" and "charged_run D d calls d'"
  shows "distinct (map gr_billing_request_id calls)"
  using charged_once[OF assms(3,1) reachable_ok(1)[OF assms(2,1)]] .

text \<open>C1: The cost of an image is bounded. Along every run of the system the gateway is called for an
  item at most as often as the item has attempts, whoever makes the calls: a crash, a stale lease or
  a retry by the user never buys an extra call.\<close>

theorem item_calls_within_attempts:
  assumes "decimal_ok D" and "reachable D (d, seen)" and "charged_run D d calls d'"
    and "i \<in> set (db_items d')" and "j \<in> set (db_jobs d')" and "job_id j = it_job_id i"
  shows "int (length (filter (\<lambda>q. gr_job_uid q = job_uid j \<and> gr_seq q = it_seq i) calls))
     \<le> normalize_max_attempts (it_max_attempts i)"
  using charged_within_budget[OF assms(3,1) reachable_ok(1)[OF assms(2,1)] assms(4-6)] .

text \<open>C7: The loop of a worker implements this specification. Whatever the other processes do between its
  repository calls, whichever of them fail, whenever its lease is lost or the process is stopped,
  the loop is a charged run of the system with exactly the calls of the gateway it made, and it
  leaves a reachable state behind.\<close>

theorem worker_loop_refines_charged_run:
  assumes "reachable D (d, seen)" and "\<And>e. e \<in> set es \<Longrightarrow> interferes D (qe_meanwhile e)"
    and "run_item_worker D worker es d = (effects, d')"
  shows "charged_run D d (gateway_calls effects) d' \<and> (\<exists>seen'. reachable D (d', seen'))"
proof -
  have "runs D {} d d'" using assms(2,3) by (rule run_item_worker_runs)
  then have "\<exists>seen'. reachable D (d', seen')"
    using assms(1) unfolding runs_def reachable_def by (meson empty_subsetI rtranclp_trans)
  moreover have "charged_run D d (gateway_calls effects) d'" using assms(2,3) by (rule charged_loop)
  ultimately show ?thesis by blast
qed

text \<open>C8: No finished batch is left behind. When a worker has handled the item it holds, with whatever
  outcome, while no other process wrote to the database in between and whichever of its repository calls
  failed, the call of FinalizeJob excepted, and all items of the batch are then in a final status, then the
  batch is no longer waiting or running: it is settling or terminal.\<close>

theorem last_item_opens_settlement:
  assumes "decimal_ok D" and "reachable D (d, seen)" and "quiet_queue e"
    and "i \<in> set (db_items d)" and "it_status i = ItemStatusRunning" and "it_worker_id i = Some worker"
    and "handle_item D e worker i d = (effects, d')"
    and "\<forall>x \<in> set (db_items d'). it_job_id x = it_job_id i \<longrightarrow> item_is_terminal (it_status x)"
    and "j \<in> set (db_jobs d')" and "job_id j = it_job_id i"
  shows "job_status j = JobStatusSettling \<or> job_is_terminal (job_status j)"
proof -
  note inv = reachable_ok(1)[OF assms(2,1)]
  have "held_by d i worker" using assms(4-6) by (auto simp: held_by_def lease_guard_def)
  from handle_item_open[OF assms(1) inv assms(3) this assms(7)]
  have "job_status j \<notin> {JobStatusCreated, JobStatusHolding, JobStatusRunning}"
    using assms(8-10) by (auto simp: open_or_settling_def)
  moreover have "job_is_valid (job_status j)"
    using inv_job(2)[OF runs_good(1)[OF handle_item_runs[OF quiet_queue_interference[OF assms(3)] assms(7)] assms(1) inv] assms(9)]
    unfolding life_ok_def by blast
  ultimately show ?thesis by (cases "job_status j") (auto simp: job_is_valid_iff)
qed

section \<open>The guarantees on the demonstration batch\<close>

abbreviation running_batch :: job where
  "running_batch \<equiv> demo_job JobStatusRunning 0 0 (Some now0) None None None"

lemma demo_uid_valid: "validate_billing_request_id_parts sample_uid 1 1 = None"
  "validate_billing_request_id_parts sample_uid 2 1 = None"
  by (simp_all add: validate_parts_iff sample_uid_valid)

lemma demo_call:
  "\<exists>r tr req. process_item sample_env sample_settings running_batch (running_row 1) d = (r, tr, d)
     \<and> gateway_calls tr = [req] \<and> gr_job_uid req = sample_uid \<and> gr_seq req = 1"
proof -
  let ?j = running_batch and ?i = "running_row 1"
  obtain input where input: "resolve_image sample_env sample_settings ?j ?i = (Inr input, [])"
    by (simp add: resolve_image_def sample_env_def demo_job_def running_row_def demo_row_def Let_def)
  obtain b t2 where st: "store_images sample_env ?j ?i 1 (gx_images sample_result) = (b, t2)" by fastforce
  have f: "job_uid ?j = sample_uid" "it_seq ?i = 1" "it_attempt_count ?i = 1" "it_max_attempts ?i = 2"
    "job_cancel_requested_at ?j = None" "job_status ?j = JobStatusRunning"
    by (simp_all add: demo_job_def running_row_def demo_row_def)
  have "gateway_calls t2 = []" using no_gateway_calls store_images_no_gen[OF st] by blast
  moreover have "process_item sample_env sample_settings ?j ?i d =
      ((case b of Inl e \<Rightarrow> Inl e | Inr rows \<Rightarrow> Inr \<lparr>ir_images = rows,
          ir_stored_billing_request_id = stored_billing_request_id sample_uid 1 1\<rparr>),
       Generated (generate_request_of sample_settings ?j ?i input) # t2, d)"
    using st f by (cases b) (simp_all add: process_item_def Let_def attempt_budget_exceeded_def normalize_max_attempts_def
        is_stop_requested_def start_running_def sample_fields demo_uid_valid input sample_result_def)
  ultimately show ?thesis using f by (auto simp: generate_request_of_def)
qed

lemma demo_charged_run:
  "\<exists>req. charged_run dec_ref demo_running [req] demo_claimed \<and> gr_job_uid req = sample_uid \<and> gr_seq req = 1"
proof -
  from demo_call[of demo_claimed] obtain r tr req where p: "process_item sample_env sample_settings running_batch (running_row 1) demo_claimed = (r, tr, demo_claimed)"
    "gateway_calls tr = [req]" "gr_job_uid req = sample_uid" "gr_seq req = 1" by blast
  have "running_batch \<in> set (db_jobs demo_claimed)" "job_id running_batch = it_job_id (running_row 1)"
    by (simp_all add: demo_claimed_def demo_db_def demo_job_def running_row_def demo_row_def)
  then have "worker_calls dec_ref demo_claimed (running_row 1) [req]"
    unfolding worker_calls_def using p(1,2) runs_refl by (metis)
  from charged_worker[OF run_claim this charged_nothing] p(3,4) show ?thesis by auto
qed

theorem gateway_calls_billed_once_witness:
  "\<exists>req. charged_run dec_ref demo_running [req] demo_claimed \<and> distinct (map gr_billing_request_id [req])"
  using demo_charged_run gateway_calls_billed_once[OF dec_ref_ok reachable_demo_running] by blast

theorem item_calls_within_attempts_witness:
  "\<exists>req. charged_run dec_ref demo_running [req] demo_claimed
     \<and> int (length (filter (\<lambda>q. gr_job_uid q = sample_uid \<and> gr_seq q = 1) [req])) \<le> 2"
proof -
  obtain req where c: "charged_run dec_ref demo_running [req] demo_claimed" using demo_charged_run by blast
  have "running_row 1 \<in> set (db_items demo_claimed)" "running_batch \<in> set (db_jobs demo_claimed)"
    "job_id running_batch = it_job_id (running_row 1)"
    by (simp_all add: demo_claimed_def demo_db_def demo_job_def running_row_def demo_row_def)
  from item_calls_within_attempts[OF dec_ref_ok reachable_demo_running c this] c show ?thesis
    by (auto simp: demo_job_def running_row_def demo_row_def normalize_max_attempts_def)
qed

text \<open>A round in which the gateway rejects the second image for its content.\<close>

definition reject_error :: go_error where
  "reject_error = ItemError (DesignkitError ErrCodeContentBlocked ''blocked'' 400 ''blocked'' None) False"

definition reject_env :: queue_env where
  "reject_env = \<lparr>qe_cfg = zero_config, qe_settings = sample_settings,
     qe_worker = sample_env\<lparr>we_generate := (\<lambda>req. Inl reject_error)\<rparr>,
     qe_now = now0, qe_locked = (\<lambda>x. False), qe_cancelled = False, qe_stopping = False, qe_early_ticks = 0,
     qe_late_ticks = 0, qe_meanwhile = (\<lambda>p d. d), qe_fails = (\<lambda>p. None)\<rparr>"

lemma reject_quiet: "quiet_queue reject_env"
  by (simp add: quiet_queue_def reject_env_def)

theorem worker_loop_refines_charged_run_witness:
  "\<exists>effects d'. run_item_worker dec_ref ''w1'' [reject_env] demo_running = (effects, d')
     \<and> charged_run dec_ref demo_running (gateway_calls effects) d'"
proof -
  obtain effects d' where r: "run_item_worker dec_ref ''w1'' [reject_env] demo_running = (effects, d')" by fastforce
  have "\<And>e. e \<in> set [reject_env] \<Longrightarrow> interferes dec_ref (qe_meanwhile e)"
    using quiet_queue_interference[OF reject_quiet] by simp
  from worker_loop_refines_charged_run[OF reachable_demo_running this r] r show ?thesis by blast
qed

lemma reject_process:
  "\<exists>req. process_item (qe_worker reject_env) (qe_settings reject_env) (demo_job JobStatusRunning 1 0 (Some now0) None None None)
       (running_row 2) d = (Inl reject_error, [Generated req], d)"
proof -
  let ?j = "demo_job JobStatusRunning 1 0 (Some now0) None None None" and ?i = "running_row 2"
  let ?w = "sample_env\<lparr>we_generate := (\<lambda>req. Inl reject_error)\<rparr>"
  obtain input where input: "resolve_image ?w sample_settings ?j ?i = (Inr input, [])"
    by (simp add: resolve_image_def sample_env_def demo_job_def running_row_def demo_row_def Let_def)
  have f: "job_uid ?j = sample_uid" "it_seq ?i = 2" "it_attempt_count ?i = 1" "it_max_attempts ?i = 2"
    "job_cancel_requested_at ?j = None" "job_status ?j = JobStatusRunning"
    by (simp_all add: demo_job_def running_row_def demo_row_def)
  have "process_item ?w sample_settings ?j ?i d =
      (Inl reject_error, [Generated (generate_request_of sample_settings ?j ?i input)], d)"
    by (simp add: process_item_def Let_def attempt_budget_exceeded_def normalize_max_attempts_def
        is_stop_requested_def start_running_def demo_uid_valid input f)
  then show ?thesis by (simp add: reject_env_def)
qed

lemma reject_classified:
  "\<exists>x. classify (Some reject_error) a m = (Some x, True)" "errors_is reject_error ContextCanceled = False"
  by (simp_all add: classify_def Let_def reject_error_def)

lemma reject_failed:
  "complete_item_failure now0 \<lparr>cf_item_id = 2, cf_worker_id = ''w1'', cf_error_code = code, cf_error_message = text,
     cf_terminal = True, cf_retry_after = n, cf_finished_at = now0\<rparr> demo_claimed2 =
     Inr ((), demo_db (demo_job JobStatusRunning 1 1 (Some now0) None None None) done_row
       (fail_item now0 now0 \<lparr>cf_item_id = 2, cf_worker_id = ''w1'', cf_error_code = code, cf_error_message = text,
         cf_terminal = True, cf_retry_after = n, cf_finished_at = now0\<rparr> (running_row 2)) demo_images (demo_hold 6 HoldStatusOpen))"
  by (simp add: complete_item_failure_def lease_guard_def update_items_def update_jobs_def demo_states demo_rows upd_def Let_def)

lemma reject_round:
  "\<exists>effects d'. handle_item dec_ref reject_env ''w1'' (running_row 2) demo_claimed2 = (effects, d')
     \<and> (\<forall>x \<in> set (db_items d'). item_is_terminal (it_status x)) \<and> map job_id (db_jobs d') = [1]"
proof -
  let ?j = "demo_job JobStatusRunning 1 0 (Some now0) None None None" and ?i = "running_row 2"
  have "qe_fails reject_env p = None" for p by (simp add: reject_env_def)
  note call = quiet_queue_call[OF reject_quiet, unfolded this option.case]
  have f: "it_attempt_count ?i = 1" "it_max_attempts ?i = 2" "it_job_id ?i = 1" "it_id ?i = 2" "it_seq ?i = 2"
    by (simp_all add: running_row_def demo_row_def)
  have env: "qe_early_ticks reject_env = 0" "qe_late_ticks reject_env = 0" "qe_now reject_env = now0"
    "qe_stopping reject_env = False" "qe_meanwhile reject_env p x = x" for p x
    by (simp_all add: reject_env_def)
  have touched: "pool_touch_heartbeat reject_env [1] demo_claimed2 = demo_claimed2"
    by (simp add: pool_touch_heartbeat_def call env touch_job_heartbeat_def update_jobs_def upd_def demo_claimed2_def demo_db_def demo_job_def)
  have job: "get_job_by_id demo_claimed2 1 = Inr ?j"
    by (simp add: get_job_by_id_def the_job_def demo_claimed2_def demo_db_def demo_job_def)
  obtain req where p: "process_item (qe_worker reject_env) (qe_settings reject_env) ?j ?i demo_claimed2 = (Inl reject_error, [Generated req], demo_claimed2)"
    using reject_process by blast
  obtain x where c: "classify (Some reject_error) 1 2 = (Some x, True)" using reject_classified by blast
  define d1 where "d1 = snd (queue_call reject_env AtComplete (complete_item_failure now0
      (failure_params dec_ref reject_env ?i ''w1'' reject_error (Some x, True))) demo_claimed2)"
  define d' where "d' = write_failure dec_ref reject_env ?i ''w1'' (Some reject_error) demo_claimed2"
  have h: "handle_item dec_ref reject_env ''w1'' ?i demo_claimed2 = ([Generated req], d')"
    by (simp add: handle_item_def f env touched generate_item_def call job p d'_def attempt_budget_exceeded_def normalize_max_attempts_def)
  have "(\<forall>x \<in> set (db_items d'). item_is_terminal (it_status x)) \<and> map job_id (db_jobs d') = [1]"
    by (simp add: d'_def write_failure_def f c failure_params_def call env reject_failed Let_def pool_finalize_job_def
        finalize_job_def update_jobs_def demo_db_def done_row_def demo_row_def fail_item_def demo_job_def map_upd)
  with h show ?thesis by (intro exI) (rule conjI)
qed

theorem last_item_opens_settlement_witness:
  "\<exists>effects d' j. handle_item dec_ref reject_env ''w1'' (running_row 2) demo_claimed2 = (effects, d')
     \<and> db_jobs d' = [j] \<and> (job_status j = JobStatusSettling \<or> job_is_terminal (job_status j))"
proof -
  obtain effects d' where h: "handle_item dec_ref reject_env ''w1'' (running_row 2) demo_claimed2 = (effects, d')"
    "\<forall>x \<in> set (db_items d'). item_is_terminal (it_status x)" "map job_id (db_jobs d') = [1]"
    using reject_round by (elim exE conjE) (rule that)
  from h(3) obtain j where j: "db_jobs d' = [j]" "job_id j = 1" by auto
  have r: "running_row 2 \<in> set (db_items demo_claimed2)" "it_status (running_row 2) = ItemStatusRunning"
    "it_worker_id (running_row 2) = Some ''w1''" "it_job_id (running_row 2) = 1"
    by (simp_all add: demo_claimed2_def demo_db_def running_row_def demo_row_def)
  have "job_status j = JobStatusSettling \<or> job_is_terminal (job_status j)"
    using last_item_opens_settlement[OF dec_ref_ok reachable_demo_claimed2 reject_quiet r(1-3) h(1)] h(2) j r(4) by simp
  with h(1) j(1) show ?thesis by blast
qed

end
