(* ===== verification/Settings.thy ===== *)
theory Settings
  imports Ratio Worker_Policy
begin

text \<open>
  The settings table as the services read it. A setting is a JSON value, since its column is JSONB;
  a service reads it with \<open>settingRaw\<close>, which hides a missing or unreadable setting, and falls back
  to a default. The ratios are read alike by the batch service and the asset service.
\<close>

datatype json = JNull | JBool bool | JNumber string | JString string | JArray "json list" | JObject "(string \<times> json) list"

text \<open>\<open>json.Unmarshal\<close> into a string, an int, a list of strings and a map of strings; \<open>null\<close> leaves the
  zero value.\<close>

fun unmarshal_string :: "json \<Rightarrow> string option" where
  "unmarshal_string JNull = Some []"
| "unmarshal_string (JString s) = Some s"
| "unmarshal_string v = None"

fun unmarshal_int :: "json \<Rightarrow> int option" where
  "unmarshal_int JNull = Some 0"
| "unmarshal_int (JNumber t) = json_int t"
| "unmarshal_int v = None"

fun unmarshal_all :: "json list \<Rightarrow> string list option" where
  "unmarshal_all [] = Some []"
| "unmarshal_all (v # vs) =
     (case (unmarshal_string v, unmarshal_all vs) of (Some s, Some ss) \<Rightarrow> Some (s # ss) | _ \<Rightarrow> None)"

fun unmarshal_strings :: "json \<Rightarrow> string list option" where
  "unmarshal_strings JNull = Some []"
| "unmarshal_strings (JArray vs) = unmarshal_all vs"
| "unmarshal_strings v = None"

fun unmarshal_table :: "json \<Rightarrow> (string \<times> string) list option" where
  "unmarshal_table JNull = Some []"
| "unmarshal_table (JObject kvs) =
     (case unmarshal_all (map snd kvs) of None \<Rightarrow> None | Some vs \<Rightarrow> Some (zip (map fst kvs) vs))"
| "unmarshal_table v = None"

definition setting_key_ratios :: string where "setting_key_ratios = ''ratios''"

text \<open>The setting reads of one operation; each key is read at most once.\<close>

type_synonym settings = "string \<Rightarrow> go_error + json option"

definition setting_raw :: "settings \<Rightarrow> string \<Rightarrow> json option" where
  "setting_raw get key = (case get key of Inl _ \<Rightarrow> None | Inr v \<Rightarrow> v)"

fun parse_ratios :: "string list \<Rightarrow> ratio list" where
  "parse_ratios [] = []"
| "parse_ratios (v # vs) = (case parse_ratio v of Inl _ \<Rightarrow> parse_ratios vs | Inr r \<Rightarrow> r # parse_ratios vs)"

definition allowed_ratios :: "settings \<Rightarrow> ratio list" where
  "allowed_ratios get =
     (case setting_raw get setting_key_ratios of
        None \<Rightarrow> default_ratios
      | Some raw \<Rightarrow>
        (case unmarshal_strings raw of
           None \<Rightarrow> default_ratios
         | Some values \<Rightarrow> (let out = parse_ratios values in if out = [] then default_ratios else out)))"

end
