(* ===== verification/Job_Service.thy ===== *)
theory Job_Service
  imports Settings Image_Pipeline Billing_Repo Repo_Call
begin

text \<open>
  The batch service: \<open>backend/internal/designkit/service/job.go\<close>, \<open>job_create.go\<close> and
  \<open>job_query.go\<close>. It quotes and submits a batch, moves it into the queue, reads it for its owner,
  stops, deletes and retries.

  Repository calls that change or read the job tables happen at a \<open>service_point\<close> of the
  environment. The settings, the assets, the prompts and the internal keys are read through the
  environment as well: it holds what each read returns. Log lines are left out.
\<close>

section \<open>Settings\<close>

definition setting_key_unit_prices :: string where "setting_key_unit_prices = ''unit_prices''"
definition setting_key_rate_multiplier :: string where "setting_key_rate_multiplier = ''rate_multiplier''"
definition setting_key_model :: string where "setting_key_model = ''model''"
definition setting_key_max_batch_items :: string where "setting_key_max_batch_items = ''max_batch_items''"
definition setting_key_admin_contact :: string where "setting_key_admin_contact = ''admin_contact''"
definition job_pricing_snapshot_version :: int where "job_pricing_snapshot_version = 1"
definition job_price_source_settings :: string where "job_price_source_settings = ''designkit_settings''"
definition job_default_list_limit :: int where "job_default_list_limit = 20"
definition job_max_list_limit :: int where "job_max_list_limit = 100"
definition job_min_batch_items :: int where "job_min_batch_items = 1"
definition job_max_batch_items_limit :: int where "job_max_batch_items_limit = 500"

definition max_dimension_setting :: "settings \<Rightarrow> int" where
  "max_dimension_setting get =
     (case setting_raw get setting_key_max_dimension of
        None \<Rightarrow> default_max_dimension
      | Some raw \<Rightarrow>
        (case unmarshal_int raw of
           None \<Rightarrow> default_max_dimension
         | Some v \<Rightarrow> if v \<le> 0 then default_max_dimension else v))"

definition max_batch_items :: "settings \<Rightarrow> int" where
  "max_batch_items get =
     (case setting_raw get setting_key_max_batch_items of
        None \<Rightarrow> default_max_batch_items
      | Some raw \<Rightarrow>
        (case unmarshal_int raw of
           None \<Rightarrow> default_max_batch_items
         | Some v \<Rightarrow>
           if v < job_min_batch_items then job_min_batch_items
           else if v > job_max_batch_items_limit then job_max_batch_items_limit
           else v))"

definition default_model_setting :: "settings \<Rightarrow> string" where
  "default_model_setting get =
     (case setting_raw get setting_key_model of
        None \<Rightarrow> default_model
      | Some raw \<Rightarrow>
        (case unmarshal_string raw of
           None \<Rightarrow> default_model
         | Some v \<Rightarrow> if trim_space v = [] then default_model else trim_space v))"

definition admin_contact :: "settings \<Rightarrow> string" where
  "admin_contact get =
     (case setting_raw get setting_key_admin_contact of
        None \<Rightarrow> []
      | Some raw \<Rightarrow> (case unmarshal_string raw of None \<Rightarrow> [] | Some v \<Rightarrow> trim_space v))"

section \<open>Prices\<close>

definition unit_price_table :: "settings \<Rightarrow> (string \<times> string) list option" where
  "unit_price_table get =
     (case setting_raw get setting_key_unit_prices of
        None \<Rightarrow> None
      | Some raw \<Rightarrow>
        (case unmarshal_table raw of
           None \<Rightarrow> None
         | Some table \<Rightarrow> if table = [] then None else Some table))"

text \<open>The text of the value without surrounding quotes; other values are no amounts.\<close>

definition rate_multiplier :: "decimal_lib \<Rightarrow> settings \<Rightarrow> multiplier option" where
  "rate_multiplier D get =
     (case setting_raw get setting_key_rate_multiplier of
        None \<Rightarrow> None
      | Some raw \<Rightarrow>
        (case (case raw of JNumber t \<Rightarrow> Some t | JString s \<Rightarrow> Some (trim_space s) | _ \<Rightarrow> None) of
           None \<Rightarrow> None
         | Some text \<Rightarrow>
           (case money_from_string D text of
              None \<Rightarrow> None
            | Some value \<Rightarrow> if value < 0 \<or> value = 0 then None else Some value)))"

record job_pricing =
  jp_tier :: string
  jp_unit_price :: "money option"
  jp_multiplier :: multiplier
  jp_source :: string
  jp_billing_mode :: string

definition cost_of :: "decimal_lib \<Rightarrow> job_pricing \<Rightarrow> int \<Rightarrow> money" where
  "cost_of D p count =
     (case jp_unit_price p of
        None \<Rightarrow> 0
      | Some unit \<Rightarrow>
        if count \<le> 0 then 0 else quantize_money D (unit * money_from_int count * jp_multiplier p))"

definition resolve_pricing :: "decimal_lib \<Rightarrow> settings \<Rightarrow> ratio \<Rightarrow> job_pricing" where
  "resolve_pricing D get r =
     (let tier = (case Ratio.target_size r (max_dimension_setting get) of
                    Inl _ \<Rightarrow> ''2K'' | Inr (w, h) \<Rightarrow> classify_billing_tier_or_default w h);
          mult = (case rate_multiplier D get of None \<Rightarrow> multiplier_from_float D (FFin 1) | Some m \<Rightarrow> m);
          pending = \<lparr>jp_tier = tier, jp_unit_price = None, jp_multiplier = mult, jp_source = [], jp_billing_mode = []\<rparr>
      in case unit_price_table get of
           None \<Rightarrow> pending
         | Some table \<Rightarrow>
           (case map_of table tier of
              None \<Rightarrow> pending
            | Some raw \<Rightarrow>
              (case money_from_string D (trim_space raw) of
                 None \<Rightarrow> pending
               | Some price \<Rightarrow>
                 if price < 0 then pending
                 else pending\<lparr>jp_unit_price := Some price, jp_source := job_price_source_settings,
                              jp_billing_mode := ''image''\<rparr>)))"

section \<open>Errors\<close>

fun join_ratios :: "ratio list \<Rightarrow> string" where
  "join_ratios [] = []"
| "join_ratios [r] = r"
| "join_ratios (r # rs) = r @ bytes [227, 128, 129] @ join_ratios rs"

definition check_ratio :: "settings \<Rightarrow> ratio \<Rightarrow> go_error option" where
  "check_ratio get r =
     (let allowed = allowed_ratios get
      in case validate_ratio r allowed of
           None \<Rightarrow> None
         | Some err \<Rightarrow>
           Some (Dk (with_cause (with_message (new_error ErrCodeRatioNotAllowed)
             (bytes [228, 184, 141, 230, 148, 175, 230, 140, 129, 32] @ go_quote r @
              bytes [32, 232, 191, 153, 228, 184, 170, 229, 135, 186, 229, 155, 190, 230, 175, 148, 228, 190,
        139, 239, 188, 140, 232, 175, 183, 228, 187, 142, 32] @
              join_ratios allowed @
              bytes [32, 233, 135, 140, 233, 128, 137, 228, 184, 128, 228, 184, 170, 227, 128, 130])) err)))"

definition insufficient_balance_error :: "decimal_lib \<Rightarrow> money \<times> money \<times> money \<Rightarrow> string \<Rightarrow> go_error" where
  "insufficient_balance_error D short contact =
     (case short of (required, available, shortfall) \<Rightarrow>
        Dk (with_cause (with_message (new_error ErrCodeInsufficientBalance)
          (bytes [228, 189, 153, 233, 162, 157, 228, 184, 141, 232, 182, 179, 239, 188, 140, 232, 191, 152,
        229, 183, 174, 32] @
           format_money_usd D shortfall @
           bytes [227, 128, 130, 229, 143, 175, 228, 187, 165, 231, 130, 185, 227, 128, 140, 231, 148, 179,
        232, 175, 183, 233, 162, 157, 229, 186, 166, 227, 128, 141, 233, 128, 154, 231, 159, 165,
        231, 174, 161, 231, 144, 134, 229, 145, 152, 239, 188, 140, 230, 136, 150, 232, 128, 133,
        229, 176, 145, 233, 128, 137, 229, 135, 160, 229, 188, 160, 229, 134, 141, 230, 143, 144,
        228, 186, 164, 227, 128, 130] @
           (if contact \<noteq> [] then bytes [231, 174, 161, 231, 144, 134, 229, 145, 152, 232, 129, 148, 231, 179, 187, 230, 150, 185,
        229, 188, 143, 239, 188, 154] @ contact @ bytes [227, 128, 130] else [])))
          (InsufficientBalanceError required available shortfall)))"

definition map_job_repo_error :: "decimal_lib \<Rightarrow> go_error \<Rightarrow> string \<Rightarrow> go_error" where
  "map_job_repo_error D err not_found_code =
     (case as_designkit_error err of
        Some d \<Rightarrow> Dk d
      | None \<Rightarrow>
        (case as_insufficient err of
           Some short \<Rightarrow> insufficient_balance_error D short []
         | None \<Rightarrow>
           if errors_is err ErrNotFound then Dk (with_cause (new_error not_found_code) err)
           else if errors_is err ErrIllegalTransition \<or> errors_is err ErrConflict
             then Dk (with_cause (new_error ErrCodeIllegalStateTransition) err)
           else if errors_is err ErrInsufficientBalance
             then Dk (with_cause (new_error ErrCodeInsufficientBalance) err)
           else Dk (with_cause (new_error ErrCodeInternal) err)))"

definition map_create_error :: "decimal_lib \<Rightarrow> settings \<Rightarrow> go_error \<Rightarrow> go_error" where
  "map_create_error D get err =
     (case as_insufficient err of
        Some short \<Rightarrow> insufficient_balance_error D short (admin_contact get)
      | None \<Rightarrow> map_job_repo_error D err ErrCodeUnauthorized)"

section \<open>What the service gets\<close>

datatype prompt_source = PromptSourceYouMind | PromptSourceUser | PromptSourceOther string

record prompt_variable =
  pv_name :: string
  pv_example :: string

record prompt =
  pm_id :: int
  pm_uid :: string
  pm_category_id :: "int option"
  pm_title :: string
  pm_body :: string
  pm_variables :: "prompt_variable list"
  pm_preview_url :: "string option"
  pm_source :: prompt_source
  pm_source_ref :: "string option"
  pm_owner_user_id :: "int option"
  pm_is_enabled :: bool
  pm_created_at :: time
  pm_updated_at :: time
  pm_deleted_at :: "time option"

record job_spec =
  sp_user_id :: int
  sp_origin :: origin
  sp_ratio :: ratio
  sp_asset_uids :: "string list"
  sp_prompt_uids :: "string list"
  sp_prompt_texts :: "string list"
  sp_model :: string
  sp_keep_transparency :: bool

record create_job_input =
  ci_spec :: job_spec
  ci_name :: string
  ci_callback_url :: string
  ci_idempotency_key :: string
  ci_api_key_id :: int

datatype service_point =
    AtCreateJob | AtStart job_status | AtReread | AtReleaseHold | AtClearKey | AtAbandon | AtRead | AtReadAgain
  | AtListItemsOf int | AtItemBySeq int int | AtImages int | AtListJobsOf | AtStopJob | AtFinishStop | AtDelete
  | AtRetry | AtBalances

record service_env =
  sv_now :: time
  sv_uid :: string
  sv_settings :: settings
  sv_asset :: "int \<Rightarrow> string \<Rightarrow> go_error + asset option"
  sv_prompt :: "string \<Rightarrow> go_error + prompt option"
  sv_keys :: "(int \<Rightarrow> go_error + int option) option"
  sv_store :: "(string \<Rightarrow> go_error + string \<times> string) option"
  sv_meanwhile :: "service_point \<Rightarrow> db \<Rightarrow> db"
  sv_fails :: "service_point \<Rightarrow> go_error option"

definition service_call :: "service_env \<Rightarrow> service_point \<Rightarrow> (db \<Rightarrow> go_error + 'a \<times> db) \<Rightarrow> db \<Rightarrow> (go_error + 'a) \<times> db" where
  "service_call e = repo_call (sv_meanwhile e) (sv_fails e)"

text \<open>A read, which changes nothing.\<close>

definition reading :: "(db \<Rightarrow> go_error + 'a) \<Rightarrow> db \<Rightarrow> go_error + 'a \<times> db" where
  "reading f d = (case f d of Inl err \<Rightarrow> Inl err | Inr a \<Rightarrow> Inr (a, d))"

fun trim_non_empty :: "string list \<Rightarrow> string list" where
  "trim_non_empty [] = []"
| "trim_non_empty (v # vs) = (if trim_space v \<noteq> [] then trim_space v # trim_non_empty vs else trim_non_empty vs)"

definition optional_string :: "string \<Rightarrow> string option" where
  "optional_string v = (if trim_space v = [] then None else Some (trim_space v))"

section \<open>The plan of a batch\<close>

definition invalid_request :: "string \<Rightarrow> go_error" where
  "invalid_request message = Dk (with_message (new_error ErrCodeInvalidRequest) message)"

fun plan_assets :: "decimal_lib \<Rightarrow> service_env \<Rightarrow> int \<Rightarrow> string list \<Rightarrow> go_error + int list" where
  "plan_assets D e user_id [] = Inr []"
| "plan_assets D e user_id (uid # uids) =
     (case sv_asset e user_id uid of
        Inl err \<Rightarrow> Inl (map_job_repo_error D err ErrCodeAssetNotFound)
      | Inr None \<Rightarrow> Inl (Dk (new_error ErrCodeAssetNotFound))
      | Inr (Some a) \<Rightarrow>
        (case plan_assets D e user_id uids of Inl err \<Rightarrow> Inl err | Inr ids \<Rightarrow> Inr (as_id a # ids)))"

definition foreign_prompt :: "int \<Rightarrow> prompt \<Rightarrow> bool" where
  "foreign_prompt user_id p \<longleftrightarrow> pm_source p = PromptSourceUser
     \<and> (case pm_owner_user_id p of None \<Rightarrow> True | Some owner \<Rightarrow> owner \<noteq> user_id)"

fun plan_prompts :: "decimal_lib \<Rightarrow> service_env \<Rightarrow> int \<Rightarrow> string list \<Rightarrow> go_error + (int option \<times> string) list" where
  "plan_prompts D e user_id [] = Inr []"
| "plan_prompts D e user_id (uid # uids) =
     (case sv_prompt e uid of
        Inl err \<Rightarrow> Inl (map_job_repo_error D err ErrCodePromptNotFound)
      | Inr None \<Rightarrow> Inl (Dk (new_error ErrCodePromptNotFound))
      | Inr (Some p) \<Rightarrow>
        if foreign_prompt user_id p then Inl (Dk (new_error ErrCodePromptNotFound))
        else if trim_space (pm_body p) = [] then Inl (invalid_request
          (bytes [231, 129, 181, 230, 132, 159, 229, 186, 147, 233, 135, 140, 232, 191, 153, 230, 157, 161,
        230, 143, 144, 231, 164, 186, 232, 175, 141, 239, 188, 136] @ pm_uid p @
           bytes [239, 188, 137, 231, 154, 132, 230, 173, 163, 230, 150, 135, 230, 152, 175, 231, 169, 186,
        231, 154, 132, 239, 188, 140, 229, 135, 186, 228, 184, 141, 228, 186, 134, 229, 155, 190,
        239, 188, 140, 232, 175, 183, 230, 141, 162, 228, 184, 128, 230, 157, 161, 227, 128, 130]))
        else (case plan_prompts D e user_id uids of
                Inl err \<Rightarrow> Inl err | Inr ps \<Rightarrow> Inr ((Some (pm_id p), trim_space (pm_body p)) # ps)))"

text \<open>The two loops of the expansion, with the running sequence number.\<close>

fun expand_prompts :: "int \<Rightarrow> (int option \<times> string) list \<Rightarrow> int \<Rightarrow> create_job_item_params list" where
  "expand_prompts asset_id [] seq = []"
| "expand_prompts asset_id (p # ps) seq =
     \<lparr>cji_seq = seq, cji_asset_id = Some asset_id, cji_variant_id = None, cji_prompt_id = fst p,
      cji_prompt_text = snd p, cji_max_attempts = default_max_attempts\<rparr> # expand_prompts asset_id ps (seq + 1)"

fun expand_items :: "int list \<Rightarrow> (int option \<times> string) list \<Rightarrow> int \<Rightarrow> create_job_item_params list" where
  "expand_items [] prompts seq = []"
| "expand_items (a # as) prompts seq =
     expand_prompts a prompts seq @ expand_items as prompts (seq + int (length prompts))"

record job_plan =
  pl_items :: "create_job_item_params list"
  pl_asset_count :: int
  pl_prompt_count :: int
  pl_pricing :: job_pricing
  pl_model :: string

definition too_large_message :: "int \<Rightarrow> int \<Rightarrow> int \<Rightarrow> int \<Rightarrow> string" where
  "too_large_message count assets prompts limit =
     bytes [232, 191, 153, 228, 184, 128, 230, 137, 185, 232, 166, 129, 229, 135, 186, 32] @ itoa count @ bytes [32, 229, 188, 160, 239, 188, 136] @ itoa assets @
     bytes [32, 229, 188, 160, 229, 149, 134, 229, 147, 129, 229, 155, 190, 32, 195, 151, 32] @ itoa prompts @
     bytes [32, 230, 157, 161, 230, 143, 144, 231, 164, 186, 232, 175, 141, 239, 188, 137, 239, 188,
        140, 232, 182, 133, 232, 191, 135, 229, 141, 149, 230, 172, 161, 228, 184, 138, 233, 153,
        144, 32] @ itoa limit @
     bytes [32, 229, 188, 160, 239, 188, 140, 232, 175, 183, 229, 176, 145, 233, 128, 137, 229, 135,
        160, 229, 188, 160, 229, 134, 141, 230, 143, 144, 228, 186, 164, 227, 128, 130]"

definition build_plan :: "decimal_lib \<Rightarrow> service_env \<Rightarrow> job_spec \<Rightarrow> go_error + job_plan" where
  "build_plan D e spec =
     (case check_ratio (sv_settings e) (sp_ratio spec) of
        Some err \<Rightarrow> Inl err
      | None \<Rightarrow>
        let asset_uids = trim_non_empty (sp_asset_uids spec);
            prompt_uids = trim_non_empty (sp_prompt_uids spec);
            prompt_texts = trim_non_empty (sp_prompt_texts spec);
            prompt_count = int (length prompt_uids + length prompt_texts);
            item_count = int (length asset_uids) * prompt_count;
            limit = max_batch_items (sv_settings e)
        in if asset_uids = [] then Inl (invalid_request
             (bytes [232, 175, 183, 232, 135, 179, 229, 176, 145, 233, 128, 137, 230, 139, 169, 228, 184, 128,
        229, 188, 160, 229, 149, 134, 229, 147, 129, 229, 155, 190, 227, 128, 130]))
           else if prompt_uids = [] \<and> prompt_texts = [] then Inl (invalid_request
             (bytes [232, 175, 183, 232, 135, 179, 229, 176, 145, 233, 128, 137, 230, 139, 169, 228, 184, 128,
        230, 157, 161, 230, 143, 144, 231, 164, 186, 232, 175, 141, 239, 188, 140, 230, 136, 150,
        232, 128, 133, 232, 135, 170, 229, 183, 177, 229, 134, 153, 228, 184, 128, 230, 157, 161,
        227, 128, 130]))
           else if item_count > limit then
             Inl (Dk (with_message (new_error ErrCodeBatchTooLarge)
               (too_large_message item_count (int (length asset_uids)) prompt_count limit)))
           else
             (case plan_assets D e (sp_user_id spec) asset_uids of
                Inl err \<Rightarrow> Inl err
              | Inr asset_ids \<Rightarrow>
                (case plan_prompts D e (sp_user_id spec) prompt_uids of
                   Inl err \<Rightarrow> Inl err
                 | Inr library \<Rightarrow>
                   (let prompts = library @ map (\<lambda>t. (None, t)) prompt_texts
                    in Inr \<lparr>pl_items = expand_items asset_ids prompts 1,
                           pl_asset_count = int (length asset_ids), pl_prompt_count = int (length prompts),
                           pl_pricing = resolve_pricing D (sv_settings e) (sp_ratio spec),
                           pl_model = (if trim_space (sp_model spec) = [] then default_model_setting (sv_settings e)
                                       else trim_space (sp_model spec))\<rparr>))))"

section \<open>Submitting\<close>

definition resolve_api_key_id :: "service_env \<Rightarrow> create_job_input \<Rightarrow> go_error + int" where
  "resolve_api_key_id e inp =
     (if ci_api_key_id inp > 0 then Inr (ci_api_key_id inp)
      else case sv_keys e of
          None \<Rightarrow> Inl (Dk (with_cause (new_error ErrCodeAPIKeyMissing) (Opaque
             (bytes [100, 101, 115, 105, 103, 110, 107, 105, 116, 58, 32, 229, 134, 133, 233, 131, 168, 228,
        184, 147, 231, 148, 168, 32, 65, 80, 73, 32, 75, 101, 121, 32, 230, 156, 141, 229, 138,
        161, 230, 178, 161, 230, 156, 137, 232, 163, 133, 233, 133, 141]))))
        | Some ensure \<Rightarrow>
          (case ensure (sp_user_id (ci_spec inp)) of
             Inl err \<Rightarrow> Inl err
           | Inr None \<Rightarrow> Inl (Dk (new_error ErrCodeAPIKeyMissing))
           | Inr (Some key) \<Rightarrow> if key \<le> 0 then Inl (Dk (new_error ErrCodeAPIKeyMissing)) else Inr key))"

definition create_params :: "decimal_lib \<Rightarrow> service_env \<Rightarrow> create_job_input \<Rightarrow> job_plan \<Rightarrow> int \<Rightarrow> create_job_params" where
  "create_params D e inp plan api_key_id =
     (let spec = ci_spec inp; p = pl_pricing plan
      in \<lparr>cj_user_id = sp_user_id spec, cj_api_key_id = api_key_id,
          cj_origin = (if sp_origin spec = OriginWeb \<or> sp_origin spec = OriginERP then sp_origin spec else OriginWeb),
          cj_job_uid = sv_uid e, cj_name = trim_space (ci_name inp), cj_ratio = sp_ratio spec,
          cj_model = pl_model plan, cj_keep_transparency = sp_keep_transparency spec,
          cj_idempotency_key = optional_string (ci_idempotency_key inp),
          cj_callback_url = optional_string (ci_callback_url inp),
          cj_estimated_cost = cost_of D p (int (length (pl_items plan))),
          cj_pricing = \<lparr>ps_base_unit_price = money_or_zero (jp_unit_price p),
             ps_group_rate_multiplier = jp_multiplier p,
             ps_account_rate_multiplier = multiplier_from_float D (FFin 1),
             ps_billing_mode = jp_billing_mode p, ps_pricing_tier = jp_tier p, ps_price_source = jp_source p,
             ps_version = job_pricing_snapshot_version\<rparr>,
          cj_items = pl_items plan\<rparr>)"

text \<open>The clean-up of a submission that did not get through: three calls, each on its own.\<close>

definition abandon_job :: "service_env \<Rightarrow> job \<Rightarrow> go_error \<Rightarrow> db \<Rightarrow> go_error \<times> db" where
  "abandon_job e j cause d =
     (let d1 = snd (service_call e AtReleaseHold (\<lambda>x. Inr ((), release_hold (sv_now e) (job_id j) x)) d);
          d2 = snd (service_call e AtClearKey (\<lambda>x. Inr ((), clear_job_idempotency_key (sv_now e) (job_id j) x)) d1);
          d3 = snd (service_call e AtAbandon
                 (update_job_status (sv_now e) (job_id j) (job_status j) JobStatusFailed) d2)
      in (Dk (with_cause (with_message (new_error ErrCodeInternal)
            (bytes [230, 143, 144, 228, 186, 164, 230, 178, 161, 230, 156, 137, 229, 174, 140, 230, 136, 144,
        239, 188, 140, 232, 191, 153, 228, 184, 128, 230, 137, 185, 230, 178, 161, 230, 156, 137,
        229, 188, 128, 229, 167, 139, 229, 135, 186, 229, 155, 190, 239, 188, 140, 229, 134, 187,
        231, 187, 147, 231, 154, 132, 233, 162, 157, 229, 186, 166, 229, 183, 178, 231, 187, 143,
        233, 128, 128, 229, 155, 158, 239, 188, 140, 232, 175, 183, 233, 135, 141, 230, 150, 176,
        230, 143, 144, 228, 186, 164, 227, 128, 130])) cause), d3))"

text \<open>The loop over the two steps; \<open>job_status j\<close> is the status of the row in memory.\<close>

fun start_steps :: "service_env \<Rightarrow> (job_status \<times> job_status) list \<Rightarrow> job \<Rightarrow> db \<Rightarrow> (go_error + job) \<times> db" where
  "start_steps e [] j d = (Inr j, d)"
| "start_steps e ((from_status, to_status) # rest) j d =
     (if job_status j \<noteq> from_status then start_steps e rest j d
      else if \<not> can_transition from_status to_status then
        (case abandon_job e j (Opaque (bytes [100, 101, 115, 105, 103, 110, 107, 105, 116, 58, 32, 231, 138, 182, 230, 128, 129, 230,
        156, 186, 228, 184, 141, 229, 133, 129, 232, 174, 184, 32] @
            job_status_text from_status @ bytes [32, 226, 134, 146, 32] @ job_status_text to_status)) d of (err, d1) \<Rightarrow> (Inl err, d1))
      else case service_call e (AtStart to_status) (update_job_status (sv_now e) (job_id j) from_status to_status) d of
          (Inr _, d1) \<Rightarrow> start_steps e rest (j\<lparr>job_status := to_status\<rparr>) d1
        | (Inl err, d1) \<Rightarrow>
          if errors_is err ErrConflict \<or> errors_is err ErrIllegalTransition then
            (case service_call e AtReread (reading (\<lambda>x. get_job_by_uid x (job_user_id j) (job_uid j))) d1 of
               (Inr fresh, d2) \<Rightarrow> (Inr fresh, d2)
             | (Inl _, d2) \<Rightarrow> (Inr j, d2))
          else (case abandon_job e j err d1 of (err', d2) \<Rightarrow> (Inl err', d2)))"

definition start_job :: "service_env \<Rightarrow> job \<Rightarrow> db \<Rightarrow> (go_error + job) \<times> db" where
  "start_job e = start_steps e [(JobStatusCreated, JobStatusHolding), (JobStatusHolding, JobStatusRunning)]"

definition service_create_job :: "decimal_lib \<Rightarrow> service_env \<Rightarrow> create_job_input \<Rightarrow> db \<Rightarrow> (go_error + job) \<times> db" where
  "service_create_job D e inp d =
     (if sp_user_id (ci_spec inp) \<le> 0 then (Inl (Dk (new_error ErrCodeUnauthorized)), d)
      else case build_plan D e (ci_spec inp) of
          Inl err \<Rightarrow> (Inl err, d)
        | Inr plan \<Rightarrow>
          (case resolve_api_key_id e inp of
             Inl err \<Rightarrow> (Inl err, d)
           | Inr api_key_id \<Rightarrow>
             (case service_call e AtCreateJob
                (create_job_with_items_and_hold D (sv_now e) (create_params D e inp plan api_key_id)) d of
                (Inl err, d1) \<Rightarrow> (Inl (map_create_error D (sv_settings e) err), d1)
              | (Inr result, d1) \<Rightarrow>
                if cr_reused result then (Inr (cr_job result), d1) else start_job e (cr_job result) d1)))"

section \<open>Quoting\<close>

record job_estimate =
  es_item_count :: int
  es_asset_count :: int
  es_prompt_count :: int
  es_max_batch_items :: int
  es_pricing_tier :: string
  es_unit_price :: "money option"
  es_estimated_cost :: "money option"
  es_price_note :: string
  es_balance :: money
  es_available :: money
  es_sufficient :: bool
  es_shortfall :: money

definition job_price_pending_note :: string where
  "job_price_pending_note =
     bytes [229, 135, 186, 229, 155, 190, 229, 141, 149, 228, 187, 183, 232, 191, 152, 230, 178, 161,
        229, 174, 158, 230, 181, 139, 231, 161, 174, 232, 174, 164, 239, 188, 140, 232, 191, 153,
        228, 184, 128, 230, 137, 185, 231, 154, 132, 232, 138, 177, 232, 180, 185, 230, 154, 130,
        230, 151, 182, 231, 174, 151, 228, 184, 141, 229, 135, 186, 230, 157, 165, 227, 128, 130,
        229, 143, 175, 228, 187, 165, 231, 133, 167, 229, 184, 184, 230, 143, 144, 228, 186, 164,
        239, 188, 140, 229, 174, 158, 233, 153, 133, 232, 138, 177, 232, 180, 185, 228, 187, 165,
        228, 187, 187, 229, 138, 161, 229, 174, 140, 230, 136, 144, 229, 144, 142, 231, 154, 132,
        231, 187, 147, 231, 174, 151, 228, 184, 186, 229, 135, 134, 227, 128, 130]"

definition balances :: "decimal_lib \<Rightarrow> service_env \<Rightarrow> int \<Rightarrow> db \<Rightarrow> (go_error + money \<times> money) \<times> db" where
  "balances D e user_id d =
     (case service_call e AtBalances (reading (\<lambda>x. get_usage_summary x user_id (sv_now e) (sv_now e))) d of
        (Inl err, d1) \<Rightarrow> (Inl (map_job_repo_error D err ErrCodeUnauthorized), d1)
      | (Inr s, d1) \<Rightarrow> (Inr (us_balance s, us_available s), d1))"

definition estimate_job :: "decimal_lib \<Rightarrow> service_env \<Rightarrow> job_spec \<Rightarrow> db \<Rightarrow> (go_error + job_estimate) \<times> db" where
  "estimate_job D e spec d =
     (if sp_user_id spec \<le> 0 then (Inl (Dk (new_error ErrCodeUnauthorized)), d)
      else case check_ratio (sv_settings e) (sp_ratio spec) of
          Some err \<Rightarrow> (Inl err, d)
        | None \<Rightarrow>
          let assets = int (length (trim_non_empty (sp_asset_uids spec)));
              prompts = int (length (trim_non_empty (sp_prompt_uids spec)) + length (trim_non_empty (sp_prompt_texts spec)));
              item_count = assets * prompts;
              pricing = resolve_pricing D (sv_settings e) (sp_ratio spec)
          in case balances D e (sp_user_id spec) d of
               (Inl err, d1) \<Rightarrow> (Inl err, d1)
             | (Inr (balance, available), d1) \<Rightarrow>
               let out = \<lparr>es_item_count = item_count, es_asset_count = assets, es_prompt_count = prompts,
                     es_max_batch_items = max_batch_items (sv_settings e), es_pricing_tier = jp_tier pricing,
                     es_unit_price = None, es_estimated_cost = None, es_price_note = [], es_balance = balance,
                     es_available = available, es_sufficient = True, es_shortfall = 0\<rparr>
               in case jp_unit_price pricing of
                    None \<Rightarrow> (Inr (out\<lparr>es_price_note := job_price_pending_note\<rparr>), d1)
                  | Some unit \<Rightarrow>
                    let cost = cost_of D pricing item_count;
                        priced = out\<lparr>es_unit_price := Some unit, es_estimated_cost := Some cost\<rparr>
                    in if available < cost then
                         let shortfall = (if cost - available < 0 then 0 else cost - available)
                         in (Inr (priced\<lparr>es_sufficient := False, es_shortfall := quantize_money D shortfall\<rparr>), d1)
                       else (Inr priced, d1))"

section \<open>Reading\<close>

definition must_get_job ::
  "decimal_lib \<Rightarrow> service_env \<Rightarrow> service_point \<Rightarrow> int \<Rightarrow> string \<Rightarrow> db \<Rightarrow> (go_error + job) \<times> db" where
  "must_get_job D e p user_id uid d =
     (if user_id \<le> 0 then (Inl (Dk (new_error ErrCodeUnauthorized)), d)
      else case service_call e p (reading (\<lambda>x. get_job_by_uid x user_id uid)) d of
          (Inl err, d1) \<Rightarrow> (Inl (map_job_repo_error D err ErrCodeJobNotFound), d1)
        | (Inr j, d1) \<Rightarrow> (Inr j, d1))"

definition service_get_job :: "decimal_lib \<Rightarrow> service_env \<Rightarrow> int \<Rightarrow> string \<Rightarrow> db \<Rightarrow> (go_error + job) \<times> db" where
  "service_get_job D e = must_get_job D e AtRead"

definition service_list_jobs :: "decimal_lib \<Rightarrow> service_env \<Rightarrow> list_jobs_query \<Rightarrow> db \<Rightarrow> (go_error + job_page) \<times> db" where
  "service_list_jobs D e q d =
     (if lq_user_id q \<le> 0 then (Inl (Dk (new_error ErrCodeUnauthorized)), d)
      else
        let l1 = (if lq_limit q \<le> 0 then job_default_list_limit else lq_limit q);
            l2 = (if l1 > job_max_list_limit then job_max_list_limit else l1)
        in case service_call e AtListJobsOf (\<lambda>x. Inr (list_jobs x (q\<lparr>lq_limit := l2\<rparr>), x)) d of
             (Inl err, d1) \<Rightarrow> (Inl (map_job_repo_error D err ErrCodeJobNotFound), d1)
           | (Inr page, d1) \<Rightarrow> (Inr page, d1))"

record job_item_view =
  vw_item :: job_item
  vw_images :: "image list"

definition view_of :: "decimal_lib \<Rightarrow> service_env \<Rightarrow> job_item \<Rightarrow> db \<Rightarrow> (go_error + job_item_view) \<times> db" where
  "view_of D e i d =
     (case service_call e (AtImages (it_id i)) (\<lambda>x. Inr (list_images_by_item x (it_id i) True, x)) d of
        (Inl err, d1) \<Rightarrow> (Inl (map_job_repo_error D err ErrCodeImageNotFound), d1)
      | (Inr images, d1) \<Rightarrow> (Inr \<lparr>vw_item = i, vw_images = sort_key img_index images\<rparr>, d1))"

fun views_of :: "decimal_lib \<Rightarrow> service_env \<Rightarrow> job_item list \<Rightarrow> db \<Rightarrow> (go_error + job_item_view list) \<times> db" where
  "views_of D e [] d = (Inr [], d)"
| "views_of D e (i # is) d =
     (case view_of D e i d of
        (Inl err, d1) \<Rightarrow> (Inl err, d1)
      | (Inr v, d1) \<Rightarrow>
        (case views_of D e is d1 of (Inl err, d2) \<Rightarrow> (Inl err, d2) | (Inr vs, d2) \<Rightarrow> (Inr (v # vs), d2)))"

definition sort_item_views :: "job_item_view list \<Rightarrow> job_item_view list" where
  "sort_item_views = sort_key (\<lambda>v. it_seq (vw_item v))"

definition service_list_job_items ::
  "decimal_lib \<Rightarrow> service_env \<Rightarrow> int \<Rightarrow> string \<Rightarrow> db \<Rightarrow> (go_error + job_item_view list) \<times> db" where
  "service_list_job_items D e user_id uid d =
     (case must_get_job D e AtRead user_id uid d of
        (Inl err, d1) \<Rightarrow> (Inl err, d1)
      | (Inr j, d1) \<Rightarrow>
        (case service_call e (AtListItemsOf (job_id j)) (\<lambda>x. Inr (list_job_items x (job_id j), x)) d1 of
           (Inl err, d2) \<Rightarrow> (Inl (map_job_repo_error D err ErrCodeItemNotFound), d2)
         | (Inr items, d2) \<Rightarrow>
           (case views_of D e items d2 of
              (Inl err, d3) \<Rightarrow> (Inl err, d3)
            | (Inr views, d3) \<Rightarrow> (Inr (sort_item_views views), d3))))"

definition service_get_job_item ::
  "decimal_lib \<Rightarrow> service_env \<Rightarrow> int \<Rightarrow> string \<Rightarrow> int \<Rightarrow> db \<Rightarrow> (go_error + job_item_view) \<times> db" where
  "service_get_job_item D e user_id uid seq d =
     (case must_get_job D e AtRead user_id uid d of
        (Inl err, d1) \<Rightarrow> (Inl err, d1)
      | (Inr j, d1) \<Rightarrow>
        if seq \<le> 0 then (Inl (Dk (new_error ErrCodeItemNotFound)), d1)
        else
        (case service_call e (AtItemBySeq (job_id j) seq) (reading (\<lambda>x. get_job_item_by_seq x (job_id j) seq)) d1 of
           (Inl err, d2) \<Rightarrow> (Inl (map_job_repo_error D err ErrCodeItemNotFound), d2)
         | (Inr i, d2) \<Rightarrow> view_of D e i d2))"

definition open_job_item_content ::
  "decimal_lib \<Rightarrow> service_env \<Rightarrow> int \<Rightarrow> string \<Rightarrow> int \<Rightarrow> int \<Rightarrow> db \<Rightarrow> (go_error + string \<times> string) \<times> db" where
  "open_job_item_content D e user_id uid seq image_index d =
     (case service_get_job_item D e user_id uid seq d of
        (Inl err, d1) \<Rightarrow> (Inl err, d1)
      | (Inr view, d1) \<Rightarrow>
        let index = (if image_index \<le> 0 then 1 else image_index)
        in (case find (\<lambda>img. img_index img = index) (vw_images view) of
              None \<Rightarrow>
                if \<not> item_is_terminal (it_status (vw_item view)) then
                  Inl (Dk (with_message (new_error ErrCodeImageNotFound)
                    (bytes [232, 191, 153, 228, 184, 128, 229, 188, 160, 232, 191, 152, 230, 178, 161, 229, 135, 186,
        229, 165, 189, 239, 188, 140, 232, 175, 183, 231, 173, 137, 229, 174, 131, 232, 183, 145,
        229, 174, 140, 229, 134, 141, 231, 156, 139, 227, 128, 130])))
                else Inl (Dk (new_error ErrCodeImageNotFound))
            | Some target \<Rightarrow>
              (case sv_store e of
                 None \<Rightarrow> Inl (Dk (with_message (new_error ErrCodeStorageError)
                   (bytes [229, 155, 190, 231, 137, 135, 229, 173, 152, 229, 130, 168, 230, 178, 161, 230, 156, 137,
        233, 133, 141, 231, 189, 174, 229, 165, 189, 239, 188, 140, 230, 154, 130, 230, 151, 182,
        229, 143, 150, 228, 184, 141, 229, 136, 176, 229, 155, 190, 239, 188, 140, 232, 175, 183,
        232, 129, 148, 231, 179, 187, 231, 174, 161, 231, 144, 134, 229, 145, 152, 227, 128, 130])))
               | Some get \<Rightarrow>
                 (case get (img_object_key target) of
                    Inl err \<Rightarrow> Inl (Dk (with_cause (new_error ErrCodeStorageError) err))
                  | Inr (data, ct) \<Rightarrow> Inr (data, if ct = [] then img_content_type target else ct))), d1))"

section \<open>Stopping, deleting, retrying\<close>

record stop_job_result =
  sr_job :: job
  sr_cancelled :: int
  sr_still_running :: int

definition finalize_after_stop :: "service_env \<Rightarrow> job \<Rightarrow> db \<Rightarrow> db" where
  "finalize_after_stop e j d =
     snd (service_call e AtFinishStop
       (finalize_job (sv_now e)
         \<lparr>fj_job_id = job_id j,
          fj_status = terminal_job_status (job_item_count j) (job_success_count j) (job_fail_count j)
                        (job_cancelled_count j) (is_stop_requested (Some j)),
          fj_finished_at = sv_now e\<rparr>) d)"

definition stop_job :: "decimal_lib \<Rightarrow> service_env \<Rightarrow> int \<Rightarrow> string \<Rightarrow> db \<Rightarrow> (go_error + stop_job_result) \<times> db" where
  "stop_job D e user_id uid d =
     (case must_get_job D e AtRead user_id uid d of
        (Inl err, d1) \<Rightarrow> (Inl err, d1)
      | (Inr j, d1) \<Rightarrow>
        if job_is_terminal (job_status j) \<or> is_settled (Some j) then
          (Inl (Dk (with_message (new_error ErrCodeIllegalStateTransition)
            (bytes [232, 191, 153, 230, 137, 185, 228, 187, 187, 229, 138, 161, 229, 183, 178, 231, 187, 143,
        231, 187, 147, 230, 157, 159, 228, 186, 134, 239, 188, 140, 228, 184, 141, 231, 148, 168,
        229, 134, 141, 229, 129, 156, 227, 128, 130]))), d1)
        else case service_call e AtStopJob (request_job_stop (sv_now e) (job_id j)) d1 of
            (Inl err, d2) \<Rightarrow> (Inl (map_job_repo_error D err ErrCodeJobNotFound), d2)
          | (Inr cancelled, d2) \<Rightarrow>
            (case must_get_job D e AtReadAgain user_id uid d2 of
               (Inl err, d3) \<Rightarrow> (Inl err, d3)
             | (Inr fresh, d3) \<Rightarrow>
               let left = job_item_count fresh - job_success_count fresh - job_fail_count fresh - job_cancelled_count fresh;
                   still_running = (if left < 0 then 0 else left);
                   d4 = (if still_running = 0 \<and> job_item_count fresh > 0 then finalize_after_stop e fresh d3 else d3)
               in (Inr \<lparr>sr_job = fresh, sr_cancelled = cancelled, sr_still_running = still_running\<rparr>, d4)))"

definition delete_job :: "decimal_lib \<Rightarrow> service_env \<Rightarrow> int \<Rightarrow> string \<Rightarrow> db \<Rightarrow> (go_error + unit) \<times> db" where
  "delete_job D e user_id uid d =
     (case must_get_job D e AtRead user_id uid d of
        (Inl err, d1) \<Rightarrow> (Inl err, d1)
      | (Inr j, d1) \<Rightarrow>
        if \<not> job_is_terminal (job_status j) \<and> \<not> is_settled (Some j) then
          (Inl (Dk (with_message (new_error ErrCodeIllegalStateTransition)
            (bytes [232, 191, 153, 230, 137, 185, 228, 187, 187, 229, 138, 161, 232, 191, 152, 230, 178, 161,
        231, 187, 147, 230, 157, 159, 239, 188, 140, 228, 184, 141, 232, 131, 189, 229, 136, 160,
        233, 153, 164, 227, 128, 130, 229, 133, 136, 231, 130, 185, 227, 128, 140, 229, 129, 156,
        230, 173, 162, 230, 142, 146, 233, 152, 159, 227, 128, 141, 239, 188, 140, 231, 173, 137,
        229, 174, 131, 231, 187, 147, 230, 157, 159, 229, 134, 141, 229, 136, 160, 227, 128, 130]))), d1)
        else case service_call e AtDelete (soft_delete_job (sv_now e) user_id uid) d1 of
            (Inl err, d2) \<Rightarrow> (Inl (map_job_repo_error D err ErrCodeJobNotFound), d2)
          | (Inr _, d2) \<Rightarrow> (Inr (), d2))"

record retry_item_input =
  rt_user_id :: int
  rt_job_uid :: string
  rt_seq :: int
  rt_idempotency_key :: string

definition retry_job_item :: "decimal_lib \<Rightarrow> service_env \<Rightarrow> retry_item_input \<Rightarrow> db \<Rightarrow> (go_error + job_item) \<times> db" where
  "retry_job_item D e inp d =
     (case must_get_job D e AtRead (rt_user_id inp) (rt_job_uid inp) d of
        (Inl err, d1) \<Rightarrow> (Inl err, d1)
      | (Inr j, d1) \<Rightarrow>
        if rt_seq inp \<le> 0 then (Inl (Dk (new_error ErrCodeItemNotFound)), d1)
        else if is_settled (Some j) then (Inl (Dk (new_error ErrCodeJobAlreadySettled)), d1)
        else
          let pricing = resolve_pricing D (sv_settings e) (job_ratio j)
          in case service_call e AtRetry (retry_item D (sv_now e)
               \<lparr>ri_user_id = rt_user_id inp, ri_job_id = job_id j, ri_seq = rt_seq inp,
                ri_estimated_cost = cost_of D pricing 1,
                ri_idempotency_key = optional_string (rt_idempotency_key inp)\<rparr>) d1 of
               (Inr i, d2) \<Rightarrow> (Inr i, d2)
             | (Inl err, d2) \<Rightarrow>
               (Inl (case as_insufficient err of
                       Some short \<Rightarrow> insufficient_balance_error D short (admin_contact (sv_settings e))
                     | None \<Rightarrow> map_job_repo_error D err ErrCodeItemNotFound), d2))"

end
