(* ===== verification/Service_Guarantees.thy ===== *)
theory Service_Guarantees
  imports Job_Service Item_History Scenario
begin

text \<open>
  What the batch service guarantees: the expansion of a batch, that its calls are repository steps
  whatever the other processes do in between, that a submission which fails leaves nothing reserved,
  and that stopping the last open items closes the batch.
\<close>

section \<open>The expansion\<close>

lemma length_expand_prompts [simp]: "length (expand_prompts a ps s) = length ps"
  by (induction ps arbitrary: s) simp_all

lemma length_expand_items [simp]: "length (expand_items as ps s) = length as * length ps"
  by (induction as arbitrary: s) simp_all

lemma nth_expand_prompts:
  "k < length ps \<Longrightarrow> expand_prompts a ps s ! k =
     \<lparr>cji_seq = s + int k, cji_asset_id = Some a, cji_variant_id = None, cji_prompt_id = fst (ps ! k),
      cji_prompt_text = snd (ps ! k), cji_max_attempts = default_max_attempts\<rparr>"
  by (induction ps arbitrary: s k) (auto simp: less_Suc_eq_0_disj)

lemma nth_expand_items:
  "k < length as * length ps \<Longrightarrow> expand_items as ps s ! k =
     \<lparr>cji_seq = s + int k, cji_asset_id = Some (as ! (k div length ps)), cji_variant_id = None,
      cji_prompt_id = fst (ps ! (k mod length ps)), cji_prompt_text = snd (ps ! (k mod length ps)),
      cji_max_attempts = default_max_attempts\<rparr>"
proof (induction as arbitrary: s k)
  case (Cons a as)
  show ?case
  proof (cases "k < length ps")
    case True
    then show ?thesis by (simp add: nth_append nth_expand_prompts)
  next
    case False
    then have k: "k - length ps < length as * length ps" "length ps > 0" "length ps \<le> k" using Cons.prems by auto
    then have "k div length ps = Suc ((k - length ps) div length ps)" "k mod length ps = (k - length ps) mod length ps"
      by (simp_all add: le_div_geq le_mod_geq)
    then show ?thesis using False k Cons.IH[OF k(1), of "s + int (length ps)"] by (simp add: nth_append)
  qed
qed simp

lemma first_bad_seq_from: "(\<And>k. k < length ps \<Longrightarrow> cji_seq (ps ! k) = i + 1 + int k) \<Longrightarrow> first_bad_seq i ps = None"
proof (induction ps arbitrary: i)
  case (Cons p ps)
  have "cji_seq (ps ! k) = i + 1 + 1 + int k" if "k < length ps" for k using Cons.prems[of "Suc k"] that by simp
  then show ?case using Cons.IH[of "i + 1"] Cons.prems[of 0] by simp
qed simp

lemma first_bad_seq_expand: "first_bad_seq 0 (expand_items as ps 1) = None"
  by (rule first_bad_seq_from) (simp add: nth_expand_items)

lemma length_plan_assets: "plan_assets D e u uids = Inr ids \<Longrightarrow> length ids = length uids"
  by (induction uids arbitrary: ids) (auto split: sum.splits option.splits)

lemma length_plan_prompts: "plan_prompts D e u uids = Inr ps \<Longrightarrow> length ps = length uids"
  by (induction uids arbitrary: ps) (auto split: sum.splits option.splits if_splits)

text \<open>What a successful plan is made of.\<close>

lemma build_planD:
  assumes "build_plan D e spec = Inr plan"
  obtains asset_ids library prompts where
    "plan_assets D e (sp_user_id spec) (trim_non_empty (sp_asset_uids spec)) = Inr asset_ids"
    "plan_prompts D e (sp_user_id spec) (trim_non_empty (sp_prompt_uids spec)) = Inr library"
    "prompts = library @ map (\<lambda>t. (None, t)) (trim_non_empty (sp_prompt_texts spec))"
    "pl_items plan = expand_items asset_ids prompts 1" "asset_ids \<noteq> []" "prompts \<noteq> []"
    "int (length asset_ids * length prompts) \<le> max_batch_items (sv_settings e)"
    "pl_pricing plan = resolve_pricing D (sv_settings e) (sp_ratio spec)"
    "check_ratio (sv_settings e) (sp_ratio spec) = None"
proof -
  from assms obtain asset_ids library where
    a: "plan_assets D e (sp_user_id spec) (trim_non_empty (sp_asset_uids spec)) = Inr asset_ids"
    and l: "plan_prompts D e (sp_user_id spec) (trim_non_empty (sp_prompt_uids spec)) = Inr library"
    and p: "pl_items plan = expand_items asset_ids (library @ map (\<lambda>t. (None, t)) (trim_non_empty (sp_prompt_texts spec))) 1"
    and n: "trim_non_empty (sp_asset_uids spec) \<noteq> []"
      "\<not> (trim_non_empty (sp_prompt_uids spec) = [] \<and> trim_non_empty (sp_prompt_texts spec) = [])"
      "\<not> int (length (trim_non_empty (sp_asset_uids spec)))
         * int (length (trim_non_empty (sp_prompt_uids spec)) + length (trim_non_empty (sp_prompt_texts spec)))
       > max_batch_items (sv_settings e)"
    and r: "pl_pricing plan = resolve_pricing D (sv_settings e) (sp_ratio spec)"
      "check_ratio (sv_settings e) (sp_ratio spec) = None"
    unfolding build_plan_def Let_def by (auto split: option.splits sum.splits if_splits)
  note len = length_plan_assets[OF a] length_plan_prompts[OF l]
  show ?thesis
  proof (rule that[OF a l refl p _ _ _ r])
    show "asset_ids \<noteq> []" using n(1) len(1) by (metis length_0_conv)
    show "library @ map (\<lambda>t. (None, t)) (trim_non_empty (sp_prompt_texts spec)) \<noteq> []"
      using n(2) len(2) by (metis Nil_is_append_conv Nil_is_map_conv length_0_conv)
    show "int (length asset_ids * length (library @ map (\<lambda>t. (None, t)) (trim_non_empty (sp_prompt_texts spec))))
        \<le> max_batch_items (sv_settings e)"
      using n(3) len by (simp add: not_less)
  qed
qed

lemma max_batch_items_bounds: "1 \<le> max_batch_items get \<and> max_batch_items get \<le> 500"
  by (auto simp: max_batch_items_def job_min_batch_items_def job_max_batch_items_limit_def default_max_batch_items_def
      split: option.splits)

section \<open>Prices are not negative\<close>

lemma multiplier_one: "decimal_ok D \<Longrightarrow> multiplier_from_float D (FFin 1) = 1"
  using dec_float_int[of D 1] dec_round_id[of D multiplier_scale 1] on_grid_of_int[of multiplier_scale 1]
  by (simp add: multiplier_from_float_def)

lemma rate_multiplier_pos: "rate_multiplier D get = Some m \<Longrightarrow> 0 < m"
  by (auto simp: rate_multiplier_def split: option.splits json.splits if_splits)

lemma pricing_ok:
  assumes "decimal_ok D"
  shows "0 < jp_multiplier (resolve_pricing D get r)"
    and "jp_unit_price (resolve_pricing D get r) = Some u \<Longrightarrow> 0 \<le> u"
  using assms unfolding resolve_pricing_def Let_def
  by (auto simp: multiplier_one rate_multiplier_pos split: option.splits if_splits)

lemma cost_of_nonneg:
  assumes "decimal_ok D"
  shows "0 \<le> cost_of D (resolve_pricing D get r) n"
proof (cases "jp_unit_price (resolve_pricing D get r)")
  case (Some u)
  have "0 \<le> u" "0 < jp_multiplier (resolve_pricing D get r)" using pricing_ok[OF assms] Some by blast+
  then show ?thesis using assms by (auto simp: cost_of_def Some money_from_int_def intro!: quantize_nonneg mult_nonneg_nonneg)
qed (simp add: cost_of_def)

section \<open>Calls of the service are steps\<close>

abbreviation service_interference_ok :: "decimal_lib \<Rightarrow> service_env \<Rightarrow> bool" where
  "service_interference_ok D e \<equiv> interferes D (sv_meanwhile e)"

lemma service_call_runs:
  assumes "service_interference_ok D e" and "service_call e p f d = (r, d')"
    and "\<And>d0 a d1. f d0 = Inr (a, d1) \<Longrightarrow> (\<forall>seen. step D (d0, seen) (d1, seen)) \<or> d1 = d0"
  shows "runs D {} d d'"
  using assms(2) unfolding service_call_def
  by (rule call_runs[OF assms(1)]) (use assms(3) in \<open>metis runs_refl runs_step\<close>)

lemma reading_same: "reading f d = Inr (a, d') \<Longrightarrow> d' = d"
  by (auto simp: reading_def split: sum.splits)

lemma service_read_runs:
  "service_interference_ok D e \<Longrightarrow> service_call e p (reading f) d = (r, d') \<Longrightarrow> runs D {} d d'"
  by (erule (1) service_call_runs) (blast dest: reading_same)

lemma must_get_job_runs:
  "service_interference_ok D e \<Longrightarrow> must_get_job D e p u uid d = (r, d') \<Longrightarrow> runs D {} d d'"
  by (auto simp: must_get_job_def split: if_splits prod.splits sum.splits dest: service_read_runs)

lemma abandon_job_runs:
  assumes ok: "service_interference_ok D e" and j: "job_status j \<in> {JobStatusCreated, JobStatusHolding}"
    and "abandon_job e j cause d = (err, d')"
  shows "runs D {} d d'"
proof -
  obtain r1 d1 where 1: "service_call e AtReleaseHold (\<lambda>x. Inr ((), release_hold (sv_now e) (job_id j) x)) d = (r1, d1)" by fastforce
  obtain r2 d2 where 2: "service_call e AtClearKey (\<lambda>x. Inr ((), clear_job_idempotency_key (sv_now e) (job_id j) x)) d1 = (r2, d2)" by fastforce
  obtain r3 d3 where 3: "service_call e AtAbandon (update_job_status (sv_now e) (job_id j) (job_status j) JobStatusFailed) d2 = (r3, d3)" by fastforce
  have "runs D {} d d1" by (rule service_call_runs[OF ok 1]) (auto intro: step_release)
  moreover have "runs D {} d1 d2" by (rule service_call_runs[OF ok 2]) (auto intro: step_clear_key)
  moreover have "runs D {} d2 d3" by (rule service_call_runs[OF ok 3]) (use j in \<open>auto intro: step_status\<close>)
  moreover have "d' = d3" using assms(3) by (simp add: abandon_job_def Let_def 1 2 3)
  ultimately show ?thesis by (metis seen_runs.chain)
qed

text \<open>The two status changes the loop of \<open>startJob\<close> asks for.\<close>

definition start_pairs :: "(job_status \<times> job_status) set" where
  "start_pairs = {(JobStatusCreated, JobStatusHolding), (JobStatusHolding, JobStatusRunning)}"

lemma start_pairsD:
  "(a, b) \<in> start_pairs \<Longrightarrow> a \<in> {JobStatusCreated, JobStatusHolding} \<and> can_transition a b
     \<and> (update_job_status now jid a b d = Inr (u, d') \<longrightarrow> step D (d, seen) (d', seen))"
  by (auto simp: start_pairs_def status_simps intro: step_status)

lemma start_steps_runs:
  assumes ok: "service_interference_ok D e" and "set ps \<subseteq> start_pairs"
  shows "start_steps e ps j d = (r, d') \<Longrightarrow> runs D {} d d'"
  using assms(2)
proof (induction ps arbitrary: j d)
  case (Cons p rest)
  obtain a b where p: "p = (a, b)" by (cases p)
  then have ab: "(a, b) \<in> start_pairs" using Cons.prems(2) by simp
  obtain r1 d1 where c: "service_call e (AtStart b) (update_job_status (sv_now e) (job_id j) a b) d = (r1, d1)" by fastforce
  have 1: "runs D {} d d1" by (rule service_call_runs[OF ok c]) (use start_pairsD[OF ab] in blast)
  consider "job_status j \<noteq> a" "start_steps e rest j d = (r, d')"
    | u where "job_status j = a" "r1 = Inr u" "start_steps e rest (j\<lparr>job_status := b\<rparr>) d1 = (r, d')"
    | r2 where "service_call e AtReread (reading (\<lambda>x. get_job_by_uid x (job_user_id j) (job_uid j))) d1 = (r2, d')"
    | err err' where "job_status j = a" "abandon_job e j err d1 = (err', d')"
    using Cons.prems(1) start_pairsD[OF ab] c unfolding p
    by (auto split: if_splits sum.splits prod.splits)
  then show ?case
  proof cases
    case 1
    then show ?thesis using Cons.IH Cons.prems(2) by simp
  next
    case 2
    then show ?thesis using Cons.IH Cons.prems(2) 1 runs_trans by fastforce
  next
    case 3
    then show ?thesis using 1 service_read_runs[OF ok] runs_trans by blast
  next
    case 4
    then have "runs D {} d1 d'" using abandon_job_runs[OF ok] start_pairsD[OF ab] by metis
    with 1 show ?thesis by (rule runs_trans)
  qed
qed simp

lemma start_job_runs: "service_interference_ok D e \<Longrightarrow> start_job e j d = (r, d') \<Longrightarrow> runs D {} d d'"
  unfolding start_job_def by (erule start_steps_runs[rotated -1]) (auto simp: start_pairs_def)

lemma create_runs:
  assumes ok: "service_interference_ok D e" and "decimal_ok D" and "service_create_job D e inp d = (r, d')"
  shows "runs D {} d d'"
proof -
  have *: "runs D {} d d1" if "build_plan D e (ci_spec inp) = Inr plan"
    "service_call e AtCreateJob (create_job_with_items_and_hold D (sv_now e) (create_params D e inp plan key)) d = (r1, d1)"
    for plan key r1 d1
    using that(2)
  proof (rule service_call_runs[OF ok])
    have "pl_pricing plan = resolve_pricing D (sv_settings e) (sp_ratio (ci_spec inp))"
      using that(1) by (rule build_planD)
    then have "0 \<le> cj_estimated_cost (create_params D e inp plan key)"
      by (simp add: create_params_def Let_def cost_of_nonneg[OF assms(2)])
    then show "(\<forall>seen. step D (d0, seen) (d2, seen)) \<or> d2 = d0"
      if "create_job_with_items_and_hold D (sv_now e) (create_params D e inp plan key) d0 = Inr (a, d2)" for d0 a d2
      using step_create[OF that] by blast
  qed
  show ?thesis using assms(3) unfolding service_create_job_def
    by (auto split: if_splits sum.splits prod.splits intro: * runs_trans[OF * start_job_runs[OF ok]])
qed

lemma finalize_after_stop_runs: "service_interference_ok D e \<Longrightarrow> runs D {} d (finalize_after_stop e j d)"
  unfolding finalize_after_stop_def
  by (rule service_call_runs[OF _ prod.collapse[symmetric]]) (auto intro: step_finalize)

lemma stop_runs:
  assumes ok: "service_interference_ok D e" and "stop_job D e u uid d = (r, d')"
  shows "runs D {} d d'"
proof -
  have *: "runs D {} a b" if "service_call e AtStopJob (request_job_stop (sv_now e) jid) a = (r1, b)" for jid a r1 b
    by (rule service_call_runs[OF ok that]) (auto intro: step_stop)
  show ?thesis using assms(2) unfolding stop_job_def Let_def
    by (auto split: if_splits sum.splits prod.splits
        intro: must_get_job_runs[OF ok] runs_trans[OF must_get_job_runs[OF ok] *]
          runs_trans[OF must_get_job_runs[OF ok] runs_trans[OF * must_get_job_runs[OF ok]]]
          runs_trans[OF must_get_job_runs[OF ok] runs_trans[OF * runs_trans[OF must_get_job_runs[OF ok] finalize_after_stop_runs[OF ok]]]])
qed

lemma delete_runs:
  assumes ok: "service_interference_ok D e" and "delete_job D e u uid d = (r, d')"
  shows "runs D {} d d'"
proof -
  have *: "runs D {} a b" if "service_call e AtDelete (soft_delete_job (sv_now e) u uid) a = (r1, b)" for a r1 b
    by (rule service_call_runs[OF ok that]) (auto intro: step_delete)
  show ?thesis using assms(2) unfolding delete_job_def
    by (auto split: if_splits sum.splits prod.splits
        intro: must_get_job_runs[OF ok] runs_trans[OF must_get_job_runs[OF ok] *])
qed

lemma retry_runs:
  assumes ok: "service_interference_ok D e" and "decimal_ok D" and "retry_job_item D e inp d = (r, d')"
  shows "runs D {} d d'"
proof -
  have *: "runs D {} a b" if "service_call e AtRetry (retry_item D now rp) a = (r1, b)" "0 \<le> ri_estimated_cost rp" for now rp a r1 b
    by (rule service_call_runs[OF ok that(1)]) (use that(2) in \<open>auto intro: step_retry\<close>)
  show ?thesis using assms(3) unfolding retry_job_item_def Let_def
    by (auto split: if_splits sum.splits prod.splits simp: cost_of_nonneg[OF assms(2)]
        intro: must_get_job_runs[OF ok] runs_trans[OF must_get_job_runs[OF ok] *])
qed

section \<open>A submission on its own\<close>

text \<open>The environments in which nothing happens between the calls.\<close>

definition undisturbed :: "service_env \<Rightarrow> bool" where
  "undisturbed e \<longleftrightarrow> (\<forall>p d. sv_meanwhile e p d = d)"

lemma undisturbed_call:
  "undisturbed e \<Longrightarrow> service_call e p f d =
     (case sv_fails e p of Some err \<Rightarrow> (Inl err, d)
      | None \<Rightarrow> (case f d of Inl err \<Rightarrow> (Inl err, d) | Inr (a, d1) \<Rightarrow> (Inr a, d1)))"
  by (simp add: undisturbed_def service_call_def repo_call_def Let_def)

text \<open>A database to which one batch and its hold were added.\<close>

definition grown :: "db \<Rightarrow> job \<Rightarrow> hold \<Rightarrow> db \<Rightarrow> bool" where
  "grown d j h d1 \<longleftrightarrow> db_jobs d1 = db_jobs d @ [j] \<and> db_holds d1 = db_holds d @ [h] \<and> hold_job_id h = job_id j
     \<and> (\<forall>r \<in> set (db_jobs d). job_id r \<noteq> job_id j) \<and> (\<forall>r \<in> set (db_holds d). hold_job_id r \<noteq> job_id j)"

lemma upd_last:
  "(\<And>r. r \<in> set rows \<Longrightarrow> \<not> P r) \<Longrightarrow> upd P f (rows @ [x]) = rows @ [if P x then f x else x]"
  by (simp add: upd_def map_idI)

lemma affected_last: "(\<And>r. r \<in> set rows \<Longrightarrow> \<not> P r) \<Longrightarrow> P x \<Longrightarrow> affected P (rows @ [x]) = 1"
  by (induction rows) auto

lemma grown_status:
  assumes "grown d j h d1" and "can_transition (job_status j) b"
  obtains d2 j2 where "update_job_status now (job_id j) (job_status j) b d1 = Inr ((), d2)" and "grown d j2 h d2"
    and "job_id j2 = job_id j" "job_status j2 = b" "job_idempotency_key j2 = job_idempotency_key j"
      "job_item_count j2 = job_item_count j" "job_user_id j2 = job_user_id j" "db_items d2 = db_items d1"
proof -
  let ?P = "\<lambda>r. job_id r = job_id j \<and> job_status r = job_status j"
  let ?f = "\<lambda>j. j\<lparr>job_status := b, job_started_at := (if b = JobStatusRunning \<and> job_started_at j = None then Some now else job_started_at j),
      job_heartbeat_at := Some now, job_updated_at := now\<rparr>"
  have jobs: "db_jobs d1 = db_jobs d @ [j]" and fresh: "\<And>r. r \<in> set (db_jobs d) \<Longrightarrow> \<not> ?P r"
    using assms(1) by (auto simp: grown_def)
  have a: "affected ?P (db_jobs d1) = 1" unfolding jobs by (rule affected_last) (use fresh in auto)
  have u: "upd ?P ?f (db_jobs d1) = db_jobs d @ [?f j]" unfolding jobs by (subst upd_last) (use fresh in auto)
  show ?thesis
  proof (rule that[of "update_jobs ?P ?f d1" "?f j"])
    show "update_job_status now (job_id j) (job_status j) b d1 = Inr ((), update_jobs ?P ?f d1)"
      using assms(2) a by (simp add: update_job_status_def Let_def)
    show "grown d (?f j) h (update_jobs ?P ?f d1)"
      using assms(1) u by (simp add: grown_def)
  qed simp_all
qed

lemma grown_release: "grown d j h d1 \<Longrightarrow> \<exists>h2. grown d j h2 (release_hold now (job_id j) d1) \<and> hold_status h2 \<noteq> HoldStatusOpen"
proof -
  assume g: "grown d j h d1"
  let ?P = "\<lambda>h. hold_job_id h = job_id j \<and> hold_status h = HoldStatusOpen"
  have holds: "db_holds d1 = db_holds d @ [h]" and fresh: "\<And>r. r \<in> set (db_holds d) \<Longrightarrow> \<not> ?P r"
    using g by (auto simp: grown_def)
  have "upd ?P (close_hold now) (db_holds d1) = db_holds d @ [if ?P h then close_hold now h else h]"
    unfolding holds by (subst upd_last) (use fresh in auto)
  then show ?thesis using g
    by (intro exI[of _ "if ?P h then close_hold now h else h"]) (auto simp: grown_def release_hold_def close_hold_def)
qed

lemma grown_clear:
  "grown d j h d1 \<Longrightarrow> \<exists>j2. grown d j2 h (clear_job_idempotency_key now (job_id j) d1)
     \<and> job_id j2 = job_id j \<and> job_status j2 = job_status j \<and> job_idempotency_key j2 = None"
proof -
  assume g: "grown d j h d1"
  let ?P = "\<lambda>r. job_id r = job_id j \<and> job_idempotency_key r \<noteq> None"
  let ?f = "\<lambda>j. j\<lparr>job_idempotency_key := None, job_updated_at := now\<rparr>"
  have jobs: "db_jobs d1 = db_jobs d @ [j]" and fresh: "\<And>r. r \<in> set (db_jobs d) \<Longrightarrow> \<not> ?P r"
    using g by (auto simp: grown_def)
  have "upd ?P ?f (db_jobs d1) = db_jobs d @ [if ?P j then ?f j else j]"
    unfolding jobs by (subst upd_last) (use fresh in auto)
  then show ?thesis using g
    by (intro exI[of _ "if ?P j then ?f j else j"]) (auto simp: grown_def clear_job_idempotency_key_def)
qed

lemma grown_holds: "grown d j h d1 \<Longrightarrow> hold_status h \<noteq> HoldStatusOpen \<Longrightarrow> sum_open_holds d1 u = sum_open_holds d u"
  by (simp add: grown_def sum_open_holds_def sum_col_def)

text \<open>What the clean-up of a submission leaves behind.\<close>

definition abandoned :: "db \<Rightarrow> db \<Rightarrow> bool" where
  "abandoned d d' \<longleftrightarrow> (\<exists>j h. grown d j h d' \<and> job_status j = JobStatusFailed \<and> job_idempotency_key j = None
     \<and> hold_status h \<noteq> HoldStatusOpen)"

definition clean_up_works :: "service_env \<Rightarrow> bool" where
  "clean_up_works e \<longleftrightarrow> sv_fails e AtReleaseHold = None \<and> sv_fails e AtClearKey = None \<and> sv_fails e AtAbandon = None"

lemma abandon_grown:
  assumes "undisturbed e" and "clean_up_works e" and "grown d j h d1"
    and "job_id jm = job_id j" "job_status jm = job_status j" "job_status j \<in> {JobStatusCreated, JobStatusHolding}"
    and "abandon_job e jm cause d1 = (err, d')"
  shows "abandoned d d'"
proof -
  obtain h2 where 2: "grown d j h2 (release_hold (sv_now e) (job_id j) d1)" "hold_status h2 \<noteq> HoldStatusOpen"
    using grown_release[OF assms(3)] by blast
  obtain j3 where 3: "grown d j3 h2 (clear_job_idempotency_key (sv_now e) (job_id j) (release_hold (sv_now e) (job_id j) d1))"
    "job_id j3 = job_id j" "job_status j3 = job_status j" "job_idempotency_key j3 = None"
    using grown_clear[OF 2(1)] by blast
  have can: "can_transition (job_status j3) JobStatusFailed" using assms(6) 3(3) by (auto simp: status_simps)
  obtain d4 j4 where 4: "update_job_status (sv_now e) (job_id j3) (job_status j3) JobStatusFailed
      (clear_job_idempotency_key (sv_now e) (job_id j) (release_hold (sv_now e) (job_id j) d1)) = Inr ((), d4)"
    "grown d j4 h2 d4" "job_status j4 = JobStatusFailed" "job_idempotency_key j4 = job_idempotency_key j3"
    by (rule grown_status[OF 3(1) can])
  have "d' = d4" using assms(7) 4(1) assms(2) 3(2,3)
    by (simp add: abandon_job_def Let_def undisturbed_call[OF assms(1)] clean_up_works_def assms(4,5))
  then show ?thesis unfolding abandoned_def using 4(2-4) 3(4) 2(2) by auto
qed

lemma start_steps_grown:
  assumes "undisturbed e" and "clean_up_works e" and "set ps \<subseteq> start_pairs"
  shows "start_steps e ps jm d1 = (r, d') \<Longrightarrow> grown d j h d1 \<Longrightarrow> job_id jm = job_id j \<Longrightarrow> job_status jm = job_status j
    \<Longrightarrow> (\<exists>jr. r = Inr jr) \<or> abandoned d d'"
  using assms(3)
proof (induction ps arbitrary: jm j d1)
  case (Cons p rest)
  obtain a b where p: "p = (a, b)" by (cases p)
  then have ab: "(a, b) \<in> start_pairs" using Cons.prems(5) by simp
  then have a: "a \<in> {JobStatusCreated, JobStatusHolding}" and can: "can_transition a b" using start_pairsD by blast+
  show ?case
  proof (cases "job_status jm = a")
    case False
    then show ?thesis using Cons by (simp add: p)
  next
    case True
    then obtain d2 j2 where 2: "update_job_status (sv_now e) (job_id jm) a b d1 = Inr ((), d2)" "grown d j2 h d2"
      "job_id j2 = job_id j" "job_status j2 = b"
      using grown_status[OF Cons.prems(2)] can Cons.prems(3,4) by metis
    show ?thesis
    proof (cases "sv_fails e (AtStart b)")
      case None
      then have "start_steps e rest (jm\<lparr>job_status := b\<rparr>) d2 = (r, d')"
        using Cons.prems(1) True can 2(1) by (simp add: p undisturbed_call[OF assms(1)])
      then show ?thesis using Cons.IH 2 Cons.prems(3,5) by simp
    next
      case (Some err)
      then consider jr where "r = Inr jr" | err' where "abandon_job e jm err d1 = (err', d')"
        using Cons.prems(1) True can
        by (auto simp: p undisturbed_call[OF assms(1)] split: if_splits prod.splits sum.splits)
      then show ?thesis
      proof cases
        case 2
        then show ?thesis using abandon_grown[OF assms(1,2) Cons.prems(2-4)] a True Cons.prems(4) by simp
      qed simp
    qed
  qed
qed auto

lemma created_grown:
  assumes "inv d" and "create_job_with_items_and_hold D now params d = Inr (r, d')" and "\<not> cr_reused r"
  obtains h where "grown d (cr_job r) h d'" and "job_status (cr_job r) = JobStatusCreated"
    and "hold_status h = HoldStatusOpen" "hold_amount h = quantize_money D (cj_estimated_cost params)"
      "hold_user_id h = cj_user_id params" "job_user_id (cr_job r) = cj_user_id params"
    and "job_item_count (cr_job r) = int (length (cj_items params))"
    and "db_items d' = db_items d @ item_rows now (job_id (cr_job r)) (cj_items params) (db_next_item d)"
  using assms(2)
proof (cases rule: create_jobD)
  case (reused j)
  with assms(3) show ?thesis by simp
next
  case (created b)
  note sch = inv_schema[OF assms(1)]
  have h: "\<forall>h \<in> set (db_holds d). hold_job_id h \<noteq> db_next_job d" using new_job_no_hold[OF sch] by blast
  have j: "\<forall>j \<in> set (db_jobs d). job_id j \<noteq> db_next_job d" using sch by (auto simp: schema_ok_def)
  show ?thesis
    by (rule that[of "\<lparr>hold_id = db_next_hold d, hold_job_id = db_next_job d, hold_user_id = cj_user_id params,
        hold_amount = quantize_money D (cj_estimated_cost params), hold_status = HoldStatusOpen,
        hold_created_at = now, hold_updated_at = now\<rparr>"])
      (use h j in \<open>simp_all add: created(6,7) insert_hold_new grown_def\<close>)
qed

section \<open>The properties\<close>

text \<open>A planned batch is the product of its images and its prompts. Item number k + 1 takes image
  k div m and prompt k mod m of the m prompts, library prompts before typed ones, so the images of one
  product come out together; there is at least one item and never more than the limit of the settings,
  which is at most 500; and the repository accepts the numbering.\<close>

theorem planned_batch_is_a_product:
  assumes "build_plan D e spec = Inr plan"
  shows "\<exists>asset_ids library prompts.
     plan_assets D e (sp_user_id spec) (trim_non_empty (sp_asset_uids spec)) = Inr asset_ids
     \<and> plan_prompts D e (sp_user_id spec) (trim_non_empty (sp_prompt_uids spec)) = Inr library
     \<and> prompts = library @ map (\<lambda>t. (None, t)) (trim_non_empty (sp_prompt_texts spec))
     \<and> length (pl_items plan) = length asset_ids * length prompts
     \<and> 0 < length (pl_items plan) \<and> int (length (pl_items plan)) \<le> max_batch_items (sv_settings e)
     \<and> max_batch_items (sv_settings e) \<le> 500
     \<and> (\<forall>k < length (pl_items plan). pl_items plan ! k =
          \<lparr>cji_seq = int k + 1, cji_asset_id = Some (asset_ids ! (k div length prompts)), cji_variant_id = None,
           cji_prompt_id = fst (prompts ! (k mod length prompts)), cji_prompt_text = snd (prompts ! (k mod length prompts)),
           cji_max_attempts = default_max_attempts\<rparr>)
     \<and> first_bad_seq 0 (pl_items plan) = None"
proof -
  obtain asset_ids library prompts where
    a: "plan_assets D e (sp_user_id spec) (trim_non_empty (sp_asset_uids spec)) = Inr asset_ids"
    and l: "plan_prompts D e (sp_user_id spec) (trim_non_empty (sp_prompt_uids spec)) = Inr library"
    and p: "prompts = library @ map (\<lambda>t. (None, t)) (trim_non_empty (sp_prompt_texts spec))"
    and i: "pl_items plan = expand_items asset_ids prompts 1" and ne: "asset_ids \<noteq> []" "prompts \<noteq> []"
    and le: "int (length asset_ids * length prompts) \<le> max_batch_items (sv_settings e)"
    by (rule build_planD[OF assms])
  have "first_bad_seq 0 (pl_items plan) = None" unfolding i by (rule first_bad_seq_expand)
  moreover have "\<forall>k < length (pl_items plan). pl_items plan ! k =
          \<lparr>cji_seq = int k + 1, cji_asset_id = Some (asset_ids ! (k div length prompts)), cji_variant_id = None,
           cji_prompt_id = fst (prompts ! (k mod length prompts)), cji_prompt_text = snd (prompts ! (k mod length prompts)),
           cji_max_attempts = default_max_attempts\<rparr>"
    unfolding i by (simp add: nth_expand_items)
  moreover have "length (pl_items plan) = length asset_ids * length prompts" "0 < length asset_ids * length prompts"
    unfolding i using ne by simp_all
  ultimately show ?thesis using a l p le max_batch_items_bounds by metis
qed

text \<open>C29: A batch submission that returns an error reserves nothing. In a database that satisfies the invariant
  and while no other process acts in between, whatever the start fails with, as long as the three
  clean-up calls get through, every user's open holds add up to what they were; and either the database
  is untouched, or one batch was added which has failed and does not occupy the idempotency key, so that
  the same submission can be made again.\<close>

theorem failed_submission_reserves_nothing:
  assumes "inv d" and "undisturbed e" and "clean_up_works e" and "service_create_job D e inp d = (Inl err, d')"
  shows "(\<forall>u. sum_open_holds d' u = sum_open_holds d u)
    \<and> (d' = d \<or> (\<exists>j. db_jobs d' = db_jobs d @ [j] \<and> job_status j = JobStatusFailed \<and> job_idempotency_key j = None))"
proof -
  have "d' = d \<or> abandoned d d'"
  proof (cases "d' = d")
    case False
    then obtain plan key r d1 where
      c: "create_job_with_items_and_hold D (sv_now e) (create_params D e inp plan key) d = Inr (r, d1)"
      and r: "\<not> cr_reused r" and st: "start_job e (cr_job r) d1 = (Inl err, d')"
      using assms(4) by (auto simp: service_create_job_def undisturbed_call[OF assms(2)]
          split: if_splits sum.splits prod.splits option.splits)
    obtain h where "grown d (cr_job r) h d1" by (rule created_grown[OF assms(1) c r])
    from start_steps_grown[OF assms(2,3) _ st[unfolded start_job_def] this] show ?thesis
      by (simp add: start_pairs_def)
  qed simp
  then show ?thesis unfolding abandoned_def using grown_holds by (auto simp: grown_def)
qed

lemma start_job_grown:
  assumes "undisturbed e" and "\<forall>p. sv_fails e p = None" and "grown d j h d1" and "job_status j = JobStatusCreated"
  obtains d3 j3 where "start_job e j d1 = (Inr (j\<lparr>job_status := JobStatusRunning\<rparr>), d3)"
    and "grown d j3 h d3" and "job_id j3 = job_id j" "job_status j3 = JobStatusRunning"
      "job_item_count j3 = job_item_count j" "job_user_id j3 = job_user_id j" "db_items d3 = db_items d1"
proof -
  have "can_transition (job_status j) JobStatusHolding" by (simp add: assms(4) status_simps)
  from grown_status[OF assms(3) this] obtain d2 j2 where 2:
    "update_job_status (sv_now e) (job_id j) JobStatusCreated JobStatusHolding d1 = Inr ((), d2)"
    "grown d j2 h d2" "job_id j2 = job_id j" "job_status j2 = JobStatusHolding"
    "job_item_count j2 = job_item_count j" "job_user_id j2 = job_user_id j" "db_items d2 = db_items d1"
    by (metis assms(4))
  have "can_transition (job_status j2) JobStatusRunning" by (simp add: 2 status_simps)
  from grown_status[OF 2(2) this] obtain d3 j3 where 3:
    "update_job_status (sv_now e) (job_id j) JobStatusHolding JobStatusRunning d2 = Inr ((), d3)"
    "grown d j3 h d3" "job_id j3 = job_id j" "job_status j3 = JobStatusRunning"
    "job_item_count j3 = job_item_count j" "job_user_id j3 = job_user_id j" "db_items d3 = db_items d1"
    by (metis 2(3-7))
  have "start_job e j d1 = (Inr (j\<lparr>job_status := JobStatusRunning\<rparr>), d3)"
    by (simp add: start_job_def assms(4) status_simps undisturbed_call[OF assms(1)] assms(2) 2(1) 3(1))
  then show ?thesis using 3(2-) by (rule that)
qed

lemma item_rows_plan:
  "map (\<lambda>i. (it_seq i, it_asset_id i, it_prompt_text i)) (item_rows now jid ps k)
     = map (\<lambda>p. (cji_seq p, cji_asset_id p, cji_prompt_text p)) ps"
  by (induction ps arbitrary: k) (auto simp: new_item_row_def)

text \<open>A batch submission that is accepted is running and paid for. With every call getting through,
  either an earlier batch of the same user with the same idempotency key is returned and nothing
  changes, or exactly one batch is added, in status running, with the planned items, all pending, and
  one open hold of their price.\<close>

theorem accepted_submission_runs:
  assumes "inv d" and "undisturbed e" and "\<forall>p. sv_fails e p = None"
    and "build_plan D e (ci_spec inp) = Inr plan" and "service_create_job D e inp d = (Inr j, d')"
  shows "(d' = d \<and> j \<in> set (db_jobs d) \<and> job_user_id j = sp_user_id (ci_spec inp)
        \<and> job_idempotency_key j = Some (trimmed_ptr (optional_string (ci_idempotency_key inp))))
    \<or> (\<exists>row h items. db_jobs d' = db_jobs d @ [row] \<and> db_holds d' = db_holds d @ [h] \<and> db_items d' = db_items d @ items
        \<and> job_id row = job_id j \<and> job_status row = JobStatusRunning \<and> job_user_id row = sp_user_id (ci_spec inp)
        \<and> job_item_count row = int (length (pl_items plan))
        \<and> map (\<lambda>i. (it_seq i, it_asset_id i, it_prompt_text i)) items
            = map (\<lambda>p. (cji_seq p, cji_asset_id p, cji_prompt_text p)) (pl_items plan)
        \<and> (\<forall>i \<in> set items. it_job_id i = job_id row \<and> it_status i = ItemStatusPending)
        \<and> hold_job_id h = job_id row \<and> hold_status h = HoldStatusOpen
        \<and> hold_amount h = quantize_money D (cost_of D (pl_pricing plan) (int (length (pl_items plan)))))"
proof -
  obtain key r d1 where
    c: "create_job_with_items_and_hold D (sv_now e) (create_params D e inp plan key) d = Inr (r, d1)"
    and st: "if cr_reused r then j = cr_job r \<and> d' = d1 else start_job e (cr_job r) d1 = (Inr j, d')"
    using assms(3-5) by (auto simp: service_create_job_def undisturbed_call[OF assms(2)]
        split: if_splits sum.splits prod.splits option.splits)
  note params = create_params_def Let_def
  show ?thesis
  proof (cases "cr_reused r")
    case True
    from c True st show ?thesis by (cases rule: create_jobD) (auto simp: params)
  next
    case False
    obtain h where g: "grown d (cr_job r) h d1" and js: "job_status (cr_job r) = JobStatusCreated"
      and h: "hold_status h = HoldStatusOpen" "hold_amount h = quantize_money D (cj_estimated_cost (create_params D e inp plan key))"
      and u: "job_user_id (cr_job r) = cj_user_id (create_params D e inp plan key)"
      and n: "job_item_count (cr_job r) = int (length (cj_items (create_params D e inp plan key)))"
      and it: "db_items d1 = db_items d @ item_rows (sv_now e) (job_id (cr_job r)) (cj_items (create_params D e inp plan key)) (db_next_item d)"
      by (rule created_grown[OF assms(1) c False])
    obtain d3 j3 where 3: "start_job e (cr_job r) d1 = (Inr ((cr_job r)\<lparr>job_status := JobStatusRunning\<rparr>), d3)"
      "grown d j3 h d3" "job_id j3 = job_id (cr_job r)" "job_status j3 = JobStatusRunning"
      "job_item_count j3 = job_item_count (cr_job r)" "job_user_id j3 = job_user_id (cr_job r)" "db_items d3 = db_items d1"
      by (rule start_job_grown[OF assms(2,3) g js])
    then have "d' = d3" and "job_id j = job_id (cr_job r)" using st False by auto
    then show ?thesis
      using 3 h u n it item_rows_plan item_rows_fields unfolding grown_def
      by (intro disjI2 exI[of _ j3] exI[of _ h] exI) (auto simp: params)
  qed
qed

text \<open>The requests of a customer that change a batch, served one after the other, each in an
  environment of its own.\<close>

datatype service_request =
  Submit create_job_input | Stop int string | Delete int string | RetryOne retry_item_input

definition serve :: "decimal_lib \<Rightarrow> service_env \<Rightarrow> service_request \<Rightarrow> db \<Rightarrow> db" where
  "serve D e req d =
     (case req of Submit inp \<Rightarrow> snd (service_create_job D e inp d) | Stop u uid \<Rightarrow> snd (stop_job D e u uid d)
      | Delete u uid \<Rightarrow> snd (delete_job D e u uid d) | RetryOne inp \<Rightarrow> snd (retry_job_item D e inp d))"

fun serve_all :: "decimal_lib \<Rightarrow> (service_env \<times> service_request) list \<Rightarrow> db \<Rightarrow> db" where
  "serve_all D [] d = d"
| "serve_all D ((e, req) # rest) d = serve_all D rest (serve D e req d)"

lemma serve_runs: "service_interference_ok D e \<Longrightarrow> decimal_ok D \<Longrightarrow> runs D {} d (serve D e req d)"
  by (cases req) (auto simp: serve_def intro: create_runs[OF _ _ prod.collapse[symmetric]]
      stop_runs[OF _ prod.collapse[symmetric]] delete_runs[OF _ prod.collapse[symmetric]]
      retry_runs[OF _ _ prod.collapse[symmetric]])

lemma serve_all_runs:
  "\<forall>(e, req) \<in> set reqs. service_interference_ok D e \<Longrightarrow> decimal_ok D \<Longrightarrow> runs D {} d (serve_all D reqs d)"
proof (induction reqs arbitrary: d)
  case (Cons p reqs)
  obtain e req where p: "p = (e, req)" by (cases p)
  have "runs D {} d (serve D e req d)" using Cons.prems by (intro serve_runs) (simp_all add: p)
  moreover have "runs D {} (serve D e req d) (serve_all D reqs (serve D e req d))" using Cons by simp
  ultimately show ?case unfolding p serve_all.simps by (rule runs_trans)
qed simp

text \<open>C28: Customers cannot leave the life cycle. From every reachable state, any number of submissions, stops,
  deletions and retries, whatever their input, whichever of their calls fail and whatever repository
  steps other processes make in between, are a run of repository steps, and lead to a reachable state
  again; so everything shown of reachable states and of runs holds while customers use the service.\<close>

theorem service_requests_refine_steps:
  assumes "decimal_ok D" and "reachable D (d, seen)" and "\<forall>(e, req) \<in> set reqs. interferes D (sv_meanwhile e)"
  shows "\<exists>seen'. steps D (d, seen) (serve_all D reqs d, seen') \<and> reachable D (serve_all D reqs d, seen')"
proof -
  have "runs D {} d (serve_all D reqs d)" using assms(3,1) by (rule serve_all_runs)
  then obtain seen' where "steps D (d, seen) (serve_all D reqs d, seen')" by (auto simp: runs_def)
  with assms(2) show ?thesis unfolding reachable_def by (meson rtranclp_trans)
qed

section \<open>Stopping\<close>

lemma undisturbed_must_get:
  assumes "undisturbed e" and "must_get_job D e p u uid d = (Inr j, d')"
  shows "d' = d" and "j \<in> set (db_jobs d)" and "job_uid j = uid"
  using assms(2) by (auto simp: must_get_job_def undisturbed_call[OF assms(1)] reading_def get_job_by_uid_def
      split: if_splits sum.splits prod.splits option.splits dest!: find_SomeD)

lemma schema_uids: "schema_ok d \<Longrightarrow> distinct (map job_uid (db_jobs d))"
  by (simp add: schema_ok_def)

lemma same_uid: "schema_ok d \<Longrightarrow> j \<in> set (db_jobs d) \<Longrightarrow> j' \<in> set (db_jobs d) \<Longrightarrow> job_uid j = job_uid j' \<Longrightarrow> j = j'"
  by (drule schema_uids) (auto simp: distinct_map dest: inj_onD)

lemma stop_jobD:
  assumes "undisturbed e" and "\<forall>p. sv_fails e p = None" and "stop_job D e u uid d = (Inr res, d')"
  obtains j d1 fresh where "must_get_job D e AtRead u uid d = (Inr j, d)" and "\<not> job_is_terminal (job_status j)"
    and "request_job_stop (sv_now e) (job_id j) d = Inr (sr_cancelled res, d1)"
    and "must_get_job D e AtReadAgain u uid d1 = (Inr fresh, d1)" and "sr_job res = fresh"
    and "sr_still_running res
       = max 0 (job_item_count fresh - job_success_count fresh - job_fail_count fresh - job_cancelled_count fresh)"
    and "d' = (if sr_still_running res = 0 \<and> job_item_count fresh > 0 then finalize_after_stop e fresh d1 else d1)"
proof -
  obtain r0 d0 where g0: "must_get_job D e AtRead u uid d = (r0, d0)" by fastforce
  with assms(3) obtain j where j: "r0 = Inr j" "\<not> job_is_terminal (job_status j)"
    by (cases r0) (auto simp: stop_job_def split: if_splits)
  have d0: "d0 = d" using undisturbed_must_get(1)[OF assms(1)] g0 j(1) by blast
  obtain n d1 where stop: "request_job_stop (sv_now e) (job_id j) d = Inr (n, d1)"
    using assms(3) g0 j d0 by (cases "request_job_stop (sv_now e) (job_id j) d")
      (auto simp: stop_job_def undisturbed_call[OF assms(1)] assms(2) split: if_splits)
  obtain r1 d2 where g1: "must_get_job D e AtReadAgain u uid d1 = (r1, d2)" by fastforce
  then obtain fresh where f: "r1 = Inr fresh"
    using assms(3) g0 j d0 stop by (cases r1)
      (auto simp: stop_job_def undisturbed_call[OF assms(1)] assms(2) split: if_splits)
  have d2: "d2 = d1" using undisturbed_must_get(1)[OF assms(1)] g1 f by blast
  show ?thesis
    by (rule that[OF g0[unfolded j(1) d0] j(2) _ g1[unfolded f d2]])
      (use assms(3) g0 j d0 stop g1 f d2 in
        \<open>auto simp: stop_job_def Let_def undisturbed_call[OF assms(1)] assms(2) max_def split: if_splits\<close>)
qed

text \<open>The row of a batch whose open items have all been cancelled.\<close>

lemma finalize_idle:
  assumes "undisturbed e" and "\<forall>p. sv_fails e p = None" and "inv d" and "j \<in> set (db_jobs d)"
    and "\<not> job_is_terminal (job_status j)" and "unfinished d (job_id j) = 0"
  shows "\<exists>j' \<in> set (db_jobs (finalize_after_stop e j d)). job_id j' = job_id j \<and> job_uid j' = job_uid j
    \<and> job_cancel_requested_at j' = job_cancel_requested_at j \<and> job_status j' = JobStatusSettling"
    and "db_items (finalize_after_stop e j d) = db_items d"
proof -
  let ?P = "\<lambda>r. job_id r = job_id j \<and> finalize_guard r"
  let ?f = "\<lambda>r. r\<lparr>job_status := JobStatusSettling, job_finished_at := Some (sv_now e), job_updated_at := sv_now e\<rparr>"
  have "job_is_valid (terminal_job_status n s f c stop)" for n s f c stop
    by (simp add: terminal_job_status_def status_simps)
  then have f: "finalize_after_stop e j d = update_jobs ?P ?f d"
    by (simp add: finalize_after_stop_def undisturbed_call[OF assms(1)] assms(2) finalize_job_def Let_def cong: if_cong)
  then show "db_items (finalize_after_stop e j d) = db_items d" by simp
  have "job_status j \<in> {JobStatusCreated, JobStatusHolding, JobStatusRunning} \<or> job_status j = JobStatusSettling"
    using inv_job(2)[OF assms(3,4)] assms(5) by (cases "job_status j") (auto simp: life_ok_def status_simps)
  then have "?f j \<in> set (upd ?P ?f (db_jobs d)) \<or> (j \<in> set (upd ?P ?f (db_jobs d)) \<and> job_status j = JobStatusSettling)"
  proof
    assume "job_status j \<in> {JobStatusCreated, JobStatusHolding, JobStatusRunning}"
    then have "?P j" using idle_guard[OF assms(3,4) _ assms(6)] by simp
    then show ?thesis using upd_mem[OF assms(4), of ?P ?f] by blast
  next
    assume st: "job_status j = JobStatusSettling"
    then have "\<not> ?P j" by (simp add: finalize_guard_status)
    then show ?thesis using assms(4) st by (force simp: upd_def)
  qed
  then show "\<exists>j' \<in> set (db_jobs (finalize_after_stop e j d)). job_id j' = job_id j \<and> job_uid j' = job_uid j
    \<and> job_cancel_requested_at j' = job_cancel_requested_at j \<and> job_status j' = JobStatusSettling"
    unfolding f update_fields by (elim disjE) (rule bexI[of _ "?f j"], simp_all, blast)
qed

lemma stop_keeps_job:
  "request_job_stop now jid d = Inr (n, d') \<Longrightarrow> j \<in> set (db_jobs d) \<Longrightarrow>
     \<exists>r \<in> set (db_jobs d'). job_id r = job_id j \<and> job_uid r = job_uid j"
  by (auto simp: request_job_stop_def Let_def bex_upd split: if_splits)

lemma stop_rows:
  assumes "inv d" and "request_job_stop now jid d = Inr (n, d')" and "j \<in> set (db_jobs d)" and "job_id j = jid"
    and "j' \<in> set (db_jobs d')" and "job_id j' = jid"
  shows "n = tally d ItemStatusPending jid" and "tally d' ItemStatusPending jid = 0"
    and "job_status j' = job_status j" and "job_cancel_requested_at j' \<noteq> None"
    and "job_item_count j' - job_success_count j' - job_fail_count j' - job_cancelled_count j' = tally d' ItemStatusRunning jid"
proof -
  note c = request_job_stop_contract[OF assms(1-4)]
  have i: "inv d'" using assms(1,2) by (rule inv_request_job_stop)
  show "n = tally d ItemStatusPending jid" using c by (simp add: tally_def)
  show p: "tally d' ItemStatusPending jid = 0"
    using c by (auto simp: tally_def affected_eq_0 cancel_item_def)
  obtain r where r: "r \<in> set (db_jobs d')" "job_id r = jid" "job_status r = job_status j"
    "job_cancel_requested_at r = (case job_cancel_requested_at j of None \<Rightarrow> Some now | Some t \<Rightarrow> Some t)"
    using c by blast
  then have "r = j'" using same_job[OF inv_schema[OF i] _ assms(5)] assms(6) by simp
  then show "job_status j' = job_status j" "job_cancel_requested_at j' \<noteq> None"
    using r(3,4) by (auto split: option.splits)
  show "job_item_count j' - job_success_count j' - job_fail_count j' - job_cancelled_count j' = tally d' ItemStatusRunning jid"
    using inv_job(1)[OF i assms(5)] tally_total[OF inv_items[OF i], of jid] p assms(6)
    by (simp add: counters_match_def unfinished_def)
qed

text \<open>Stopping an idle batch closes it. When a stop gets through undisturbed, the batch has a stop
  request, none of its items is pending, the answer tells how many items were cancelled and how many
  are still running; and when none is running the batch is on its way to its settlement at once, so
  that no money stays frozen for work nobody will do.\<close>

theorem stop_closes_idle_batch:
  assumes "inv d" and "undisturbed e" and "\<forall>p. sv_fails e p = None" and "stop_job D e u uid d = (Inr res, d')"
  shows "\<exists>j \<in> set (db_jobs d'). job_id j = job_id (sr_job res) \<and> job_uid j = uid \<and> job_cancel_requested_at j \<noteq> None
    \<and> sr_cancelled res = tally d ItemStatusPending (job_id j) \<and> tally d' ItemStatusPending (job_id j) = 0
    \<and> sr_still_running res = tally d' ItemStatusRunning (job_id j)
    \<and> (sr_still_running res = 0 \<longrightarrow> job_status j = JobStatusSettling)"
proof -
  obtain j d1 fresh where g0: "must_get_job D e AtRead u uid d = (Inr j, d)" and nt: "\<not> job_is_terminal (job_status j)"
    and stop: "request_job_stop (sv_now e) (job_id j) d = Inr (sr_cancelled res, d1)"
    and g1: "must_get_job D e AtReadAgain u uid d1 = (Inr fresh, d1)" and res: "sr_job res = fresh"
      "sr_still_running res = max 0 (job_item_count fresh - job_success_count fresh - job_fail_count fresh - job_cancelled_count fresh)"
    and d': "d' = (if sr_still_running res = 0 \<and> job_item_count fresh > 0 then finalize_after_stop e fresh d1 else d1)"
    by (rule stop_jobD[OF assms(2-4)])
  note j = undisturbed_must_get[OF assms(2) g0] and f = undisturbed_must_get[OF assms(2) g1]
  have i1: "inv d1" using assms(1) stop by (rule inv_request_job_stop)
  obtain r where r: "r \<in> set (db_jobs d1)" "job_id r = job_id j" "job_uid r = job_uid j"
    using stop_keeps_job[OF stop j(2)] by blast
  then have id: "job_id fresh = job_id j"
    using same_uid[OF inv_schema[OF i1] f(2)] f(3) j(3) by simp
  note st = stop_rows[OF assms(1) stop j(2) refl f(2) id]
  have run: "sr_still_running res = tally d1 ItemStatusRunning (job_id fresh)"
    using st(5) affected_nonneg unfolding res id tally_def by (simp add: max_absorb2)
  show ?thesis
  proof (cases "sr_still_running res = 0")
    case True
    then have "unfinished d1 (job_id fresh) = 0" using st(2) run by (simp add: unfinished_def id)
    note fin = finalize_idle[OF assms(2,3) i1 f(2) _ this]
    have "0 < job_item_count fresh" using inv_job(2)[OF i1 f(2)] by (simp add: life_ok_def)
    then have "d' = finalize_after_stop e fresh d1" using d' True by simp
    then show ?thesis using fin st nt run res(1) f(3) id by (auto simp: tally_def)
  next
    case False
    then have "d' = d1" using d' by simp
    then show ?thesis using st f run False res(1) id by (intro bexI[of _ fresh]) auto
  qed
qed

section \<open>A submission of two images\<close>

text \<open>
  The inputs of the witnesses: one product image and two prompts, one of the texts empty, at three
  dollars an image, with every call getting through or with the queue down.
\<close>

definition demo_asset :: asset where
  "demo_asset = \<lparr>as_id = 5, as_uid = ''a1'', as_user_id = 7, as_object_key = ''k'', as_content_type = ''image/png'',
     as_byte_size = 10, as_width = None, as_height = None, as_sha256 = None, as_origin = OriginWeb,
     as_created_at = now0, as_deleted_at = None\<rparr>"

definition demo_settings :: settings where
  "demo_settings key = Inr (if key = setting_key_unit_prices then Some (JObject [(''2K'', JString ''3'')]) else None)"

definition demo_service :: "(service_point \<Rightarrow> go_error option) \<Rightarrow> service_env" where
  "demo_service fails = \<lparr>sv_now = now0, sv_uid = sample_uid, sv_settings = demo_settings,
     sv_asset = (\<lambda>u uid. Inr (Some demo_asset)), sv_prompt = (\<lambda>uid. Inr None), sv_keys = None, sv_store = None,
     sv_meanwhile = (\<lambda>p d. d), sv_fails = fails\<rparr>"

definition demo_spec :: job_spec where
  "demo_spec = \<lparr>sp_user_id = 7, sp_origin = OriginWeb, sp_ratio = ''1:1'', sp_asset_uids = [''a1''],
     sp_prompt_uids = [], sp_prompt_texts = [''a red mug'', [], ''a blue mug''], sp_model = [],
     sp_keep_transparency = False\<rparr>"

definition demo_input :: create_job_input where
  "demo_input = \<lparr>ci_spec = demo_spec, ci_name = ''mugs'', ci_callback_url = [], ci_idempotency_key = ''k1'',
     ci_api_key_id = 3\<rparr>"

lemma demo_trims [simp]: "trim_space ''3'' = ''3''" "trim_space ''gpt-image-2'' = ''gpt-image-2''"
  "trim_space ''mugs'' = ''mugs''" "trim_space ''a1'' = ''a1''" "trim_space ''a red mug'' = ''a red mug''"
  "trim_space ''a blue mug'' = ''a blue mug''"
  by (rule trim_space_ends; code_simp)+

lemma digits: "itoa 1 = ''1''" "itoa 3 = ''3''" 
    by (simp_all add: itoa_def nat_digits.simps digit_char_def char_of_def bit_Suc_0_iff)

lemma ratio_1_1: "parse_ratio_parts ''1:1'' = Inr (1, 1)"
  using parse_ratio_printed[of 1 1] by (simp add: digits)

lemma demo_setting [simp]: "setting_raw demo_settings k = (if k = setting_key_unit_prices then Some (JObject [(''2K'', JString ''3'')]) else None)"
  by (simp add: setting_raw_def demo_settings_def)

lemmas setting_keys = setting_key_unit_prices_def setting_key_rate_multiplier_def setting_key_ratios_def setting_key_model_def
  setting_key_max_batch_items_def setting_key_admin_contact_def setting_key_max_dimension_def

lemma demo_ratio: "check_ratio demo_settings ''1:1'' = None"
  by (simp add: check_ratio_def allowed_ratios_def validate_ratio_def ratio_1_1 is_allowed_def default_ratios_def setting_keys)

lemma demo_amount: "money_from_string dec_ref ''3'' = Some 3"
  using atoi_itoa[of 3] by (simp add: money_from_string_def dec_ref_def digits)

lemma demo_tier: "Ratio.target_size ''1:1'' (max_dimension_setting demo_settings) = Inr (2048, 2048)"
  by (simp add: max_dimension_setting_def Ratio.target_size_def ratio_1_1 setting_keys default_max_dimension_def
     go_div_def wrap64_def)

definition demo_priced :: job_pricing where
  "demo_priced = \<lparr>jp_tier = ''2K'', jp_unit_price = Some 3, jp_multiplier = 1,
    jp_source = job_price_source_settings, jp_billing_mode = ''image''\<rparr>"

lemma demo_price: "resolve_pricing dec_ref demo_settings ''1:1'' = demo_priced"
  by (simp add: resolve_pricing_def demo_tier classify_billing_tier_or_default_def classify_billing_tier_def
     rate_multiplier_def unit_price_table_def setting_keys Let_def
     multiplier_one[OF dec_ref_ok] demo_amount demo_priced_def)

definition demo_plan :: job_plan where
  "demo_plan = \<lparr>pl_items = expand_items [5] [(None, ''a red mug''), (None, ''a blue mug'')] 1,
     pl_asset_count = 1, pl_prompt_count = 2, pl_pricing = demo_priced, pl_model = ''gpt-image-2''\<rparr>"

definition no_failure :: "service_point \<Rightarrow> go_error option" where "no_failure p = None"

definition queue_down :: "service_point \<Rightarrow> go_error option" where
  "queue_down p = (if p = AtStart JobStatusRunning then Some (Opaque ''down'') else None)"

lemma demo_build: "build_plan dec_ref (demo_service fails) demo_spec = Inr demo_plan"
  by (simp add: build_plan_def demo_service_def demo_spec_def demo_ratio demo_price demo_asset_def demo_plan_def
     max_batch_items_def default_max_batch_items_def default_model_setting_def setting_keys default_model_def Let_def)

lemma demo_cost: "cost_of dec_ref demo_priced 2 = 6"
  by (simp add: cost_of_def demo_priced_def money_from_int_def)

lemma demo_create: "\<exists>r d1. create_job_with_items_and_hold dec_ref now0
    (create_params dec_ref (demo_service fails) demo_input demo_plan 3) demo_start = Inr (r, d1) \<and> \<not> cr_reused r"
  by (simp add: create_params_def demo_input_def demo_spec_def demo_plan_def create_job_with_items_and_hold_def
      validate_create_job_params_def demo_start_def demo_cost demo_service_def optional_string_def
      empty_db_def demo_user_def lock_user_balance_def trimmed_ptr_def
      find_job_by_idempotency_key_def sum_open_holds_def insert_job_def Let_def)

lemma demo_undisturbed: "undisturbed (demo_service fails)"
  by (simp add: undisturbed_def demo_service_def)

text \<open>How the submission of the demonstration goes on once its batch is there.\<close>

lemma demo_submit:
  assumes "fails AtCreateJob = None"
  obtains r :: create_job_result and d1 h where "service_create_job dec_ref (demo_service fails) demo_input demo_start
       = start_job (demo_service fails) (cr_job r) d1"
    and "grown demo_start (cr_job r) h d1" and "job_status (cr_job r) = JobStatusCreated"
proof -
  obtain r d1 where c: "create_job_with_items_and_hold dec_ref now0
    (create_params dec_ref (demo_service fails) demo_input demo_plan 3) demo_start = Inr (r, d1)" "\<not> cr_reused r"
    using demo_create by blast
  have i: "inv demo_start" by (simp add: demo_start_def inv_empty_db)
  have inp: "ci_spec demo_input = demo_spec" "ci_api_key_id demo_input = 3" "sp_user_id demo_spec = 7"
    by (simp_all add: demo_input_def demo_spec_def)
  have e: "sv_now (demo_service fails) = now0" "sv_fails (demo_service fails) = fails" by (simp_all add: demo_service_def)
  have s: "service_create_job dec_ref (demo_service fails) demo_input demo_start = start_job (demo_service fails) (cr_job r) d1"
    using c assms by (simp add: service_create_job_def inp e demo_build resolve_api_key_id_def undisturbed_call[OF demo_undisturbed])
  obtain h where "grown demo_start (cr_job r) h d1" "job_status (cr_job r) = JobStatusCreated"
    by (rule created_grown[OF i c])
  with s show ?thesis by (rule that)
qed

theorem planned_batch_is_a_product_witness:
  "first_bad_seq 0 (pl_items demo_plan) = None \<and> length (pl_items demo_plan) = 2"
  using planned_batch_is_a_product[OF demo_build[of "\<lambda>p. None"]] by (simp add: demo_plan_def)

lemma demo_creates: "queue_down AtCreateJob = None" "no_failure AtCreateJob = None"
  by (simp_all add: queue_down_def no_failure_def)

theorem failed_submission_reserves_nothing_witness:
  "\<exists>err d'. service_create_job dec_ref (demo_service queue_down) demo_input demo_start = (Inl err, d')
     \<and> sum_open_holds d' 7 = 0"
proof -
  obtain r :: create_job_result and d1 h where s: "service_create_job dec_ref (demo_service queue_down) demo_input demo_start
       = start_job (demo_service queue_down) (cr_job r) d1"
    and g: "grown demo_start (cr_job r) h d1" and j: "job_status (cr_job r) = JobStatusCreated"
    by (rule demo_submit[of queue_down, OF demo_creates(1)])
  note u = undisturbed_call[OF demo_undisturbed]
  have e: "sv_fails (demo_service queue_down) = queue_down" by (simp add: demo_service_def)
  have can: "can_transition (job_status (cr_job r)) JobStatusHolding" by (simp add: j status_simps)
  obtain d2 where "update_job_status (sv_now (demo_service queue_down)) (job_id (cr_job r)) JobStatusCreated JobStatusHolding d1 = Inr ((), d2)"
    by (rule grown_status[OF g can, unfolded j])
  then have "\<exists>err d'. start_job (demo_service queue_down) (cr_job r) d1 = (Inl err, d')"
    by (simp add: start_job_def u e j queue_down_def status_simps split: prod.split)
  then obtain err d' where r: "start_job (demo_service queue_down) (cr_job r) d1 = (Inl err, d')" by blast
  have "sum_open_holds d' 7 = sum_open_holds demo_start 7"
    using failed_submission_reserves_nothing[OF _ demo_undisturbed _ s[unfolded r]]
    by (simp add: demo_start_def inv_empty_db clean_up_works_def e queue_down_def)
  with s r show ?thesis by (simp add: demo_start_def empty_db_def sum_open_holds_def)
qed

theorem accepted_submission_runs_witness:
  "\<exists>j d' row. service_create_job dec_ref (demo_service no_failure) demo_input demo_start = (Inr j, d')
     \<and> db_jobs d' = [row] \<and> job_status row = JobStatusRunning \<and> job_item_count row = 2"
proof -
  obtain r :: create_job_result and d1 h where s: "service_create_job dec_ref (demo_service no_failure) demo_input demo_start
       = start_job (demo_service no_failure) (cr_job r) d1"
    and g: "grown demo_start (cr_job r) h d1" and j: "job_status (cr_job r) = JobStatusCreated"
    by (rule demo_submit[of no_failure, OF demo_creates(2)])
  have ok: "\<forall>p. sv_fails (demo_service no_failure) p = None" by (simp add: demo_service_def no_failure_def)
  obtain jr d' where r: "start_job (demo_service no_failure) (cr_job r) d1 = (Inr jr, d')"
    using start_job_grown[OF demo_undisturbed ok g j] by metis
  have b: "build_plan dec_ref (demo_service no_failure) (ci_spec demo_input) = Inr demo_plan"
    by (simp add: demo_input_def demo_build)
  have "inv demo_start" by (simp add: demo_start_def inv_empty_db)
  from accepted_submission_runs[OF this demo_undisturbed ok b s[unfolded r]] s r show ?thesis
    by (auto simp: demo_start_def empty_db_def demo_plan_def)
qed

theorem service_requests_refine_steps_witness:
  "\<exists>seen'. steps dec_ref (demo_start, {}) (serve_all dec_ref
       [(demo_service no_failure, Submit demo_input), (demo_service queue_down, Stop 7 sample_uid)] demo_start, seen')
     \<and> reachable dec_ref (serve_all dec_ref
       [(demo_service no_failure, Submit demo_input), (demo_service queue_down, Stop 7 sample_uid)] demo_start, seen')"
  by (rule service_requests_refine_steps[OF dec_ref_ok])
    (simp_all add: demo_start_def reachable_start demo_service_def interferes_def)

theorem stop_closes_idle_batch_witness:
  "\<exists>res d'. stop_job dec_ref (demo_service no_failure) 7 sample_uid demo_running = (Inr res, d')
     \<and> (\<exists>j \<in> set (db_jobs d'). job_status j = JobStatusSettling)"
proof -
  have ok: "\<forall>p. sv_fails (demo_service no_failure) p = None" by (simp add: demo_service_def no_failure_def)
  have i: "inv demo_running" by (rule reachable_ok(1)[OF reachable_demo_running dec_ref_ok])
  obtain res d' where "stop_job dec_ref (demo_service no_failure) 7 sample_uid demo_running = (Inr res, d')" "sr_still_running res = 0"
    by (simp add: stop_job_def must_get_job_def undisturbed_call[OF demo_undisturbed] ok reading_def get_job_by_uid_def
        request_job_stop_def update_items_def update_jobs_def cancel_item_def is_settled_def demo_states demo_rows upd_def Let_def status_simps)
  with stop_closes_idle_batch[OF i demo_undisturbed ok] show ?thesis by blast
qed

end
