(* ===== verification/Object_Store.thy ===== *)
theory Object_Store
  imports Go_Errors Entities "HOL-Library.AList" "HOL-Library.Sublist"
begin

text \<open>
  The object store: \<open>storage/key.go\<close> and \<open>storage/local.go\<close>. The file system is the list of its
  nodes by absolute path, symbolic links included; the standard library's calls on it follow links
  where the system calls do. An \<open>io_env\<close> says what goes wrong during one operation: which system
  calls fail, whether the context is done, which temporary names are tried. \<open>object_store\<close> is the
  interface \<open>domain.ObjectStore\<close>, and the locale \<open>object_store_laws\<close> what its users rely on: a store
  is a map from keys to bytes.
\<close>

section \<open>Keys\<close>

definition max_object_key_len :: nat where "max_object_key_len = 512"
definition max_key_segment_len :: nat where "max_key_segment_len = 255"

definition is_allowed_key_byte :: "char \<Rightarrow> bool" where
  "is_allowed_key_byte c =
     (let b = (of_char c :: nat)
      in if 97 \<le> b \<and> b \<le> 122 then True
         else if 65 \<le> b \<and> b \<le> 90 then True
         else if 48 \<le> b \<and> b \<le> 57 then True
         else c = CHR ''.'' \<or> c = CHR ''_'' \<or> c = CHR ''-'' \<or> c = CHR ''/'')"

text \<open>The character of a byte, as UTF-8.\<close>

definition byte_text :: "char \<Rightarrow> string" where
  "byte_text c = (let b = (of_char c :: nat) in if b < 128 then [c] else bytes [192 + b div 64, 128 + b mod 64])"

definition invalid_key :: "string \<Rightarrow> go_error" where
  "invalid_key why = Wrapped (sentinel_text ErrInvalidKey @ '': '' @ why) (Sentinel ErrInvalidKey)"

definition check_segment :: "string \<Rightarrow> string \<Rightarrow> go_error option" where
  "check_segment key segment =
     (if segment = [] then Some (invalid_key ((bytes [107, 101, 121, 32, 233, 135, 140, 230, 156, 137, 231, 169, 186, 231, 154, 132, 232, 183,
      175, 229, 190, 132, 230, 174, 181, 239, 188, 136, 232, 191, 158, 231, 187, 173, 231, 154,
      132, 32, 47, 239, 188, 137, 239, 188, 154]) @ go_quote key))
      else if segment = ''.'' \<or> segment = ''..''
        then Some (invalid_key ((bytes [107, 101, 121, 32, 233, 135, 140, 230, 156, 137, 32]) @ go_quote segment @ (bytes [32, 232, 191, 153, 230, 160, 183, 231, 154, 132, 231, 155, 184, 229, 175, 185, 232, 183,
      175, 229, 190, 132, 230, 174, 181, 239, 188, 154]) @ go_quote key))
      else if has_prefix ''.'' segment then Some (invalid_key ((bytes [107, 101, 121, 32, 231, 154, 132, 232, 183, 175, 229, 190, 132, 230, 174, 181, 228, 184,
      141, 232, 131, 189, 228, 187, 165, 32, 46, 32, 229, 188, 128, 229, 164, 180, 239, 188, 154]) @ go_quote key))
      else if has_suffix ''.'' segment then Some (invalid_key ((bytes [107, 101, 121, 32, 231, 154, 132, 232, 183, 175, 229, 190, 132, 230, 174, 181, 228, 184,
      141, 232, 131, 189, 228, 187, 165, 32, 46, 32, 231, 187, 147, 229, 176, 190, 239, 188, 154]) @ go_quote key))
      else if length segment > max_key_segment_len
        then Some (invalid_key ((bytes [107, 101, 121, 32, 231, 154, 132, 232, 183, 175, 229, 190, 132, 230, 174, 181, 232, 182,
      133, 232, 191, 135, 32]) @ itoa (int max_key_segment_len) @ (bytes [32, 229, 173, 151, 232, 138, 130, 239, 188, 154]) @ go_quote key))
      else None)"

fun first_some :: "('a \<Rightarrow> 'b option) \<Rightarrow> 'a list \<Rightarrow> 'b option" where
  "first_some f [] = None"
| "first_some f (x # xs) = (case f x of Some y \<Rightarrow> Some y | None \<Rightarrow> first_some f xs)"

definition validate_key :: "string \<Rightarrow> go_error option" where
  "validate_key key =
     (if key = [] then Some (invalid_key (bytes [107, 101, 121, 32, 230, 152, 175, 231, 169, 186, 231, 154, 132]))
      else if length key > max_object_key_len
        then Some (invalid_key ((bytes [107, 101, 121, 32, 233, 149, 191, 229, 186, 166, 32]) @ itoa (int (length key)) @ (bytes [32, 232, 182, 133, 232, 191, 135, 228, 184, 138, 233, 153, 144, 32]) @ itoa (int max_object_key_len)))
      else if has_prefix ''/'' key then Some (invalid_key ((bytes [107, 101, 121, 32, 228, 184, 141, 232, 131, 189, 228, 187, 165, 32, 47, 32, 229, 188, 128,
      229, 164, 180, 239, 188, 136, 233, 130, 163, 230, 152, 175, 231, 187, 157, 229, 175, 185,
      232, 183, 175, 229, 190, 132, 239, 188, 137, 239, 188, 154]) @ go_quote key))
      else if has_suffix ''/'' key then Some (invalid_key ((bytes [107, 101, 121, 32, 228, 184, 141, 232, 131, 189, 228, 187, 165, 32, 47, 32, 231, 187, 147,
      229, 176, 190, 239, 188, 136, 233, 130, 163, 230, 152, 175, 231, 155, 174, 229, 189, 149,
      239, 188, 137, 239, 188, 154]) @ go_quote key))
      else case find (\<lambda>c. \<not> is_allowed_key_byte c) key of
             Some c \<Rightarrow> Some (invalid_key ((bytes [107, 101, 121, 32, 233, 135, 140, 229, 135, 186, 231, 142, 176, 228, 186, 134, 228, 184,
      141, 229, 133, 129, 232, 174, 184, 231, 154, 132, 229, 173, 151, 231, 172, 166, 32]) @ go_quote (byte_text c) @ (bytes [239, 188, 154]) @ go_quote key))
           | None \<Rightarrow> first_some (check_segment key) (split_on CHR ''/'' key))"

section \<open>Paths\<close>

text \<open>
  An absolute path is the list of its names. \<open>path_of\<close> reads a rooted path the way \<open>filepath.Clean\<close>
  does, \<open>path_text\<close> writes it back.
\<close>

type_synonym path = "string list"

definition clean_step :: "path \<Rightarrow> string \<Rightarrow> path" where
  "clean_step p s = (if s = [] \<or> s = ''.'' then p else if s = ''..'' then butlast p else p @ [s])"

definition path_of :: "string \<Rightarrow> path" where
  "path_of s = foldl clean_step [] (split_on CHR ''/'' s)"

definition path_text :: "path \<Rightarrow> string" where
  "path_text p = (if p = [] then ''/'' else concat (map (\<lambda>s. CHR ''/'' # s) p))"

definition clean_path :: "string \<Rightarrow> string" where
  "clean_path s = path_text (path_of s)"

definition join_path :: "string \<Rightarrow> string \<Rightarrow> string" where
  "join_path a b = clean_path (a @ ''/'' @ b)"

text \<open>\<open>filepath.Rel\<close> of two rooted paths, as the list of its segments.\<close>

fun rel_path :: "path \<Rightarrow> path \<Rightarrow> path" where
  "rel_path (b # bs) (t # ts) = (if b = t then rel_path bs ts else replicate (Suc (length bs)) ''..'' @ t # ts)"
| "rel_path [] ts = ts"
| "rel_path bs [] = replicate (length bs) ''..''"

definition file_ext :: "string \<Rightarrow> string" where
  "file_ext s =
     (let base = takeWhile (\<lambda>c. c \<noteq> CHR ''/'') (rev s)
      in if CHR ''.'' \<in> set base then CHR ''.'' # rev (takeWhile (\<lambda>c. c \<noteq> CHR ''.'') base) else [])"

section \<open>The file system\<close>

datatype node = Dir | File string | Link path | Special

type_synonym fs = "(path \<times> node) list"

datatype io_error = ENOENT | ENOTDIR | ELOOP | EEXIST | ENOTEMPTY | EISDIR | EOther string

fun io_text :: "io_error \<Rightarrow> string" where
  "io_text ENOENT = ''no such file or directory''"
| "io_text ENOTDIR = ''not a directory''"
| "io_text ELOOP = ''too many levels of symbolic links''"
| "io_text EEXIST = ''file exists''"
| "io_text ENOTEMPTY = ''directory not empty''"
| "io_text EISDIR = ''is a directory''"
| "io_text (EOther t) = t"

text \<open>
  The system's walk along a path: every symbolic link on the way is followed, the last one only when
  \<open>follow\<close> says so. The result is the place of the last name, which need not exist.
\<close>

function walk :: "bool \<Rightarrow> nat \<Rightarrow> fs \<Rightarrow> path \<Rightarrow> path \<Rightarrow> io_error + path" where
  "walk follow n fs cur [] = Inr cur"
| "walk follow n fs cur (s # rest) =
     (case map_of fs (cur @ [s]) of
        None \<Rightarrow> if rest = [] then Inr (cur @ [s]) else Inl ENOENT
      | Some Dir \<Rightarrow> walk follow n fs (cur @ [s]) rest
      | Some (Link t) \<Rightarrow>
          if rest = [] \<and> \<not> follow then Inr (cur @ [s])
          else if n = 0 then Inl ELOOP else walk follow (n - 1) fs [] (t @ rest)
      | Some _ \<Rightarrow> if rest = [] then Inr (cur @ [s]) else Inl ENOTDIR)"
  by pat_completeness auto
termination
  by (relation "(\<lambda>(follow, n, fs, cur, p). n) <*mlex*> measure (\<lambda>(follow, n, fs, cur, p). length p)")
     (auto intro!: wf_mlex simp: mlex_less mlex_leq)

definition max_links :: nat where "max_links = 40"

definition find_node :: "bool \<Rightarrow> fs \<Rightarrow> path \<Rightarrow> io_error + path \<times> node" where
  "find_node follow fs p =
     (case walk follow max_links fs [] p of
        Inl e \<Rightarrow> Inl e
      | Inr q \<Rightarrow> (case map_of fs q of None \<Rightarrow> Inl ENOENT | Some nd \<Rightarrow> Inr (q, nd)))"

datatype io_call =
    IoLstat nat path | IoMkdir path | IoCreate path | IoWrite path | IoSync path | IoClose path
  | IoRename path path | IoRemove path | IoRead path

record io_env =
  io_done :: "bool option"
  io_fails :: "io_call \<Rightarrow> string option"
  io_temp_names :: "nat list"
  io_written :: nat
  io_detect :: "string \<Rightarrow> string"

text \<open>\<open>ctx.Err()\<close>: \<open>io_done\<close> says whether the context is done, and if so by its deadline or by a cancel.\<close>

definition ctx_error :: "bool \<Rightarrow> go_error" where
  "ctx_error deadline = Sentinel (if deadline then ContextDeadlineExceeded else ContextCanceled)"

definition lstat :: "io_env \<Rightarrow> nat \<Rightarrow> fs \<Rightarrow> path \<Rightarrow> io_error + node" where
  "lstat env k fs p =
     (case io_fails env (IoLstat k p) of
        Some t \<Rightarrow> Inl (EOther t)
      | None \<Rightarrow> (case find_node False fs p of Inl e \<Rightarrow> Inl e | Inr (q, nd) \<Rightarrow> Inr nd))"

text \<open>\<open>os.MkdirAll\<close>: the missing directories from the top; the ones made before a failure stay.\<close>

fun mkdir_all :: "io_env \<Rightarrow> fs \<Rightarrow> path \<Rightarrow> path \<Rightarrow> io_error option \<times> fs" where
  "mkdir_all env fs cur [] = (None, fs)"
| "mkdir_all env fs cur (s # rest) =
     (case find_node True fs (cur @ [s]) of
        Inr (q, Dir) \<Rightarrow> mkdir_all env fs (cur @ [s]) rest
      | Inr (q, _) \<Rightarrow> (Some ENOTDIR, fs)
      | Inl ENOENT \<Rightarrow>
         (case io_fails env (IoMkdir (cur @ [s])) of
            Some t \<Rightarrow> (Some (EOther t), fs)
          | None \<Rightarrow>
            (case walk False max_links fs [] (cur @ [s]) of
               Inl e \<Rightarrow> (Some e, fs)
             | Inr q \<Rightarrow> if map_of fs q = None then mkdir_all env (AList.update q Dir fs) (cur @ [s]) rest
                       else (Some EEXIST, fs)))
      | Inl e \<Rightarrow> (Some e, fs))"

definition has_child :: "fs \<Rightarrow> path \<Rightarrow> bool" where
  "has_child fs p \<longleftrightarrow> list_ex (\<lambda>(q, nd). q \<noteq> [] \<and> butlast q = p) fs"

definition os_remove :: "io_env \<Rightarrow> fs \<Rightarrow> path \<Rightarrow> io_error option \<times> fs" where
  "os_remove env fs p =
     (case io_fails env (IoRemove p) of
        Some t \<Rightarrow> (Some (EOther t), fs)
      | None \<Rightarrow>
        (case find_node False fs p of
           Inl e \<Rightarrow> (Some e, fs)
         | Inr (q, Dir) \<Rightarrow> if has_child fs q then (Some ENOTEMPTY, fs) else (None, AList.delete q fs)
         | Inr (q, _) \<Rightarrow> (None, AList.delete q fs)))"

text \<open>\<open>os.CreateTemp\<close>: the first of the random names that is not taken.\<close>

definition tmp_prefix :: string where "tmp_prefix = ''.dktmp-''"

fun create_temp :: "io_env \<Rightarrow> fs \<Rightarrow> path \<Rightarrow> nat list \<Rightarrow> (io_error + path) \<times> fs" where
  "create_temp env fs dir [] = (Inl EEXIST, fs)"
| "create_temp env fs dir (x # xs) =
     (let p = dir @ [tmp_prefix @ nat_digits x]
      in case io_fails env (IoCreate p) of
           Some t \<Rightarrow> (Inl (EOther t), fs)
         | None \<Rightarrow>
           (case walk False max_links fs [] p of
              Inl e \<Rightarrow> (Inl e, fs)
            | Inr q \<Rightarrow> if map_of fs q = None then (Inr q, AList.update q (File []) fs)
                      else create_temp env fs dir xs))"

text \<open>\<open>os.Rename\<close> of a file: it replaces a file or a link, not a directory.\<close>

definition rename_file :: "io_env \<Rightarrow> fs \<Rightarrow> path \<Rightarrow> path \<Rightarrow> io_error option \<times> fs" where
  "rename_file env fs src dst =
     (case io_fails env (IoRename src dst) of
        Some t \<Rightarrow> (Some (EOther t), fs)
      | None \<Rightarrow>
        (case (walk False max_links fs [] dst, map_of fs src) of
           (Inl e, _) \<Rightarrow> (Some e, fs)
         | (_, None) \<Rightarrow> (Some ENOENT, fs)
         | (Inr q, Some nd) \<Rightarrow>
             if map_of fs q = Some Dir then (Some EEXIST, fs)
             else (None, AList.update q nd (AList.delete src fs))))"

definition read_file :: "io_env \<Rightarrow> fs \<Rightarrow> path \<Rightarrow> io_error + string" where
  "read_file env fs p =
     (case io_fails env (IoRead p) of
        Some t \<Rightarrow> Inl (EOther t)
      | None \<Rightarrow>
        (case find_node True fs p of
           Inl e \<Rightarrow> Inl e
         | Inr (q, File d) \<Rightarrow> Inr d
         | Inr (q, Dir) \<Rightarrow> Inl EISDIR
         | Inr (q, _) \<Rightarrow> Inl (EOther ''invalid argument'')))"

section \<open>The local store\<close>

definition path_error :: "string \<Rightarrow> string \<Rightarrow> path \<Rightarrow> io_error \<Rightarrow> go_error" where
  "path_error what op p e =
     (let t = op @ '' '' @ path_text p @ '': '' @ io_text e in Wrapped (''designkit storage: '' @ what @ t) (Opaque t))"

fun check_links :: "io_env \<Rightarrow> nat \<Rightarrow> fs \<Rightarrow> path \<Rightarrow> path \<Rightarrow> go_error option" where
  "check_links env k fs cur [] = None"
| "check_links env k fs cur (segment # rest) =
     (let cur = clean_step cur segment
      in case lstat env k fs cur of
           Inl ENOENT \<Rightarrow> None
         | Inl e \<Rightarrow> Some (path_error ((bytes [230, 163, 128, 230, 159, 165, 232, 183, 175, 229, 190, 132, 229, 164, 177, 232, 180, 165,
      32]) @ path_text cur @ (bytes [239, 188, 154])) ''lstat'' cur e)
         | Inr (Link t) \<Rightarrow> Some (invalid_key ((bytes [232, 183, 175, 229, 190, 132, 233, 135, 140, 229, 173, 152, 229, 156, 168, 231, 172, 166,
      229, 143, 183, 233, 147, 190, 230, 142, 165, 32]) @ path_text cur))
         | Inr _ \<Rightarrow> check_links env k fs cur rest)"

definition check_no_symlink :: "io_env \<Rightarrow> nat \<Rightarrow> fs \<Rightarrow> string \<Rightarrow> string \<Rightarrow> go_error option" where
  "check_no_symlink env k fs root_dir full =
     (let rel = rel_path (path_of root_dir) (path_of full)
      in check_links env k fs (path_of root_dir) (if rel = [] then [''.''] else rel))"

definition resolve :: "io_env \<Rightarrow> fs \<Rightarrow> string \<Rightarrow> string \<Rightarrow> go_error + string" where
  "resolve env fs root_dir key =
     (if root_dir = [] then Inl (Opaque (''designkit storage: '' @ (bytes [229, 173, 152, 229, 130, 168, 230, 156, 170, 229, 136, 157, 229, 167, 139, 229, 140, 150])))
      else case validate_key key of
        Some e \<Rightarrow> Inl e
      | None \<Rightarrow>
        (let full = clean_path (join_path root_dir key)
         in if full = root_dir \<or> \<not> has_prefix (root_dir @ ''/'') full then Inl (invalid_key (go_quote key @ (bytes [32, 232, 167, 163, 230, 158, 144, 229, 144, 142, 232, 183, 145, 229, 135, 186, 228, 186,
      134, 230, 160, 185, 231, 155, 174, 229, 189, 149])))
            else case check_no_symlink env 0 fs root_dir full of
                   Some e \<Rightarrow> Inl e
                 | None \<Rightarrow> Inr full))"

text \<open>The deferred clean-up of an uncommitted temporary file. The errors of \<open>Chmod\<close> and of the
  directory's \<open>Sync\<close> are ignored by the code, and permissions and power loss are not modelled.\<close>

definition drop_temp :: "io_env \<Rightarrow> fs \<Rightarrow> path \<Rightarrow> fs" where
  "drop_temp env fs tmp = snd (os_remove env fs tmp)"

text \<open>The part of \<open>Put\<close> after the temporary file is made: write, flush, close, rename, or clean up.\<close>

definition commit_temp :: "io_env \<Rightarrow> path \<Rightarrow> path \<Rightarrow> string \<Rightarrow> fs \<Rightarrow> go_error option \<times> fs" where
  "commit_temp env tmp dst data fs =
     (case io_fails env (IoWrite tmp) of
        Some t \<Rightarrow> (Some (path_error (bytes [229, 134, 153, 228, 184, 180, 230, 151, 182, 230, 150, 135, 228, 187, 182, 229, 164, 177,
      232, 180, 165, 239, 188, 154]) ''write'' tmp (EOther t)),
                  drop_temp env (AList.update tmp (File (take (io_written env) data)) fs) tmp)
      | None \<Rightarrow>
        (let fs = AList.update tmp (File data) fs
         in case io_fails env (IoSync tmp) of
              Some t \<Rightarrow> (Some (path_error (bytes [229, 136, 183, 231, 155, 152, 229, 164, 177, 232, 180, 165, 239, 188, 154]) ''sync'' tmp (EOther t)), drop_temp env fs tmp)
            | None \<Rightarrow>
              (case io_fails env (IoClose tmp) of
                 Some t \<Rightarrow> (Some (path_error (bytes [229, 133, 179, 233, 151, 173, 228, 184, 180, 230, 151, 182, 230, 150, 135, 228, 187, 182,
      229, 164, 177, 232, 180, 165, 239, 188, 154]) ''close'' tmp (EOther t)), drop_temp env fs tmp)
               | None \<Rightarrow>
                 (case rename_file env fs tmp dst of
                    (Some e, fs) \<Rightarrow> (Some (path_error (bytes [230, 143, 144, 228, 186, 164, 230, 150, 135, 228, 187, 182, 229, 164, 177, 232, 180, 165,
      239, 188, 154]) ''rename'' tmp e), drop_temp env fs tmp)
                  | (None, fs) \<Rightarrow> (None, fs)))))"

definition local_put :: "io_env \<Rightarrow> string \<Rightarrow> string \<Rightarrow> string \<Rightarrow> string \<Rightarrow> fs \<Rightarrow> go_error option \<times> fs" where
  "local_put env root_dir key content_type data fs =
     (case io_done env of
        Some b \<Rightarrow> (Some (ctx_error b), fs)
      | None \<Rightarrow>
        (case resolve env fs root_dir key of
           Inl e \<Rightarrow> (Some e, fs)
         | Inr full \<Rightarrow>
           (let dir = butlast (path_of full)
            in case mkdir_all env fs [] dir of
                 (Some e, fs) \<Rightarrow> (Some (path_error ((bytes [229, 136, 155, 229, 187, 186, 231, 155, 174, 229, 189, 149, 229, 164, 177, 232, 180, 165,
      32]) @ path_text dir @ (bytes [239, 188, 154])) ''mkdir'' dir e), fs)
               | (None, fs) \<Rightarrow>
                 (case check_no_symlink env 1 fs root_dir full of
                    Some e \<Rightarrow> (Some e, fs)
                  | None \<Rightarrow>
                    (case create_temp env fs dir (io_temp_names env) of
                       (Inl e, fs) \<Rightarrow> (Some (path_error (bytes [229, 136, 155, 229, 187, 186, 228, 184, 180, 230, 151, 182, 230, 150, 135, 228, 187, 182,
      229, 164, 177, 232, 180, 165, 239, 188, 154]) ''open'' dir e), fs)
                     | (Inr tmp, fs) \<Rightarrow> commit_temp env tmp (path_of full) data fs)))))"

definition ext_content_types :: "(string \<times> string) list" where
  "ext_content_types =
     [(''.png'', ''image/png''), (''.jpg'', ''image/jpeg''), (''.jpeg'', ''image/jpeg''),
      (''.webp'', ''image/webp''), (''.gif'', ''image/gif''), (''.bmp'', ''image/bmp''),
      (''.heic'', ''image/heic''), (''.heif'', ''image/heif''), (''.avif'', ''image/avif''),
      (''.json'', ''application/json''), (''.txt'', ''text/plain; charset=utf-8'')]"

definition content_type_for_key :: "(string \<Rightarrow> string) \<Rightarrow> string \<Rightarrow> string \<Rightarrow> string" where
  "content_type_for_key detect key data =
     (case map_of ext_content_types (to_lower (file_ext key)) of
        Some ct \<Rightarrow> ct
      | None \<Rightarrow> if data \<noteq> [] then detect data else ''application/octet-stream'')"

definition object_missing :: "string \<Rightarrow> go_error" where
  "object_missing key = Wrapped (sentinel_text ErrObjectNotFound @ '': '' @ key) (Sentinel ErrObjectNotFound)"

definition local_get :: "io_env \<Rightarrow> string \<Rightarrow> string \<Rightarrow> fs \<Rightarrow> go_error + string \<times> string" where
  "local_get env root_dir key fs =
     (case io_done env of
        Some b \<Rightarrow> Inl (ctx_error b)
      | None \<Rightarrow>
        (case resolve env fs root_dir key of
           Inl e \<Rightarrow> Inl e
         | Inr full \<Rightarrow>
           (let p = path_of full
            in case lstat env 1 fs p of
                 Inl ENOENT \<Rightarrow> Inl (object_missing key)
               | Inl e \<Rightarrow> Inl (path_error ((bytes [232, 175, 187, 229, 143, 150, 229, 164, 177, 232, 180, 165, 32]) @ key @ (bytes [239, 188, 154])) ''lstat'' p e)
               | Inr (File d) \<Rightarrow>
                   (case read_file env fs p of
                      Inl ENOENT \<Rightarrow> Inl (object_missing key)
                    | Inl e \<Rightarrow> Inl (path_error ((bytes [232, 175, 187, 229, 143, 150, 229, 164, 177, 232, 180, 165, 32]) @ key @ (bytes [239, 188, 154])) ''read'' p e)
                    | Inr data \<Rightarrow> Inr (data, content_type_for_key (io_detect env) key data))
               | Inr _ \<Rightarrow> Inl (invalid_key (go_quote key @ (bytes [32, 228, 184, 141, 230, 152, 175, 230, 153, 174, 233, 128, 154, 230, 150, 135, 228, 187,
      182]))))))"

definition local_delete :: "io_env \<Rightarrow> string \<Rightarrow> string \<Rightarrow> fs \<Rightarrow> go_error option \<times> fs" where
  "local_delete env root_dir key fs =
     (case io_done env of
        Some b \<Rightarrow> (Some (ctx_error b), fs)
      | None \<Rightarrow>
        (case resolve env fs root_dir key of
           Inl e \<Rightarrow> (Some e, fs)
         | Inr full \<Rightarrow>
           (case os_remove env fs (path_of full) of
              (None, fs) \<Rightarrow> (None, fs)
            | (Some ENOENT, fs) \<Rightarrow> (None, fs)
            | (Some e, fs) \<Rightarrow> (Some (path_error ((bytes [229, 136, 160, 233, 153, 164, 229, 164, 177, 232, 180, 165, 32]) @ key @ (bytes [239, 188, 154])) ''remove'' (path_of full) e), fs))))"

definition local_exists :: "io_env \<Rightarrow> string \<Rightarrow> string \<Rightarrow> fs \<Rightarrow> go_error + bool" where
  "local_exists env root_dir key fs =
     (case io_done env of
        Some b \<Rightarrow> Inl (ctx_error b)
      | None \<Rightarrow>
        (case resolve env fs root_dir key of
           Inl e \<Rightarrow> Inl e
         | Inr full \<Rightarrow>
           (case lstat env 1 fs (path_of full) of
              Inl ENOENT \<Rightarrow> Inr False
            | Inl e \<Rightarrow> Inl (path_error ((bytes [230, 142, 162, 230, 181, 139, 229, 164, 177, 232, 180, 165, 32]) @ key @ (bytes [239, 188, 154])) ''lstat'' (path_of full) e)
            | Inr (File d) \<Rightarrow> Inr True
            | Inr _ \<Rightarrow> Inr False)))"

text \<open>\<open>NewLocalStore\<close>: the root is made and its own links are resolved; \<open>cwd\<close> is the working directory.\<close>

definition new_local_store :: "io_env \<Rightarrow> string \<Rightarrow> string \<Rightarrow> fs \<Rightarrow> (go_error + string) \<times> fs" where
  "new_local_store env cwd root_dir fs =
     (let trimmed = trim_space root_dir
      in if trimmed = [] then (Inl (Opaque (''designkit storage: '' @ (bytes [230, 160, 185, 231, 155, 174, 229, 189, 149, 228, 184, 141, 232, 131, 189, 228, 184, 186,
      231, 169, 186, 239, 188, 136, 230, 163, 128, 230, 159, 165, 32]) @ ''DESIGNKIT_STORAGE_DIR'' @ (bytes [239, 188, 137]))), fs)
         else let full = (if has_prefix ''/'' trimmed then clean_path trimmed else join_path cwd trimmed)
              in case mkdir_all env fs [] (path_of full) of
                   (Some e, fs) \<Rightarrow>
                     (Inl (path_error ((bytes [229, 136, 155, 229, 187, 186, 230, 160, 185, 231, 155, 174, 229, 189, 149, 32]) @ full @ (bytes [32, 229, 164, 177, 232, 180, 165, 239, 188, 154])) ''mkdir'' (path_of full) e), fs)
                 | (None, fs) \<Rightarrow>
                   (case find_node True fs (path_of full) of
                      Inl e \<Rightarrow> (Inl (path_error (bytes [232, 167, 163, 230, 158, 144, 230, 160, 185, 231, 155, 174, 229, 189, 149, 232, 189, 175,
      233, 147, 190, 229, 164, 177, 232, 180, 165, 239, 188, 154]) ''lstat'' (path_of full) e), fs)
                    | Inr (q, nd) \<Rightarrow> (Inr (path_text q), fs)))"

section \<open>Facts about paths\<close>

definition proper_name :: "string \<Rightarrow> bool" where
  "proper_name s \<longleftrightarrow> s \<noteq> [] \<and> s \<noteq> ''.'' \<and> s \<noteq> ''..'' \<and> CHR ''/'' \<notin> set s"

lemma split_on_nonempty [simp]: "split_on c s \<noteq> []"
  by (induction s) (auto split: list.splits)

lemma split_on_join: "split_on c (a @ c # b) = split_on c a @ split_on c b"
proof (induction a)
  case (Cons x a)
  obtain y ys where "split_on c a = y # ys" by (meson list.exhaust split_on_nonempty)
  with Cons show ?case by simp
qed simp

lemma split_on_no_sep_in: "x \<in> set (split_on c s) \<Longrightarrow> c \<notin> set x"
  by (induction s arbitrary: x) (auto split: list.splits if_splits)

lemma split_on_concat: "split_on c s = x # xs \<Longrightarrow> s = x @ concat (map (\<lambda>y. c # y) xs)"
proof (induction s arbitrary: x xs)
  case (Cons a s)
  obtain y ys where s: "split_on c s = y # ys" by (meson list.exhaust split_on_nonempty)
  have rest: "y @ concat (map (\<lambda>y. c # y) ys) = s" using Cons.IH[OF s] by simp
  show ?case
  proof (cases "a = c")
    case True
    with Cons.prems s have "x = []" "xs = y # ys" by auto
    then show ?thesis by (simp add: rest True)
  next
    case False
    with Cons.prems s have "x = a # y" "xs = ys" by auto
    then show ?thesis by (simp add: rest)
  qed
qed simp

lemma split_on_inject: "split_on c a = split_on c b \<Longrightarrow> a = b"
  using split_on_concat by (metis neq_Nil_conv split_on_nonempty)

lemma split_on_names: "c \<notin> set s \<Longrightarrow> list_all (\<lambda>x. c \<notin> set x) xs \<Longrightarrow> split_on c (s @ concat (map (\<lambda>y. c # y) xs)) = s # xs"
  by (induction xs arbitrary: s) (simp_all add: split_on_no_sep split_on_append)

lemma clean_steps_proper: "list_all proper_name xs \<Longrightarrow> foldl clean_step p xs = p @ xs"
  by (induction xs arbitrary: p) (simp_all add: clean_step_def proper_name_def)

lemma path_of_path_text: "list_all proper_name p \<Longrightarrow> path_of (path_text p) = p"
proof (cases p)
  case Nil
  then show ?thesis by (simp add: path_of_def path_text_def clean_step_def)
next
  case (Cons s ps)
  assume proper: "list_all proper_name p"
  have "split_on CHR ''/'' (path_text p) = [] # p"
    using split_on_names[of "CHR ''/''" "[]" p] proper Cons
    by (simp add: path_text_def proper_name_def list_all_iff)
  then show ?thesis using clean_steps_proper[OF proper, of "[]"]
    by (simp add: path_of_def clean_step_def)
qed

lemma clean_step_all: "list_all proper_name p \<Longrightarrow> CHR ''/'' \<notin> set s \<Longrightarrow> list_all proper_name (clean_step p s)"
  by (auto simp: clean_step_def proper_name_def list_all_iff dest: in_set_butlastD)

lemma clean_steps_all:
  "list_all proper_name p \<Longrightarrow> list_all (\<lambda>s. CHR ''/'' \<notin> set s) xs \<Longrightarrow> list_all proper_name (foldl clean_step p xs)"
  by (induction xs arbitrary: p) (simp_all add: clean_step_all)

lemma path_of_proper: "list_all proper_name (path_of s)"
  using clean_steps_all[of "[]" "split_on CHR ''/'' s"] split_on_no_sep_in
  by (simp add: path_of_def list_all_iff)

lemma path_of_clean [simp]: "path_of (clean_path s) = path_of s"
  by (simp add: clean_path_def path_of_path_text path_of_proper)

lemma path_of_join [simp]:
  "path_of (join_path a b) = foldl clean_step (path_of a) (split_on CHR ''/'' b)"
  by (simp add: join_path_def) (simp add: path_of_def split_on_join)

lemma rel_path_append [simp]: "rel_path p (p @ q) = q"
  by (induction p) simp_all

text \<open>A valid key is a non-empty path of proper names, none of which can be a temporary file's.\<close>

definition key_path :: "string \<Rightarrow> path" where
  "key_path key = split_on CHR ''/'' key"

lemma first_some_None: "first_some f xs = None \<longleftrightarrow> list_all (\<lambda>x. f x = None) xs"
  by (induction xs) (auto split: option.splits)

lemma valid_segment: "check_segment key s = None \<Longrightarrow> s \<noteq> [] \<and> \<not> has_prefix ''.'' s \<and> s \<noteq> ''.'' \<and> s \<noteq> ''..''"
  by (auto simp: check_segment_def split: if_splits)

lemma valid_key_path:
  assumes "validate_key key = None"
  shows "list_all proper_name (key_path key)" and "s \<in> set (key_path key) \<Longrightarrow> \<not> has_prefix ''.'' s"
proof -
  have all: "list_all (\<lambda>s. check_segment key s = None) (key_path key)"
    using assms by (auto simp: validate_key_def key_path_def first_some_None split: if_splits option.splits)
  have "proper_name x" if "x \<in> set (key_path key)" for x
    using valid_segment[of key x] split_on_no_sep_in[of x "CHR ''/''" key] all that
    by (auto simp: proper_name_def list_all_iff key_path_def)
  then show "list_all proper_name (key_path key)" by (simp add: list_all_iff)
  show "s \<in> set (key_path key) \<Longrightarrow> \<not> has_prefix ''.'' s"
    using all valid_segment by (auto simp: list_all_iff)
qed

lemma temp_name_not_key: "validate_key key = None \<Longrightarrow> s \<in> set (key_path key) \<Longrightarrow> s \<noteq> tmp_prefix @ x"
  using valid_key_path(2)[of key s] by (auto simp: tmp_prefix_def has_prefix_def)

lemma key_path_inject: "key_path a = key_path b \<longleftrightarrow> a = b"
  using split_on_inject by (auto simp: key_path_def)

lemma key_path_nonempty [simp]: "key_path k \<noteq> []"
  by (simp add: key_path_def)

section \<open>Facts about the file system\<close>

text \<open>A file system is a tree of proper names: what exists lies in a directory.\<close>

definition links_proper :: "fs \<Rightarrow> bool" where
  "links_proper fs \<longleftrightarrow> list_all (\<lambda>(p, nd). case nd of Link t \<Rightarrow> list_all proper_name t | _ \<Rightarrow> True) fs"

definition fs_ok :: "fs \<Rightarrow> bool" where
  "fs_ok fs \<longleftrightarrow> map_of fs [] = Some Dir \<and> links_proper fs \<and>
     list_all (\<lambda>p. p \<noteq> [] \<longrightarrow> map_of fs (butlast p) = Some Dir \<and> proper_name (last p)) (map fst fs)"

lemma map_of_key: "p \<in> set (map fst fs) \<longleftrightarrow> map_of fs p \<noteq> None"
  by (metis map_of_eq_None_iff list.set_map)

lemma fs_ok_root [simp]: "fs_ok fs \<Longrightarrow> map_of fs [] = Some Dir"
  by (simp add: fs_ok_def)

lemma fs_ok_parent:
  assumes "fs_ok fs" and "map_of fs (p @ [s]) \<noteq> None"
  shows "map_of fs p = Some Dir \<and> proper_name s"
proof -
  from assms(2) have "p @ [s] \<in> set (map fst fs)" by (metis map_of_key)
  with assms(1) have "map_of fs (butlast (p @ [s])) = Some Dir \<and> proper_name (last (p @ [s]))"
    unfolding fs_ok_def list_all_iff by blast
  then show ?thesis by simp
qed

lemma fs_ok_above:
  "fs_ok fs \<Longrightarrow> map_of fs (p @ q) \<noteq> None \<Longrightarrow> q \<noteq> [] \<Longrightarrow> map_of fs p = Some Dir"
proof (induction q rule: rev_induct)
  case (snoc s q)
  then have "map_of fs (p @ q) = Some Dir" using fs_ok_parent[of fs "p @ q" s] by simp
  with snoc show ?case by (cases "q = []") auto
qed simp

lemma fs_ok_names: "fs_ok fs \<Longrightarrow> map_of fs p \<noteq> None \<Longrightarrow> list_all proper_name p"
proof (induction p rule: rev_induct)
  case (snoc s p)
  then show ?case using fs_ok_parent[of fs p s] by simp
qed simp

lemma fs_ok_link: "fs_ok fs \<Longrightarrow> map_of fs p = Some (Link t) \<Longrightarrow> list_all proper_name t"
  by (auto simp: fs_ok_def links_proper_def list_all_iff dest!: map_of_SomeD)

lemma fs_okI:
  assumes "map_of fs [] = Some Dir" and "links_proper fs"
    and "\<And>p s. map_of fs (p @ [s]) \<noteq> None \<Longrightarrow> map_of fs p = Some Dir \<and> proper_name s"
  shows "fs_ok fs"
proof -
  have "map_of fs (butlast p) = Some Dir \<and> proper_name (last p)" if "p \<in> set (map fst fs)" "p \<noteq> []" for p
    using assms(3)[of "butlast p" "last p"] that by (metis append_butlast_last_id map_of_key)
  then show ?thesis using assms(1,2) unfolding fs_ok_def list_all_iff by blast
qed

lemma links_update: "links_proper fs \<Longrightarrow> nd = Dir \<or> nd = File x \<Longrightarrow> links_proper (AList.update q nd fs)"
  by (induction fs) (auto simp: links_proper_def)

lemma links_delete: "links_proper fs \<Longrightarrow> links_proper (AList.delete q fs)"
  by (auto simp: AList.delete_eq links_proper_def list_all_iff)

lemma fs_ok_links: "fs_ok fs \<Longrightarrow> links_proper fs"
  by (simp add: fs_ok_def)

lemma map_of_update [simp]: "map_of (AList.update q nd fs) = (map_of fs)(q \<mapsto> nd)"
  by (rule update_conv')

lemma map_of_delete [simp]: "map_of (AList.delete q fs) = (map_of fs)(q := None)"
  by (rule delete_conv')

text \<open>Creating a node in a directory, replacing or removing one that is not a directory in use.\<close>

lemma no_child: "fs_ok fs \<Longrightarrow> map_of fs q \<noteq> Some Dir \<Longrightarrow> map_of fs (q @ [s]) = None"
  using fs_ok_parent by blast

lemma fs_ok_create:
  assumes ok: "fs_ok fs" and d: "map_of fs d = Some Dir" and s: "proper_name s"
    and new: "map_of fs (d @ [s]) \<noteq> Some Dir" and nd: "nd = Dir \<or> nd = File x"
  shows "fs_ok (AList.update (d @ [s]) nd fs)"
proof (rule fs_okI)
  show "links_proper (AList.update (d @ [s]) nd fs)" using fs_ok_links[OF ok] nd by (rule links_update)
  show "map_of (AList.update (d @ [s]) nd fs) [] = Some Dir" using ok by simp
next
  fix p t assume ex: "map_of (AList.update (d @ [s]) nd fs) (p @ [t]) \<noteq> None"
  show "map_of (AList.update (d @ [s]) nd fs) p = Some Dir \<and> proper_name t"
  proof (cases "p @ [t] = d @ [s]")
    case True
    then have "p = d" "t = s" by auto
    then show ?thesis using d s by simp
  next
    case False
    with ex have old: "map_of fs (p @ [t]) \<noteq> None" by (simp only: map_of_update fun_upd_other not_False_eq_True)
    then have "p \<noteq> d @ [s]" using no_child[OF ok new, of t] by auto
    with fs_ok_parent[OF ok old] show ?thesis by simp
  qed
qed

lemma fs_ok_remove:
  assumes ok: "fs_ok fs" and q: "q \<noteq> []" and none: "\<And>s. map_of fs (q @ [s]) = None"
  shows "fs_ok (AList.delete q fs)"
proof (rule fs_okI)
  show "links_proper (AList.delete q fs)" using fs_ok_links[OF ok] by (rule links_delete)
  show "map_of (AList.delete q fs) [] = Some Dir" using ok q by simp
next
  fix p t assume "map_of (AList.delete q fs) (p @ [t]) \<noteq> None"
  then have old: "map_of fs (p @ [t]) \<noteq> None" by (simp split: if_splits)
  with none have "p \<noteq> q" by auto
  with fs_ok_parent[OF ok old] show "map_of (AList.delete q fs) p = Some Dir \<and> proper_name t" by simp
qed

lemma has_child_iff: "has_child fs q \<longleftrightarrow> (\<exists>s. map_of fs (q @ [s]) \<noteq> None)"
proof
  assume "has_child fs q"
  then obtain p nd where "(p, nd) \<in> set fs" "p \<noteq> []" "butlast p = q" by (auto simp: has_child_def list_ex_iff)
  then show "\<exists>s. map_of fs (q @ [s]) \<noteq> None"
    by (metis append_butlast_last_id weak_map_of_SomeI option.distinct(1))
next
  assume "\<exists>s. map_of fs (q @ [s]) \<noteq> None"
  then obtain s nd where "map_of fs (q @ [s]) = Some nd" by blast
  then have "(q @ [s], nd) \<in> set fs" by (rule map_of_SomeD)
  then show "has_child fs q" by (force simp: has_child_def list_ex_iff)
qed

section \<open>The interface\<close>

record 's object_store =
  os_put :: "string \<Rightarrow> string \<Rightarrow> string \<Rightarrow> 's \<Rightarrow> go_error option \<times> 's"
  os_get :: "string \<Rightarrow> 's \<Rightarrow> (go_error + string \<times> string) \<times> 's"
  os_delete :: "string \<Rightarrow> 's \<Rightarrow> go_error option \<times> 's"
  os_exists :: "string \<Rightarrow> 's \<Rightarrow> (go_error + bool) \<times> 's"

text \<open>The local store as an object store: operation \<open>n\<close> runs in the environment \<open>env n\<close>.\<close>

record local_state =
  ls_fs :: fs
  ls_calls :: nat

definition local_store :: "string \<Rightarrow> (nat \<Rightarrow> io_env) \<Rightarrow> local_state object_store" where
  "local_store base env =
     \<lparr>os_put = (\<lambda>key ct data s. case local_put (env (ls_calls s)) base key ct data (ls_fs s) of
          (r, fs) \<Rightarrow> (r, \<lparr>ls_fs = fs, ls_calls = Suc (ls_calls s)\<rparr>)),
      os_get = (\<lambda>key s. (local_get (env (ls_calls s)) base key (ls_fs s), s\<lparr>ls_calls := Suc (ls_calls s)\<rparr>)),
      os_delete = (\<lambda>key s. case local_delete (env (ls_calls s)) base key (ls_fs s) of
          (r, fs) \<Rightarrow> (r, \<lparr>ls_fs = fs, ls_calls = Suc (ls_calls s)\<rparr>)),
      os_exists = (\<lambda>key s. (local_exists (env (ls_calls s)) base key (ls_fs s), s\<lparr>ls_calls := Suc (ls_calls s)\<rparr>))\<rparr>"

text \<open>
  What the users of a store rely on: the objects are a map from keys to bytes, a successful write or
  delete changes it at one key, and an operation that fails changes no object.
\<close>

locale object_store_laws =
  fixes st :: "'s object_store" and good :: "'s \<Rightarrow> bool" and contents :: "'s \<Rightarrow> string \<Rightarrow> string option"
  assumes put_done: "good s \<Longrightarrow> os_put st key ct data s = (None, s') \<Longrightarrow> good s' \<and> contents s' = (contents s)(key \<mapsto> data)"
    and put_failed: "good s \<Longrightarrow> os_put st key ct data s = (Some e, s') \<Longrightarrow> good s' \<and> contents s' = contents s"
    and get_done: "good s \<Longrightarrow> os_get st key s = (Inr (data, ct), s') \<Longrightarrow> contents s key = Some data"
    and get_missing: "good s \<Longrightarrow> os_get st key s = (Inl e, s') \<Longrightarrow> errors_is e ErrObjectNotFound \<Longrightarrow> contents s key = None"
    and get_state: "good s \<Longrightarrow> os_get st key s = (g, s') \<Longrightarrow> good s' \<and> contents s' = contents s"
    and delete_done: "good s \<Longrightarrow> os_delete st key s = (None, s') \<Longrightarrow> good s' \<and> contents s' = (contents s)(key := None)"
    and delete_failed: "good s \<Longrightarrow> os_delete st key s = (Some e, s') \<Longrightarrow> good s' \<and> contents s' = contents s"
    and exists_done: "good s \<Longrightarrow> os_exists st key s = (Inr b, s') \<Longrightarrow> b \<longleftrightarrow> contents s key \<noteq> None"
    and exists_state: "good s \<Longrightarrow> os_exists st key s = (x, s') \<Longrightarrow> good s' \<and> contents s' = contents s"
begin

lemma put_get:
  assumes "good s" and "os_put st key ct data s = (None, s1)" and "os_get st key s1 = (Inr (d, c), s2)"
  shows "d = data"
  using put_done[OF assms(1,2)] get_done[of s1 key d c s2] assms(3) by simp

lemma put_frame: "good s \<Longrightarrow> os_put st key ct data s = (r, s') \<Longrightarrow> k \<noteq> key \<Longrightarrow> contents s' k = contents s k"
proof (cases r)
  case None
  assume "good s" "os_put st key ct data s = (r, s')" "k \<noteq> key"
  with None put_done[of s key ct data s'] show ?thesis by simp
next
  case (Some e)
  assume "good s" "os_put st key ct data s = (r, s')"
  with Some put_failed[of s key ct data e s'] show ?thesis by simp
qed

lemma delete_good: "good s \<Longrightarrow> os_delete st key s = (r, s') \<Longrightarrow> good s'"
  using delete_done[of s key s'] delete_failed[of s key _ s'] by (cases r) auto

lemma delete_shrinks: "good s \<Longrightarrow> os_delete st key s = (r, s') \<Longrightarrow> contents s' k = contents s k \<or> contents s' k = None \<and> k = key"
  using delete_done[of s key s'] delete_failed[of s key _ s'] by (cases r) auto

text \<open>A write that is undone by a delete leaves the objects as they were, if the key was free.\<close>

lemma put_rollback:
  assumes "good s" and "contents s key = None" and "os_put st key ct data s = (None, s1)" and "os_delete st key s1 = (None, s2)"
  shows "good s2 \<and> contents s2 = contents s"
  using put_done[OF assms(1,3)] delete_done[of s1 key s2] assms(2,4) by (simp add: fun_upd_idem)

end

end
