(* ===== verification/Object_Store_Guarantees.thy ===== *)
theory Object_Store_Guarantees
  imports Object_Store
begin

text \<open>
  What the local store guarantees. The walk of the system along a path below the root is shown to
  stay on it, since the store checks for symbolic links first; every operation is then a change of
  at most one object, or none when it fails, and touches nothing outside the root. The interpretation
  \<open>local\<close> shows that the store is a map from keys to bytes.
\<close>

section \<open>Walking along paths\<close>

lemma walk_into:
  assumes ok: "fs_ok fs" and dir: "map_of fs (cur @ d) = Some Dir" and rest: "rest \<noteq> []"
  shows "walk follow n fs cur (d @ rest) = walk follow n fs (cur @ d) rest"
  using dir
proof (induction d arbitrary: cur)
  case (Cons s d)
  have "map_of fs (cur @ [s]) = Some Dir"
  proof (cases "d = []")
    case False
    then show ?thesis using fs_ok_above[OF ok, of "cur @ [s]" d] Cons.prems by simp
  qed (use Cons.prems in simp)
  with Cons.IH[of "cur @ [s]"] Cons.prems show ?case by simp
qed simp

lemma walk_to:
  assumes ok: "fs_ok fs" and dir: "map_of fs d = Some Dir"
  shows "walk follow n fs [] (d @ [s]) =
     (case map_of fs (d @ [s]) of
        Some (Link t) \<Rightarrow> if \<not> follow then Inr (d @ [s]) else if n = 0 then Inl ELOOP else walk follow (n - 1) fs [] t
      | _ \<Rightarrow> Inr (d @ [s]))"
  using walk_into[OF ok, of "[]" d "[s]" follow n] dir by (auto split: option.split node.split)

lemma walk_dir:
  assumes ok: "fs_ok fs" and dir: "map_of fs d = Some Dir"
  shows "walk follow n fs [] d = Inr d"
proof (cases d rule: rev_cases)
  case (snoc p s)
  with dir have "map_of fs p = Some Dir" using fs_ok_parent[OF ok, of p s] by simp
  with snoc dir show ?thesis by (simp add: walk_to[OF ok])
qed simp

text \<open>Where a walk ends outside the tree it could create a node: in a directory, with a proper name.\<close>

lemma walk_place:
  "fs_ok fs \<Longrightarrow> map_of fs cur = Some Dir \<Longrightarrow> list_all proper_name p \<Longrightarrow> walk follow n fs cur p = Inr q \<Longrightarrow>
   map_of fs q = None \<Longrightarrow> \<exists>d s. q = d @ [s] \<and> map_of fs d = Some Dir \<and> proper_name s"
proof (induction follow n fs cur p rule: walk.induct)
  case (2 follow n fs cur s rest)
  show ?case
  proof (cases "map_of fs (cur @ [s])")
    case None
    with 2 show ?thesis by (auto split: if_splits)
  next
    case (Some nd)
    show ?thesis
    proof (cases nd)
      case (Link t)
      show ?thesis
      proof (cases "rest = [] \<and> \<not> follow")
        case True
        with Some Link "2.prems"(4,5) show ?thesis by simp
      next
        case False
        then have n: "n \<noteq> 0" using Some Link "2.prems"(4) by (auto split: if_splits)
        have "list_all proper_name (t @ rest)"
          using fs_ok_link[OF "2.prems"(1)] Some Link "2.prems"(3) by simp
        moreover have "walk follow (n - 1) fs [] (t @ rest) = Inr q"
          using Some Link False n "2.prems"(4) by (simp split: if_splits)
        ultimately show ?thesis using "2.IH"(2)[OF Some Link False n "2.prems"(1)] "2.prems" by simp
      qed
    qed (use 2 Some in \<open>auto split: if_splits\<close>)
  qed
qed auto

section \<open>Paths free of links\<close>

definition no_links :: "fs \<Rightarrow> path \<Rightarrow> path \<Rightarrow> bool" where
  "no_links fs cur p \<longleftrightarrow> (\<forall>k \<le> length p. \<forall>t. map_of fs (cur @ take k p) \<noteq> Some (Link t))"

lemma all_le_Suc: "(\<forall>k \<le> Suc n. P k) \<longleftrightarrow> P 0 \<and> (\<forall>k \<le> n. P (Suc k))"
  by (metis Suc_le_mono le0 not0_implies_Suc)

lemma no_links_Cons:
  "map_of fs cur = Some Dir \<Longrightarrow> no_links fs cur (s # p) \<longleftrightarrow> no_links fs (cur @ [s]) p"
  by (simp add: no_links_def all_le_Suc)

lemma no_links_end: "no_links fs cur p \<Longrightarrow> map_of fs (cur @ p) \<noteq> Some (Link t)"
  by (auto simp: no_links_def)

lemma no_links_outside: "fs_ok fs \<Longrightarrow> map_of fs cur \<noteq> Some Dir \<Longrightarrow> \<forall>t. map_of fs cur \<noteq> Some (Link t) \<Longrightarrow> no_links fs cur p"
proof (unfold no_links_def, intro allI impI)
  fix k t assume ok: "fs_ok fs" and "map_of fs cur \<noteq> Some Dir" and "\<forall>t. map_of fs cur \<noteq> Some (Link t)"
  then show "map_of fs (cur @ take k p) \<noteq> Some (Link t)"
    using fs_ok_above[OF ok, of cur "take k p"] by (cases "take k p = []") auto
qed

lemma walk_plain:
  "fs_ok fs \<Longrightarrow> map_of fs cur = Some Dir \<Longrightarrow> no_links fs cur p \<Longrightarrow>
   walk follow n fs cur p \<in> {Inr (cur @ p), Inl ENOENT, Inl ENOTDIR}"
proof (induction p arbitrary: cur)
  case (Cons s p)
  have nl: "no_links fs (cur @ [s]) p" using Cons.prems no_links_Cons by blast
  then have "map_of fs (cur @ [s]) \<noteq> Some (Link t)" for t unfolding no_links_def by (metis append_Nil2 take0 le0)
  with Cons.IH[of "cur @ [s]"] Cons.prems(1) nl show ?case by (auto split: option.split node.split)
qed simp

lemma find_plain:
  assumes ok: "fs_ok fs" and dir: "map_of fs d = Some Dir" and nl: "no_links fs d p"
  shows find_plain_Some: "map_of fs (d @ p) = Some nd \<Longrightarrow> find_node follow fs (d @ p) = Inr (d @ p, nd)"
    and find_plain_None: "map_of fs (d @ p) = None \<Longrightarrow> find_node follow fs (d @ p) \<in> {Inl ENOENT, Inl ENOTDIR}"
proof -
  assume ex: "map_of fs (d @ p) = Some nd"
  have "walk follow max_links fs [] (d @ p) = Inr (d @ p)"
  proof (cases p rule: rev_cases)
    case Nil
    with dir show ?thesis by (simp add: walk_dir[OF ok])
  next
    case (snoc r s)
    with ex have "map_of fs (d @ r) = Some Dir" using fs_ok_parent[OF ok, of "d @ r" s] by simp
    then show ?thesis using walk_to[OF ok, of "d @ r" follow max_links s] snoc no_links_end[OF nl]
      by (auto split: option.split node.split)
  qed
  with ex show "find_node follow fs (d @ p) = Inr (d @ p, nd)" by (simp add: find_node_def)
next
  assume none: "map_of fs (d @ p) = None"
  then have "p \<noteq> []" using dir by auto
  then have "walk follow max_links fs [] (d @ p) = walk follow max_links fs d p"
    using walk_into[OF ok, of "[]" d p] dir by simp
  with walk_plain[OF ok dir nl, of follow max_links] none
  show "find_node follow fs (d @ p) \<in> {Inl ENOENT, Inl ENOTDIR}" by (auto simp: find_node_def)
qed

text \<open>A successful check means there is no link between the root and the object.\<close>

lemma check_links_none:
  "fs_ok fs \<Longrightarrow> map_of fs cur = Some Dir \<Longrightarrow> list_all proper_name p \<Longrightarrow> check_links env k fs cur p = None \<Longrightarrow>
   no_links fs cur p"
proof (induction p arbitrary: cur)
  case Nil
  then show ?case by (simp add: no_links_def)
next
  case (Cons s p)
  have step: "clean_step cur s = cur @ [s]" using Cons.prems(3) by (simp add: clean_step_def proper_name_def)
  have "no_links fs (cur @ [s]) p"
  proof (cases "map_of fs (cur @ [s])")
    case None
    then show ?thesis using no_links_outside[OF Cons.prems(1)] by simp
  next
    case (Some nd)
    have "find_node False fs (cur @ [s]) = Inr (cur @ [s], nd)"
      using walk_to[OF Cons.prems(1,2), of False max_links s] Some
      by (simp add: find_node_def split: node.splits)
    with Cons.prems(4) step have "nd \<noteq> Link t" and "check_links env k fs (cur @ [s]) p = None" for t
      by (auto simp: Let_def lstat_def split: option.splits node.splits)
    with Cons.IH[of "cur @ [s]"] Cons.prems(1,3) Some no_links_outside[OF Cons.prems(1), of "cur @ [s]" p]
    show ?thesis by (cases "nd = Dir") auto
  qed
  with Cons.prems(2) show ?case by (simp add: no_links_Cons)
qed

section \<open>Resolving a key\<close>

definition root_ok :: "string \<Rightarrow> fs \<Rightarrow> bool" where
  "root_ok base fs \<longleftrightarrow> fs_ok fs \<and> clean_path base = base \<and> map_of fs (path_of base) = Some Dir"

definition object_path :: "string \<Rightarrow> string \<Rightarrow> path" where
  "object_path base key = path_of base @ key_path key"

lemma path_of_object:
  "validate_key key = None \<Longrightarrow> path_of (clean_path (join_path base key)) = object_path base key"
  using clean_steps_proper[OF valid_key_path(1)] by (simp add: object_path_def key_path_def)

lemma resolve_ok:
  assumes "root_ok base fs" and "resolve env fs base key = Inr full"
  shows "validate_key key = None" and "path_of full = object_path base key"
    and "no_links fs (path_of base) (key_path key)"
proof -
  from assms(2) have v: "validate_key key = None" and full: "full = clean_path (join_path base key)"
    and chk: "check_no_symlink env 0 fs base full = None"
    by (auto simp: resolve_def Let_def split: if_splits option.splits)
  then show "validate_key key = None" "path_of full = object_path base key" by (simp_all only: path_of_object)
  with chk have "check_links env 0 fs (path_of base) (key_path key) = None"
    by (simp add: check_no_symlink_def object_path_def)
  with assms(1) valid_key_path(1)[OF v] show "no_links fs (path_of base) (key_path key)"
    unfolding root_ok_def using check_links_none by blast
qed

section \<open>Making directories\<close>

definition grown :: "path \<Rightarrow> fs \<Rightarrow> fs \<Rightarrow> bool" where
  "grown d fs fs' \<longleftrightarrow> fs_ok fs' \<and>
     (\<forall>p. map_of fs' p = map_of fs p \<or> map_of fs p = None \<and> map_of fs' p = Some Dir \<and> strict_prefix d p)"

lemma grown_refl: "fs_ok fs \<Longrightarrow> grown d fs fs"
  by (simp add: grown_def)

lemma grown_mkdir:
  assumes "fs_ok fs" and "map_of fs d = Some Dir" and "proper_name s" and "map_of fs (d @ [s]) = None"
  shows "grown d fs (AList.update (d @ [s]) Dir fs)"
  using fs_ok_create[of fs d s Dir] assms by (simp add: grown_def strict_prefix_def)

lemma grown_deeper: "grown (d @ [s]) fs fs' \<Longrightarrow> grown d fs fs'"
  unfolding grown_def by (metis append_assoc prefix_def strict_prefix_def append_self_conv not_Cons_self2 append_is_Nil_conv)

lemma grown_trans: "grown d a b \<Longrightarrow> grown d b c \<Longrightarrow> grown d a c"
  unfolding grown_def by (metis (no_types))

lemma grown_keeps: "grown d fs fs' \<Longrightarrow> map_of fs p \<noteq> None \<Longrightarrow> map_of fs' p = map_of fs p"
  unfolding grown_def by metis

lemma grown_no_links: "grown d fs fs' \<Longrightarrow> no_links fs cur p \<Longrightarrow> no_links fs' cur p"
  unfolding grown_def no_links_def by (metis node.distinct(3) option.inject)

lemma mkdir_plain:
  "fs_ok fs \<Longrightarrow> map_of fs d = Some Dir \<Longrightarrow> list_all proper_name p \<Longrightarrow> no_links fs d p \<Longrightarrow>
   mkdir_all env fs d p = (r, fs') \<Longrightarrow> grown d fs fs' \<and> (r = None \<longrightarrow> map_of fs' (d @ p) = Some Dir) \<and>
     (\<forall>q. map_of fs' q = map_of fs q \<or> prefix q (d @ p))"
proof (induction p arbitrary: d fs)
  case Nil
  then show ?case by (simp add: grown_refl)
next
  case (Cons s p)
  have nl: "no_links fs (d @ [s]) p" using Cons.prems no_links_Cons by blast
  have nl1: "no_links fs d [s]"
    using Cons.prems(2) nl unfolding no_links_def by (auto simp: all_le_Suc)
  show ?case
  proof (cases "map_of fs (d @ [s])")
    case (Some nd)
    with Cons.prems find_plain_Some[OF Cons.prems(1,2) nl1] Cons.IH[OF Cons.prems(1) _ _ nl]
    show ?thesis by (cases nd) (auto simp: grown_refl intro: grown_deeper)
  next
    case None
    let ?fs = "AList.update (d @ [s]) Dir fs"
    have g: "grown d fs ?fs" using grown_mkdir Cons.prems None by simp
    from None have "walk False max_links fs [] (d @ [s]) = Inr (d @ [s])" "walk True max_links fs [] (d @ [s]) = Inr (d @ [s])"
      using walk_to[OF Cons.prems(1,2)] by simp_all
    with None Cons.prems(5) consider "fs' = fs" "r \<noteq> None" | "mkdir_all env ?fs (d @ [s]) p = (r, fs')"
      by (auto simp: find_node_def split: option.splits)
    then show ?thesis
    proof cases
      case 1
      then show ?thesis by (auto simp: grown_refl[OF Cons.prems(1)])
    next
      case 2
      have IH: "grown (d @ [s]) ?fs fs' \<and> (r = None \<longrightarrow> map_of fs' ((d @ [s]) @ p) = Some Dir) \<and>
          (\<forall>q. map_of fs' q = map_of ?fs q \<or> prefix q ((d @ [s]) @ p))"
        using Cons.IH[OF _ _ _ grown_no_links[OF g nl] 2] g Cons.prems(3) by (simp add: grown_def)
      have "map_of fs' q = map_of fs q \<or> prefix q (d @ s # p)" for q
        using IH[THEN conjunct2, THEN conjunct2, rule_format, of q] by (cases "q = d @ [s]") auto
      with grown_trans[OF g grown_deeper[OF conjunct1[OF IH]]] IH show ?thesis by simp
    qed
  qed
qed

lemma mkdir_from_root:
  "fs_ok fs \<Longrightarrow> map_of fs (cur @ d) = Some Dir \<Longrightarrow> mkdir_all env fs cur (d @ p) = mkdir_all env fs (cur @ d) p"
proof (induction d arbitrary: cur)
  case (Cons s d)
  have dir: "map_of fs (cur @ [s]) = Some Dir"
    using fs_ok_above[OF Cons.prems(1), of "cur @ [s]" d] Cons.prems(2) by (cases "d = []") simp_all
  then have "find_node True fs (cur @ [s]) = Inr (cur @ [s], Dir)"
    using walk_dir[OF Cons.prems(1)] by (simp add: find_node_def)
  with Cons dir show ?case by simp
qed simp

section \<open>Temporary files and renaming\<close>

lemma proper_temp: "proper_name (tmp_prefix @ nat_digits x)"
  using nat_digits_chars[of "CHR ''/''" x] by (auto simp: proper_name_def tmp_prefix_def digit_val_def)

lemma create_temp_ok:
  assumes ok: "fs_ok fs" and dir: "map_of fs d = Some Dir"
  shows "create_temp env fs d xs = (r, fs') \<Longrightarrow>
     (\<exists>e. r = Inl e) \<and> fs' = fs \<or>
     (\<exists>x. r = Inr (d @ [tmp_prefix @ nat_digits x]) \<and> map_of fs (d @ [tmp_prefix @ nat_digits x]) = None \<and>
          fs' = AList.update (d @ [tmp_prefix @ nat_digits x]) (File []) fs)"
proof (induction xs)
  case (Cons x xs)
  have w: "walk False max_links fs [] (d @ [tmp_prefix @ nat_digits x]) = Inr (d @ [tmp_prefix @ nat_digits x])"
    by (simp add: walk_to[OF ok dir] split: option.split node.split)
  show ?case
  proof (cases "create_temp env fs d xs = (r, fs')")
    case False
    with Cons.prems show ?thesis
      by (cases "io_fails env (IoCreate (d @ [tmp_prefix @ nat_digits x]))") (auto simp: w Let_def split: if_splits)
  qed (rule Cons.IH)
qed auto

lemma drop_temp_ok:
  assumes ok: "fs_ok fs" and tmp: "map_of fs (d @ [s]) = Some (File x)"
  shows "drop_temp env fs (d @ [s]) \<in> {fs, AList.delete (d @ [s]) fs}"
proof -
  have "map_of fs d = Some Dir" using fs_ok_parent[OF ok, of d s] tmp by simp
  then have "walk False max_links fs [] (d @ [s]) = Inr (d @ [s])" using walk_to[OF ok] tmp by simp
  with tmp show ?thesis by (auto simp: drop_temp_def os_remove_def find_node_def split: option.splits)
qed

lemma file_has_no_child: "fs_ok fs \<Longrightarrow> map_of fs q = Some (File x) \<Longrightarrow> map_of fs (q @ [s]) = None"
  using no_child by simp

lemma remove_file_ok: "fs_ok fs \<Longrightarrow> map_of fs (d @ [s]) = Some (File x) \<Longrightarrow> fs_ok (AList.delete (d @ [s]) fs)"
  by (rule fs_ok_remove) (simp, simp, rule file_has_no_child)

section \<open>The outcome of a write\<close>

lemma commit_temp_ok:
  assumes ok: "fs_ok fs" and tmp: "map_of fs (d @ [t]) = Some (File x)" and dir: "map_of fs d = Some Dir"
    and s: "proper_name s" and "s \<noteq> t" and nl: "\<And>l. map_of fs (d @ [s]) \<noteq> Some (Link l)"
    and run: "commit_temp env (d @ [t]) (d @ [s]) data fs = (r, fs')"
  shows "fs_ok fs' \<and>
    (r = None \<and> map_of fs (d @ [s]) \<noteq> Some Dir \<and> map_of fs' = (map_of fs)(d @ [t] := None, d @ [s] \<mapsto> File data) \<or>
     (\<exists>e y. r = Some e \<and> map_of fs' = (map_of fs)(d @ [t] := y) \<and> (y = None \<or> (\<exists>z. y = Some (File z)))))"
proof -
  have t: "proper_name t" using fs_ok_parent[OF ok, of d t] tmp by simp
  have upd: "fs_ok (AList.update (d @ [t]) (File y) fs)" for y
    using fs_ok_create[OF ok dir t, of "File y" y] tmp by simp
  have drop: "fs_ok (drop_temp env g (d @ [t])) \<and>
      (\<exists>y. map_of (drop_temp env g (d @ [t])) = (map_of fs)(d @ [t] := y) \<and> (y = None \<or> (\<exists>z. y = Some (File z))))"
    if "g = AList.update (d @ [t]) (File y) fs" for g y
    using drop_temp_ok[of g d t y env] remove_file_ok[of g d t y] upd[of y] that by auto
  let ?g = "AList.update (d @ [t]) (File data) fs"
  have dirg: "map_of ?g d = Some Dir" using dir by simp
  have w: "walk False max_links ?g [] (d @ [s]) = Inr (d @ [s])"
    using walk_to[OF upd dirg, of False max_links s] nl \<open>s \<noteq> t\<close> by (simp split: option.split node.split)
  show ?thesis
  proof (cases "io_fails env (IoWrite (d @ [t])) = None \<and> io_fails env (IoSync (d @ [t])) = None \<and>
      io_fails env (IoClose (d @ [t])) = None \<and> io_fails env (IoRename (d @ [t]) (d @ [s])) = None \<and>
      map_of fs (d @ [s]) \<noteq> Some Dir")
    case True
    then have "r = None" and fs': "fs' = AList.update (d @ [s]) (File data) (AList.delete (d @ [t]) ?g)"
      using run w \<open>s \<noteq> t\<close> by (auto simp: commit_temp_def rename_file_def Let_def)
    have "fs_ok (AList.delete (d @ [t]) ?g)" using remove_file_ok[OF upd[of data], of d t data] by simp
    then have "fs_ok fs'" unfolding fs' using dir True s \<open>s \<noteq> t\<close> fs_ok_create[of _ d s "File data" data] by simp
    with \<open>r = None\<close> True fs' \<open>s \<noteq> t\<close> show ?thesis by auto
  next
    case False
    then obtain e g y where "r = Some e" "fs' = drop_temp env g (d @ [t])" "g = AList.update (d @ [t]) (File y) fs"
      using run w \<open>s \<noteq> t\<close> by (fastforce simp: commit_temp_def rename_file_def Let_def split: option.splits if_splits)
    with drop show ?thesis by blast
  qed
qed

lemma temp_write_ok:
  assumes ok: "fs_ok fs1" and dir: "map_of fs1 d = Some Dir" and s: "proper_name s" and t: "proper_name t"
    and ne: "s \<noteq> t" and new: "map_of fs1 (d @ [t]) = None" and nl: "\<And>l. map_of fs1 (d @ [s]) \<noteq> Some (Link l)"
    and run: "commit_temp env (d @ [t]) (d @ [s]) data (AList.update (d @ [t]) (File []) fs1) = (r, fs')"
  shows "fs_ok fs' \<and>
    (r = None \<and> map_of fs1 (d @ [s]) \<noteq> Some Dir \<and> map_of fs' = (map_of fs1)(d @ [s] \<mapsto> File data) \<or>
     (\<exists>e y. r = Some e \<and> map_of fs' = (map_of fs1)(d @ [t] := y) \<and> (y = None \<or> (\<exists>z. y = Some (File z)))))"
proof -
  let ?fs2 = "AList.update (d @ [t]) (File []) fs1"
  have "fs_ok ?fs2" using fs_ok_create[OF ok dir t, of "File []" "[]"] new by simp
  moreover have "map_of ?fs2 (d @ [t]) = Some (File [])" "map_of ?fs2 d = Some Dir"
    "\<And>l. map_of ?fs2 (d @ [s]) \<noteq> Some (Link l)" using dir nl ne by simp_all
  ultimately have c: "fs_ok fs' \<and>
    (r = None \<and> map_of ?fs2 (d @ [s]) \<noteq> Some Dir \<and> map_of fs' = (map_of ?fs2)(d @ [t] := None, d @ [s] \<mapsto> File data) \<or>
     (\<exists>e y. r = Some e \<and> map_of fs' = (map_of ?fs2)(d @ [t] := y) \<and> (y = None \<or> (\<exists>z. y = Some (File z)))))"
    using commit_temp_ok[OF _ _ _ s ne _ run, of "[]"] by blast
  have "(map_of ?fs2)(d @ [t] := y) = (map_of fs1)(d @ [t] := y)" for y by simp
  moreover have "(map_of fs1)(d @ [t] := None) = map_of fs1" using new by (simp add: fun_upd_idem)
  ultimately show ?thesis using c ne by simp
qed

text \<open>
  A failed write may leave directories and one temporary file behind; a successful one changes the
  node of its key and nothing else.
\<close>

definition leftover :: "string \<Rightarrow> fs \<Rightarrow> fs \<Rightarrow> bool" where
  "leftover base fs fs' \<longleftrightarrow> (\<exists>fs1. grown (path_of base) fs fs1 \<and>
     (map_of fs' = map_of fs1 \<or>
      (\<exists>d x z. prefix (path_of base) d \<and> map_of fs1 (d @ [tmp_prefix @ x]) = None \<and>
               map_of fs' = (map_of fs1)(d @ [tmp_prefix @ x] \<mapsto> File z))))"

definition written :: "string \<Rightarrow> string \<Rightarrow> string \<Rightarrow> fs \<Rightarrow> fs \<Rightarrow> bool" where
  "written base key data fs fs' \<longleftrightarrow> validate_key key = None \<and>
     (\<exists>fs1. grown (path_of base) fs fs1 \<and> map_of fs' = (map_of fs1)(object_path base key \<mapsto> File data))"

lemma leftover_grown: "grown (path_of base) fs fs' \<Longrightarrow> leftover base fs fs'"
  unfolding leftover_def by blast

lemma root_ok_grown: "root_ok base fs \<Longrightarrow> grown d fs fs' \<Longrightarrow> root_ok base fs'"
  using grown_keeps[of d fs fs' "path_of base"] by (simp add: root_ok_def grown_def)

lemma object_path_snoc: "object_path base key = (path_of base @ butlast (key_path key)) @ [last (key_path key)]"
  by (simp add: object_path_def)

lemma put_from_directory:
  assumes ok: "root_ok base fs1" and g: "grown (path_of base) fs fs1" and v: "validate_key key = None"
    and nl: "no_links fs (path_of base) (key_path key)"
    and dir: "map_of fs1 (path_of base @ butlast (key_path key)) = Some Dir"
    and tmp: "create_temp env fs1 (path_of base @ butlast (key_path key)) (io_temp_names env) = (c, fs2)"
    and failed: "\<And>e. c = Inl e \<Longrightarrow> fs' = fs2 \<and> (\<exists>e. r = Some e)"
    and run: "\<And>t. c = Inr t \<Longrightarrow> commit_temp env t (object_path base key) data fs2 = (r, fs')"
  shows "root_ok base fs' \<and> (r = None \<and> written base key data fs fs' \<or> (\<exists>e. r = Some e) \<and> leftover base fs fs')"
proof -
  let ?d = "path_of base @ butlast (key_path key)" and ?s = "last (key_path key)"
  have fsok: "fs_ok fs1" and rdir: "map_of fs1 (path_of base) = Some Dir" and clean: "clean_path base = base"
    using ok by (simp_all add: root_ok_def)
  from create_temp_ok[OF fsok dir tmp]
  consider e where "c = Inl e" "fs2 = fs1"
    | x where "c = Inr (?d @ [tmp_prefix @ nat_digits x])" "map_of fs1 (?d @ [tmp_prefix @ nat_digits x]) = None"
        "fs2 = AList.update (?d @ [tmp_prefix @ nat_digits x]) (File []) fs1" by blast
  then show ?thesis
  proof cases
    case 1
    with failed[of e] ok leftover_grown[OF g] show ?thesis by auto
  next
    case 2
    let ?t = "tmp_prefix @ nat_digits x"
    have proper: "proper_name ?s" using valid_key_path(1)[OF v] by (simp add: list_all_iff)
    have run2: "commit_temp env (?d @ [?t]) (?d @ [?s]) data fs2 = (r, fs')"
      using run[OF 2(1)] by (simp only: object_path_snoc)
    have ne: "?s \<noteq> ?t" using temp_name_not_key[OF v] by simp
    have "map_of fs1 (?d @ [?s]) \<noteq> Some (Link l)" for l
      using no_links_end[OF grown_no_links[OF g nl], of l] by simp
    note c = temp_write_ok[OF fsok dir proper proper_temp ne 2(2) this run2[unfolded 2(3)]]
    have keep: "map_of fs' (path_of base) = Some Dir"
    proof -
      have "?d @ [a] \<noteq> path_of base" for a by (simp add: append_eq_append_conv2)
      then show ?thesis using c rdir by auto
    qed
    from c show ?thesis
    proof (elim conjE disjE exE)
      assume "r = None" "map_of fs' = (map_of fs1)(?d @ [?s] \<mapsto> File data)" "fs_ok fs'"
      then show ?thesis using g v keep clean unfolding written_def root_ok_def object_path_snoc by blast
    next
      fix e y assume "r = Some e" "fs_ok fs'" "y = None" "map_of fs' = (map_of fs1)(?d @ [?t] := y)"
      then have "map_of fs' = map_of fs1" using 2(2) by (simp add: fun_upd_idem)
      then have "leftover base fs fs'" using g unfolding leftover_def by blast
      then show ?thesis using \<open>r = Some e\<close> \<open>fs_ok fs'\<close> keep clean by (simp add: root_ok_def)
    next
      fix e y z assume r: "r = Some e" "fs_ok fs'" and y: "y = Some (File z)" "map_of fs' = (map_of fs1)(?d @ [?t] := y)"
      have "leftover base fs fs'" unfolding leftover_def using g y 2(2) prefixI by blast
      then show ?thesis using r keep clean by (simp add: root_ok_def)
    qed
  qed
qed

lemma put_ok:
  assumes ok: "root_ok base fs" and run: "local_put env base key ct data fs = (r, fs')"
  shows "root_ok base fs' \<and> (r = None \<and> written base key data fs fs' \<or> (\<exists>e. r = Some e) \<and> leftover base fs fs')"
proof (cases "io_done env = None \<and> (\<exists>full. resolve env fs base key = Inr full)")
  case False
  then consider b where "io_done env = Some b" | e where "io_done env = None" "resolve env fs base key = Inl e"
    by (cases "io_done env"; cases "resolve env fs base key") auto
  then have "fs' = fs \<and> (\<exists>e. r = Some e)" using run by cases (auto simp: local_put_def)
  with ok leftover_grown[OF grown_refl] show ?thesis by (auto simp: root_ok_def)
next
  case True
  then obtain full where live: "io_done env = None" and res: "resolve env fs base key = Inr full" by blast
  note v = resolve_ok[OF ok res]
  have fsok: "fs_ok fs" and rdir: "map_of fs (path_of base) = Some Dir" using ok by (simp_all add: root_ok_def)
  let ?d = "path_of base @ butlast (key_path key)"
  have dirpath: "butlast (path_of full) = ?d" using v(2) by (simp add: object_path_def butlast_append)
  have proper: "list_all proper_name (butlast (key_path key))"
    using valid_key_path(1)[OF v(1)] by (auto simp: list_all_iff dest: in_set_butlastD)
  have "take k (butlast (key_path key)) = take k (key_path key)" if "k \<le> length (butlast (key_path key))" for k
    using that key_path_nonempty[of key]
    by (metis Suc_pred length_butlast One_nat_def le_imp_less_Suc length_greater_0_conv take_butlast)
  then have nl: "no_links fs (path_of base) (butlast (key_path key))"
    using v(3) unfolding no_links_def by (metis diff_le_self le_trans length_butlast)
  obtain m fs1 where mk: "mkdir_all env fs [] ?d = (m, fs1)" by fastforce
  then have "mkdir_all env fs (path_of base) (butlast (key_path key)) = (m, fs1)"
    using mkdir_from_root[OF fsok, of "[]" "path_of base"] rdir by simp
  then have g: "grown (path_of base) fs fs1" and mdir: "m = None \<Longrightarrow> map_of fs1 ?d = Some Dir"
    using mkdir_plain[OF fsok rdir proper nl] by auto
  have ok1: "root_ok base fs1" using root_ok_grown[OF ok g] .
  obtain c fs2 where tmp: "create_temp env fs1 ?d (io_temp_names env) = (c, fs2)" by fastforce
  show ?thesis
  proof (cases "m = None \<and> check_no_symlink env 1 fs1 base full = None")
    case False
    with run live res mk dirpath have "fs' = fs1 \<and> (\<exists>e. r = Some e)"
      by (cases m; cases "check_no_symlink env 1 fs1 base full") (auto simp: local_put_def Let_def)
    with ok1 leftover_grown[OF g] show ?thesis by simp
  next
    case True
    have failed: "fs' = fs2 \<and> (\<exists>e. r = Some e)" if "c = Inl e" for e
      using run live res mk dirpath tmp True that by (simp add: local_put_def Let_def) blast
    have "commit_temp env t (object_path base key) data fs2 = (r, fs')" if "c = Inr t" for t
      using run live res mk dirpath tmp True that v(2) by (simp add: local_put_def Let_def)
    note run2 = this
    from True mdir have "map_of fs1 ?d = Some Dir" by simp
    show ?thesis by (rule put_from_directory[OF ok1 g v(1,3) \<open>map_of fs1 ?d = Some Dir\<close> tmp failed run2])
  qed
qed

section \<open>Reading and deleting\<close>

lemma lstat_object:
  assumes ok: "root_ok base fs" and nl: "no_links fs (path_of base) (key_path key)"
    and r: "lstat env k fs (object_path base key) = x"
  shows "x = Inr nd \<Longrightarrow> map_of fs (object_path base key) = Some nd"
    and "x = Inl ENOENT \<Longrightarrow> map_of fs (object_path base key) = None"
    and "io_fails env (IoLstat k (object_path base key)) = None \<Longrightarrow> map_of fs (object_path base key) = Some nd \<Longrightarrow> x = Inr nd"
proof -
  have fsok: "fs_ok fs" and dir: "map_of fs (path_of base) = Some Dir" using ok by (simp_all add: root_ok_def)
  note plain = find_plain_Some[OF fsok dir nl, folded object_path_def] find_plain_None[OF fsok dir nl, folded object_path_def]
  show "x = Inr nd \<Longrightarrow> map_of fs (object_path base key) = Some nd"
    "x = Inl ENOENT \<Longrightarrow> map_of fs (object_path base key) = None"
    "io_fails env (IoLstat k (object_path base key)) = None \<Longrightarrow> map_of fs (object_path base key) = Some nd \<Longrightarrow> x = Inr nd"
    using plain(1)[of _ False] plain(2)[of False] r
    by (cases "map_of fs (object_path base key)"; auto simp: lstat_def split: option.splits)+
qed

lemma ctx_error_is [simp]: "errors_is (ctx_error b) t \<longleftrightarrow> t = (if b then ContextDeadlineExceeded else ContextCanceled)"
  by (auto simp: ctx_error_def)

lemma resolve_not_missing: "resolve env fs base key = Inl e \<Longrightarrow> \<not> errors_is e ErrObjectNotFound"
proof -
  have "\<not> errors_is e ErrObjectNotFound" if "check_links env k fs cur p = Some e" for k cur p e
    using that by (induction p arbitrary: cur)
      (auto simp: Let_def path_error_def invalid_key_def split: sum.splits io_error.splits node.splits)
  moreover have "\<not> errors_is e ErrObjectNotFound" if "first_some (check_segment key) ss = Some e" for ss e
    using that by (induction ss) (auto simp: check_segment_def invalid_key_def split: option.splits if_splits)
  moreover have "validate_key key = Some e \<Longrightarrow> \<not> errors_is e ErrObjectNotFound" for e
    using calculation(2) by (auto simp: validate_key_def invalid_key_def split: if_splits option.splits)
  ultimately show "resolve env fs base key = Inl e \<Longrightarrow> \<not> errors_is e ErrObjectNotFound"
    by (auto simp: resolve_def Let_def check_no_symlink_def invalid_key_def simp del: check_links.simps
        split: if_splits option.splits)
qed

lemma get_ok:
  assumes ok: "root_ok base fs"
  shows "local_get env base key fs = Inr (data, ct) \<Longrightarrow>
      validate_key key = None \<and> map_of fs (object_path base key) = Some (File data)"
    and "local_get env base key fs = Inl e \<Longrightarrow> errors_is e ErrObjectNotFound \<Longrightarrow>
      validate_key key = None \<and> map_of fs (object_path base key) = None"
proof -
  have fsok: "fs_ok fs" and dir: "map_of fs (path_of base) = Some Dir" using ok by (simp_all add: root_ok_def)
  show "validate_key key = None \<and> map_of fs (object_path base key) = Some (File data)"
    if run: "local_get env base key fs = Inr (data, ct)"
  proof -
    from run obtain full where res: "resolve env fs base key = Inr full"
      by (cases "io_done env"; cases "resolve env fs base key") (auto simp: local_get_def)
    note v = resolve_ok[OF ok res]
    from run res v(2) obtain d where st: "lstat env 1 fs (object_path base key) = Inr (File d)"
        and rd: "read_file env fs (object_path base key) = Inr data"
      by (auto simp: local_get_def Let_def split: option.splits sum.splits node.splits io_error.splits)
    have f: "map_of fs (object_path base key) = Some (File d)" using lstat_object(1)[OF ok v(3) st refl] .
    then have "find_node True fs (object_path base key) = Inr (object_path base key, File d)"
      using find_plain_Some[OF fsok dir v(3)] by (simp add: object_path_def)
    with rd have "d = data" by (auto simp: read_file_def split: option.splits)
    with v(1) f show ?thesis by simp
  qed
  show "validate_key key = None \<and> map_of fs (object_path base key) = None"
    if run: "local_get env base key fs = Inl e" and nf: "errors_is e ErrObjectNotFound"
  proof -
    from run nf resolve_not_missing obtain full where res: "resolve env fs base key = Inr full"
      by (cases "io_done env"; cases "resolve env fs base key") (auto simp: local_get_def split: if_splits)
    note v = resolve_ok[OF ok res]
    let ?p = "object_path base key"
    show ?thesis
    proof (cases "lstat env 1 fs ?p")
      case (Inl x)
      with run res v(2) nf have "x = ENOENT"
        by (auto simp: local_get_def Let_def path_error_def split: option.splits io_error.splits if_splits)
      with lstat_object(2)[OF ok v(3) Inl] v(1) show ?thesis by simp
    next
      case (Inr nd)
      have f: "map_of fs ?p = Some nd" using lstat_object(1)[OF ok v(3) Inr refl] .
      then have "find_node True fs ?p = Inr (?p, nd)"
        using find_plain_Some[OF fsok dir v(3)] by (simp add: object_path_def)
      with run res v(2) nf Inr show ?thesis
        by (auto simp: local_get_def Let_def read_file_def path_error_def invalid_key_def
            split: option.splits node.splits io_error.splits sum.splits if_splits)
    qed
  qed
qed

lemma remove_object:
  assumes ok: "root_ok base fs" and v: "validate_key key = None" and nl: "no_links fs (path_of base) (key_path key)"
    and run: "os_remove env fs (object_path base key) = (r, fs')"
  shows "root_ok base fs' \<and>
    (case r of None \<Rightarrow> map_of fs' = (map_of fs)(object_path base key := None)
     | Some e \<Rightarrow> fs' = fs \<and> (e = ENOENT \<longrightarrow> map_of fs (object_path base key) = None))"
proof -
  let ?p = "object_path base key"
  have fsok: "fs_ok fs" and dir: "map_of fs (path_of base) = Some Dir" using ok by (simp_all add: root_ok_def)
  have ne: "?p \<noteq> []" "?p \<noteq> path_of base" by (simp_all add: object_path_def)
  have gone: "root_ok base (AList.delete ?p fs)" if "\<And>s. map_of fs (?p @ [s]) = None"
    using fs_ok_remove[OF fsok ne(1) that] ok ne by (simp add: root_ok_def)
  show ?thesis
  proof (cases "map_of fs ?p")
    case None
    with find_plain_None[OF fsok dir nl, of False] run ok show ?thesis
      by (auto simp: object_path_def os_remove_def split: option.splits)
  next
    case (Some nd)
    then have f: "find_node False fs ?p = Inr (?p, nd)"
      using find_plain_Some[OF fsok dir nl] by (simp add: object_path_def)
    have "\<And>s. map_of fs (?p @ [s]) = None" if "nd \<noteq> Dir \<or> \<not> has_child fs ?p"
      using that has_child_iff[of fs ?p] no_child[OF fsok] Some by (cases "nd = Dir") auto
    with gone have "nd \<noteq> Dir \<or> \<not> has_child fs ?p \<Longrightarrow> root_ok base (AList.delete ?p fs)" by blast
    with run f ok show ?thesis
      by (auto simp: os_remove_def split: option.splits node.splits if_splits)
  qed
qed

section \<open>The store as a map\<close>

definition local_good :: "string \<Rightarrow> local_state \<Rightarrow> bool" where
  "local_good base s \<longleftrightarrow> root_ok base (ls_fs s)"

definition stored :: "string \<Rightarrow> fs \<Rightarrow> string \<Rightarrow> string option" where
  "stored base fs key =
     (if validate_key key = None
      then (case map_of fs (object_path base key) of Some (File d) \<Rightarrow> Some d | _ \<Rightarrow> None) else None)"

definition local_contents :: "string \<Rightarrow> local_state \<Rightarrow> string \<Rightarrow> string option" where
  "local_contents base s = stored base (ls_fs s)"

lemma stored_grown: "grown d fs fs' \<Longrightarrow> stored base fs' = stored base fs"
proof
  fix key assume "grown d fs fs'"
  then have "map_of fs' p = map_of fs p \<or> map_of fs p = None \<and> map_of fs' p = Some Dir" for p
    by (auto simp: grown_def)
  from this[of "object_path base key"] show "stored base fs' key = stored base fs key"
    by (auto simp: stored_def)
qed

lemma object_path_inject: "object_path base a = object_path base b \<longleftrightarrow> a = b"
  by (simp add: object_path_def key_path_inject)

lemma stored_written: "written base key data fs fs' \<Longrightarrow> stored base fs' = (stored base fs)(key \<mapsto> data)"
proof
  fix k assume "written base key data fs fs'"
  then obtain fs1 where "validate_key key = None" "grown (path_of base) fs fs1"
      "map_of fs' = (map_of fs1)(object_path base key \<mapsto> File data)"
    unfolding written_def by blast
  then show "stored base fs' k = ((stored base fs)(key \<mapsto> data)) k"
    using stored_grown[of "path_of base" fs fs1 base] by (auto simp: stored_def object_path_inject dest: fun_cong[of _ _ k])
qed

lemma stored_leftover: "leftover base fs fs' \<Longrightarrow> stored base fs' = stored base fs"
proof
  fix key assume "leftover base fs fs'"
  then obtain fs1 where g: "grown (path_of base) fs fs1" and
    "map_of fs' = map_of fs1 \<or> (\<exists>d x z. prefix (path_of base) d \<and> map_of fs' = (map_of fs1)(d @ [tmp_prefix @ x] \<mapsto> File z))"
    unfolding leftover_def by blast
  then consider "map_of fs' = map_of fs1"
    | d x z where "prefix (path_of base) d" "map_of fs' = (map_of fs1)(d @ [tmp_prefix @ x] \<mapsto> File z)" by blast
  then have "stored base fs' key = stored base fs1 key"
  proof cases
    case (2 d x z)
    have "object_path base key \<noteq> d @ [tmp_prefix @ x]" if "validate_key key = None"
    proof
      assume "object_path base key = d @ [tmp_prefix @ x]"
      then have "last (key_path key) = tmp_prefix @ x" by (metis last_snoc object_path_snoc)
      with temp_name_not_key[OF that] show False by (metis key_path_nonempty last_in_set)
    qed
    then show ?thesis using 2 by (simp add: stored_def)
  qed (simp add: stored_def)
  with stored_grown[OF g] show "stored base fs' key = stored base fs key" by simp
qed

lemma stored_deleted:
  assumes "validate_key key = None" and "map_of fs' = (map_of fs)(object_path base key := None)"
  shows "stored base fs' = (stored base fs)(key := None)"
  using assms by (auto simp: stored_def object_path_inject)

lemma delete_ok:
  assumes ok: "root_ok base fs" and run: "local_delete env base key fs = (r, fs')"
  shows "root_ok base fs' \<and> (r = None \<longrightarrow> validate_key key = None \<and> map_of fs' = (map_of fs)(object_path base key := None)) \<and>
    (r \<noteq> None \<longrightarrow> fs' = fs)"
proof (cases "io_done env = None \<and> (\<exists>full. resolve env fs base key = Inr full)")
  case False
  then consider b where "io_done env = Some b" | e where "io_done env = None" "resolve env fs base key = Inl e"
    by (cases "io_done env"; cases "resolve env fs base key") auto
  then have "fs' = fs \<and> r \<noteq> None" using run by cases (auto simp: local_delete_def)
  with ok show ?thesis by auto
next
  case True
  then obtain full where live: "io_done env = None" and res: "resolve env fs base key = Inr full" by blast
  note v = resolve_ok[OF ok res]
  obtain e g where rm: "os_remove env fs (object_path base key) = (e, g)" by fastforce
  note d = remove_object[OF ok v(1,3) rm]
  from run live res rm v(2) have "fs' = g \<and> (r = None \<longleftrightarrow> e = None \<or> e = Some ENOENT)"
    by (auto simp: local_delete_def split: option.splits io_error.splits)
  with d v(1) show ?thesis by (cases e) (auto simp: fun_upd_idem)
qed

lemma exists_ok:
  assumes ok: "root_ok base fs" and run: "local_exists env base key fs = Inr b"
  shows "b \<longleftrightarrow> stored base fs key \<noteq> None"
proof -
  from run obtain full where live: "io_done env = None" and res: "resolve env fs base key = Inr full"
    by (cases "io_done env"; cases "resolve env fs base key") (auto simp: local_exists_def)
  note v = resolve_ok[OF ok res]
  show ?thesis
  proof (cases "lstat env 1 fs (object_path base key)")
    case (Inl x)
    with run live res v(2) have "x = ENOENT" "b = False"
      by (auto simp: local_exists_def split: io_error.splits)
    with lstat_object(2)[OF ok v(3) Inl] v(1) show ?thesis by (simp add: stored_def)
  next
    case (Inr nd)
    with run live res v(2) lstat_object(1)[OF ok v(3) Inr refl] v(1) show ?thesis
      by (cases nd) (auto simp: local_exists_def stored_def)
  qed
qed

interpretation local: object_store_laws "local_store base env" "local_good base" "local_contents base" for base env
proof (unfold_locales, goal_cases)
  case (1 s key ct data s')
  then show ?case
    using put_ok[of base "ls_fs s" "env (ls_calls s)" key ct data None "ls_fs s'"] stored_written
    by (auto simp: local_store_def local_good_def local_contents_def split: prod.splits)
next
  case (2 s key ct data e s')
  then show ?case
    using put_ok[of base "ls_fs s" "env (ls_calls s)" key ct data "Some e" "ls_fs s'"] stored_leftover
    by (auto simp: local_store_def local_good_def local_contents_def split: prod.splits)
next
  case (3 s key data ct s')
  then show ?case using get_ok(1)[of base "ls_fs s"]
    by (auto simp: local_store_def local_good_def local_contents_def stored_def)
next
  case (4 s key e s')
  then show ?case using get_ok(2)[of base "ls_fs s"]
    by (auto simp: local_store_def local_good_def local_contents_def stored_def)
next
  case (5 s key g s')
  then show ?case by (auto simp: local_store_def local_good_def local_contents_def)
next
  case (6 s key s')
  then show ?case
    using delete_ok[of base "ls_fs s" "env (ls_calls s)" key None "ls_fs s'"] stored_deleted
    by (auto simp: local_store_def local_good_def local_contents_def split: prod.splits)
next
  case (7 s key e s')
  then show ?case
    using delete_ok[of base "ls_fs s" "env (ls_calls s)" key "Some e" "ls_fs s'"]
    by (auto simp: local_store_def local_good_def local_contents_def split: prod.splits)
next
  case (8 s key b s')
  then show ?case using exists_ok[of base "ls_fs s"]
    by (auto simp: local_store_def local_good_def local_contents_def)
next
  case (9 s key x s')
  then show ?case by (auto simp: local_store_def local_good_def local_contents_def)
qed

section \<open>Writes that succeed\<close>

text \<open>
  There is room for a key when what lies on its path is a directory, and no directory is in its place.
  An environment is quiet when no call fails and a temporary name is free.
\<close>

definition free_or_dir :: "fs \<Rightarrow> path \<Rightarrow> path \<Rightarrow> bool" where
  "free_or_dir fs d p \<longleftrightarrow> list_all (\<lambda>k. map_of fs (d @ take k p) \<in> {None, Some Dir}) [0..<Suc (length p)]"

definition room :: "string \<Rightarrow> string \<Rightarrow> fs \<Rightarrow> bool" where
  "room base key fs \<longleftrightarrow> base \<noteq> ''/'' \<and> validate_key key = None \<and> free_or_dir fs (path_of base) (butlast (key_path key)) \<and>
     (case map_of fs (object_path base key) of None \<Rightarrow> True | Some (File d) \<Rightarrow> True | _ \<Rightarrow> False)"

definition quiet :: "io_env \<Rightarrow> fs \<Rightarrow> path \<Rightarrow> bool" where
  "quiet env fs dir \<longleftrightarrow> io_done env = None \<and> io_fails env = (\<lambda>c. None) \<and>
     list_ex (\<lambda>x. map_of fs (dir @ [tmp_prefix @ nat_digits x]) = None) (io_temp_names env)"

lemma free_or_dir_iff: "free_or_dir fs d p \<longleftrightarrow> (\<forall>k \<le> length p. map_of fs (d @ take k p) = None \<or> map_of fs (d @ take k p) = Some Dir)"
  by (auto simp: free_or_dir_def list_all_iff less_Suc_eq_le simp del: upt_Suc)

lemma free_or_dir_Cons: "free_or_dir fs d (s # p) \<Longrightarrow> free_or_dir fs (d @ [s]) p"
  by (simp add: free_or_dir_iff all_le_Suc)

lemma free_or_dir_head: "free_or_dir fs d (s # p) \<Longrightarrow> map_of fs (d @ [s]) = None \<or> map_of fs (d @ [s]) = Some Dir"
  unfolding free_or_dir_iff by (drule spec[of _ 1]) simp

lemma free_or_dir_grown: "grown c fs fs' \<Longrightarrow> free_or_dir fs d p \<Longrightarrow> free_or_dir fs' d p"
  unfolding grown_def free_or_dir_iff by metis

lemma mkdir_quiet:
  "fs_ok fs \<Longrightarrow> map_of fs d = Some Dir \<Longrightarrow> list_all proper_name p \<Longrightarrow> free_or_dir fs d p \<Longrightarrow> io_fails env = (\<lambda>c. None) \<Longrightarrow>
   fst (mkdir_all env fs d p) = None"
proof (induction p arbitrary: d fs)
  case (Cons s p)
  from free_or_dir_head[OF Cons.prems(4)] show ?case
  proof
    assume none: "map_of fs (d @ [s]) = None"
    let ?fs = "AList.update (d @ [s]) Dir fs"
    have g: "grown d fs ?fs" using grown_mkdir Cons.prems none by simp
    have "walk f max_links fs [] (d @ [s]) = Inr (d @ [s])" for f
      using walk_to[OF Cons.prems(1,2)] none by simp
    then have "mkdir_all env fs d (s # p) = mkdir_all env ?fs (d @ [s]) p"
      using none Cons.prems(5) by (simp add: find_node_def)
    moreover have "fst (mkdir_all env ?fs (d @ [s]) p) = None"
      using Cons.IH[of ?fs "d @ [s]"] g free_or_dir_grown[OF g free_or_dir_Cons[OF Cons.prems(4)]] Cons.prems(3,5)
      by (simp add: grown_def)
    ultimately show ?thesis by simp
  next
    assume dir: "map_of fs (d @ [s]) = Some Dir"
    then have "mkdir_all env fs d (s # p) = mkdir_all env fs (d @ [s]) p"
      using walk_dir[OF Cons.prems(1) dir] by (simp add: find_node_def)
    then show ?thesis using Cons.IH[of fs "d @ [s]"] Cons.prems dir free_or_dir_Cons by simp
  qed
qed simp

lemma check_links_quiet:
  "fs_ok fs \<Longrightarrow> map_of fs cur = Some Dir \<Longrightarrow> list_all proper_name (p @ [s]) \<Longrightarrow> free_or_dir fs cur p \<Longrightarrow>
   (\<And>l. map_of fs (cur @ p @ [s]) \<noteq> Some (Link l)) \<Longrightarrow> io_fails env = (\<lambda>c. None) \<Longrightarrow> check_links env k fs cur (p @ [s]) = None"
proof (induction p arbitrary: cur)
  case Nil
  then have step: "clean_step cur s = cur @ [s]" by (simp add: clean_step_def proper_name_def)
  have "find_node False fs (cur @ [s]) = (case map_of fs (cur @ [s]) of None \<Rightarrow> Inl ENOENT | Some nd \<Rightarrow> Inr (cur @ [s], nd))"
    using walk_to[OF Nil.prems(1,2), of False max_links s] Nil.prems(5)
    by (simp add: find_node_def split: option.splits node.splits)
  with step Nil.prems(5,6) show ?case by (auto simp: lstat_def Let_def split: option.splits node.splits)
next
  case (Cons x p)
  then have step: "clean_step cur x = cur @ [x]" by (simp add: clean_step_def proper_name_def)
  have w: "find_node False fs (cur @ [x]) = (case map_of fs (cur @ [x]) of None \<Rightarrow> Inl ENOENT | Some nd \<Rightarrow> Inr (cur @ [x], nd))"
    using walk_to[OF Cons.prems(1,2), of False max_links x] free_or_dir_head[OF Cons.prems(4)]
    by (auto simp: find_node_def)
  from free_or_dir_head[OF Cons.prems(4)] show ?case
  proof
    assume "map_of fs (cur @ [x]) = None"
    with step w Cons.prems(6) show ?thesis by (simp add: lstat_def)
  next
    assume d: "map_of fs (cur @ [x]) = Some Dir"
    then have "check_links env k fs (cur @ [x]) (p @ [s]) = None"
      using Cons.IH[of "cur @ [x]"] Cons.prems free_or_dir_Cons by simp
    with step w d Cons.prems(6) show ?thesis by (simp add: lstat_def)
  qed
qed

lemma create_temp_quiet:
  assumes ok: "fs_ok fs" and dir: "map_of fs d = Some Dir" and env: "io_fails env = (\<lambda>c. None)"
  shows "list_ex (\<lambda>x. map_of fs (d @ [tmp_prefix @ nat_digits x]) = None) xs \<Longrightarrow>
     \<exists>t. fst (create_temp env fs d xs) = Inr (d @ [t])"
proof (induction xs)
  case (Cons x xs)
  have "walk False max_links fs [] (d @ [tmp_prefix @ nat_digits x]) = Inr (d @ [tmp_prefix @ nat_digits x])"
    by (simp add: walk_to[OF ok dir] split: option.split node.split)
  with Cons env show ?case by (auto simp: Let_def)
qed simp

lemma path_text_append: "b \<noteq> [] \<Longrightarrow> path_text (b @ p) = path_text b @ concat (map (\<lambda>s. CHR ''/'' # s) p)"
  by (simp add: path_text_def)

lemma inside_root:
  assumes clean: "clean_path base = base" and "base \<noteq> ''/''" and v: "validate_key key = None"
  shows "clean_path (join_path base key) \<noteq> base \<and> has_prefix (base @ ''/'') (clean_path (join_path base key))"
proof -
  have b: "path_text (path_of base) = base" using clean by (simp add: clean_path_def)
  then have ne: "path_of base \<noteq> []" using assms(2) by (auto simp: path_text_def)
  have "clean_path (join_path base key) = path_text (path_of base @ key_path key)"
    using path_of_object[OF v, of base]
    by (metis clean_path_def path_of_clean object_path_def)
  also have "\<dots> = base @ concat (map (\<lambda>s. CHR ''/'' # s) (key_path key))"
    using path_text_append[OF ne] b by simp
  finally have full: "clean_path (join_path base key) = base @ concat (map (\<lambda>s. CHR ''/'' # s) (key_path key))" .
  obtain s ss where "key_path key = s # ss" by (meson list.exhaust key_path_nonempty)
  with full show ?thesis using has_prefix_append[of "base @ ''/''"] by simp
qed

lemma resolve_quiet:
  assumes ok: "root_ok base fs" and r: "room base key fs" and env: "io_fails env = (\<lambda>c. None)"
  shows "resolve env fs base key = Inr (clean_path (join_path base key))"
    and "check_no_symlink env k fs base (clean_path (join_path base key)) = None"
proof -
  have v: "validate_key key = None" using r by (simp add: room_def)
  have snoc: "key_path key = butlast (key_path key) @ [last (key_path key)]" by simp
  have "map_of fs (path_of base @ butlast (key_path key) @ [last (key_path key)]) \<noteq> Some (Link l)" for l
    using r by (auto simp: room_def object_path_def)
  then have "check_links env k fs (path_of base) (butlast (key_path key) @ [last (key_path key)]) = None" for k
    using check_links_quiet[of fs "path_of base" "butlast (key_path key)" "last (key_path key)" env k]
      ok r env valid_key_path(1)[OF v] by (simp add: root_ok_def room_def)
  then have chk: "check_no_symlink env k fs base (clean_path (join_path base key)) = None" for k
    using path_of_object[OF v, of base] snoc by (simp add: check_no_symlink_def object_path_def del: check_links.simps)
  then show "check_no_symlink env k fs base (clean_path (join_path base key)) = None" .
  have "path_text p \<noteq> []" for p by (cases p) (simp_all add: path_text_def)
  then have "base \<noteq> []" using ok by (metis root_ok_def clean_path_def)
  with chk inside_root[of base key] ok r v
  show "resolve env fs base key = Inr (clean_path (join_path base key))"
    by (simp add: resolve_def Let_def root_ok_def room_def clean_path_def path_of_path_text path_of_proper)
qed

lemma room_grown: "grown d fs fs' \<Longrightarrow> map_of fs' (object_path base key) = map_of fs (object_path base key) \<Longrightarrow>
   room base key fs \<Longrightarrow> room base key fs'"
  using free_or_dir_grown by (auto simp: room_def)

lemma commit_quiet:
  assumes ok: "fs_ok fs" and env: "io_fails env = (\<lambda>c. None)" and dir: "map_of fs d = Some Dir"
    and tmp: "map_of fs (d @ [t]) = Some (File x)" and dst: "\<And>nd. map_of fs (d @ [s]) = Some nd \<Longrightarrow> \<exists>y. nd = File y"
  shows "fst (commit_temp env (d @ [t]) (d @ [s]) data fs) = None"
proof -
  have t: "proper_name t" using fs_ok_parent[OF ok, of d t] tmp by simp
  let ?g = "AList.update (d @ [t]) (File data) fs"
  have ok': "fs_ok ?g" using fs_ok_create[OF ok dir t, of "File data" data] tmp by simp
  have dst': "\<exists>y. nd = File y" if "map_of ?g (d @ [s]) = Some nd" for nd
    using that dst by (auto split: if_splits)
  then have "walk False max_links ?g [] (d @ [s]) = Inr (d @ [s])"
    using walk_to[OF ok', of d False max_links s] dir by (auto split: option.splits node.splits)
  moreover have "map_of ?g (d @ [s]) \<noteq> Some Dir" using dst' by force
  ultimately show ?thesis by (simp add: commit_temp_def rename_file_def env Let_def split: option.splits)
qed

lemma put_quiet:
  assumes ok: "root_ok base fs" and r: "room base key fs"
    and q: "quiet env fs (path_of base @ butlast (key_path key))"
  shows "fst (local_put env base key ct data fs) = None"
proof -
  let ?d = "path_of base @ butlast (key_path key)" and ?s = "last (key_path key)"
  have env: "io_done env = None" "io_fails env = (\<lambda>c. None)" using q by (simp_all add: quiet_def)
  have fsok: "fs_ok fs" and rdir: "map_of fs (path_of base) = Some Dir" using ok by (simp_all add: root_ok_def)
  have v: "validate_key key = None" and fd: "free_or_dir fs (path_of base) (butlast (key_path key))"
    using r by (simp_all add: room_def)
  have proper: "list_all proper_name (butlast (key_path key))" "proper_name ?s"
    using valid_key_path(1)[OF v] by (auto simp: list_all_iff dest: in_set_butlastD)
  have nl: "no_links fs (path_of base) (butlast (key_path key))"
    using fd by (auto simp: no_links_def free_or_dir_iff)
  obtain m fs1 where mk: "mkdir_all env fs [] ?d = (m, fs1)" by fastforce
  then have mk': "mkdir_all env fs (path_of base) (butlast (key_path key)) = (m, fs1)"
    using mkdir_from_root[OF fsok, of "[]" "path_of base"] rdir by simp
  with mkdir_quiet[OF fsok rdir proper(1) fd env(2)] have m: "m = None" by simp
  with mkdir_plain[OF fsok rdir proper(1) nl mk'] have g: "grown (path_of base) fs fs1"
    and dir: "map_of fs1 ?d = Some Dir" and old: "\<And>p. map_of fs1 p = map_of fs p \<or> prefix p ?d" by auto
  have same: "map_of fs1 (?d @ [x]) = map_of fs (?d @ [x])" for x
    using old[of "?d @ [x]"] by (auto dest: prefix_length_le)
  have fsok1: "fs_ok fs1" and ok1: "root_ok base fs1" using g root_ok_grown[OF ok g] by (simp_all add: grown_def)
  have r1: "room base key fs1" using room_grown[OF g _ r] same[of ?s] by (simp add: object_path_def)
  obtain c fs2 where tmp: "create_temp env fs1 ?d (io_temp_names env) = (c, fs2)" by fastforce
  have "list_ex (\<lambda>x. map_of fs1 (?d @ [tmp_prefix @ nat_digits x]) = None) (io_temp_names env)"
    using q same by (simp add: quiet_def)
  then obtain t where t: "c = Inr (?d @ [t])" using create_temp_quiet[OF fsok1 dir env(2)] tmp by (metis fst_conv)
  with create_temp_ok[OF fsok1 dir tmp] obtain x where x: "t = tmp_prefix @ nat_digits x"
    and new: "map_of fs1 (?d @ [t]) = None" and fs2: "fs2 = AList.update (?d @ [t]) (File []) fs1" by auto
  have fsok2: "fs_ok fs2" unfolding fs2 x using fs_ok_create[OF fsok1 dir proper_temp, of x "File []" "[]"] new x by simp
  have dst: "\<exists>y. nd = File y" if "map_of fs2 (?d @ [?s]) = Some nd" for nd
    using that r1 unfolding fs2 room_def object_path_snoc by (auto split: if_splits option.splits node.splits)
  have "fst (commit_temp env (?d @ [t]) (?d @ [?s]) data fs2) = None"
    by (rule commit_quiet[OF fsok2 env(2) _ _ dst]) (use dir fs2 in auto)
  moreover have "path_of (clean_path (join_path base key)) = ?d @ [?s]"
    using path_of_object[OF v, of base] by (simp only: object_path_snoc)
  ultimately show ?thesis
    using resolve_quiet(1)[OF ok r env(2)] resolve_quiet(2)[OF ok1 r1 env(2), of 1] mk m tmp t env(1)
    by (simp add: local_put_def Let_def butlast_append del: path_of_clean path_of_join)
qed

lemma get_quiet:
  assumes ok: "root_ok base fs" and r: "room base key fs" and env: "io_done env = None" "io_fails env = (\<lambda>c. None)"
    and f: "map_of fs (object_path base key) = Some (File d)"
  shows "local_get env base key fs = Inr (d, content_type_for_key (io_detect env) key d)"
proof -
  have fsok: "fs_ok fs" and rdir: "map_of fs (path_of base) = Some Dir" using ok by (simp_all add: root_ok_def)
  have v: "validate_key key = None" using r by (simp add: room_def)
  note res = resolve_quiet(1)[OF ok r env(2)]
  note nl = resolve_ok(3)[OF ok res]
  have "find_node b fs (object_path base key) = Inr (object_path base key, File d)" for b
    using find_plain_Some[OF fsok rdir nl] f by (simp add: object_path_def)
  then show ?thesis using res env path_of_object[OF v, of base]
    by (simp add: local_get_def lstat_def read_file_def Let_def del: path_of_clean path_of_join)
qed

section \<open>Properties\<close>

lemma written_below: "written base key data fs fs' \<Longrightarrow> map_of fs' p \<noteq> map_of fs p \<Longrightarrow> strict_prefix (path_of base) p"
proof -
  assume "written base key data fs fs'" and ne: "map_of fs' p \<noteq> map_of fs p"
  then obtain fs1 where g: "grown (path_of base) fs fs1" and "map_of fs' = (map_of fs1)(object_path base key \<mapsto> File data)"
    unfolding written_def by blast
  with ne have "p = object_path base key \<or> map_of fs1 p \<noteq> map_of fs p" by auto
  with g show ?thesis by (auto simp: grown_def object_path_def strict_prefix_def)
qed

lemma leftover_below: "leftover base fs fs' \<Longrightarrow> map_of fs' p \<noteq> map_of fs p \<Longrightarrow> strict_prefix (path_of base) p"
proof -
  assume "leftover base fs fs'" and ne: "map_of fs' p \<noteq> map_of fs p"
  then obtain fs1 where g: "grown (path_of base) fs fs1" and
    "map_of fs' = map_of fs1 \<or> (\<exists>d x z. prefix (path_of base) d \<and> map_of fs' = (map_of fs1)(d @ [tmp_prefix @ x] \<mapsto> File z))"
    unfolding leftover_def by blast
  with ne consider "map_of fs1 p \<noteq> map_of fs p" | d x where "prefix (path_of base) d" "p = d @ [tmp_prefix @ x]"
    by (auto split: if_splits)
  then show ?thesis
  proof cases
    case 1
    with g show ?thesis by (auto simp: grown_def)
  next
    case (2 d x)
    then show ?thesis by (auto simp: prefix_def strict_prefix_def)
  qed
qed

text \<open>C9: Whatever links the data directory holds and whatever the key is, a write or a delete of the local
  store changes nothing outside its root, and a read returns the bytes of the file that lies at the
  key's own path below the root, not of a file that a link leads to.\<close>

theorem store_stays_under_root:
  assumes ok: "root_ok base fs"
  shows "(\<forall>p. strict_prefix (path_of base) p \<or>
       map_of (snd (local_put env base key ct data fs)) p = map_of fs p \<and>
       map_of (snd (local_delete env base key fs)) p = map_of fs p) \<and>
    (\<forall>d c. local_get env base key fs = Inr (d, c) \<longrightarrow>
       map_of fs (path_of base @ split_on CHR ''/'' key) = Some (File d))"
proof (intro conjI allI impI)
  fix d c assume "local_get env base key fs = Inr (d, c)"
  then show "map_of fs (path_of base @ split_on CHR ''/'' key) = Some (File d)"
    using get_ok(1)[OF ok] by (simp add: object_path_def key_path_def)
next
  fix p
  have put: "map_of (snd (local_put env base key ct data fs)) p = map_of fs p" if "\<not> strict_prefix (path_of base) p"
    using put_ok[OF ok, of env key ct data] written_below leftover_below that by (metis prod.collapse)
  have del: "map_of (snd (local_delete env base key fs)) p = map_of fs p" if "\<not> strict_prefix (path_of base) p"
  proof (cases "local_delete env base key fs")
    case (Pair r fs')
    have "p \<noteq> object_path base key" using that by (auto simp: object_path_def strict_prefix_def)
    with delete_ok[OF ok Pair] Pair show ?thesis by (cases r) auto
  qed
  show "strict_prefix (path_of base) p \<or> map_of (snd (local_put env base key ct data fs)) p = map_of fs p \<and>
       map_of (snd (local_delete env base key fs)) p = map_of fs p" using put del by blast
qed

text \<open>A data directory in which someone planted a link to a directory outside it.\<close>

definition planted_link :: fs where
  "planted_link =
     [([], Dir), ([''data''], Dir), ([''data'', ''img''], Link [''etc'']), ([''etc''], Dir),
      ([''etc'', ''p''], File ''secret''), ([''data'', ''a''], Dir), ([''data'', ''a'', ''1.png''], File ''old'')]"

definition calm :: io_env where
  "calm = \<lparr>io_done = None, io_fails = (\<lambda>c. None), io_temp_names = [7], io_written = 0, io_detect = (\<lambda>d. ''image/png'')\<rparr>"

lemma planted_root_ok: "root_ok ''/data'' planted_link"
  by code_simp

theorem store_stays_under_root_witness:
  "map_of (snd (local_put calm ''/data'' ''img/p'' ''image/png'' ''new'' planted_link)) [''etc'', ''p''] = Some (File ''secret'') \<and>
   fst (local_put calm ''/data'' ''img/p'' ''image/png'' ''new'' planted_link) \<noteq> None \<and>
   map_of (snd (local_put calm ''/data'' ''a/2.png'' ''image/png'' ''new'' planted_link)) [''data'', ''a'', ''2.png''] = Some (File ''new'')"
proof -
  have "map_of (snd (local_put calm ''/data'' ''img/p'' ''image/png'' ''new'' planted_link)) [''etc'', ''p''] = map_of planted_link [''etc'', ''p'']"
    using store_stays_under_root[OF planted_root_ok, of calm "''img/p''" "''image/png''" "''new''"]
    by (auto dest!: spec[of _ "[''etc'', ''p'']"] simp: strict_prefix_def prefix_def path_of_def clean_step_def)
  moreover have "map_of planted_link [''etc'', ''p''] = Some (File ''secret'')" by code_simp
  moreover have "fst (local_put calm ''/data'' ''img/p'' ''image/png'' ''new'' planted_link) \<noteq> None" by code_simp
  moreover have "map_of (snd (local_put calm ''/data'' ''a/2.png'' ''image/png'' ''new'' planted_link)) [''data'', ''a'', ''2.png''] = Some (File ''new'')"
    by code_simp
  ultimately show ?thesis by simp
qed

text \<open>C10: The local store is a map from keys to bytes. A successful write sets one key and a successful
  delete clears one, a failed operation changes no object, a read returns what the map holds, and the
  answer that an object does not exist is true.\<close>

theorem local_store_implements_map:
  assumes good: "local_good base s"
  shows "(case os_put (local_store base env) key ct data s of (r, s') \<Rightarrow>
       local_good base s' \<and> local_contents base s' = (if r = None then (local_contents base s)(key \<mapsto> data) else local_contents base s)) \<and>
    (case os_delete (local_store base env) key s of (r, s') \<Rightarrow>
       local_good base s' \<and> local_contents base s' = (if r = None then (local_contents base s)(key := None) else local_contents base s)) \<and>
    (case os_get (local_store base env) key s of
       (Inr (d, c), s') \<Rightarrow> local_contents base s key = Some d \<and> local_contents base s' = local_contents base s
     | (Inl e, s') \<Rightarrow> (errors_is e ErrObjectNotFound \<longrightarrow> local_contents base s key = None) \<and>
         local_contents base s' = local_contents base s) \<and>
    (case os_exists (local_store base env) key s of
       (Inr b, s') \<Rightarrow> b = (local_contents base s key \<noteq> None) | (Inl e, s') \<Rightarrow> True)"
proof (intro conjI)
  obtain r s' where run: "os_put (local_store base env) key ct data s = (r, s')" by fastforce
  show "case os_put (local_store base env) key ct data s of (r, s') \<Rightarrow>
       local_good base s' \<and> local_contents base s' = (if r = None then (local_contents base s)(key \<mapsto> data) else local_contents base s)"
    using local.put_done[OF good, of env key ct data s'] local.put_failed[OF good, of env key ct data _ s'] run
    by (cases r) simp_all
next
  obtain r s' where run: "os_delete (local_store base env) key s = (r, s')" by fastforce
  show "case os_delete (local_store base env) key s of (r, s') \<Rightarrow>
       local_good base s' \<and> local_contents base s' = (if r = None then (local_contents base s)(key := None) else local_contents base s)"
    using local.delete_done[OF good, of env key s'] local.delete_failed[OF good, of env key _ s'] run
    by (cases r) simp_all
next
  obtain r s' where run: "os_get (local_store base env) key s = (r, s')" by fastforce
  show "case os_get (local_store base env) key s of
       (Inr (d, c), s') \<Rightarrow> local_contents base s key = Some d \<and> local_contents base s' = local_contents base s
     | (Inl e, s') \<Rightarrow> (errors_is e ErrObjectNotFound \<longrightarrow> local_contents base s key = None) \<and>
         local_contents base s' = local_contents base s"
    using local.get_done[OF good, of env key _ _ s'] local.get_missing[OF good, of env key _ s'] local.get_state[OF good run] run
    by (cases r) auto
next
  obtain r s' where run: "os_exists (local_store base env) key s = (r, s')" by fastforce
  then show "case os_exists (local_store base env) key s of
       (Inr b, s') \<Rightarrow> b = (local_contents base s key \<noteq> None) | (Inl e, s') \<Rightarrow> True"
    using local.exists_done[OF good, of env key _ s'] by (cases r) simp_all
qed

theorem local_store_implements_map_witness:
  "local_contents ''/data'' (snd (os_put (local_store ''/data'' (\<lambda>n. calm)) ''a/2.png'' ''image/png'' ''new''
      \<lparr>ls_fs = planted_link, ls_calls = 0\<rparr>)) = (local_contents ''/data'' \<lparr>ls_fs = planted_link, ls_calls = 0\<rparr>)(''a/2.png'' \<mapsto> ''new'')"
proof -
  have "local_good ''/data'' \<lparr>ls_fs = planted_link, ls_calls = 0\<rparr>" by (simp add: local_good_def planted_root_ok)
  note laws = local_store_implements_map[OF this, where env = "\<lambda>n. calm" and key = "''a/2.png''"
      and ct = "''image/png''" and data = "''new''"]
  have "fst (os_put (local_store ''/data'' (\<lambda>n. calm)) ''a/2.png'' ''image/png'' ''new'' \<lparr>ls_fs = planted_link, ls_calls = 0\<rparr>) = None"
    by code_simp
  with laws show ?thesis by (auto split: prod.splits)
qed

text \<open>When no call fails and nothing but directories lies on the key's path, a write succeeds, and a
  read after it returns the bytes written and the content type that belongs to the key's extension.\<close>

theorem put_then_get:
  assumes ok: "root_ok base fs" and r: "room base key fs"
    and q: "quiet env fs (path_of base @ butlast (key_path key))"
    and run: "local_put env base key ct data fs = (res, fs')"
  shows "res = None \<and> local_get env base key fs' = Inr (data, content_type_for_key (io_detect env) key data)"
proof -
  have none: "res = None" using put_quiet[OF ok r q] run by (metis fst_conv)
  with put_ok[OF ok run] have ok': "root_ok base fs'" and w: "written base key data fs fs'" by auto
  then obtain fs1 where v: "validate_key key = None" and g: "grown (path_of base) fs fs1"
    and fs': "map_of fs' = (map_of fs1)(object_path base key \<mapsto> File data)" unfolding written_def by blast
  have "free_or_dir fs1 (path_of base) (butlast (key_path key))"
    using free_or_dir_grown[OF g] r by (simp add: room_def)
  moreover have "path_of base @ take k (butlast (key_path key)) \<noteq> object_path base key" for k
  proof
    assume "path_of base @ take k (butlast (key_path key)) = object_path base key"
    then have "length (take k (butlast (key_path key))) = length (key_path key)" by (simp add: object_path_def)
    then have "length (key_path key) \<le> length (key_path key) - 1" by (metis length_butlast length_take min.cobounded1)
    then show False using key_path_nonempty[of key] by (cases "key_path key") simp_all
  qed
  ultimately have "room base key fs'" using r fs' by (simp add: room_def free_or_dir_iff)
  with get_quiet[OF ok' this] q fs' none show ?thesis by (simp add: quiet_def)
qed

theorem put_then_get_witness:
  "\<exists>fs'. local_put calm ''/data'' ''b/2.png'' ''image/png'' ''new'' planted_link = (None, fs') \<and>
     local_get calm ''/data'' ''b/2.png'' fs' = Inr (''new'', ''image/png'')"
proof -
  obtain res fs' where run: "local_put calm ''/data'' ''b/2.png'' ''image/png'' ''new'' planted_link = (res, fs')"
    by fastforce
  have "room ''/data'' ''b/2.png'' planted_link" by code_simp
  moreover have "quiet calm planted_link (path_of ''/data'' @ butlast (key_path ''b/2.png''))"
    by (simp add: quiet_def calm_def) code_simp
  moreover have "content_type_for_key (io_detect calm) ''b/2.png'' ''new'' = ''image/png''" by code_simp
  ultimately show ?thesis using put_then_get[OF planted_root_ok _ _ run] run by simp
qed

section \<open>The keys the program makes\<close>

definition plain_byte :: "char \<Rightarrow> bool" where
  "plain_byte c \<longleftrightarrow> is_allowed_key_byte c \<and> c \<noteq> CHR ''.'' \<and> c \<noteq> CHR ''/''"

definition plain_segment :: "string \<Rightarrow> bool" where
  "plain_segment s \<longleftrightarrow> s \<noteq> [] \<and> list_all plain_byte s"

definition segment_ok :: "string \<Rightarrow> bool" where
  "segment_ok s \<longleftrightarrow> s \<noteq> [] \<and> list_all (\<lambda>c. is_allowed_key_byte c \<and> c \<noteq> CHR ''/'') s \<and>
     hd s \<noteq> CHR ''.'' \<and> last s \<noteq> CHR ''.'' \<and> length s \<le> max_key_segment_len"

lemma plain_append: "plain_segment a \<Longrightarrow> plain_segment b \<Longrightarrow> plain_segment (a @ b)"
  by (simp add: plain_segment_def)

lemma plain_ends: "plain_segment s \<Longrightarrow> hd s \<noteq> CHR ''.'' \<and> last s \<noteq> CHR ''.''"
  using hd_in_set[of s] last_in_set[of s] by (force simp only: plain_segment_def plain_byte_def list_all_iff)

lemma plain_segment_ok: "plain_segment s \<Longrightarrow> length s \<le> max_key_segment_len \<Longrightarrow> segment_ok s"
  using plain_ends[of s] by (simp add: segment_ok_def plain_segment_def plain_byte_def list_all_iff)

lemma dot_allowed: "is_allowed_key_byte CHR ''.'' \<and> is_allowed_key_byte CHR ''/''"
  by (simp add: is_allowed_key_byte_def)

lemma named_segment_ok:
  assumes "plain_segment a" and "plain_segment b" and "length a + length b < max_key_segment_len"
  shows "segment_ok (a @ CHR ''.'' # b)"
proof -
  have "a \<noteq> []" "b \<noteq> []" using assms(1,2) by (simp_all add: plain_segment_def)
  then have "hd (a @ CHR ''.'' # b) = hd a" "last (a @ CHR ''.'' # b) = last b" by simp_all
  moreover have "(CHR ''.'' :: char) \<noteq> CHR ''/''" by simp
  ultimately show ?thesis using assms plain_ends dot_allowed
    by (auto simp only: segment_ok_def plain_segment_def plain_byte_def list_all_iff set_append set_simps length_append list.size
        append_is_Nil_conv)
qed

lemma has_prefix_one: "has_prefix [c] s \<longleftrightarrow> s \<noteq> [] \<and> hd s = c"
  by (cases s) (auto simp: has_prefix_def)

lemma has_suffix_one: "has_suffix [c] s \<longleftrightarrow> s \<noteq> [] \<and> last s = c"
  by (simp add: has_suffix_def has_prefix_one hd_rev)

lemma check_segment_ok: "segment_ok s \<Longrightarrow> check_segment key s = None"
proof -
  assume ok: "segment_ok s"
  then have "s \<noteq> ''.''" "s \<noteq> ''..''" by (auto simp: segment_ok_def)
  with ok show ?thesis by (simp add: check_segment_def segment_ok_def has_prefix_one has_suffix_one)
qed

lemma key_of_segments:
  assumes seg: "list_all segment_ok (s # ss)" and key: "key = s @ concat (map (\<lambda>y. CHR ''/'' # y) ss)"
    and len: "length key \<le> max_object_key_len"
  shows "validate_key key = None"
proof -
  have split: "split_on CHR ''/'' key = s # ss"
    unfolding key by (rule split_on_names) (use seg in \<open>auto simp: segment_ok_def list_all_iff\<close>)
  have nonempty: "[] \<notin> set (s # ss)" using seg by (auto simp: segment_ok_def list_all_iff)
  have "\<not> has_prefix ''/'' key"
  proof
    assume "has_prefix ''/'' key"
    then obtain r where "key = CHR ''/'' # r" by (auto simp: has_prefix_iff)
    with split nonempty show False by auto
  qed
  moreover have "\<not> has_suffix ''/'' key"
  proof
    assume "has_suffix ''/'' key"
    then obtain a where "key = a @ CHR ''/'' # []" by (auto simp: has_suffix_one dest: append_butlast_last_id[symmetric])
    with split split_on_join[of "CHR ''/''" a "[]"] nonempty show False by (metis in_set_conv_decomp split_on.simps(1))
  qed
  moreover have "find (\<lambda>c. \<not> is_allowed_key_byte c) key = None"
    unfolding find_None_iff key using seg dot_allowed by (auto simp: segment_ok_def list_all_iff)
  moreover have "first_some (check_segment key) (split_on CHR ''/'' key) = None"
    unfolding split first_some_None using seg check_segment_ok by (auto simp: list_all_iff)
  moreover have "key \<noteq> []" using seg key by (simp add: segment_ok_def)
  ultimately show ?thesis using len by (simp add: validate_key_def)
qed

lemma plain_byte_digit: "digit_val c \<noteq> None \<Longrightarrow> plain_byte c"
proof -
  assume "digit_val c \<noteq> None"
  then have "48 \<le> (of_char c :: nat)" "(of_char c :: nat) \<le> 57" by (auto simp: digit_val_def Let_def split: if_splits)
  then show ?thesis by (auto simp: plain_byte_def is_allowed_key_byte_def)
qed

lemma plain_byte_minus: "plain_byte CHR ''-''" and plain_byte_zero: "plain_byte CHR ''0''"
  by (simp_all add: plain_byte_def is_allowed_key_byte_def)

lemma plain_digits: "list_all plain_byte (nat_digits n)"
  using nat_digits_chars plain_byte_digit by (simp add: list_all_iff)

lemma plain_fmt_pad: "plain_segment (fmt_pad w n)"
  using plain_digits plain_byte_minus plain_byte_zero
  by (auto simp: plain_segment_def fmt_pad_def Let_def list_all_iff)

lemma plain_itoa: "plain_segment (itoa n)"
  using plain_digits plain_byte_minus by (simp add: plain_segment_def itoa_def)

lemma plain_ulid: "is_valid_ulid uid \<Longrightarrow> plain_segment uid"
proof -
  assume v: "is_valid_ulid uid"
  have "list_all plain_byte ulid_alphabet" by code_simp
  with v show ?thesis by (auto simp: is_valid_ulid_iff plain_segment_def list_all_iff)
qed

lemma length_itoa: "in_int64 n \<Longrightarrow> length (itoa n) \<le> 20"
proof -
  assume "in_int64 n"
  then have "nat \<bar>n\<bar> < 10 ^ 19" by (auto simp: nat_less_iff abs_if)
  then have "length (nat_digits (nat \<bar>n\<bar>)) \<le> 19" using length_nat_digits[of 19] by simp
  then show ?thesis by (cases "n < 0") (simp_all add: itoa_def)
qed

lemma length_designkit: "length object_key_prefix = 9" and plain_designkit: "plain_segment object_key_prefix"
  by (simp add: object_key_prefix_def) code_simp

lemma dated_key:
  assumes mid: "list_all plain_segment mid" "list_all (\<lambda>s. length s \<le> 10) mid" "length mid \<le> 1"
    and name: "plain_segment a" "plain_segment b" "length a + length b \<le> 200" and date: "length (date_path t) \<le> 200"
    and key: "key = object_key_prefix @ concat (map (\<lambda>y. CHR ''/'' # y) mid) @ ''/'' @ date_path t @ ''/'' @ a @ CHR ''.'' # b"
  shows "validate_key key = None"
proof -
  obtain y m d where c: "civil_date t = (y, m, d)" by (metis prod_cases3)
  let ?ss = "mid @ [fmt_pad 4 y, fmt_pad 2 m, fmt_pad 2 d, a @ CHR ''.'' # b]"
  have len: "length (fmt_pad 4 y) \<le> 200" "length (fmt_pad 2 m) \<le> 200" "length (fmt_pad 2 d) \<le> 200"
    using date c by (simp_all add: date_path_def)
  have "list_all segment_ok mid"
    using mid(1,2) plain_segment_ok by (force simp: list_all_iff max_key_segment_len_def)
  then have "list_all segment_ok (object_key_prefix # ?ss)"
    using len plain_segment_ok[OF plain_fmt_pad] plain_segment_ok[OF plain_designkit] named_segment_ok[OF name(1,2)] name(3)
    by (simp add: max_key_segment_len_def length_designkit)
  moreover have "key = object_key_prefix @ concat (map (\<lambda>y. CHR ''/'' # y) ?ss)"
    using key c by (simp add: date_path_def)
  moreover have "length (concat (map (\<lambda>y. CHR ''/'' # y) mid)) \<le> 11"
    using mid(2,3) by (cases mid) auto
  then have "length key \<le> max_object_key_len"
    using key name(3) date by (simp add: length_designkit max_object_key_len_def)
  ultimately show ?thesis by (rule key_of_segments)
qed

text \<open>The keys under which the program stores generated images, product photos and their padded copies
  all pass the key check of the store, so no image is lost to its own name.\<close>

theorem program_keys_are_valid:
  assumes uid: "is_valid_ulid uid" and date: "length (date_path t) \<le> 200"
    and nums: "in_int64 seq" "in_int64 attempt" "in_int64 index" "in_int64 max_dimension"
    and ext: "ext = CHR ''.'' # e" "plain_segment e" "length e \<le> 10"
    and ratio: "r \<noteq> []" "list_all (\<lambda>c. c = CHR '':'' \<or> plain_byte c) r" "length r \<le> 16"
  shows "validate_key (image_object_key t uid seq attempt index) = None \<and>
    validate_key (asset_object_key t uid ext) = None \<and>
    validate_key (variant_object_key t uid r keep max_dimension ext) = None"
proof (intro conjI)
  note len = length_itoa[OF nums(1)] length_itoa[OF nums(2)] length_itoa[OF nums(3)] length_itoa[OF nums(4)]
  have u: "plain_segment uid" "length uid = 26" using uid plain_ulid by (simp_all add: is_valid_ulid_iff)
  have dash: "plain_segment ''-''" and png: "plain_segment ''png''" by code_simp+
  have seg: "plain_segment s \<Longrightarrow> plain_segment (CHR ''-'' # s)" for s using plain_append[OF dash] by fastforce
  show "validate_key (image_object_key t uid seq attempt index) = None"
    by (rule dated_key[of "[]" "uid @ ''-'' @ itoa seq @ ''-'' @ itoa attempt @ ''-'' @ itoa index" "''png''" t])
      (use u len date png in \<open>auto intro!: plain_append seg plain_itoa simp: image_object_key_def\<close>)
  have "plain_segment ''assets''" "plain_segment ''variants''" by code_simp+
  then have mid: "list_all plain_segment [''assets'']" "list_all plain_segment [''variants'']" by simp_all
  show "validate_key (asset_object_key t uid ext) = None"
    by (rule dated_key[OF mid(1), of uid e t]) (use u ext date in \<open>simp_all add: asset_object_key_def\<close>)
  have x: "plain_byte CHR ''x''" by code_simp
  have "plain_byte (if c = CHR '':'' then CHR ''x'' else c)" if "c \<in> set r" for c
    using ratio(2) that x unfolding list_all_iff by metis
  then have safe: "plain_segment (map (\<lambda>c. if c = CHR '':'' then CHR ''x'' else c) r)"
    using ratio(1) unfolding plain_segment_def list_all_iff set_map by blast
  have flag: "plain_segment ''t''" "plain_segment ''o''" by code_simp+
  let ?name = "uid @ ''-'' @ map (\<lambda>c. if c = CHR '':'' then CHR ''x'' else c) r @ ''-'' @ (if keep then ''t'' else ''o'') @
      ''-'' @ itoa max_dimension"
  have "plain_segment (if keep then ''t'' else ''o'')" using flag by simp
  then have "plain_segment ?name" by (intro plain_append u(1) dash safe plain_itoa)
  moreover have "length ?name + length e \<le> 200" using u(2) ext(3) ratio(3) len(4) by simp
  ultimately show "validate_key (variant_object_key t uid r keep max_dimension ext) = None"
    using dated_key[OF mid(2), of ?name e t "variant_object_key t uid r keep max_dimension ext"] ext date
    by (simp add: variant_object_key_def)
qed

theorem program_keys_are_valid_witness:
  "validate_key (image_object_key 0 ''01ARZ3NDEKTSV4RRFFQ69G5FAV'' 1 1 1) = None \<and>
   validate_key (asset_object_key 0 ''01ARZ3NDEKTSV4RRFFQ69G5FAV'' ''.png'') = None \<and>
   validate_key (variant_object_key 0 ''01ARZ3NDEKTSV4RRFFQ69G5FAV'' ''3:4'' False 2048 ''.png'') = None"
proof (rule program_keys_are_valid[where e = "''png''"])
  show "is_valid_ulid ''01ARZ3NDEKTSV4RRFFQ69G5FAV''" by code_simp
  show "length (date_path 0) \<le> 200" by code_simp
  show "plain_segment ''png''" "list_all (\<lambda>c. c = CHR '':'' \<or> plain_byte c) ''3:4''" by code_simp+
qed simp_all

section \<open>Opening a store\<close>

text \<open>\<open>NewLocalStore\<close> gives a root that is clean and is a directory, whatever links lead to it.\<close>

definition extends :: "fs \<Rightarrow> fs \<Rightarrow> bool" where
  "extends fs fs' \<longleftrightarrow> (\<forall>p. map_of fs p \<noteq> None \<longrightarrow> map_of fs' p = map_of fs p)"

lemma walk_extends:
  "extends fs fs' \<Longrightarrow> walk follow n fs cur p = Inr q \<Longrightarrow> map_of fs q \<noteq> None \<Longrightarrow> walk follow n fs' cur p = Inr q"
proof (induction follow n fs cur p rule: walk.induct)
  case (2 follow n fs cur s rest)
  show ?case
  proof (cases "map_of fs (cur @ [s])")
    case None
    with 2 show ?thesis by (auto split: if_splits)
  next
    case (Some nd)
    then have "map_of fs' (cur @ [s]) = Some nd" using "2.prems"(1) by (auto simp: extends_def)
    with Some 2 show ?thesis by (cases nd) (auto split: if_splits)
  qed
qed simp

lemma walk_created:
  "walk False n fs cur p = Inr q \<Longrightarrow> map_of fs q = None \<Longrightarrow> walk True n (AList.update q Dir fs) cur p = Inr q"
proof (induction False n fs cur p rule: walk.induct)
  case (2 n fs cur s rest)
  show ?case
  proof (cases "map_of fs (cur @ [s])")
    case None
    with 2 show ?thesis by (auto split: if_splits)
  next
    case (Some nd)
    then have "map_of (AList.update q Dir fs) (cur @ [s]) = Some nd" using "2.prems"(2) by auto
    with Some 2 show ?thesis by (cases nd) (auto split: if_splits)
  qed
qed simp

lemma mkdir_any:
  "fs_ok fs \<Longrightarrow> find_node True fs cur = Inr (q0, Dir) \<Longrightarrow> list_all proper_name (cur @ p) \<Longrightarrow> mkdir_all env fs cur p = (None, fs') \<Longrightarrow>
   fs_ok fs' \<and> (\<exists>q. find_node True fs' (cur @ p) = Inr (q, Dir))"
proof (induction p arbitrary: fs cur q0)
  case (Cons s p)
  show ?case
  proof (cases "find_node True fs (cur @ [s])")
    case (Inr qn)
    with Cons.prems(4) obtain q where "qn = (q, Dir)" and "mkdir_all env fs (cur @ [s]) p = (None, fs')"
      by (cases qn; cases "snd qn") auto
    with Cons.IH[of fs "cur @ [s]" q] Cons.prems(1,3) Inr show ?thesis by simp
  next
    case (Inl e)
    with Cons.prems(4) obtain q where w: "walk False max_links fs [] (cur @ [s]) = Inr q" and new: "map_of fs q = None"
      and run: "mkdir_all env (AList.update q Dir fs) (cur @ [s]) p = (None, fs')"
      by (auto split: io_error.splits option.splits sum.splits if_splits)
    let ?fs = "AList.update q Dir fs"
    obtain d t where q: "q = d @ [t]" "map_of fs d = Some Dir" "proper_name t"
      using walk_place[OF Cons.prems(1) _ _ w new] Cons.prems(1,3) by auto
    have ok: "fs_ok ?fs" unfolding q(1) using fs_ok_create[OF Cons.prems(1) q(2,3), of Dir] new q(1) by simp
    have "find_node True ?fs (cur @ [s]) = Inr (q, Dir)"
      using walk_created[OF w new] by (simp add: find_node_def)
    with Cons.IH[OF ok this _ run] Cons.prems(3) show ?thesis by simp
  qed
qed auto

lemma clean_path_text: "list_all proper_name p \<Longrightarrow> clean_path (path_text p) = path_text p"
  by (simp add: clean_path_def path_of_path_text)

lemma new_store_root_ok:
  assumes ok: "fs_ok fs" and run: "new_local_store env cwd given fs = (Inr base, fs')"
  shows "root_ok base fs'"
proof -
  from run obtain full q nd where mk: "mkdir_all env fs [] (path_of full) = (None, fs')"
    and f: "find_node True fs' (path_of full) = Inr (q, nd)" and base: "base = path_text q"
    by (auto simp: new_local_store_def Let_def simp del: path_of_join path_of_clean
        split: if_splits prod.splits option.splits sum.splits)
  have "find_node True fs [] = Inr ([], Dir)" using ok by (simp add: find_node_def)
  from mkdir_any[OF ok this _ mk] path_of_proper obtain q' where ok': "fs_ok fs'"
    and "find_node True fs' (path_of full) = Inr (q', Dir)" by auto
  with f have "map_of fs' q = Some Dir" by (auto simp: find_node_def split: sum.splits option.splits)
  moreover from this have "list_all proper_name q" using fs_ok_names[OF ok'] by simp
  ultimately show ?thesis using ok' base by (simp add: root_ok_def path_of_path_text clean_path_text)
qed

end
