(* ===== verification/Assets.thy ===== *)
theory Assets
  imports Job_Service Object_Store
begin

text \<open>
  Product photos: \<open>repository/asset_repo.go\<close> and \<open>service/asset.go\<close>. The tables of photos and of their
  padded copies are kept apart from the other tables, since no transaction touches both; the service
  works on these tables and on the object store. What other processes write before a repository call,
  and whether the call fails, is a parameter, as in the batch service.
\<close>

section \<open>The tables\<close>

record asset_tables =
  at_assets :: "asset list"
  at_variants :: "asset_variant list"
  at_next_asset :: int
  at_next_variant :: int

type_synonym 'a asset_tx = "asset_tables \<Rightarrow> go_error + 'a \<times> asset_tables"

definition noun_asset :: string where "noun_asset = (bytes [229, 149, 134, 229, 147, 129, 229, 155, 190])"
definition noun_variant :: string where "noun_variant = (bytes [233, 162, 132, 229, 164, 132, 231, 144, 134, 228, 186, 167, 231, 137, 169])"

text \<open>The row as the caller fills it in; the serial key and the time are the table's.\<close>

definition create_asset :: "time \<Rightarrow> asset \<Rightarrow> asset asset_tx" where
  "create_asset now a d =
     (if \<exists>x \<in> set (at_assets d). as_uid x = as_uid a then Inl (unique_violation noun_asset)
      else let row = a\<lparr>as_id := at_next_asset d, as_origin := (if as_origin a = OriginOther [] then OriginWeb else as_origin a),
                       as_created_at := now, as_deleted_at := None\<rparr>
           in Inr (row, d\<lparr>at_assets := at_assets d @ [row], at_next_asset := at_next_asset d + 1\<rparr>))"

definition get_asset_by_uid :: "int \<Rightarrow> string \<Rightarrow> asset asset_tx" where
  "get_asset_by_uid user_id uid d =
     (case find (\<lambda>a. as_uid a = uid \<and> as_user_id a = user_id \<and> as_deleted_at a = None) (at_assets d) of
        None \<Rightarrow> Inl (not_found_err noun_asset) | Some a \<Rightarrow> Inr (a, d))"

text \<open>\<open>GetAssetsByIDs\<close> gives the photos in the order of the ids, or none of them.\<close>

definition asset_missing :: "int \<Rightarrow> go_error" where
  "asset_missing i =
     Wrapped (''designkit: '' @ noun_asset @ '' '' @ itoa i @ (bytes [32, 228, 184, 141, 229, 173, 152, 229, 156, 168, 230, 136, 150, 229, 183, 178, 229, 136,
      160, 233, 153, 164]) @ '': '' @ sentinel_text ErrNotFound) (Sentinel ErrNotFound)"

fun pick_assets :: "asset list \<Rightarrow> int list \<Rightarrow> go_error + asset list" where
  "pick_assets rows [] = Inr []"
| "pick_assets rows (i # is) =
     (case find (\<lambda>a. as_id a = i) rows of
        None \<Rightarrow> Inl (asset_missing i)
      | Some a \<Rightarrow> (case pick_assets rows is of Inl e \<Rightarrow> Inl e | Inr rest \<Rightarrow> Inr (a # rest)))"

definition get_assets_by_ids :: "int \<Rightarrow> int list \<Rightarrow> asset list asset_tx" where
  "get_assets_by_ids user_id ids d =
     (if ids = [] then Inr ([], d)
      else case pick_assets (filter (\<lambda>a. as_user_id a = user_id \<and> as_id a \<in> set ids \<and> as_deleted_at a = None) (at_assets d)) ids of
             Inl e \<Rightarrow> Inl e | Inr out \<Rightarrow> Inr (out, d))"

definition find_asset_by_sha256 :: "int \<Rightarrow> string \<Rightarrow> asset asset_tx" where
  "find_asset_by_sha256 user_id digest d =
     (if trim_space digest = [] then Inl (not_found_err noun_asset)
      else case rev (sort_key as_id
                 (filter (\<lambda>a. as_user_id a = user_id \<and> as_sha256 a = Some digest \<and> as_deleted_at a = None) (at_assets d))) of
             [] \<Rightarrow> Inl (not_found_err noun_asset) | a # _ \<Rightarrow> Inr (a, d))"

record list_assets_query =
  la_user_id :: int
  la_cursor_created_at :: time
  la_cursor_id :: int
  la_limit :: int

definition list_assets :: "list_assets_query \<Rightarrow> asset list asset_tx" where
  "list_assets q d =
     Inr (take (nat (clamp_limit (la_limit q) default_page_limit max_page_limit))
       (rev (sort_key (\<lambda>a. (as_created_at a, as_id a))
         (filter (\<lambda>a. as_user_id a = la_user_id q \<and> as_deleted_at a = None \<and>
            (la_cursor_created_at q \<noteq> zero_time \<and> la_cursor_id q > 0 \<longrightarrow>
               (as_created_at a, as_id a) < (la_cursor_created_at q, la_cursor_id q))) (at_assets d)))), d)"

definition soft_delete_asset :: "time \<Rightarrow> int \<Rightarrow> string \<Rightarrow> unit asset_tx" where
  "soft_delete_asset now user_id uid d =
     (let P = (\<lambda>a. as_uid a = uid \<and> as_user_id a = user_id \<and> as_deleted_at a = None)
      in if affected P (at_assets d) = 0 then Inl (not_found_err noun_asset)
         else Inr ((), d\<lparr>at_assets := upd P (\<lambda>a. a\<lparr>as_deleted_at := Some now\<rparr>) (at_assets d)\<rparr>))"

definition variant_of :: "int \<Rightarrow> ratio \<Rightarrow> bool \<Rightarrow> int \<Rightarrow> asset_variant \<Rightarrow> bool" where
  "variant_of asset_id r keep max_dim v \<longleftrightarrow>
     av_asset_id v = asset_id \<and> av_ratio v = r \<and> av_keep_transparency v = keep \<and> av_max_dimension v = max_dim"

definition get_variant :: "int \<Rightarrow> ratio \<Rightarrow> bool \<Rightarrow> int \<Rightarrow> asset_variant asset_tx" where
  "get_variant asset_id r keep max_dim d =
     (case find (variant_of asset_id r keep max_dim) (at_variants d) of
        None \<Rightarrow> Inl (not_found_err noun_variant) | Some v \<Rightarrow> Inr (v, d))"

text \<open>\<open>INSERT ... ON CONFLICT DO UPDATE\<close>: the four parameters determine the row.\<close>

definition upsert_variant :: "time \<Rightarrow> upsert_variant_params \<Rightarrow> asset_variant asset_tx" where
  "upsert_variant now p d =
     (let same = variant_of (uv_asset_id p) (uv_ratio p) (uv_keep_transparency p) (uv_max_dimension p);
          set_new = (\<lambda>v. v\<lparr>av_object_key := uv_object_key p, av_width := uv_width p, av_height := uv_height p,
                            av_content_type := uv_content_type p\<rparr>)
      in case find same (at_variants d) of
           Some v \<Rightarrow> Inr (set_new v, d\<lparr>at_variants := upd same set_new (at_variants d)\<rparr>)
         | None \<Rightarrow>
           (let v = \<lparr>av_id = at_next_variant d, av_asset_id = uv_asset_id p, av_ratio = uv_ratio p,
                     av_keep_transparency = uv_keep_transparency p, av_max_dimension = uv_max_dimension p,
                     av_object_key = uv_object_key p, av_width = uv_width p, av_height = uv_height p,
                     av_content_type = uv_content_type p, av_created_at = now\<rparr>
            in Inr (v, d\<lparr>at_variants := at_variants d @ [v], at_next_variant := at_next_variant d + 1\<rparr>)))"

section \<open>What a file is\<close>

record image_info =
  ii_format :: string
  ii_content_type :: string
  ii_ext :: string
  ii_width :: int
  ii_height :: int

definition image_info_of :: "string \<Rightarrow> string \<Rightarrow> string \<Rightarrow> image_info" where
  "image_info_of fmt ct ext = \<lparr>ii_format = fmt, ii_content_type = ct, ii_ext = ext, ii_width = 0, ii_height = 0\<rparr>"

text \<open>\<open>dkDetectImageFormat\<close>: the magic numbers, then the brand of an ISO file.\<close>

definition detect_image_format :: "string \<Rightarrow> image_info option" where
  "detect_image_format data =
     (if has_prefix (bytes [0x89, 0x50, 0x4E, 0x47, 0x0D, 0x0A, 0x1A, 0x0A]) data
        then Some (image_info_of ''png'' ''image/png'' ''.png'')
      else if has_prefix (bytes [0xFF, 0xD8, 0xFF]) data then Some (image_info_of ''jpeg'' ''image/jpeg'' ''.jpg'')
      else if has_prefix ''GIF87a'' data \<or> has_prefix ''GIF89a'' data then Some (image_info_of ''gif'' ''image/gif'' ''.gif'')
      else if has_prefix ''BM'' data then Some (image_info_of ''bmp'' ''image/bmp'' ''.bmp'')
      else if length data \<ge> 12 \<and> has_prefix ''RIFF'' data \<and> take 4 (drop 8 data) = ''WEBP''
        then Some (image_info_of ''webp'' ''image/webp'' ''.webp'')
      else if length data \<ge> 12 \<and> take 4 (drop 4 data) = ''ftyp'' then
        (let brand = to_lower (take 4 (drop 8 data))
         in if brand \<in> set [''heic'', ''heix'', ''heim'', ''heis'', ''hevc'', ''hevx'', ''hevm'', ''hevs'']
              then Some (image_info_of ''heic'' ''image/heic'' ''.heic'')
            else if brand \<in> set [''mif1'', ''msf1'', ''miaf''] then Some (image_info_of ''heif'' ''image/heif'' ''.heif'')
            else if brand \<in> set [''avif'', ''avis''] then Some (image_info_of ''avif'' ''image/avif'' ''.avif'')
            else None)
      else None)"

text \<open>The size comes from the registered decoders, when one of them knows the format.\<close>

definition detect_image_info :: "(string \<Rightarrow> (int \<times> int) option) \<Rightarrow> string \<Rightarrow> image_info option" where
  "detect_image_info decode_config data =
     (case detect_image_format data of
        None \<Rightarrow> None
      | Some info \<Rightarrow>
        (case decode_config data of
           None \<Rightarrow> Some info | Some (w, h) \<Rightarrow> Some (info\<lparr>ii_width := w, ii_height := h\<rparr>)))"

definition dk_ext_for_content_type :: "string \<Rightarrow> string" where
  "dk_ext_for_content_type content_type =
     (let t = to_lower (trim_space (hd (split_on CHR '';'' content_type)))
      in if t = ''image/png'' then ''.png''
         else if t = ''image/jpeg'' \<or> t = ''image/jpg'' then ''.jpg''
         else if t = ''image/webp'' then ''.webp''
         else if t = ''image/gif'' then ''.gif''
         else if t = ''image/bmp'' \<or> t = ''image/x-ms-bmp'' then ''.bmp''
         else if t = ''image/heic'' then ''.heic''
         else if t = ''image/heif'' then ''.heif''
         else if t = ''image/avif'' then ''.avif''
         else ''.bin'')"

text \<open>The service's own ULID encoder: 26 groups of five bits after two bits of padding.\<close>

definition dk_bit_at :: "8 word list \<Rightarrow> nat \<Rightarrow> int" where
  "dk_bit_at raw pos =
     (if pos < 2 then 0 else let idx = pos - 2 in uint (drop_bit (7 - idx mod 8) (raw ! (idx div 8)) AND 1))"

fun dk_crockford_value :: "8 word list \<Rightarrow> nat \<Rightarrow> nat list \<Rightarrow> int \<Rightarrow> int" where
  "dk_crockford_value raw i [] v = v"
| "dk_crockford_value raw i (k # ks) v = dk_crockford_value raw i ks (push_bit 1 v OR dk_bit_at raw (i * 5 + k))"

definition dk_crockford_encode128 :: "8 word list \<Rightarrow> string" where
  "dk_crockford_encode128 raw = map (\<lambda>i. ulid_alphabet ! nat (dk_crockford_value raw i [0, 1, 2, 3, 4] 0)) [0..<26]"

section \<open>Settings of the service\<close>

definition asset_max_upload_bytes_key :: string where "asset_max_upload_bytes_key = ''max_upload_bytes''"
definition default_asset_max_upload_bytes :: int where "default_asset_max_upload_bytes = 20971520"
definition asset_min_upload_bytes_limit :: int where "asset_min_upload_bytes_limit = 65536"
definition asset_max_upload_bytes_limit :: int where "asset_max_upload_bytes_limit = 104857600"
definition asset_min_dimension_limit :: int where "asset_min_dimension_limit = 256"
definition asset_max_dimension_limit :: int where "asset_max_dimension_limit = 8192"
definition asset_default_list_limit :: int where "asset_default_list_limit = 20"
definition asset_max_list_limit :: int where "asset_max_list_limit = 100"

definition int_setting :: "settings \<Rightarrow> string \<Rightarrow> int \<Rightarrow> int \<Rightarrow> int \<Rightarrow> int" where
  "int_setting get key lo hi def =
     (case setting_raw get key of
        None \<Rightarrow> def
      | Some raw \<Rightarrow>
        (case unmarshal_int raw of None \<Rightarrow> def | Some v \<Rightarrow> if v < lo \<or> v > hi then def else v))"

definition asset_max_dimension :: "settings \<Rightarrow> int" where
  "asset_max_dimension get =
     int_setting get setting_key_max_dimension asset_min_dimension_limit asset_max_dimension_limit default_max_dimension"

definition max_upload_bytes :: "settings \<Rightarrow> int" where
  "max_upload_bytes get =
     int_setting get asset_max_upload_bytes_key asset_min_upload_bytes_limit asset_max_upload_bytes_limit
       default_asset_max_upload_bytes"

section \<open>The service\<close>

text \<open>What the service gets from outside: the digest and the decoders are functions of the bytes, the
  preprocessing service may be missing.\<close>

datatype asset_call = FindBySha | InsertAsset | ReadAsset | ReadVariant | WriteVariant | ListThem | DropAsset

record 's shelf =
  sh_tables :: asset_tables
  sh_store :: 's

record 's asset_env =
  ae_store :: "'s object_store"
  ae_settings :: settings
  ae_now :: time
  ae_db_now :: time
  ae_new_uid :: string
  ae_sha256 :: "string \<Rightarrow> string"
  ae_decode_config :: "string \<Rightarrow> (int \<times> int) option"
  ae_preprocess :: "(preprocess_request \<Rightarrow> go_error + preprocess_result option) option"
  ae_meanwhile :: "asset_call \<Rightarrow> 's shelf \<Rightarrow> 's shelf"
  ae_fails :: "asset_call \<Rightarrow> go_error option"

definition on_tables :: "'a asset_tx \<Rightarrow> 's shelf \<Rightarrow> go_error + 'a \<times> 's shelf" where
  "on_tables f w = (case f (sh_tables w) of Inl e \<Rightarrow> Inl e | Inr (a, d) \<Rightarrow> Inr (a, w\<lparr>sh_tables := d\<rparr>))"

definition asset_repo :: "'s asset_env \<Rightarrow> asset_call \<Rightarrow> 'a asset_tx \<Rightarrow> 's shelf \<Rightarrow> (go_error + 'a) \<times> 's shelf" where
  "asset_repo e p f = repo_call (ae_meanwhile e) (ae_fails e) p (on_tables f)"

definition on_store :: "('s \<Rightarrow> 'r \<times> 's) \<Rightarrow> 's shelf \<Rightarrow> 'r \<times> 's shelf" where
  "on_store f w = (case f (sh_store w) of (r, s) \<Rightarrow> (r, w\<lparr>sh_store := s\<rparr>))"

definition map_asset_repo_error :: "go_error \<Rightarrow> go_error" where
  "map_asset_repo_error err =
     (if errors_is err ErrNotFound then Dk (with_cause (new_error ErrCodeAssetNotFound) err)
      else Dk (with_cause (new_error ErrCodeInternal) err))"

definition too_large_error :: "int \<Rightarrow> go_error" where
  "too_large_error limit =
     Dk (with_message (new_error ErrCodeImageTooLarge) ((bytes [229, 155, 190, 231, 137, 135, 229, 164, 170, 229, 164, 167, 228, 186, 134, 239, 188, 140,
      232, 175, 183, 229, 142, 139, 229, 136, 176, 32]) @ itoa (limit div 1048576) @ (bytes [32, 77, 66, 32, 228, 187, 165, 229, 134, 133, 229, 134, 141, 228, 184, 138, 228, 188, 160,
      227, 128, 130])))"

text \<open>A reader is what it delivers and the error it ends with; \<open>io.ReadAll\<close> of it through a limit.\<close>

record upload_input =
  ui_user_id :: int
  ui_origin :: origin
  ui_declared_size :: int
  ui_data :: "(string \<times> go_error option) option"
  ui_max_bytes_override :: int

definition read_limited :: "nat \<Rightarrow> string \<times> go_error option \<Rightarrow> go_error + string" where
  "read_limited n r =
     (case r of (data, err) \<Rightarrow>
        if length data \<ge> n then Inr (take n data)
        else case err of None \<Rightarrow> Inr data | Some e \<Rightarrow> Inl e)"

record upload_result =
  ur_asset :: asset
  ur_reused :: bool

definition upload_error :: "string \<Rightarrow> dk_error" where
  "upload_error msg = with_message (new_error ErrCodeInvalidRequest) msg"

text \<open>The part of \<open>UploadAsset\<close> that writes: the file first, then the row, and the file again when the row fails.\<close>

definition new_asset_of :: "'s asset_env \<Rightarrow> int \<Rightarrow> origin \<Rightarrow> image_info \<Rightarrow> string \<Rightarrow> asset" where
  "new_asset_of e user_id orig info data =
     \<lparr>as_id = 0, as_uid = ae_new_uid e, as_user_id = user_id,
      as_object_key = asset_object_key (ae_now e) (ae_new_uid e) (ii_ext info), as_content_type = ii_content_type info,
      as_byte_size = int (length data),
      as_width = (if ii_width info > 0 \<and> ii_height info > 0 then Some (ii_width info) else None),
      as_height = (if ii_width info > 0 \<and> ii_height info > 0 then Some (ii_height info) else None),
      as_sha256 = Some (ae_sha256 e data), as_origin = orig, as_created_at = ae_now e, as_deleted_at = None\<rparr>"

definition store_new_asset ::
  "'s asset_env \<Rightarrow> int \<Rightarrow> origin \<Rightarrow> image_info \<Rightarrow> string \<Rightarrow> 's shelf \<Rightarrow> (go_error + upload_result) \<times> 's shelf" where
  "store_new_asset e user_id orig info data w =
     (let row = new_asset_of e user_id orig info data
      in case on_store (os_put (ae_store e) (as_object_key row) (ii_content_type info) data) w of
           (Some err, w) \<Rightarrow> (Inl (Dk (with_cause (new_error ErrCodeStorageError) err)), w)
         | (None, w) \<Rightarrow>
           (case asset_repo e InsertAsset (create_asset (ae_db_now e) row) w of
              (Inl err, w) \<Rightarrow>
                (Inl (Dk (with_cause (new_error ErrCodeInternal) err)), snd (on_store (os_delete (ae_store e) (as_object_key row)) w))
            | (Inr created, w) \<Rightarrow> (Inr \<lparr>ur_asset = created, ur_reused = False\<rparr>, w)))"

text \<open>The same photo of the same user is recognised by its digest, if its file is still there.\<close>

definition dedup_or_store ::
  "'s asset_env \<Rightarrow> int \<Rightarrow> origin \<Rightarrow> image_info \<Rightarrow> string \<Rightarrow> 's shelf \<Rightarrow> (go_error + upload_result) \<times> 's shelf" where
  "dedup_or_store e user_id orig info data w =
     (case asset_repo e FindBySha (find_asset_by_sha256 user_id (ae_sha256 e data)) w of
        (Inl err, w) \<Rightarrow>
          if errors_is err ErrNotFound then store_new_asset e user_id orig info data w
          else (Inl (Dk (with_cause (new_error ErrCodeInternal) err)), w)
      | (Inr found, w) \<Rightarrow>
          if as_deleted_at found = None then
            (case on_store (os_exists (ae_store e) (as_object_key found)) w of
               (Inr True, w) \<Rightarrow> (Inr \<lparr>ur_asset = found, ur_reused = True\<rparr>, w)
             | (_, w) \<Rightarrow> store_new_asset e user_id orig info data w)
          else store_new_asset e user_id orig info data w)"

text \<open>What \<open>UploadAsset\<close> checks before it touches anything: the limits, the stream, the true format.\<close>

definition check_upload ::
  "settings \<Rightarrow> (string \<Rightarrow> (int \<times> int) option) \<Rightarrow> upload_input \<Rightarrow> go_error + origin \<times> image_info \<times> string" where
  "check_upload get decode_config inp =
     (if ui_user_id inp \<le> 0 then Inl (Dk (new_error ErrCodeUnauthorized))
      else case ui_data inp of
        None \<Rightarrow> Inl (Dk (upload_error (bytes [230, 178, 161, 230, 156, 137, 230, 148, 182, 229, 136, 176, 229, 155, 190, 231, 137, 135,
      229, 134, 133, 229, 174, 185, 239, 188, 140, 232, 175, 183, 233, 135, 141, 230, 150, 176,
      233, 128, 137, 230, 139, 169, 230, 150, 135, 228, 187, 182, 227, 128, 130])))
      | Some reader \<Rightarrow>
        (let orig = (if ui_origin inp = OriginOther [] then OriginWeb else ui_origin inp);
             limit = (if ui_max_bytes_override inp > 0 then ui_max_bytes_override inp else max_upload_bytes get)
         in if \<not> (orig = OriginWeb \<or> orig = OriginERP) then Inl (Dk (new_error ErrCodeInvalidRequest))
            else if ui_declared_size inp > limit then Inl (too_large_error limit)
            else case read_limited (nat (limit + 1)) reader of
                   Inl err \<Rightarrow> Inl (Dk (with_cause (upload_error (bytes [232, 175, 187, 229, 143, 150, 228, 184, 138, 228, 188, 160, 231, 154, 132, 229, 155, 190,
      231, 137, 135, 229, 164, 177, 232, 180, 165, 239, 188, 140, 232, 175, 183, 233, 135, 141,
      232, 175, 149, 227, 128, 130])) err))
                 | Inr data \<Rightarrow>
                   if int (length data) > limit then Inl (too_large_error limit)
                   else if data = [] then Inl (Dk (upload_error (bytes [228, 184, 138, 228, 188, 160, 231, 154, 132, 230, 150, 135, 228, 187, 182, 230, 152, 175,
      231, 169, 186, 231, 154, 132, 239, 188, 140, 232, 175, 183, 233, 135, 141, 230, 150, 176,
      233, 128, 137, 230, 139, 169, 227, 128, 130])))
                   else case detect_image_info decode_config data of
                          None \<Rightarrow> Inl (Dk (new_error ErrCodeUnsupportedImageFormat))
                        | Some info \<Rightarrow> Inr (orig, info, data)))"

definition upload_asset :: "'s asset_env \<Rightarrow> upload_input \<Rightarrow> 's shelf \<Rightarrow> (go_error + upload_result) \<times> 's shelf" where
  "upload_asset e inp w =
     (case check_upload (ae_settings e) (ae_decode_config e) inp of
        Inl err \<Rightarrow> (Inl err, w)
      | Inr (orig, info, data) \<Rightarrow> dedup_or_store e (ui_user_id inp) orig info data w)"

definition service_get_asset :: "'s asset_env \<Rightarrow> int \<Rightarrow> string \<Rightarrow> 's shelf \<Rightarrow> (go_error + asset) \<times> 's shelf" where
  "service_get_asset e user_id uid w =
     (case asset_repo e ReadAsset (get_asset_by_uid user_id uid) w of
        (Inl err, w) \<Rightarrow> (Inl (map_asset_repo_error err), w) | (Inr a, w) \<Rightarrow> (Inr a, w))"

definition asset_content :: "'s asset_env \<Rightarrow> int \<Rightarrow> string \<Rightarrow> 's shelf \<Rightarrow> (go_error + string \<times> string) \<times> 's shelf" where
  "asset_content e user_id uid w =
     (case service_get_asset e user_id uid w of
        (Inl err, w) \<Rightarrow> (Inl err, w)
      | (Inr a, w) \<Rightarrow>
        (case on_store (os_get (ae_store e) (as_object_key a)) w of
           (Inl err, w) \<Rightarrow> (Inl (Dk (with_cause (new_error ErrCodeStorageError) err)), w)
         | (Inr (data, ct), w) \<Rightarrow> (Inr (data, if ct = [] then as_content_type a else ct), w)))"

definition service_list_assets :: "'s asset_env \<Rightarrow> list_assets_query \<Rightarrow> 's shelf \<Rightarrow> (go_error + asset list) \<times> 's shelf" where
  "service_list_assets e q w =
     (let lim = (if la_limit q \<le> 0 then asset_default_list_limit else la_limit q);
          q = q\<lparr>la_limit := (if lim > asset_max_list_limit then asset_max_list_limit else lim)\<rparr>
      in case asset_repo e ListThem (list_assets q) w of
           (Inl err, w) \<Rightarrow> (Inl (Dk (with_cause (new_error ErrCodeInternal) err)), w) | (Inr assets, w) \<Rightarrow> (Inr assets, w))"

definition delete_asset :: "'s asset_env \<Rightarrow> int \<Rightarrow> string \<Rightarrow> 's shelf \<Rightarrow> (go_error + unit) \<times> 's shelf" where
  "delete_asset e user_id uid w =
     (case asset_repo e DropAsset (soft_delete_asset (ae_db_now e) user_id uid) w of
        (Inl err, w) \<Rightarrow> (Inl (map_asset_repo_error err), w) | (Inr _, w) \<Rightarrow> (Inr (), w))"

section \<open>Padded copies\<close>

definition variant_params_of ::
  "asset \<Rightarrow> ratio \<Rightarrow> bool \<Rightarrow> int \<Rightarrow> string \<Rightarrow> preprocess_result \<Rightarrow> upsert_variant_params" where
  "variant_params_of a r keep max_dim key res =
     \<lparr>uv_asset_id = as_id a, uv_ratio = r, uv_keep_transparency = keep, uv_max_dimension = max_dim, uv_object_key = key,
      uv_width = (if pp_width res > 0 \<and> pp_height res > 0 then Some (pp_width res) else None),
      uv_height = (if pp_width res > 0 \<and> pp_height res > 0 then Some (pp_height res) else None),
      uv_content_type = pp_content_type res\<rparr>"

definition make_variant ::
  "'s asset_env \<Rightarrow> asset \<Rightarrow> ratio \<Rightarrow> bool \<Rightarrow> int \<Rightarrow> 's shelf \<Rightarrow> (go_error + asset_variant) \<times> 's shelf" where
  "make_variant e a r keep max_dim w =
     (case ae_preprocess e of
        None \<Rightarrow> (Inl (Dk (with_message (new_error ErrCodePreprocessFailed) (bytes [229, 155, 190, 229, 131, 143, 229, 164, 132, 231, 144, 134, 230, 156, 141, 229, 138, 161,
      230, 178, 161, 230, 156, 137, 233, 133, 141, 231, 189, 174, 239, 188, 140, 230, 154, 130,
      230, 151, 182, 230, 151, 160, 230, 179, 149, 229, 135, 186, 229, 155, 190, 239, 188, 140,
      232, 175, 183, 232, 129, 148, 231, 179, 187, 231, 174, 161, 231, 144, 134, 229, 145, 152,
      227, 128, 130]))), w)
      | Some process \<Rightarrow>
        (case on_store (os_get (ae_store e) (as_object_key a)) w of
           (Inl err, w) \<Rightarrow> (Inl (Dk (with_cause (new_error ErrCodeStorageError) err)), w)
         | (Inr (source, ct), w) \<Rightarrow>
           (let req = \<lparr>pr_data = source, pr_filename = as_uid a @ dk_ext_for_content_type (as_content_type a),
                       pr_content_type = (if ct = [] then as_content_type a else ct), pr_ratio = r,
                       pr_keep_transparency = keep, pr_max_dimension = max_dim\<rparr>
            in case process req of
                 Inl err \<Rightarrow> (Inl err, w)
               | Inr None \<Rightarrow> (Inl (Dk (new_error ErrCodePreprocessFailed)), w)
               | Inr (Some res) \<Rightarrow>
                 if pp_data res = [] then (Inl (Dk (new_error ErrCodePreprocessFailed)), w)
                 else
                   (let key = variant_object_key (ae_now e) (as_uid a) r keep max_dim (dk_ext_for_content_type (pp_content_type res))
                    in case on_store (os_put (ae_store e) key (pp_content_type res) (pp_data res)) w of
                         (Some err, w) \<Rightarrow> (Inl (Dk (with_cause (new_error ErrCodeStorageError) err)), w)
                       | (None, w) \<Rightarrow>
                         (case asset_repo e WriteVariant (upsert_variant (ae_db_now e) (variant_params_of a r keep max_dim key res)) w of
                            (Inl err, w) \<Rightarrow>
                              (Inl (Dk (with_cause (new_error ErrCodeInternal) err)), snd (on_store (os_delete (ae_store e) key) w))
                          | (Inr v, w) \<Rightarrow> (Inr v, w))))))"

definition ensure_variant_for_asset ::
  "'s asset_env \<Rightarrow> asset option \<Rightarrow> ratio \<Rightarrow> bool \<Rightarrow> int \<Rightarrow> 's shelf \<Rightarrow> (go_error + asset_variant) \<times> 's shelf" where
  "ensure_variant_for_asset e asset r keep max_dimension w =
     (case asset of
        None \<Rightarrow> (Inl (Dk (new_error ErrCodeAssetNotFound)), w)
      | Some a \<Rightarrow>
        if as_id a \<le> 0 then (Inl (Dk (new_error ErrCodeAssetNotFound)), w)
        else case check_ratio (ae_settings e) r of
          Some err \<Rightarrow> (Inl err, w)
        | None \<Rightarrow>
          (let max_dim = (if max_dimension \<le> 0 then asset_max_dimension (ae_settings e) else max_dimension)
           in if max_dim < asset_min_dimension_limit \<or> max_dim > asset_max_dimension_limit
              then (Inl (Dk (with_message (new_error ErrCodePreprocessFailed)
                     ((bytes [229, 155, 190, 231, 137, 135, 229, 176, 186, 229, 175, 184, 228, 184, 138, 233, 153, 144,
      233, 133, 141, 231, 189, 174, 230, 136, 144, 228, 186, 134, 32]) @ itoa max_dim @ (bytes [239, 188, 140, 228, 184, 141, 229, 156, 168, 32]) @ itoa asset_min_dimension_limit @ ''~'' @
                      itoa asset_max_dimension_limit @ (bytes [32, 228, 185, 139, 233, 151, 180, 239, 188, 140, 232, 175, 183, 232, 129, 148, 231, 179,
      187, 231, 174, 161, 231, 144, 134, 229, 145, 152, 230, 148, 185, 232, 174, 190, 231, 189,
      174, 227, 128, 130])))), w)
              else case asset_repo e ReadVariant (get_variant (as_id a) r keep max_dim) w of
                     (Inl err, w) \<Rightarrow>
                       if errors_is err ErrNotFound then make_variant e a r keep max_dim w
                       else (Inl (Dk (with_cause (new_error ErrCodeInternal) err)), w)
                   | (Inr v, w) \<Rightarrow>
                     (case on_store (os_exists (ae_store e) (av_object_key v)) w of
                        (Inr True, w) \<Rightarrow> (Inr v, w)
                      | (_, w) \<Rightarrow> make_variant e a r keep max_dim w)))"

definition ensure_variant ::
  "'s asset_env \<Rightarrow> int \<Rightarrow> string \<Rightarrow> ratio \<Rightarrow> bool \<Rightarrow> int \<Rightarrow> 's shelf \<Rightarrow> (go_error + asset_variant) \<times> 's shelf" where
  "ensure_variant e user_id uid r keep max_dimension w =
     (case service_get_asset e user_id uid w of
        (Inl err, w) \<Rightarrow> (Inl err, w)
      | (Inr a, w) \<Rightarrow> ensure_variant_for_asset e (Some a) r keep max_dimension w)"

definition variant_content :: "'s asset_env \<Rightarrow> asset_variant option \<Rightarrow> 's shelf \<Rightarrow> (go_error + string \<times> string) \<times> 's shelf" where
  "variant_content e v w =
     (case v of
        None \<Rightarrow> (Inl (Dk (new_error ErrCodeAssetNotFound)), w)
      | Some v \<Rightarrow>
        (case on_store (os_get (ae_store e) (av_object_key v)) w of
           (Inl err, w) \<Rightarrow> (Inl (Dk (with_cause (new_error ErrCodeStorageError) err)), w)
         | (Inr (data, ct), w) \<Rightarrow> (Inr (data, if ct = [] then av_content_type v else ct), w)))"

section \<open>White background\<close>

text \<open>\<open>RemoveBackground\<close> of \<open>service/asset_whitebg.go\<close>: the cut-out service may be missing; composing on white is
  image decoding and encoding, a parameter.\<close>

definition remove_background ::
  "'s asset_env \<Rightarrow> (string \<Rightarrow> string \<Rightarrow> go_error + string) option \<Rightarrow> (string \<Rightarrow> go_error + string)
   \<Rightarrow> int \<Rightarrow> string \<Rightarrow> origin \<Rightarrow> 's shelf \<Rightarrow> (go_error + asset) \<times> 's shelf" where
  "remove_background e rembg compose_on_white user_id asset_uid orig w =
     (if user_id \<le> 0 then (Inl (Dk (new_error ErrCodeUnauthorized)), w)
      else case rembg of
        None \<Rightarrow> (Inl (Dk (with_message (new_error ErrCodePreprocessFailed) (bytes [231, 153, 189, 229, 186, 149, 229, 155, 190, 229, 138, 159, 232, 131, 189, 232, 191, 152,
      230, 178, 161, 229, 135, 134, 229, 164, 135, 229, 165, 189, 239, 188, 140, 232, 175, 183,
      232, 129, 148, 231, 179, 187, 231, 174, 161, 231, 144, 134, 229, 145, 152, 227, 128, 130]))), w)
      | Some cut_out \<Rightarrow>
        (case asset_content e user_id asset_uid w of
           (Inl err, w) \<Rightarrow> (Inl err, w)
         | (Inr (data, ct), w) \<Rightarrow>
           (case cut_out data (asset_uid @ dk_ext_for_content_type ct) of
              Inl err \<Rightarrow> (Inl err, w)
            | Inr png \<Rightarrow>
              (case compose_on_white png of
                 Inl err \<Rightarrow> (Inl err, w)
               | Inr white \<Rightarrow>
                 (case upload_asset e \<lparr>ui_user_id = user_id, ui_origin = orig, ui_declared_size = int (length white),
                                       ui_data = Some (white, None), ui_max_bytes_override = 0\<rparr> w of
                    (Inl err, w) \<Rightarrow> (Inl err, w)
                  | (Inr res, w) \<Rightarrow> (Inr (ur_asset res), w))))))"

end
