(* ===== verification/Asset_Guarantees.thy ===== *)
theory Asset_Guarantees
  imports Assets Object_Store_Guarantees
begin

text \<open>
  What the photo service guarantees. The lemmas are proved for every object store that obeys the laws
  of \<open>object_store_laws\<close>; the properties are their instances for the local store, in which every
  system call may fail, while other processes may change the tables before every repository call.
\<close>

section \<open>Repository calls\<close>

definition same_store :: "'s asset_env \<Rightarrow> bool" where
  "same_store e \<longleftrightarrow> (\<forall>p w. sh_store (ae_meanwhile e p w) = sh_store w)"

lemma asset_repo_done:
  "asset_repo e p f w = (Inr a, w') \<Longrightarrow> \<exists>d. f (sh_tables (ae_meanwhile e p w)) = Inr (a, d) \<and> w' = (ae_meanwhile e p w)\<lparr>sh_tables := d\<rparr>"
  by (auto simp: asset_repo_def repo_call_def on_tables_def Let_def split: option.splits sum.splits)

lemma asset_repo_failed: "asset_repo e p f w = (Inl err, w') \<Longrightarrow> w' = ae_meanwhile e p w"
  by (auto simp: asset_repo_def repo_call_def on_tables_def Let_def split: option.splits sum.splits)

lemma asset_repo_store: "same_store e \<Longrightarrow> asset_repo e p f w = (r, w') \<Longrightarrow> sh_store w' = sh_store w"
  by (cases r) (auto simp: same_store_def dest!: asset_repo_done asset_repo_failed)

lemma on_store_iff: "on_store f w = (r, w') \<longleftrightarrow> (\<exists>s. f (sh_store w) = (r, s) \<and> w' = w\<lparr>sh_store := s\<rparr>)"
  by (auto simp: on_store_def split: prod.splits)

lemma found_by_sha:
  "find_asset_by_sha256 user_id digest d = Inr (a, d') \<Longrightarrow>
   d' = d \<and> a \<in> set (at_assets d) \<and> as_user_id a = user_id \<and> as_sha256 a = Some digest \<and> as_deleted_at a = None"
proof -
  assume run: "find_asset_by_sha256 user_id digest d = Inr (a, d')"
  then obtain xs where rev: "rev (sort_key as_id (filter (\<lambda>a. as_user_id a = user_id \<and> as_sha256 a = Some digest \<and> as_deleted_at a = None)
      (at_assets d))) = a # xs" and "d' = d"
    by (auto simp: find_asset_by_sha256_def split: list.splits if_splits)
  from rev have "a \<in> set (sort_key as_id (filter (\<lambda>a. as_user_id a = user_id \<and> as_sha256 a = Some digest \<and> as_deleted_at a = None)
      (at_assets d)))" by (metis list.set_intros(1) set_rev)
  with \<open>d' = d\<close> show ?thesis by simp
qed

lemma created_asset:
  "create_asset now a d = Inr (row, d') \<Longrightarrow>
   row \<in> set (at_assets d') \<and> as_user_id row = as_user_id a \<and> as_sha256 row = as_sha256 a \<and> as_deleted_at row = None \<and>
   as_object_key row = as_object_key a"
  by (auto simp: create_asset_def Let_def split: if_splits)

section \<open>Uploads\<close>

text \<open>What an upload stands for: its input was accepted and identified.\<close>

lemma upload_accepted:
  assumes "upload_asset e inp w = (r, w')"
  shows "(\<exists>err. r = Inl err) \<and> w' = w \<or>
    (\<exists>orig info data. check_upload (ae_settings e) (ae_decode_config e) inp = Inr (orig, info, data) \<and>
       dedup_or_store e (ui_user_id inp) orig info data w = (r, w'))"
  using assms by (auto simp: upload_asset_def split: sum.splits)

text \<open>The limited reader neither cuts nor fails an accepted upload: the bytes checked are all the bytes sent.\<close>

lemma checked_bytes: "check_upload get decode_config inp = Inr (orig, info, data) \<Longrightarrow> ui_data inp = Some (data, None)"
  by (auto simp: check_upload_def read_limited_def Let_def split: option.splits sum.splits if_splits prod.splits)

text \<open>The newest row is found: its key is above all others.\<close>

definition rows_below :: "asset_tables \<Rightarrow> bool" where
  "rows_below d \<longleftrightarrow> list_all (\<lambda>a. as_id a < at_next_asset d) (at_assets d)"

lemma insort_key_snoc: "f x \<le> f a \<Longrightarrow> insort_key f x (ys @ [a]) = insort_key f x ys @ [a]"
  by (induction ys) auto

lemma sort_key_last: "(\<And>x. x \<in> set xs \<Longrightarrow> f x \<le> f a) \<Longrightarrow> sort_key f (xs @ [a]) = sort_key f xs @ [a]"
  by (induction xs) (simp_all add: insort_key_snoc)

lemma find_created:
  assumes "create_asset now a d = Inr (row, d')" and "rows_below d" and "as_sha256 a = Some digest" and "trim_space digest \<noteq> []"
  shows "find_asset_by_sha256 (as_user_id a) digest d' = Inr (row, d')"
proof -
  from assms(1) have row: "as_id row = at_next_asset d" "as_user_id row = as_user_id a" "as_sha256 row = Some digest"
      "as_deleted_at row = None" and d': "at_assets d' = at_assets d @ [row]"
    using assms(3) by (auto simp: create_asset_def Let_def split: if_splits)
  let ?P = "\<lambda>x. as_user_id x = as_user_id a \<and> as_sha256 x = Some digest \<and> as_deleted_at x = None"
  have "sort_key as_id (filter ?P (at_assets d) @ [row]) = sort_key as_id (filter ?P (at_assets d)) @ [row]"
    by (rule sort_key_last) (use assms(2) row(1) in \<open>auto simp: rows_below_def list_all_iff\<close>)
  then show ?thesis using assms(4) row d' by (simp add: find_asset_by_sha256_def)
qed

context object_store_laws
begin

lemma store_new_done:
  assumes env: "ae_store e = st" "same_store e" and good: "good (sh_store w)"
    and run: "store_new_asset e user_id orig info data w = (Inr r, w')"
  shows "good (sh_store w') \<and> \<not> ur_reused r \<and> ur_asset r \<in> set (at_assets (sh_tables w')) \<and> as_user_id (ur_asset r) = user_id \<and>
    as_sha256 (ur_asset r) = Some (ae_sha256 e data) \<and> as_deleted_at (ur_asset r) = None \<and>
    contents (sh_store w') = (contents (sh_store w))(as_object_key (ur_asset r) \<mapsto> data)"
proof -
  let ?row = "new_asset_of e user_id orig info data"
  from run obtain w1 created where put: "on_store (os_put st (as_object_key ?row) (ii_content_type info) data) w = (None, w1)"
    and ins: "asset_repo e InsertAsset (create_asset (ae_db_now e) ?row) w1 = (Inr created, w')"
    and r: "r = \<lparr>ur_asset = created, ur_reused = False\<rparr>"
    by (auto simp: store_new_asset_def env(1) Let_def split: prod.splits option.splits sum.splits)
  from put obtain s1 where "os_put st (as_object_key ?row) (ii_content_type info) data (sh_store w) = (None, s1)"
    and w1: "sh_store w1 = s1" by (auto simp: on_store_iff)
  with put_done[OF good] have s1: "good s1" "contents s1 = (contents (sh_store w))(as_object_key ?row \<mapsto> data)" by auto
  have "sh_store w' = s1" using asset_repo_store[OF env(2) ins] w1 by simp
  moreover from asset_repo_done[OF ins] obtain d where "create_asset (ae_db_now e) ?row (sh_tables (ae_meanwhile e InsertAsset w1)) = Inr (created, d)"
    and "sh_tables w' = d" by auto
  ultimately show ?thesis using created_asset s1 r by (fastforce simp: new_asset_of_def)
qed

lemma store_new_failed:
  assumes env: "ae_store e = st" "same_store e" and good: "good (sh_store w)"
    and fresh: "contents (sh_store w) (asset_object_key (ae_now e) (ae_new_uid e) (ii_ext info)) = None"
    and run: "store_new_asset e user_id orig info data w = (Inl err, w')"
  shows "contents (sh_store w') = contents (sh_store w) \<or>
    (\<exists>s. os_put st (asset_object_key (ae_now e) (ae_new_uid e) (ii_ext info)) (ii_content_type info) data (sh_store w) = (None, s) \<and>
       fst (os_delete st (asset_object_key (ae_now e) (ae_new_uid e) (ii_ext info)) s) \<noteq> None \<and>
       sh_store w' = snd (os_delete st (asset_object_key (ae_now e) (ae_new_uid e) (ii_ext info)) s) \<and>
       contents (sh_store w') = (contents (sh_store w))(asset_object_key (ae_now e) (ae_new_uid e) (ii_ext info) \<mapsto> data))"
proof -
  let ?row = "new_asset_of e user_id orig info data"
  have key: "as_object_key ?row = asset_object_key (ae_now e) (ae_new_uid e) (ii_ext info)" by (simp add: new_asset_of_def)
  from run consider err' where "on_store (os_put st (as_object_key ?row) (ii_content_type info) data) w = (Some err', w')"
    | w1 w2 err' where "on_store (os_put st (as_object_key ?row) (ii_content_type info) data) w = (None, w1)"
      "asset_repo e InsertAsset (create_asset (ae_db_now e) ?row) w1 = (Inl err', w2)"
      "w' = snd (on_store (os_delete st (as_object_key ?row)) w2)"
    by (auto simp: store_new_asset_def env(1) Let_def split: prod.splits option.splits sum.splits)
  then show ?thesis
  proof cases
    case 1
    with put_failed[OF good] show ?thesis by (auto simp: on_store_iff)
  next
    case 2
    from 2(1) have s1: "good (sh_store w1)" "contents (sh_store w1) = (contents (sh_store w))(as_object_key ?row \<mapsto> data)"
      using put_done[OF good] by (auto simp: on_store_iff)
    have w2: "sh_store w2 = sh_store w1" using asset_repo_store[OF env(2) 2(2)] .
    obtain c s2 where del: "os_delete st (as_object_key ?row) (sh_store w1) = (c, s2)" by fastforce
    have w': "sh_store w' = s2" using 2(3) w2 del by (simp add: on_store_def)
    show ?thesis
    proof (cases c)
      case None
      with delete_done[OF s1(1)] del w' s1(2) fresh key show ?thesis by (auto simp: fun_upd_idem)
    next
      case (Some x)
      with delete_failed[OF s1(1)] del w' s1(2) key
      have "contents (sh_store w') = (contents (sh_store w))(asset_object_key (ae_now e) (ae_new_uid e) (ii_ext info) \<mapsto> data)" by auto
      then show ?thesis using 2(1) del Some w' key by (auto simp: on_store_iff)
    qed
  qed
qed

lemma dedup_cases:
  assumes env: "ae_store e = st" "same_store e" and good: "good (sh_store w)"
    and run: "dedup_or_store e user_id orig info data w = (r, w')"
  obtains (failed) err where "r = Inl err" "good (sh_store w')" "contents (sh_store w') = contents (sh_store w)"
  | (reused) a where "r = Inr \<lparr>ur_asset = a, ur_reused = True\<rparr>" "good (sh_store w')"
      "contents (sh_store w') = contents (sh_store w)" "contents (sh_store w) (as_object_key a) \<noteq> None"
      "find_asset_by_sha256 user_id (ae_sha256 e data) (sh_tables w') = Inr (a, sh_tables w')"
  | (fresh) w1 where "good (sh_store w1)" "contents (sh_store w1) = contents (sh_store w)"
      "store_new_asset e user_id orig info data w1 = (r, w')" "sh_tables w1 = sh_tables (ae_meanwhile e FindBySha w)"
proof -
  let ?find = "find_asset_by_sha256 user_id (ae_sha256 e data)"
  obtain f w1 where find: "asset_repo e FindBySha ?find w = (f, w1)" by fastforce
  have s1: "sh_store w1 = sh_store w" using asset_repo_store[OF env(2) find] .
  show ?thesis
  proof (cases f)
    case (Inl err)
    show ?thesis
    proof (cases "errors_is err ErrNotFound")
      case True
      with run find Inl show ?thesis using fresh[of w1] good s1 asset_repo_failed[OF find[unfolded Inl]]
        by (simp add: dedup_or_store_def)
    next
      case False
      with run find Inl show ?thesis using failed good s1 by (auto simp: dedup_or_store_def)
    qed
  next
    case (Inr a)
    with asset_repo_done[OF find[unfolded Inr]] found_by_sha have a: "as_deleted_at a = None"
      and here: "?find (sh_tables w1) = Inr (a, sh_tables w1)"
      and tables: "sh_tables w1 = sh_tables (ae_meanwhile e FindBySha w)" by fastforce+
    obtain x s2 where ex: "os_exists st (as_object_key a) (sh_store w1) = (x, s2)" by fastforce
    have st2: "good s2 \<and> contents s2 = contents (sh_store w)" using exists_state[OF _ ex] good s1 by simp
    show ?thesis
    proof (cases "x = Inr True")
      case True
      then have "contents (sh_store w) (as_object_key a) \<noteq> None" using exists_done[OF _ ex[unfolded True]] good s1 by simp
      moreover have "r = Inr \<lparr>ur_asset = a, ur_reused = True\<rparr>" "w' = w1\<lparr>sh_store := s2\<rparr>"
        using run find Inr a ex True by (auto simp: dedup_or_store_def on_store_def env(1))
      ultimately show ?thesis using reused st2 here by simp
    next
      case False
      then have "store_new_asset e user_id orig info data (w1\<lparr>sh_store := s2\<rparr>) = (r, w')"
        using run find Inr a ex by (auto simp: dedup_or_store_def on_store_def env(1) split: sum.splits bool.splits)
      then show ?thesis using fresh[of "w1\<lparr>sh_store := s2\<rparr>"] st2 tables by simp
    qed
  qed
qed

lemma upload_stored:
  assumes env: "ae_store e = st" "same_store e" and good: "good (sh_store w)"
    and run: "upload_asset e inp w = (Inr r, w')"
  shows "good (sh_store w') \<and> ur_asset r \<in> set (at_assets (sh_tables w')) \<and> as_user_id (ur_asset r) = ui_user_id inp \<and>
    as_deleted_at (ur_asset r) = None \<and> contents (sh_store w') (as_object_key (ur_asset r)) \<noteq> None \<and>
    (\<exists>data. ui_data inp = Some (data, None) \<and> as_sha256 (ur_asset r) = Some (ae_sha256 e data) \<and>
       (\<not> ur_reused r \<longrightarrow> contents (sh_store w') (as_object_key (ur_asset r)) = Some data))"
proof -
  from upload_accepted[OF run] obtain orig info data where "dedup_or_store e (ui_user_id inp) orig info data w = (Inr r, w')"
    and read: "check_upload (ae_settings e) (ae_decode_config e) inp = Inr (orig, info, data)" by auto
  note all = checked_bytes[OF read]
  from env good \<open>dedup_or_store e (ui_user_id inp) orig info data w = (Inr r, w')\<close> show ?thesis
  proof (cases rule: dedup_cases)
    case (reused a)
    with found_by_sha[OF reused(5)] all show ?thesis by auto
  next
    case (fresh w1)
    from store_new_done[OF env fresh(1,3)] all show ?thesis by auto
  qed simp
qed

lemma upload_failed:
  assumes env: "ae_store e = st" "same_store e" and good: "good (sh_store w)"
    and fresh: "\<And>ext. contents (sh_store w) (asset_object_key (ae_now e) (ae_new_uid e) ext) = None"
    and run: "upload_asset e inp w = (Inl err, w')"
  shows "contents (sh_store w') = contents (sh_store w) \<or>
    (\<exists>ext ct data s0 s. ui_data inp = Some (data, None) \<and> contents s0 = contents (sh_store w) \<and>
       os_put st (asset_object_key (ae_now e) (ae_new_uid e) ext) ct data s0 = (None, s) \<and>
       fst (os_delete st (asset_object_key (ae_now e) (ae_new_uid e) ext) s) \<noteq> None \<and>
       sh_store w' = snd (os_delete st (asset_object_key (ae_now e) (ae_new_uid e) ext) s) \<and>
       contents (sh_store w') = (contents (sh_store w))(asset_object_key (ae_now e) (ae_new_uid e) ext \<mapsto> data))"
proof (cases "w' = w")
  case False
  with upload_accepted[OF run] obtain orig info data where run: "dedup_or_store e (ui_user_id inp) orig info data w = (Inl err, w')"
    and read: "check_upload (ae_settings e) (ae_decode_config e) inp = Inr (orig, info, data)" by auto
  from env good run show ?thesis
  proof (cases rule: dedup_cases)
    case (fresh w1)
    then have "contents (sh_store w1) (asset_object_key (ae_now e) (ae_new_uid e) (ii_ext info)) = None" using assms(4) by simp
    from store_new_failed[OF env fresh(1) this fresh(3)] fresh(2) checked_bytes[OF read] show ?thesis by metis
  qed simp_all
qed simp

text \<open>A photo just uploaded is the one a second upload of the same file finds.\<close>

lemma upload_again:
  assumes env: "ae_store e = st" "same_store e" and good: "good (sh_store w)" and below: "rows_below (sh_tables w)"
    and keeps: "\<And>p v. rows_below (sh_tables v) \<Longrightarrow> rows_below (sh_tables (ae_meanwhile e p v))"
    and hex: "\<And>d. trim_space (ae_sha256 e d) \<noteq> []"
    and first: "upload_asset e inp w = (Inr r, w1)"
    and e2: "ae_store e2 = st" "ae_settings e2 = ae_settings e" "ae_decode_config e2 = ae_decode_config e" "ae_sha256 e2 = ae_sha256 e"
    and calm: "ae_meanwhile e2 = (\<lambda>p v. v)" "ae_fails e2 FindBySha = None"
    and exists: "os_exists st (as_object_key (ur_asset r)) (sh_store w1) = (Inr b, s2)"
  shows "upload_asset e2 inp w1 = (Inr \<lparr>ur_asset = ur_asset r, ur_reused = True\<rparr>, w1\<lparr>sh_store := s2\<rparr>)"
proof -
  from upload_accepted[OF first] obtain orig info data where run: "dedup_or_store e (ui_user_id inp) orig info data w = (Inr r, w1)"
    and "check_upload (ae_settings e) (ae_decode_config e) inp = Inr (orig, info, data)" by auto
  then have again: "upload_asset e2 inp w1 = dedup_or_store e2 (ui_user_id inp) orig info data w1"
    using e2(2,3) by (simp add: upload_asset_def)
  have found: "find_asset_by_sha256 (ui_user_id inp) (ae_sha256 e data) (sh_tables w1) = Inr (ur_asset r, sh_tables w1)"
    using env good run
  proof (cases rule: dedup_cases)
    case (fresh v)
    let ?row = "new_asset_of e (ui_user_id inp) orig info data"
    from fresh(3) obtain v1 created where put: "on_store (os_put st (as_object_key ?row) (ii_content_type info) data) v = (None, v1)"
      and ins: "asset_repo e InsertAsset (create_asset (ae_db_now e) ?row) v1 = (Inr created, w1)" and r: "ur_asset r = created"
      by (auto simp: store_new_asset_def env(1) Let_def split: prod.splits option.splits sum.splits)
    have "rows_below (sh_tables v)" using fresh(4) keeps below by simp
    then have "rows_below (sh_tables (ae_meanwhile e InsertAsset v1))" using put keeps by (auto simp: on_store_iff)
    with asset_repo_done[OF ins] find_created hex r show ?thesis by (fastforce simp: new_asset_of_def)
  qed simp_all
  have "ur_asset r \<in> set (at_assets (sh_tables w1)) \<and> as_deleted_at (ur_asset r) = None"
    using found_by_sha[OF found] by simp
  moreover have "b" using exists_done[OF _ exists] upload_stored[OF env good first] by simp
  moreover have "asset_repo e2 FindBySha (find_asset_by_sha256 (ui_user_id inp) (ae_sha256 e2 data)) w1 = (Inr (ur_asset r), w1)"
    using found calm e2(4) by (simp add: asset_repo_def repo_call_def on_tables_def)
  ultimately show ?thesis using again exists e2(1) by (simp add: dedup_or_store_def on_store_def)
qed

lemma make_variant_done:
  assumes env: "ae_store e = st" "same_store e" and good: "good (sh_store w)"
    and run: "make_variant e a r keep max_dim w = (Inr v, w')"
  shows "variant_of (as_id a) r keep max_dim v \<and> contents (sh_store w') (av_object_key v) \<noteq> None"
proof -
  from run obtain process source ct w1 res key w2 where get: "on_store (os_get st (as_object_key a)) w = (Inr (source, ct), w1)"
    and put: "on_store (os_put st key (pp_content_type res) (pp_data res)) w1 = (None, w2)"
    and ins: "asset_repo e WriteVariant (upsert_variant (ae_db_now e) (variant_params_of a r keep max_dim key res)) w2 = (Inr v, w')"
    by (auto simp: make_variant_def env(1) Let_def split: option.splits sum.splits prod.splits if_splits)
  have "good (sh_store w1)" using get get_state[OF good] by (auto simp: on_store_iff)
  with put put_done have "contents (sh_store w2) key \<noteq> None" by (fastforce simp: on_store_iff)
  with asset_repo_store[OF env(2) ins] have "contents (sh_store w') key \<noteq> None" by simp
  moreover from asset_repo_done[OF ins] have "variant_of (as_id a) r keep max_dim v \<and> av_object_key v = key"
    by (auto simp: upsert_variant_def variant_params_of_def variant_of_def Let_def dest: find_SomeD split: option.splits)
  ultimately show ?thesis by simp
qed

lemma ensure_variant_done:
  assumes env: "ae_store e = st" "same_store e" and good: "good (sh_store w)"
    and run: "ensure_variant_for_asset e (Some a) r keep max_dimension w = (Inr v, w')"
  shows "validate_ratio r (allowed_ratios (ae_settings e)) = None \<and> 256 \<le> av_max_dimension v \<and> av_max_dimension v \<le> 8192 \<and>
    variant_of (as_id a) r keep (if max_dimension \<le> 0 then asset_max_dimension (ae_settings e) else max_dimension) v \<and>
    contents (sh_store w') (av_object_key v) \<noteq> None"
proof -
  let ?m = "if max_dimension \<le> 0 then asset_max_dimension (ae_settings e) else max_dimension"
  from run have ratio: "check_ratio (ae_settings e) r = None" and dim: "256 \<le> ?m" "?m \<le> 8192"
    by (auto simp: ensure_variant_for_asset_def Let_def asset_min_dimension_limit_def asset_max_dimension_limit_def
        split: if_splits option.splits)
  obtain x w1 where read: "asset_repo e ReadVariant (get_variant (as_id a) r keep ?m) w = (x, w1)" by fastforce
  have s1: "good (sh_store w1)" using asset_repo_store[OF env(2) read] good by simp
  have body: "(case (x, w1) of
       (Inl err, w) \<Rightarrow> if errors_is err ErrNotFound then make_variant e a r keep ?m w
                       else (Inl (Dk (with_cause (new_error ErrCodeInternal) err)), w)
     | (Inr v, w) \<Rightarrow> (case on_store (os_exists (ae_store e) (av_object_key v)) w of
          (Inr True, w) \<Rightarrow> (Inr v, w) | (_, w) \<Rightarrow> make_variant e a r keep ?m w)) = (Inr v, w')"
    using run ratio dim read by (simp add: ensure_variant_for_asset_def Let_def asset_min_dimension_limit_def
        asset_max_dimension_limit_def split: if_splits)
  have goal: "variant_of (as_id a) r keep ?m v \<and> contents (sh_store w') (av_object_key v) \<noteq> None"
  proof (cases x)
    case (Inl err)
    with body have "make_variant e a r keep ?m w1 = (Inr v, w')" by (simp split: if_splits)
    then show ?thesis by (rule make_variant_done[OF env s1])
  next
    case (Inr old)
    from asset_repo_done[OF read[unfolded Inr]] have old: "variant_of (as_id a) r keep ?m old"
      by (auto simp: get_variant_def dest: find_SomeD split: option.splits)
    obtain y s2 where ex: "os_exists st (av_object_key old) (sh_store w1) = (y, s2)" by fastforce
    have good2: "good s2 \<and> contents s2 = contents (sh_store w1)" using exists_state[OF s1 ex] .
    show ?thesis
    proof (cases "y = Inr True")
      case True
      with body Inr ex have "v = old" "w' = w1\<lparr>sh_store := s2\<rparr>" by (auto simp: on_store_def env(1))
      with old good2 exists_done[OF s1 ex[unfolded True]] show ?thesis by simp
    next
      case False
      with body Inr ex have "make_variant e a r keep ?m (w1\<lparr>sh_store := s2\<rparr>) = (Inr v, w')"
        by (auto simp: on_store_def env(1) split: sum.splits bool.splits)
      then show ?thesis using make_variant_done[OF env, of "w1\<lparr>sh_store := s2\<rparr>"] good2 by simp
    qed
  qed
  then have "av_max_dimension v = ?m" by (simp add: variant_of_def)
  moreover have "validate_ratio r (allowed_ratios (ae_settings e)) = None"
    using ratio by (auto simp: check_ratio_def Let_def split: option.splits)
  ultimately show ?thesis using goal dim by simp
qed

end

section \<open>Properties\<close>

text \<open>C11: Whatever other processes write to the tables and whichever calls fail, an upload into the local store that
  succeeds, while no other process writes to the store, ends with a live row of the right user whose file is in the
  store and whose digest is that of exactly the bytes sent; and when the row is a new one, its file holds these bytes.\<close>

theorem upload_is_stored:
  assumes "ae_store e = local_store base env" and "same_store e" and "local_good base (sh_store w)"
    and "upload_asset e inp w = (Inr r, w')"
  shows "ur_asset r \<in> set (at_assets (sh_tables w')) \<and> as_user_id (ur_asset r) = ui_user_id inp \<and> as_deleted_at (ur_asset r) = None \<and>
    local_contents base (sh_store w') (as_object_key (ur_asset r)) \<noteq> None \<and>
    (\<exists>data. ui_data inp = Some (data, None) \<and> as_sha256 (ur_asset r) = Some (ae_sha256 e data) \<and>
       (ur_reused r \<or> local_contents base (sh_store w') (as_object_key (ur_asset r)) = Some data))"
  using local.upload_stored[OF assms] by blast

text \<open>A store on an empty data directory, and a photo of eight bytes.\<close>

definition empty_shelf :: "local_state shelf" where
  "empty_shelf = \<lparr>sh_tables = \<lparr>at_assets = [], at_variants = [], at_next_asset = 1, at_next_variant = 1\<rparr>,
     sh_store = \<lparr>ls_fs = [([], Dir), ([''data''], Dir)], ls_calls = 0\<rparr>\<rparr>"

definition demo_env :: "local_state asset_env" where
  "demo_env = \<lparr>ae_store = local_store ''/data'' (\<lambda>n. calm), ae_settings = (\<lambda>k. Inr None), ae_now = 0, ae_db_now = 5,
     ae_new_uid = ''01ARZ3NDEKTSV4RRFFQ69G5FAV'', ae_sha256 = (\<lambda>d. ''d1''), ae_decode_config = (\<lambda>d. Some (2, 3)),
     ae_preprocess = None, ae_meanwhile = (\<lambda>p w. w), ae_fails = (\<lambda>p. None)\<rparr>"

definition demo_photo :: upload_input where
  "demo_photo = \<lparr>ui_user_id = 7, ui_origin = OriginWeb, ui_declared_size = 8,
     ui_data = Some (bytes [0x89, 0x50, 0x4E, 0x47, 0x0D, 0x0A, 0x1A, 0x0A], None), ui_max_bytes_override = 100\<rparr>"

definition demo_row :: asset where
  "demo_row = \<lparr>as_id = 1, as_uid = ''01ARZ3NDEKTSV4RRFFQ69G5FAV'', as_user_id = 7,
     as_object_key = ''designkit/assets/0001/01/01/01ARZ3NDEKTSV4RRFFQ69G5FAV.png'', as_content_type = ''image/png'',
     as_byte_size = 8, as_width = Some 2, as_height = Some 3, as_sha256 = Some ''d1'', as_origin = OriginWeb,
     as_created_at = 5, as_deleted_at = None\<rparr>"

lemma demo_good: "local_good ''/data'' (sh_store empty_shelf)"
  by code_simp

lemma demo_same_store: "same_store demo_env"
  by (simp add: same_store_def demo_env_def)

definition demo_shelf :: "local_state shelf" where
  "demo_shelf = \<lparr>sh_tables = \<lparr>at_assets = [demo_row], at_variants = [], at_next_asset = 2, at_next_variant = 1\<rparr>,
     sh_store = \<lparr>ls_fs = [([], Dir), ([''data''], Dir), ([''data'', ''designkit''], Dir), ([''data'', ''designkit'', ''assets''], Dir),
        ([''data'', ''designkit'', ''assets'', ''0001''], Dir), ([''data'', ''designkit'', ''assets'', ''0001'', ''01''], Dir),
        ([''data'', ''designkit'', ''assets'', ''0001'', ''01'', ''01''], Dir),
        ([''data'', ''designkit'', ''assets'', ''0001'', ''01'', ''01'', ''01ARZ3NDEKTSV4RRFFQ69G5FAV.png''],
         File (bytes [0x89, 0x50, 0x4E, 0x47, 0x0D, 0x0A, 0x1A, 0x0A]))], ls_calls = 1\<rparr>\<rparr>"

lemma demo_upload: "upload_asset demo_env demo_photo empty_shelf = (Inr \<lparr>ur_asset = demo_row, ur_reused = False\<rparr>, demo_shelf)"
  by code_simp

theorem upload_is_stored_witness:
  "demo_row \<in> set (at_assets (sh_tables demo_shelf)) \<and>
   local_contents ''/data'' (sh_store demo_shelf) (as_object_key demo_row) =
     Some (bytes [0x89, 0x50, 0x4E, 0x47, 0x0D, 0x0A, 0x1A, 0x0A])"
proof -
  have "ae_store demo_env = local_store ''/data'' (\<lambda>n. calm)" by (simp add: demo_env_def)
  from upload_is_stored[OF this demo_same_store demo_good demo_upload] show ?thesis by (auto simp: demo_photo_def)
qed

text \<open>C12: An upload into the local store that fails, with an object key that is not in use and while no other process
  writes to the store, leaves the stored objects as they were. The one exception: the new file, holding the bytes
  sent, was written, and the clean-up, tried on the store as that write left it, failed too. Then the outcome is that
  of the failed clean-up, and this one file, of a photo that was never recorded, is all that was added.\<close>

theorem failed_upload_leaves_no_orphan:
  assumes "ae_store e = local_store base env" and "same_store e" and "local_good base (sh_store w)"
    and "\<And>ext. local_contents base (sh_store w) (asset_object_key (ae_now e) (ae_new_uid e) ext) = None"
    and "upload_asset e inp w = (Inl err, w')"
  shows "local_contents base (sh_store w') = local_contents base (sh_store w) \<or>
    (\<exists>ext ct data s0 s. ui_data inp = Some (data, None) \<and> local_contents base s0 = local_contents base (sh_store w) \<and>
       os_put (local_store base env) (asset_object_key (ae_now e) (ae_new_uid e) ext) ct data s0 = (None, s) \<and>
       fst (os_delete (local_store base env) (asset_object_key (ae_now e) (ae_new_uid e) ext) s) \<noteq> None \<and>
       sh_store w' = snd (os_delete (local_store base env) (asset_object_key (ae_now e) (ae_new_uid e) ext) s) \<and>
       local_contents base (sh_store w') =
         (local_contents base (sh_store w))(asset_object_key (ae_now e) (ae_new_uid e) ext \<mapsto> data))"
  by (rule local.upload_failed[OF assms])

text \<open>The insert fails: the upload is refused and no other object appears.\<close>

definition broken_env :: "local_state asset_env" where
  "broken_env = demo_env\<lparr>ae_fails := (\<lambda>p. if p = InsertAsset then Some (Opaque ''down'') else None)\<rparr>"

theorem failed_upload_leaves_no_orphan_witness:
  "(case fst (upload_asset broken_env demo_photo empty_shelf) of Inl err \<Rightarrow> True | Inr x \<Rightarrow> False) \<and>
   local_contents ''/data'' (sh_store (snd (upload_asset broken_env demo_photo empty_shelf))) ''a.png'' = None"
proof -
  have same: "same_store broken_env" by (simp add: same_store_def broken_env_def demo_env_def)
  have store: "ae_store broken_env = local_store ''/data'' (\<lambda>n. calm)" by (simp add: broken_env_def demo_env_def)
  have empty: "local_contents ''/data'' (sh_store empty_shelf) key = None" for key
    by (auto simp: local_contents_def stored_def empty_shelf_def object_path_def path_of_def clean_step_def)
  have never: "ae_fails e InsertAsset = Some x \<Longrightarrow> \<exists>err. fst (store_new_asset e u o' i d w) = Inl err"
    for e :: "local_state asset_env" and x u o' i d w
    by (auto simp: store_new_asset_def asset_repo_def repo_call_def Let_def split: prod.split option.split)
  have plain: "trim_space ''d1'' \<noteq> []" by (simp add: trim_space_ends plain_char_def)
  have "asset_repo broken_env FindBySha (find_asset_by_sha256 7 (ae_sha256 broken_env d)) empty_shelf = (Inl (not_found_err noun_asset), empty_shelf)" for d
    using plain by (simp add: asset_repo_def repo_call_def on_tables_def find_asset_by_sha256_def broken_env_def demo_env_def empty_shelf_def)
  then have step: "dedup_or_store broken_env 7 o' i d empty_shelf = store_new_asset broken_env 7 o' i d empty_shelf" for o' i d
    by (simp add: dedup_or_store_def)
  have "ui_user_id demo_photo = 7" by (simp add: demo_photo_def)
  have refused: "case fst (upload_asset broken_env demo_photo empty_shelf) of Inl err \<Rightarrow> True | Inr x \<Rightarrow> False"
  proof (cases "check_upload (ae_settings broken_env) (ae_decode_config broken_env) demo_photo")
    case (Inr x)
    obtain o' i d where x: "x = (o', i, d)" by (metis prod_cases3)
    have "\<exists>err. fst (store_new_asset broken_env 7 o' i d empty_shelf) = Inl err"
      by (rule never[of _ "Opaque ''down''"]) (simp add: broken_env_def)
    with Inr x \<open>ui_user_id demo_photo = 7\<close> step show ?thesis by (auto simp: upload_asset_def)
  qed (simp add: upload_asset_def)
  then obtain err where run: "upload_asset broken_env demo_photo empty_shelf = (Inl err, snd (upload_asset broken_env demo_photo empty_shelf))"
    by (cases "upload_asset broken_env demo_photo empty_shelf") (auto split: sum.splits)
  have other: "asset_object_key t uid ext \<noteq> ''a.png''" for t uid ext
    by (simp add: asset_object_key_def object_key_prefix_def)
  note outcome = failed_upload_leaves_no_orphan[OF store same demo_good empty run]
  have "((local_contents ''/data'' (sh_store empty_shelf))(asset_object_key t uid ext \<mapsto> d)) ''a.png'' = None" for t uid ext d
    using other[of t uid ext] empty[of "''a.png''"] by (metis fun_upd_apply)
  with outcome empty[of "''a.png''"] have "local_contents ''/data'' (sh_store (snd (upload_asset broken_env demo_photo empty_shelf))) ''a.png'' = None"
    by metis
  with refused show ?thesis by blast
qed

text \<open>Uploading the same file a second time gives the photo of the first upload: no file and no row is added.\<close>

theorem repeated_upload_is_reused:
  assumes "ae_store e = local_store base env" and "same_store e" and "local_good base (sh_store w)"
    and "rows_below (sh_tables w)"
    and "\<And>p v. rows_below (sh_tables v) \<Longrightarrow> rows_below (sh_tables (ae_meanwhile e p v))"
    and "\<And>d. trim_space (ae_sha256 e d) \<noteq> []"
    and "upload_asset e inp w = (Inr r, w1)"
    and "ae_store e2 = local_store base env" and "ae_settings e2 = ae_settings e"
    and "ae_decode_config e2 = ae_decode_config e" and "ae_sha256 e2 = ae_sha256 e"
    and "ae_meanwhile e2 = (\<lambda>p v. v)" and "ae_fails e2 FindBySha = None"
    and "os_exists (local_store base env) (as_object_key (ur_asset r)) (sh_store w1) = (Inr b, s2)"
  shows "upload_asset e2 inp w1 = (Inr \<lparr>ur_asset = ur_asset r, ur_reused = True\<rparr>, w1\<lparr>sh_store := s2\<rparr>) \<and>
    local_contents base s2 = local_contents base (sh_store w1)"
proof -
  have "local_good base (sh_store w1)" using local.upload_stored[OF assms(1,2,3,7)] by blast
  then show ?thesis using local.upload_again[OF assms] local.exists_state[OF _ assms(14)] by blast
qed

theorem repeated_upload_is_reused_witness:
  "fst (upload_asset (demo_env\<lparr>ae_new_uid := ''01ARZ3NDEKTSV4RRFFQ69G5FAW''\<rparr>) demo_photo demo_shelf) =
     Inr \<lparr>ur_asset = demo_row, ur_reused = True\<rparr>"
proof -
  let ?w = demo_shelf and ?st = "local_store ''/data'' (\<lambda>n. calm)"
  obtain x s2 where ex: "os_exists ?st (as_object_key demo_row) (sh_store ?w) = (x, s2)" by fastforce
  moreover have "fst (os_exists ?st (as_object_key demo_row) (sh_store ?w)) = Inr True" by code_simp
  ultimately have ex: "os_exists ?st (as_object_key (ur_asset \<lparr>ur_asset = demo_row, ur_reused = False\<rparr>)) (sh_store ?w) = (Inr True, s2)" by simp
  have plain: "trim_space ''d1'' \<noteq> []" by (simp add: trim_space_ends plain_char_def)
  have below: "rows_below (sh_tables empty_shelf)" by (simp add: rows_below_def empty_shelf_def)
  show ?thesis
    using repeated_upload_is_reused[OF _ demo_same_store demo_good below _ _ demo_upload _ _ _ _ _ _ ex,
        of "demo_env\<lparr>ae_new_uid := ''01ARZ3NDEKTSV4RRFFQ69G5FAW''\<rparr>"] plain
    by (simp add: demo_env_def)
qed

text \<open>A padded copy is handed out only for an allowed ratio and a size between 256 and 8192, it is the copy of
  that photo at that ratio, background and size, and its file is in the store. There is no fallback to the
  unpadded photo.\<close>

theorem variant_fails_closed:
  assumes "ae_store e = local_store base env" and "same_store e" and "local_good base (sh_store w)"
    and "ensure_variant_for_asset e (Some a) r keep max_dimension w = (Inr v, w')"
  shows "validate_ratio r (allowed_ratios (ae_settings e)) = None \<and> 256 \<le> av_max_dimension v \<and> av_max_dimension v \<le> 8192 \<and>
    variant_of (as_id a) r keep (if max_dimension \<le> 0 then asset_max_dimension (ae_settings e) else max_dimension) v \<and>
    local_contents base (sh_store w') (av_object_key v) \<noteq> None"
  by (rule local.ensure_variant_done[OF assms])

definition demo_variant :: asset_variant where
  "demo_variant = \<lparr>av_id = 1, av_asset_id = 1, av_ratio = ''3:4'', av_keep_transparency = False, av_max_dimension = 256,
     av_object_key = as_object_key demo_row, av_width = Some 3, av_height = Some 4, av_content_type = ''image/png'', av_created_at = 5\<rparr>"

definition padded_shelf :: "local_state shelf" where
  "padded_shelf = demo_shelf\<lparr>sh_tables := (sh_tables demo_shelf)\<lparr>at_variants := [demo_variant]\<rparr>\<rparr>"

theorem variant_fails_closed_witness:
  "validate_ratio ''3:4'' (allowed_ratios (ae_settings demo_env)) = None \<and>
   fst (ensure_variant_for_asset demo_env (Some demo_row) ''3:4'' False 256 padded_shelf) = Inr demo_variant"
proof -
  have store: "ae_store demo_env = local_store ''/data'' (\<lambda>n. calm)" by (simp add: demo_env_def)
  have good: "local_good ''/data'' (sh_store padded_shelf)"
    using local.upload_stored[OF store demo_same_store demo_good demo_upload] by (simp add: padded_shelf_def Let_def)
  have i: "itoa 3 = ''3''" "itoa 4 = ''4''"
    by (simp_all add: itoa_def nat_digits.simps digit_char_def char_of_def bit_Suc_0_iff)
  have "parse_ratio_parts (itoa 3 @ '':'' @ itoa 4) = Inr (3, 4)" by (rule parse_ratio_printed) simp_all
  then have ratio: "check_ratio (ae_settings demo_env) ''3:4'' = None"
    by (simp add: check_ratio_def allowed_ratios_def validate_ratio_def i setting_raw_def is_allowed_def default_ratios_def demo_env_def)
  have read: "asset_repo demo_env ReadVariant (get_variant 1 ''3:4'' False 256) padded_shelf = (Inr demo_variant, padded_shelf)"
    by (simp add: asset_repo_def repo_call_def on_tables_def get_variant_def demo_env_def padded_shelf_def Let_def variant_of_def demo_variant_def)
  have "fst (on_store (os_exists (ae_store demo_env) (av_object_key demo_variant)) padded_shelf) = Inr True" by code_simp
  then obtain w' where ex: "on_store (os_exists (ae_store demo_env) (av_object_key demo_variant)) padded_shelf = (Inr True, w')"
    by (metis prod.collapse)
  have "as_id demo_row = 1" by (simp add: demo_row_def)
  then have run: "ensure_variant_for_asset demo_env (Some demo_row) ''3:4'' False 256 padded_shelf = (Inr demo_variant, w')"
    using ratio read ex by (simp add: ensure_variant_for_asset_def asset_min_dimension_limit_def asset_max_dimension_limit_def)
  from variant_fails_closed[OF store demo_same_store good run] run show ?thesis by simp
qed

section \<open>The two ULID encoders\<close>

text \<open>C36: The two ULID encoders of the program, the one for photos and the one for the worker's rows, give the same
  26 characters for every 16 bytes.\<close>

theorem ulid_encoders_agree: "dk_crockford_encode128 raw = encode_crockford raw"
proof -
  have bit: "dk_bit_at raw pos = uint (bit_at raw pos)" for pos
    by (simp add: dk_bit_at_def bit_at_def Let_def)
  have "nat (dk_crockford_value raw i [0, 1, 2, 3, 4] 0) = unat (crockford_value raw i [0, 1, 2, 3, 4] 0)" for i
    using bit_at_cases[of raw "i * 5 + 0"] bit_at_cases[of raw "i * 5 + 1"] bit_at_cases[of raw "i * 5 + 2"]
      bit_at_cases[of raw "i * 5 + 3"] bit_at_cases[of raw "i * 5 + 4"]
    by (elim disjE) (simp_all add: bit)
  then show ?thesis by (simp add: dk_crockford_encode128_def encode_crockford_def ulid_length_def)
qed

end
