(* ===== verification/Cleanup.thy ===== *)
theory Cleanup
  imports Assets
begin

text \<open>
  The clean-up of old pictures: \<open>repository/cleanup_repo.go\<close> and \<open>service/cleanup.go\<close>. A run reads the
  switch and the days of retention, then deletes in batches: the files first, then the rows. The loop
  over the batches has no bound of its own, so it is a partial function whose value \<open>None\<close> is a loop
  that goes on for ever. The timer around a run is not modelled.
\<close>

section \<open>The repository\<close>

record cleanup_candidate =
  cc_id :: int
  cc_object_key :: string
  cc_byte_size :: int

record 's yard =
  yd_db :: db
  yd_tables :: asset_tables
  yd_store :: 's

definition cleanup_busy_job_statuses :: "job_status list" where
  "cleanup_busy_job_statuses = filter (\<lambda>s. \<not> job_is_terminal s) all_job_statuses"

definition busy_job :: "db \<Rightarrow> int \<Rightarrow> bool" where
  "busy_job d jid \<longleftrightarrow> list_ex (\<lambda>j. job_id j = jid \<and> job_status j \<in> set cleanup_busy_job_statuses) (db_jobs d)"

definition image_expired :: "time \<Rightarrow> time \<Rightarrow> db \<Rightarrow> image \<Rightarrow> bool" where
  "image_expired now cutoff d i \<longleftrightarrow> img_deleted_at i = None \<and>
     (img_created_at i < cutoff \<or> (case img_expires_at i of None \<Rightarrow> False | Some t \<Rightarrow> t < now)) \<and>
     \<not> busy_job d (img_job_id i)"

definition asset_expired :: "time \<Rightarrow> db \<Rightarrow> asset \<Rightarrow> bool" where
  "asset_expired cutoff d a \<longleftrightarrow> as_deleted_at a = None \<and> as_created_at a < cutoff \<and>
     \<not> list_ex (\<lambda>i. it_asset_id i = Some (as_id a) \<and> busy_job d (it_job_id i)) (db_items d)"

definition list_expired_images :: "time \<Rightarrow> time \<Rightarrow> nat \<Rightarrow> db \<Rightarrow> cleanup_candidate list" where
  "list_expired_images now cutoff limit d =
     take limit (map (\<lambda>i. \<lparr>cc_id = img_id i, cc_object_key = img_object_key i, cc_byte_size = img_byte_size i\<rparr>)
       (sort_key img_id (filter (image_expired now cutoff d) (db_images d))))"

definition list_expired_assets :: "time \<Rightarrow> nat \<Rightarrow> db \<Rightarrow> asset_tables \<Rightarrow> cleanup_candidate list" where
  "list_expired_assets cutoff limit d t =
     take limit (map (\<lambda>a. \<lparr>cc_id = as_id a, cc_object_key = as_object_key a, cc_byte_size = as_byte_size a\<rparr>)
       (sort_key as_id (filter (asset_expired cutoff d) (at_assets t))))"

definition list_variant_keys :: "int list \<Rightarrow> asset_tables \<Rightarrow> int \<Rightarrow> string list" where
  "list_variant_keys ids t i =
     map av_object_key (sort_key av_id (filter (\<lambda>v. av_asset_id v = i \<and> av_asset_id v \<in> set ids) (at_variants t)))"

definition soft_delete_images :: "time \<Rightarrow> int list \<Rightarrow> db \<Rightarrow> int \<times> db" where
  "soft_delete_images now ids d =
     (let P = (\<lambda>i. img_id i \<in> set ids \<and> img_deleted_at i = None)
      in if ids = [] then (0, d)
         else (affected P (db_images d), d\<lparr>db_images := upd P (\<lambda>i. i\<lparr>img_deleted_at := Some now\<rparr>) (db_images d)\<rparr>))"

definition soft_delete_assets :: "time \<Rightarrow> int list \<Rightarrow> asset_tables \<Rightarrow> int \<times> asset_tables" where
  "soft_delete_assets now ids t =
     (let P = (\<lambda>a. as_id a \<in> set ids \<and> as_deleted_at a = None)
      in if ids = [] then (0, t)
         else (affected P (at_assets t), t\<lparr>at_assets := upd P (\<lambda>a. a\<lparr>as_deleted_at := Some now\<rparr>) (at_assets t)\<rparr>))"

section \<open>The service\<close>

definition default_cleanup_retention_days :: int where "default_cleanup_retention_days = 180"
definition min_cleanup_retention_days :: int where "min_cleanup_retention_days = 30"
definition max_cleanup_retention_days :: int where "max_cleanup_retention_days = 3650"
definition setting_key_cleanup_enabled :: string where "setting_key_cleanup_enabled = ''cleanup_enabled''"
definition setting_key_cleanup_retention_days :: string where "setting_key_cleanup_retention_days = ''cleanup_retention_days''"

text \<open>The calls of one run; those of a sweep carry the number of the round.\<close>

datatype cleanup_call = ListImages nat | DropImages nat | ListAssets nat | VariantKeys nat | DropAssets nat

record 's cleanup_env =
  ce_store :: "'s object_store"
  ce_settings :: settings
  ce_now :: time
  ce_db_now :: "cleanup_call \<Rightarrow> time"
  ce_batch_limit :: nat
  ce_done :: "cleanup_call \<Rightarrow> go_error option"
  ce_meanwhile :: "cleanup_call \<Rightarrow> 's yard \<Rightarrow> 's yard"
  ce_fails :: "cleanup_call \<Rightarrow> go_error option"

record cleanup_report =
  cr_ran :: bool
  cr_skip_reason :: string
  cr_images_deleted :: int
  cr_assets_deleted :: int
  cr_bytes_freed :: int
  cr_file_errors :: int

definition empty_report :: cleanup_report where
  "empty_report = \<lparr>cr_ran = False, cr_skip_reason = [], cr_images_deleted = 0, cr_assets_deleted = 0, cr_bytes_freed = 0,
     cr_file_errors = 0\<rparr>"

definition cleanup_repo :: "'s cleanup_env \<Rightarrow> cleanup_call \<Rightarrow> ('s yard \<Rightarrow> 'a \<times> 's yard) \<Rightarrow> 's yard \<Rightarrow> (go_error + 'a) \<times> 's yard" where
  "cleanup_repo e p f y = repo_call (ce_meanwhile e) (ce_fails e) p (\<lambda>y. Inr (f y)) y"

text \<open>\<open>json.Unmarshal\<close> into a bool.\<close>

fun unmarshal_bool :: "json \<Rightarrow> bool option" where
  "unmarshal_bool JNull = Some False"
| "unmarshal_bool (JBool b) = Some b"
| "unmarshal_bool v = None"

definition read_enabled :: "settings \<Rightarrow> go_error + bool" where
  "read_enabled get =
     (case get setting_key_cleanup_enabled of
        Inl err \<Rightarrow> if errors_is err ErrNotFound then Inr False else Inl err
      | Inr None \<Rightarrow> Inr False
      | Inr (Some v) \<Rightarrow> (case unmarshal_bool v of None \<Rightarrow> Inr False | Some b \<Rightarrow> Inr b))"

text \<open>No days at all means that the run does nothing.\<close>

definition read_retention_days :: "settings \<Rightarrow> go_error + int option" where
  "read_retention_days get =
     (case get setting_key_cleanup_retention_days of
        Inl err \<Rightarrow> if errors_is err ErrNotFound then Inr (Some default_cleanup_retention_days) else Inl err
      | Inr None \<Rightarrow> Inr (Some default_cleanup_retention_days)
      | Inr (Some v) \<Rightarrow>
        (case unmarshal_int v of
           None \<Rightarrow> Inr None
         | Some n \<Rightarrow> if n < min_cleanup_retention_days \<or> n > max_cleanup_retention_days then Inr None else Inr (Some n)))"

text \<open>The files of one batch: the candidates whose files are gone, their bytes, and the failures.\<close>

fun delete_image_files :: "'s object_store \<Rightarrow> cleanup_candidate list \<Rightarrow> 's \<Rightarrow> (int list \<times> int \<times> int) \<times> 's" where
  "delete_image_files st [] s = (([], 0, 0), s)"
| "delete_image_files st (c # cs) s =
     (case os_delete st (cc_object_key c) s of
        (Some err, s) \<Rightarrow>
          (case delete_image_files st cs s of ((ids, b, errs), s) \<Rightarrow> ((ids, b, errs + 1), s))
      | (None, s) \<Rightarrow>
          (case delete_image_files st cs s of ((ids, b, errs), s) \<Rightarrow> ((cc_id c # ids, wrap64 (cc_byte_size c + b), errs), s)))"

text \<open>All files of a photo, its padded copies first; it stops at the first failure.\<close>

fun delete_keys :: "'s object_store \<Rightarrow> string list \<Rightarrow> 's \<Rightarrow> bool \<times> 's" where
  "delete_keys st [] s = (True, s)"
| "delete_keys st (k # ks) s =
     (case os_delete st k s of (Some err, s) \<Rightarrow> (False, s) | (None, s) \<Rightarrow> delete_keys st ks s)"

definition delete_asset_files :: "'s object_store \<Rightarrow> cleanup_candidate \<Rightarrow> string list \<Rightarrow> 's \<Rightarrow> bool \<times> 's" where
  "delete_asset_files st c variant_keys s = delete_keys st (variant_keys @ [cc_object_key c]) s"

fun delete_all_asset_files ::
  "'s object_store \<Rightarrow> (int \<Rightarrow> string list) \<Rightarrow> cleanup_candidate list \<Rightarrow> 's \<Rightarrow> (int list \<times> int \<times> int) \<times> 's" where
  "delete_all_asset_files st keys [] s = (([], 0, 0), s)"
| "delete_all_asset_files st keys (c # cs) s =
     (case delete_asset_files st c (keys (cc_id c)) s of
        (False, s) \<Rightarrow>
          (case delete_all_asset_files st keys cs s of ((ids, b, errs), s) \<Rightarrow> ((ids, b, errs + 1), s))
      | (True, s) \<Rightarrow>
          (case delete_all_asset_files st keys cs s of ((ids, b, errs), s) \<Rightarrow>
             ((cc_id c # ids, wrap64 (cc_byte_size c + b), errs), s)))"

text \<open>One round of a sweep: \<open>Some\<close> of the outcome when the sweep ends here, and the report and state.\<close>

definition image_round ::
  "'s cleanup_env \<Rightarrow> time \<Rightarrow> nat \<Rightarrow> cleanup_report \<Rightarrow> 's yard \<Rightarrow> go_error option option \<times> cleanup_report \<times> 's yard" where
  "image_round e cutoff n rep y =
     (case ce_done e (ListImages n) of
        Some err \<Rightarrow> (Some (Some err), rep, y)
      | None \<Rightarrow>
        (case cleanup_repo e (ListImages n)
                (\<lambda>y. (list_expired_images (ce_db_now e (ListImages n)) cutoff (ce_batch_limit e) (yd_db y), y)) y of
           (Inl err, y) \<Rightarrow> (Some (Some err), rep, y)
         | (Inr batch, y) \<Rightarrow>
           if batch = [] then (Some None, rep, y)
           else
             (case delete_image_files (ce_store e) batch (yd_store y) of
                ((ids, b, errs), s) \<Rightarrow>
                  (let rep = rep\<lparr>cr_file_errors := cr_file_errors rep + errs\<rparr>; y = y\<lparr>yd_store := s\<rparr>
                   in case cleanup_repo e (DropImages n)
                             (\<lambda>y. (case soft_delete_images (ce_db_now e (DropImages n)) ids (yd_db y) of
                                     (k, d) \<Rightarrow> (k, y\<lparr>yd_db := d\<rparr>))) y of
                        (Inl err, y) \<Rightarrow> (Some (Some err), rep, y)
                      | (Inr deleted, y) \<Rightarrow>
                        (let rep = rep\<lparr>cr_images_deleted := cr_images_deleted rep + deleted,
                                       cr_bytes_freed := wrap64 (cr_bytes_freed rep + b)\<rparr>
                         in (if length batch < ce_batch_limit e \<or> deleted = 0 then Some None else None, rep, y))))))"

partial_function (option) sweep_images ::
  "'s cleanup_env \<Rightarrow> time \<Rightarrow> nat \<Rightarrow> cleanup_report \<Rightarrow> 's yard \<Rightarrow> (go_error option \<times> cleanup_report \<times> 's yard) option" where
  "sweep_images e cutoff n rep y =
     (case image_round e cutoff n rep y of
        (Some outcome, rep, y) \<Rightarrow> Some (outcome, rep, y)
      | (None, rep, y) \<Rightarrow> sweep_images e cutoff (Suc n) rep y)"

definition asset_round ::
  "'s cleanup_env \<Rightarrow> time \<Rightarrow> nat \<Rightarrow> cleanup_report \<Rightarrow> 's yard \<Rightarrow> go_error option option \<times> cleanup_report \<times> 's yard" where
  "asset_round e cutoff n rep y =
     (case ce_done e (ListAssets n) of
        Some err \<Rightarrow> (Some (Some err), rep, y)
      | None \<Rightarrow>
        (case cleanup_repo e (ListAssets n)
                (\<lambda>y. (list_expired_assets cutoff (ce_batch_limit e) (yd_db y) (yd_tables y), y)) y of
           (Inl err, y) \<Rightarrow> (Some (Some err), rep, y)
         | (Inr batch, y) \<Rightarrow>
           if batch = [] then (Some None, rep, y)
           else
             (case cleanup_repo e (VariantKeys n) (\<lambda>y. (list_variant_keys (map cc_id batch) (yd_tables y), y)) y of
                (Inl err, y) \<Rightarrow> (Some (Some err), rep, y)
              | (Inr keys, y) \<Rightarrow>
                (case delete_all_asset_files (ce_store e) keys batch (yd_store y) of
                   ((ids, b, errs), s) \<Rightarrow>
                     (let rep = rep\<lparr>cr_file_errors := cr_file_errors rep + errs\<rparr>; y = y\<lparr>yd_store := s\<rparr>
                      in case cleanup_repo e (DropAssets n)
                                (\<lambda>y. (case soft_delete_assets (ce_db_now e (DropAssets n)) ids (yd_tables y) of
                                        (k, t) \<Rightarrow> (k, y\<lparr>yd_tables := t\<rparr>))) y of
                           (Inl err, y) \<Rightarrow> (Some (Some err), rep, y)
                         | (Inr deleted, y) \<Rightarrow>
                           (let rep = rep\<lparr>cr_assets_deleted := cr_assets_deleted rep + deleted,
                                          cr_bytes_freed := wrap64 (cr_bytes_freed rep + b)\<rparr>
                            in (if length batch < ce_batch_limit e \<or> deleted = 0 then Some None else None, rep, y)))))))"

partial_function (option) sweep_assets ::
  "'s cleanup_env \<Rightarrow> time \<Rightarrow> nat \<Rightarrow> cleanup_report \<Rightarrow> 's yard \<Rightarrow> (go_error option \<times> cleanup_report \<times> 's yard) option" where
  "sweep_assets e cutoff n rep y =
     (case asset_round e cutoff n rep y of
        (Some outcome, rep, y) \<Rightarrow> Some (outcome, rep, y)
      | (None, rep, y) \<Rightarrow> sweep_assets e cutoff (Suc n) rep y)"

text \<open>\<open>RunOnce\<close>: an error without a report, or a report with the error that ended the run early.\<close>

definition cleanup_cutoff :: "'s cleanup_env \<Rightarrow> int \<Rightarrow> time" where
  "cleanup_cutoff e days = ce_now e - wrap64 (days * 24 * hour)"

definition run_cleanup ::
  "'s cleanup_env \<Rightarrow> 's yard \<Rightarrow> ((go_error + cleanup_report \<times> go_error option) \<times> 's yard) option" where
  "run_cleanup e y =
     (case read_enabled (ce_settings e) of
        Inl err \<Rightarrow> Some (Inl err, y)
      | Inr False \<Rightarrow> Some (Inr (empty_report\<lparr>cr_skip_reason := (bytes [229, 188, 128, 229, 133, 179, 229, 133, 179, 231, 157, 128])\<rparr>, None), y)
      | Inr True \<Rightarrow>
        (case read_retention_days (ce_settings e) of
           Inl err \<Rightarrow> Some (Inl err, y)
         | Inr None \<Rightarrow> Some (Inr (empty_report\<lparr>cr_skip_reason := (bytes [228, 191, 157, 231, 149, 153, 229, 164, 169, 230, 149, 176, 228, 184, 141, 229, 156, 168,
      229, 133, 129, 232, 174, 184, 232, 140, 131, 229, 155, 180, 229, 134, 133, 239, 188, 140,
      232, 191, 153, 228, 184, 128, 232, 189, 174, 230, 178, 161, 230, 156, 137, 230, 184, 133,
      231, 144, 134])\<rparr>, None), y)
         | Inr (Some days) \<Rightarrow>
           (case sweep_images e (cleanup_cutoff e days) 0 (empty_report\<lparr>cr_ran := True\<rparr>) y of
              None \<Rightarrow> None
            | Some (Some err, rep, y) \<Rightarrow> Some (Inr (rep, Some err), y)
            | Some (None, rep, y) \<Rightarrow>
              (case sweep_assets e (cleanup_cutoff e days) 0 rep y of
                 None \<Rightarrow> None
               | Some (outcome, rep, y) \<Rightarrow> Some (Inr (rep, outcome), y)))))"

text \<open>\<open>formatBytes\<close>: one decimal, rounded to the even neighbour when it lies in the middle, as \<open>fmt\<close> rounds the
  exact quotient by a power of two.\<close>

definition one_decimal :: "int \<Rightarrow> int \<Rightarrow> string" where
  "one_decimal n u =
     (let q = 10 * n div u; r = 10 * n mod u; t = (if 2 * r > u \<or> (2 * r = u \<and> odd q) then q + 1 else q)
      in itoa (t div 10) @ ''.'' @ itoa (t mod 10))"

definition format_bytes :: "int \<Rightarrow> string" where
  "format_bytes n =
     (if n \<ge> 1073741824 then one_decimal n 1073741824 @ '' GB''
      else if n \<ge> 1048576 then one_decimal n 1048576 @ '' MB''
      else if n \<ge> 1024 then one_decimal n 1024 @ '' KB''
      else itoa n @ '' B'')"

end
