(* ===== verification/Cleanup_Guarantees.thy ===== *)
theory Cleanup_Guarantees
  imports Cleanup Asset_Guarantees Scenario
begin

text \<open>
  What the clean-up guarantees. Both sweeps are the same loop: \<open>sweep_loop\<close> shows that a loop whose
  rounds make something smaller ends, and carries a relation from the rounds to the whole loop. Its
  interpretations give the end of a sweep while other processes keep working, and, for a run that is
  not disturbed, which files and rows it may touch.
\<close>

section \<open>A loop of rounds\<close>

locale sweep_loop =
  fixes round :: "nat \<Rightarrow> 'r \<Rightarrow> 'y \<Rightarrow> 'o option \<times> 'r \<times> 'y"
    and loop :: "nat \<Rightarrow> 'r \<Rightarrow> 'y \<Rightarrow> ('o \<times> 'r \<times> 'y) option"
    and inv :: "'y \<Rightarrow> bool" and rest :: "'y \<Rightarrow> nat" and R :: "'y \<Rightarrow> 'y \<Rightarrow> bool"
  assumes loop_eq: "loop n r y = (case round n r y of
        (Some outcome, r, y) \<Rightarrow> Some (outcome, r, y) | (None, r, y) \<Rightarrow> loop (Suc n) r y)"
    and round_ok: "inv y \<Longrightarrow> round n r y = (x, r', y') \<Longrightarrow> inv y' \<and> R y y' \<and> (x = None \<longrightarrow> rest y' < rest y)"
    and R_trans: "R a b \<Longrightarrow> R b c \<Longrightarrow> R a c"
begin

lemma loop_ends: "inv y \<Longrightarrow> \<exists>outcome r' y'. loop n r y = Some (outcome, r', y') \<and> inv y' \<and> R y y'"
proof (induction "rest y" arbitrary: n r y rule: less_induct)
  case less
  obtain x r1 y1 where round: "round n r y = (x, r1, y1)" by (metis prod_cases3)
  note ok = round_ok[OF less.prems round]
  show ?case
  proof (cases x)
    case None
    with ok less.hyps[of y1 "Suc n" r1] obtain outcome r' y' where
      "loop (Suc n) r1 y1 = Some (outcome, r', y')" "inv y'" "R y1 y'" by blast
    with None round ok R_trans[of y y1 y'] show ?thesis by (subst loop_eq) auto
  next
    case (Some outcome)
    with round ok show ?thesis by (subst loop_eq) auto
  qed
qed

end

section \<open>Both sweeps end\<close>

text \<open>
  A sweep looks for rows that are due by their own columns (the jobs that keep a row may come and go).
  All that the other processes must respect is that no row becomes due while the sweep runs: a new row
  is younger than the cutoff. \<open>N\<close> is a time after every \<open>NOW()\<close> of the run.
\<close>

definition due_ids :: "('r \<Rightarrow> int) \<Rightarrow> ('r \<Rightarrow> bool) \<Rightarrow> 'r list \<Rightarrow> int set" where
  "due_ids ident due rows = ident ` {r \<in> set rows. due r}"

definition image_due :: "time \<Rightarrow> time \<Rightarrow> image \<Rightarrow> bool" where
  "image_due cutoff N i \<longleftrightarrow> img_deleted_at i = None \<and>
     (img_created_at i < cutoff \<or> (case img_expires_at i of None \<Rightarrow> False | Some t \<Rightarrow> t < N))"

definition asset_due :: "time \<Rightarrow> asset \<Rightarrow> bool" where
  "asset_due cutoff a \<longleftrightarrow> as_deleted_at a = None \<and> as_created_at a < cutoff"

abbreviation due_images :: "time \<Rightarrow> time \<Rightarrow> 's yard \<Rightarrow> int set" where
  "due_images cutoff N y \<equiv> due_ids img_id (image_due cutoff N) (db_images (yd_db y))"

abbreviation due_assets :: "time \<Rightarrow> 's yard \<Rightarrow> int set" where
  "due_assets cutoff y \<equiv> due_ids as_id (asset_due cutoff) (at_assets (yd_tables y))"

definition nothing_becomes_due :: "'s cleanup_env \<Rightarrow> time \<Rightarrow> time \<Rightarrow> bool" where
  "nothing_becomes_due e cutoff N \<longleftrightarrow> (\<forall>p. ce_db_now e p \<le> N) \<and>
     (\<forall>p y. due_images cutoff N (ce_meanwhile e p y) \<subseteq> due_images cutoff N y \<and>
            due_assets cutoff (ce_meanwhile e p y) \<subseteq> due_assets cutoff y)"

lemma finite_due [simp]: "finite (due_ids ident due rows)"
  by (simp add: due_ids_def)

lemma marking_shrinks:
  fixes rows' :: "'r list"
  assumes due: "\<And>r. due r \<Longrightarrow> live r" and mark: "\<And>r. ident (mark r) = ident r \<and> \<not> live (mark r)"
    and rows': "due_ids ident due rows' \<subseteq> A" and ids: "set ids \<subseteq> A" and A: "finite A"
    and some: "affected (\<lambda>r. ident r \<in> set ids \<and> live r) rows' \<noteq> 0"
  shows "card (due_ids ident due (upd (\<lambda>r. ident r \<in> set ids \<and> live r) mark rows')) < card A"
proof -
  let ?P = "\<lambda>r. ident r \<in> set ids \<and> live r"
  from some obtain r where r: "ident r \<in> set ids" by (auto simp: affected_eq_0)
  have "due_ids ident due (upd ?P mark rows') \<subseteq> due_ids ident due rows' - set ids"
    using due mark by (auto simp: due_ids_def set_upd split: if_splits)
  with r rows' ids have "due_ids ident due (upd ?P mark rows') \<subset> A" by blast
  with A show ?thesis by (rule psubset_card_mono)
qed

lemma cleanup_repo_done: "cleanup_repo e p f y = (Inr a, y') \<Longrightarrow> f (ce_meanwhile e p y) = (a, y')"
  by (auto simp: cleanup_repo_def repo_call_def Let_def split: option.splits prod.splits)

lemma cleanup_repo_failed: "cleanup_repo e p f y = (Inl err, y') \<Longrightarrow> y' = ce_meanwhile e p y"
  by (auto simp: cleanup_repo_def repo_call_def Let_def split: option.splits prod.splits)

lemma image_files_listed: "delete_image_files st cs s = ((ids, b, errs), s') \<Longrightarrow> set ids \<subseteq> cc_id ` set cs"
  by (induction cs arbitrary: s ids b errs s') (fastforce split: prod.splits option.splits)+

lemma asset_files_listed: "delete_all_asset_files st keys cs s = ((ids, b, errs), s') \<Longrightarrow> set ids \<subseteq> cc_id ` set cs"
  by (induction cs arbitrary: s ids b errs s') (fastforce split: prod.splits bool.splits)+

text \<open>The ids of a batch belong to rows that are due.\<close>

lemma listed_images:
  "c \<in> set (list_expired_images now cutoff limit d) \<Longrightarrow>
   \<exists>i \<in> set (db_images d). cc_id c = img_id i \<and> cc_object_key c = img_object_key i \<and> image_expired now cutoff d i"
  by (force simp: list_expired_images_def dest: in_set_takeD)

lemma listed_assets:
  "c \<in> set (list_expired_assets cutoff limit d t) \<Longrightarrow>
   \<exists>a \<in> set (at_assets t). cc_id c = as_id a \<and> cc_object_key c = as_object_key a \<and> asset_expired cutoff d a"
  by (force simp: list_expired_assets_def dest: in_set_takeD)

lemma expired_image_due: "image_expired now cutoff d i \<Longrightarrow> now \<le> N \<Longrightarrow> image_due cutoff N i"
  by (auto simp: image_expired_def image_due_def split: option.splits)

lemma expired_asset_due: "asset_expired cutoff d a \<Longrightarrow> asset_due cutoff a"
  by (simp add: asset_expired_def asset_due_def)

lemma images_of_batch:
  "delete_image_files st (list_expired_images now cutoff limit d) s = ((ids, b, errs), s') \<Longrightarrow> now \<le> N \<Longrightarrow>
   set ids \<subseteq> due_ids img_id (image_due cutoff N) (db_images d)"
  by (fastforce simp: due_ids_def dest: image_files_listed listed_images expired_image_due)

lemma assets_of_batch:
  "delete_all_asset_files st keys (list_expired_assets cutoff limit d t) s = ((ids, b, errs), s') \<Longrightarrow>
   set ids \<subseteq> due_ids as_id (asset_due cutoff) (at_assets t)"
  by (fastforce simp: due_ids_def dest: asset_files_listed listed_assets expired_asset_due)

text \<open>The ways out of a round.\<close>

lemma image_round_cases:
  assumes "image_round e cutoff n rep y = (x, r', y')"
  obtains (early) "x \<noteq> None" "y' = y \<or> y' = ce_meanwhile e (ListImages n) y"
  | (batch) y1 batch ids b errs s y2 where "y1 = ce_meanwhile e (ListImages n) y"
      "batch = list_expired_images (ce_db_now e (ListImages n)) cutoff (ce_batch_limit e) (yd_db y1)"
      "delete_image_files (ce_store e) batch (yd_store y1) = ((ids, b, errs), s)"
      "y2 = ce_meanwhile e (DropImages n) (y1\<lparr>yd_store := s\<rparr>)"
      "(x \<noteq> None \<and> y' = y2) \<or> (\<exists>k d. soft_delete_images (ce_db_now e (DropImages n)) ids (yd_db y2) = (k, d) \<and>
         y' = y2\<lparr>yd_db := d\<rparr> \<and> (x = None \<longrightarrow> k \<noteq> 0))"
  using assms
  by (auto simp: image_round_def Let_def dest!: cleanup_repo_done cleanup_repo_failed
        split: option.splits sum.splits prod.splits if_splits)

lemma asset_round_cases:
  assumes "asset_round e cutoff n rep y = (x, r', y')"
  obtains (early) y1 where "x \<noteq> None" "y1 = ce_meanwhile e (ListAssets n) y"
      "y' = y \<or> y' = y1 \<or> y' = ce_meanwhile e (VariantKeys n) y1"
  | (batch) y1 batch y2 ids b errs s y3 where "y1 = ce_meanwhile e (ListAssets n) y"
      "batch = list_expired_assets cutoff (ce_batch_limit e) (yd_db y1) (yd_tables y1)"
      "y2 = ce_meanwhile e (VariantKeys n) y1"
      "delete_all_asset_files (ce_store e) (list_variant_keys (map cc_id batch) (yd_tables y2)) batch (yd_store y2) = ((ids, b, errs), s)"
      "y3 = ce_meanwhile e (DropAssets n) (y2\<lparr>yd_store := s\<rparr>)"
      "(x \<noteq> None \<and> y' = y3) \<or> (\<exists>k t. soft_delete_assets (ce_db_now e (DropAssets n)) ids (yd_tables y3) = (k, t) \<and>
         y' = y3\<lparr>yd_tables := t\<rparr> \<and> (x = None \<longrightarrow> k \<noteq> 0))"
  using assms
  by (auto simp: asset_round_def Let_def dest!: cleanup_repo_done cleanup_repo_failed
        split: option.splits sum.splits prod.splits if_splits)

lemma image_round_shrinks:
  assumes calm: "nothing_becomes_due e cutoff N" and run: "image_round e cutoff n rep y = (None, r', y')"
  shows "card (due_images cutoff N y') < card (due_images cutoff N y)"
  using run
proof (cases rule: image_round_cases)
  case (batch y1 batch ids b errs s y2)
  have rely: "due_images cutoff N (ce_meanwhile e p z) \<subseteq> due_images cutoff N z" for p z
    using calm by (simp add: nothing_becomes_due_def)
  have "set ids \<subseteq> due_images cutoff N y1"
    using images_of_batch[OF batch(3)[unfolded batch(2)]] calm by (simp add: nothing_becomes_due_def)
  with rely batch(1) have ids: "set ids \<subseteq> due_images cutoff N y" by blast
  have "due_images cutoff N y2 \<subseteq> due_images cutoff N (y1\<lparr>yd_store := s\<rparr>)" unfolding batch(4) by (rule rely)
  with rely batch(1) have "due_images cutoff N y2 \<subseteq> due_images cutoff N y" by auto
  from marking_shrinks[OF _ _ this ids, where live = "\<lambda>i. img_deleted_at i = None"
      and mark = "\<lambda>i. i\<lparr>img_deleted_at := Some (ce_db_now e (DropImages n))\<rparr>"] batch(5)
  show ?thesis by (auto simp: soft_delete_images_def Let_def image_due_def split: if_splits)
qed simp

lemma asset_round_shrinks:
  assumes calm: "nothing_becomes_due e cutoff N" and run: "asset_round e cutoff n rep y = (None, r', y')"
  shows "card (due_assets cutoff y') < card (due_assets cutoff y)"
  using run
proof (cases rule: asset_round_cases)
  case (batch y1 batch y2 ids b errs s y3)
  have rely: "due_assets cutoff (ce_meanwhile e p z) \<subseteq> due_assets cutoff z" for p z
    using calm by (simp add: nothing_becomes_due_def)
  have "set ids \<subseteq> due_assets cutoff y1" using assets_of_batch[OF batch(4)[unfolded batch(2)]] .
  with rely batch(1) have ids: "set ids \<subseteq> due_assets cutoff y" by blast
  have "due_assets cutoff y3 \<subseteq> due_assets cutoff (y2\<lparr>yd_store := s\<rparr>)" unfolding batch(5) by (rule rely)
  with rely[of "VariantKeys n" y1] rely[of "ListAssets n" y] batch(1,3) have "due_assets cutoff y3 \<subseteq> due_assets cutoff y" by simp
  from marking_shrinks[OF _ _ this ids, where live = "\<lambda>a. as_deleted_at a = None"
      and mark = "\<lambda>a. a\<lparr>as_deleted_at := Some (ce_db_now e (DropAssets n))\<rparr>"] batch(6)
  show ?thesis by (auto simp: soft_delete_assets_def Let_def asset_due_def split: if_splits)
qed simp

interpretation image_sweep: sweep_loop "image_round e cutoff" "sweep_images e cutoff"
    "\<lambda>y. nothing_becomes_due e cutoff N" "\<lambda>y. card (due_images cutoff N y)" "\<lambda>y y'. True" for e cutoff N
  by unfold_locales (auto simp: sweep_images.simps[of e cutoff] image_round_shrinks)

interpretation asset_sweep: sweep_loop "asset_round e cutoff" "sweep_assets e cutoff"
    "\<lambda>y. nothing_becomes_due e cutoff N" "\<lambda>y. card (due_assets cutoff y)" "\<lambda>y y'. True" for e cutoff N
  by unfold_locales (auto simp: sweep_assets.simps[of e cutoff] asset_round_shrinks)

text \<open>C14: A clean-up run returns, whatever the size of the tables and the limit of a batch, while jobs and uploads go
  on, as long as no row becomes due during the run: each further round was entered because the last one marked a
  row as deleted.\<close>

theorem cleanup_run_ends:
  assumes calm: "\<And>days. read_retention_days (ce_settings e) = Inr (Some days) \<Longrightarrow> nothing_becomes_due e (cleanup_cutoff e days) N"
  shows "\<exists>answer y'. run_cleanup e y = Some (answer, y')"
proof (cases "\<exists>days. read_enabled (ce_settings e) = Inr True \<and> read_retention_days (ce_settings e) = Inr (Some days)")
  case True
  then obtain days where on: "read_enabled (ce_settings e) = Inr True" and days: "read_retention_days (ce_settings e) = Inr (Some days)"
    by blast
  obtain out r1 y1 where images: "sweep_images e (cleanup_cutoff e days) 0 (empty_report\<lparr>cr_ran := True\<rparr>) y = Some (out, r1, y1)"
    using image_sweep.loop_ends[OF calm[OF days]] by blast
  obtain out' r2 y2 where "sweep_assets e (cleanup_cutoff e days) 0 r1 y1 = Some (out', r2, y2)"
    using asset_sweep.loop_ends[OF calm[OF days]] by blast
  with images on days show ?thesis by (cases out) (simp_all add: run_cleanup_def)
qed (auto simp: run_cleanup_def split: sum.splits bool.splits option.splits)

section \<open>What an undisturbed run may touch\<close>

definition asset_files :: "asset_tables \<Rightarrow> asset \<Rightarrow> string set" where
  "asset_files t a = insert (as_object_key a) (av_object_key ` {v \<in> set (at_variants t). av_asset_id v = as_id a})"

definition image_out :: "'s cleanup_env \<Rightarrow> time \<Rightarrow> db \<Rightarrow> image \<Rightarrow> bool" where
  "image_out e cutoff d i \<longleftrightarrow> (\<exists>p. image_expired (ce_db_now e p) cutoff d i)"

definition image_files :: "image \<Rightarrow> string set" where
  "image_files i = {img_object_key i}"

text \<open>A row is left alone, or it was expired and is now marked, and then none of its files is left.\<close>

definition marked_or_same :: "('r \<Rightarrow> bool) \<Rightarrow> (time \<Rightarrow> 'r \<Rightarrow> 'r) \<Rightarrow> ('r \<Rightarrow> string set) \<Rightarrow> (string \<Rightarrow> string option) \<Rightarrow> 'r \<Rightarrow> 'r \<Rightarrow> bool" where
  "marked_or_same out mark files now r r' \<longleftrightarrow> r' = r \<or> out r \<and> (\<exists>t. r' = mark t r) \<and> (\<forall>k \<in> files r. now k = None)"

definition mark_image :: "time \<Rightarrow> image \<Rightarrow> image" where "mark_image t i = i\<lparr>img_deleted_at := Some t\<rparr>"
definition mark_asset :: "time \<Rightarrow> asset \<Rightarrow> asset" where "mark_asset t a = a\<lparr>as_deleted_at := Some t\<rparr>"

definition swept :: "('s \<Rightarrow> string \<Rightarrow> string option) \<Rightarrow> 's cleanup_env \<Rightarrow> time \<Rightarrow> 's yard \<Rightarrow> 's yard \<Rightarrow> bool" where
  "swept contents e cutoff y y' \<longleftrightarrow>
     yd_db y' = (yd_db y)\<lparr>db_images := db_images (yd_db y')\<rparr> \<and>
     yd_tables y' = (yd_tables y)\<lparr>at_assets := at_assets (yd_tables y')\<rparr> \<and>
     list_all2 (marked_or_same (image_out e cutoff (yd_db y)) mark_image image_files (contents (yd_store y')))
       (db_images (yd_db y)) (db_images (yd_db y')) \<and>
     list_all2 (marked_or_same (asset_expired cutoff (yd_db y)) mark_asset (asset_files (yd_tables y)) (contents (yd_store y')))
       (at_assets (yd_tables y)) (at_assets (yd_tables y')) \<and>
     (\<forall>k. contents (yd_store y') k = contents (yd_store y) k \<or>
        contents (yd_store y') k = None \<and>
          ((\<exists>i \<in> set (db_images (yd_db y)). image_out e cutoff (yd_db y) i \<and> k \<in> image_files i) \<or>
           (\<exists>a \<in> set (at_assets (yd_tables y)). asset_expired cutoff (yd_db y) a \<and> k \<in> asset_files (yd_tables y) a)))"

lemma busy_job_images [simp]: "busy_job (d\<lparr>db_images := x\<rparr>) = busy_job d"
  by (simp add: busy_job_def fun_eq_iff)

lemma image_out_images [simp]: "image_out e cutoff (d\<lparr>db_images := x\<rparr>) = image_out e cutoff d"
  by (simp add: image_out_def image_expired_def fun_eq_iff)

lemma asset_expired_images [simp]: "asset_expired cutoff (d\<lparr>db_images := x\<rparr>) = asset_expired cutoff d"
  by (simp add: asset_expired_def fun_eq_iff)

lemma asset_files_assets [simp]: "asset_files (t\<lparr>at_assets := x\<rparr>) = asset_files t"
  by (simp add: asset_files_def fun_eq_iff)

lemma not_out_again: "\<not> image_out e cutoff d (mark_image t i)" "\<not> asset_expired cutoff d (mark_asset t a)"
  by (simp_all add: image_out_def image_expired_def asset_expired_def mark_image_def mark_asset_def)

lemma marked_trans:
  assumes "marked_or_same out mark files now a b" and "marked_or_same out mark files later b c"
    and "\<And>t r. \<not> out (mark t r)" and "\<And>k. now k = None \<Longrightarrow> later k = None"
  shows "marked_or_same out mark files later a c"
  using assms unfolding marked_or_same_def by metis

lemma marked_rows_trans:
  assumes "list_all2 (marked_or_same out mark files now) a b" and "list_all2 (marked_or_same out mark files later) b c"
    and again: "\<And>t r. \<not> out (mark t r)" and gone: "\<And>k. now k = None \<Longrightarrow> later k = None"
  shows "list_all2 (marked_or_same out mark files later) a c"
proof (rule list_all2_trans[OF _ assms(1,2)])
  fix x y z assume "marked_or_same out mark files now x y" "marked_or_same out mark files later y z"
  then show "marked_or_same out mark files later x z" using again gone by (rule marked_trans)
qed

lemma marked_upd:
  "(\<And>r. r \<in> set rows \<Longrightarrow> P r \<Longrightarrow> out r \<and> (\<forall>k \<in> files r. now k = None)) \<Longrightarrow>
   list_all2 (marked_or_same out mark files now) rows (upd P (mark t) rows)"
  by (induction rows) (auto simp: marked_or_same_def)

lemma marked_refl [simp]: "list_all2 (marked_or_same out mark files now) rows rows"
  by (simp add: list_all2_same marked_or_same_def)

lemma marked_source:
  assumes "list_all2 (marked_or_same out mark files now) rows rows'" and "r \<in> set rows'" and "out r" and "\<And>t r. \<not> out (mark t r)"
  shows "r \<in> set rows"
  using assms by (auto simp: list_all2_conv_all_nth in_set_conv_nth marked_or_same_def) metis

lemma marked_kept:
  "list_all2 (marked_or_same out mark files now) rows rows' \<Longrightarrow> r \<in> set rows \<Longrightarrow> \<not> out r \<Longrightarrow> r \<in> set rows'"
  by (induction rule: list_all2_induct) (auto simp: marked_or_same_def)

lemma swept_refl: "swept contents e cutoff y y"
  by (simp add: swept_def)

lemma sweptD:
  assumes "swept contents e cutoff y y'"
  shows swept_images: "list_all2 (marked_or_same (image_out e cutoff (yd_db y)) mark_image image_files (contents (yd_store y')))
      (db_images (yd_db y)) (db_images (yd_db y'))"
    and swept_assets: "list_all2 (marked_or_same (asset_expired cutoff (yd_db y)) mark_asset (asset_files (yd_tables y)) (contents (yd_store y')))
      (at_assets (yd_tables y)) (at_assets (yd_tables y'))"
    and swept_db: "yd_db y' = (yd_db y)\<lparr>db_images := db_images (yd_db y')\<rparr>"
    and swept_tables: "yd_tables y' = (yd_tables y)\<lparr>at_assets := at_assets (yd_tables y')\<rparr>"
    and swept_store: "contents (yd_store y') k = contents (yd_store y) k \<or> contents (yd_store y') k = None \<and>
      ((\<exists>i \<in> set (db_images (yd_db y)). image_out e cutoff (yd_db y) i \<and> k \<in> image_files i) \<or>
       (\<exists>a \<in> set (at_assets (yd_tables y)). asset_expired cutoff (yd_db y) a \<and> k \<in> asset_files (yd_tables y) a))"
  using assms unfolding swept_def by blast+

lemma swept_same:
  assumes "swept contents e cutoff y y'"
  shows "image_out e cutoff (yd_db y') = image_out e cutoff (yd_db y)" "asset_expired cutoff (yd_db y') = asset_expired cutoff (yd_db y)"
    "asset_files (yd_tables y') = asset_files (yd_tables y)"
  using swept_db[OF assms] swept_tables[OF assms] by (metis image_out_images asset_expired_images asset_files_assets)+

lemma swept_gone: "swept contents e cutoff y y' \<Longrightarrow> contents (yd_store y) k = None \<Longrightarrow> contents (yd_store y') k = None"
  using swept_store[of contents e cutoff y y' k] by auto

lemma swept_trans:
  assumes ab: "swept contents e cutoff a b" and bc: "swept contents e cutoff b c"
  shows "swept contents e cutoff a c"
proof -
  note gone = swept_gone[OF bc]
  have "list_all2 (marked_or_same (image_out e cutoff (yd_db a)) mark_image image_files (contents (yd_store c)))
      (db_images (yd_db a)) (db_images (yd_db c))"
    using swept_images[OF ab] swept_images[OF bc, unfolded swept_same[OF ab]] not_out_again(1) gone by (rule marked_rows_trans)
  moreover have "list_all2 (marked_or_same (asset_expired cutoff (yd_db a)) mark_asset (asset_files (yd_tables a)) (contents (yd_store c)))
      (at_assets (yd_tables a)) (at_assets (yd_tables c))"
    using swept_assets[OF ab] swept_assets[OF bc, unfolded swept_same[OF ab]] not_out_again(2) gone by (rule marked_rows_trans)
  moreover have "i \<in> set (db_images (yd_db a))" if "i \<in> set (db_images (yd_db b))" "image_out e cutoff (yd_db a) i" for i
    using swept_images[OF ab] that not_out_again(1) by (rule marked_source)
  moreover have "i \<in> set (at_assets (yd_tables a))" if "i \<in> set (at_assets (yd_tables b))" "asset_expired cutoff (yd_db a) i" for i
    using swept_assets[OF ab] that not_out_again(2) by (rule marked_source)
  moreover have "yd_db c = (yd_db a)\<lparr>db_images := db_images (yd_db c)\<rparr>"
    by (subst swept_db[OF bc], subst swept_db[OF ab]) simp
  moreover have "yd_tables c = (yd_tables a)\<lparr>at_assets := at_assets (yd_tables c)\<rparr>"
    by (subst swept_tables[OF bc], subst swept_tables[OF ab]) simp
  moreover have "contents (yd_store c) k = contents (yd_store a) k \<or> contents (yd_store c) k = None \<and>
          ((\<exists>i \<in> set (db_images (yd_db a)). image_out e cutoff (yd_db a) i \<and> k \<in> image_files i) \<or>
           (\<exists>i \<in> set (at_assets (yd_tables a)). asset_expired cutoff (yd_db a) i \<and> k \<in> asset_files (yd_tables a) i))" for k
    using swept_store[OF ab, of k] swept_store[OF bc, of k, unfolded swept_same[OF ab]] gone[of k] calculation(3,4) by metis
  ultimately show ?thesis unfolding swept_def by blast
qed

text \<open>What the deletions of files do, over any store that keeps the laws.\<close>

definition pruned :: "('s \<Rightarrow> string \<Rightarrow> string option) \<Rightarrow> string set \<Rightarrow> 's \<Rightarrow> 's \<Rightarrow> bool" where
  "pruned contents ks s s' \<longleftrightarrow> (\<forall>k. contents s' k = contents s k \<or> contents s' k = None \<and> k \<in> ks)"

lemma pruned_trans: "pruned contents ks s s1 \<Longrightarrow> pruned contents ls s1 s2 \<Longrightarrow> pruned contents (ks \<union> ls) s s2"
  unfolding pruned_def by (metis UnCI)

lemma pruned_gone: "pruned contents ks s s' \<Longrightarrow> contents s k = None \<Longrightarrow> contents s' k = None"
  unfolding pruned_def by metis

context object_store_laws
begin

lemma delete_prunes: "good s \<Longrightarrow> os_delete st k s = (r, s') \<Longrightarrow> good s' \<and> pruned contents {k} s s' \<and> (r = None \<longrightarrow> contents s' k = None)"
  using delete_good[of s k r s'] delete_shrinks[of s k r s'] delete_done[of s k s'] by (auto simp: pruned_def)

lemma delete_keys_prunes:
  "good s \<Longrightarrow> delete_keys st ks s = (b, s') \<Longrightarrow> good s' \<and> pruned contents (set ks) s s' \<and> (b \<longrightarrow> (\<forall>k \<in> set ks. contents s' k = None))"
proof (induction ks arbitrary: s)
  case (Cons k ks)
  obtain r s1 where d: "os_delete st k s = (r, s1)" by (metis prod.exhaust)
  note first = delete_prunes[OF Cons.prems(1) d]
  show ?case
  proof (cases r)
    case None
    with Cons.prems d have "delete_keys st ks s1 = (b, s')" by simp
    with Cons.IH[of s1] first None show ?thesis
      using pruned_trans[of contents "{k}" s s1 "set ks" s'] pruned_gone[of contents "set ks" s1 s' k] by auto
  next
    case (Some err)
    with Cons.prems d first show ?thesis by (auto simp: pruned_def)
  qed
qed (simp add: pruned_def)

lemma image_files_pruned:
  "good s \<Longrightarrow> delete_image_files st cs s = ((ids, b, errs), s') \<Longrightarrow>
   good s' \<and> pruned contents (cc_object_key ` set cs) s s' \<and>
   (\<forall>x \<in> set ids. \<exists>c \<in> set cs. cc_id c = x \<and> contents s' (cc_object_key c) = None)"
proof (induction cs arbitrary: s ids b errs)
  case (Cons c cs)
  obtain r s1 where d: "os_delete st (cc_object_key c) s = (r, s1)" by (metis prod.exhaust)
  obtain ids1 b1 errs1 where rest: "delete_image_files st cs s1 = ((ids1, b1, errs1), s')"
    using Cons.prems(2) d by (auto split: prod.splits option.splits)
  note first = delete_prunes[OF Cons.prems(1) d]
  note later = Cons.IH[OF conjunct1[OF first] rest]
  have pruned: "pruned contents (cc_object_key ` set (c # cs)) s s'"
    using pruned_trans[of contents "{cc_object_key c}" s s1 "cc_object_key ` set cs" s'] first later by simp
  have ids: "x \<in> set ids \<Longrightarrow> x \<in> set ids1 \<or> r = None \<and> x = cc_id c" for x
    using Cons.prems(2) d rest by (auto split: option.splits)
  have gone: "r = None \<Longrightarrow> contents s' (cc_object_key c) = None"
    using first pruned_gone[OF conjunct1[OF conjunct2[OF later]]] by simp
  have "\<exists>c' \<in> set (c # cs). cc_id c' = x \<and> contents s' (cc_object_key c') = None" if "x \<in> set ids" for x
  proof (cases "x \<in> set ids1")
    case True
    with later obtain c' where "c' \<in> set cs" "cc_id c' = x" "contents s' (cc_object_key c') = None" by blast
    then show ?thesis by (intro bexI[of _ c']) simp_all
  next
    case False
    with ids[OF that] gone show ?thesis by (intro bexI[of _ c]) simp_all
  qed
  with pruned later show ?case by blast
qed (simp add: pruned_def)

lemma asset_files_pruned:
  "good s \<Longrightarrow> delete_all_asset_files st keys cs s = ((ids, b, errs), s') \<Longrightarrow>
   good s' \<and> pruned contents (\<Union>c \<in> set cs. set (keys (cc_id c) @ [cc_object_key c])) s s' \<and>
   (\<forall>x \<in> set ids. \<exists>c \<in> set cs. cc_id c = x \<and> (\<forall>k \<in> set (keys x @ [cc_object_key c]). contents s' k = None))"
proof (induction cs arbitrary: s ids b errs)
  case (Cons c cs)
  obtain ok s1 where d: "delete_asset_files st c (keys (cc_id c)) s = (ok, s1)" by (metis prod.exhaust)
  obtain ids1 b1 errs1 where rest: "delete_all_asset_files st keys cs s1 = ((ids1, b1, errs1), s')"
    using Cons.prems(2) d by (auto split: prod.splits bool.splits)
  note first = delete_keys_prunes[OF Cons.prems(1) d[unfolded delete_asset_files_def]]
  note later = Cons.IH[OF conjunct1[OF first] rest]
  have pruned: "pruned contents (\<Union>c \<in> set (c # cs). set (keys (cc_id c) @ [cc_object_key c])) s s'"
    using pruned_trans[of contents "set (keys (cc_id c) @ [cc_object_key c])" s s1
        "\<Union>c \<in> set cs. set (keys (cc_id c) @ [cc_object_key c])" s'] first later by simp
  have ids: "x \<in> set ids \<Longrightarrow> x \<in> set ids1 \<or> ok \<and> x = cc_id c" for x
    using Cons.prems(2) d rest by (auto split: bool.splits)
  have gone: "ok \<Longrightarrow> \<forall>k \<in> set (keys (cc_id c) @ [cc_object_key c]). contents s' k = None"
    using first pruned_gone[OF conjunct1[OF conjunct2[OF later]]] by simp
  have "\<exists>c' \<in> set (c # cs). cc_id c' = x \<and> (\<forall>k \<in> set (keys x @ [cc_object_key c']). contents s' k = None)"
    if "x \<in> set ids" for x
  proof (cases "x \<in> set ids1")
    case True
    with later obtain c' where "c' \<in> set cs" "cc_id c' = x" "\<forall>k \<in> set (keys x @ [cc_object_key c']). contents s' k = None" by blast
    then show ?thesis by (intro bexI[of _ c']) simp_all
  next
    case False
    with ids[OF that] gone show ?thesis by (intro bexI[of _ c]) simp_all
  qed
  with pruned later show ?case by blast
qed (simp add: pruned_def)

text \<open>So a round of an undisturbed sweep is a step of \<open>swept\<close>.\<close>

lemma image_round_swept:
  assumes st: "ce_store e = st" and still: "\<And>p y. ce_meanwhile e p y = y" and good: "good (yd_store y)"
    and dist: "distinct (map img_id (db_images (yd_db y)))" and run: "image_round e cutoff n rep y = (x, r', y')"
  shows "good (yd_store y') \<and> swept contents e cutoff y y'"
  using run
proof (cases rule: image_round_cases)
  case early
  with still good swept_refl show ?thesis by auto
next
  case (batch y1 batch ids b errs s y2)
  let ?rows = "db_images (yd_db y)" and ?P = "\<lambda>i. img_id i \<in> set ids \<and> img_deleted_at i = None"
  note files = image_files_pruned[OF good batch(3)[unfolded batch(1) still st]]
  have listed: "\<exists>i \<in> set ?rows. cc_id c = img_id i \<and> cc_object_key c = img_object_key i \<and> image_out e cutoff (yd_db y) i" if "c \<in> set batch" for c
    using listed_images that batch(1,2) still unfolding image_out_def by metis
  have row: "image_out e cutoff (yd_db y) i \<and> (\<forall>k \<in> image_files i. contents s k = None)" if i: "i \<in> set ?rows" "?P i" for i
  proof -
    from files i(2) obtain c where c: "c \<in> set batch" "cc_id c = img_id i" "contents s (cc_object_key c) = None" by blast
    from listed[OF c(1)] c(2) i(1) dist have "cc_object_key c = img_object_key i \<and> image_out e cutoff (yd_db y) i"
      by (metis eq_key_imp_eq_value distinct_map inj_onD)
    with c(3) show ?thesis by (simp add: image_files_def)
  qed
  have y': "yd_store y' = s" "yd_tables y' = yd_tables y" "yd_db y' = (yd_db y)\<lparr>db_images := db_images (yd_db y')\<rparr>"
    and upd: "\<exists>t. db_images (yd_db y') = ?rows \<or> db_images (yd_db y') = upd ?P (mark_image t) ?rows"
    using batch(1,4,5) still by (auto simp: soft_delete_images_def mark_image_def[abs_def] Let_def split: if_splits)
  have "list_all2 (marked_or_same (image_out e cutoff (yd_db y)) mark_image image_files (contents s)) ?rows (db_images (yd_db y'))"
    using upd marked_upd[of ?rows ?P, OF row] by auto
  moreover have "contents s k = contents (yd_store y) k \<or> contents s k = None \<and>
      (\<exists>i \<in> set ?rows. image_out e cutoff (yd_db y) i \<and> k \<in> image_files i)" for k
    using files listed unfolding pruned_def image_files_def by fastforce
  ultimately show ?thesis using files y' by (auto simp: swept_def)
qed

lemma asset_round_swept:
  assumes st: "ce_store e = st" and still: "\<And>p y. ce_meanwhile e p y = y" and good: "good (yd_store y)"
    and dist: "distinct (map as_id (at_assets (yd_tables y)))" and run: "asset_round e cutoff n rep y = (x, r', y')"
  shows "good (yd_store y') \<and> swept contents e cutoff y y'"
  using run
proof (cases rule: asset_round_cases)
  case early
  with still good swept_refl show ?thesis by auto
next
  case (batch y1 batch y2 ids b errs s y3)
  let ?rows = "at_assets (yd_tables y)" and ?P = "\<lambda>a. as_id a \<in> set ids \<and> as_deleted_at a = None"
  let ?keys = "list_variant_keys (map cc_id batch) (yd_tables y)"
  note files = asset_files_pruned[OF good batch(4)[unfolded batch(3) batch(1) still st]]
  have keys: "set (?keys (cc_id c) @ [as_object_key a]) = asset_files (yd_tables y) a" if "c \<in> set batch" "cc_id c = as_id a" for c a
    using that rev_image_eqI[OF that(1), of "as_id a" cc_id] by (auto simp: list_variant_keys_def asset_files_def)
  have listed: "\<exists>a \<in> set ?rows. cc_id c = as_id a \<and> cc_object_key c = as_object_key a \<and> asset_expired cutoff (yd_db y) a" if "c \<in> set batch" for c
    using listed_assets that batch(1,2) still by metis
  have row: "asset_expired cutoff (yd_db y) a \<and> (\<forall>k \<in> asset_files (yd_tables y) a. contents s k = None)" if a: "a \<in> set ?rows" "?P a" for a
  proof -
    from files a(2) obtain c where c: "c \<in> set batch" "cc_id c = as_id a" "\<forall>k \<in> set (?keys (as_id a) @ [cc_object_key c]). contents s k = None" by blast
    from listed[OF c(1)] c(2) a(1) dist have "cc_object_key c = as_object_key a \<and> asset_expired cutoff (yd_db y) a"
      by (metis eq_key_imp_eq_value distinct_map inj_onD)
    with c(3) keys[OF c(1,2)] c(2) show ?thesis by metis
  qed
  have y': "yd_store y' = s" "yd_db y' = yd_db y" "yd_tables y' = (yd_tables y)\<lparr>at_assets := at_assets (yd_tables y')\<rparr>"
    and upd: "\<exists>t. at_assets (yd_tables y') = ?rows \<or> at_assets (yd_tables y') = upd ?P (mark_asset t) ?rows"
    using batch(1,3,5,6) still by (auto simp: soft_delete_assets_def mark_asset_def[abs_def] Let_def split: if_splits)
  have "list_all2 (marked_or_same (asset_expired cutoff (yd_db y)) mark_asset (asset_files (yd_tables y)) (contents s)) ?rows (at_assets (yd_tables y'))"
    using upd marked_upd[of ?rows ?P, OF row] by auto
  moreover have "contents s k = contents (yd_store y) k \<or> contents s k = None \<and>
      (\<exists>a \<in> set ?rows. asset_expired cutoff (yd_db y) a \<and> k \<in> asset_files (yd_tables y) a)" for k
  proof (cases "contents s k = contents (yd_store y) k")
    case False
    with files obtain c where c: "c \<in> set batch" "k \<in> set (?keys (cc_id c) @ [cc_object_key c])" "contents s k = None"
      unfolding pruned_def by blast
    from listed[OF c(1)] obtain a where "a \<in> set ?rows" "cc_id c = as_id a" "cc_object_key c = as_object_key a" "asset_expired cutoff (yd_db y) a" by blast
    with keys[OF c(1)] c show ?thesis by metis
  qed simp
  ultimately show ?thesis using files y' by (auto simp: swept_def)
qed

end

text \<open>A run of its own over the local store: nothing else happens while it works.\<close>

definition runs_alone :: "string \<Rightarrow> (nat \<Rightarrow> io_env) \<Rightarrow> time \<Rightarrow> local_state cleanup_env \<Rightarrow> bool" where
  "runs_alone base env N e \<longleftrightarrow> ce_store e = local_store base env \<and> (\<forall>p y. ce_meanwhile e p y = y) \<and> (\<forall>p. ce_db_now e p \<le> N)"

definition tidy :: "string \<Rightarrow> local_state yard \<Rightarrow> bool" where
  "tidy base y \<longleftrightarrow> local_good base (yd_store y) \<and> distinct (map img_id (db_images (yd_db y))) \<and>
     distinct (map as_id (at_assets (yd_tables y)))"

lemma alone_calm: "runs_alone base env N e \<Longrightarrow> nothing_becomes_due e cutoff N"
  by (simp add: runs_alone_def nothing_becomes_due_def)

lemma marked_ids:
  "list_all2 (marked_or_same out mark files now) rows rows' \<Longrightarrow> (\<And>t r. ident (mark t r) = ident r) \<Longrightarrow> map ident rows' = map ident rows"
  by (induction rule: list_all2_induct) (auto simp: marked_or_same_def)

lemma swept_tidy: "tidy base y \<Longrightarrow> local_good base (yd_store y') \<Longrightarrow> swept contents e cutoff y y' \<Longrightarrow> tidy base y'"
  using marked_ids[OF swept_images, of contents e cutoff y y' img_id] marked_ids[OF swept_assets, of contents e cutoff y y' as_id]
  by (simp add: tidy_def mark_image_def mark_asset_def)

interpretation image_sweep_alone: sweep_loop "image_round e cutoff" "sweep_images e cutoff"
    "\<lambda>y. runs_alone base env N e \<and> tidy base y" "\<lambda>y. card (due_images cutoff N y)"
    "swept (local_contents base) e cutoff" for e cutoff base env N
proof (unfold_locales, goal_cases)
  case (1 n r y)
  show ?case by (rule sweep_images.simps)
next
  case (2 y n r x r' y')
  then have "local_good base (yd_store y') \<and> swept (local_contents base) e cutoff y y'"
    by (intro local.image_round_swept[where env = env]) (auto simp: runs_alone_def tidy_def)
  with 2 swept_tidy image_round_shrinks[OF alone_calm] show ?case by blast
qed (rule swept_trans)

interpretation asset_sweep_alone: sweep_loop "asset_round e cutoff" "sweep_assets e cutoff"
    "\<lambda>y. runs_alone base env N e \<and> tidy base y" "\<lambda>y. card (due_assets cutoff y)"
    "swept (local_contents base) e cutoff" for e cutoff base env N
proof (unfold_locales, goal_cases)
  case (1 n r y)
  show ?case by (rule sweep_assets.simps)
next
  case (2 y n r x r' y')
  then have "local_good base (yd_store y') \<and> swept (local_contents base) e cutoff y y'"
    by (intro local.asset_round_swept[where env = env]) (auto simp: runs_alone_def tidy_def)
  with 2 swept_tidy asset_round_shrinks[OF alone_calm] show ?case by blast
qed (rule swept_trans)

lemma cutoff_bound:
  "read_retention_days get = Inr (Some days) \<Longrightarrow> 30 \<le> days \<and> days \<le> 3650"
  by (auto simp: read_retention_days_def default_cleanup_retention_days_def min_cleanup_retention_days_def
      max_cleanup_retention_days_def split: sum.splits option.splits if_splits)

lemma cutoff_days: "read_retention_days (ce_settings e) = Inr (Some days) \<Longrightarrow> cleanup_cutoff e days = ce_now e - days * 24 * hour"
  using cutoff_bound[of "ce_settings e" days] by (simp add: cleanup_cutoff_def wrap64_id hour_def)

lemma swept_keeps_busy:
  assumes "swept contents e cutoff y y'"
  shows "i \<in> set (db_images (yd_db y)) \<Longrightarrow> busy_job (yd_db y) (img_job_id i) \<Longrightarrow> i \<in> set (db_images (yd_db y'))"
    and "a \<in> set (at_assets (yd_tables y)) \<Longrightarrow> cutoff \<le> as_created_at a \<or> (\<exists>it \<in> set (db_items (yd_db y)). it_asset_id it = Some (as_id a) \<and> busy_job (yd_db y) (it_job_id it))
      \<Longrightarrow> a \<in> set (at_assets (yd_tables y'))"
  using marked_kept[OF swept_images[OF assms], of i] marked_kept[OF swept_assets[OF assms], of a]
  by (auto simp: image_out_def image_expired_def asset_expired_def list_ex_iff)

text \<open>C13: A clean-up run that works alone over the local store ends. It either changed nothing, or the switch is on and
  the days of retention are valid (at least 30), and then: a row is unchanged, or it was expired, is now marked,
  and none of its files is left; a file is unchanged, or it belonged to such a row (a photo's padded copies
  included) and is gone; nothing else of the database changed. The pictures of unfinished jobs, the photos they
  use and the photos younger than the retention keep their rows as they were.\<close>

theorem cleanup_spares_the_rest:
  assumes alone: "runs_alone base env N e" and tidy: "tidy base y"
  shows "\<exists>answer y'. run_cleanup e y = Some (answer, y') \<and>
    (y' = y \<or> (\<exists>days. read_enabled (ce_settings e) = Inr True \<and> read_retention_days (ce_settings e) = Inr (Some days) \<and>
       30 \<le> days \<and> swept (local_contents base) e (ce_now e - days * 24 * hour) y y' \<and>
       (\<forall>i \<in> set (db_images (yd_db y)). busy_job (yd_db y) (img_job_id i) \<longrightarrow> i \<in> set (db_images (yd_db y'))) \<and>
       (\<forall>a \<in> set (at_assets (yd_tables y)).
          ce_now e - days * 24 * hour \<le> as_created_at a \<or>
          (\<exists>it \<in> set (db_items (yd_db y)). it_asset_id it = Some (as_id a) \<and> busy_job (yd_db y) (it_job_id it)) \<longrightarrow>
          a \<in> set (at_assets (yd_tables y')))))"
proof (cases "\<exists>days. read_enabled (ce_settings e) = Inr True \<and> read_retention_days (ce_settings e) = Inr (Some days)")
  case True
  then obtain days where on: "read_enabled (ce_settings e) = Inr True" and days: "read_retention_days (ce_settings e) = Inr (Some days)"
    by blast
  let ?cutoff = "cleanup_cutoff e days"
  obtain out r1 y1 where images: "sweep_images e ?cutoff 0 (empty_report\<lparr>cr_ran := True\<rparr>) y = Some (out, r1, y1)"
    and y1: "tidy base y1" "swept (local_contents base) e ?cutoff y y1"
    using image_sweep_alone.loop_ends[OF conjI[OF alone tidy]] by blast
  obtain out' r2 y2 where "sweep_assets e ?cutoff 0 r1 y1 = Some (out', r2, y2)" "swept (local_contents base) e ?cutoff y1 y2"
    using asset_sweep_alone.loop_ends[OF conjI[OF alone y1(1)]] by blast
  with images on days y1 swept_trans[OF y1(2)] obtain answer y' where
    run: "run_cleanup e y = Some (answer, y')" and swept: "swept (local_contents base) e ?cutoff y y'"
    by (cases out) (auto simp: run_cleanup_def)
  note keeps = swept_keeps_busy[OF swept]
  show ?thesis
    by (intro exI[of _ answer] exI[of _ y'] conjI run disjI2 exI[of _ days] on days ballI impI)
      (use swept keeps cutoff_bound[OF days] in \<open>simp_all add: cutoff_days[OF days]\<close>)
qed (auto simp: run_cleanup_def split: sum.splits bool.splits option.splits)

section \<open>A photo that has just been taken up by a batch\<close>

definition old_photo :: asset where
  "old_photo = \<lparr>as_id = 5, as_uid = ''p'', as_user_id = 7, as_object_key = ''a.png'', as_content_type = ''image/png'', as_byte_size = 1,
     as_width = None, as_height = None, as_sha256 = None, as_origin = OriginWeb, as_created_at = 0, as_deleted_at = None\<rparr>"

definition old_yard :: "local_state yard" where
  "old_yard = \<lparr>yd_db = demo_start,
     yd_tables = \<lparr>at_assets = [old_photo], at_variants = [], at_next_asset = 6, at_next_variant = 1\<rparr>,
     yd_store = \<lparr>ls_fs = [([], Dir), ([''data''], Dir), ([''data'', ''a.png''], File ''x'')], ls_calls = 0\<rparr>\<rparr>"

definition yearly :: "local_state cleanup_env" where
  "yearly = \<lparr>ce_store = local_store ''/data'' (\<lambda>n. calm),
     ce_settings = (\<lambda>k. if k = setting_key_cleanup_enabled then Inr (Some (JBool True)) else Inr None),
     ce_now = 31536000000000000, ce_db_now = (\<lambda>p. now0), ce_batch_limit = 2, ce_done = (\<lambda>p. None), ce_meanwhile = (\<lambda>p y. y),
     ce_fails = (\<lambda>p. None)\<rparr>"

text \<open>A user submits a batch with the photo after the sweep has listed it and before it deletes the file.\<close>

definition busy_env :: "local_state cleanup_env" where
  "busy_env = yearly\<lparr>ce_meanwhile := (\<lambda>p y. if p = VariantKeys 0
     then y\<lparr>yd_db := (case create_job_with_items_and_hold dec_ref now0 demo_params (yd_db y) of Inr (r, d) \<Rightarrow> d | Inl err \<Rightarrow> yd_db y)\<rparr> else y)\<rparr>"

lemma old_settings: "read_enabled (ce_settings yearly) = Inr True" "read_retention_days (ce_settings yearly) = Inr (Some 180)"
  by code_simp+

lemma old_cutoff: "cleanup_cutoff yearly 180 = 15984000000000000"
  by code_simp

lemma old_images: "sweep_images yearly 15984000000000000 0 (empty_report\<lparr>cr_ran := True\<rparr>) old_yard = Some (None, empty_report\<lparr>cr_ran := True\<rparr>, old_yard)"
  by (subst sweep_images.simps) code_simp

definition swept_store :: local_state where
  "swept_store = snd (os_delete (local_store ''/data'' (\<lambda>n. calm)) ''a.png'' (yd_store old_yard))"

lemma old_file: "os_delete (local_store ''/data'' (\<lambda>n. calm)) ''a.png'' (yd_store old_yard) = (None, swept_store)"
  by code_simp

lemma old_listed: "list_expired_assets 15984000000000000 2 demo_start (yd_tables old_yard) = [\<lparr>cc_id = 5, cc_object_key = ''a.png'', cc_byte_size = 1\<rparr>]"
  by code_simp

lemma old_alone: "runs_alone ''/data'' (\<lambda>n. calm) now0 yearly"
  by (simp add: runs_alone_def yearly_def)

lemma old_tidy: "tidy ''/data'' old_yard"
proof -
  have "root_ok ''/data'' (ls_fs (yd_store old_yard))" by code_simp
  then show ?thesis by (simp add: tidy_def local_good_def) (simp add: old_yard_def demo_start_def empty_db_def)
qed

definition busy_report :: cleanup_report where
  "busy_report = empty_report\<lparr>cr_ran := True, cr_assets_deleted := 1, cr_bytes_freed := 1\<rparr>"

definition busy_yard :: "db \<Rightarrow> local_state yard" where
  "busy_yard d = \<lparr>yd_db = d, yd_tables = (yd_tables old_yard)\<lparr>at_assets := [old_photo\<lparr>as_deleted_at := Some now0\<rparr>]\<rparr>, yd_store = swept_store\<rparr>"

lemma old_sweep:
  "sweep_assets yearly 15984000000000000 0 (empty_report\<lparr>cr_ran := True\<rparr>) old_yard = Some (None, busy_report, busy_yard demo_start)"
  "sweep_assets busy_env 15984000000000000 0 (empty_report\<lparr>cr_ran := True\<rparr>) old_yard = Some (None, busy_report, busy_yard demo_created)"
  using old_file old_listed
  by (subst sweep_assets.simps, simp add: asset_round_def cleanup_repo_def repo_call_def yearly_def busy_env_def busy_report_def
      busy_yard_def old_yard_def run_create list_variant_keys_def delete_asset_files_def soft_delete_assets_def affected_def
      old_photo_def empty_report_def wrap64_def Let_def)+

lemma old_run: "run_cleanup yearly old_yard = Some (Inr (busy_report, None), busy_yard demo_start)"
  by (simp add: run_cleanup_def old_settings old_cutoff old_images old_sweep)

lemma busy_images: "sweep_images busy_env 15984000000000000 0 (empty_report\<lparr>cr_ran := True\<rparr>) old_yard = Some (None, empty_report\<lparr>cr_ran := True\<rparr>, old_yard)"
  by (subst sweep_images.simps) code_simp

lemma busy_run: "run_cleanup busy_env old_yard = Some (Inr (busy_report, None), busy_yard demo_created)"
proof -
  have same: "ce_settings busy_env = ce_settings yearly" "cleanup_cutoff busy_env 180 = cleanup_cutoff yearly 180"
    by (simp_all add: busy_env_def cleanup_cutoff_def)
  show ?thesis by (simp add: run_cleanup_def same old_settings old_cutoff busy_images old_sweep)
qed

lemma old_contents: "local_contents ''/data'' (yd_store old_yard) ''a.png'' = Some ''x''"
  by code_simp

lemma gone_contents: "local_contents ''/data'' swept_store ''a.png'' = None"
  using local.delete_done[OF _ old_file] old_tidy by (simp add: tidy_def)

lemma swept_cutoff: "ce_now yearly - 4320 * hour = 15984000000000000"
  by (simp add: yearly_def hour_def)

theorem cleanup_run_ends_witness:
  "(\<exists>answer y'. run_cleanup yearly old_yard = Some (answer, y')) \<and> run_cleanup yearly old_yard = Some (Inr (busy_report, None), busy_yard demo_start)"
proof
  show "\<exists>answer y'. run_cleanup yearly old_yard = Some (answer, y')"
    by (rule cleanup_run_ends[of yearly now0]) (rule alone_calm[OF old_alone])
qed (rule old_run)

theorem cleanup_spares_the_rest_witness:
  "swept (local_contents ''/data'') yearly 15984000000000000 old_yard (busy_yard demo_start) \<and> busy_yard demo_start \<noteq> old_yard"
proof -
  have other: "busy_yard demo_start \<noteq> old_yard" by (simp add: busy_yard_def old_yard_def old_photo_def)
  with cleanup_spares_the_rest[OF old_alone old_tidy] show ?thesis
    by (auto simp: old_run old_settings swept_cutoff)
qed

lemma unmarshal_true: "unmarshal_bool v = Some True \<longleftrightarrow> v = JBool True"
  by (cases v) auto

text \<open>The clean-up fails closed: unless the switch is stored as true, and if the stored days of retention are not a
  number from 30 to 3650, a run deletes nothing and reports that it did not run.\<close>

theorem cleanup_fails_closed:
  assumes "ce_settings e setting_key_cleanup_enabled \<noteq> Inr (Some (JBool True)) \<or>
    (\<exists>v. ce_settings e setting_key_cleanup_retention_days = Inr (Some v) \<and> (\<forall>n. unmarshal_int v = Some n \<longrightarrow> n < 30 \<or> 3650 < n))"
  shows "\<exists>answer. run_cleanup e y = Some (answer, y) \<and>
    (\<forall>rep out. answer = Inr (rep, out) \<longrightarrow> \<not> cr_ran rep \<and> cr_images_deleted rep = 0 \<and> cr_assets_deleted rep = 0)"
proof (cases "read_enabled (ce_settings e) = Inr True")
  case True
  then have "ce_settings e setting_key_cleanup_enabled = Inr (Some (JBool True))"
    by (auto simp: read_enabled_def unmarshal_true split: sum.splits option.splits if_splits)
  with assms have "read_retention_days (ce_settings e) = Inr None"
    by (auto simp: read_retention_days_def min_cleanup_retention_days_def max_cleanup_retention_days_def split: option.splits)
  with True show ?thesis by (simp add: run_cleanup_def empty_report_def)
qed (auto simp: run_cleanup_def empty_report_def split: sum.splits bool.splits)

definition hasty :: "local_state cleanup_env" where
  "hasty = yearly\<lparr>ce_settings := (\<lambda>k. if k = setting_key_cleanup_enabled then Inr (Some (JBool True)) else Inr (Some (JNumber ''7'')))\<rparr>"

theorem cleanup_fails_closed_witness:
  "\<exists>answer. run_cleanup hasty old_yard = Some (answer, old_yard) \<and> read_enabled (ce_settings hasty) = Inr True"
proof -
  have "ce_settings hasty setting_key_cleanup_retention_days = Inr (Some (JNumber ''7''))" "unmarshal_int (JNumber ''7'') = Some 7"
    and on: "read_enabled (ce_settings hasty) = Inr True"
    by code_simp+
  then show ?thesis using cleanup_fails_closed[of hasty old_yard] by auto
qed

text \<open>The rule that the photos of unfinished batches are kept holds for the moment of the listing only. In this run a
  batch that is submitted between the listing and the deletion loses its photo. The run reports no error, the batch and its
  items are there and unfinished, the photo they name is marked as deleted and its file is gone.\<close>

theorem photo_of_new_batch_is_deleted:
  "run_cleanup busy_env old_yard = Some (Inr (busy_report, None), busy_yard demo_created) \<and>
   create_job_with_items_and_hold dec_ref now0 demo_params (yd_db old_yard) =
     Inr (\<lparr>cr_job = demo_job JobStatusCreated 0 0 None None None None, cr_items = [pending_row 1, pending_row 2], cr_reused = False\<rparr>,
          yd_db (busy_yard demo_created)) \<and>
   pending_row 1 \<in> set (db_items (yd_db (busy_yard demo_created))) \<and>
   it_asset_id (pending_row 1) = Some (as_id old_photo) \<and> busy_job (yd_db (busy_yard demo_created)) (it_job_id (pending_row 1)) \<and>
   at_assets (yd_tables (busy_yard demo_created)) = [old_photo\<lparr>as_deleted_at := Some now0\<rparr>] \<and>
   local_contents ''/data'' (yd_store old_yard) (as_object_key old_photo) = Some ''x'' \<and>
   local_contents ''/data'' (yd_store (busy_yard demo_created)) (as_object_key old_photo) = None"
proof -
  have "busy_job demo_created 1" by code_simp
  then show ?thesis
    using busy_run run_create old_contents gone_contents
    by (simp add: busy_yard_def old_yard_def old_photo_def demo_created_def demo_db_def pending_row_def demo_row_def)
qed

end
