(* ===== verification/Upscale.thy ===== *)
theory Upscale
  imports Assets "HOL-Library.List_Lexorder" "HOL-Library.Char_ord"
begin

text \<open>
  Enlarging a photo in the background: \<open>repository/upscale_repo.go\<close>, \<open>domain/upscale.go\<close> and
  \<open>service/upscale.go\<close>. The table of tasks is the truth, the channel only carries the numbers of tasks
  to the one worker. The image service behind \<open>UpscaleBackend\<close> is a parameter; its HTTP client is not
  modelled. As in the photo service, other processes may act before every repository call, and a call
  may fail.
\<close>

section \<open>The table of tasks\<close>

datatype upscale_status = UpscaleStatusQueued | UpscaleStatusRunning | UpscaleStatusDone | UpscaleStatusFailed

record upscale_task_record =
  ut_uid :: string
  ut_asset_uid :: string
  ut_user_id :: int
  ut_origin :: origin
  ut_status :: upscale_status
  ut_result_asset_uid :: "string option"
  ut_error_code :: string
  ut_error_message :: string
  ut_created_at :: time
  ut_updated_at :: time

type_synonym 'a upscale_tx = "upscale_task_record list \<Rightarrow> go_error + 'a \<times> upscale_task_record list"

definition noun_upscale :: string where "noun_upscale = (bytes [230, 148, 190, 229, 164, 167, 228, 187, 187, 229, 138, 161])"

text \<open>\<open>scanUpscaleTask\<close> trims the number it reads.\<close>

definition scan_upscale_task :: "upscale_task_record \<Rightarrow> upscale_task_record" where
  "scan_upscale_task t = t\<lparr>ut_uid := trim_space (ut_uid t)\<rparr>"

definition insert_upscale_task :: "time \<Rightarrow> string \<Rightarrow> string \<Rightarrow> int \<Rightarrow> origin \<Rightarrow> upscale_task_record upscale_tx" where
  "insert_upscale_task now uid asset_uid user_id orig ts =
     (if trim_space uid = [] then
        Inl (Dk (with_message (new_error ErrCodeInvalidRequest) (bytes [230, 148, 190, 229, 164, 167, 228, 187, 187, 229, 138, 161, 231, 188, 186, 229, 176, 145,
      231, 188, 150, 229, 143, 183, 239, 188, 136, 117, 105, 100, 239, 188, 137, 239, 188, 140,
      230, 151, 160, 230, 179, 149, 229, 136, 155, 229, 187, 186, 227, 128, 130])))
      else if \<exists>t \<in> set ts. ut_uid t = uid then Inl (unique_violation noun_upscale)
      else
        (let t = \<lparr>ut_uid = uid, ut_asset_uid = asset_uid, ut_user_id = user_id, ut_origin = orig, ut_status = UpscaleStatusQueued,
                  ut_result_asset_uid = None, ut_error_code = [], ut_error_message = [], ut_created_at = now, ut_updated_at = now\<rparr>
         in Inr (scan_upscale_task t, ts @ [t])))"

definition latest_upscale_task :: "int \<Rightarrow> string \<Rightarrow> upscale_task_record upscale_tx" where
  "latest_upscale_task user_id asset_uid ts =
     (case rev (sort_key (\<lambda>t. (ut_created_at t, ut_uid t))
             (filter (\<lambda>t. ut_user_id t = user_id \<and> ut_asset_uid t = asset_uid) ts)) of
        [] \<Rightarrow> Inl (not_found_err noun_upscale) | t # _ \<Rightarrow> Inr (scan_upscale_task t, ts))"

definition get_upscale_task :: "string \<Rightarrow> upscale_task_record upscale_tx" where
  "get_upscale_task uid ts =
     (case find (\<lambda>t. ut_uid t = uid) ts of
        None \<Rightarrow> Inl (not_found_err noun_upscale) | Some t \<Rightarrow> Inr (scan_upscale_task t, ts))"

text \<open>\<open>guardedExec\<close>: an update that finds no row in the state it asks for is a conflict.\<close>

definition guarded_exec ::
  "(upscale_task_record \<Rightarrow> bool) \<Rightarrow> (upscale_task_record \<Rightarrow> upscale_task_record) \<Rightarrow> unit upscale_tx" where
  "guarded_exec P f ts =
     (if affected P ts = 0 then Inl (conflict_err (bytes [230, 148, 190, 229, 164, 167, 228, 187, 187, 229, 138, 161, 231, 154, 132, 231, 138, 182,
      230, 128, 129, 229, 183, 178, 231, 187, 143, 232, 162, 171, 229, 136, 171, 228, 186, 186,
      230, 148, 185, 232, 191, 135, 228, 186, 134])) else Inr ((), upd P f ts))"

definition mark_upscale_running :: "time \<Rightarrow> string \<Rightarrow> unit upscale_tx" where
  "mark_upscale_running now uid =
     guarded_exec (\<lambda>t. ut_uid t = uid \<and> ut_status t = UpscaleStatusQueued)
       (\<lambda>t. t\<lparr>ut_status := UpscaleStatusRunning, ut_updated_at := now\<rparr>)"

definition mark_upscale_done :: "time \<Rightarrow> string \<Rightarrow> string \<Rightarrow> unit upscale_tx" where
  "mark_upscale_done now uid result_asset_uid =
     guarded_exec (\<lambda>t. ut_uid t = uid \<and> ut_status t = UpscaleStatusRunning)
       (\<lambda>t. t\<lparr>ut_status := UpscaleStatusDone, ut_result_asset_uid := Some result_asset_uid, ut_error_code := [],
              ut_error_message := [], ut_updated_at := now\<rparr>)"

definition mark_upscale_failed :: "time \<Rightarrow> string \<Rightarrow> string \<Rightarrow> string \<Rightarrow> unit upscale_tx" where
  "mark_upscale_failed now uid error_code error_message =
     guarded_exec (\<lambda>t. ut_uid t = uid \<and> ut_status t = UpscaleStatusRunning)
       (\<lambda>t. t\<lparr>ut_status := UpscaleStatusFailed, ut_error_code := error_code, ut_error_message := error_message,
              ut_updated_at := now\<rparr>)"

definition requeue_interrupted :: "time \<Rightarrow> int upscale_tx" where
  "requeue_interrupted now ts =
     (let P = (\<lambda>t. ut_status t = UpscaleStatusRunning)
      in Inr (affected P ts, upd P (\<lambda>t. t\<lparr>ut_status := UpscaleStatusQueued, ut_updated_at := now\<rparr>) ts))"

definition list_queued_upscales :: "int \<Rightarrow> upscale_task_record list upscale_tx" where
  "list_queued_upscales limit ts =
     Inr (map scan_upscale_task (take (nat (clamp_limit limit default_page_limit max_page_limit))
       (sort_key (\<lambda>t. (ut_created_at t, ut_uid t)) (filter (\<lambda>t. ut_status t = UpscaleStatusQueued) ts))), ts)"

section \<open>The service\<close>

definition default_upscale_queue_cap :: nat where "default_upscale_queue_cap = 10"
definition max_upscale_asset_bytes :: int where "max_upscale_asset_bytes = 268435456"
definition upscale_recover_limit :: int where "upscale_recover_limit = 100"

text \<open>\<open>NewUpscaleService\<close>: the size of the channel.\<close>

definition upscale_queue_cap :: "int \<Rightarrow> nat" where
  "upscale_queue_cap queue_cap = (if queue_cap \<le> 0 then default_upscale_queue_cap else nat queue_cap)"

record upscale_task =
  uk_asset_uid :: string
  uk_user_id :: int
  uk_origin :: origin
  uk_status :: upscale_status
  uk_result :: "asset option"
  uk_error_message :: string
  uk_error_code :: string
  uk_created_at :: time
  uk_updated_at :: time

text \<open>The repository calls, and the moments at which the photo service is used.\<close>

datatype upscale_call = LookLatest | InsertTask | ReadTask | ClaimTask | FinishTask | FailTask | RequeueRunning | ReadQueued
datatype upscale_moment = CheckOwner | ReadResult | ReadSource | StoreResult

record 's darkroom =
  dr_shelf :: "'s shelf"
  dr_tasks :: "upscale_task_record list"
  dr_queue :: "string list"

record 's upscale_env =
  ue_assets :: "upscale_moment \<Rightarrow> 's asset_env"
  ue_backend :: "string \<Rightarrow> string \<Rightarrow> string \<Rightarrow> go_error + string"
  ue_db_now :: "upscale_call \<Rightarrow> time"
  ue_new_uid :: string
  ue_queue_cap :: nat
  ue_stopped :: bool
  ue_closed :: bool
  ue_meanwhile :: "upscale_call \<Rightarrow> 's darkroom \<Rightarrow> 's darkroom"
  ue_fails :: "upscale_call \<Rightarrow> go_error option"

definition on_tasks :: "'a upscale_tx \<Rightarrow> 's darkroom \<Rightarrow> go_error + 'a \<times> 's darkroom" where
  "on_tasks f w = (case f (dr_tasks w) of Inl e \<Rightarrow> Inl e | Inr (a, ts) \<Rightarrow> Inr (a, w\<lparr>dr_tasks := ts\<rparr>))"

definition upscale_repo :: "'s upscale_env \<Rightarrow> upscale_call \<Rightarrow> 'a upscale_tx \<Rightarrow> 's darkroom \<Rightarrow> (go_error + 'a) \<times> 's darkroom" where
  "upscale_repo e p f = repo_call (ue_meanwhile e) (ue_fails e) p (on_tasks f)"

definition on_shelf :: "('s shelf \<Rightarrow> 'r \<times> 's shelf) \<Rightarrow> 's darkroom \<Rightarrow> 'r \<times> 's darkroom" where
  "on_shelf f w = (case f (dr_shelf w) of (r, s) \<Rightarrow> (r, w\<lparr>dr_shelf := s\<rparr>))"

definition task_from_record :: "'s upscale_env \<Rightarrow> upscale_task_record \<Rightarrow> 's darkroom \<Rightarrow> upscale_task \<times> 's darkroom" where
  "task_from_record e rec w =
     (let task = \<lparr>uk_asset_uid = ut_asset_uid rec, uk_user_id = ut_user_id rec, uk_origin = ut_origin rec,
                  uk_status = ut_status rec, uk_result = None, uk_error_message = ut_error_message rec,
                  uk_error_code = ut_error_code rec, uk_created_at = ut_created_at rec, uk_updated_at = ut_updated_at rec\<rparr>
      in case (ut_status rec, ut_result_asset_uid rec) of
           (UpscaleStatusDone, Some uid) \<Rightarrow>
             (case on_shelf (service_get_asset (ue_assets e ReadResult) (ut_user_id rec) uid) w of
                (Inl err, w) \<Rightarrow> (task, w) | (Inr a, w) \<Rightarrow> (task\<lparr>uk_result := Some a\<rparr>, w))
         | _ \<Rightarrow> (task, w))"

text \<open>The part of \<open>Enqueue\<close> under the lock.\<close>

definition enqueue_new ::
  "'s upscale_env \<Rightarrow> int \<Rightarrow> origin \<Rightarrow> string \<Rightarrow> 's darkroom \<Rightarrow> (go_error + upscale_task) \<times> 's darkroom" where
  "enqueue_new e user_id orig asset_uid w =
     (if length (dr_queue w) \<ge> ue_queue_cap e then (Inl (Dk (new_error ErrCodeUpscaleQueueFull)), w)
      else case upscale_repo e InsertTask (insert_upscale_task (ue_db_now e InsertTask) (ue_new_uid e) asset_uid user_id orig) w of
             (Inl err, w) \<Rightarrow> (Inl (Dk (with_cause (new_error ErrCodeInternal) err)), w)
           | (Inr created, w) \<Rightarrow>
             (case task_from_record e created (w\<lparr>dr_queue := dr_queue w @ [ut_uid created]\<rparr>) of (task, w) \<Rightarrow> (Inr task, w)))"

definition enqueue_locked ::
  "'s upscale_env \<Rightarrow> int \<Rightarrow> origin \<Rightarrow> string \<Rightarrow> 's darkroom \<Rightarrow> (go_error + upscale_task) \<times> 's darkroom" where
  "enqueue_locked e user_id orig asset_uid w =
     (case upscale_repo e LookLatest (latest_upscale_task user_id asset_uid) w of
        (Inl err, w) \<Rightarrow>
          if errors_is err ErrNotFound then enqueue_new e user_id orig asset_uid w
          else (Inl (Dk (with_cause (new_error ErrCodeInternal) err)), w)
      | (Inr latest, w) \<Rightarrow>
          (case ut_status latest of
             UpscaleStatusQueued \<Rightarrow> (case task_from_record e latest w of (task, w) \<Rightarrow> (Inr task, w))
           | UpscaleStatusRunning \<Rightarrow> (case task_from_record e latest w of (task, w) \<Rightarrow> (Inr task, w))
           | UpscaleStatusDone \<Rightarrow>
               (case task_from_record e latest w of (task, w) \<Rightarrow>
                  if uk_result task \<noteq> None then (Inr task, w) else enqueue_new e user_id orig asset_uid w)
           | UpscaleStatusFailed \<Rightarrow> enqueue_new e user_id orig asset_uid w))"

definition enqueue :: "'s upscale_env \<Rightarrow> int \<Rightarrow> origin \<Rightarrow> string \<Rightarrow> 's darkroom \<Rightarrow> (go_error + upscale_task) \<times> 's darkroom" where
  "enqueue e user_id orig asset_uid w =
     (if user_id \<le> 0 then (Inl (Dk (new_error ErrCodeUnauthorized)), w)
      else
        (let asset_uid = trim_space asset_uid; orig = (if orig = OriginOther [] then OriginWeb else orig)
         in if asset_uid = [] then (Inl (Dk (new_error ErrCodeAssetNotFound)), w)
            else if \<not> (orig = OriginWeb \<or> orig = OriginERP) then (Inl (Dk (new_error ErrCodeInvalidRequest)), w)
            else case on_shelf (service_get_asset (ue_assets e CheckOwner) user_id asset_uid) w of
                   (Inl err, w) \<Rightarrow> (Inl err, w)
                 | (Inr _, w) \<Rightarrow> enqueue_locked e user_id orig asset_uid w))"

definition upscale_state :: "'s upscale_env \<Rightarrow> int \<Rightarrow> string \<Rightarrow> 's darkroom \<Rightarrow> (go_error + upscale_task) \<times> 's darkroom" where
  "upscale_state e user_id asset_uid w =
     (if user_id \<le> 0 then (Inl (Dk (new_error ErrCodeUnauthorized)), w)
      else case upscale_repo e LookLatest (latest_upscale_task user_id (trim_space asset_uid)) w of
             (Inl err, w) \<Rightarrow>
               (Inl (if errors_is err ErrNotFound then Dk (new_error ErrCodeUpscaleNotFound)
                     else Dk (with_cause (new_error ErrCodeInternal) err)), w)
           | (Inr rec, w) \<Rightarrow> (case task_from_record e rec w of (task, w) \<Rightarrow> (Inr task, w)))"

section \<open>The worker\<close>

definition execute_upscale :: "'s upscale_env \<Rightarrow> int \<Rightarrow> origin \<Rightarrow> string \<Rightarrow> 's darkroom \<Rightarrow> (go_error + asset) \<times> 's darkroom" where
  "execute_upscale e user_id orig uid w =
     (case on_shelf (asset_content (ue_assets e ReadSource) user_id uid) w of
        (Inl err, w) \<Rightarrow> (Inl err, w)
      | (Inr (data, ct), w) \<Rightarrow>
        (case ue_backend e data (uid @ dk_ext_for_content_type ct) ct of
           Inl err \<Rightarrow> (Inl err, w)
         | Inr out \<Rightarrow>
           (case on_shelf (upload_asset (ue_assets e StoreResult)
                   \<lparr>ui_user_id = user_id, ui_origin = orig, ui_declared_size = int (length out), ui_data = Some (out, None),
                    ui_max_bytes_override = max_upscale_asset_bytes\<rparr>) w of
              (Inl err, w) \<Rightarrow> (Inl err, w)
            | (Inr res, w) \<Rightarrow> (Inr (ur_asset res), w))))"

definition upscale_failure_text :: "go_error \<Rightarrow> string \<times> string" where
  "upscale_failure_text err =
     (if errors_is err ContextDeadlineExceeded
        then ((bytes [230, 148, 190, 229, 164, 167, 232, 182, 133, 230, 151, 182, 228, 186, 134, 239, 188, 140,
      232, 191, 153, 229, 188, 160, 229, 155, 190, 229, 143, 175, 232, 131, 189, 229, 164, 170,
      229, 164, 167, 227, 128, 130, 233, 135, 141, 232, 175, 149, 228, 184, 128, 230, 172, 161,
      239, 188, 140, 228, 184, 128, 231, 155, 180, 232, 191, 153, 230, 160, 183, 232, 175, 183,
      232, 129, 148, 231, 179, 187, 231, 174, 161, 231, 144, 134, 229, 145, 152, 227, 128, 130]), ErrCodeTimeout)
      else case as_designkit_error err of
             Some d \<Rightarrow> (dk_message d, dk_code d)
           | None \<Rightarrow> (dk_message (new_error ErrCodeUpscaleFailed), ErrCodeUpscaleFailed))"

text \<open>\<open>process\<close>: one task. When the service is closed while it works, the task stays running. (\<open>ue_stopped\<close>: closed before
  a task of the last run is looked at; \<open>ue_closed\<close>: closed when the work on it is over.)\<close>

definition process_upscale :: "'s upscale_env \<Rightarrow> string \<Rightarrow> 's darkroom \<Rightarrow> 's darkroom" where
  "process_upscale e uid w =
     (case upscale_repo e ReadTask (get_upscale_task uid) w of
        (Inl err, w) \<Rightarrow> w
      | (Inr task, w) \<Rightarrow>
        if ut_status task \<noteq> UpscaleStatusQueued then w
        else case upscale_repo e ClaimTask (mark_upscale_running (ue_db_now e ClaimTask) uid) w of
               (Inl err, w) \<Rightarrow> w
             | (Inr _, w) \<Rightarrow>
               (case execute_upscale e (ut_user_id task) (ut_origin task) (ut_asset_uid task) w of (result, w) \<Rightarrow>
                  if ue_closed e then w
                  else case result of
                         Inl err \<Rightarrow>
                           (case upscale_failure_text err of (message, code) \<Rightarrow>
                              snd (upscale_repo e FailTask (mark_upscale_failed (ue_db_now e FailTask) uid code message) w))
                       | Inr a \<Rightarrow>
                           snd (upscale_repo e FinishTask (mark_upscale_done (ue_db_now e FinishTask) uid (as_uid a)) w)))"

text \<open>\<open>recoverPending\<close>: the tasks of the last run, without the channel. Task \<open>n\<close> runs in the environment \<open>env n\<close>.\<close>

fun process_all :: "(nat \<Rightarrow> 's upscale_env) \<Rightarrow> nat \<Rightarrow> string list \<Rightarrow> 's darkroom \<Rightarrow> 's darkroom" where
  "process_all env n [] w = w"
| "process_all env n (uid # uids) w =
     (if ue_stopped (env n) then w else process_all env (Suc n) uids (process_upscale (env n) uid w))"

definition recover_pending :: "'s upscale_env \<Rightarrow> (nat \<Rightarrow> 's upscale_env) \<Rightarrow> 's darkroom \<Rightarrow> 's darkroom" where
  "recover_pending e env w =
     (case upscale_repo e RequeueRunning (requeue_interrupted (ue_db_now e RequeueRunning)) w of
        (Inl err, w) \<Rightarrow> w
      | (Inr n, w) \<Rightarrow>
        (case upscale_repo e ReadQueued (list_queued_upscales upscale_recover_limit) w of
           (Inl err, w) \<Rightarrow> w
         | (Inr pending, w) \<Rightarrow> process_all env 0 (map ut_uid pending) w))"

text \<open>One turn of \<open>run\<close>: the worker takes the first number from the channel.\<close>

definition worker_turn :: "'s upscale_env \<Rightarrow> 's darkroom \<Rightarrow> 's darkroom" where
  "worker_turn e w =
     (case dr_queue w of [] \<Rightarrow> w | uid # rest \<Rightarrow> process_upscale e uid (w\<lparr>dr_queue := rest\<rparr>))"

end
