(* ===== verification/Upscale_Guarantees.thy ===== *)
theory Upscale_Guarantees
  imports Upscale Asset_Guarantees
begin

text \<open>
  What the enlarging service guarantees. The protocol is a step relation on the table, the channel, the
  lock and the worker, with steps as small as one repository call, calls that fail and restarts; its
  invariant gives that no photo is ever queued twice. The functions of the service are then shown to be
  runs of the protocol.
\<close>

section \<open>The protocol\<close>

datatype desk = Unlocked | Inserting int string origin
datatype hand = Starting | Requeued | Idle | Took string | Working string

record room =
  rm_tasks :: "upscale_task_record list"
  rm_queue :: "string list"
  rm_desk :: desk
  rm_hand :: hand
  rm_backlog :: "string list"
  rm_lost :: "string set"

definition task_active :: "upscale_task_record \<Rightarrow> bool" where
  "task_active t \<longleftrightarrow> ut_status t = UpscaleStatusQueued \<or> ut_status t = UpscaleStatusRunning"

definition same_photo :: "upscale_task_record \<Rightarrow> upscale_task_record \<Rightarrow> bool" where
  "same_photo s t \<longleftrightarrow> ut_user_id s = ut_user_id t \<and> ut_asset_uid s = ut_asset_uid t"

definition queued_uids :: "upscale_task_record list \<Rightarrow> string set" where
  "queued_uids ts = ut_uid ` {t \<in> set ts. ut_status t = UpscaleStatusQueued}"

text \<open>
  \<open>look\<close> to \<open>give_up\<close> are the critical section of \<open>Enqueue\<close>, \<open>take\<close> to \<open>write_failed\<close> the worker, \<open>restart\<close> to
  \<open>no_recovery\<close> a new start of the process. The table gives a new row of a photo a later time than the
  rows it has. \<open>rm_lost\<close> notes the tasks whose number the code drops because a call failed, or because
  more tasks than the limit were waiting at the start.
\<close>

inductive upscale_step :: "nat \<Rightarrow> room \<Rightarrow> room \<Rightarrow> bool" for cap :: nat where
  look: "rm_desk r = Unlocked \<Longrightarrow> length (rm_queue r) < cap \<Longrightarrow>
     (case latest_upscale_task u a (rm_tasks r) of Inl err \<Rightarrow> True | Inr (t, ts) \<Rightarrow> \<not> task_active t) \<Longrightarrow>
     upscale_step cap r (r\<lparr>rm_desk := Inserting u a o'\<rparr>)"
| insert_ok: "rm_desk r = Inserting u a o' \<Longrightarrow> insert_upscale_task now uid a u o' (rm_tasks r) = Inr (t, ts) \<Longrightarrow>
     trim_space uid = uid \<Longrightarrow> (\<forall>s \<in> set (rm_tasks r). ut_created_at s < now) \<Longrightarrow>
     upscale_step cap r (r\<lparr>rm_tasks := ts, rm_queue := rm_queue r @ [ut_uid t], rm_desk := Unlocked\<rparr>)"
| insert_unheard: "rm_desk r = Inserting u a o' \<Longrightarrow> insert_upscale_task now uid a u o' (rm_tasks r) = Inr (t, ts) \<Longrightarrow>
     trim_space uid = uid \<Longrightarrow> (\<forall>s \<in> set (rm_tasks r). ut_created_at s < now) \<Longrightarrow>
     upscale_step cap r (r\<lparr>rm_tasks := ts, rm_desk := Unlocked, rm_lost := insert uid (rm_lost r)\<rparr>)"
| give_up: "rm_desk r = Inserting u a o' \<Longrightarrow> upscale_step cap r (r\<lparr>rm_desk := Unlocked\<rparr>)"
| take: "rm_hand r = Idle \<Longrightarrow> rm_backlog r = [] \<Longrightarrow> rm_queue r = uid # q \<Longrightarrow>
     upscale_step cap r (r\<lparr>rm_queue := q, rm_hand := Took uid\<rparr>)"
| take_old: "rm_hand r = Idle \<Longrightarrow> rm_backlog r = uid # us \<Longrightarrow> upscale_step cap r (r\<lparr>rm_backlog := us, rm_hand := Took uid\<rparr>)"
| skip: "rm_hand r = Took uid \<Longrightarrow>
     (case get_upscale_task uid (rm_tasks r) of Inl err \<Rightarrow> True | Inr (t, ts) \<Rightarrow> ut_status t \<noteq> UpscaleStatusQueued) \<Longrightarrow>
     upscale_step cap r (r\<lparr>rm_hand := Idle\<rparr>)"
| claim: "rm_hand r = Took uid \<Longrightarrow> mark_upscale_running now uid (rm_tasks r) = Inr (x, ts) \<Longrightarrow>
     upscale_step cap r (r\<lparr>rm_tasks := ts, rm_hand := Working uid\<rparr>)"
| call_failed: "rm_hand r = Took uid \<Longrightarrow> upscale_step cap r (r\<lparr>rm_hand := Idle, rm_lost := insert uid (rm_lost r)\<rparr>)"
| finish: "rm_hand r = Working uid \<Longrightarrow> mark_upscale_done now uid res (rm_tasks r) = Inr (x, ts) \<Longrightarrow>
     upscale_step cap r (r\<lparr>rm_tasks := ts, rm_hand := Idle\<rparr>)"
| fail: "rm_hand r = Working uid \<Longrightarrow> mark_upscale_failed now uid code msg (rm_tasks r) = Inr (x, ts) \<Longrightarrow>
     upscale_step cap r (r\<lparr>rm_tasks := ts, rm_hand := Idle\<rparr>)"
| write_failed: "rm_hand r = Working uid \<Longrightarrow> upscale_step cap r (r\<lparr>rm_hand := Idle\<rparr>)"
| restart: "upscale_step cap r (r\<lparr>rm_queue := [], rm_desk := Unlocked, rm_hand := Starting, rm_backlog := [], rm_lost := {}\<rparr>)"
| requeue: "rm_hand r = Starting \<Longrightarrow> requeue_interrupted now (rm_tasks r) = Inr (n, ts) \<Longrightarrow>
     upscale_step cap r (r\<lparr>rm_tasks := ts, rm_hand := Requeued\<rparr>)"
| read_old: "rm_hand r = Requeued \<Longrightarrow> list_queued_upscales upscale_recover_limit (rm_tasks r) = Inr (pending, ts) \<Longrightarrow>
     upscale_step cap r (r\<lparr>rm_hand := Idle, rm_backlog := map ut_uid pending,
       rm_lost := queued_uids (rm_tasks r) - set (map ut_uid pending) - set (rm_queue r)\<rparr>)"
| no_recovery: "rm_hand r = Starting \<or> rm_hand r = Requeued \<Longrightarrow>
     upscale_step cap r (r\<lparr>rm_hand := Idle, rm_lost := queued_uids (rm_tasks r) - set (rm_queue r)\<rparr>)"

inductive_cases stepE: "upscale_step cap r r'"

definition new_room :: room where
  "new_room = \<lparr>rm_tasks = [], rm_queue = [], rm_desk = Unlocked, rm_hand = Starting, rm_backlog = [], rm_lost = {}\<rparr>"

abbreviation upscale_reachable :: "nat \<Rightarrow> room \<Rightarrow> bool" where
  "upscale_reachable cap r \<equiv> (upscale_step cap)\<^sup>*\<^sup>* new_room r"

section \<open>The table\<close>

definition rows_ok :: "upscale_task_record list \<Rightarrow> bool" where
  "rows_ok ts \<longleftrightarrow> distinct (map ut_uid ts) \<and> (\<forall>t \<in> set ts. trim_space (ut_uid t) = ut_uid t) \<and>
     (\<forall>t \<in> set ts. \<forall>s \<in> set ts. task_active t \<and> same_photo s t \<and> s \<noteq> t \<longrightarrow> ut_created_at s < ut_created_at t)"

lemma scan_plain: "trim_space (ut_uid t) = ut_uid t \<Longrightarrow> scan_upscale_task t = t"
  by (simp add: scan_upscale_task_def)

lemma last_of_case:
  "(case rev l of [] \<Rightarrow> Inl err | t # _ \<Rightarrow> Inr (f t, ts)) = Inr (t, ts') \<Longrightarrow> \<exists>s rest. l = rest @ [s] \<and> t = f s \<and> ts' = ts"
  by (cases l rule: rev_cases) auto

lemma latest_found:
  assumes "latest_upscale_task u a ts = Inr (t, ts')"
  obtains s where "s \<in> set ts" "t = scan_upscale_task s" "ut_user_id s = u" "ut_asset_uid s = a" "ts' = ts"
    "\<And>x. x \<in> set ts \<Longrightarrow> ut_user_id x = u \<Longrightarrow> ut_asset_uid x = a \<Longrightarrow> ut_created_at x \<le> ut_created_at s"
proof -
  let ?k = "\<lambda>t. (ut_created_at t, ut_uid t)" and ?P = "\<lambda>t. ut_user_id t = u \<and> ut_asset_uid t = a"
  let ?l = "sort_key ?k (filter ?P ts)"
  obtain s rest where l: "?l = rest @ [s]" and t: "t = scan_upscale_task s" "ts' = ts"
    using last_of_case[OF assms[unfolded latest_upscale_task_def]] by blast
  have "sorted (map ?k (rest @ [s]))" unfolding l[symmetric] by simp
  then have le: "?k x \<le> ?k s" if "x \<in> set ?l" for x using that unfolding l by (auto simp: sorted_append)
  have "s \<in> set ?l" unfolding l by simp
  then have s: "s \<in> set ts" "?P s" by auto
  have "ut_created_at x \<le> ut_created_at s" if "x \<in> set ts" "?P x" for x
    using le[of x] that by (auto simp: less_eq_prod_def)
  with s t that show ?thesis by blast
qed

lemma latest_missing:
  assumes "latest_upscale_task u a ts = Inl err" and "x \<in> set ts" and "ut_user_id x = u" and "ut_asset_uid x = a"
  shows False
proof -
  let ?P = "\<lambda>t. ut_user_id t = u \<and> ut_asset_uid t = a"
  from assms(1) have "sort_key (\<lambda>t. (ut_created_at t, ut_uid t)) (filter ?P ts) = []"
    by (auto simp: latest_upscale_task_def split: list.splits)
  then have "set (filter ?P ts) = {}" by (metis set_sort set_empty)
  with assms(2-4) show False by auto
qed

text \<open>If the latest row of a photo is not active, no row of it is.\<close>

lemma latest_inactive:
  assumes ok: "rows_ok ts" and look: "case latest_upscale_task u a ts of Inl err \<Rightarrow> True | Inr (t, ts') \<Rightarrow> \<not> task_active t"
    and x: "x \<in> set ts" "ut_user_id x = u" "ut_asset_uid x = a"
  shows "\<not> task_active x"
proof (cases "latest_upscale_task u a ts")
  case (Inl err)
  with latest_missing x show ?thesis by blast
next
  case (Inr p)
  then obtain t ts' where found: "latest_upscale_task u a ts = Inr (t, ts')" by (cases p) auto
  then obtain s where s: "s \<in> set ts" "t = scan_upscale_task s" "ut_user_id s = u" "ut_asset_uid s = a"
    and max: "ut_created_at x \<le> ut_created_at s" using latest_found x by metis
  have "\<not> task_active s" using look found s(2) by (simp add: scan_upscale_task_def task_active_def)
  with ok s x max show ?thesis unfolding rows_ok_def same_photo_def by (metis not_less)
qed

lemma rows_ok_upd:
  assumes ok: "rows_ok ts" and f: "\<And>t. ut_uid (f t) = ut_uid t \<and> ut_user_id (f t) = ut_user_id t \<and>
      ut_asset_uid (f t) = ut_asset_uid t \<and> ut_created_at (f t) = ut_created_at t"
    and still: "\<And>t. t \<in> set ts \<Longrightarrow> P t \<Longrightarrow> task_active t"
  shows "rows_ok (upd P f ts)"
proof -
  have ids: "map ut_uid (upd P f ts) = map ut_uid ts" using f by (simp add: map_upd)
  have "ut_created_at s < ut_created_at t"
    if "t \<in> set (upd P f ts)" "s \<in> set (upd P f ts)" "task_active t" "same_photo s t" "s \<noteq> t" for s t
  proof -
    from that(1,2) obtain t0 s0 where t0: "t0 \<in> set ts" "t = (if P t0 then f t0 else t0)"
      and s0: "s0 \<in> set ts" "s = (if P s0 then f s0 else s0)" by (auto simp: set_upd)
    have "task_active t0" using t0 that(3) still by (auto split: if_splits)
    moreover have "same_photo s0 t0" using that(4) t0 s0 f by (auto simp: same_photo_def split: if_splits)
    moreover have "s0 \<noteq> t0" using that(5) t0 s0 by auto
    ultimately have "ut_created_at s0 < ut_created_at t0" using ok t0 s0 unfolding rows_ok_def by blast
    then show ?thesis using t0 s0 f by (auto split: if_splits)
  qed
  moreover have "\<forall>t \<in> set (upd P f ts). trim_space (ut_uid t) = ut_uid t" using ok f by (auto simp: rows_ok_def set_upd)
  ultimately show ?thesis using ok ids unfolding rows_ok_def by metis
qed

text \<open>Every update of a row finds it active and keeps what identifies it.\<close>

definition keeps_row :: "(upscale_task_record \<Rightarrow> upscale_task_record) \<Rightarrow> bool" where
  "keeps_row f \<longleftrightarrow> (\<forall>t. ut_uid (f t) = ut_uid t \<and> ut_user_id (f t) = ut_user_id t \<and>
      ut_asset_uid (f t) = ut_asset_uid t \<and> ut_created_at (f t) = ut_created_at t)"

lemma insert_row:
  assumes "insert_upscale_task now uid a u o' ts = Inr (t, ts')" and "trim_space uid = uid"
  shows "ts' = ts @ [t] \<and> uid \<notin> ut_uid ` set ts \<and> ut_uid t = uid \<and> ut_user_id t = u \<and> ut_asset_uid t = a \<and>
    ut_created_at t = now \<and> ut_status t = UpscaleStatusQueued"
  using assms by (auto simp: insert_upscale_task_def Let_def scan_upscale_task_def split: if_splits)

lemma guarded_exec_done: "guarded_exec P f ts = Inr (x, ts') \<Longrightarrow> ts' = upd P f ts"
  by (auto simp: guarded_exec_def split: if_splits)

lemma row_updates:
  shows "mark_upscale_running now uid ts = Inr (x, ts') \<Longrightarrow> \<exists>P f. ts' = upd P f ts \<and> keeps_row f \<and> (\<forall>t. P t \<longrightarrow> task_active t)"
    and "mark_upscale_done now uid res ts = Inr (x, ts') \<Longrightarrow> \<exists>P f. ts' = upd P f ts \<and> keeps_row f \<and> (\<forall>t. P t \<longrightarrow> task_active t)"
    and "mark_upscale_failed now uid code msg ts = Inr (x, ts') \<Longrightarrow> \<exists>P f. ts' = upd P f ts \<and> keeps_row f \<and> (\<forall>t. P t \<longrightarrow> task_active t)"
    and "requeue_interrupted now ts = Inr (n, ts') \<Longrightarrow> \<exists>P f. ts' = upd P f ts \<and> keeps_row f \<and> (\<forall>t. P t \<longrightarrow> task_active t)"
  unfolding mark_upscale_running_def mark_upscale_done_def mark_upscale_failed_def requeue_interrupted_def Let_def
  by (rule exI, rule exI, rule conjI, erule guarded_exec_done, simp add: keeps_row_def task_active_def)+
    (clarsimp, rule exI, rule exI, rule conjI, rule refl, simp add: keeps_row_def task_active_def)

definition desk_ok :: "nat \<Rightarrow> room \<Rightarrow> bool" where
  "desk_ok cap r \<longleftrightarrow> rows_ok (rm_tasks r) \<and> length (rm_queue r) \<le> cap \<and>
     (case rm_desk r of Unlocked \<Rightarrow> True
      | Inserting u a o' \<Rightarrow> length (rm_queue r) < cap \<and>
          (\<forall>t \<in> set (rm_tasks r). ut_user_id t = u \<and> ut_asset_uid t = a \<longrightarrow> \<not> task_active t))"

lemma desk_ok_upd:
  assumes ok: "desk_ok cap r" and upd: "\<exists>P f. ts = upd P f (rm_tasks r) \<and> keeps_row f \<and> (\<forall>t. P t \<longrightarrow> task_active t)"
  shows "desk_ok cap (r\<lparr>rm_tasks := ts, rm_hand := h\<rparr>)"
proof -
  from upd obtain P f where ts: "ts = upd P f (rm_tasks r)" and f: "keeps_row f" and P: "\<And>t. P t \<Longrightarrow> task_active t" by blast
  have "rows_ok ts" unfolding ts using ok f P by (intro rows_ok_upd) (auto simp: desk_ok_def keeps_row_def)
  with ok f P show ?thesis unfolding desk_ok_def ts by (auto simp: set_upd keeps_row_def split: desk.splits)
qed

lemma desk_ok_insert:
  assumes ok: "desk_ok cap r" and desk: "rm_desk r = Inserting u a o'"
    and ins: "insert_upscale_task now uid a u o' (rm_tasks r) = Inr (t, ts)" and uid: "trim_space uid = uid"
    and now: "\<forall>s \<in> set (rm_tasks r). ut_created_at s < now"
  shows "rows_ok ts"
proof -
  note row = insert_row[OF ins uid]
  have idle: "\<not> task_active s" if "s \<in> set (rm_tasks r)" "same_photo s t" for s
    using ok desk that row by (auto simp: desk_ok_def same_photo_def)
  then have "\<not> task_active s" if "s \<in> set (rm_tasks r)" "same_photo t s" for s using that by (simp add: same_photo_def)
  with ok row uid now show ?thesis unfolding rows_ok_def desk_ok_def by auto
qed

lemma desk_ok_step: "upscale_step cap r r' \<Longrightarrow> desk_ok cap r \<Longrightarrow> desk_ok cap r'"
proof (induction rule: upscale_step.induct)
  case (look r u a o')
  with latest_inactive[of "rm_tasks r" u a] show ?case by (auto simp: desk_ok_def)
next
  case (insert_ok r u a o' now uid t ts)
  with desk_ok_insert[of cap r u a o' now uid t ts] show ?case by (auto simp: desk_ok_def)
next
  case (insert_unheard r u a o' now uid t ts)
  with desk_ok_insert[of cap r u a o' now uid t ts] show ?case by (auto simp: desk_ok_def)
next
  case (claim r uid now x ts)
  then show ?case by (blast intro: desk_ok_upd row_updates)
next
  case (finish r uid now res x ts)
  then show ?case by (blast intro: desk_ok_upd row_updates)
next
  case (fail r uid now code msg x ts)
  then show ?case by (blast intro: desk_ok_upd row_updates)
next
  case (requeue r now n ts)
  then show ?case by (blast intro: desk_ok_upd row_updates)
qed (auto simp: desk_ok_def split: desk.splits)

lemma desk_ok_reachable: "upscale_reachable cap r \<Longrightarrow> desk_ok cap r"
proof (induction rule: rtranclp_induct)
  case base
  show ?case by (simp add: new_room_def desk_ok_def rows_ok_def)
next
  case (step r r')
  then show ?case by (blast intro: desk_ok_step)
qed

text \<open>C15: However requests, worker, failing calls and restarts interleave, a photo never has two tasks that wait or run,
  the waiting or running one is the newest of the photo's tasks, and the channel never holds more than its size.\<close>

theorem one_task_per_photo:
  assumes "upscale_reachable cap r"
  shows "length (rm_queue r) \<le> cap \<and>
    (\<forall>s \<in> set (rm_tasks r). \<forall>t \<in> set (rm_tasks r). task_active s \<and> task_active t \<and> same_photo s t \<longrightarrow> s = t) \<and>
    (\<forall>s \<in> set (rm_tasks r). \<forall>t \<in> set (rm_tasks r). task_active t \<and> same_photo s t \<longrightarrow> ut_created_at s \<le> ut_created_at t)"
proof -
  have same: "same_photo s t \<longleftrightarrow> same_photo t s" for s t by (auto simp: same_photo_def)
  from desk_ok_reachable[OF assms] show ?thesis unfolding desk_ok_def rows_ok_def by (metis same order_less_asym order_less_imp_le order_refl)
qed

section \<open>No task is forgotten\<close>

definition known_uids :: "room \<Rightarrow> string set" where
  "known_uids r = set (rm_queue r) \<union> set (rm_backlog r) \<union> rm_lost r \<union> (case rm_hand r of Took uid \<Rightarrow> {uid} | _ \<Rightarrow> {})"

definition none_forgotten :: "room \<Rightarrow> bool" where
  "none_forgotten r \<longleftrightarrow> rm_hand r = Starting \<or> rm_hand r = Requeued \<or> queued_uids (rm_tasks r) \<subseteq> known_uids r"

lemma queued_insert:
  "insert_upscale_task now uid a u o' ts = Inr (t, ts') \<Longrightarrow> trim_space uid = uid \<Longrightarrow> queued_uids ts' \<subseteq> insert uid (queued_uids ts)"
  using insert_row[of now uid a u o' ts t ts'] by (auto simp: queued_uids_def)

lemma queued_upd:
  assumes "\<And>t. ut_status (f t) \<noteq> UpscaleStatusQueued"
  shows "queued_uids (upd P f ts) \<subseteq> ut_uid ` {t \<in> set ts. ut_status t = UpscaleStatusQueued \<and> \<not> P t}"
proof
  fix x assume "x \<in> queued_uids (upd P f ts)"
  then obtain t where t: "t \<in> set ts" "ut_status (if P t then f t else t) = UpscaleStatusQueued" "x = ut_uid (if P t then f t else t)"
    unfolding queued_uids_def set_upd by blast
  with assms[of t] have "\<not> P t" by auto
  with t show "x \<in> ut_uid ` {t \<in> set ts. ut_status t = UpscaleStatusQueued \<and> \<not> P t}" by auto
qed

lemma queued_marks:
  "mark_upscale_running now uid ts = Inr (x, ts') \<Longrightarrow> queued_uids ts' \<subseteq> queued_uids ts - {uid}"
  "mark_upscale_done now uid res ts = Inr (x, ts') \<Longrightarrow> queued_uids ts' \<subseteq> queued_uids ts"
  "mark_upscale_failed now uid code msg ts = Inr (x, ts') \<Longrightarrow> queued_uids ts' \<subseteq> queued_uids ts"
  unfolding mark_upscale_running_def mark_upscale_done_def mark_upscale_failed_def
  by (drule guarded_exec_done, clarify, drule set_mp[OF queued_upd, rotated], simp, force simp: queued_uids_def)+

lemma find_by_key: "distinct (map k xs) \<Longrightarrow> x \<in> set xs \<Longrightarrow> find (\<lambda>s. k s = k x) xs = Some x"
  by (induction xs) force+

lemma read_row:
  assumes ok: "rows_ok ts" and t: "t \<in> set ts"
  shows "get_upscale_task (ut_uid t) ts = Inr (t, ts)"
proof -
  have "find (\<lambda>s. ut_uid s = ut_uid t) ts = Some t"
    using ok t by (simp add: rows_ok_def find_by_key)
  with ok t show ?thesis by (simp add: get_upscale_task_def rows_ok_def scan_plain)
qed

lemma none_forgotten_step: "upscale_step cap r r' \<Longrightarrow> rows_ok (rm_tasks r) \<Longrightarrow> none_forgotten r \<Longrightarrow> none_forgotten r'"
proof (induction rule: upscale_step.induct)
  case (insert_ok r u a o' now uid t ts)
  with insert_row queued_insert show ?case by (fastforce simp: none_forgotten_def known_uids_def)
next
  case (insert_unheard r u a o' now uid t ts)
  with queued_insert show ?case by (fastforce simp: none_forgotten_def known_uids_def)
next
  case (skip r uid)
  then have "uid \<notin> queued_uids (rm_tasks r)" using read_row by (fastforce simp: queued_uids_def)
  with skip show ?case by (auto simp: none_forgotten_def known_uids_def)
next
  case (claim r uid now x ts)
  with queued_marks(1) show ?case by (fastforce simp: none_forgotten_def known_uids_def)
next
  case (finish r uid now res x ts)
  with queued_marks(2) show ?case by (fastforce simp: none_forgotten_def known_uids_def)
next
  case (fail r uid now code msg x ts)
  with queued_marks(3) show ?case by (fastforce simp: none_forgotten_def known_uids_def)
qed (auto simp: none_forgotten_def known_uids_def)

lemma none_forgotten_reachable: "upscale_reachable cap r \<Longrightarrow> none_forgotten r"
proof (induction rule: rtranclp_induct)
  case base
  show ?case by (simp add: new_room_def none_forgotten_def)
next
  case (step r r')
  then have "rows_ok (rm_tasks r)" using desk_ok_reachable by (simp add: desk_ok_def)
  with step show ?case by (blast intro: none_forgotten_step)
qed

text \<open>Once the recovery of the start is over, every task that waits in the table is on its way to the worker: its number is
  in the channel, in the rest of the recovered tasks or in the worker's hand, unless the code dropped it because a
  call failed or because more tasks than the limit were waiting at the start.\<close>

theorem waiting_task_is_known:
  assumes "upscale_reachable cap r" and "rm_hand r \<noteq> Starting" and "rm_hand r \<noteq> Requeued"
    and "t \<in> set (rm_tasks r)" and "ut_status t = UpscaleStatusQueued"
  shows "ut_uid t \<in> set (rm_queue r) \<or> ut_uid t \<in> set (rm_backlog r) \<or> ut_uid t \<in> rm_lost r \<or> rm_hand r = Took (ut_uid t)"
  using none_forgotten_reachable[OF assms(1)] assms(2-5)
  by (auto simp: none_forgotten_def known_uids_def queued_uids_def split: hand.splits)

section \<open>Finished tasks stay as they are\<close>

lemma row_kept:
  "\<exists>P f. ts' = upd P f ts \<and> keeps_row f \<and> (\<forall>t. P t \<longrightarrow> task_active t) \<Longrightarrow> t \<in> set ts \<Longrightarrow> \<not> task_active t \<Longrightarrow> t \<in> set ts'"
  by (force simp: set_upd)

lemma finished_step: "upscale_step cap r r' \<Longrightarrow> t \<in> set (rm_tasks r) \<Longrightarrow> \<not> task_active t \<Longrightarrow> t \<in> set (rm_tasks r')"
proof (induction rule: upscale_step.induct)
  case (insert_ok r u a o' now uid t ts)
  then show ?case by (auto dest: insert_row)
next
  case (insert_unheard r u a o' now uid t ts)
  then show ?case by (auto dest: insert_row)
next
  case (claim r uid now x ts)
  from row_kept[OF row_updates(1)[OF claim(2)]] claim show ?case by simp
next
  case (finish r uid now res x ts)
  from row_kept[OF row_updates(2)[OF finish(2)]] finish show ?case by simp
next
  case (fail r uid now code msg x ts)
  from row_kept[OF row_updates(3)[OF fail(2)]] fail show ?case by simp
next
  case (requeue r now n ts)
  from row_kept[OF row_updates(4)[OF requeue(2)]] requeue show ?case by simp
qed simp_all

lemma finished_steps: "(upscale_step cap)\<^sup>*\<^sup>* r r' \<Longrightarrow> t \<in> set (rm_tasks r) \<Longrightarrow> \<not> task_active t \<Longrightarrow> t \<in> set (rm_tasks r')"
  by (induction rule: rtranclp_induct) (auto intro: finished_step)

section \<open>The functions of the service run the protocol\<close>

definition room_of :: "'s darkroom \<Rightarrow> desk \<Rightarrow> hand \<Rightarrow> string list \<Rightarrow> string set \<Rightarrow> room" where
  "room_of w d h backlog lost =
     \<lparr>rm_tasks = dr_tasks w, rm_queue = dr_queue w, rm_desk = d, rm_hand = h, rm_backlog = backlog, rm_lost = lost\<rparr>"

lemma room_simps [simp]:
  "rm_tasks (room_of w d h b l) = dr_tasks w" "rm_queue (room_of w d h b l) = dr_queue w" "rm_desk (room_of w d h b l) = d"
  "rm_hand (room_of w d h b l) = h" "rm_backlog (room_of w d h b l) = b" "rm_lost (room_of w d h b l) = l"
  by (simp_all add: room_of_def)

text \<open>The service at work alone: a repository call that fails is not an empty result.\<close>

definition works_alone :: "'s upscale_env \<Rightarrow> bool" where
  "works_alone e \<longleftrightarrow> (\<forall>p w. ue_meanwhile e p w = w) \<and> (\<forall>p err. ue_fails e p = Some err \<longrightarrow> \<not> errors_is err ErrNotFound)"

lemma repo_alone:
  assumes "works_alone e" and "upscale_repo e p f w = (r, w')"
  shows "(\<exists>err. ue_fails e p = Some err \<and> r = Inl err \<and> w' = w \<and> \<not> errors_is err ErrNotFound) \<or>
    (\<exists>err. f (dr_tasks w) = Inl err \<and> r = Inl err \<and> w' = w) \<or>
    (\<exists>x ts. f (dr_tasks w) = Inr (x, ts) \<and> r = Inr x \<and> w' = w\<lparr>dr_tasks := ts\<rparr>)"
  using assms by (auto simp: works_alone_def upscale_repo_def repo_call_def on_tasks_def Let_def split: option.splits sum.splits)

lemma on_shelf_frame [simp]: "on_shelf f w = (r, w') \<Longrightarrow> dr_tasks w' = dr_tasks w \<and> dr_queue w' = dr_queue w"
  by (auto simp: on_shelf_def split: prod.splits)

lemma task_from_record_frame: "task_from_record e rec w = (task, w') \<Longrightarrow> dr_tasks w' = dr_tasks w \<and> dr_queue w' = dr_queue w"
  by (auto simp: task_from_record_def Let_def dest: on_shelf_frame split: prod.splits sum.splits upscale_status.splits option.splits)

lemma execute_frame: "execute_upscale e u o' uid w = (r, w') \<Longrightarrow> dr_tasks w' = dr_tasks w \<and> dr_queue w' = dr_queue w"
  by (auto simp: execute_upscale_def dest!: on_shelf_frame split: prod.splits sum.splits)

lemma room_frame: "dr_tasks w' = dr_tasks w \<and> dr_queue w' = dr_queue w \<Longrightarrow> room_of w' d h b l = room_of w d h b l"
  by (simp add: room_of_def)

lemma enqueue_new_runs:
  assumes alone: "works_alone e" and cap: "ue_queue_cap e = cap" and uid: "trim_space (ue_new_uid e) = ue_new_uid e"
    and now: "\<forall>s \<in> set (dr_tasks w). ut_created_at s < ue_db_now e InsertTask"
    and look: "case latest_upscale_task u a (dr_tasks w) of Inl err \<Rightarrow> True | Inr (t, ts) \<Rightarrow> \<not> task_active t"
    and run: "enqueue_new e u o' a w = (r, w')"
  shows "(upscale_step cap)\<^sup>*\<^sup>* (room_of w Unlocked h b l) (room_of w' Unlocked h b l)"
proof (cases "length (dr_queue w) < cap")
  case True
  let ?r = "room_of w Unlocked h b l" and ?f = "insert_upscale_task (ue_db_now e InsertTask) (ue_new_uid e) a u o'"
  let ?held = "?r\<lparr>rm_desk := Inserting u a o'\<rparr>"
  have look: "upscale_step cap ?r ?held" using True look by (intro upscale_step.look) auto
  obtain x w1 where call: "upscale_repo e InsertTask ?f w = (x, w1)" by (metis prod.exhaust)
  from repo_alone[OF alone call] show ?thesis
  proof (elim disjE exE conjE)
    fix t ts assume ins: "?f (dr_tasks w) = Inr (t, ts)" and x: "x = Inr t" and w1: "w1 = w\<lparr>dr_tasks := ts\<rparr>"
    have "upscale_step cap ?held (?held\<lparr>rm_tasks := ts, rm_queue := rm_queue ?held @ [ut_uid t], rm_desk := Unlocked\<rparr>)"
      using ins uid now by (intro upscale_step.insert_ok) auto
    moreover have "room_of w' Unlocked h b l = ?held\<lparr>rm_tasks := ts, rm_queue := rm_queue ?held @ [ut_uid t], rm_desk := Unlocked\<rparr>"
      using run call x w1 True cap task_from_record_frame by (fastforce simp: enqueue_new_def room_of_def split: prod.splits)
    ultimately show ?thesis using look by auto
  qed (use run call cap True in \<open>auto simp: enqueue_new_def\<close>)
qed (use run cap in \<open>simp add: enqueue_new_def\<close>)

text \<open>The critical section of a request runs the protocol: it leaves the table and the channel as they were, or it
  adds one row in the way the protocol allows, on every branch of the code.\<close>

theorem enqueue_runs_protocol:
  assumes alone: "works_alone e" and cap: "ue_queue_cap e = cap" and uid: "trim_space (ue_new_uid e) = ue_new_uid e"
    and now: "\<forall>s \<in> set (dr_tasks w). ut_created_at s < ue_db_now e InsertTask"
    and run: "enqueue_locked e u o' a w = (r, w')"
  shows "(upscale_step cap)\<^sup>*\<^sup>* (room_of w Unlocked h b l) (room_of w' Unlocked h b l)"
proof -
  obtain x w1 where call: "upscale_repo e LookLatest (latest_upscale_task u a) w = (x, w1)" by (metis prod.exhaust)
  note new = enqueue_new_runs[OF alone cap uid]
  from repo_alone[OF alone call] show ?thesis
  proof (elim disjE exE conjE)
    fix err assume "latest_upscale_task u a (dr_tasks w) = Inl err" "x = Inl err" "w1 = w"
    with run call now new[of w u a o' r w'] show ?thesis by (auto simp: enqueue_locked_def split: if_splits)
  next
    fix t ts assume found: "latest_upscale_task u a (dr_tasks w) = Inr (t, ts)" "x = Inr t" "w1 = w\<lparr>dr_tasks := ts\<rparr>"
    then have w1: "w1 = w" by (auto elim: latest_found)
    obtain task w2 where shown: "task_from_record e t w = (task, w2)" by (metis prod.exhaust)
    note same = task_from_record_frame[OF shown]
    show ?thesis
    proof (cases "ut_status t = UpscaleStatusFailed \<or> ut_status t = UpscaleStatusDone \<and> uk_result task = None")
      case True
      then have "\<exists>w3 \<in> {w, w2}. enqueue_new e u o' a w3 = (r, w')"
        using run call found(2) w1 shown by (auto simp: enqueue_locked_def)
      then obtain w3 where w3: "w3 = w \<or> w3 = w2" "enqueue_new e u o' a w3 = (r, w')" by blast
      with same have "dr_tasks w3 = dr_tasks w \<and> dr_queue w3 = dr_queue w" by auto
      then show ?thesis using new[OF _ _ w3(2)] now found(1) True room_frame[of w3 w] by (auto simp: task_active_def)
    next
      case False
      then have "w' = w2" using run call found(2) w1 shown by (auto simp: enqueue_locked_def split: upscale_status.splits)
      then show ?thesis using room_frame[OF same] by simp
    qed
  qed (use run call in \<open>auto simp: enqueue_locked_def\<close>)
qed

lemma write_back_runs:
  assumes alone: "works_alone e" and f: "f = mark_upscale_done now uid res \<or> f = mark_upscale_failed now uid code msg"
    and run: "upscale_repo e p f w = (x, w')"
  shows "upscale_step cap (room_of w d (Working uid) b lost) (room_of w' d Idle b lost)"
proof -
  let ?r = "room_of w d (Working uid) b lost"
  from repo_alone[OF alone run] consider "w' = w" | z ts where "f (dr_tasks w) = Inr (z, ts)" "w' = w\<lparr>dr_tasks := ts\<rparr>" by blast
  then show ?thesis
  proof cases
    case 1
    then show ?thesis using write_failed[of ?r uid cap] by (simp add: room_of_def)
  next
    case (2 z ts)
    then show ?thesis using f upscale_step.finish[of ?r uid now res z ts cap] upscale_step.fail[of ?r uid now code msg z ts cap]
      by (auto simp: room_of_def)
  qed
qed

lemma work_runs:
  assumes alone: "works_alone e" and work: "execute_upscale e u o' a w2 = (res, w3)"
    and w': "w' = (if ue_closed e then w3
         else case res of
                Inl err \<Rightarrow> (case upscale_failure_text err of (message, code) \<Rightarrow>
                  snd (upscale_repo e FailTask (mark_upscale_failed (ue_db_now e FailTask) uid code message) w3))
              | Inr a \<Rightarrow> snd (upscale_repo e FinishTask (mark_upscale_done (ue_db_now e FinishTask) uid (as_uid a)) w3))"
  shows "\<exists>h. (upscale_step cap)\<^sup>*\<^sup>* (room_of w2 d (Working uid) b lost) (room_of w' d h b lost) \<and> (h = Idle \<or> ue_closed e \<and> h = Working uid)"
proof -
  have same: "room_of w3 d (Working uid) b lost = room_of w2 d (Working uid) b lost" by (rule room_frame[OF execute_frame[OF work]])
  note written = write_back_runs[OF alone _ prod.collapse[symmetric], where cap = cap and d = d and b = b and lost = lost]
  show ?thesis
  proof (cases "ue_closed e")
    case True
    with w' same show ?thesis by (intro exI[of _ "Working uid"]) simp
  next
    case False
    have "upscale_step cap (room_of w3 d (Working uid) b lost) (room_of w' d Idle b lost)"
    proof (cases res)
      case (Inl err)
      with w' False written show ?thesis by (simp split: prod.split) blast
    next
      case (Inr a)
      with w' False written show ?thesis by simp blast
    qed
    with same show ?thesis by (metis r_into_rtranclp)
  qed
qed

lemma process_runs:
  assumes alone: "works_alone e" and run: "process_upscale e uid w = w'"
  shows "\<exists>h lost'. (upscale_step cap)\<^sup>*\<^sup>* (room_of w d (Took uid) b lost) (room_of w' d h b lost') \<and>
    (h = Idle \<or> ue_closed e \<and> h = Working uid)"
proof -
  let ?r = "room_of w d (Took uid) b lost"
  have drop: "upscale_step cap ?r (room_of w d Idle b (insert uid lost))"
    using call_failed[of ?r uid cap] by (simp add: room_of_def)
  obtain x w1 where read: "upscale_repo e ReadTask (get_upscale_task uid) w = (x, w1)" by (metis prod.exhaust)
  have w1: "w1 = w" using repo_alone[OF alone read] by (auto simp: get_upscale_task_def split: option.splits)
  show ?thesis
  proof (cases "\<exists>t. x = Inr t \<and> ut_status t = UpscaleStatusQueued")
    case False
    then have "w' = w" using run read w1 by (auto simp: process_upscale_def split: sum.splits)
    with drop show ?thesis by blast
  next
    case True
    then obtain t where t: "x = Inr t" "ut_status t = UpscaleStatusQueued" by blast
    obtain y w2 where claim: "upscale_repo e ClaimTask (mark_upscale_running (ue_db_now e ClaimTask) uid) w = (y, w2)" by (metis prod.exhaust)
    show ?thesis
    proof (cases y)
      case (Inl err)
      then have "w' = w2" "w2 = w" using run read w1 t claim repo_alone[OF alone claim] by (auto simp: process_upscale_def)
      with drop show ?thesis by blast
    next
      case (Inr z)
      then obtain ts where ts: "mark_upscale_running (ue_db_now e ClaimTask) uid (dr_tasks w) = Inr (z, ts)" "w2 = w\<lparr>dr_tasks := ts\<rparr>"
        using repo_alone[OF alone claim] by auto
      have took: "upscale_step cap ?r (room_of w2 d (Working uid) b lost)"
        using upscale_step.claim[of ?r uid _ z ts cap] ts by (simp add: room_of_def)
      obtain res w3 where work: "execute_upscale e (ut_user_id t) (ut_origin t) (ut_asset_uid t) w2 = (res, w3)" by (metis prod.exhaust)
      have "\<exists>h. (upscale_step cap)\<^sup>*\<^sup>* (room_of w2 d (Working uid) b lost) (room_of w' d h b lost) \<and> (h = Idle \<or> ue_closed e \<and> h = Working uid)"
        by (rule work_runs[OF alone work]) (use run read w1 t claim Inr work in \<open>simp add: process_upscale_def\<close>)
      with took show ?thesis by (metis converse_rtranclp_into_rtranclp)
    qed
  qed
qed

lemma process_all_runs:
  assumes alone: "\<And>n. works_alone (env n)" and closing: "\<And>n. ue_closed (env n) \<Longrightarrow> ue_stopped (env (Suc n))"
  shows "\<exists>h b lost'. (upscale_step cap)\<^sup>*\<^sup>* (room_of w d Idle uids lost) (room_of (process_all env n uids w) d h b lost') \<and>
    ((\<forall>n. \<not> ue_closed (env n) \<and> \<not> ue_stopped (env n)) \<longrightarrow> h = Idle \<and> b = [])"
proof (induction uids arbitrary: w n lost)
  case (Cons uid uids)
  show ?case
  proof (cases "ue_stopped (env n)")
    case True
    then show ?thesis by auto
  next
    case False
    let ?w1 = "process_upscale (env n) uid w"
    have taken: "upscale_step cap (room_of w d Idle (uid # uids) lost) (room_of w d (Took uid) uids lost)"
      using take_old[of "room_of w d Idle (uid # uids) lost" uid uids cap] by (simp add: room_of_def)
    obtain h lost1 where run: "(upscale_step cap)\<^sup>*\<^sup>* (room_of w d (Took uid) uids lost) (room_of ?w1 d h uids lost1)"
      and h: "h = Idle \<or> ue_closed (env n) \<and> h = Working uid" using process_runs[OF alone] by metis
    have first: "(upscale_step cap)\<^sup>*\<^sup>* (room_of w d Idle (uid # uids) lost) (room_of ?w1 d h uids lost1)"
      using taken run by (rule converse_rtranclp_into_rtranclp)
    show ?thesis
    proof (cases "h = Idle")
      case True
      obtain h2 b2 lost2 where rest: "(upscale_step cap)\<^sup>*\<^sup>* (room_of ?w1 d Idle uids lost1) (room_of (process_all env (Suc n) uids ?w1) d h2 b2 lost2)"
        and ends: "(\<forall>n. \<not> ue_closed (env n) \<and> \<not> ue_stopped (env n)) \<longrightarrow> h2 = Idle \<and> b2 = []" using Cons.IH by blast
      from first[unfolded True] rest have "(upscale_step cap)\<^sup>*\<^sup>* (room_of w d Idle (uid # uids) lost) (room_of (process_all env (Suc n) uids ?w1) d h2 b2 lost2)"
        by (rule rtranclp_trans)
      with ends False show ?thesis by (simp only: process_all.simps if_False) blast
    next
      case nidle: False
      with h closing have "process_all env (Suc n) uids ?w1 = ?w1" by (cases uids) auto
      with first False nidle h show ?thesis by auto
    qed
  qed
qed auto

lemma recover_runs:
  assumes alone: "works_alone e" "\<And>n. works_alone (env n)" and closing: "\<And>n. ue_closed (env n) \<Longrightarrow> ue_stopped (env (Suc n))"
  shows "\<exists>h b lost'. (upscale_step cap)\<^sup>*\<^sup>* (room_of w d Starting [] lost) (room_of (recover_pending e env w) d h b lost') \<and>
    ((\<forall>n. \<not> ue_closed (env n) \<and> \<not> ue_stopped (env n)) \<longrightarrow> h = Idle \<and> b = [])"
proof -
  let ?r = "room_of w d Starting [] lost"
  obtain x w1 where call: "upscale_repo e RequeueRunning (requeue_interrupted (ue_db_now e RequeueRunning)) w = (x, w1)" by (metis prod.exhaust)
  obtain y w2 where reading: "upscale_repo e ReadQueued (list_queued_upscales upscale_recover_limit) w1 = (y, w2)" by (metis prod.exhaust)
  have skipped: "upscale_step cap (room_of v d st [] l) (room_of v d Idle [] (queued_uids (dr_tasks v) - set (dr_queue v)))"
    if "st = Starting \<or> st = Requeued" for v st l
    using that no_recovery[of "room_of v d st [] l" cap] by (simp add: room_of_def)
  from repo_alone[OF alone(1) call] consider (bad) err where "x = Inl err" "w1 = w"
    | (good) k ts where "requeue_interrupted (ue_db_now e RequeueRunning) (dr_tasks w) = Inr (k, ts)" "x = Inr k" "w1 = w\<lparr>dr_tasks := ts\<rparr>"
    by (auto simp: requeue_interrupted_def Let_def)
  then show ?thesis
  proof cases
    case bad
    then have "recover_pending e env w = w" using call by (simp add: recover_pending_def)
    with skipped[of Starting w lost] show ?thesis by (metis r_into_rtranclp)
  next
    case good
    have requeued: "upscale_step cap ?r (room_of w1 d Requeued [] lost)"
      using requeue[of ?r _ k ts cap] good by (simp add: room_of_def)
    show ?thesis
    proof (cases y)
      case (Inl err)
      then have "w2 = w1" using repo_alone[OF alone(1) reading] by (auto simp: list_queued_upscales_def)
      with Inl have "recover_pending e env w = w1" using call good(2) reading by (simp add: recover_pending_def)
      with requeued skipped[of Requeued w1 lost] show ?thesis by (metis converse_rtranclp_into_rtranclp r_into_rtranclp)
    next
      case (Inr pending)
      then have listed: "list_queued_upscales upscale_recover_limit (dr_tasks w1) = Inr (pending, dr_tasks w1)" "w2 = w1"
        using repo_alone[OF alone(1) reading] by (auto simp: list_queued_upscales_def)
      then have run: "recover_pending e env w = process_all env 0 (map ut_uid pending) w1"
        using call good(2) reading Inr by (simp add: recover_pending_def)
      obtain l where "upscale_step cap (room_of w1 d Requeued [] lost) (room_of w1 d Idle (map ut_uid pending) l)"
        using read_old[of "room_of w1 d Requeued [] lost" pending "dr_tasks w1" cap] listed(1) by (simp add: room_of_def)
      with requeued have "(upscale_step cap)\<^sup>*\<^sup>* ?r (room_of w1 d Idle (map ut_uid pending) l)" by auto
      with process_all_runs[where env = env, OF alone(2) closing, where w = w1 and d = d and uids = "map ut_uid pending" and lost = l and n = 0 and cap = cap]
      show ?thesis unfolding run by (meson rtranclp_trans)
    qed
  qed
qed

lemma turn_runs:
  assumes alone: "works_alone e"
  shows "\<exists>h lost'. (upscale_step cap)\<^sup>*\<^sup>* (room_of w d Idle [] lost) (room_of (worker_turn e w) d h [] lost') \<and> (\<not> ue_closed e \<longrightarrow> h = Idle)"
proof (cases "dr_queue w")
  case (Cons uid q)
  let ?w1 = "w\<lparr>dr_queue := q\<rparr>"
  have taken: "upscale_step cap (room_of w d Idle [] lost) (room_of ?w1 d (Took uid) [] lost)"
    using take[of "room_of w d Idle [] lost" uid q cap] Cons by (simp add: room_of_def)
  obtain h lost' where "(upscale_step cap)\<^sup>*\<^sup>* (room_of ?w1 d (Took uid) [] lost) (room_of (worker_turn e w) d h [] lost')"
    and h: "h = Idle \<or> ue_closed e \<and> h = Working uid"
    using process_runs[OF alone, of uid ?w1 "worker_turn e w" cap d "[]" lost] Cons by (auto simp: worker_turn_def)
  with taken have "(upscale_step cap)\<^sup>*\<^sup>* (room_of w d Idle [] lost) (room_of (worker_turn e w) d h [] lost')"
    by (meson converse_rtranclp_into_rtranclp)
  with h show ?thesis by blast
qed (auto simp: worker_turn_def)

text \<open>Alone at the tables, the worker runs the protocol too, on every branch of the code, failing steps of the
  protocol included: a turn on the channel, and the recovery at the start
  with all the tasks it finds. Unless the service is being closed, it ends idle, with nothing left of the old tasks.\<close>

theorem worker_runs_protocol:
  assumes alone: "works_alone e" "\<And>n. works_alone (env n)" and closing: "\<And>n. ue_closed (env n) \<Longrightarrow> ue_stopped (env (Suc n))"
  shows "(\<exists>h lost'. (upscale_step cap)\<^sup>*\<^sup>* (room_of w d Idle [] lost) (room_of (worker_turn e w) d h [] lost') \<and>
       (\<not> ue_closed e \<longrightarrow> h = Idle)) \<and>
    (\<exists>h b lost'. (upscale_step cap)\<^sup>*\<^sup>* (room_of w d Starting [] lost) (room_of (recover_pending e env w) d h b lost') \<and>
       ((\<forall>n. \<not> ue_closed (env n) \<and> \<not> ue_stopped (env n)) \<longrightarrow> h = Idle \<and> b = []))"
  using turn_runs[OF alone(1)] recover_runs[where e = e and env = env, OF alone closing] by (intro conjI)

section \<open>A run\<close>

definition demo_upscale :: "local_state upscale_env" where
  "demo_upscale = \<lparr>ue_assets = (\<lambda>m. demo_env), ue_backend = (\<lambda>d n c. Inr d), ue_db_now = (\<lambda>p. 5), ue_new_uid = ''u1'',
     ue_queue_cap = 10, ue_stopped = False, ue_closed = False, ue_meanwhile = (\<lambda>p w. w), ue_fails = (\<lambda>p. None)\<rparr>"

definition demo_darkroom :: "local_state darkroom" where
  "demo_darkroom = \<lparr>dr_shelf = empty_shelf, dr_tasks = [], dr_queue = []\<rparr>"

definition demo_task :: upscale_task_record where
  "demo_task = \<lparr>ut_uid = ''u1'', ut_asset_uid = ''p1'', ut_user_id = 7, ut_origin = OriginWeb, ut_status = UpscaleStatusQueued,
     ut_result_asset_uid = None, ut_error_code = [], ut_error_message = [], ut_created_at = 5, ut_updated_at = 5\<rparr>"

definition demo_room :: room where
  "demo_room = \<lparr>rm_tasks = [demo_task], rm_queue = [''u1''], rm_desk = Unlocked, rm_hand = Idle, rm_backlog = [], rm_lost = {}\<rparr>"

lemma demo_uid: "trim_space ''u1'' = ''u1''"
  by (simp add: trim_space_ends plain_char_def)

lemma demo_insert: "insert_upscale_task 5 ''u1'' ''p1'' 7 OriginWeb [] = Inr (demo_task, [demo_task])"
  by (simp add: insert_upscale_task_def demo_uid scan_upscale_task_def demo_task_def Let_def)

lemma demo_alone: "works_alone demo_upscale"
  by (simp add: works_alone_def demo_upscale_def)

lemma demo_reachable: "upscale_reachable 10 demo_room"
proof -
  let ?a = "new_room\<lparr>rm_hand := Requeued\<rparr>" and ?b = "new_room\<lparr>rm_hand := Idle\<rparr>"
  let ?c = "?b\<lparr>rm_desk := Inserting 7 ''p1'' OriginWeb\<rparr>"
  have "upscale_step 10 new_room ?a"
    using requeue[of new_room 0 0 "[]" 10] by (simp add: new_room_def requeue_interrupted_def)
  moreover have "upscale_step 10 ?a ?b"
    using read_old[of ?a "[]" "[]" 10] by (simp add: new_room_def list_queued_upscales_def queued_uids_def)
  moreover have "upscale_step 10 ?b ?c"
    by (rule look) (simp_all add: new_room_def latest_upscale_task_def)
  moreover have "upscale_step 10 ?c demo_room"
    using insert_ok[of ?c 7 "''p1''" OriginWeb 5 "''u1''" demo_task "[demo_task]" 10] demo_insert demo_uid
    by (simp add: new_room_def demo_room_def demo_task_def)
  ultimately show ?thesis by (meson converse_rtranclp_into_rtranclp rtranclp.rtrancl_refl)
qed

theorem one_task_per_photo_witness:
  "length (rm_queue demo_room) \<le> 10 \<and> demo_task \<in> set (rm_tasks demo_room) \<and> task_active demo_task"
  using one_task_per_photo[OF demo_reachable] by (simp add: demo_room_def demo_task_def task_active_def)

theorem waiting_task_is_known_witness:
  "(ut_uid demo_task \<in> set (rm_queue demo_room) \<or> rm_hand demo_room = Took (ut_uid demo_task)) \<and> rm_lost demo_room = {}"
  using waiting_task_is_known[OF demo_reachable, of demo_task] by (simp add: demo_room_def demo_task_def)

lemma demo_enqueue:
  "snd (enqueue_locked demo_upscale 7 OriginWeb ''p1'' demo_darkroom) = demo_darkroom\<lparr>dr_tasks := [demo_task], dr_queue := [''u1'']\<rparr>"
  using demo_insert
  by (simp add: enqueue_locked_def enqueue_new_def upscale_repo_def repo_call_def on_tasks_def latest_upscale_task_def
      task_from_record_def demo_upscale_def demo_darkroom_def demo_task_def not_found_err_def)

theorem enqueue_runs_protocol_witness:
  "(upscale_step 10)\<^sup>*\<^sup>* (room_of demo_darkroom Unlocked Idle [] {}) demo_room"
proof -
  let ?run = "enqueue_locked demo_upscale 7 OriginWeb ''p1'' demo_darkroom"
  have "(upscale_step 10)\<^sup>*\<^sup>* (room_of demo_darkroom Unlocked Idle [] {}) (room_of (snd ?run) Unlocked Idle [] {})"
    by (rule enqueue_runs_protocol[of demo_upscale 10 demo_darkroom 7 OriginWeb "''p1''" "fst ?run"])
      (simp_all add: demo_alone demo_uid, simp_all add: demo_upscale_def demo_darkroom_def demo_uid)
  moreover have "room_of (snd ?run) Unlocked Idle [] {} = demo_room"
    unfolding demo_enqueue by (simp add: room_of_def demo_room_def)
  ultimately show ?thesis by simp
qed

theorem worker_runs_protocol_witness:
  "(\<exists>h lost'. (upscale_step 10)\<^sup>*\<^sup>* demo_room
     (room_of (worker_turn demo_upscale (demo_darkroom\<lparr>dr_tasks := [demo_task], dr_queue := [''u1'']\<rparr>)) Unlocked h [] lost') \<and> h = Idle)"
proof -
  have room: "demo_room = room_of (demo_darkroom\<lparr>dr_tasks := [demo_task], dr_queue := [''u1'']\<rparr>) Unlocked Idle [] {}"
    by (simp add: room_of_def demo_room_def)
  have "\<not> ue_closed demo_upscale" by (simp add: demo_upscale_def)
  then show ?thesis
    unfolding room
    using worker_runs_protocol[of demo_upscale "\<lambda>n. demo_upscale" 10 "demo_darkroom\<lparr>dr_tasks := [demo_task], dr_queue := [''u1'']\<rparr>" Unlocked "{}"]
      demo_alone by blast
qed

end
