(* ===== verification/Utf8.thy ===== *)
theory Utf8
  imports DK_Prelude
begin

text \<open>
  Go's reading of a string as UTF-8: the table of \<open>utf8.DecodeRuneInString\<close>, the byte positions a
  \<open>range\<close> loop over a string visits, \<open>utf8.RuneCountInString\<close> and \<open>utf8.ValidString\<close>. The lemmas
  show what the callers rely on: a valid text is a sequence of characters, its character
  boundaries can be told from the bytes alone, and cutting at a boundary keeps the count.
\<close>

section \<open>Decoding\<close>

definition cont_byte :: "char \<Rightarrow> bool" where
  "cont_byte c \<longleftrightarrow> 128 \<le> (of_char c :: nat) \<and> (of_char c :: nat) \<le> 191"

text \<open>The width of the character a byte can start and the range of its second byte.\<close>

definition lead_byte :: "nat \<Rightarrow> (nat \<times> nat \<times> nat) option" where
  "lead_byte b =
     (if 194 \<le> b \<and> b \<le> 223 then Some (2, 128, 191)
      else if b = 224 then Some (3, 160, 191)
      else if b = 237 then Some (3, 128, 159)
      else if 225 \<le> b \<and> b \<le> 239 then Some (3, 128, 191)
      else if b = 240 then Some (4, 144, 191)
      else if 241 \<le> b \<and> b \<le> 243 then Some (4, 128, 191)
      else if b = 244 then Some (4, 128, 143)
      else None)"

fun decode_rune :: "string \<Rightarrow> nat option" where
  "decode_rune [] = None"
| "decode_rune (c # cs) =
     (if of_char c < (128 :: nat) then Some 1
      else case lead_byte (of_char c) of
        None \<Rightarrow> None
      | Some (n, lo, hi) \<Rightarrow>
          if length cs < n - 1 then None
          else if lo \<le> (of_char (hd cs) :: nat) \<and> (of_char (hd cs) :: nat) \<le> hi \<and> list_all cont_byte (take (n - 2) (tl cs))
          then Some n else None)"

text \<open>A byte that starts no character is read alone.\<close>

definition rune_size :: "string \<Rightarrow> nat" where
  "rune_size s = (case decode_rune s of None \<Rightarrow> 1 | Some n \<Rightarrow> n)"

lemma lead_byte_width: "lead_byte b = Some (n, lo, hi) \<Longrightarrow> 2 \<le> n \<and> 128 \<le> lo \<and> hi \<le> 191 \<and> 194 \<le> b"
  by (auto simp: lead_byte_def split: if_splits)

lemma decode_rune_pos: "decode_rune s = Some n \<Longrightarrow> 0 < n \<and> n \<le> length s"
  by (cases s) (auto split: if_splits option.splits dest: lead_byte_width)

lemma rune_size_pos [simp]: "0 < rune_size s"
  by (auto simp: rune_size_def split: option.splits dest: decode_rune_pos)

function rune_count :: "string \<Rightarrow> nat" where
  "rune_count s = (if s = [] then 0 else Suc (rune_count (drop (rune_size s) s)))"
  by pat_completeness auto
termination
  by (relation "measure length") auto

declare rune_count.simps [simp del]

lemma rune_count_Nil [simp]: "rune_count [] = 0"
  by (simp add: rune_count.simps)

lemma rune_count_step: "s \<noteq> [] \<Longrightarrow> rune_count s = Suc (rune_count (drop (rune_size s) s))"
  by (subst rune_count.simps) simp

text \<open>\<open>utf8.ValidString\<close>\<close>

function utf8_valid :: "string \<Rightarrow> bool" where
  "utf8_valid s = (if s = [] then True
                   else case decode_rune s of None \<Rightarrow> False | Some n \<Rightarrow> utf8_valid (drop n s))"
  by pat_completeness auto
termination
  by (relation "measure length") (auto dest!: decode_rune_pos)

declare utf8_valid.simps [simp del]

section \<open>Characters\<close>

text \<open>A valid text is the concatenation of characters.\<close>

definition is_rune :: "string \<Rightarrow> bool" where
  "is_rune r \<longleftrightarrow> decode_rune r = Some (length r)"

lemma decode_rune_append: "decode_rune s = Some n \<Longrightarrow> decode_rune (s @ t) = Some n"
proof (cases s)
  case (Cons c cs)
  assume "decode_rune s = Some n"
  then show ?thesis
  proof (cases "of_char c < (128 :: nat)")
    case False
    with Cons \<open>decode_rune s = Some n\<close> obtain lo hi where l: "lead_byte (of_char c) = Some (n, lo, hi)"
      and len: "n - 1 \<le> length cs" and lohi: "lo \<le> (of_char (hd cs) :: nat)" "(of_char (hd cs) :: nat) \<le> hi"
      and cont: "list_all cont_byte (take (n - 2) (tl cs))"
      by (auto split: option.splits if_splits)
    from l have "2 \<le> n" by (simp add: lead_byte_width)
    with len have "cs \<noteq> []" and "n - 2 \<le> length (tl cs)" by auto
    with False Cons l len lohi cont show ?thesis by simp
  qed (use Cons \<open>decode_rune s = Some n\<close> in auto)
qed simp

lemma decode_rune_take: "decode_rune s = Some n \<Longrightarrow> n \<le> j \<Longrightarrow> decode_rune (take j s) = Some n"
proof (cases s)
  case (Cons c cs)
  assume d: "decode_rune s = Some n" and "n \<le> j"
  with decode_rune_pos[OF d] obtain k where j: "j = Suc k" by (cases j) auto
  show ?thesis
  proof (cases "of_char c < (128 :: nat)")
    case False
    with Cons d obtain lo hi where l: "lead_byte (of_char c) = Some (n, lo, hi)"
      and len: "n - 1 \<le> length cs" and lohi: "lo \<le> (of_char (hd cs) :: nat)" "(of_char (hd cs) :: nat) \<le> hi"
      and cont: "list_all cont_byte (take (n - 2) (tl cs))"
      by (auto split: option.splits if_splits)
    from l have "2 \<le> n" by (simp add: lead_byte_width)
    moreover have "n - 1 \<le> k" using \<open>n \<le> j\<close> j by simp
    ultimately obtain m where k: "k = Suc m" and m: "n - 2 \<le> m" by (cases k) auto
    obtain x xs where cs: "cs = x # xs" using len \<open>2 \<le> n\<close> by (cases cs) auto
    have "take (n - 2) (take m xs) = take (n - 2) xs" using m by (simp add: min_absorb1)
    with False Cons l len lohi cont j k cs m \<open>2 \<le> n\<close> show ?thesis by auto
  qed (use Cons d j in auto)
qed simp

lemma rune_size_take: "rune_size s \<le> j \<Longrightarrow> rune_size (take j s) = rune_size s"
proof (cases "decode_rune s")
  case None
  have "decode_rune (take j s) = None"
  proof (rule ccontr)
    assume "decode_rune (take j s) \<noteq> None"
    then obtain n where "decode_rune (take j s) = Some n" by blast
    from decode_rune_append[OF this, of "drop j s"] None show False by simp
  qed
  with None show ?thesis by (simp add: rune_size_def)
next
  case (Some n)
  assume "rune_size s \<le> j"
  with Some decode_rune_take[OF Some] show ?thesis by (simp add: rune_size_def)
qed

lemma decode_rune_is_rune: "decode_rune s = Some n \<Longrightarrow> is_rune (take n s)"
  using decode_rune_take[of s n n] decode_rune_pos[of s n] by (simp add: is_rune_def min_absorb2)

lemma is_rune_size: "is_rune r \<Longrightarrow> rune_size (r @ s) = length r"
  using decode_rune_append[of r "length r" s] by (simp add: is_rune_def rune_size_def)

lemma is_rune_nonempty: "is_rune r \<Longrightarrow> r \<noteq> []"
  by (auto simp: is_rune_def)

lemma is_rune_bytes:
  assumes "is_rune r"
  shows "\<not> cont_byte (hd r) \<and> list_all cont_byte (tl r)"
proof (cases r)
  case (Cons c cs)
  show ?thesis
  proof (cases "of_char c < (128 :: nat)")
    case True
    with assms Cons show ?thesis by (auto simp: is_rune_def cont_byte_def)
  next
    case False
    with assms Cons obtain lo hi where l: "lead_byte (of_char c) = Some (Suc (length cs), lo, hi)"
      and lohi: "lo \<le> (of_char (hd cs) :: nat)" "(of_char (hd cs) :: nat) \<le> hi"
      and cont: "list_all cont_byte (take (length cs - 1) (tl cs))"
      by (auto simp: is_rune_def split: option.splits if_splits)
    from l have b: "194 \<le> (of_char c :: nat)" "1 \<le> length cs" "128 \<le> lo" "hi \<le> 191" by (auto dest: lead_byte_width)
    obtain x xs where cs: "cs = x # xs" using b(2) by (cases cs) auto
    from cs lohi b have "cont_byte x" by (simp add: cont_byte_def)
    with Cons cs cont b(1) show ?thesis by (simp add: cont_byte_def)
  qed
qed (use assms in \<open>simp add: is_rune_def\<close>)

lemma utf8_valid_Nil [simp]: "utf8_valid []"
  by (simp add: utf8_valid.simps)

lemma utf8_valid_Cons: "is_rune r \<Longrightarrow> utf8_valid (r @ s) = utf8_valid s"
  using is_rune_nonempty[of r] decode_rune_append[of r "length r" s]
  by (subst utf8_valid.simps) (simp add: is_rune_def)

lemma utf8_valid_iff: "utf8_valid s \<longleftrightarrow> (\<exists>rs. s = concat rs \<and> (\<forall>r \<in> set rs. is_rune r))"
proof
  assume "utf8_valid s"
  then show "\<exists>rs. s = concat rs \<and> (\<forall>r \<in> set rs. is_rune r)"
  proof (induction s rule: utf8_valid.induct)
    case (1 s)
    show ?case
    proof (cases "s = []")
      case True
      then show ?thesis by (intro exI[of _ "[]"]) simp
    next
      case False
      with "1.prems" obtain n where n: "decode_rune s = Some n" and v: "utf8_valid (drop n s)"
        by (auto simp: utf8_valid.simps[of s] split: option.splits)
      from "1.IH"[OF False n v] obtain rs where rs: "drop n s = concat rs" "\<forall>r \<in> set rs. is_rune r" by blast
      have "s = concat (take n s # rs)" by (simp flip: rs(1))
      with rs(2) decode_rune_is_rune[OF n] show ?thesis by (intro exI[of _ "take n s # rs"]) simp
    qed
  qed
next
  assume "\<exists>rs. s = concat rs \<and> (\<forall>r \<in> set rs. is_rune r)"
  then obtain rs where "s = concat rs" "\<forall>r \<in> set rs. is_rune r" by blast
  then show "utf8_valid s" by (induction rs arbitrary: s) (auto simp: utf8_valid_Cons)
qed

lemma rune_count_Cons: "is_rune r \<Longrightarrow> rune_count (r @ s) = Suc (rune_count s)"
  using is_rune_nonempty[of r] by (simp add: rune_count_step is_rune_size)

lemma rune_count_append: "utf8_valid a \<Longrightarrow> rune_count (a @ b) = rune_count a + rune_count b"
proof -
  assume "utf8_valid a"
  then obtain rs where "a = concat rs" "\<forall>r \<in> set rs. is_rune r" by (auto simp: utf8_valid_iff)
  then show ?thesis by (induction rs arbitrary: a) (simp_all add: rune_count_Cons)
qed

lemma utf8_valid_append: "utf8_valid a \<Longrightarrow> utf8_valid b \<Longrightarrow> utf8_valid (a @ b)"
  unfolding utf8_valid_iff by (metis UnE concat_append set_append)

text \<open>
  UTF-8 synchronises itself: in a valid text every byte that continues no character starts one, and
  what follows a valid piece is valid.
\<close>

lemma utf8_valid_suffix: "utf8_valid (a @ b) \<Longrightarrow> utf8_valid a \<Longrightarrow> utf8_valid b"
proof -
  assume v: "utf8_valid (a @ b)" and "utf8_valid a"
  then obtain rs where "a = concat rs" "\<forall>r \<in> set rs. is_rune r" by (auto simp: utf8_valid_iff)
  with v show "utf8_valid b" by (induction rs arbitrary: a) (auto simp: utf8_valid_Cons)
qed

lemma utf8_split:
  assumes "utf8_valid (a @ b)" and "b = [] \<or> \<not> cont_byte (hd b)"
  shows "utf8_valid a \<and> utf8_valid b"
proof -
  from assms(1) obtain rs where "a @ b = concat rs" "\<forall>r \<in> set rs. is_rune r" by (auto simp: utf8_valid_iff)
  then have "utf8_valid a"
  proof (induction rs arbitrary: a)
    case (Cons r rs)
    show ?case
    proof (cases "a = []")
      case False
      have "\<not> length a < length r"
      proof
        assume lt: "length a < length r"
        from Cons.prems(1) have eq: "a @ b = r @ concat rs" by simp
        then have take: "a = take (length a) r" using lt by (simp add: append_eq_append_conv_if)
        have b: "b = drop (length a) r @ concat rs" using eq lt by (simp add: append_eq_append_conv_if)
        have "drop (length a) r \<noteq> []" using lt by simp
        then have "hd b \<in> set (drop (length a) r)" and "b \<noteq> []" unfolding b by (simp_all add: hd_append)
        moreover have "set (drop (length a) r) \<subseteq> set (tl r)"
          using False by (cases a; cases r) (auto dest: in_set_dropD)
        moreover have "list_all cont_byte (tl r)" using is_rune_bytes[of r] Cons.prems(2) by simp
        ultimately show False using assms(2) by (auto simp: list_all_iff)
      qed
      define a' where "a' = drop (length r) a"
      have "take (length r) (a @ b) = r" using Cons.prems(1) by simp
      then have a: "a = r @ a'" using \<open>\<not> length a < length r\<close> by (metis a'_def append_take_drop_id linorder_not_le nless_le take_append take_all_iff append_Nil2 diff_is_0_eq take0)
      with Cons.prems(1) have "a' @ b = concat rs" by simp
      with a Cons show ?thesis by (simp add: utf8_valid_Cons)
    qed simp
  qed simp
  with utf8_valid_suffix[OF assms(1)] show ?thesis by simp
qed

lemma utf8_valid_hd: "utf8_valid s \<Longrightarrow> s \<noteq> [] \<Longrightarrow> \<not> cont_byte (hd s)"
proof -
  assume "utf8_valid s" "s \<noteq> []"
  then obtain r rs where "s = r @ concat rs" "is_rune r" unfolding utf8_valid_iff by (metis concat.simps list.exhaust list.set_intros(1))
  with is_rune_bytes is_rune_nonempty show ?thesis by (metis hd_append2)
qed

end
