(* ===== verification/Word_Check_Guarantees.thy ===== *)
theory Word_Check_Guarantees
  imports Word_Check
begin

text \<open>
  What the word check promises: it never panics on a dictionary that \<open>load_words\<close> built, every hit is an
  occurrence of its word, every occurrence lies within a hit, and the hits move strictly forward
  at both ends, so that none lies within another.
\<close>

section \<open>The scan\<close>

lemma index_of_Some:
  "index_of sub s = Some i \<Longrightarrow> has_prefix sub (drop i s) \<and> (\<forall>j < i. \<not> has_prefix sub (drop j s))"
proof (induction s arbitrary: i)
  case (Cons x xs)
  show ?case
  proof (cases "has_prefix sub (x # xs)")
    case False
    with Cons.prems obtain k where k: "index_of sub xs = Some k" and i: "i = Suc k" by auto
    from Cons.IH[OF k] False show ?thesis unfolding i by (auto simp: less_Suc_eq_0_disj)
  qed (use Cons.prems in auto)
qed (auto simp: has_prefix_def split: if_splits)

lemma index_of_None: "index_of sub s = None \<Longrightarrow> \<not> has_prefix sub (drop j s)"
proof (induction s arbitrary: j)
  case Nil
  then show ?case by (simp add: has_prefix_def split: if_splits)
next
  case (Cons x xs)
  then show ?case by (cases j) (auto split: if_splits)
qed

definition span_at :: "string \<Rightarrow> nat \<Rightarrow> span" where
  "span_at w i = \<lparr>sp_word = w, sp_start = i, sp_end = i + length w\<rparr>"

lemma span_at_simps [simp]:
  "sp_word (span_at w i) = w" "sp_start (span_at w i) = i" "sp_end (span_at w i) = i + length w"
  by (simp_all add: span_at_def)

lemma occurrence_inside: "w \<noteq> [] \<Longrightarrow> has_prefix w (drop i s) \<Longrightarrow> i + length w \<le> length s"
  by (cases "i \<le> length s") (auto simp: has_prefix_iff dest: arg_cong[of _ _ length])

lemma scan_word_all:
  assumes "w \<noteq> []" and "n \<le> length s"
  shows "\<exists>ss. scan_word w s n = Some ss \<and> set ss = {span_at w i | i. n \<le> i \<and> has_prefix w (drop i s)}"
  using assms
proof (induction w s n rule: scan_word.induct)
  case (1 w s n)
  show ?case
  proof (cases "index_of w (drop n s)")
    case None
    have "\<not> has_prefix w (drop i s)" if "n \<le> i" for i
      using index_of_None[OF None, of "i - n"] that by simp
    with None "1.prems" show ?thesis by (auto simp: scan_word.simps[of w s n])
  next
    case (Some k)
    note found = index_of_Some[OF Some]
    from found have here: "has_prefix w (drop (n + k) s)" by (simp add: add.commute)
    from occurrence_inside[OF "1.prems"(1) here] "1.prems"(1) have "n + k + 1 \<le> length s" by (cases w) auto
    with "1.IH"[OF _ Some] "1.prems" obtain ss where ss: "scan_word w s (n + k + 1) = Some ss"
      and set: "set ss = {span_at w i | i. n + k + 1 \<le> i \<and> has_prefix w (drop i s)}"
      by fastforce
    have first: "i = n + k \<or> n + k + 1 \<le> i" if "n \<le> i" and "has_prefix w (drop i s)" for i
    proof (rule ccontr)
      assume "\<not> (i = n + k \<or> n + k + 1 \<le> i)"
      then have "i - n < k" using that(1) by linarith
      with found have "\<not> has_prefix w (drop (i - n) (drop n s))" by blast
      with that show False by simp
    qed
    have "scan_word w s n = Some (span_at w (n + k) # ss)"
      using Some ss "1.prems"(2) by (simp add: scan_word.simps[of w s n] span_at_def)
    moreover have "set (span_at w (n + k) # ss) = {span_at w i | i. n \<le> i \<and> has_prefix w (drop i s)}"
      using set here first by (auto; metis le_add1 le_trans Suc_leD)
    ultimately show ?thesis by blast
  qed
qed

lemma scan_words_all:
  "[] \<notin> set ws \<Longrightarrow>
   \<exists>ss. scan_words ws s = Some ss \<and> set ss = {span_at w i | w i. w \<in> set ws \<and> has_prefix w (drop i s)}"
proof (induction ws)
  case (Cons w ws)
  then obtain ss where ss: "scan_words ws s = Some ss" "set ss = {span_at w i | w i. w \<in> set ws \<and> has_prefix w (drop i s)}"
    by auto
  from scan_word_all[of w 0 s] Cons.prems obtain ts where
    ts: "scan_word w s 0 = Some ts" "set ts = {span_at w i | i. has_prefix w (drop i s)}" by auto
  from ss ts show ?case by auto
qed simp

section \<open>Only the outermost spans\<close>

definition inside :: "span \<Rightarrow> span \<Rightarrow> bool" where
  "inside s k \<longleftrightarrow> sp_start k \<le> sp_start s \<and> sp_end s \<le> sp_end k"

lemma inside_refl [simp]: "inside s s"
  by (simp add: inside_def)

text \<open>Spans in the order of the sort, each starting and ending after the one before it.\<close>

definition forward :: "span list \<Rightarrow> bool" where
  "forward = sorted_wrt (\<lambda>s t. sp_start s < sp_start t \<and> sp_end s < sp_end t)"

definition span_order :: "span \<Rightarrow> span \<Rightarrow> bool" where
  "span_order s t \<longleftrightarrow> sp_start s < sp_start t \<or> sp_start s = sp_start t \<and> sp_end t \<le> sp_end s"

lemma sort_spans_set [simp]: "set (sort_spans ss) = set ss"
  by (simp add: sort_spans_def)

lemma sort_spans_order: "sorted_wrt span_order (sort_spans ss)"
proof -
  have "sorted (map (\<lambda>s. (sp_start s, - int (sp_end s), sp_word s)) (sort_spans ss))"
    unfolding sort_spans_def by (rule sorted_sort_key)
  then show ?thesis unfolding sorted_map
    by (rule sorted_wrt_mono_rel[rotated]) (auto simp: span_order_def less_eq_prod_def)
qed

lemma keep_outer_kept:
  "set kept \<subseteq> set (keep_outer kept ss) \<and> set (keep_outer kept ss) \<subseteq> set kept \<union> set ss \<and>
   (\<forall>s \<in> set ss. \<exists>k \<in> set (keep_outer kept ss). inside s k)"
proof (induction ss arbitrary: kept)
  case (Cons s ss)
  show ?case
  proof (cases "list_ex (\<lambda>k. sp_start k \<le> sp_start s \<and> sp_end s \<le> sp_end k) kept")
    case True
    then obtain k where "k \<in> set kept" "inside s k" by (auto simp: list_ex_iff inside_def)
    with True Cons.IH[of kept] show ?thesis by auto
  next
    case False
    with Cons.IH[of "kept @ [s]"] show ?thesis by (auto intro: inside_refl)
  qed
qed simp

lemma keep_outer_forward:
  assumes "forward kept" and "sorted_wrt span_order ss" and "\<forall>k \<in> set kept. \<forall>s \<in> set ss. span_order k s"
  shows "forward (keep_outer kept ss)"
  using assms
proof (induction ss arbitrary: kept)
  case (Cons s ss)
  show ?case
  proof (cases "list_ex (\<lambda>k. sp_start k \<le> sp_start s \<and> sp_end s \<le> sp_end k) kept")
    case False
    have "sp_start k < sp_start s \<and> sp_end k < sp_end s" if "k \<in> set kept" for k
      using False that Cons.prems(3) by (fastforce simp: list_ex_iff span_order_def)
    with Cons.prems(1) have "forward (kept @ [s])" by (simp add: forward_def sorted_wrt_append)
    with False Cons show ?thesis by auto
  qed (use Cons in auto)
qed simp

section \<open>From bytes to characters\<close>

text \<open>The byte positions at which the loop over a text starts a character, and the end.\<close>

function at_rune :: "string \<Rightarrow> nat \<Rightarrow> bool" where
  "at_rune s k =
     (if k = 0 then True
      else if s = [] \<or> k < rune_size s then False
      else at_rune (drop (rune_size s) s) (k - rune_size s))"
  by pat_completeness auto
termination
  by (relation "measure (\<lambda>(s, _). length s)") auto

declare at_rune.simps [simp del]

lemma at_rune_0 [simp]: "at_rune s 0"
  by (subst at_rune.simps) simp

lemma at_rune_step:
  "s \<noteq> [] \<Longrightarrow> 0 < k \<Longrightarrow> at_rune s k \<longleftrightarrow> rune_size s \<le> k \<and> at_rune (drop (rune_size s) s) (k - rune_size s)"
  by (subst at_rune.simps) (simp add: linorder_not_less)

lemma rune_size_le: "s \<noteq> [] \<Longrightarrow> rune_size s \<le> length s"
  by (cases "decode_rune s") (use decode_rune_pos[of s] in \<open>auto simp: rune_size_def Suc_le_eq\<close>)

lemma at_rune_le: "at_rune s k \<Longrightarrow> k \<le> length s"
proof (induction s k rule: at_rune.induct)
  case (1 s k)
  show ?case
  proof (cases "k = 0")
    case False
    with "1.prems" have k: "s \<noteq> []" "rune_size s \<le> k" "at_rune (drop (rune_size s) s) (k - rune_size s)"
      by (auto simp: at_rune.simps[of s k] split: if_splits)
    with "1.IH" False have "k - rune_size s \<le> length s - rune_size s" by simp
    with rune_size_le[OF k(1)] show ?thesis by linarith
  qed simp
qed

lemma at_rune_length [simp]: "at_rune s (length s)"
proof (induction "length s" arbitrary: s rule: less_induct)
  case less
  show ?case
  proof (cases "s = []")
    case False
    with less[of "drop (rune_size s) s"] show ?thesis by (simp add: at_rune_step rune_size_le)
  qed simp
qed

lemma rune_count_take:
  assumes "s \<noteq> []" and "rune_size s \<le> k"
  shows "rune_count (take k s) = Suc (rune_count (take (k - rune_size s) (drop (rune_size s) s)))"
proof -
  have "take k s \<noteq> []" using assms rune_size_pos[of s] by (auto simp del: rune_size_pos)
  with assms show ?thesis by (simp add: rune_count_step rune_size_take drop_take)
qed

lemma rune_count_mono:
  "at_rune s i \<Longrightarrow> at_rune s j \<Longrightarrow> i < j \<Longrightarrow> rune_count (take i s) < rune_count (take j s)"
proof (induction s i arbitrary: j rule: at_rune.induct)
  case (1 s i)
  have s: "s \<noteq> []" using at_rune_le[OF "1.prems"(2)] "1.prems"(3) by auto
  with "1.prems" have j: "rune_size s \<le> j" "at_rune (drop (rune_size s) s) (j - rune_size s)"
    by (simp_all add: at_rune_step)
  show ?case
  proof (cases "i = 0")
    case False
    with s "1.prems"(1) have i: "rune_size s \<le> i" "at_rune (drop (rune_size s) s) (i - rune_size s)"
      by (simp_all add: at_rune_step)
    have "i - rune_size s < j - rune_size s" using i(1) "1.prems"(3) by simp
    with "1.IH"[OF False _ i(2) j(2)] s i(1) show ?thesis by (simp add: rune_count_take s i(1) j(1))
  qed (simp add: rune_count_take s j(1))
qed

lemma rune_count_mono_le:
  "at_rune s i \<Longrightarrow> at_rune s j \<Longrightarrow> i \<le> j \<Longrightarrow> rune_count (take i s) \<le> rune_count (take j s)"
  using rune_count_mono[of s i j] by (cases "i = j") auto

lemma at_rune_valid: "utf8_valid a \<Longrightarrow> at_rune (a @ b) (length a)"
proof -
  assume "utf8_valid a"
  then obtain rs where "a = concat rs" "\<forall>r \<in> set rs. is_rune r" by (auto simp: utf8_valid_iff)
  then show ?thesis
    by (induction rs arbitrary: a) (auto simp: at_rune_step is_rune_size is_rune_nonempty)
qed

lemma index_runes_eq:
  "index_runes s b r m =
   (\<lambda>p. if m p \<noteq> None \<and> b \<le> p \<and> p < b + length s \<and> at_rune s (p - b) then Some (r + int (rune_count (take (p - b) s))) else m p,
    r + int (rune_count s))"
proof (induction s b r m rule: index_runes.induct)
  case (1 s b r m)
  show ?case
  proof (cases "s = []")
    case False
    let ?n = "rune_size s"
    have n: "0 < ?n" "?n \<le> length s" using rune_size_le[OF False] by simp_all
    have pos: "(if m p \<noteq> None \<and> b \<le> p \<and> p < b + length s \<and> at_rune s (p - b) then Some (r + int (rune_count (take (p - b) s))) else m p) =
      (let m' = (if m b \<noteq> None then m(b \<mapsto> r) else m)
       in if m' p \<noteq> None \<and> b + ?n \<le> p \<and> p < b + ?n + length (drop ?n s) \<and> at_rune (drop ?n s) (p - (b + ?n))
          then Some (r + 1 + int (rune_count (take (p - (b + ?n)) (drop ?n s)))) else m' p)" for p
    proof (cases "b < p")
      case True
      then have "0 < p - b" by simp
      note at = at_rune_step[OF False this]
      show ?thesis
      proof (cases "b + ?n \<le> p")
        case True
        with n have "rune_count (take (p - b) s) = Suc (rune_count (take (p - (b + ?n)) (drop ?n s)))"
          using rune_count_take[OF False, of "p - b"] by simp
        with True n at show ?thesis by (auto simp: Let_def)
      qed (use at True in \<open>auto simp: Let_def\<close>)
    next
      case before: False
      with n show ?thesis using False by (cases "b = p") (auto simp: Let_def)
    qed
    show ?thesis
      using "1.IH"[OF False] False pos
      by (simp add: index_runes.simps[of s b r m] rune_count_step[of s] Let_def fun_eq_iff)
  qed (auto simp: index_runes.simps[of "[]"] fun_eq_iff)
qed

lemma needed_bounds_values:
  "needed_bounds kept p = (if \<exists>s \<in> set kept. p = sp_start s \<or> p = sp_end s then Some (- 1) else None)"
proof -
  have "foldl (\<lambda>m s. m(sp_start s \<mapsto> - 1, sp_end s \<mapsto> - 1)) m kept p =
    (if \<exists>s \<in> set kept. p = sp_start s \<or> p = sp_end s then Some (- 1 :: int) else m p)" for m
    by (induction kept arbitrary: m) auto
  then show ?thesis by (simp add: needed_bounds_def)
qed

definition aligned :: "string \<Rightarrow> span \<Rightarrow> bool" where
  "aligned s k \<longleftrightarrow> at_rune s (sp_start k) \<and> at_rune s (sp_end k)"

definition hit_of :: "string \<Rightarrow> span \<Rightarrow> hit" where
  "hit_of s k = \<lparr>hit_word = sp_word k, hit_start = int (rune_count (take (sp_start k) s)), hit_end = int (rune_count (take (sp_end k) s))\<rparr>"

lemma hit_of_simps [simp]:
  "hit_word (hit_of s k) = sp_word k" "hit_start (hit_of s k) = int (rune_count (take (sp_start k) s))"
  "hit_end (hit_of s k) = int (rune_count (take (sp_end k) s))"
  by (simp_all add: hit_of_def)

lemma rune_bounds_index:
  assumes "k \<in> set kept" and "p = sp_start k \<or> p = sp_end k"
  shows "map_index (rune_bounds s kept) p = (if at_rune s p then int (rune_count (take p s)) else - 1)"
proof -
  have "needed_bounds kept p = Some (- 1)" using assms by (auto simp: needed_bounds_values)
  then show ?thesis using at_rune_le[of s p]
    by (cases "p = length s") (auto simp: rune_bounds_def map_index_def index_runes_eq)
qed

lemma span_hits_eq:
  "k \<in> set kept \<Longrightarrow> span_hits (rune_bounds s kept) k = (if aligned s k then [hit_of s k] else [])"
  by (auto simp: span_hits_def Let_def rune_bounds_index aligned_def hit_of_def)

lemma concat_span_hits:
  "set ks \<subseteq> set kept \<Longrightarrow> concat (map (span_hits (rune_bounds s kept)) ks) = map (hit_of s) (filter (aligned s) ks)"
  by (induction ks) (auto simp: span_hits_eq)

section \<open>The whole check\<close>

lemma check_parts:
  assumes "[] \<notin> set ws"
  obtains kept where "check ws s = Some (map (hit_of s) (filter (aligned s) kept))" and "forward kept"
    and "\<And>k. k \<in> set kept \<Longrightarrow> sp_word k \<in> set ws \<and> has_prefix (sp_word k) (drop (sp_start k) (ascii_lower s)) \<and>
      k = span_at (sp_word k) (sp_start k)"
    and "\<And>w i. w \<in> set ws \<Longrightarrow> has_prefix w (drop i (ascii_lower s)) \<Longrightarrow> \<exists>k \<in> set kept. inside (span_at w i) k"
proof -
  from scan_words_all[OF assms] obtain ss where ss: "scan_words ws (ascii_lower s) = Some ss"
    and set: "set ss = {span_at w i | w i. w \<in> set ws \<and> has_prefix w (drop i (ascii_lower s))}" by blast
  define kept where "kept = keep_outer [] (sort_spans ss)"
  note parts = keep_outer_kept[of "[]" "sort_spans ss", folded kept_def]
  have none: "ss = []" if "s = [] \<or> ws = []"
    using that set assms by (cases ss) (auto simp: ascii_lower_def has_prefix_def)
  show thesis
  proof (rule that[of kept])
    have "concat (map (span_hits (rune_bounds s kept)) kept) = map (hit_of s) (filter (aligned s) kept)"
      by (simp add: concat_span_hits)
    then show "check ws s = Some (map (hit_of s) (filter (aligned s) kept))"
      using ss none by (auto simp: check_def kept_def sort_spans_def)
    show "forward kept" unfolding kept_def by (rule keep_outer_forward) (simp_all add: sort_spans_order forward_def)
    show "sp_word k \<in> set ws \<and> has_prefix (sp_word k) (drop (sp_start k) (ascii_lower s)) \<and> k = span_at (sp_word k) (sp_start k)"
      if "k \<in> set kept" for k
    proof -
      from that parts have "k \<in> set ss" by auto
      with set show ?thesis by auto
    qed
    show "\<exists>k \<in> set kept. inside (span_at w i) k" if "w \<in> set ws" "has_prefix w (drop i (ascii_lower s))" for w i
    proof -
      from that set have "span_at w i \<in> set ss" by blast
      with parts show ?thesis by simp
    qed
  qed
qed

section \<open>The dictionary\<close>

lemma ascii_lower_map: "ascii_lower s = map (\<lambda>c. if ascii_upper c then char_of ((of_char c :: nat) + 32) else c) s"
  by (auto simp: ascii_lower_def list_ex_iff intro!: map_idI[symmetric])

lemma length_ascii_lower [simp]: "length (ascii_lower s) = length s"
  by (simp add: ascii_lower_map)

lemma ascii_lower_Nil_iff [simp]: "ascii_lower s = [] \<longleftrightarrow> s = []"
  by (simp add: ascii_lower_map)

lemma ascii_lower_append: "ascii_lower (a @ b) = ascii_lower a @ ascii_lower b"
  by (simp add: ascii_lower_map)

lemma ascii_lower_take: "ascii_lower (take n s) = take n (ascii_lower s)"
  by (simp add: ascii_lower_map take_map)

lemma ascii_lower_drop: "ascii_lower (drop n s) = drop n (ascii_lower s)"
  by (simp add: ascii_lower_map drop_map)

text \<open>A Latin letter stays a character of one byte, and every other byte stays as it is.\<close>

lemma lowered_byte:
  "ascii_upper c \<Longrightarrow> of_char (char_of ((of_char c :: nat) + 32)) = (of_char c :: nat) + 32 \<and> (of_char c :: nat) < 128"
  by (simp add: ascii_upper_def)

lemma ascii_lower_rune: "is_rune r \<Longrightarrow> is_rune (ascii_lower r)"
proof (cases r)
  case (Cons c cs)
  assume r: "is_rune r"
  show ?thesis
  proof (cases "of_char c < (128 :: nat)")
    case True
    with r Cons have "r = [c]" by (simp add: is_rune_def)
    with True show ?thesis by (auto simp: ascii_lower_map is_rune_def lowered_byte ascii_upper_def)
  next
    case False
    have "\<not> ascii_upper x" if "x \<in> set r" for x
    proof -
      from that Cons is_rune_bytes[OF r] have "x = c \<or> cont_byte x" by (auto simp: list_all_iff)
      with False show ?thesis by (auto simp: ascii_upper_def cont_byte_def)
    qed
    then have "ascii_lower r = r" by (auto simp: ascii_lower_def list_ex_iff)
    with r show ?thesis by simp
  qed
qed (simp add: is_rune_def)

lemma ascii_lower_valid: "utf8_valid s \<Longrightarrow> utf8_valid (ascii_lower s)"
proof -
  assume "utf8_valid s"
  then obtain rs where "s = concat rs" "\<forall>r \<in> set rs. is_rune r" by (auto simp: utf8_valid_iff)
  then show ?thesis
    by (induction rs arbitrary: s) (simp_all add: ascii_lower_append utf8_valid_Cons ascii_lower_rune, simp add: ascii_lower_def)
qed

text \<open>What \<open>load_words\<close> returns: words without repetition, in lower case and never empty.\<close>

definition word_line :: "string \<Rightarrow> bool" where
  "word_line l \<longleftrightarrow> trim_space l \<noteq> [] \<and> \<not> has_prefix ''#'' (trim_space l)"

definition line_word :: "string \<Rightarrow> string" where
  "line_word l = ascii_lower (trim_space l)"

lemma load_lines_step:
  "load_lines (l # ls) seen ws =
   (if \<not> word_line l \<or> seen (line_word l) then load_lines ls seen ws
    else load_lines ls (seen(line_word l := True)) (ws @ [line_word l]))"
  by (simp add: word_line_def line_word_def Let_def)

lemma ascii_lower_idem: "ascii_lower (ascii_lower s) = ascii_lower s"
  by (auto simp: ascii_lower_map ascii_upper_def)

lemma line_word_lower: "ascii_lower (line_word l) = line_word l"
  by (simp add: line_word_def ascii_lower_idem)

lemma line_word_nonempty: "word_line l \<Longrightarrow> line_word l \<noteq> []"
  by (simp add: word_line_def line_word_def)

lemma load_lines_words:
  "(\<And>w. seen w \<longleftrightarrow> w \<in> set ws) \<Longrightarrow> distinct ws \<Longrightarrow>
   distinct (load_lines ls seen ws) \<and> set (load_lines ls seen ws) = set ws \<union> line_word ` set (filter word_line ls)"
proof (induction ls arbitrary: seen ws)
  case (Cons l ls)
  show ?case
  proof (cases "\<not> word_line l \<or> seen (line_word l)")
    case True
    with Cons.IH[OF Cons.prems] Cons.prems(1) show ?thesis by (auto simp: load_lines_step simp del: load_lines.simps)
  next
    case False
    define seen' where "seen' = seen(line_word l := True)"
    from False Cons.prems have "seen' w \<longleftrightarrow> w \<in> set (ws @ [line_word l])" and "distinct (ws @ [line_word l])" for w
      by (auto simp: seen'_def)
    from Cons.IH[OF this] False show ?thesis by (simp add: load_lines_step seen'_def[symmetric] del: load_lines.simps)
  qed
qed simp

lemma load_words_words:
  "distinct (load_words raw) \<and> set (load_words raw) = line_word ` set (filter word_line (split_on CHR 0x0A raw))"
  using load_lines_words[of "\<lambda>_. False" "[]"] by (simp add: load_words_def)

lemma load_words_nonempty: "[] \<notin> set (load_words raw)"
proof
  assume "[] \<in> set (load_words raw)"
  with load_words_words[of raw] obtain l where "word_line l" and "[] = line_word l" by auto
  then show False using line_word_nonempty[of l] by simp
qed

text \<open>The words of a valid dictionary file are valid: lines and trimming cut between characters.\<close>

lemma rune_no_newline:
  assumes "is_rune r" and "r \<noteq> [c]" and "of_char c < (128 :: nat)"
  shows "c \<notin> set r"
proof (cases r)
  case (Cons x xs)
  from assms(3) have "\<not> cont_byte c" by (simp add: cont_byte_def)
  moreover have "list_all cont_byte xs" using is_rune_bytes[OF assms(1)] Cons by simp
  moreover have "x \<noteq> c"
  proof
    assume "x = c"
    with assms Cons show False by (auto simp: is_rune_def)
  qed
  ultimately show ?thesis using Cons by (auto simp: list_all_iff)
qed simp

lemma split_on_prepend:
  "c \<notin> set r \<Longrightarrow> \<exists>y ys. split_on c t = y # ys \<and> split_on c (r @ t) = (r @ y) # ys"
proof (induction r)
  case Nil
  have "split_on c t \<noteq> []" by (cases t) (auto split: list.splits)
  then show ?case by (cases "split_on c t") simp_all
qed auto

lemma split_on_valid:
  assumes "utf8_valid s" and "of_char c < (128 :: nat)" and "x \<in> set (split_on c s)"
  shows "utf8_valid x"
proof -
  from assms(1) obtain rs where "s = concat rs" "\<forall>r \<in> set rs. is_rune r" by (auto simp: utf8_valid_iff)
  with assms(3) show ?thesis
  proof (induction rs arbitrary: s x)
    case (Cons r rs)
    show ?case
    proof (cases "r = [c]")
      case False
      with Cons.prems assms(2) have "c \<notin> set r" by (simp add: rune_no_newline)
      from split_on_prepend[OF this, of "concat rs"] obtain y ys where
        y: "split_on c (concat rs) = y # ys" "split_on c (r @ concat rs) = (r @ y) # ys" by blast
      with Cons.IH[OF _ refl] Cons.prems have "\<forall>z \<in> set (y # ys). utf8_valid z" by simp
      with y Cons.prems show ?thesis by (auto simp: utf8_valid_Cons)
    qed (use Cons in auto)
  qed simp
qed

lemma strip_one_cuts:
  assumes "strip_one ps s = Some r"
  shows "\<exists>p \<in> set ps. s = p @ r"
proof -
  from assms obtain p where f: "find (\<lambda>p. p \<noteq> [] \<and> has_prefix p s) ps = Some p" and r: "r = drop (length p) s"
    by (auto simp: strip_one_def)
  from f have "p \<in> set ps \<and> has_prefix p s" by (auto simp: find_Some_iff)
  then show ?thesis by (auto simp: r has_prefix_iff)
qed

lemma strip_left_keeps:
  assumes step: "\<And>p r. p \<in> set ps \<Longrightarrow> P (p @ r) \<Longrightarrow> P r" and "P s"
  shows "P (strip_left ps s)"
  using assms(2)
proof (induction "length s" arbitrary: s rule: less_induct)
  case less
  show ?case
  proof (cases "strip_one ps s")
    case (Some r)
    with strip_one_cuts[OF Some] step less.prems have "P r" by blast
    with less.hyps[of r] strip_one_shorter[OF Some] Some show ?thesis by (simp add: strip_left.simps[of ps s])
  qed (use less.prems in \<open>simp add: strip_left.simps[of ps s]\<close>)
qed

lemma space_seqs_runes: "\<forall>p \<in> set space_seqs. is_rune p \<and> p \<noteq> [] \<and> \<not> cont_byte (hd p)"
  by (simp add: space_seqs_def bytes_def is_rune_def lead_byte_def cont_byte_def)

lemma trim_space_valid:
  assumes "utf8_valid s"
  shows "utf8_valid (trim_space s)"
proof -
  have left: "utf8_valid (strip_left space_seqs s)"
    by (rule strip_left_keeps[where P = utf8_valid]) (use assms space_seqs_runes in \<open>auto simp: utf8_valid_Cons\<close>)
  show ?thesis unfolding trim_space_def
  proof (rule strip_left_keeps[where P = "\<lambda>x. utf8_valid (rev x)"])
    show "utf8_valid (rev r)" if p: "p \<in> set (map rev space_seqs)" and v: "utf8_valid (rev (p @ r))" for p r
    proof -
      from p space_seqs_runes have "\<not> cont_byte (hd (rev p))" by auto
      with utf8_split[of "rev r" "rev p"] v show ?thesis by simp
    qed
  qed (simp add: left)
qed

lemma load_words_valid:
  assumes "utf8_valid raw" and "w \<in> set (load_words raw)"
  shows "utf8_valid w"
proof -
  from assms(2) load_words_words[of raw] obtain l where
    l: "l \<in> set (split_on CHR 0x0A raw)" and w: "w = line_word l" by auto
  from split_on_valid[OF assms(1) _ l] have "utf8_valid l" by simp
  then show ?thesis by (simp add: w line_word_def ascii_lower_valid trim_space_valid)
qed

section \<open>The guarantees\<close>

lemma occurrence_parts:
  assumes "has_prefix w (drop i (ascii_lower s))" and "k = span_at w i"
  shows "\<exists>a b c. s = a @ b @ c \<and> ascii_lower b = w \<and> rune_count (take i s) = rune_count a \<and>
    rune_count (take (sp_end k) s) = rune_count (a @ b)"
proof (intro exI conjI)
  show "s = take i s @ take (length w) (drop i s) @ drop (length w) (drop i s)"
    by (metis append_take_drop_id)
  show "ascii_lower (take (length w) (drop i s)) = w"
    using assms(1) by (simp add: ascii_lower_take ascii_lower_drop has_prefix_def)
  show "rune_count (take (sp_end k) s) = rune_count (take i s @ take (length w) (drop i s))"
    by (simp add: assms(2) take_add)
qed simp

text \<open>C26: Every report of the word check is right. Whatever the dictionary file and the text, the
  check does not panic, every hit is a place of the text that reads like a word of the dictionary
  when Latin capitals are lowered, its positions count characters, and the hits move
  strictly forward at both ends, so that no hit lies within another and none is repeated.
\<close>

theorem word_check_reports_occurrences:
  shows "\<exists>hits. check (load_words raw) txt = Some hits \<and>
     sorted_wrt (\<lambda>g h. hit_start g < hit_start h \<and> hit_end g < hit_end h) hits \<and>
     (\<forall>h \<in> set hits. hit_word h \<in> set (load_words raw) \<and>
        (\<exists>a b c. txt = a @ b @ c \<and> ascii_lower b = hit_word h \<and>
           hit_start h = int (rune_count a) \<and> hit_end h = int (rune_count (a @ b))))"
proof -
  obtain kept where hits: "check (load_words raw) txt = Some (map (hit_of txt) (filter (aligned txt) kept))"
    and forward: "forward kept" and real: "\<And>k. k \<in> set kept \<Longrightarrow> sp_word k \<in> set (load_words raw) \<and>
      has_prefix (sp_word k) (drop (sp_start k) (ascii_lower txt)) \<and> k = span_at (sp_word k) (sp_start k)"
    using check_parts[OF load_words_nonempty] by metis
  have "sorted_wrt (\<lambda>s t. sp_start s < sp_start t \<and> sp_end s < sp_end t) (filter (aligned txt) kept)"
    using forward unfolding forward_def by (rule sorted_wrt_filter)
  then have "sorted_wrt (\<lambda>g h. hit_start g < hit_start h \<and> hit_end g < hit_end h) (map (hit_of txt) (filter (aligned txt) kept))"
    unfolding sorted_wrt_map by (rule sorted_wrt_mono_rel[rotated]) (auto simp: aligned_def intro!: rune_count_mono)
  moreover have "\<exists>a b c. txt = a @ b @ c \<and> ascii_lower b = sp_word k \<and>
      rune_count (take (sp_start k) txt) = rune_count a \<and> rune_count (take (sp_end k) txt) = rune_count (a @ b)"
    if "k \<in> set kept" for k
    using occurrence_parts real[OF that] by blast
  ultimately show ?thesis using hits real by fastforce
qed

text \<open>A dictionary with a comment, a blank line and a repeated word, and a text with two Chinese characters.\<close>

definition demo_dictionary :: string where
  "demo_dictionary = concat (map (\<lambda>l. l @ [CHR 0x0A]) [''# words'', [], ''best'', ''Best'', ''est'', ''NO.1''])"

definition demo_title :: string where
  "demo_title = bytes [229, 133, 168, 231, 189, 145] @ ''BEST No.1''"

lemma demo_words_trimmed:
  "trim_space ''# words'' = ''# words''" "trim_space ''best'' = ''best''" "trim_space ''Best'' = ''Best''"
  "trim_space ''est'' = ''est''" "trim_space ''NO.1'' = ''NO.1''"
  by (simp_all add: trim_space_ends plain_char_def)

lemma demo_words_lowered:
  "ascii_lower ''best'' = ''best''" "ascii_lower ''Best'' = ''best''" "ascii_lower ''est'' = ''est''"
  "ascii_lower ''NO.1'' = ''no.1''" "ascii_lower ''EST'' = ''est''"
  by (code_simp, code_simp, code_simp, code_simp, code_simp)

lemma demo_words: "load_words demo_dictionary = [''best'', ''est'', ''no.1'']"
  by (simp add: load_words_def demo_dictionary_def demo_words_trimmed demo_words_lowered has_prefix_def Let_def)

lemma demo_check:
  "check (load_words demo_dictionary) demo_title =
   Some [\<lparr>hit_word = ''best'', hit_start = 2, hit_end = 6\<rparr>, \<lparr>hit_word = ''no.1'', hit_start = 7, hit_end = 11\<rparr>]"
  unfolding demo_words by code_simp

lemma word_check_reports_occurrences_witness:
  "\<exists>a b c. demo_title = a @ b @ c \<and> ascii_lower b = ''no.1'' \<and> rune_count a = 7 \<and> rune_count (a @ b) = 11"
proof -
  let ?h = "\<lparr>hit_word = ''no.1'', hit_start = 7, hit_end = 11\<rparr>"
  from word_check_reports_occurrences[of demo_dictionary demo_title] obtain a b c where
    "demo_title = a @ b @ c \<and> ascii_lower b = hit_word ?h \<and> hit_start ?h = int (rune_count a) \<and> hit_end ?h = int (rune_count (a @ b))"
    unfolding demo_check by fastforce
  then show ?thesis by (intro exI[of _ a] exI[of _ b] exI[of _ c]) auto
qed

lemma cont_byte_lower: "cont_byte (if ascii_upper c then char_of ((of_char c :: nat) + 32) else c) = cont_byte c"
  by (auto simp: cont_byte_def ascii_upper_def)

lemma cut_at_rune:
  assumes "utf8_valid s" and "k \<le> length s" and "drop k s = [] \<or> \<not> cont_byte (hd (drop k s))"
  shows "at_rune s k"
proof -
  have "utf8_valid (take k s)" using utf8_split[of "take k s" "drop k s"] assms by simp
  then have "at_rune (take k s @ drop k s) (length (take k s))" by (rule at_rune_valid)
  with assms(2) show ?thesis by (simp add: min_absorb2)
qed

lemma hd_drop_lower: "k < length s \<Longrightarrow> cont_byte (hd (drop k (ascii_lower s))) = cont_byte (hd (drop k s))"
  by (simp add: ascii_lower_map hd_drop_conv_nth cont_byte_lower)

lemma occurrence_aligned:
  assumes "utf8_valid s" and "utf8_valid w" and "w \<noteq> []" and "has_prefix w (drop i (ascii_lower s))"
  shows "aligned s (span_at w i)"
proof -
  let ?l = "ascii_lower s"
  from assms(4) obtain r where r: "drop i ?l = w @ r" by (auto simp: has_prefix_iff)
  have len: "i + length w \<le> length s" using occurrence_inside[OF assms(3,4)] by simp
  have l: "?l = take i ?l @ w @ r" by (simp flip: r)
  have "utf8_valid (take i ?l @ (w @ r))" using ascii_lower_valid[OF assms(1)] by (simp flip: r)
  moreover have w: "\<not> cont_byte (hd (w @ r))" using utf8_valid_hd[OF assms(2,3)] assms(3) by simp
  ultimately have "utf8_valid (w @ r)" by (blast dest: utf8_split)
  then have "utf8_valid r" using assms(2) by (rule utf8_valid_suffix)
  then have rest: "r = [] \<or> \<not> cont_byte (hd r)" using utf8_valid_hd by blast
  have "drop (i + length w) ?l = r" using r by (metis add.commute append_eq_conv_conj drop_drop)
  moreover from this len have "r = [] \<longleftrightarrow> i + length w = length s" by auto
  ultimately have "drop (i + length w) s = [] \<or> \<not> cont_byte (hd (drop (i + length w) s))"
    using rest len hd_drop_lower[of "i + length w" s] by (cases "i + length w = length s") auto
  with assms(1) len have "at_rune s (i + length w)" by (intro cut_at_rune) auto
  moreover have "i < length s" using len assms(3) by (cases w) auto
  with w r assms(1) hd_drop_lower[of i s] have "at_rune s i" by (intro cut_at_rune) auto
  ultimately show ?thesis by (simp add: aligned_def)
qed

text \<open>C25: The word check misses nothing. When the dictionary file and the text are valid UTF-8,
  every place of the text that reads like a word of the dictionary, Latin capitals lowered, lies
  within a hit of the check, by the positions the hit reports.
\<close>

theorem word_check_complete:
  assumes "utf8_valid raw" and "utf8_valid txt"
    and "txt = a @ b @ c" and "ascii_lower b \<in> set (load_words raw)"
  shows "\<exists>hits h. check (load_words raw) txt = Some hits \<and> h \<in> set hits \<and>
    hit_start h \<le> int (rune_count a) \<and> int (rune_count (a @ b)) \<le> hit_end h"
proof -
  obtain kept where hits: "check (load_words raw) txt = Some (map (hit_of txt) (filter (aligned txt) kept))"
    and real: "\<And>k. k \<in> set kept \<Longrightarrow> sp_word k \<in> set (load_words raw) \<and>
      has_prefix (sp_word k) (drop (sp_start k) (ascii_lower txt)) \<and> k = span_at (sp_word k) (sp_start k)"
    and covered: "\<And>w i. w \<in> set (load_words raw) \<Longrightarrow> has_prefix w (drop i (ascii_lower txt)) \<Longrightarrow>
      \<exists>k \<in> set kept. inside (span_at w i) k"
    using check_parts[OF load_words_nonempty] by metis
  have aligned: "aligned txt (span_at w i)"
    if "w \<in> set (load_words raw)" "has_prefix w (drop i (ascii_lower txt))" for w i
  proof (rule occurrence_aligned[OF assms(2) load_words_valid[OF assms(1) that(1)] _ that(2)])
    show "w \<noteq> []" using that(1) load_words_nonempty by metis
  qed
  have here: "has_prefix (ascii_lower b) (drop (length a) (ascii_lower txt))"
    by (simp add: assms(3) ascii_lower_append)
  from covered[OF assms(4) here] obtain k where k: "k \<in> set kept" and "inside (span_at (ascii_lower b) (length a)) k"
    by blast
  then have ends: "sp_start k \<le> length a" "length (a @ b) \<le> sp_end k" by (simp_all add: inside_def)
  have ab: "at_rune txt (length a)" "at_rune txt (length (a @ b))"
    using aligned[OF assms(4) here] by (simp_all add: aligned_def)
  have ak: "aligned txt k" using aligned real[OF k] by metis
  then have "rune_count (take (sp_start k) txt) \<le> rune_count (take (length a) txt)"
    and "rune_count (take (length (a @ b)) txt) \<le> rune_count (take (sp_end k) txt)"
    using ab ends by (simp_all add: aligned_def rune_count_mono_le)
  then have "hit_start (hit_of txt k) \<le> int (rune_count a) \<and> int (rune_count (a @ b)) \<le> hit_end (hit_of txt k)"
    by (simp add: assms(3))
  moreover have "hit_of txt k \<in> set (map (hit_of txt) (filter (aligned txt) kept))" using k ak by simp
  ultimately show ?thesis using hits by blast
qed

lemma word_check_complete_witness:
  "\<exists>hits h. check (load_words demo_dictionary) demo_title = Some hits \<and> h \<in> set hits \<and> hit_start h \<le> 3 \<and> 6 \<le> hit_end h"
proof -
  have "utf8_valid demo_dictionary" "utf8_valid demo_title" by (code_simp, code_simp)
  moreover have "demo_title = (bytes [229, 133, 168, 231, 189, 145] @ ''B'') @ ''EST'' @ '' No.1''" by (simp add: demo_title_def)
  moreover have "ascii_lower ''EST'' \<in> set (load_words demo_dictionary)"
    by (simp add: demo_words demo_words_lowered)
  moreover have "rune_count (bytes [229, 133, 168, 231, 189, 145] @ ''B'') = 3"
    "rune_count ((bytes [229, 133, 168, 231, 189, 145] @ ''B'') @ ''EST'') = 6" by (code_simp, code_simp)
  ultimately show ?thesis using word_check_complete by (metis of_nat_numeral)
qed

end
