(* ===== verification/Suggest_Cache.thy ===== *)
theory Suggest_Cache
  imports DK_Prelude "HOL-Library.List_Lexorder" "HOL-Library.Char_ord" "HOL-Library.Multiset"
begin

text \<open>
  The cache of prompt suggestions: \<open>service/prompt\_suggest\_cache.go\<close>, and from
  \<open>service/prompt\_suggest.go\<close> the photos that a suggestion is asked for. The list of
  \<open>container/list\<close> is a list of elements, the most recently used first; an element has an identity, which the map
  \<open>items\<close> refers to, and the entry it holds. The mutex makes every call one step. SHA-256 with its
  hexadecimal form is an argument.
\<close>

section \<open>Results\<close>

record suggest_category =
  sg_slug :: string
  sg_name :: string

record suggest_candidate =
  sd_uid :: string
  sd_title :: string

record suggest_result =
  sr_prompt :: string
  sr_category :: suggest_category
  sr_candidates :: "suggest_candidate list"
  sr_note :: string
  sr_cached_at :: time

text \<open>Lists are values here, so a deep copy only clears the time.\<close>

definition copy_suggest_result :: "suggest_result \<Rightarrow> suggest_result" where
  "copy_suggest_result r = r\<lparr>sr_cached_at := zero_time\<rparr>"

section \<open>The key\<close>

text \<open>\<open>binary.BigEndian.PutUint64\<close> of a converted \<open>int64\<close>\<close>

definition big_endian64 :: "int \<Rightarrow> string" where
  "big_endian64 n = map (\<lambda>i. char_of (nat (n mod 2 ^ 64) div 256 ^ i mod 256)) [7, 6, 5, 4, 3, 2, 1, 0]"

definition key_part :: "string \<Rightarrow> string" where
  "key_part s = s @ [CHR 0x00]"

definition key_uids :: "string list \<Rightarrow> string list" where
  "key_uids asset_uids = sort (filter (\<lambda>uid. uid \<noteq> []) (map trim_space asset_uids))"

definition key_preimage :: "int \<Rightarrow> string list \<Rightarrow> string \<Rightarrow> string \<Rightarrow> string \<Rightarrow> string" where
  "key_preimage user_id asset_uids category_slug features model =
     (let uids = key_uids asset_uids
      in big_endian64 user_id @ big_endian64 (int (length uids)) @ concat (map key_part uids) @
         key_part (trim_space category_slug) @ key_part (trim_space features) @ key_part (trim_space model))"

definition suggest_cache_key :: "(string \<Rightarrow> string) \<Rightarrow> int \<Rightarrow> string list \<Rightarrow> string \<Rightarrow> string \<Rightarrow> string \<Rightarrow> string" where
  "suggest_cache_key sha256_hex user_id asset_uids category_slug features model =
     sha256_hex (key_preimage user_id asset_uids category_slug features model)"

section \<open>The cache\<close>

record cache_entry =
  ce_key :: string
  ce_result :: suggest_result
  ce_saved_at :: time

record suggest_cache =
  sc_ttl :: duration
  sc_capacity :: int
  sc_order :: "(nat \<times> cache_entry) list"
  sc_items :: "string \<Rightarrow> nat option"
  sc_next :: nat

definition suggest_cache_ttl :: duration where
  "suggest_cache_ttl = 24 * hour"

definition suggest_cache_capacity :: int where
  "suggest_cache_capacity = 200"

definition new_suggest_cache :: "int \<Rightarrow> duration \<Rightarrow> suggest_cache" where
  "new_suggest_cache capacity ttl =
     \<lparr>sc_ttl = ttl, sc_capacity = capacity, sc_order = [], sc_items = Map.empty, sc_next = 0\<rparr>"

text \<open>\<open>Time.Sub\<close> stays within an \<open>int64\<close>.\<close>

definition time_sub :: "time \<Rightarrow> time \<Rightarrow> duration" where
  "time_sub a b = max (- (2 ^ 63)) (min (2 ^ 63 - 1) (a - b))"

definition list_remove :: "nat \<Rightarrow> (nat \<times> cache_entry) list \<Rightarrow> (nat \<times> cache_entry) list" where
  "list_remove el xs = filter (\<lambda>x. fst x \<noteq> el) xs"

definition move_to_front :: "nat \<Rightarrow> (nat \<times> cache_entry) list \<Rightarrow> (nat \<times> cache_entry) list" where
  "move_to_front el xs = filter (\<lambda>x. fst x = el) xs @ filter (\<lambda>x. fst x \<noteq> el) xs"

definition cache_get :: "time \<Rightarrow> string \<Rightarrow> suggest_cache \<Rightarrow> suggest_result option \<times> suggest_cache" where
  "cache_get now key c =
     (case sc_items c key of
        None \<Rightarrow> (None, c)
      | Some el \<Rightarrow>
          (case map_of (sc_order c) el of
             None \<Rightarrow> (None, c)
           | Some entry \<Rightarrow>
               if sc_ttl c < time_sub now (ce_saved_at entry)
               then (None, c\<lparr>sc_order := list_remove el (sc_order c), sc_items := (sc_items c)(key := None)\<rparr>)
               else (Some ((copy_suggest_result (ce_result entry))\<lparr>sr_cached_at := ce_saved_at entry\<rparr>),
                     c\<lparr>sc_order := move_to_front el (sc_order c)\<rparr>)))"

text \<open>The loop that makes room, from the back of the list.\<close>

function evict :: "suggest_cache \<Rightarrow> suggest_cache" where
  "evict c =
     (if int (length (sc_order c)) < sc_capacity c then c
      else if sc_order c = [] then c
      else evict (c\<lparr>sc_order := butlast (sc_order c),
                    sc_items := (sc_items c)(ce_key (snd (last (sc_order c))) := None)\<rparr>))"
  by pat_completeness auto
termination
  by (relation "measure (\<lambda>c. length (sc_order c))") auto

declare evict.simps [simp del]

definition cache_put :: "time \<Rightarrow> string \<Rightarrow> suggest_result \<Rightarrow> suggest_cache \<Rightarrow> suggest_cache" where
  "cache_put now key r c =
     (if sc_capacity c \<le> 0 then c
      else case Option.bind (sc_items c key) (\<lambda>el. map_option (Pair el) (map_of (sc_order c) el)) of
        Some (el, entry) \<Rightarrow>
          c\<lparr>sc_order := move_to_front el
              (map (\<lambda>x. if fst x = el then (el, entry\<lparr>ce_result := copy_suggest_result r, ce_saved_at := now\<rparr>) else x) (sc_order c))\<rparr>
      | None \<Rightarrow>
          (let c = evict c
           in c\<lparr>sc_order := (sc_next c, \<lparr>ce_key = key, ce_result = copy_suggest_result r, ce_saved_at = now\<rparr>) # sc_order c,
                sc_items := (sc_items c)(key \<mapsto> sc_next c),
                sc_next := sc_next c + 1\<rparr>))"

section \<open>The photos of a suggestion\<close>

text \<open>
  From \<open>Suggest\<close>: the photos whose bytes the conversations see. \<open>load\<close> is \<open>AssetContent\<close> for the
  user of the request; a photo after the first that cannot be read is passed over.
\<close>

definition suggest_max_images :: nat where
  "suggest_max_images = 3"

fun extra_images :: "(string \<Rightarrow> 'e + 'img) \<Rightarrow> string \<Rightarrow> string list \<Rightarrow> 'img list \<Rightarrow> 'img list" where
  "extra_images load asset_uid [] images = images"
| "extra_images load asset_uid (uid # uids) images =
     (if suggest_max_images \<le> length images then images
      else let u = trim_space uid
           in if u = [] \<or> u = trim_space asset_uid then extra_images load asset_uid uids images
              else case load u of
                     Inl _ \<Rightarrow> extra_images load asset_uid uids images
                   | Inr img \<Rightarrow> extra_images load asset_uid uids (images @ [img]))"

definition suggest_images :: "(string \<Rightarrow> 'e + 'img) \<Rightarrow> string \<Rightarrow> string list \<Rightarrow> 'e + 'img list" where
  "suggest_images load asset_uid extra_uids =
     (case load (trim_space asset_uid) of
        Inl e \<Rightarrow> Inl e
      | Inr img \<Rightarrow> Inr (extra_images load asset_uid extra_uids [img]))"

end
