(* ===== verification/Suggest_Cache_Guarantees.thy ===== *)
theory Suggest_Cache_Guarantees
  imports Suggest_Cache
begin

text \<open>
  The cache of suggestions against its contract. The contract is a list of entries, the most recently
  used first, with two operations; the list of elements and the map of the code implement it, and
  they never disagree. On the contract rest the two promises to the users: an answer
  is the latest one stored for the same request and not too old, and an answer stays until as
  many other requests as the cache has places have come in between.
\<close>

section \<open>The contract\<close>

abbreviation has_key :: "string \<Rightarrow> cache_entry \<Rightarrow> bool" where
  "has_key k e \<equiv> ce_key e = k"

definition fresh_result :: "cache_entry \<Rightarrow> suggest_result" where
  "fresh_result e = (copy_suggest_result (ce_result e))\<lparr>sr_cached_at := ce_saved_at e\<rparr>"

definition lru_get :: "duration \<Rightarrow> time \<Rightarrow> string \<Rightarrow> cache_entry list \<Rightarrow> suggest_result option \<times> cache_entry list" where
  "lru_get ttl now k es =
     (case find (has_key k) es of
        None \<Rightarrow> (None, es)
      | Some e \<Rightarrow>
          if ttl < time_sub now (ce_saved_at e) then (None, filter (\<lambda>x. \<not> has_key k x) es)
          else (Some (fresh_result e), e # filter (\<lambda>x. \<not> has_key k x) es))"

definition lru_put :: "int \<Rightarrow> time \<Rightarrow> string \<Rightarrow> suggest_result \<Rightarrow> cache_entry list \<Rightarrow> cache_entry list" where
  "lru_put capacity now k r es =
     (if capacity \<le> 0 then es
      else \<lparr>ce_key = k, ce_result = copy_suggest_result r, ce_saved_at = now\<rparr> #
             (if list_ex (has_key k) es then filter (\<lambda>x. \<not> has_key k x) es else take (nat capacity - 1) es))"

definition entries :: "suggest_cache \<Rightarrow> cache_entry list" where
  "entries c = map snd (sc_order c)"

text \<open>List and map agree: identities and keys are unique, and the map refers to the element of its key.\<close>

definition cache_ok :: "suggest_cache \<Rightarrow> bool" where
  "cache_ok c \<longleftrightarrow>
     distinct (map fst (sc_order c)) \<and> distinct (map ce_key (entries c)) \<and>
     (\<forall>k el. sc_items c k = Some el \<longleftrightarrow> (\<exists>e. (el, e) \<in> set (sc_order c) \<and> ce_key e = k)) \<and>
     (\<forall>x \<in> set (sc_order c). fst x < sc_next c) \<and>
     int (length (sc_order c)) \<le> max 0 (sc_capacity c)"

lemma cache_okD:
  assumes "cache_ok c"
  shows "distinct (map fst (sc_order c))" and "distinct (map ce_key (entries c))"
    and "sc_items c k = Some el \<longleftrightarrow> (\<exists>e. (el, e) \<in> set (sc_order c) \<and> ce_key e = k)"
    and "x \<in> set (sc_order c) \<Longrightarrow> fst x < sc_next c"
    and "int (length (sc_order c)) \<le> max 0 (sc_capacity c)"
  using assms by (simp_all add: cache_ok_def)

section \<open>The element of a key\<close>

lemma find_entry_unique:
  "distinct (map ce_key es) \<Longrightarrow> e \<in> set es \<Longrightarrow> find (has_key (ce_key e)) es = Some e"
  by (induction es) auto

lemma lookup_missing:
  assumes "cache_ok c" and "sc_items c k = None"
  shows "find (has_key k) (entries c) = None"
proof -
  have "ce_key (snd x) \<noteq> k" if "x \<in> set (sc_order c)" for x
    using cache_okD(3)[OF assms(1), of k "fst x"] assms(2) that by (metis option.distinct(1) prod.collapse)
  then show ?thesis by (auto simp: find_None_iff entries_def)
qed

lemma lookup_present:
  assumes "cache_ok c" and "sc_items c k = Some el"
  obtains xs e ys where "sc_order c = xs @ (el, e) # ys" and "ce_key e = k" and "map_of (sc_order c) el = Some e"
    and "find (has_key k) (entries c) = Some e"
    and "\<forall>x \<in> set (xs @ ys). fst x \<noteq> el \<and> ce_key (snd x) \<noteq> k"
proof -
  from assms cache_okD(3)[OF assms(1)] obtain e where e: "(el, e) \<in> set (sc_order c)" "ce_key e = k" by blast
  then obtain xs ys where xs: "sc_order c = xs @ (el, e) # ys" by (meson split_list)
  have "find (has_key k) (entries c) = Some e"
    using find_entry_unique[OF cache_okD(2)[OF assms(1)], of e] e by (force simp: entries_def)
  moreover have "map_of (sc_order c) el = Some e"
    using cache_okD(1)[OF assms(1)] e(1) by simp
  moreover have "\<forall>x \<in> set (xs @ ys). fst x \<noteq> el \<and> ce_key (snd x) \<noteq> k"
    using cache_okD(1,2)[OF assms(1)] e(2) by (auto simp: xs entries_def rev_image_eqI)
  ultimately show thesis using that xs e(2) by blast
qed

section \<open>Get and Put implement the contract\<close>

lemma cache_ok_order:
  assumes "cache_ok c" and "mset xs = mset (sc_order c)"
  shows "cache_ok (c\<lparr>sc_order := xs\<rparr>)"
proof -
  have "set xs = set (sc_order c)" and "length xs = length (sc_order c)"
    using assms(2) by (metis mset_eq_setD, metis mset_eq_length)
  moreover have "distinct (map fst xs) = distinct (map fst (sc_order c))"
    by (rule mset_eq_imp_distinct_iff) (simp add: assms(2))
  moreover have "distinct (map (\<lambda>x. ce_key (snd x)) xs) = distinct (map (\<lambda>x. ce_key (snd x)) (sc_order c))"
    by (rule mset_eq_imp_distinct_iff) (simp add: assms(2))
  moreover have "map ce_key (entries d) = map (\<lambda>x. ce_key (snd x)) (sc_order d)" for d
    by (simp add: entries_def)
  ultimately show ?thesis using assms(1) unfolding cache_ok_def by simp
qed

lemma cache_get_implements:
  assumes "cache_ok c"
  shows "fst (cache_get now k c) = fst (lru_get (sc_ttl c) now k (entries c)) \<and>
    entries (snd (cache_get now k c)) = snd (lru_get (sc_ttl c) now k (entries c)) \<and>
    cache_ok (snd (cache_get now k c))"
proof (cases "sc_items c k")
  case None
  with lookup_missing[OF assms None] assms show ?thesis by (simp add: cache_get_def lru_get_def)
next
  case (Some el)
  obtain xs e ys where
    order: "sc_order c = xs @ (el, e) # ys" and key: "ce_key e = k" and el: "map_of (sc_order c) el = Some e"
    and found: "find (has_key k) (entries c) = Some e"
    and others: "\<forall>x \<in> set (xs @ ys). fst x \<noteq> el \<and> ce_key (snd x) \<noteq> k"
    by (rule lookup_present[OF assms Some])
  have apart: "filter (\<lambda>x. fst x \<noteq> el) zs = zs" "filter (\<lambda>x. fst x = el) zs = []"
    "filter (\<lambda>x. \<not> has_key k x) (map snd zs) = map snd zs" if "set zs \<subseteq> set (xs @ ys)" for zs
  proof -
    have "\<forall>x \<in> set zs. fst x \<noteq> el \<and> ce_key (snd x) \<noteq> k" using that others by blast
    then show "filter (\<lambda>x. fst x \<noteq> el) zs = zs" "filter (\<lambda>x. fst x = el) zs = []"
      "filter (\<lambda>x. \<not> has_key k x) (map snd zs) = map snd zs"
      by (simp_all add: filter_id_conv filter_empty_conv)
  qed
  have rest: "filter (\<lambda>x. fst x \<noteq> el) (sc_order c) = xs @ ys" "filter (\<lambda>x. fst x = el) (sc_order c) = [(el, e)]"
    "filter (\<lambda>x. \<not> has_key k x) (entries c) = map snd (xs @ ys)"
    using apart[of xs] apart[of ys] key by (simp_all add: order entries_def)
  show ?thesis
  proof (cases "sc_ttl c < time_sub now (ce_saved_at e)")
    case True
    have ok: "cache_ok (c\<lparr>sc_order := xs @ ys, sc_items := (sc_items c)(k := None)\<rparr>)"
    proof -
      have "((sc_items c)(k := None)) k' = Some i \<longleftrightarrow> (\<exists>x. (i, x) \<in> set (xs @ ys) \<and> ce_key x = k')" for k' i
      proof (cases "k' = k")
        case True
        have "ce_key x \<noteq> k" if "(i, x) \<in> set (xs @ ys)" for x using bspec[OF others that] by simp
        with True show ?thesis by auto
      next
        case False
        with cache_okD(3)[OF assms, of k' i] key show ?thesis by (auto simp: order)
      qed
      then show ?thesis using assms by (auto simp: cache_ok_def order entries_def)
    qed
    with True Some el found rest show ?thesis
      by (simp add: cache_get_def lru_get_def list_remove_def entries_def)
  next
    case False
    have "cache_ok (c\<lparr>sc_order := (el, e) # xs @ ys\<rparr>)"
      by (rule cache_ok_order[OF assms]) (simp add: order)
    with False Some el found rest show ?thesis
      by (simp add: cache_get_def lru_get_def move_to_front_def entries_def fresh_result_def)
  qed
qed

text \<open>Making room keeps the front of the list.\<close>

lemma drop_last_ok:
  assumes "cache_ok c" and "sc_order c \<noteq> []"
  shows "cache_ok (c\<lparr>sc_order := butlast (sc_order c), sc_items := (sc_items c)(ce_key (snd (last (sc_order c))) := None)\<rparr>)"
proof -
  obtain xs el e where order: "sc_order c = xs @ [(el, e)]"
    using assms(2) by (metis append_butlast_last_id prod.collapse)
  have "ce_key e \<notin> (\<lambda>x. ce_key (snd x)) ` set xs"
    using cache_okD(2)[OF assms(1)] by (simp add: order entries_def image_image)
  then have others: "\<forall>x \<in> set xs. ce_key (snd x) \<noteq> ce_key e" by (metis imageI)
  have "((sc_items c)(ce_key e := None)) k = Some i \<longleftrightarrow> (\<exists>x. (i, x) \<in> set xs \<and> ce_key x = k)" for k i
  proof (cases "k = ce_key e")
    case True
    have "ce_key x \<noteq> ce_key e" if "(i, x) \<in> set xs" for x using bspec[OF others that] by simp
    with True show ?thesis by auto
  next
    case False
    with cache_okD(3)[OF assms(1), of k i] show ?thesis by (auto simp: order)
  qed
  with assms(1) show ?thesis by (auto simp: cache_ok_def order entries_def)
qed

lemma evict_keeps:
  assumes "cache_ok c" and "0 < sc_capacity c"
  shows "cache_ok (evict c) \<and> sc_order (evict c) = take (nat (sc_capacity c) - 1) (sc_order c) \<and>
    sc_capacity (evict c) = sc_capacity c \<and> sc_next (evict c) = sc_next c \<and> sc_ttl (evict c) = sc_ttl c \<and>
    (sc_items c k = None \<longrightarrow> sc_items (evict c) k = None)"
  using assms
proof (induction c rule: evict.induct)
  case (1 c)
  show ?case
  proof (cases "int (length (sc_order c)) < sc_capacity c")
    case True
    then have "length (sc_order c) \<le> nat (sc_capacity c) - 1" by linarith
    with True "1.prems" show ?thesis by (simp add: evict.simps[of c])
  next
    case False
    with "1.prems"(2) have some: "sc_order c \<noteq> []" by auto
    let ?d = "c\<lparr>sc_order := butlast (sc_order c), sc_items := (sc_items c)(ce_key (snd (last (sc_order c))) := None)\<rparr>"
    have "take (nat (sc_capacity c) - 1) (butlast (sc_order c)) = take (nat (sc_capacity c) - 1) (sc_order c)"
      using False "1.prems"(2) by (intro take_butlast) linarith
    moreover have "evict c = evict ?d" using False some by (simp add: evict.simps[of c])
    ultimately show ?thesis
      using "1.IH"[OF False some drop_last_ok[OF "1.prems"(1) some]] "1.prems"(2) by auto
  qed
qed

lemma insert_ok:
  assumes "cache_ok c" and "ce_key e \<notin> (\<lambda>x. ce_key (snd x)) ` set (sc_order c)"
    and "int (length (sc_order c)) < sc_capacity c" and "k = ce_key e"
  shows "cache_ok (c\<lparr>sc_order := (sc_next c, e) # sc_order c, sc_items := (sc_items c)(k \<mapsto> sc_next c), sc_next := sc_next c + 1\<rparr>)"
proof -
  have new: "(sc_next c, x) \<notin> set (sc_order c)" for x using cache_okD(4)[OF assms(1)] by fastforce
  have "((sc_items c)(k \<mapsto> sc_next c)) k' = Some i \<longleftrightarrow> (\<exists>x. (i, x) \<in> set ((sc_next c, e) # sc_order c) \<and> ce_key x = k')" for k' i
  proof (cases "k' = k")
    case True
    have "ce_key x \<noteq> ce_key e" if "(i, x) \<in> set (sc_order c)" for x
    proof
      assume "ce_key x = ce_key e"
      then have "ce_key e \<in> (\<lambda>x. ce_key (snd x)) ` set (sc_order c)" by (intro rev_image_eqI[OF that]) simp
      with assms(2) show False by contradiction
    qed
    with True assms(4) show ?thesis by auto
  next
    case False
    with cache_okD(3)[OF assms(1), of k' i] assms(4) show ?thesis by auto
  qed
  moreover have "distinct (map fst ((sc_next c, e) # sc_order c))" using new cache_okD(1)[OF assms(1)] by auto
  moreover have "distinct (map (\<lambda>x. ce_key (snd x)) ((sc_next c, e) # sc_order c))"
    using assms(2) cache_okD(2)[OF assms(1)] by (simp add: entries_def comp_def)
  moreover have "\<forall>x \<in> set ((sc_next c, e) # sc_order c). fst x < sc_next c + 1"
    using cache_okD(4)[OF assms(1)] by fastforce
  ultimately show ?thesis using assms(3) by (simp add: cache_ok_def entries_def comp_def)
qed

lemma cache_put_implements:
  assumes "cache_ok c"
  shows "entries (cache_put now k r c) = lru_put (sc_capacity c) now k r (entries c) \<and> cache_ok (cache_put now k r c)"
proof (cases "sc_capacity c \<le> 0")
  case False
  show ?thesis
  proof (cases "sc_items c k")
    case (Some el)
    obtain xs e ys where
      order: "sc_order c = xs @ (el, e) # ys" and key: "ce_key e = k" and el: "map_of (sc_order c) el = Some e"
      and found: "find (has_key k) (entries c) = Some e"
      and others: "\<forall>x \<in> set (xs @ ys). fst x \<noteq> el \<and> ce_key (snd x) \<noteq> k"
      by (rule lookup_present[OF assms Some])
    let ?e = "\<lparr>ce_key = k, ce_result = copy_suggest_result r, ce_saved_at = now\<rparr>"
    let ?f = "\<lambda>x. if fst x = el then (el, e\<lparr>ce_result := copy_suggest_result r, ce_saved_at := now\<rparr>) else x"
    have "map ?f zs = zs" if "\<forall>x \<in> set zs. fst x \<noteq> el" for zs
      using that by (induction zs) auto
    with others key have "map ?f (sc_order c) = xs @ (el, ?e) # ys" by (simp add: order ball_Un)
    moreover have "filter (\<lambda>x. fst x = el) (xs @ (el, ?e) # ys) = [(el, ?e)]" "filter (\<lambda>x. fst x \<noteq> el) (xs @ (el, ?e) # ys) = xs @ ys"
      using others by (simp_all add: filter_id_conv filter_empty_conv ball_Un)
    ultimately have put: "cache_put now k r c = c\<lparr>sc_order := (el, ?e) # xs @ ys\<rparr>"
      using False Some el by (simp add: cache_put_def move_to_front_def)
    have "list_ex (has_key k) (entries c)" using key by (simp add: entries_def order)
    moreover have "filter (\<lambda>x. \<not> has_key k x) (entries c) = map snd (xs @ ys)"
      using others key by (simp add: entries_def order filter_id_conv ball_Un)
    ultimately have "entries (cache_put now k r c) = lru_put (sc_capacity c) now k r (entries c)"
      using False by (simp add: put lru_put_def) (simp add: entries_def)
    moreover have "cache_ok (c\<lparr>sc_order := (el, ?e) # xs @ ys\<rparr>)"
      using assms key by (auto simp: cache_ok_def order entries_def; blast)
    ultimately show ?thesis by (simp add: put)
  next
    case None
    let ?e = "\<lparr>ce_key = k, ce_result = copy_suggest_result r, ce_saved_at = now\<rparr>"
    let ?d = "evict c"
    note room = evict_keeps[OF assms, of k]
    have put: "cache_put now k r c = ?d\<lparr>sc_order := (sc_next ?d, ?e) # sc_order ?d,
        sc_items := (sc_items ?d)(k \<mapsto> sc_next ?d), sc_next := sc_next ?d + 1\<rparr>"
      using False None by (simp add: cache_put_def Let_def)
    have absent: "\<not> list_ex (has_key k) (entries c)"
      using lookup_missing[OF assms None] by (auto simp: find_None_iff list_ex_iff)
    then have gone: "k \<notin> (\<lambda>x. ce_key (snd x)) ` set (sc_order ?d)"
      using room False by (auto simp: list_ex_iff entries_def dest: in_set_takeD)
    have "entries (cache_put now k r c) = lru_put (sc_capacity c) now k r (entries c)"
      using absent room False by (simp add: put lru_put_def) (simp add: entries_def take_map)
    moreover have "cache_ok (cache_put now k r c)"
      unfolding put by (rule insert_ok) (use room gone False in auto)
    ultimately show ?thesis by simp
  qed
qed (use assms in \<open>simp add: cache_put_def lru_put_def\<close>)

section \<open>Runs\<close>

text \<open>The calls of the service, each at a moment: a suggestion asks first and stores its result later.\<close>

datatype cache_op = GetOp time string | PutOp time string suggest_result

fun op_key :: "cache_op \<Rightarrow> string" where
  "op_key (GetOp _ k) = k"
| "op_key (PutOp _ k _) = k"

fun cache_step :: "cache_op \<Rightarrow> suggest_cache \<Rightarrow> suggest_cache" where
  "cache_step (GetOp now k) c = snd (cache_get now k c)"
| "cache_step (PutOp now k r) c = cache_put now k r c"

definition run_cache :: "cache_op list \<Rightarrow> suggest_cache \<Rightarrow> suggest_cache" where
  "run_cache ops c = foldl (\<lambda>c op. cache_step op c) c ops"

fun lru_step :: "int \<Rightarrow> duration \<Rightarrow> cache_op \<Rightarrow> cache_entry list \<Rightarrow> cache_entry list" where
  "lru_step capacity ttl (GetOp now k) es = snd (lru_get ttl now k es)"
| "lru_step capacity ttl (PutOp now k r) es = lru_put capacity now k r es"

text \<open>The latest result stored for a key.\<close>

fun latest_put :: "string \<Rightarrow> cache_op list \<Rightarrow> (time \<times> suggest_result) option" where
  "latest_put k [] = None"
| "latest_put k (op # ops) =
     (case latest_put k ops of
        Some v \<Rightarrow> Some v
      | None \<Rightarrow> (case op of PutOp now k' r \<Rightarrow> if k' = k then Some (now, r) else None | GetOp _ _ \<Rightarrow> None))"

lemma run_cache_snoc [simp]: "run_cache (ops @ [op]) c = cache_step op (run_cache ops c)"
  by (simp add: run_cache_def)

lemma run_cache_Nil [simp]: "run_cache [] c = c"
  by (simp add: run_cache_def)

lemma run_cache_append: "run_cache (ops @ ops') c = run_cache ops' (run_cache ops c)"
  by (simp add: run_cache_def)

lemma latest_put_append:
  "latest_put k (ops @ ops') = (case latest_put k ops' of Some v \<Rightarrow> Some v | None \<Rightarrow> latest_put k ops)"
  by (induction ops) (auto split: option.splits)

lemma cache_parameters [simp]:
  "sc_ttl (snd (cache_get now k c)) = sc_ttl c" "sc_capacity (snd (cache_get now k c)) = sc_capacity c"
  by (simp_all add: cache_get_def split: option.splits)

lemma evict_parameters [simp]: "sc_ttl (evict c) = sc_ttl c \<and> sc_capacity (evict c) = sc_capacity c"
proof (induction c rule: evict.induct)
  case (1 c)
  then show ?case by (subst (1 2) evict.simps) auto
qed

lemma cache_put_parameters [simp]:
  "sc_ttl (cache_put now k r c) = sc_ttl c" "sc_capacity (cache_put now k r c) = sc_capacity c"
  by (simp_all add: cache_put_def Let_def split: option.splits)

lemma new_cache_ok: "cache_ok (new_suggest_cache capacity ttl)"
  by (simp add: cache_ok_def new_suggest_cache_def entries_def)

lemma run_cache_ok:
  "cache_ok (run_cache ops (new_suggest_cache capacity ttl)) \<and>
   sc_ttl (run_cache ops (new_suggest_cache capacity ttl)) = ttl \<and>
   sc_capacity (run_cache ops (new_suggest_cache capacity ttl)) = capacity"
proof (induction ops rule: rev_induct)
  case (snoc op ops)
  then show ?case by (cases op) (simp_all add: cache_get_implements cache_put_implements)
qed (simp add: new_cache_ok, simp add: new_suggest_cache_def)

text \<open>The entries of a run are those of the contract.\<close>

lemma run_cache_entries:
  "entries (run_cache (ops @ [op]) (new_suggest_cache capacity ttl)) =
   lru_step capacity ttl op (entries (run_cache ops (new_suggest_cache capacity ttl)))"
  using run_cache_ok[of ops capacity ttl]
  by (cases op) (simp_all add: cache_get_implements cache_put_implements)

lemma lru_get_entries: "set (snd (lru_get ttl now k es)) \<subseteq> set es"
  by (auto simp: lru_get_def find_Some_iff split: option.splits if_splits)

lemma lru_put_entries:
  "e \<in> set (lru_put capacity now k r es) \<Longrightarrow>
   e = \<lparr>ce_key = k, ce_result = copy_suggest_result r, ce_saved_at = now\<rparr> \<or> e \<in> set es \<and> ce_key e \<noteq> k \<or> capacity \<le> 0 \<and> e \<in> set es"
  by (auto simp: lru_put_def list_ex_iff split: if_splits dest: in_set_takeD)

lemma run_cache_latest:
  "e \<in> set (entries (run_cache ops (new_suggest_cache capacity ttl))) \<Longrightarrow>
   \<exists>r. latest_put (ce_key e) ops = Some (ce_saved_at e, r) \<and> ce_result e = copy_suggest_result r"
proof (induction ops arbitrary: e rule: rev_induct)
  case Nil
  then show ?case by (simp add: new_suggest_cache_def entries_def)
next
  case (snoc op ops)
  let ?es = "entries (run_cache ops (new_suggest_cache capacity ttl))"
  show ?case
  proof (cases op)
    case (GetOp now k)
    with snoc.prems lru_get_entries[of ttl now k ?es] have "e \<in> set ?es"
      unfolding run_cache_entries by auto
    from snoc.IH[OF this] GetOp show ?thesis by (simp add: latest_put_append)
  next
    case (PutOp now k r)
    have empty: "?es = []" if "capacity \<le> 0"
      using run_cache_ok[of ops capacity ttl] cache_okD(5)[of "run_cache ops (new_suggest_cache capacity ttl)"] that
      by (simp add: entries_def)
    from snoc.prems PutOp have "e \<in> set (lru_put capacity now k r ?es)" unfolding run_cache_entries by simp
    with empty lru_put_entries[of e capacity now k r ?es]
    consider "e = \<lparr>ce_key = k, ce_result = copy_suggest_result r, ce_saved_at = now\<rparr>" | "e \<in> set ?es" "ce_key e \<noteq> k" by auto
    then show ?thesis
    proof cases
      case 1
      with PutOp show ?thesis by (simp add: latest_put_append)
    next
      case 2
      with snoc.IH[OF 2(1)] PutOp show ?thesis by (simp add: latest_put_append)
    qed
  qed
qed

lemma fresh_result_copy: "ce_result e = copy_suggest_result r \<Longrightarrow> fresh_result e = r\<lparr>sr_cached_at := ce_saved_at e\<rparr>"
  by (simp add: fresh_result_def copy_suggest_result_def)

text \<open>Where the entry of a key stands, and what stands in front of it.\<close>

definition stands :: "cache_entry \<Rightarrow> string set \<Rightarrow> cache_entry list \<Rightarrow> bool" where
  "stands e ks es \<longleftrightarrow> (\<exists>xs ys. es = xs @ e # ys \<and> ce_key ` set xs \<subseteq> ks)"

lemma stands_front: "stands e ks (e # ys)"
  unfolding stands_def by (rule exI[of _ "[]"]) simp

lemma stands_Cons: "stands e ks es \<Longrightarrow> ce_key x \<in> ks' \<Longrightarrow> ks \<subseteq> ks' \<Longrightarrow> stands e ks' (x # es)"
proof -
  assume "stands e ks es" and ks: "ce_key x \<in> ks'" "ks \<subseteq> ks'"
  then obtain xs ys where "es = xs @ e # ys" "ce_key ` set xs \<subseteq> ks" unfolding stands_def by blast
  with ks have "x # es = (x # xs) @ e # ys" "ce_key ` set (x # xs) \<subseteq> ks'" by auto
  then show ?thesis unfolding stands_def by blast
qed

lemma stands_filter: "stands e ks es \<Longrightarrow> P e \<Longrightarrow> stands e ks (filter P es)"
proof -
  assume "stands e ks es" "P e"
  then obtain xs ys where "es = xs @ e # ys" "ce_key ` set xs \<subseteq> ks" unfolding stands_def by blast
  with \<open>P e\<close> have "filter P es = filter P xs @ e # filter P ys" "ce_key ` set (filter P xs) \<subseteq> ks" by auto
  then show ?thesis unfolding stands_def by blast
qed

lemma stands_mono: "stands e ks es \<Longrightarrow> ks \<subseteq> ks' \<Longrightarrow> stands e ks' es"
  unfolding stands_def by blast

lemma stands_take:
  assumes "stands e ks es" and "distinct (map ce_key es)" and "finite ks" and "card ks < n"
  shows "stands e ks (take n es)"
proof -
  from assms(1) obtain xs ys where es: "es = xs @ e # ys" and ks: "ce_key ` set xs \<subseteq> ks"
    unfolding stands_def by blast
  have "distinct (map ce_key xs)" using assms(2) by (simp add: es)
  from distinct_card[OF this] have "length xs = card (ce_key ` set xs)" by simp
  with card_mono[OF assms(3) ks] assms(4) have "length xs < n" by simp
  then have "take n es = xs @ e # take (n - length xs - 1) ys" by (simp add: es take_Cons')
  with ks show ?thesis unfolding stands_def by blast
qed

lemma stands_find: "stands e ks es \<Longrightarrow> ce_key e \<notin> ks \<Longrightarrow> find (has_key (ce_key e)) es = Some e"
proof -
  assume "stands e ks es" and out: "ce_key e \<notin> ks"
  then obtain xs ys where es: "es = xs @ e # ys" and "ce_key ` set xs \<subseteq> ks" unfolding stands_def by blast
  with out have "ce_key e \<notin> ce_key ` set xs" by blast
  then show ?thesis unfolding es by (induction xs) auto
qed

text \<open>Every call leaves the entry in the list, at most one key further back.\<close>

lemma stands_step:
  assumes "stands e ks es" and "distinct (map ce_key es)" and "finite ks" and "ce_key e \<notin> ks"
    and "op_key op = ce_key e \<Longrightarrow> \<exists>u. op = GetOp u (ce_key e) \<and> time_sub u (ce_saved_at e) \<le> ttl"
    and "card (insert (op_key op) ks - {ce_key e}) < nat capacity"
  shows "stands e (insert (op_key op) ks - {ce_key e}) (lru_step capacity ttl op es)"
proof -
  let ?ks = "insert (op_key op) ks - {ce_key e}"
  have wider: "ks \<subseteq> ?ks" using assms(4) by auto
  note mono = stands_mono[OF _ wider]
  show ?thesis
  proof (cases op)
    case (GetOp u k)
    show ?thesis
    proof (cases "k = ce_key e")
      case True
      with assms(5) GetOp have "\<not> ttl < time_sub u (ce_saved_at e)" by auto
      with GetOp True stands_find[OF assms(1,4)] show ?thesis by (simp add: lru_get_def stands_front)
    next
      case False
      have gone: "stands e ks (filter (\<lambda>x. \<not> has_key k x) es)" using False by (intro stands_filter[OF assms(1)]) auto
      show ?thesis
      proof (cases "find (has_key k) es")
        case None
        with GetOp mono[OF assms(1)] show ?thesis by (simp add: lru_get_def)
      next
        case (Some x)
        then have "ce_key x = k" by (auto simp: find_Some_iff)
        with False GetOp have "ce_key x \<in> ?ks" by simp
        with GetOp Some mono[OF gone] stands_Cons[OF gone _ wider] show ?thesis by (simp add: lru_get_def)
      qed
    qed
  next
    case (PutOp u k r)
    with assms(5) have other: "k \<noteq> ce_key e" by auto
    have room: "0 < nat capacity" using assms(6) by simp
    show ?thesis
    proof (cases "list_ex (has_key k) es")
      case True
      have "stands e ks (filter (\<lambda>x. \<not> has_key k x) es)" using other by (intro stands_filter[OF assms(1)]) auto
      from stands_Cons[OF this, of _ ?ks] PutOp other room True wider show ?thesis
        by (auto simp: lru_put_def)
    next
      case False
      from assms(1) obtain xs ys where es: "es = xs @ e # ys" "ce_key ` set xs \<subseteq> ks" unfolding stands_def by blast
      from False have "k \<notin> ce_key ` set es" by (auto simp: list_ex_iff)
      then have in_rest: "ce_key ` set xs \<subseteq> ks - {k}" using es by auto
      have sub: "insert k (ks - {k}) \<subseteq> ?ks" using PutOp other wider by auto
      have "card (insert k (ks - {k})) \<le> card ?ks" by (rule card_mono[OF _ sub]) (use assms(3) in simp)
      moreover have "card (insert k (ks - {k})) = Suc (card (ks - {k}))"
        by (rule card_insert_disjoint) (use assms(3) in auto)
      ultimately have "card (ks - {k}) < nat capacity - 1" using assms(6) by linarith
      then have "stands e (ks - {k}) (take (nat capacity - 1) es)"
        using es(1) in_rest assms(2,3) by (intro stands_take) (auto simp: stands_def)
      then have "stands e ?ks (\<lparr>ce_key = k, ce_result = copy_suggest_result r, ce_saved_at = u\<rparr> # take (nat capacity - 1) es)"
        by (rule stands_Cons) (use PutOp other assms(4) in auto)
      with PutOp room False show ?thesis by (simp add: lru_put_def)
    qed
  qed
qed

lemma run_cache_stands:
  assumes "0 < capacity"
    and "\<forall>op \<in> set later. op_key op = k \<longrightarrow> (\<exists>u. op = GetOp u k \<and> time_sub u t \<le> ttl)"
    and "card (op_key ` set later - {k}) < nat capacity"
  shows "stands \<lparr>ce_key = k, ce_result = copy_suggest_result r, ce_saved_at = t\<rparr> (op_key ` set later - {k})
    (entries (run_cache (ops @ PutOp t k r # later) (new_suggest_cache capacity ttl)))"
  using assms(2,3)
proof (induction later rule: rev_induct)
  case Nil
  show ?case unfolding run_cache_entries using assms(1) by (simp add: lru_put_def stands_front)
next
  case (snoc op later)
  let ?e = "\<lparr>ce_key = k, ce_result = copy_suggest_result r, ce_saved_at = t\<rparr>"
  let ?run = "ops @ PutOp t k r # later"
  have keys: "op_key ` set (later @ [op]) - {k} = insert (op_key op) (op_key ` set later - {k}) - {ce_key ?e}" by auto
  have "card (op_key ` set later - {k}) \<le> card (op_key ` set (later @ [op]) - {k})"
    by (rule card_mono) auto
  with snoc.prems(2) have "card (op_key ` set later - {k}) < nat capacity" by linarith
  with snoc have "stands ?e (op_key ` set later - {k}) (entries (run_cache ?run (new_suggest_cache capacity ttl)))" by simp
  then have "stands ?e (insert (op_key op) (op_key ` set later - {k}) - {ce_key ?e})
    (lru_step capacity ttl op (entries (run_cache ?run (new_suggest_cache capacity ttl))))"
  proof (rule stands_step)
    show "distinct (map ce_key (entries (run_cache ?run (new_suggest_cache capacity ttl))))"
      using run_cache_ok cache_okD(2) by blast
    show "card (insert (op_key op) (op_key ` set later - {k}) - {ce_key ?e}) < nat capacity"
      using snoc.prems(2) unfolding keys .
  qed (use snoc.prems(1) in auto)
  then show ?case unfolding keys[symmetric] using run_cache_entries[of ?run op] by simp
qed

section \<open>The guarantees of the cache\<close>

text \<open>C27: The list and the map of the cache implement an abstract LRU list. After any calls a
  lookup gives the answer of the abstract list and leaves its entries, a store does the same, there
  are never more entries than the capacity nor two for one key, and the map holds exactly
  the elements of the list.
\<close>

theorem suggest_cache_implements_lru:
  shows "let c = run_cache ops (new_suggest_cache capacity ttl) in
    fst (cache_get now k c) = fst (lru_get ttl now k (entries c)) \<and>
    entries (snd (cache_get now k c)) = snd (lru_get ttl now k (entries c)) \<and>
    entries (cache_put now k r c) = lru_put capacity now k r (entries c) \<and>
    int (length (entries c)) \<le> max 0 capacity \<and> distinct (map ce_key (entries c)) \<and>
    (sc_items c k = Some el \<longleftrightarrow> (\<exists>e. (el, e) \<in> set (sc_order c) \<and> ce_key e = k))"
proof -
  define c where "c = run_cache ops (new_suggest_cache capacity ttl)"
  from run_cache_ok[of ops capacity ttl] have ok: "cache_ok c" "sc_ttl c = ttl" "sc_capacity c = capacity"
    by (simp_all add: c_def)
  from cache_get_implements[OF ok(1)] cache_put_implements[OF ok(1)] cache_okD[OF ok(1)] ok(2,3)
  show ?thesis unfolding c_def[symmetric] by (simp add: Let_def entries_def)
qed

text \<open>A cached suggestion is the latest one for its request and not too old. When a lookup
  answers, the answer is the result that was last stored under the very same key, marked with the moment
  it was stored, and no more than the time to live lies between.
\<close>

theorem cached_suggestion_is_latest:
  assumes "fst (cache_get now k (run_cache ops (new_suggest_cache capacity ttl))) = Some answer"
  shows "\<exists>t r. latest_put k ops = Some (t, r) \<and> answer = r\<lparr>sr_cached_at := t\<rparr> \<and> time_sub now t \<le> ttl"
proof -
  let ?c = "run_cache ops (new_suggest_cache capacity ttl)"
  have "fst (lru_get ttl now k (entries ?c)) = Some answer"
    using assms cache_get_implements[of ?c now k] run_cache_ok[of ops capacity ttl] by simp
  then obtain e where e: "find (has_key k) (entries ?c) = Some e" "answer = fresh_result e" "\<not> ttl < time_sub now (ce_saved_at e)"
    by (auto simp: lru_get_def split: option.splits if_splits)
  then have "e \<in> set (entries ?c)" "ce_key e = k" by (auto simp: find_Some_iff)
  from run_cache_latest[OF this(1)] this(2) e(2,3) show ?thesis by (auto dest: fresh_result_copy)
qed

text \<open>The cache saves the money it is there for. A stored suggestion is found again within its
  time to live as long as the calls since then touch fewer other keys than the cache has places:
  only the least recently used answers make room.
\<close>

theorem recent_suggestion_is_found:
  assumes "0 < capacity"
    and "\<forall>op \<in> set later. op_key op = k \<longrightarrow> (\<exists>u. op = GetOp u k \<and> time_sub u t \<le> ttl)"
    and "card (op_key ` set later - {k}) < nat capacity"
    and "time_sub now t \<le> ttl"
  shows "fst (cache_get now k (run_cache (ops @ PutOp t k r # later) (new_suggest_cache capacity ttl))) =
    Some (r\<lparr>sr_cached_at := t\<rparr>)"
proof -
  let ?e = "\<lparr>ce_key = k, ce_result = copy_suggest_result r, ce_saved_at = t\<rparr>"
  let ?c = "run_cache (ops @ PutOp t k r # later) (new_suggest_cache capacity ttl)"
  from stands_find[OF run_cache_stands[OF assms(1-3), of r ops]]
  have "find (has_key k) (entries ?c) = Some ?e" by simp
  with assms(4) have "fst (lru_get ttl now k (entries ?c)) = Some (fresh_result ?e)" by (simp add: lru_get_def)
  then show ?thesis
    using cache_get_implements[of ?c now k] run_cache_ok[of "ops @ PutOp t k r # later" capacity ttl]
      fresh_result_copy[of ?e r] by simp
qed

definition demo_answer :: suggest_result where
  "demo_answer = \<lparr>sr_prompt = ''on a white table'', sr_category = \<lparr>sg_slug = ''cup'', sg_name = ''Cups''\<rparr>,
     sr_candidates = [\<lparr>sd_uid = ''P1'', sd_title = ''Table''\<rparr>], sr_note = [], sr_cached_at = zero_time\<rparr>"

definition demo_later :: "cache_op list" where
  "demo_later = [GetOp 2 ''b'', PutOp 3 ''b'' demo_answer, GetOp 4 ''a'', PutOp 5 ''c'' demo_answer, PutOp 6 ''b'' demo_answer]"

lemma recent_suggestion_is_found_witness:
  "fst (cache_get 9 ''a'' (run_cache ([PutOp 0 ''z'' demo_answer] @ PutOp 1 ''a'' demo_answer # demo_later) (new_suggest_cache 3 10))) =
   Some (demo_answer\<lparr>sr_cached_at := 1\<rparr>)"
proof (rule recent_suggestion_is_found)
  have "op_key ` set demo_later - {''a''} = {''b'', ''c''}" by (auto simp: demo_later_def)
  then show "card (op_key ` set demo_later - {''a''}) < nat 3" by simp
  show "\<forall>op \<in> set demo_later. op_key op = ''a'' \<longrightarrow> (\<exists>u. op = GetOp u ''a'' \<and> time_sub u 1 \<le> 10)"
    by (simp add: demo_later_def time_sub_def)
qed (simp_all add: time_sub_def)

lemma cached_suggestion_is_latest_witness:
  "\<exists>t r. latest_put ''a'' [PutOp 0 ''a'' demo_answer, PutOp 1 ''b'' demo_answer] = Some (t, r) \<and> time_sub 5 t \<le> 10"
proof -
  have "fst (cache_get 5 ''a'' (run_cache [PutOp 0 ''a'' demo_answer, PutOp 1 ''b'' demo_answer] (new_suggest_cache 3 10))) =
    Some (demo_answer\<lparr>sr_cached_at := 0\<rparr>)"
    by (simp add: run_cache_def new_suggest_cache_def cache_put_def cache_get_def evict.simps time_sub_def
        move_to_front_def copy_suggest_result_def demo_answer_def zero_time_def)
  from cached_suggestion_is_latest[OF this] show ?thesis by blast
qed

section \<open>The key\<close>

lemma digits_determine:
  "n < 256 ^ k \<Longrightarrow> m < 256 ^ k \<Longrightarrow> (\<And>i. i < k \<Longrightarrow> n div 256 ^ i mod 256 = m div 256 ^ i mod 256) \<Longrightarrow> n = (m :: nat)"
proof (induction k arbitrary: n m)
  case (Suc k)
  have "n div 256 = m div 256"
  proof (rule Suc.IH)
    show "n div 256 < 256 ^ k" "m div 256 < 256 ^ k" using Suc.prems(1,2) by (simp_all add: less_mult_imp_div_less mult.commute)
    show "n div 256 div 256 ^ i mod 256 = m div 256 div 256 ^ i mod 256" if "i < k" for i
      using Suc.prems(3)[of "Suc i"] that by (simp add: div_mult2_eq mult.commute)
  qed
  moreover have "n mod 256 = m mod 256" using Suc.prems(3)[of 0] by simp
  ultimately show ?case by (metis div_mult_mod_eq)
qed simp

lemma big_endian64_inject:
  assumes "in_int64 a" and "in_int64 b" and "big_endian64 a = big_endian64 b"
  shows "a = b"
proof -
  let ?n = "\<lambda>x. nat (x mod 2 ^ 64)"
  have digits: "?n a div 256 ^ i mod 256 = ?n b div 256 ^ i mod 256" if "i < 8" for i
  proof -
    from that have "i \<in> set [7, 6, 5, 4, 3, 2, 1, 0]" by auto
    with assms(3) have "char_of (?n a div 256 ^ i mod 256) = char_of (?n b div 256 ^ i mod 256)"
      unfolding big_endian64_def map_eq_conv by blast
    then have "(of_char (char_of (?n a div 256 ^ i mod 256)) :: nat) = of_char (char_of (?n b div 256 ^ i mod 256))" by simp
    then show ?thesis by simp
  qed
  have small: "?n x < 256 ^ 8" for x
  proof -
    have "x mod 2 ^ 64 < (2 :: int) ^ 64" by (rule pos_mod_bound) simp
    then show ?thesis by (simp add: nat_less_iff)
  qed
  have "?n a = ?n b" by (rule digits_determine[OF small small digits])
  then have "a mod 2 ^ 64 = b mod 2 ^ 64" by (simp add: eq_nat_nat_iff)
  then have "wrap64 a = wrap64 b" unfolding wrap64_def by (metis mod_add_left_eq)
  then show ?thesis using assms(1,2) by (simp add: wrap64_id)
qed

lemma length_big_endian64 [simp]: "length (big_endian64 n) = 8"
  by (simp add: big_endian64_def)

lemma key_parts_inject:
  "\<forall>p \<in> set ps \<union> set qs. CHR 0x00 \<notin> set p \<Longrightarrow> concat (map key_part ps) = concat (map key_part qs) \<Longrightarrow> ps = qs"
proof (induction ps arbitrary: qs)
  case Nil
  then show ?case by (cases qs) (simp_all add: key_part_def)
next
  case (Cons p ps)
  then obtain q qs' where qs: "qs = q # qs'" by (cases qs) (simp_all add: key_part_def)
  with Cons.prems have eq: "p @ CHR 0x00 # concat (map key_part ps) = q @ CHR 0x00 # concat (map key_part qs')"
    unfolding qs key_part_def[of p] key_part_def[of q] list.map concat.simps by simp
  have "split_on CHR 0x00 (p @ CHR 0x00 # concat (map key_part ps)) = p # split_on CHR 0x00 (concat (map key_part ps))"
    and "split_on CHR 0x00 (q @ CHR 0x00 # concat (map key_part qs')) = q # split_on CHR 0x00 (concat (map key_part qs'))"
    using Cons.prems(1) qs by (simp_all add: split_on_append)
  with eq have "p = q" by simp
  with eq Cons qs show ?case by simp
qed

text \<open>C39: The cache key tells requests apart as it should. For user ids of 64 bits and text without NUL bytes once
  white space around it is removed, two requests feed the same bytes to the hash just when they come from the same user, name the same photos in any order
  and with the same repetitions, and agree on category, features and model up to white space around them.
\<close>

theorem suggest_key_identifies_request:
  assumes "in_int64 user" and "in_int64 user'"
    and "\<forall>s \<in> set (uids @ [category, features, model] @ uids' @ [category', features', model']). CHR 0x00 \<notin> set (trim_space s)"
  shows "key_preimage user uids category features model = key_preimage user' uids' category' features' model' \<longleftrightarrow>
    user = user' \<and>
    mset (filter (\<lambda>u. u \<noteq> []) (map trim_space uids)) = mset (filter (\<lambda>u. u \<noteq> []) (map trim_space uids')) \<and>
    trim_space category = trim_space category' \<and> trim_space features = trim_space features' \<and> trim_space model = trim_space model'"
    (is "?same \<longleftrightarrow> ?request")
proof
  let ?parts = "\<lambda>uids c f m. key_uids uids @ map trim_space [c, f, m]"
  have pre: "key_preimage u us c f m = big_endian64 u @ big_endian64 (int (length (key_uids us))) @ concat (map key_part (?parts us c f m))"
    for u us c f m by (simp add: key_preimage_def Let_def)
  assume ?same
  then have "big_endian64 user = big_endian64 user'"
    and parts: "concat (map key_part (?parts uids category features model)) = concat (map key_part (?parts uids' category' features' model'))"
    unfolding pre by (simp_all del: concat.simps list.map map_append concat_append)
  then have "user = user'" using assms(1,2) by (simp add: big_endian64_inject)
  moreover have "\<forall>p \<in> set (?parts uids category features model) \<union> set (?parts uids' category' features' model'). CHR 0x00 \<notin> set p"
    using assms(3) by (auto simp: key_uids_def)
  from key_parts_inject[OF this parts] have "key_uids uids = key_uids uids'" and
    "trim_space category = trim_space category'" "trim_space features = trim_space features'" "trim_space model = trim_space model'"
    by simp_all
  moreover from this(1) have "mset (filter (\<lambda>u. u \<noteq> []) (map trim_space uids)) = mset (filter (\<lambda>u. u \<noteq> []) (map trim_space uids'))"
    unfolding key_uids_def by (metis mset_sort)
  ultimately show ?request by blast
next
  assume ?request
  moreover from this have "key_uids uids = key_uids uids'" unfolding key_uids_def by (metis mset_sort properties_for_sort sorted_sort)
  ultimately show ?same by (simp add: key_preimage_def)
qed

lemma suggest_key_identifies_request_witness:
  "key_preimage 7 [''a'', ''bc''] ''d'' ''e'' ''m'' \<noteq> key_preimage 7 [''a''] ''bcd'' ''e'' ''m''"
proof -
  have plain: "trim_space ''a'' = ''a''" "trim_space ''bc'' = ''bc''" "trim_space ''d'' = ''d''" "trim_space ''e'' = ''e''"
    "trim_space ''m'' = ''m''" "trim_space ''bcd'' = ''bcd''"
    by (simp_all add: trim_space_plain plain_char_def)
  show ?thesis
    by (subst suggest_key_identifies_request) (simp_all add: plain)
qed

lemma extra_images_all_load:
  assumes "\<forall>u \<in> set us. load u = Inr (picture u) \<and> trim_space u = u \<and> u \<noteq> [] \<and> u \<noteq> trim_space a"
  shows "extra_images load a us images = images @ map picture (take (suggest_max_images - length images) us)"
  using assms
proof (induction us arbitrary: images)
  case (Cons u us)
  show ?case
  proof (cases "suggest_max_images \<le> length images")
    case False
    then obtain n where "suggest_max_images - length images = Suc n" by (metis Suc_diff_Suc not_le)
    moreover from this have "suggest_max_images - length (images @ [picture u]) = n" by simp
    ultimately show ?thesis using Cons False by (simp add: Let_def)
  qed simp
qed simp

text \<open>C40: Requests that share a cache entry need not show the model the same photos. When the photos of a request can
  all be read and are named by different, trimmed, non-empty ids, the key is the same for every order of the
  photos after the first, but the model is sent only the first one and the two named next. So when two
  orders of a request name different photos in these two places, and different photos have different
  pictures, the requests have one key and are sent different sets of pictures.
\<close>

theorem reordered_photos_share_the_entry:
  assumes "\<forall>u \<in> set (a # us). load u = Inr (picture u) \<and> trim_space u = u \<and> u \<noteq> []"
    and "distinct (a # us)" and "mset us' = mset us"
  shows "key_preimage user (a # us') category features model = key_preimage user (a # us) category features model \<and>
    suggest_images load a us = Inr (map picture (a # take 2 us)) \<and>
    suggest_images load a us' = Inr (map picture (a # take 2 us')) \<and>
    (inj_on picture (set (a # us)) \<and> set (take 2 us') \<noteq> set (take 2 us) \<longrightarrow>
       set (map picture (a # take 2 us')) \<noteq> set (map picture (a # take 2 us)))"
proof (intro conjI impI)
  have same: "set us' = set us" using assms(3) by (metis set_mset_mset)
  have "mset (filter (\<lambda>u. u \<noteq> []) (map trim_space (a # us'))) = mset (filter (\<lambda>u. u \<noteq> []) (map trim_space (a # us)))"
    using assms(3) by simp
  then have "key_uids (a # us') = key_uids (a # us)"
    unfolding key_uids_def by (metis mset_sort properties_for_sort sorted_sort)
  then show "key_preimage user (a # us') category features model = key_preimage user (a # us) category features model"
    by (simp add: key_preimage_def)
  have images: "suggest_images load a ws = Inr (map picture (a # take 2 ws))" if "set ws = set us" for ws
  proof -
    have "extra_images load a ws [picture a] = [picture a] @ map picture (take (suggest_max_images - length [picture a]) ws)"
      by (rule extra_images_all_load) (use assms(1,2) that in auto)
    then show ?thesis using assms(1) by (simp add: suggest_images_def suggest_max_images_def)
  qed
  show "suggest_images load a us = Inr (map picture (a # take 2 us))"
    and "suggest_images load a us' = Inr (map picture (a # take 2 us'))"
    using images same by simp_all
  assume "inj_on picture (set (a # us)) \<and> set (take 2 us') \<noteq> set (take 2 us)"
  moreover have sub: "set (take 2 us') \<subseteq> set us" "set (take 2 us) \<subseteq> set us" using set_take_subset[of 2 us'] set_take_subset[of 2 us] same by auto
  moreover have "a \<notin> set us" using assms(2) by simp
  ultimately have "picture ` insert a (set (take 2 us')) \<noteq> picture ` insert a (set (take 2 us))"
    by (metis (no_types, lifting) inj_on_image_eq_iff insert_ident insert_mono list.simps(15) subsetD)
  then show "set (map picture (a # take 2 us')) \<noteq> set (map picture (a # take 2 us))" by simp
qed

lemma reordered_photos_share_the_entry_witness:
  "key_preimage 7 (''a'' # [''d'', ''c'', ''b'']) [] [] ''m'' = key_preimage 7 (''a'' # [''b'', ''c'', ''d'']) [] [] ''m'' \<and>
   suggest_images (Inr :: string \<Rightarrow> nat + string) ''a'' [''b'', ''c'', ''d''] = Inr [''a'', ''b'', ''c''] \<and>
   suggest_images (Inr :: string \<Rightarrow> nat + string) ''a'' [''d'', ''c'', ''b''] = Inr [''a'', ''d'', ''c'']"
  using reordered_photos_share_the_entry[of "''a''" "[''b'', ''c'', ''d'']" "Inr :: string \<Rightarrow> nat + string" id "[''d'', ''c'', ''b'']" 7 "[]" "[]" "''m''"]
  by (simp add: trim_space_plain plain_char_def numeral_2_eq_2)

end
