(* ===== verification/Prompt_Convert.thy ===== *)
theory Prompt_Convert
  imports Utf8
begin

text \<open>
  From the prompts of the open library to those of the designkit: \<open>service/inspiration\_convert.go\<close>. A
  prompt of the library holds arguments like \<open>{argument name="hair color" default="red"}\<close>; here
  each becomes a placeholder with a key made from its name. The first section is the
  part of Go's package \<open>regexp\<close> the code uses: the first match in the order of preference, at the leftmost
  place. A text is searched character by character; the character of an invalid byte is that byte.
\<close>

section \<open>Regular expressions\<close>

function runes :: "string \<Rightarrow> string list" where
  "runes s = (if s = [] then [] else take (rune_size s) s # runes (drop (rune_size s) s))"
  by pat_completeness auto
termination
  by (relation "measure length") auto

declare runes.simps [simp del]

datatype regex =
    RChar "string \<Rightarrow> bool"
  | REps
  | RCat regex regex
  | RAlt regex regex
  | RStar bool regex
  | RGroup nat regex

type_synonym match_state = "string list \<times> (nat \<Rightarrow> string option)"

text \<open>
  All ways to match, the preferred first. A repetition is greedy or not, and a round of it must
  consume something; \<open>n\<close> bounds the rounds by the length of the text.
\<close>

fun star_matches :: "bool \<Rightarrow> (match_state \<Rightarrow> match_state list) \<Rightarrow> nat \<Rightarrow> match_state \<Rightarrow> match_state list" where
  "star_matches greedy f 0 st = [st]"
| "star_matches greedy f (Suc n) st =
     (let longer = concat (map (star_matches greedy f n) (filter (\<lambda>st'. length (fst st') < length (fst st)) (f st)))
      in if greedy then longer @ [st] else st # longer)"

fun regex_matches :: "regex \<Rightarrow> match_state \<Rightarrow> match_state list" where
  "regex_matches (RChar P) st = (case fst st of [] \<Rightarrow> [] | x # xs \<Rightarrow> if P x then [(xs, snd st)] else [])"
| "regex_matches REps st = [st]"
| "regex_matches (RCat r s) st = concat (map (regex_matches s) (regex_matches r st))"
| "regex_matches (RAlt r s) st = regex_matches r st @ regex_matches s st"
| "regex_matches (RStar greedy r) st = star_matches greedy (regex_matches r) (length (fst st)) st"
| "regex_matches (RGroup i r) st =
     map (\<lambda>st'. (fst st', (snd st')(i \<mapsto> concat (take (length (fst st) - length (fst st')) (fst st))))) (regex_matches r st)"

fun r_lit :: "string \<Rightarrow> regex" where
  "r_lit [] = REps"
| "r_lit (c # cs) = RCat (RChar (\<lambda>x. x = [c])) (r_lit cs)"

definition r_opt :: "regex \<Rightarrow> regex" where
  "r_opt r = RAlt r REps"

definition r_space :: regex where
  "r_space = RChar (\<lambda>x. x \<in> {[CHR 0x09], [CHR 0x0A], [CHR 0x0C], [CHR 0x0D], [CHR 0x20]})"

section \<open>The arguments of a prompt\<close>

definition dquote :: string where "dquote = [CHR 0x22]"
definition backslash :: string where "backslash = [CHR 0x5C]"

text \<open>\<open>[^"\]|\.\<close>: the characters of a quoted value\<close>

definition r_value_char :: regex where
  "r_value_char =
     RAlt (RChar (\<lambda>x. x \<noteq> dquote \<and> x \<noteq> backslash))
          (RCat (r_lit backslash) (RChar (\<lambda>x. x \<noteq> [CHR 0x0A])))"

definition r_quote :: regex where
  "r_quote = RCat (r_opt (r_lit backslash)) (r_lit dquote)"

definition argument_pattern :: regex where
  "argument_pattern =
     RCat (r_lit ''{argument'') (RCat r_space (RCat (RStar True r_space) (RCat (r_lit ''name='') (RCat r_quote
       (RCat (RGroup 1 (RCat r_value_char (RStar False r_value_char))) (RCat r_quote
         (RCat (r_opt (RCat r_space (RCat (RStar True r_space) (RCat (r_lit ''default='') (RCat r_quote
                 (RCat (RGroup 2 (RStar False r_value_char)) r_quote))))))
           (RCat (RStar True r_space) (r_lit ''}'')))))))))"

text \<open>
  \<open>FindAllStringSubmatchIndex\<close>: for every match the text between it and the one before, the text of the match,
  its first group and its second one if it took part; then what follows the last match.
\<close>

record argument =
  ar_before :: string
  ar_match :: string
  ar_name :: string
  ar_default :: "string option"

definition match_here :: "string list \<Rightarrow> match_state option" where
  "match_here xs =
     (case regex_matches argument_pattern (xs, Map.empty) of
        [] \<Rightarrow> None | st # _ \<Rightarrow> if length (fst st) < length xs then Some st else None)"

lemma match_here_shorter: "match_here xs = Some st \<Longrightarrow> length (fst st) < length xs"
  by (auto simp: match_here_def split: list.splits if_splits)

function find_arguments :: "string list \<Rightarrow> string \<Rightarrow> argument list \<times> string" where
  "find_arguments [] pre = ([], pre)"
| "find_arguments (x # xs) pre =
     (case match_here (x # xs) of
        None \<Rightarrow> find_arguments xs (pre @ x)
      | Some (rest, groups) \<Rightarrow>
          (case find_arguments rest [] of
             (args, tail) \<Rightarrow>
               (\<lparr>ar_before = pre, ar_match = concat (take (length (x # xs) - length rest) (x # xs)),
                 ar_name = (case groups 1 of None \<Rightarrow> [] | Some n \<Rightarrow> n), ar_default = groups 2\<rparr> # args, tail)))"
  by pat_completeness auto
termination
  by (relation "measure (\<lambda>(xs, _). length xs)") (auto dest: match_here_shorter)

declare find_arguments.simps [simp del]

text \<open>\<open>strings.NewReplacer\<close> with the two escapes\<close>

fun unescape_argument :: "string \<Rightarrow> string" where
  "unescape_argument (a # b # cs) =
     (if a = CHR 0x5C \<and> (b = CHR 0x22 \<or> b = CHR 0x5C) then b # unescape_argument cs
      else a # unescape_argument (b # cs))"
| "unescape_argument s = s"

section \<open>The key of a placeholder\<close>

text \<open>The code point of a character of three bytes.\<close>

definition code3 :: "string \<Rightarrow> nat" where
  "code3 x = (of_char (x ! 0) mod 16) * 4096 + (of_char (x ! 1) mod 64) * 64 + of_char (x ! 2) mod 64"

definition is_rune3 :: "string \<Rightarrow> bool" where
  "is_rune3 x \<longleftrightarrow> length x = 3 \<and> decode_rune x = Some 3"

text \<open>A character as \<open>string\<close> and \<open>WriteRune\<close> write it: an invalid byte becomes the replacement character.\<close>

definition written_rune :: "string \<Rightarrow> string" where
  "written_rune x = (if decode_rune x = None then bytes [239, 191, 189] else x)"

definition fold_rune :: "string \<Rightarrow> string" where
  "fold_rune x =
     (if is_rune3 x \<and> 0xFF01 \<le> code3 x \<and> code3 x \<le> 0xFF5E then [char_of (code3 x - 0xFEE0)]
      else if is_rune3 x \<and> code3 x = 0x3000 then '' ''
      else written_rune x)"

definition fold_full_width :: "string \<Rightarrow> string" where
  "fold_full_width s = concat (map fold_rune (runes s))"

definition max_var_name_runes :: nat where
  "max_var_name_runes = 40"

definition truncate_runes :: "string \<Rightarrow> int \<Rightarrow> string" where
  "truncate_runes s limit =
     (if limit \<le> 0 then [] else if int (length (runes s)) \<le> limit then s
      else concat (map written_rune (take (nat limit) (runes s))))"

definition var_char :: "string \<Rightarrow> bool" where
  "var_char x \<longleftrightarrow>
     (case x of [c] \<Rightarrow> (let n = (of_char c :: nat) in 97 \<le> n \<and> n \<le> 122 \<or> 48 \<le> n \<and> n \<le> 57 \<or> n = 95) | _ \<Rightarrow> False) \<or>
     is_rune3 x \<and> 0x4E00 \<le> code3 x \<and> code3 x \<le> 0x9FFF"

text \<open>\<open>varNameStripPattern.ReplaceAllString\<close>: every run of other characters becomes one underscore.\<close>

fun strip_var_name :: "bool \<Rightarrow> string list \<Rightarrow> string" where
  "strip_var_name in_run [] = []"
| "strip_var_name in_run (x # xs) =
     (if var_char x then x @ strip_var_name False xs
      else if in_run then strip_var_name True xs
      else CHR ''_'' # strip_var_name True xs)"

definition trim_underscores :: "string \<Rightarrow> string" where
  "trim_underscores s = rev (dropWhile (\<lambda>c. c = CHR ''_'') (rev (dropWhile (\<lambda>c. c = CHR ''_'') s)))"

text \<open>
  Lowering a letter that is not ASCII may give another such letter; neither is allowed in a key, so
  \<open>to_lower\<close>, which leaves it, gives the same key. No allowed character but 0 to 9 is a digit.
\<close>

definition sanitize_var_name :: "string \<Rightarrow> string" where
  "sanitize_var_name label =
     (let normalized = to_lower (trim_space (fold_full_width label));
          key = trim_underscores (strip_var_name False (runes normalized))
      in if key = [] then ''var''
         else truncate_runes (if digit_val (hd key) \<noteq> None then ''v_'' @ key else key) (int max_var_name_runes))"

definition var_candidate :: "string \<Rightarrow> nat \<Rightarrow> string" where
  "var_candidate base i = base @ ''_'' @ nat_digits i"

lemma var_candidate_inject: "var_candidate base i = var_candidate base j \<longleftrightarrow> i = j"
  by (simp add: var_candidate_def nat_digits_inject)

text \<open>The numbers that are taken are finitely many, so the loop ends.\<close>

function var_key_from :: "string \<Rightarrow> string list \<Rightarrow> nat \<Rightarrow> string" where
  "var_key_from base used i =
     (if var_candidate base i \<notin> set used then var_candidate base i else var_key_from base used (i + 1))"
  by pat_completeness auto
termination
proof (relation "measure (\<lambda>(base, used, i). card {j. i \<le> j \<and> var_candidate base j \<in> set used})")
  fix base :: string and used i
  assume "\<not> var_candidate base i \<notin> set used"
  then have taken: "i \<in> {j. i \<le> j \<and> var_candidate base j \<in> set used}" by simp
  have "finite (var_candidate base -` set used)"
    by (rule finite_vimageI) (auto intro: injI simp: var_candidate_inject)
  then have fin: "finite {j. i \<le> j \<and> var_candidate base j \<in> set used}" by (rule rev_finite_subset) auto
  have "i \<notin> {j. i + 1 \<le> j \<and> var_candidate base j \<in> set used}" by simp
  with taken have "{j. i + 1 \<le> j \<and> var_candidate base j \<in> set used} \<noteq> {j. i \<le> j \<and> var_candidate base j \<in> set used}"
    by blast
  then have "{j. i + 1 \<le> j \<and> var_candidate base j \<in> set used} \<subset> {j. i \<le> j \<and> var_candidate base j \<in> set used}"
    by (intro psubsetI) auto
  then show "((base, used, i + 1), (base, used, i)) \<in> measure (\<lambda>(base, used, i). card {j. i \<le> j \<and> var_candidate base j \<in> set used})"
    using psubset_card_mono[OF fin] by simp
qed simp

declare var_key_from.simps [simp del]

definition unique_var_key :: "string \<Rightarrow> string list \<Rightarrow> string" where
  "unique_var_key base used = (if base \<notin> set used then base else var_key_from base used 2)"

section \<open>ConvertPrompt\<close>

record prompt_variable =
  pv_name :: string
  pv_example :: string

text \<open>The loop over the matches, with the text and the variables so far and the keys of the names seen.\<close>

fun convert_arguments ::
  "argument list \<Rightarrow> (string \<times> string) list \<Rightarrow> string \<Rightarrow> prompt_variable list \<Rightarrow> string \<times> prompt_variable list" where
  "convert_arguments [] keys body vars = (body, vars)"
| "convert_arguments (a # as) keys body vars =
     (let label = unescape_argument (ar_name a);
          def = (case ar_default a of None \<Rightarrow> [] | Some d \<Rightarrow> unescape_argument d)
      in case map_of keys label of
           Some key \<Rightarrow> convert_arguments as keys (body @ ar_before a @ ''{'' @ key @ ''}'') vars
         | None \<Rightarrow>
             (let key = unique_var_key (sanitize_var_name label) (map snd keys)
              in convert_arguments as (keys @ [(label, key)]) (body @ ar_before a @ ''{'' @ key @ ''}'')
                   (vars @ [\<lparr>pv_name = key, pv_example = def\<rparr>])))"

definition convert_prompt :: "string \<Rightarrow> string \<times> prompt_variable list" where
  "convert_prompt content =
     (case find_arguments (runes content) [] of
        (args, tail) \<Rightarrow>
          if args = [] then (trim_space content, [])
          else case convert_arguments args [] [] [] of (body, vars) \<Rightarrow> (trim_space (body @ tail), vars))"

section \<open>Categories and rows\<close>

record inspiration_category =
  ic_slug :: string
  ic_name_zh :: string
  ic_name_en :: string

definition inspiration_categories :: "inspiration_category list" where
  "inspiration_categories =
     [\<lparr>ic_slug = ''profile-avatar'', ic_name_zh = (bytes [229, 164, 180, 229, 131, 143, 228, 184, 142, 228, 184, 170, 228, 186, 186, 229, 189, 162,
      232, 177, 161]), ic_name_en = ''Profile & Avatar''\<rparr>,
      \<lparr>ic_slug = ''social-media-post'', ic_name_zh = (bytes [231, 164, 190, 228, 186, 164, 229, 170, 146, 228, 189, 147, 229, 184, 150, 229, 173, 144]), ic_name_en = ''Social Media Post''\<rparr>,
      \<lparr>ic_slug = ''infographic-edu-visual'', ic_name_zh = (bytes [228, 191, 161, 230, 129, 175, 229, 155, 190, 228, 184, 142, 230, 149, 153, 232, 130, 178,
      232, 167, 134, 232, 167, 137]), ic_name_en = ''Infographic & Education''\<rparr>,
      \<lparr>ic_slug = ''youtube-thumbnail'', ic_name_zh = (bytes [232, 167, 134, 233, 162, 145, 229, 176, 129, 233, 157, 162]), ic_name_en = ''Video Thumbnail''\<rparr>,
      \<lparr>ic_slug = ''comic-storyboard'', ic_name_zh = (bytes [230, 188, 171, 231, 148, 187, 228, 184, 142, 229, 136, 134, 233, 149, 156]), ic_name_en = ''Comic & Storyboard''\<rparr>,
      \<lparr>ic_slug = ''product-marketing'', ic_name_zh = (bytes [228, 186, 167, 229, 147, 129, 232, 144, 165, 233, 148, 128]), ic_name_en = ''Product Marketing''\<rparr>,
      \<lparr>ic_slug = ''ecommerce-main-image'', ic_name_zh = (bytes [231, 148, 181, 229, 149, 134, 228, 184, 187, 229, 155, 190]), ic_name_en = ''E-commerce Main Image''\<rparr>,
      \<lparr>ic_slug = ''game-asset'', ic_name_zh = (bytes [230, 184, 184, 230, 136, 143, 231, 180, 160, 230, 157, 144]), ic_name_en = ''Game Asset''\<rparr>,
      \<lparr>ic_slug = ''poster-flyer'', ic_name_zh = (bytes [230, 181, 183, 230, 138, 165, 228, 184, 142, 228, 188, 160, 229, 141, 149]), ic_name_en = ''Poster & Flyer''\<rparr>,
      \<lparr>ic_slug = ''app-web-design'', ic_name_zh = (bytes [229, 186, 148, 231, 148, 168, 228, 184, 142, 231, 189, 145, 233, 161, 181, 232, 174, 190,
      232, 174, 161]), ic_name_en = ''App & Web Design''\<rparr>,
      \<lparr>ic_slug = ''others'', ic_name_zh = (bytes [229, 133, 182, 228, 187, 150]), ic_name_en = ''Others''\<rparr>]"

definition primary_category_order :: "string list" where
  "primary_category_order =
     [''ecommerce-main-image'', ''product-marketing'', ''poster-flyer'', ''social-media-post'',
      ''infographic-edu-visual'', ''app-web-design'', ''youtube-thumbnail'', ''profile-avatar'',
      ''comic-storyboard'', ''game-asset'', ''others'']"

definition primary_category_slug :: "string list \<Rightarrow> string" where
  "primary_category_slug slugs =
     (case find (\<lambda>want. want \<in> set (map trim_space slugs)) primary_category_order of
        Some want \<Rightarrow> want | None \<Rightarrow> ''others'')"

definition max_prompt_title_runes :: int where "max_prompt_title_runes = 255"
definition max_preview_url_runes :: int where "max_preview_url_runes = 1024"

text \<open>\<open>strings.Fields\<close>: the words between runs of white space.\<close>

fun fields_from :: "string \<Rightarrow> string list \<Rightarrow> string list" where
  "fields_from word [] = (if word = [] then [] else [word])"
| "fields_from word (x # xs) =
     (if x \<in> set space_seqs then (if word = [] then fields_from [] xs else word # fields_from [] xs)
      else fields_from (word @ x) xs)"

fun join_spaces :: "string list \<Rightarrow> string" where
  "join_spaces [] = []"
| "join_spaces [w] = w"
| "join_spaces (w # ws) = w @ '' '' @ join_spaces ws"

definition collapse_spaces :: "string \<Rightarrow> string" where
  "collapse_spaces s = join_spaces (fields_from [] (runes s))"

fun pick_preview_url :: "string list \<Rightarrow> string option" where
  "pick_preview_url [] = None"
| "pick_preview_url (raw # media) =
     (let url = trim_space raw
      in if \<not> has_prefix ''http'' url then pick_preview_url media
         else if max_preview_url_runes < int (length (runes url)) then pick_preview_url media
         else Some url)"

record upstream_prompt =
  up_id :: int
  up_title :: string
  up_content :: string
  up_source_media :: "string list"
  up_slugs :: "string list"

record sync_prompt_row =
  sy_uid :: string
  sy_category_slug :: string
  sy_title :: string
  sy_body :: string
  sy_variables :: "prompt_variable list"
  sy_preview_url :: "string option"
  sy_source_ref :: string

definition prompt_source_ref_prefix :: string where "prompt_source_ref_prefix = ''youmind:''"

definition source_ref_of :: "int \<Rightarrow> string" where
  "source_ref_of i = prompt_source_ref_prefix @ itoa i"

definition you_mind_web_url :: string where
  "you_mind_web_url = ''https://youmind.com/gpt-image-2-prompts?id=''"

definition prompt_source_url :: "string \<Rightarrow> string" where
  "prompt_source_url source_ref =
     (let ref = trim_space source_ref
      in if \<not> has_prefix prompt_source_ref_prefix ref then []
         else (let i = trim_space (trim_prefix prompt_source_ref_prefix ref)
               in if i = [] then [] else you_mind_web_url @ i))"

text \<open>The ids that \<open>newUID\<close> hands out one after the other are \<open>uids n\<close>, \<open>uids (n + 1)\<close> and so on.\<close>

fun build_sync_rows :: "upstream_prompt list \<Rightarrow> (nat \<Rightarrow> string) \<Rightarrow> nat \<Rightarrow> sync_prompt_row list" where
  "build_sync_rows [] uids n = []"
| "build_sync_rows (i # is) uids n =
     (case convert_prompt (up_content i) of
        (body, vars) \<Rightarrow>
          if body = [] then build_sync_rows is uids n
          else
            (let title = truncate_runes (collapse_spaces (up_title i)) max_prompt_title_runes
             in \<lparr>sy_uid = uids n, sy_category_slug = primary_category_slug (up_slugs i),
                 sy_title = (if title = [] then (bytes [230, 143, 144, 231, 164, 186, 232, 175, 141, 32, 35]) @ itoa (up_id i) else title), sy_body = body,
                 sy_variables = vars, sy_preview_url = pick_preview_url (up_source_media i),
                 sy_source_ref = source_ref_of (up_id i)\<rparr> # build_sync_rows is uids (n + 1)))"

end
