(* ===== verification/Prompt_Convert_Guarantees.thy ===== *)
theory Prompt_Convert_Guarantees
  imports Prompt_Convert
begin

text \<open>
  What the conversion of a prompt of the open library promises: it keeps the text around the
  arguments, and gives every name of an argument a placeholder of its own.
\<close>

section \<open>The arguments of a text\<close>

lemma runes_Nil [simp]: "runes [] = []"
  by (simp add: runes.simps)

lemma concat_runes [simp]: "concat (runes s) = s"
proof (induction s rule: runes.induct)
  case (1 s)
  then show ?case by (cases "s = []") (simp_all add: runes.simps[of s])
qed

text \<open>A match consumes a piece of the text and leaves the rest.\<close>

definition leaves_suffix :: "(match_state \<Rightarrow> match_state list) \<Rightarrow> bool" where
  "leaves_suffix f \<longleftrightarrow> (\<forall>st. \<forall>st' \<in> set (f st). \<exists>xs. fst st = xs @ fst st')"

lemma star_leaves_suffix: "leaves_suffix f \<Longrightarrow> leaves_suffix (star_matches greedy f n)"
proof (induction n)
  case (Suc n)
  have "\<exists>xs. fst st = xs @ fst st''"
    if "st' \<in> set (f st)" and "st'' \<in> set (star_matches greedy f n st')" for st st' st''
  proof -
    from that(1) Suc.prems obtain xs where xs: "fst st = xs @ fst st'" unfolding leaves_suffix_def by blast
    from that(2) Suc obtain ys where "fst st' = ys @ fst st''" unfolding leaves_suffix_def by blast
    with xs have "fst st = (xs @ ys) @ fst st''" by simp
    then show ?thesis by blast
  qed
  then show ?case unfolding leaves_suffix_def by (auto simp: Let_def)
qed (simp add: leaves_suffix_def)

lemma regex_leaves_suffix: "leaves_suffix (regex_matches r)"
proof (induction r)
  case (RCat r s)
  have "\<exists>xs. fst st = xs @ fst st''"
    if "st' \<in> set (regex_matches r st)" and "st'' \<in> set (regex_matches s st')" for st st' st''
  proof -
    from that(1) RCat.IH(1) obtain xs where xs: "fst st = xs @ fst st'" unfolding leaves_suffix_def by blast
    from that(2) RCat.IH(2) obtain ys where "fst st' = ys @ fst st''" unfolding leaves_suffix_def by blast
    with xs have "fst st = (xs @ ys) @ fst st''" by simp
    then show ?thesis by blast
  qed
  then show ?case unfolding leaves_suffix_def by auto
next
  case (RAlt r s)
  then show ?case unfolding leaves_suffix_def regex_matches.simps set_append by blast
next
  case (RStar greedy r)
  then show ?case using star_leaves_suffix[of "regex_matches r" greedy] unfolding leaves_suffix_def by simp
next
  case (RGroup i r)
  then show ?case unfolding leaves_suffix_def by (auto simp: fun_upd_def)
qed (auto simp: leaves_suffix_def split: list.splits if_splits)

lemma match_here_split: "match_here xs = Some st \<Longrightarrow> take (length xs - length (fst st)) xs @ fst st = xs"
proof -
  assume "match_here xs = Some st"
  then have "st \<in> set (regex_matches argument_pattern (xs, Map.empty))"
    by (auto simp: match_here_def split: list.splits if_splits)
  then obtain ys where "xs = ys @ fst st" using regex_leaves_suffix[of argument_pattern] unfolding leaves_suffix_def by force
  then show ?thesis by (metis append_eq_conv_conj add_diff_cancel_right' length_append)
qed

lemma find_arguments_cover:
  "find_arguments xs pre = (args, tail) \<Longrightarrow> concat (map (\<lambda>a. ar_before a @ ar_match a) args) @ tail = pre @ concat xs"
proof (induction xs pre arbitrary: args tail rule: find_arguments.induct)
  case (2 x xs pre)
  show ?case
  proof (cases "match_here (x # xs)")
    case None
    with 2 show ?thesis by (simp add: find_arguments.simps)
  next
    case (Some st)
    obtain rest groups where st: "st = (rest, groups)" by (cases st)
    obtain args' tail' where inner: "find_arguments rest [] = (args', tail')" by (cases "find_arguments rest []")
    from "2.IH"(2)[OF Some[unfolded st] refl inner]
    have IH: "concat (map (\<lambda>a. ar_before a @ ar_match a) args') @ tail' = concat rest" by simp
    have "concat (x # xs) = concat (take (length (x # xs) - length rest) (x # xs)) @ concat rest"
      using match_here_split[OF Some] unfolding st fst_conv concat_append[symmetric] by simp
    with 2(3) Some st inner IH show ?thesis by (auto simp: find_arguments.simps)
  qed
qed (simp add: find_arguments.simps)

definition ar_label :: "argument \<Rightarrow> string" where
  "ar_label a = unescape_argument (ar_name a)"

lemma var_key_from_fresh: "var_key_from base used i \<notin> set used"
proof (induction base used i rule: var_key_from.induct)
  case (1 base used i)
  then show ?case by (cases "var_candidate base i \<in> set used") (simp_all add: var_key_from.simps[of base used i])
qed

lemma unique_var_key_fresh: "unique_var_key base used \<notin> set used"
  by (simp add: unique_var_key_def var_key_from_fresh)

lemma convert_arguments_keys:
  assumes "distinct (map fst keys)" and "distinct (map snd keys)" and "map pv_name vars = map snd keys"
    and "convert_arguments as keys body vars = (body', vars')"
  shows "\<exists>more. distinct (map fst (keys @ more)) \<and> distinct (map snd (keys @ more)) \<and>
    map pv_name vars' = map snd (keys @ more) \<and> fst ` set (keys @ more) = fst ` set keys \<union> ar_label ` set as \<and>
    body' = body @ concat (map (\<lambda>a. ar_before a @ ''{'' @ the (map_of (keys @ more) (ar_label a)) @ ''}'') as)"
  using assms
proof (induction as keys body vars rule: convert_arguments.induct)
  case (1 keys body vars)
  then show ?case by (intro exI[of _ "[]"]) simp
next
  case (2 a as keys body vars)
  let ?label = "unescape_argument (ar_name a)"
  let ?ex = "case ar_default a of None \<Rightarrow> [] | Some d \<Rightarrow> unescape_argument d"
  show ?case
  proof (cases "map_of keys ?label")
    case (Some key)
    with "2.prems"(4) have run: "convert_arguments as keys (body @ ar_before a @ ''{'' @ key @ ''}'') vars = (body', vars')"
      by (simp add: Let_def)
    from "2.IH"(2)[OF refl refl Some "2.prems"(1-3) run] obtain more where
      more: "distinct (map fst (keys @ more))" "distinct (map snd (keys @ more))" "map pv_name vars' = map snd (keys @ more)"
        "fst ` set (keys @ more) = fst ` set keys \<union> ar_label ` set as"
        "body' = (body @ ar_before a @ ''{'' @ key @ ''}'') @
           concat (map (\<lambda>a. ar_before a @ ''{'' @ the (map_of (keys @ more) (ar_label a)) @ ''}'') as)"
      by blast
    have "map_of (keys @ more) (ar_label a) = Some key" using Some by (simp add: ar_label_def map_add_dom_app_simps(3) more)
    moreover from Some have "ar_label a \<in> fst ` set keys" by (metis ar_label_def map_of_eq_None_iff option.distinct(1))
    ultimately show ?thesis using more by (intro exI[of _ more]) auto
  next
    case None
    define key where "key = unique_var_key (sanitize_var_name ?label) (map snd keys)"
    let ?keys = "keys @ [(?label, key)]"
    let ?vars = "vars @ [\<lparr>pv_name = key, pv_example = ?ex\<rparr>]"
    from None "2.prems"(4) have run: "convert_arguments as ?keys (body @ ar_before a @ ''{'' @ key @ ''}'') ?vars = (body', vars')"
      by (simp add: Let_def key_def)
    have "key \<notin> set (map snd keys)" unfolding key_def by (rule unique_var_key_fresh)
    then have d: "distinct (map fst ?keys)" "distinct (map snd ?keys)" "map pv_name ?vars = map snd ?keys"
      using "2.prems"(1-3) None by (auto simp: map_of_eq_None_iff)
    from "2.IH"(1)[OF refl refl None key_def d run] obtain more where
      more: "distinct (map fst (?keys @ more))" "distinct (map snd (?keys @ more))" "map pv_name vars' = map snd (?keys @ more)"
        "fst ` set (?keys @ more) = fst ` set ?keys \<union> ar_label ` set as"
        "body' = (body @ ar_before a @ ''{'' @ key @ ''}'') @
           concat (map (\<lambda>a. ar_before a @ ''{'' @ the (map_of (?keys @ more) (ar_label a)) @ ''}'') as)"
      by blast
    have "map_of (keys @ (?label, key) # more) (ar_label a) = Some key"
      using more(1) by (intro map_of_is_SomeI) (auto simp: ar_label_def)
    with more show ?thesis by (intro exI[of _ "(?label, key) # more"]) (auto simp: ar_label_def)
  qed
qed

text \<open>C24: The conversion of a prompt keeps its text and its arguments apart. The text is the pieces between the
  arguments and the arguments themselves; the body has the pieces unchanged, up to white space at its ends, with a placeholder
  for every argument. Two arguments share a placeholder just when they have the same name, and the
  variables are the placeholders, each once.\<close>

theorem prompt_conversion_correct:
  assumes "find_arguments (runes content) [] = (args, rest)" and "convert_prompt content = (body, vars)"
  shows "content = concat (map (\<lambda>a. ar_before a @ ar_match a) args) @ rest \<and> distinct (map pv_name vars) \<and>
    (\<exists>key. inj_on key (ar_label ` set args) \<and> set (map pv_name vars) = key ` ar_label ` set args \<and>
       body = trim_space (concat (map (\<lambda>a. ar_before a @ ''{'' @ key (ar_label a) @ ''}'') args) @ rest))"
proof -
  have content: "content = concat (map (\<lambda>a. ar_before a @ ar_match a) args) @ rest"
    using find_arguments_cover[OF assms(1)] by simp
  show ?thesis
  proof (cases "args = []")
    case True
    with assms content show ?thesis by (auto simp: convert_prompt_def)
  next
    case False
    obtain raw vars' where run: "convert_arguments args [] [] [] = (raw, vars')" by (cases "convert_arguments args [] [] []")
    with assms False have out: "body = trim_space (raw @ rest)" "vars = vars'" by (auto simp: convert_prompt_def)
    from convert_arguments_keys[OF _ _ _ run] obtain keys where
      keys: "distinct (map fst keys)" "distinct (map snd keys)" "map pv_name vars' = map snd keys" "fst ` set keys = ar_label ` set args"
        "raw = concat (map (\<lambda>a. ar_before a @ ''{'' @ the (map_of keys (ar_label a)) @ ''}'') args)"
      by auto
    let ?key = "\<lambda>l. the (map_of keys l)"
    have key: "?key (fst p) = snd p" if "p \<in> set keys" for p using keys(1) that by (cases p) simp
    have "inj_on ?key (fst ` set keys)"
    proof (rule inj_onI)
      fix x y assume "x \<in> fst ` set keys" "y \<in> fst ` set keys" "?key x = ?key y"
      then obtain p q where p: "p \<in> set keys" "q \<in> set keys" "x = fst p" "y = fst q" and "snd p = snd q"
        using key by fastforce
      then have "p = q" using keys(2) by (metis distinct_map inj_on_eq_iff)
      with p show "x = y" by simp
    qed
    moreover have "set (map snd keys) = ?key ` fst ` set keys" using key by (force simp: image_image)
    ultimately show ?thesis using content out keys by (intro conjI exI[of _ ?key]) simp_all
  qed
qed

definition demo_prompt :: string where
  "demo_prompt = ''A {argument name='' @ dquote @ ''Hue'' @ dquote @ '' default='' @ dquote @ ''red'' @ dquote @ ''} cup, {argument name='' @
     dquote @ ''hue'' @ dquote @ ''}''"

lemma prompt_conversion_correct_witness:
  "distinct (map pv_name (snd (convert_prompt demo_prompt)))"
proof -
  obtain args rest where "find_arguments (runes demo_prompt) [] = (args, rest)" by (cases "find_arguments (runes demo_prompt) []")
  moreover obtain body vars where run: "convert_prompt demo_prompt = (body, vars)" by (cases "convert_prompt demo_prompt")
  ultimately have "distinct (map pv_name vars)" using prompt_conversion_correct by blast
  with run show ?thesis by simp
qed

end
