(* ===== verification/Prompt_Sync.thy ===== *)
theory Prompt_Sync
  imports Prompt_Convert Settings Repo_Call
begin

text \<open>
  The library of prompts and its synchronisation: the tables and statements of
  \<open>repository/prompt\_repo.go\<close> and \<open>repository/sync\_setting\_repo.go\<close> that a synchronisation uses,
  the download of \<open>service/inspiration\_source.go\<close>, and \<open>service/inspiration\_sync.go\<close>. Other processes may
  act before every repository call, and a call may fail. The HTTP client, the JSON package and the proxies of
  the platform are parameters; a client is known by the address of its proxy, empty for a direct
  connection. Timers and log lines are left out.
\<close>

section \<open>The tables\<close>

datatype prompt_source = PromptSourceYouMind | PromptSourceUser
datatype sync_kind = SyncKindManual | SyncKindAuto
datatype sync_status = SyncStatusRunning | SyncStatusSucceeded | SyncStatusFailed | SyncStatusSkipped

record prompt_category =
  pc_id :: int
  pc_slug :: string
  pc_name_zh :: string
  pc_name_en :: string
  pc_sort_order :: int
  pc_created_at :: time
  pc_updated_at :: time

record prompt =
  pm_id :: int
  pm_uid :: string
  pm_category_id :: "int option"
  pm_title :: string
  pm_body :: string
  pm_variables :: "prompt_variable list"
  pm_preview_url :: "string option"
  pm_source :: prompt_source
  pm_source_ref :: "string option"
  pm_owner_user_id :: "int option"
  pm_is_enabled :: bool
  pm_created_at :: time
  pm_updated_at :: time
  pm_deleted_at :: "time option"

record sync_run =
  rn_id :: int
  rn_kind :: sync_kind
  rn_status :: sync_status
  rn_started_at :: time
  rn_finished_at :: "time option"
  rn_fetched :: int
  rn_inserted :: int
  rn_updated :: int
  rn_skipped :: int
  rn_error :: "string option"

record library =
  lb_categories :: "prompt_category list"
  lb_prompts :: "prompt list"
  lb_runs :: "sync_run list"
  lb_locked :: bool
  lb_next_category :: int
  lb_next_prompt :: int
  lb_next_run :: int

type_synonym 'a library_tx = "library \<Rightarrow> go_error + 'a \<times> library"

definition noun_category :: string where "noun_category = (bytes [229, 136, 134, 231, 177, 187])"
definition noun_prompt :: string where "noun_prompt = (bytes [230, 143, 144, 231, 164, 186, 232, 175, 141])"
definition noun_sync_run :: string where "noun_sync_run = (bytes [229, 144, 140, 230, 173, 165, 232, 174, 176, 229, 189, 149])"

section \<open>The repository\<close>

definition upsert_category :: "time \<Rightarrow> prompt_category \<Rightarrow> prompt_category library_tx" where
  "upsert_category now c lb =
     (if trim_space (pc_slug c) = [] then
        Inl (Dk (with_message (new_error ErrCodeInvalidRequest) (bytes [229, 136, 134, 231, 177, 187, 231, 188, 186, 229, 176, 145, 230, 160, 135, 232, 175, 134,
      239, 188, 136, 115, 108, 117, 103, 239, 188, 137, 239, 188, 140, 230, 151, 160, 230, 179,
      149, 228, 191, 157, 229, 173, 152, 227, 128, 130])))
      else case find (\<lambda>x. pc_slug x = pc_slug c) (lb_categories lb) of
        Some x \<Rightarrow>
          (let row = x\<lparr>pc_name_zh := pc_name_zh c, pc_name_en := pc_name_en c, pc_sort_order := pc_sort_order c, pc_updated_at := now\<rparr>
           in Inr (row, lb\<lparr>lb_categories := upd (\<lambda>y. pc_slug y = pc_slug c) (\<lambda>_. row) (lb_categories lb)\<rparr>))
      | None \<Rightarrow>
          (let row = c\<lparr>pc_id := lb_next_category lb, pc_created_at := now, pc_updated_at := now\<rparr>
           in Inr (row, lb\<lparr>lb_categories := lb_categories lb @ [row], lb_next_category := lb_next_category lb + 1\<rparr>)))"

definition load_category_ids :: "sync_prompt_row list \<Rightarrow> library \<Rightarrow> string \<Rightarrow> int option" where
  "load_category_ids rows lb slug =
     (if slug \<in> set (filter (\<lambda>s. s \<noteq> []) (map (\<lambda>r. trim_space (sy_category_slug r)) rows))
      then map_option pc_id (find (\<lambda>c. pc_slug c = slug) (lb_categories lb)) else None)"

datatype upsert_outcome = RowInserted | RowUpdated | RowSkipped

definition prompt_content_of :: "int option \<Rightarrow> sync_prompt_row \<Rightarrow> prompt \<Rightarrow> prompt" where
  "prompt_content_of category_id r p =
     p\<lparr>pm_category_id := category_id, pm_title := sy_title r, pm_body := sy_body r, pm_variables := sy_variables r,
       pm_preview_url := nullable_string_ptr (sy_preview_url r), pm_deleted_at := None\<rparr>"

text \<open>\<open>upsertSyncedPromptSQL\<close>: a row of the same reference is written only when something differs.\<close>

definition upsert_synced_prompt :: "time \<Rightarrow> int option \<Rightarrow> sync_prompt_row \<Rightarrow> upsert_outcome library_tx" where
  "upsert_synced_prompt now category_id r lb =
     (case find (\<lambda>p. pm_source_ref p = Some (sy_source_ref r)) (lb_prompts lb) of
        None \<Rightarrow>
          if \<exists>p \<in> set (lb_prompts lb). pm_uid p = sy_uid r then Inl (unique_violation noun_prompt)
          else Inr (RowInserted, lb\<lparr>
            lb_prompts := lb_prompts lb @ [\<lparr>pm_id = lb_next_prompt lb, pm_uid = sy_uid r, pm_category_id = category_id,
              pm_title = sy_title r, pm_body = sy_body r, pm_variables = sy_variables r,
              pm_preview_url = nullable_string_ptr (sy_preview_url r), pm_source = PromptSourceYouMind,
              pm_source_ref = Some (sy_source_ref r), pm_owner_user_id = None, pm_is_enabled = True,
              pm_created_at = now, pm_updated_at = now, pm_deleted_at = None\<rparr>],
            lb_next_prompt := lb_next_prompt lb + 1\<rparr>)
      | Some p \<Rightarrow>
          if prompt_content_of category_id r p = p then Inr (RowSkipped, lb)
          else Inr (RowUpdated, lb\<lparr>lb_prompts :=
            upd (\<lambda>q. pm_source_ref q = Some (sy_source_ref r))
                (\<lambda>q. (prompt_content_of category_id r q)\<lparr>pm_updated_at := now\<rparr>) (lb_prompts lb)\<rparr>))"

record sync_counts =
  sn_inserted :: int
  sn_updated :: int
  sn_skipped :: int

definition count_outcome :: "upsert_outcome \<Rightarrow> sync_counts \<Rightarrow> sync_counts" where
  "count_outcome u c =
     (case u of RowInserted \<Rightarrow> c\<lparr>sn_inserted := sn_inserted c + 1\<rparr>
      | RowUpdated \<Rightarrow> c\<lparr>sn_updated := sn_updated c + 1\<rparr>
      | RowSkipped \<Rightarrow> c\<lparr>sn_skipped := sn_skipped c + 1\<rparr>)"

fun upsert_rows :: "time \<Rightarrow> (string \<Rightarrow> int option) \<Rightarrow> sync_prompt_row list \<Rightarrow> sync_counts \<Rightarrow> sync_counts library_tx" where
  "upsert_rows now categories [] c lb = Inr (c, lb)"
| "upsert_rows now categories (r # rs) c lb =
     (if trim_space (sy_source_ref r) = [] then upsert_rows now categories rs (count_outcome RowSkipped c) lb
      else case upsert_synced_prompt now (categories (sy_category_slug r)) r lb of
             Inl err \<Rightarrow> Inl err
           | Inr (u, lb') \<Rightarrow> upsert_rows now categories rs (count_outcome u c) lb')"

text \<open>\<open>UpsertSyncedPrompts\<close>: one transaction, so an error leaves nothing behind.\<close>

definition upsert_synced_prompts :: "time \<Rightarrow> sync_prompt_row list \<Rightarrow> sync_counts library_tx" where
  "upsert_synced_prompts now rows lb =
     upsert_rows now (load_category_ids rows lb) rows \<lparr>sn_inserted = 0, sn_updated = 0, sn_skipped = 0\<rparr> lb"

definition try_lock_sync :: "bool library_tx" where
  "try_lock_sync lb = (if lb_locked lb then Inr (False, lb) else Inr (True, lb\<lparr>lb_locked := True\<rparr>))"

definition unlock_sync :: "library \<Rightarrow> library" where
  "unlock_sync lb = lb\<lparr>lb_locked := False\<rparr>"

definition start_sync_run :: "time \<Rightarrow> sync_kind \<Rightarrow> sync_run library_tx" where
  "start_sync_run now kind lb =
     (let run = \<lparr>rn_id = lb_next_run lb, rn_kind = kind, rn_status = SyncStatusRunning, rn_started_at = now, rn_finished_at = None,
                 rn_fetched = 0, rn_inserted = 0, rn_updated = 0, rn_skipped = 0, rn_error = None\<rparr>
      in Inr (run, lb\<lparr>lb_runs := lb_runs lb @ [run], lb_next_run := lb_next_run lb + 1\<rparr>))"

text \<open>The callers set the time of the end.\<close>

definition finish_sync_run :: "sync_run \<Rightarrow> unit library_tx" where
  "finish_sync_run run lb =
     (if rn_id run \<le> 0 \<or> affected (\<lambda>x. rn_id x = rn_id run) (lb_runs lb) = 0 then Inl (not_found_err noun_sync_run)
      else Inr ((), lb\<lparr>lb_runs := upd (\<lambda>x. rn_id x = rn_id run)
        (\<lambda>x. x\<lparr>rn_status := rn_status run, rn_finished_at := rn_finished_at run, rn_fetched := rn_fetched run,
               rn_inserted := rn_inserted run, rn_updated := rn_updated run, rn_skipped := rn_skipped run,
               rn_error := nullable_string_ptr (rn_error run)\<rparr>) (lb_runs lb)\<rparr>))"

definition latest_sync_run :: "sync_run library_tx" where
  "latest_sync_run lb =
     (case rev (sort_key (\<lambda>x. (rn_started_at x, rn_id x)) (filter (\<lambda>x. rn_status x \<noteq> SyncStatusSkipped) (lb_runs lb))) of
        [] \<Rightarrow> Inl (not_found_err noun_sync_run) | x # _ \<Rightarrow> Inr (x, lb))"

section \<open>The download\<close>

text \<open>
  An item as the JSON package decodes it, the id as the text that is handed to \<open>UnmarshalJSON\<close>, empty when the
  field is missing. A response has the bytes that arrive and how they end.
\<close>

record upstream_item =
  ui_raw_id :: string
  ui_title :: string
  ui_content :: string
  ui_source_media :: "string list"

record inspiration_snapshot =
  is_updated_at :: string
  is_prompts :: "upstream_prompt list"

record http_response =
  hr_status :: int
  hr_body :: string
  hr_cut :: "go_error option"

text \<open>The moments at which the settings are read, and the repository calls of one round.\<close>

datatype sync_moment = ChooseClient | ExplainFailure
datatype sync_call = TakeLock | StartRun | StartSkipped | FinishSkipped | PutCategory nat | PutPrompts nat | FinishRun

record sync_env =
  se_decimals :: decimal_lib
  se_settings :: "sync_moment \<Rightarrow> settings"
  se_proxies :: "((int \<Rightarrow> go_error + bool) \<times> (int \<Rightarrow> go_error + string)) option"
  se_parse_proxy :: "string \<Rightarrow> go_error + string"
  se_get_client :: "string \<Rightarrow> go_error option"
  se_base_url :: string
  se_bad_url :: "string \<Rightarrow> go_error option"
  se_do :: "string \<Rightarrow> string \<Rightarrow> go_error + http_response"
  se_unmarshal_manifest :: "string \<Rightarrow> go_error + string"
  se_unmarshal_items :: "string \<Rightarrow> go_error + upstream_item list"
  se_file_done :: "nat \<Rightarrow> go_error option"
  se_chunk_done :: "nat \<Rightarrow> go_error option"
  se_uids :: "nat \<Rightarrow> string"
  se_closed :: bool
  se_interval :: duration
  se_now :: time
  se_db_now :: "sync_call \<Rightarrow> time"
  se_meanwhile :: "sync_call \<Rightarrow> library \<Rightarrow> library"
  se_fails :: "sync_call \<Rightarrow> go_error option"

definition you_mind_raw_base :: string where
  "you_mind_raw_base =
     ''https://raw.githubusercontent.com/'' @ ''YouMind-OpenLab/gpt-image-2-prompts-search/main/references''"

definition fetcher_base :: "sync_env \<Rightarrow> string" where
  "fetcher_base e =
     (let base = rev (dropWhile (\<lambda>c. c = CHR ''/'') (rev (trim_space (se_base_url e))))
      in if base = [] then you_mind_raw_base else base)"

definition file_url :: "sync_env \<Rightarrow> string \<Rightarrow> string" where
  "file_url e name = fetcher_base e @ ''/'' @ name @ ''.json''"

definition max_inspiration_file_bytes :: int where "max_inspiration_file_bytes = 64 * 2 ^ 20"

definition manifest_name :: string where "manifest_name = ''manifest''"

definition get_json :: "sync_env \<Rightarrow> string \<Rightarrow> string \<Rightarrow> (string \<Rightarrow> go_error + 'a) \<Rightarrow> go_error + 'a" where
  "get_json e client name unmarshal =
     (let url = file_url e name; wrap = (\<lambda>msg err. Inl (Wrapped (msg @ error_text (se_decimals e) err) err))
      in case se_bad_url e url of
           Some err \<Rightarrow> wrap ((bytes [230, 139, 188, 230, 142, 165, 32]) @ name @ (bytes [46, 106, 115, 111, 110, 32, 231, 154, 132, 229, 156, 176, 229, 157, 128, 229, 164, 177,
      232, 180, 165, 239, 188, 154])) err
         | None \<Rightarrow>
             (case se_do e client url of
                Inl err \<Rightarrow> wrap ((bytes [228, 184, 139, 232, 189, 189, 32]) @ name @ (bytes [46, 106, 115, 111, 110, 32, 229, 164, 177, 232, 180, 165, 239, 188, 154])) err
              | Inr resp \<Rightarrow>
                  if hr_status resp \<noteq> 200 then
                    Inl (Opaque ((bytes [228, 184, 139, 232, 189, 189, 32]) @ name @ (bytes [46, 106, 115, 111, 110, 32, 229, 164, 177, 232, 180, 165, 239, 188, 154, 228, 184, 138,
      230, 184, 184, 232, 191, 148, 229, 155, 158, 32]) @ itoa (hr_status resp) @ '' '' @
                      collapse_spaces (take 256 (hr_body resp))))
                  else if max_inspiration_file_bytes < int (length (hr_body resp)) then
                    Inl (Opaque (name @ (bytes [46, 106, 115, 111, 110, 32, 232, 182, 133, 232, 191, 135, 32]) @ itoa (max_inspiration_file_bytes div 2 ^ 20) @
                      (bytes [32, 77, 66, 239, 188, 140, 229, 183, 178, 230, 148, 190, 229, 188, 131, 239, 188, 136, 228,
      184, 138, 230, 184, 184, 230, 160, 188, 229, 188, 143, 229, 143, 175, 232, 131, 189, 229,
      143, 152, 228, 186, 134, 239, 188, 137])))
                  else case hr_cut resp of
                         Some err \<Rightarrow> wrap ((bytes [232, 175, 187, 229, 143, 150, 32]) @ name @ (bytes [46, 106, 115, 111, 110, 32, 229, 164, 177, 232, 180, 165, 239, 188, 154])) err
                       | None \<Rightarrow>
                           (case unmarshal (hr_body resp) of
                              Inl err \<Rightarrow> wrap (name @ (bytes [46, 106, 115, 111, 110, 32, 231, 154, 132, 229, 134, 133, 229, 174, 185, 228, 184, 141,
      229, 174, 140, 230, 149, 180, 230, 136, 150, 232, 128, 133, 228, 184, 141, 230, 152, 175,
      229, 144, 136, 230, 179, 149, 230, 149, 176, 230, 141, 174, 239, 188, 136, 229, 166, 130,
      230, 158, 156, 233, 133, 141, 228, 186, 134, 228, 187, 163, 231, 144, 134, 239, 188, 140,
      229, 164, 154, 229, 141, 138, 230, 152, 175, 228, 187, 163, 231, 144, 134, 232, 191, 148,
      229, 155, 158, 228, 186, 134, 233, 148, 153, 232, 175, 175, 233, 161, 181, 239, 188, 137,
      239, 188, 154])) err
                            | Inr x \<Rightarrow> Inr x)))"

text \<open>\<open>upstreamID.UnmarshalJSON\<close>: what is not a number counts as 0.\<close>

definition upstream_id :: "string \<Rightarrow> int" where
  "upstream_id raw =
     (let trim = (\<lambda>s. dropWhile (\<lambda>c. c = CHR 0x22) s);
          text = rev (trim (rev (trim (trim_space raw))))
      in if text = [] \<or> text = ''null'' then 0 else case atoi text of None \<Rightarrow> 0 | Some n \<Rightarrow> n)"

definition probe :: "sync_env \<Rightarrow> string \<Rightarrow> go_error + string" where
  "probe e client =
     (case get_json e client manifest_name (se_unmarshal_manifest e) of
        Inl err \<Rightarrow> Inl err | Inr t \<Rightarrow> Inr (if trim_space t = [] then (bytes [230, 156, 170, 231, 159, 165]) else t))"

text \<open>The map \<open>merged\<close>, as the list of its values in the order in which they were first seen.\<close>

definition merge_item :: "string \<Rightarrow> upstream_prompt list \<Rightarrow> upstream_item \<Rightarrow> upstream_prompt list" where
  "merge_item slug merged i =
     (if upstream_id (ui_raw_id i) \<le> 0 then merged
      else if \<exists>p \<in> set merged. up_id p = upstream_id (ui_raw_id i)
      then upd (\<lambda>p. up_id p = upstream_id (ui_raw_id i)) (\<lambda>p. p\<lparr>up_slugs := up_slugs p @ [slug]\<rparr>) merged
      else merged @ [\<lparr>up_id = upstream_id (ui_raw_id i), up_title = ui_title i, up_content = ui_content i,
                      up_source_media = ui_source_media i, up_slugs = [slug]\<rparr>])"

fun fetch_files :: "sync_env \<Rightarrow> string \<Rightarrow> nat \<Rightarrow> inspiration_category list \<Rightarrow> upstream_prompt list \<Rightarrow> go_error + upstream_prompt list" where
  "fetch_files e client n [] merged = Inr merged"
| "fetch_files e client n (c # cs) merged =
     (case se_file_done e n of
        Some err \<Rightarrow> Inl err
      | None \<Rightarrow>
          (case get_json e client (ic_slug c) (se_unmarshal_items e) of
             Inl err \<Rightarrow> Inl err
           | Inr items \<Rightarrow> fetch_files e client (n + 1) cs (foldl (merge_item (ic_slug c)) merged items)))"

definition fetch :: "sync_env \<Rightarrow> string \<Rightarrow> go_error + inspiration_snapshot" where
  "fetch e client =
     (case probe e client of
        Inl err \<Rightarrow> Inl err
      | Inr updated_at \<Rightarrow>
          (case fetch_files e client 0 inspiration_categories [] of
             Inl err \<Rightarrow> Inl err
           | Inr merged \<Rightarrow>
               if merged = [] then Inl (Opaque (bytes [228, 184, 138, 230, 184, 184, 228, 184, 128, 230, 157, 161, 230, 143, 144, 231, 164, 186,
      232, 175, 141, 233, 131, 189, 230, 178, 161, 232, 191, 148, 229, 155, 158, 239, 188, 140,
      232, 191, 153, 228, 184, 128, 232, 189, 174, 228, 184, 141, 229, 134, 153, 229, 186, 147,
      239, 188, 136, 228, 184, 138, 230, 184, 184, 230, 160, 188, 229, 188, 143, 229, 143, 175,
      232, 131, 189, 229, 143, 152, 228, 186, 134, 239, 188, 137]))
               else Inr \<lparr>is_updated_at = updated_at, is_prompts = sort_key up_id merged\<rparr>))"

section \<open>The way to the library\<close>

definition setting_key_prompt_sync_proxy_id :: string where
  "setting_key_prompt_sync_proxy_id = ''prompt_sync_proxy_id''"

text \<open>\<open>ProxyID\<close>; the cause of the error, a text of the JSON package, is left out.\<close>

definition proxy_id :: "settings \<Rightarrow> go_error + int option" where
  "proxy_id get =
     (case get setting_key_prompt_sync_proxy_id of
        Inl err \<Rightarrow> if errors_is err ErrNotFound then Inr None else Inl err
      | Inr None \<Rightarrow> Inr None
      | Inr (Some v) \<Rightarrow>
          (if v = JNull then Inr None
           else case unmarshal_int v of
             None \<Rightarrow> Inl (Dk (with_message (new_error ErrCodeInvalidRequest)
               (bytes [229, 144, 140, 230, 173, 165, 228, 187, 163, 231, 144, 134, 232, 191, 153, 228, 184, 128,
      233, 161, 185, 231, 154, 132, 229, 128, 188, 228, 184, 141, 229, 175, 185, 239, 188, 140,
      232, 175, 183, 229, 136, 176, 232, 174, 190, 231, 189, 174, 233, 135, 140, 233, 135, 141,
      230, 150, 176, 233, 128, 137, 228, 184, 128, 230, 172, 161, 228, 187, 163, 231, 144, 134,
      239, 188, 136, 230, 136, 150, 232, 128, 133, 233, 128, 137, 227, 128, 140, 228, 184, 141,
      228, 189, 191, 231, 148, 168, 228, 187, 163, 231, 144, 134, 227, 128, 141, 239, 188, 137,
      227, 128, 130])))
           | Some i \<Rightarrow> if i \<le> 0 then Inr None else Inr (Some i)))"

definition dk_caused :: "string \<Rightarrow> string \<Rightarrow> go_error \<Rightarrow> go_error" where
  "dk_caused code msg cause = Dk (with_cause (with_message (new_error code) msg) cause)"

definition proxy_url :: "sync_env \<Rightarrow> int \<Rightarrow> go_error + string" where
  "proxy_url e i =
     (case se_proxies e of
        None \<Rightarrow> Inl (Dk (with_message (new_error ErrCodeInternal) (bytes [231, 179, 187, 231, 187, 159, 230, 178, 161, 232, 131, 189, 232, 175, 187, 229, 136, 176,
      228, 187, 163, 231, 144, 134, 229, 136, 151, 232, 161, 168, 239, 188, 140, 230, 154, 130,
      230, 151, 182, 229, 143, 170, 232, 131, 189, 231, 155, 180, 232, 191, 158, 229, 144, 140,
      230, 173, 165, 227, 128, 130, 232, 175, 183, 232, 129, 148, 231, 179, 187, 231, 174, 161,
      231, 144, 134, 229, 145, 152, 227, 128, 130])))
      | Some (is_active, get_url) \<Rightarrow>
          (case is_active i of
             Inl err \<Rightarrow> Inl (dk_caused ErrCodeInternal (bytes [230, 178, 161, 232, 131, 189, 231, 161, 174, 232, 174, 164, 228, 187, 163, 231, 144, 134,
      230, 152, 175, 229, 144, 166, 229, 143, 175, 231, 148, 168, 239, 188, 140, 229, 144, 140,
      230, 173, 165, 229, 183, 178, 231, 187, 143, 229, 129, 156, 228, 184, 139, 239, 188, 140,
      230, 178, 161, 230, 156, 137, 230, 148, 185, 230, 136, 144, 231, 155, 180, 232, 191, 158,
      227, 128, 130, 232, 175, 183, 231, 168, 141, 229, 144, 142, 229, 134, 141, 232, 175, 149,
      227, 128, 130]) err)
           | Inr False \<Rightarrow> Inl (Dk (with_message (new_error ErrCodeInvalidRequest)
               ((bytes [233, 128, 137, 228, 184, 173, 231, 154, 132, 228, 187, 163, 231, 144, 134, 239, 188, 136,
      231, 188, 150, 229, 143, 183, 32]) @ itoa i @ (bytes [239, 188, 137, 229, 183, 178, 231, 187, 143, 229, 129, 156, 231, 148, 168, 230, 136, 150,
      232, 162, 171, 229, 136, 160, 233, 153, 164, 239, 188, 140, 232, 175, 183, 229, 136, 176,
      232, 174, 190, 231, 189, 174, 233, 135, 140, 233, 135, 141, 230, 150, 176, 233, 128, 137,
      228, 184, 128, 228, 184, 170, 227, 128, 130, 229, 144, 140, 230, 173, 165, 229, 183, 178,
      231, 187, 143, 229, 129, 156, 228, 184, 139, 239, 188, 140, 230, 178, 161, 230, 156, 137,
      230, 148, 185, 230, 136, 144, 231, 155, 180, 232, 191, 158, 227, 128, 130]))))
           | Inr True \<Rightarrow>
               (case get_url i of
                  Inl err \<Rightarrow> Inl (dk_caused ErrCodeInvalidRequest
                    ((bytes [233, 128, 137, 228, 184, 173, 231, 154, 132, 228, 187, 163, 231, 144, 134, 239, 188, 136,
      231, 188, 150, 229, 143, 183, 32]) @ itoa i @ (bytes [239, 188, 137, 229, 183, 178, 231, 187, 143, 228, 184, 141, 229, 156, 168, 228, 186, 134,
      239, 188, 140, 232, 175, 183, 229, 136, 176, 227, 128, 140, 73, 80, 231, 174, 161, 231,
      144, 134, 227, 128, 141, 233, 135, 140, 233, 135, 141, 230, 150, 176, 233, 128, 137, 228,
      184, 128, 228, 184, 170, 227, 128, 130])) err)
                | Inr raw \<Rightarrow>
                    (let bad = (bytes [233, 128, 137, 228, 184, 173, 231, 154, 132, 228, 187, 163, 231, 144, 134, 239, 188, 136,
      231, 188, 150, 229, 143, 183, 32]) @ itoa i @ (bytes [239, 188, 137, 229, 156, 176, 229, 157, 128, 229, 161, 171, 229, 190, 151, 228, 184, 141,
      229, 175, 185, 239, 188, 140, 232, 175, 183, 229, 136, 176, 227, 128, 140, 73, 80, 231,
      174, 161, 231, 144, 134, 227, 128, 141, 233, 135, 140, 230, 163, 128, 230, 159, 165, 227,
      128, 130])
                     in case se_parse_proxy e raw of
                          Inl err \<Rightarrow> Inl (dk_caused ErrCodeInvalidRequest bad err)
                        | Inr url \<Rightarrow>
                            if url = [] then Inl (Dk (with_message (new_error ErrCodeInvalidRequest) bad)) else Inr url))))"

definition proxy_broken :: string where
  "proxy_broken = (bytes [228, 187, 163, 231, 144, 134, 232, 191, 158, 228, 184, 141, 228, 184, 138, 239, 188, 140,
      232, 175, 183, 229, 136, 176, 227, 128, 140, 73, 80, 231, 174, 161, 231, 144, 134, 227,
      128, 141, 233, 135, 140, 230, 163, 128, 230, 159, 165, 232, 191, 153, 228, 184, 170, 228,
      187, 163, 231, 144, 134, 227, 128, 130, 229, 144, 140, 230, 173, 165, 229, 183, 178, 231,
      187, 143, 229, 129, 156, 228, 184, 139, 239, 188, 140, 230, 178, 161, 230, 156, 137, 230,
      148, 185, 230, 136, 144, 231, 155, 180, 232, 191, 158, 227, 128, 130])"

definition sync_http_client :: "sync_env \<Rightarrow> go_error + string \<times> string" where
  "sync_http_client e =
     (case proxy_id (se_settings e ChooseClient) of
        Inl err \<Rightarrow> Inl err
      | Inr None \<Rightarrow>
          (case se_get_client e [] of
             Some err \<Rightarrow> Inl (dk_caused ErrCodeInternal (bytes [229, 187, 186, 231, 171, 139, 231, 189, 145, 231, 187, 156, 232, 191, 158, 230, 142, 165,
      229, 164, 177, 232, 180, 165, 239, 188, 140, 232, 175, 183, 231, 168, 141, 229, 144, 142,
      233, 135, 141, 232, 175, 149, 227, 128, 130]) err)
           | None \<Rightarrow> Inr ([], (bytes [231, 155, 180, 232, 191, 158])))
      | Inr (Some i) \<Rightarrow>
          (case proxy_url e i of
             Inl err \<Rightarrow> Inl err
           | Inr url \<Rightarrow>
               (case se_get_client e url of
                  Some err \<Rightarrow> Inl (dk_caused ErrCodeInternal proxy_broken err)
                | None \<Rightarrow> Inr (url, (bytes [231, 187, 143, 228, 187, 163, 231, 144, 134, 239, 188, 136, 231, 188, 150, 229, 143, 183,
      32]) @ itoa i @ (bytes [239, 188, 137])))))"

definition network_error :: "sync_env \<Rightarrow> go_error \<Rightarrow> go_error" where
  "network_error e cause =
     (let msg = (case proxy_id (se_settings e ExplainFailure) of
                   Inr (Some i) \<Rightarrow> proxy_broken
                 | _ \<Rightarrow> (bytes [232, 191, 158, 228, 184, 141, 228, 184, 138, 230, 143, 144, 231, 164, 186, 232, 175, 141,
      229, 186, 147, 239, 188, 136, 232, 191, 153, 228, 184, 170, 229, 186, 147, 229, 156, 168,
      229, 162, 131, 229, 164, 150, 239, 188, 137, 227, 128, 130, 229, 166, 130, 230, 158, 156,
      230, 156, 141, 229, 138, 161, 229, 153, 168, 232, 174, 191, 233, 151, 174, 228, 184, 141,
      228, 186, 134, 229, 164, 150, 231, 189, 145, 239, 188, 140, 229, 143, 175, 228, 187, 165,
      229, 156, 168, 231, 129, 181, 230, 132, 159, 229, 186, 147, 232, 174, 190, 231, 189, 174,
      233, 135, 140, 233, 128, 137, 228, 184, 128, 228, 184, 170, 228, 187, 163, 231, 144, 134,
      229, 134, 141, 229, 144, 140, 230, 173, 165, 227, 128, 130]))
      in Dk (with_cause (with_upstream (with_message (new_error ErrCodeInternal) msg) (error_text (se_decimals e) cause)) cause))"

definition probe_upstream :: "sync_env \<Rightarrow> go_error + string" where
  "probe_upstream e =
     (case sync_http_client e of
        Inl err \<Rightarrow> Inl err
      | Inr (client, via) \<Rightarrow>
          (case probe e client of
             Inl err \<Rightarrow> Inl (network_error e err)
           | Inr updated_at \<Rightarrow> Inr ((bytes [232, 191, 158, 230, 142, 165, 230, 173, 163, 229, 184, 184, 239, 188, 136]) @ via @ (bytes [239, 188, 137, 239, 188, 140, 228, 184, 138, 230, 184, 184, 230, 156, 128, 232, 191, 145,
      230, 155, 180, 230, 150, 176, 230, 151, 182, 233, 151, 180, 239, 188, 154]) @ updated_at)))"

section \<open>One round\<close>

definition sync_repo :: "sync_env \<Rightarrow> sync_call \<Rightarrow> 'a library_tx \<Rightarrow> library \<Rightarrow> (go_error + 'a) \<times> library" where
  "sync_repo e p f lb = repo_call (se_meanwhile e) (se_fails e) p f lb"

fun ensure_categories :: "sync_env \<Rightarrow> nat \<Rightarrow> inspiration_category list \<Rightarrow> library \<Rightarrow> go_error option \<times> library" where
  "ensure_categories e n [] lb = (None, lb)"
| "ensure_categories e n (c # cs) lb =
     (case sync_repo e (PutCategory n) (upsert_category (se_db_now e (PutCategory n))
             \<lparr>pc_id = 0, pc_slug = ic_slug c, pc_name_zh = ic_name_zh c, pc_name_en = ic_name_en c,
              pc_sort_order = (int n + 1) * 10, pc_created_at = zero_time, pc_updated_at = zero_time\<rparr>) lb of
        (Inl err, lb1) \<Rightarrow>
          (Some (Wrapped ((bytes [229, 187, 186, 231, 129, 181, 230, 132, 159, 229, 186, 147, 229, 136, 134, 231, 177, 187,
      227, 128, 140]) @ ic_name_zh c @ (bytes [227, 128, 141, 229, 164, 177, 232, 180, 165, 239, 188, 154]) @ error_text (se_decimals e) err) err), lb1)
      | (Inr _, lb1) \<Rightarrow> ensure_categories e (n + 1) cs lb1)"

definition inspiration_upsert_chunk :: nat where "inspiration_upsert_chunk = 500"

definition add_counts :: "sync_counts \<Rightarrow> sync_run \<Rightarrow> sync_run" where
  "add_counts c run =
     run\<lparr>rn_inserted := rn_inserted run + sn_inserted c, rn_updated := rn_updated run + sn_updated c,
         rn_skipped := rn_skipped run + sn_skipped c\<rparr>"

text \<open>The loop over the chunks of rows.\<close>

function put_rows :: "sync_env \<Rightarrow> nat \<Rightarrow> sync_prompt_row list \<Rightarrow> sync_run \<Rightarrow> library \<Rightarrow> go_error option \<times> sync_run \<times> library" where
  "put_rows e n rows run lb =
     (if rows = [] then (None, run, lb)
      else case se_chunk_done e n of
             Some err \<Rightarrow> (Some err, run, lb)
           | None \<Rightarrow>
               (case sync_repo e (PutPrompts n)
                       (upsert_synced_prompts (se_db_now e (PutPrompts n)) (take inspiration_upsert_chunk rows)) lb of
                  (Inl err, lb1) \<Rightarrow> (Some err, run, lb1)
                | (Inr c, lb1) \<Rightarrow> put_rows e (n + 1) (drop inspiration_upsert_chunk rows) (add_counts c run) lb1))"
  by pat_completeness auto
termination
  by (relation "measure (\<lambda>(e, n, rows, run, lb). length rows)") (auto simp: inspiration_upsert_chunk_def)

declare put_rows.simps [simp del]

definition do_sync :: "sync_env \<Rightarrow> sync_run \<Rightarrow> library \<Rightarrow> go_error option \<times> sync_run \<times> library" where
  "do_sync e run lb =
     (case sync_http_client e of
        Inl err \<Rightarrow> (Some err, run, lb)
      | Inr (client, via) \<Rightarrow>
          (case fetch e client of
             Inl err \<Rightarrow> (Some (network_error e err), run, lb)
           | Inr snapshot \<Rightarrow>
               (let run = run\<lparr>rn_fetched := int (length (is_prompts snapshot))\<rparr>
                in case ensure_categories e 0 inspiration_categories lb of
                     (Some err, lb1) \<Rightarrow> (Some err, run, lb1)
                   | (None, lb1) \<Rightarrow> put_rows e 0 (build_sync_rows (is_prompts snapshot) (se_uids e) 0) run lb1)))"

definition max_sync_error_runes :: int where "max_sync_error_runes = 800"

definition human_sync_error :: "decimal_lib \<Rightarrow> go_error \<Rightarrow> string" where
  "human_sync_error D err =
     (let told = (case as_designkit_error err of None \<Rightarrow> [] | Some d \<Rightarrow> dk_message d)
      in if told \<noteq> [] then told
         else if errors_is err ContextDeadlineExceeded then (bytes [229, 144, 140, 230, 173, 165, 231, 148, 168, 230, 151, 182, 229, 164, 170, 228, 185, 133,
      239, 188, 140, 229, 183, 178, 231, 187, 143, 228, 184, 173, 230, 150, 173, 227, 128, 130,
      231, 189, 145, 231, 187, 156, 230, 133, 162, 231, 154, 132, 232, 175, 157, 229, 143, 175,
      228, 187, 165, 231, 168, 141, 229, 144, 142, 229, 134, 141, 232, 175, 149, 228, 184, 128,
      230, 172, 161, 227, 128, 130])
         else if errors_is err ContextCanceled then (bytes [229, 144, 140, 230, 173, 165, 232, 162, 171, 228, 184, 173, 230, 150, 173, 228, 186, 134,
      239, 188, 136, 229, 164, 154, 229, 141, 138, 230, 152, 175, 230, 156, 141, 229, 138, 161,
      233, 135, 141, 229, 144, 175, 239, 188, 137, 239, 188, 140, 231, 168, 141, 229, 144, 142,
      228, 188, 154, 232, 135, 170, 229, 138, 168, 229, 134, 141, 232, 183, 145, 228, 184, 128,
      230, 172, 161, 227, 128, 130])
         else (bytes [229, 144, 140, 230, 173, 165, 230, 178, 161, 232, 131, 189, 229, 174, 140, 230, 136, 144,
      239, 188, 154]) @ collapse_spaces (error_text D err))"

definition execute_sync :: "sync_env \<Rightarrow> sync_run \<Rightarrow> library \<Rightarrow> (go_error + unit) \<times> library" where
  "execute_sync e run lb =
     (case do_sync e run lb of
        (err, run1, lb1) \<Rightarrow>
          (let run2 = run1\<lparr>rn_finished_at := Some (se_now e),
                 rn_status := (case err of None \<Rightarrow> SyncStatusSucceeded | Some _ \<Rightarrow> SyncStatusFailed),
                 rn_error := (case err of None \<Rightarrow> None
                              | Some x \<Rightarrow> Some (truncate_runes (human_sync_error (se_decimals e) x) max_sync_error_runes))\<rparr>
           in sync_repo e FinishRun (finish_sync_run run2) lb1))"

definition sync_skipped_message :: string where
  "sync_skipped_message = (bytes [229, 183, 178, 231, 187, 143, 230, 156, 137, 228, 184, 128, 230, 172, 161, 229, 144, 140,
      230, 173, 165, 229, 156, 168, 232, 183, 145, 239, 188, 140, 232, 191, 153, 228, 184, 128,
      230, 172, 161, 232, 183, 179, 232, 191, 135, 228, 186, 134, 239, 188, 136, 228, 184, 141,
      231, 148, 168, 233, 135, 141, 229, 164, 141, 231, 130, 185, 239, 188, 137, 227, 128, 130])"

definition record_skipped :: "sync_env \<Rightarrow> sync_kind \<Rightarrow> library \<Rightarrow> library" where
  "record_skipped e kind lb =
     (case sync_repo e StartSkipped (start_sync_run (se_db_now e StartSkipped) kind) lb of
        (Inl _, lb1) \<Rightarrow> lb1
      | (Inr run, lb1) \<Rightarrow>
          snd (sync_repo e FinishSkipped (finish_sync_run
            (run\<lparr>rn_status := SyncStatusSkipped, rn_finished_at := Some (se_now e), rn_error := Some sync_skipped_message\<rparr>)) lb1))"

text \<open>\<open>StartSync\<close> up to the answer; the goroutine it leaves behind is \<open>sync_in_background\<close>.\<close>

definition start_sync :: "sync_env \<Rightarrow> sync_kind \<Rightarrow> library \<Rightarrow> (go_error + sync_run) \<times> library" where
  "start_sync e kind lb =
     (if se_closed e then
        (Inl (Dk (with_message (new_error ErrCodeInternal) (bytes [230, 156, 141, 229, 138, 161, 230, 173, 163, 229, 156, 168, 233, 135, 141, 229, 144, 175,
      239, 188, 140, 232, 175, 183, 232, 191, 135, 228, 184, 128, 228, 188, 154, 229, 132, 191,
      229, 134, 141, 231, 130, 185, 228, 184, 128, 230, 172, 161, 229, 144, 140, 230, 173, 165,
      227, 128, 130]))), lb)
      else case sync_repo e TakeLock try_lock_sync lb of
        (Inl err, lb1) \<Rightarrow> (Inl err, lb1)
      | (Inr False, lb1) \<Rightarrow> (Inl (Dk (new_error ErrCodeSyncInProgress)), record_skipped e kind lb1)
      | (Inr True, lb1) \<Rightarrow>
          (case sync_repo e StartRun (start_sync_run (se_db_now e StartRun) kind) lb1 of
             (Inl err, lb2) \<Rightarrow> (Inl err, unlock_sync lb2)
           | (Inr run, lb2) \<Rightarrow> (Inr run, lb2)))"

definition sync_in_background :: "sync_env \<Rightarrow> sync_run \<Rightarrow> library \<Rightarrow> library" where
  "sync_in_background e run lb = unlock_sync (snd (execute_sync e run lb))"

definition sync_once :: "sync_env \<Rightarrow> sync_kind \<Rightarrow> library \<Rightarrow> (go_error + sync_run) \<times> library" where
  "sync_once e kind lb =
     (case start_sync e kind lb of
        (Inl err, lb1) \<Rightarrow> (Inl err, lb1) | (Inr run, lb1) \<Rightarrow> (Inr run, sync_in_background e run lb1))"

text \<open>\<open>needsCatchUp\<close>, with the result of \<open>LatestSyncRun\<close>.\<close>

definition needs_catch_up :: "sync_env \<Rightarrow> (go_error + sync_run) \<Rightarrow> bool" where
  "needs_catch_up e latest =
     (case latest of
        Inl _ \<Rightarrow> True
      | Inr run \<Rightarrow>
          if rn_status run \<noteq> SyncStatusSucceeded then True
          else let finished = (case rn_finished_at run of None \<Rightarrow> rn_started_at run | Some t \<Rightarrow> t)
               in se_interval e \<le> se_now e - finished)"

end
