(* ===== verification/Prompt_Sync_Guarantees.thy ===== *)
theory Prompt_Sync_Guarantees
  imports Prompt_Sync
begin

text \<open>
  What the synchronisation of the prompt library promises: a round writes exactly what was fetched and
  nothing twice, a second round changes nothing, a chosen proxy is never bypassed, and a second
  round at the same time does not start.
\<close>

section \<open>The rows of a snapshot\<close>

lemma merge_item_ids:
  assumes "distinct (map up_id merged)" and "\<forall>p \<in> set merged. 0 < up_id p"
  shows "distinct (map up_id (merge_item slug merged i)) \<and> (\<forall>p \<in> set (merge_item slug merged i). 0 < up_id p)"
  using assms by (auto simp: merge_item_def map_upd ball_upd)

lemma merge_items_ids:
  "distinct (map up_id merged) \<Longrightarrow> \<forall>p \<in> set merged. 0 < up_id p \<Longrightarrow>
   distinct (map up_id (foldl (merge_item slug) merged items)) \<and> (\<forall>p \<in> set (foldl (merge_item slug) merged items). 0 < up_id p)"
proof (induction items arbitrary: merged)
  case (Cons i items)
  from Cons.IH[of "merge_item slug merged i"] merge_item_ids[OF Cons.prems] show ?case by simp
qed simp

lemma fetch_files_ids:
  "fetch_files e client n cs merged = Inr ps \<Longrightarrow> distinct (map up_id merged) \<Longrightarrow> \<forall>p \<in> set merged. 0 < up_id p \<Longrightarrow>
   distinct (map up_id ps) \<and> (\<forall>p \<in> set ps. 0 < up_id p)"
proof (induction cs arbitrary: n merged)
  case (Cons c cs)
  from Cons.prems(1) obtain items where "fetch_files e client (n + 1) cs (foldl (merge_item (ic_slug c)) merged items) = Inr ps"
    by (auto split: option.splits sum.splits)
  with Cons.IH merge_items_ids[OF Cons.prems(2,3)] show ?case by blast
qed simp

lemma fetch_ids:
  assumes "fetch e client = Inr snap"
  shows "distinct (map up_id (is_prompts snap)) \<and> (\<forall>p \<in> set (is_prompts snap). 0 < up_id p)"
proof -
  from assms obtain merged where m: "fetch_files e client 0 inspiration_categories [] = Inr merged" "is_prompts snap = sort_key up_id merged"
    by (auto simp: fetch_def split: sum.splits if_splits)
  from fetch_files_ids[OF m(1)] have "distinct (map up_id merged)" "\<forall>p \<in> set merged. 0 < up_id p" by simp_all
  moreover have "distinct (map up_id (sort_key up_id merged)) = distinct (map up_id merged)"
    by (simp add: distinct_map)
  ultimately show ?thesis using m(2) by simp
qed

definition worth_keeping :: "upstream_prompt \<Rightarrow> bool" where
  "worth_keeping p \<longleftrightarrow> fst (convert_prompt (up_content p)) \<noteq> []"

lemma build_rows_refs:
  "map sy_source_ref (build_sync_rows ps uids n) = map (\<lambda>p. source_ref_of (up_id p)) (filter worth_keeping ps)"
  by (induction ps uids n rule: build_sync_rows.induct) (auto simp: worth_keeping_def Let_def split: prod.splits)

lemma build_rows_slugs: "r \<in> set (build_sync_rows ps uids n) \<Longrightarrow> \<exists>p \<in> set ps. sy_category_slug r = primary_category_slug (up_slugs p)"
proof (induction ps uids n rule: build_sync_rows.induct)
  case (2 i ps uids n)
  obtain body vars where c: "convert_prompt (up_content i) = (body, vars)" by (cases "convert_prompt (up_content i)")
  show ?case
  proof (cases "body = []")
    case True
    with c 2 show ?thesis by simp
  next
    case False
    with c "2.prems" consider "sy_category_slug r = primary_category_slug (up_slugs i)" | "r \<in> set (build_sync_rows ps uids (n + 1))"
      by (auto simp: Let_def)
    then show ?thesis using "2.IH"(2)[OF c[symmetric] False refl] by cases auto
  qed
qed simp

lemma source_ref_inject: "0 < i \<Longrightarrow> 0 < j \<Longrightarrow> source_ref_of i = source_ref_of j \<longleftrightarrow> i = j"
  by (auto simp: source_ref_of_def dest: itoa_inject[rotated 2])

lemma source_ref_not_blank:
  assumes "0 < i" shows "trim_space (source_ref_of i) \<noteq> []"
proof -
  have "\<forall>c \<in> set prompt_source_ref_prefix. plain_char c" by code_simp
  moreover have "\<forall>c \<in> set (itoa i). plain_char c" using itoa_plain[of i] assms by simp
  ultimately have "plain_char c" if "c \<in> set (source_ref_of i)" for c
    using that unfolding source_ref_of_def set_append by blast
  then have "trim_space (source_ref_of i) = source_ref_of i" by (intro trim_space_plain) blast
  then show ?thesis by (simp add: source_ref_of_def prompt_source_ref_prefix_def)
qed

lemma primary_slug_listed: "primary_category_slug slugs \<in> set primary_category_order"
proof (cases "find (\<lambda>want. want \<in> set (map trim_space slugs)) primary_category_order")
  case None
  then show ?thesis by (simp add: primary_category_slug_def primary_category_order_def)
next
  case (Some want)
  from find_SomeD[OF this] show ?thesis by (simp only: primary_category_slug_def Some option.case)
qed

lemma primary_slug_plain: "slug \<in> set primary_category_order \<Longrightarrow> trim_space slug = slug \<and> slug \<noteq> []"
proof -
  assume slug: "slug \<in> set primary_category_order"
  have "\<forall>s \<in> set primary_category_order. (\<forall>c \<in> set s. plain_char c) \<and> s \<noteq> []" by code_simp
  from bspec[OF this slug] show ?thesis by (simp add: trim_space_plain)
qed

text \<open>The rows a round writes: every one has a reference of its own and one of the eleven categories.\<close>

definition good_rows :: "sync_prompt_row list \<Rightarrow> bool" where
  "good_rows rows \<longleftrightarrow> distinct (map sy_source_ref rows) \<and>
     (\<forall>r \<in> set rows. trim_space (sy_source_ref r) \<noteq> [] \<and> sy_category_slug r \<in> set primary_category_order)"

lemma snapshot_rows_good: "fetch e client = Inr snap \<Longrightarrow> good_rows (build_sync_rows (is_prompts snap) uids 0)"
proof -
  assume f: "fetch e client = Inr snap"
  let ?rows = "build_sync_rows (is_prompts snap) uids 0"
  from fetch_ids[OF f] have "distinct (map up_id (filter worth_keeping (is_prompts snap)))" and pos: "\<forall>p \<in> set (is_prompts snap). 0 < up_id p"
    by (simp_all add: distinct_map_filter)
  then have "distinct (map (\<lambda>p. source_ref_of (up_id p)) (filter worth_keeping (is_prompts snap)))"
    by (auto simp: distinct_map inj_on_def source_ref_inject)
  moreover have "trim_space (sy_source_ref r) \<noteq> []" if "r \<in> set ?rows" for r
  proof -
    from that have "sy_source_ref r \<in> set (map sy_source_ref ?rows)" by simp
    then have "sy_source_ref r \<in> set (map (\<lambda>p. source_ref_of (up_id p)) (filter worth_keeping (is_prompts snap)))"
      unfolding build_rows_refs .
    with pos source_ref_not_blank show ?thesis by auto
  qed
  ultimately show ?thesis unfolding good_rows_def build_rows_refs using build_rows_slugs primary_slug_listed by metis
qed

section \<open>The prompts of a reference\<close>

definition rows_of :: "library \<Rightarrow> string \<Rightarrow> prompt list" where
  "rows_of lb ref = filter (\<lambda>p. pm_source_ref p = Some ref) (lb_prompts lb)"

text \<open>The unique index of the table: a reference is there once at most.\<close>

definition refs_once :: "library \<Rightarrow> bool" where
  "refs_once lb \<longleftrightarrow> (\<forall>ref. length (rows_of lb ref) \<le> 1)"

definition category_id_of :: "library \<Rightarrow> string \<Rightarrow> int option" where
  "category_id_of lb slug = map_option pc_id (find (\<lambda>c. pc_slug c = slug) (lb_categories lb))"

definition prompt_identity :: "prompt \<Rightarrow> int \<times> string \<times> prompt_source \<times> int option \<times> bool \<times> time" where
  "prompt_identity p = (pm_id p, pm_uid p, pm_source p, pm_owner_user_id p, pm_is_enabled p, pm_created_at p)"

text \<open>
  A row is imported: the library has one prompt of its reference, with the content of the row.
  It is a new one, or the one there was, the administrator's switch included.
\<close>

definition row_imported :: "(string \<Rightarrow> int option) \<Rightarrow> library \<Rightarrow> library \<Rightarrow> sync_prompt_row \<Rightarrow> bool" where
  "row_imported K lb lb' r \<longleftrightarrow>
     (\<exists>p. rows_of lb' (sy_source_ref r) = [p] \<and> prompt_content_of (K (sy_category_slug r)) r p = p \<and>
       (case rows_of lb (sy_source_ref r) of
          [] \<Rightarrow> pm_uid p = sy_uid r \<and> pm_source p = PromptSourceYouMind \<and> pm_owner_user_id p = None \<and> pm_is_enabled p
        | q # _ \<Rightarrow> prompt_identity p = prompt_identity q))"

definition other_prompts :: "sync_prompt_row list \<Rightarrow> library \<Rightarrow> prompt list" where
  "other_prompts rows lb = filter (\<lambda>p. pm_source_ref p \<notin> Some ` sy_source_ref ` set rows) (lb_prompts lb)"

definition no_counts :: sync_counts where
  "no_counts = \<lparr>sn_inserted = 0, sn_updated = 0, sn_skipped = 0\<rparr>"

definition plus_counts :: "sync_counts \<Rightarrow> sync_counts \<Rightarrow> sync_counts" where
  "plus_counts c d = \<lparr>sn_inserted = sn_inserted c + sn_inserted d, sn_updated = sn_updated c + sn_updated d,
     sn_skipped = sn_skipped c + sn_skipped d\<rparr>"

definition imported :: "(string \<Rightarrow> int option) \<Rightarrow> sync_prompt_row list \<Rightarrow> library \<Rightarrow> sync_counts \<Rightarrow> library \<Rightarrow> bool" where
  "imported K rows lb c lb' \<longleftrightarrow>
     (\<forall>r \<in> set rows. row_imported K lb lb' r) \<and> other_prompts rows lb' = other_prompts rows lb \<and>
     lb_categories lb' = lb_categories lb \<and> lb_runs lb' = lb_runs lb \<and> lb_locked lb' = lb_locked lb \<and>
     sn_inserted c = affected (\<lambda>r. rows_of lb (sy_source_ref r) = []) rows \<and>
     sn_inserted c + sn_updated c + sn_skipped c = int (length rows)"

lemma plus_counts_zero [simp]: "plus_counts c no_counts = c" "plus_counts no_counts c = c"
  by (simp_all add: plus_counts_def no_counts_def)

lemma plus_counts_assoc: "plus_counts (plus_counts a b) c = plus_counts a (plus_counts b c)"
  by (simp add: plus_counts_def)

lemma count_outcome_plus: "count_outcome u c = plus_counts c (count_outcome u no_counts)"
  by (cases u) (simp_all add: count_outcome_def plus_counts_def no_counts_def)

lemma imported_none [simp]: "imported K [] lb no_counts lb"
  by (simp add: imported_def no_counts_def)

lemma add_counts_zero [simp]: "add_counts no_counts run = run"
  by (simp add: add_counts_def no_counts_def)

lemma add_counts_plus: "add_counts d (add_counts c run) = add_counts (plus_counts c d) run"
  by (simp add: add_counts_def plus_counts_def)

lemma filter_of_find: "find P xs = Some x \<Longrightarrow> length (filter P xs) \<le> 1 \<Longrightarrow> filter P xs = [x]"
  by (induction xs) (auto split: if_splits)

lemma find_of_filter: "filter P xs = x # ys \<Longrightarrow> find P xs = Some x"
  by (induction xs) (auto split: if_splits)

lemma filter_upd_same: "(\<And>x. P x \<Longrightarrow> P (f x)) \<Longrightarrow> filter P (upd P f xs) = map f (filter P xs)"
  by (induction xs) auto

lemma filter_upd_other: "(\<And>x. P x \<Longrightarrow> \<not> Q x \<and> \<not> Q (f x)) \<Longrightarrow> filter Q (upd P f xs) = filter Q xs"
  by (induction xs) auto

lemma rows_of_others:
  assumes "other_prompts rows lb' = other_prompts rows lb" and "ref \<notin> sy_source_ref ` set rows"
  shows "rows_of lb' ref = rows_of lb ref"
proof -
  have "rows_of x ref = filter (\<lambda>p. pm_source_ref p = Some ref) (other_prompts rows x)" for x
    using assms(2) by (auto simp: rows_of_def other_prompts_def intro!: filter_cong)
  with assms(1) show ?thesis by simp
qed

lemma imported_refs_once:
  assumes "imported K rows lb c lb'" and "refs_once lb"
  shows "refs_once lb'"
  unfolding refs_once_def
proof
  fix ref
  show "length (rows_of lb' ref) \<le> 1"
  proof (cases "ref \<in> sy_source_ref ` set rows")
    case True
    with assms(1) show ?thesis by (auto simp: imported_def row_imported_def)
  next
    case False
    with assms rows_of_others[of rows lb' lb ref] show ?thesis by (simp add: imported_def refs_once_def)
  qed
qed

lemma imported_append:
  assumes "imported K rows lb c lb1" and "imported K rest lb1 d lb2"
    and "sy_source_ref ` set rows \<inter> sy_source_ref ` set rest = {}"
  shows "imported K (rows @ rest) lb (plus_counts c d) lb2"
proof -
  have before: "rows_of lb1 (sy_source_ref r) = rows_of lb (sy_source_ref r)" if "r \<in> set rest" for r
    using assms that by (intro rows_of_others[of rows]) (auto simp: imported_def)
  have after: "rows_of lb2 (sy_source_ref r) = rows_of lb1 (sy_source_ref r)" if "r \<in> set rows" for r
    using assms that by (intro rows_of_others[of rest]) (auto simp: imported_def)
  have "row_imported K lb lb2 r" if "r \<in> set (rows @ rest)" for r
    using that assms(1,2) before after by (auto simp: imported_def row_imported_def)
  moreover have "other_prompts (rows @ rest) lb2 = other_prompts (rows @ rest) lb"
  proof -
    have "other_prompts (rows @ rest) x = filter (\<lambda>p. pm_source_ref p \<notin> Some ` sy_source_ref ` set rows) (other_prompts rest x)"
      "other_prompts (rows @ rest) x = filter (\<lambda>p. pm_source_ref p \<notin> Some ` sy_source_ref ` set rest) (other_prompts rows x)" for x
      by (auto simp: other_prompts_def intro!: filter_cong)
    with assms show ?thesis unfolding imported_def by metis
  qed
  moreover have "affected (\<lambda>r. rows_of lb1 (sy_source_ref r) = []) rest = affected (\<lambda>r. rows_of lb (sy_source_ref r) = []) rest"
    using before by (intro affected_cong) auto
  ultimately show ?thesis using assms(1,2) by (auto simp: imported_def plus_counts_def)
qed

lemma upsert_one:
  assumes "upsert_synced_prompt now (K (sy_category_slug r)) r lb = Inr (u, lb')" and "refs_once lb"
  shows "imported K [r] lb (count_outcome u no_counts) lb'"
proof (cases "find (\<lambda>p. pm_source_ref p = Some (sy_source_ref r)) (lb_prompts lb)")
  case None
  then have none: "rows_of lb (sy_source_ref r) = []" by (auto simp: rows_of_def find_None_iff filter_empty_conv)
  with None assms(1) show ?thesis
    by (auto simp: upsert_synced_prompt_def imported_def row_imported_def rows_of_def other_prompts_def prompt_content_of_def
      count_outcome_def no_counts_def split: if_splits)
next
  case (Some p)
  with assms(2) have one: "rows_of lb (sy_source_ref r) = [p]"
    unfolding rows_of_def refs_once_def by (intro filter_of_find) auto
  show ?thesis
  proof (cases "prompt_content_of (K (sy_category_slug r)) r p = p")
    case True
    with Some one assms(1) show ?thesis
      by (auto simp: upsert_synced_prompt_def imported_def row_imported_def count_outcome_def no_counts_def)
  next
    case False
    let ?f = "\<lambda>q. (prompt_content_of (K (sy_category_slug r)) r q)\<lparr>pm_updated_at := now\<rparr>"
    from False Some assms(1) have lb': "u = RowUpdated"
      "lb' = lb\<lparr>lb_prompts := upd (\<lambda>q. pm_source_ref q = Some (sy_source_ref r)) ?f (lb_prompts lb)\<rparr>"
      by (auto simp: upsert_synced_prompt_def)
    have "rows_of lb' (sy_source_ref r) = map ?f (rows_of lb (sy_source_ref r))"
      by (simp add: lb' rows_of_def filter_upd_same prompt_content_of_def)
    moreover have "other_prompts [r] lb' = other_prompts [r] lb"
      by (simp add: lb' other_prompts_def filter_upd_other prompt_content_of_def)
    moreover have "prompt_content_of (K (sy_category_slug r)) r (?f p) = ?f p" by (simp add: prompt_content_of_def)
    moreover have "prompt_identity (?f p) = prompt_identity p" by (simp add: prompt_content_of_def prompt_identity_def)
    ultimately show ?thesis using lb' one by (simp add: imported_def row_imported_def count_outcome_def no_counts_def)
  qed
qed

lemma upsert_rows_imported:
  "upsert_rows now K rows c lb = Inr (c', lb') \<Longrightarrow> refs_once lb \<Longrightarrow> distinct (map sy_source_ref rows) \<Longrightarrow>
   \<forall>r \<in> set rows. trim_space (sy_source_ref r) \<noteq> [] \<Longrightarrow>
   \<exists>d. c' = plus_counts c d \<and> imported K rows lb d lb'"
proof (induction rows arbitrary: c lb)
  case Nil
  then show ?case by (intro exI[of _ no_counts]) simp
next
  case (Cons r rows)
  from Cons.prems(1,4) obtain u lb1 where one: "upsert_synced_prompt now (K (sy_category_slug r)) r lb = Inr (u, lb1)"
    and rest: "upsert_rows now K rows (count_outcome u c) lb1 = Inr (c', lb')"
    by (auto split: sum.splits)
  from upsert_one[of now K r lb u lb1, OF one Cons.prems(2)] have i: "imported K [r] lb (count_outcome u no_counts) lb1" .
  from Cons.IH[OF rest imported_refs_once[OF i Cons.prems(2)]] Cons.prems(3,4) obtain d where
    d: "c' = plus_counts (count_outcome u c) d" "imported K rows lb1 d lb'" by auto
  with imported_append[OF i d(2)] Cons.prems(3) show ?case
    by (intro exI[of _ "plus_counts (count_outcome u no_counts) d"])
       (auto simp: plus_counts_assoc[symmetric] count_outcome_plus[of u c, symmetric])
qed

lemma upsert_rows_cong:
  "(\<And>r. r \<in> set rows \<Longrightarrow> K (sy_category_slug r) = K' (sy_category_slug r)) \<Longrightarrow> upsert_rows now K rows c lb = upsert_rows now K' rows c lb"
  by (induction rows arbitrary: c lb) (auto split: sum.splits)

lemma loaded_category:
  assumes "r \<in> set rows" and "sy_category_slug r \<in> set primary_category_order"
  shows "load_category_ids rows lb (sy_category_slug r) = category_id_of lb (sy_category_slug r)"
proof -
  from primary_slug_plain[OF assms(2)] have "trim_space (sy_category_slug r) = sy_category_slug r" "sy_category_slug r \<noteq> []" by simp_all
  with assms(1) show ?thesis unfolding load_category_ids_def category_id_of_def by (auto intro!: rev_image_eqI)
qed

lemma good_rows_chunk:
  "good_rows rows \<Longrightarrow> good_rows (take n rows) \<and> good_rows (drop n rows) \<and>
     sy_source_ref ` set (take n rows) \<inter> sy_source_ref ` set (drop n rows) = {}"
proof -
  assume g: "good_rows rows"
  then have "distinct (map sy_source_ref (take n rows @ drop n rows))" by (simp add: good_rows_def)
  with g show ?thesis unfolding good_rows_def map_append distinct_append set_map
    by (auto dest: in_set_takeD in_set_dropD)
qed

lemma upsert_chunk:
  assumes "upsert_synced_prompts now rows lb = Inr (c, lb')" and "refs_once lb" and "good_rows rows"
  shows "imported (category_id_of lb) rows lb c lb'"
proof -
  have "upsert_rows now (category_id_of lb) rows no_counts lb = Inr (c, lb')"
    using assms(1,3) upsert_rows_cong[of rows "load_category_ids rows lb" "category_id_of lb"] loaded_category
    unfolding upsert_synced_prompts_def good_rows_def no_counts_def by metis
  from upsert_rows_imported[OF this assms(2)] assms(3) show ?thesis by (auto simp: good_rows_def)
qed

definition sync_alone :: "sync_env \<Rightarrow> bool" where
  "sync_alone e \<longleftrightarrow> (\<forall>p. se_meanwhile e p = (\<lambda>lb. lb))"

lemma sync_repo_Inr: "sync_alone e \<Longrightarrow> sync_repo e p f lb = (Inr a, lb') \<Longrightarrow> f lb = Inr (a, lb')"
  by (auto simp: sync_alone_def sync_repo_def repo_call_def Let_def split: option.splits sum.splits)

lemma imported_categories: "imported K rows lb c lb' \<Longrightarrow> category_id_of lb' = category_id_of lb"
  by (auto simp: imported_def category_id_of_def)

lemma put_rows_imported:
  "put_rows e n rows run lb = (None, run', lb') \<Longrightarrow> sync_alone e \<Longrightarrow> refs_once lb \<Longrightarrow> good_rows rows \<Longrightarrow>
   \<exists>d. run' = add_counts d run \<and> imported (category_id_of lb) rows lb d lb'"
proof (induction e n rows run lb rule: put_rows.induct)
  case (1 e n rows run lb)
  show ?case
  proof (cases "rows = []")
    case True
    with "1.prems"(1) show ?thesis
      by (intro exI[of _ no_counts]) (simp add: put_rows.simps[of e n "[]"])
  next
    case False
    let ?chunk = "take inspiration_upsert_chunk rows" and ?rest = "drop inspiration_upsert_chunk rows"
    let ?call = "sync_repo e (PutPrompts n) (upsert_synced_prompts (se_db_now e (PutPrompts n)) ?chunk) lb"
    from False "1.prems"(1) obtain c lb1 where ok: "se_chunk_done e n = None" and call: "?call = (Inr c, lb1)"
      and rest: "put_rows e (n + 1) ?rest (add_counts c run) lb1 = (None, run', lb')"
      by (auto simp: put_rows.simps[of e n rows] split: option.splits prod.splits sum.splits)
    note chunks = good_rows_chunk[OF "1.prems"(4), of inspiration_upsert_chunk]
    have i: "imported (category_id_of lb) ?chunk lb c lb1"
      using upsert_chunk[OF sync_repo_Inr[OF "1.prems"(2) call] "1.prems"(3)] chunks by blast
    from "1.IH"[OF False ok call[symmetric] refl rest "1.prems"(2) imported_refs_once[OF i "1.prems"(3)]] chunks
    obtain d where d: "run' = add_counts d (add_counts c run)" "imported (category_id_of lb1) ?rest lb1 d lb'" by blast
    from imported_append[OF i d(2)[unfolded imported_categories[OF i]]] chunks d(1) show ?thesis
      by (intro exI[of _ "plus_counts c d"]) (simp add: add_counts_plus)
  qed
qed

section \<open>The categories\<close>

lemma find_at_end: "find P (xs @ [x]) = (case find P xs of None \<Rightarrow> (if P x then Some x else None) | Some y \<Rightarrow> Some y)"
  by (induction xs) auto

lemma upsert_category_ids:
  assumes "upsert_category now c lb = Inr (out, lb')"
  shows "category_id_of lb' (pc_slug c) \<noteq> None \<and> (category_id_of lb slug \<noteq> None \<longrightarrow> category_id_of lb' slug = category_id_of lb slug) \<and>
    lb_prompts lb' = lb_prompts lb"
proof (cases "find (\<lambda>x. pc_slug x = pc_slug c) (lb_categories lb)")
  case None
  with assms have "lb_prompts lb' = lb_prompts lb \<and> (\<exists>row. pc_slug row = pc_slug c \<and> lb_categories lb' = lb_categories lb @ [row])"
    by (auto simp: upsert_category_def Let_def split: if_splits)
  then show ?thesis by (auto simp: category_id_of_def find_at_end split: option.splits)
next
  case (Some x)
  define row where "row = x\<lparr>pc_name_zh := pc_name_zh c, pc_name_en := pc_name_en c, pc_sort_order := pc_sort_order c, pc_updated_at := now\<rparr>"
  with Some assms have row: "pc_id row = pc_id x" "pc_slug row = pc_slug x" and
    lb': "lb_prompts lb' = lb_prompts lb" "lb_categories lb' = upd (\<lambda>y. pc_slug y = pc_slug c) (\<lambda>_. row) (lb_categories lb)"
    by (auto simp: upsert_category_def Let_def split: if_splits)
  have x: "pc_slug x = pc_slug c" using find_SomeD[OF Some] by simp
  have "map_option pc_id (find (\<lambda>y. pc_slug y = s) (upd (\<lambda>y. pc_slug y = pc_slug c) (\<lambda>_. row) cs)) =
      (if s = pc_slug c then map_option (\<lambda>_. pc_id x) (find (\<lambda>y. pc_slug y = s) cs) else map_option pc_id (find (\<lambda>y. pc_slug y = s) cs))" for s cs
    using row x by (induction cs) auto
  then have "category_id_of lb' s = category_id_of lb s" for s using Some lb' by (auto simp: category_id_of_def)
  moreover have "category_id_of lb (pc_slug c) = Some (pc_id x)" using Some by (simp add: category_id_of_def)
  ultimately show ?thesis using lb'(1) by simp
qed

lemma ensure_categories_ids:
  "ensure_categories e n cs lb = (None, lb') \<Longrightarrow> sync_alone e \<Longrightarrow>
   lb_prompts lb' = lb_prompts lb \<and> (category_id_of lb slug \<noteq> None \<longrightarrow> category_id_of lb' slug = category_id_of lb slug) \<and>
   (slug \<in> ic_slug ` set cs \<longrightarrow> category_id_of lb' slug \<noteq> None)"
proof (induction cs arbitrary: n lb)
  case (Cons c cs)
  from Cons.prems(1) obtain row lb1 where
    call: "sync_repo e (PutCategory n) (upsert_category (se_db_now e (PutCategory n))
       \<lparr>pc_id = 0, pc_slug = ic_slug c, pc_name_zh = ic_name_zh c, pc_name_en = ic_name_en c,
        pc_sort_order = (int n + 1) * 10, pc_created_at = zero_time, pc_updated_at = zero_time\<rparr>) lb = (Inr row, lb1)"
    and rest: "ensure_categories e (n + 1) cs lb1 = (None, lb')"
    by (auto split: prod.splits sum.splits)
  from upsert_category_ids[OF sync_repo_Inr[OF Cons.prems(2) call], of slug] Cons.IH[OF rest Cons.prems(2)] show ?case by auto
qed simp

lemma category_slugs:
  "ic_slug ` set inspiration_categories = set [''profile-avatar'', ''social-media-post'', ''infographic-edu-visual'', ''youtube-thumbnail'',
      ''comic-storyboard'', ''product-marketing'', ''ecommerce-main-image'', ''game-asset'', ''poster-flyer'', ''app-web-design'', ''others'']"
  unfolding inspiration_categories_def list.set image_insert image_empty inspiration_category.select_convs ..

lemma primary_slugs_are_categories: "set primary_category_order \<subseteq> ic_slug ` set inspiration_categories"
  unfolding category_slugs primary_category_order_def by simp

lemma category_slug_not_blank: "c \<in> set inspiration_categories \<Longrightarrow> trim_space (ic_slug c) \<noteq> []"
proof -
  assume "c \<in> set inspiration_categories"
  then have slug: "ic_slug c \<in> ic_slug ` set inspiration_categories" by simp
  have "\<forall>s \<in> set [''profile-avatar'', ''social-media-post'', ''infographic-edu-visual'', ''youtube-thumbnail'',
      ''comic-storyboard'', ''product-marketing'', ''ecommerce-main-image'', ''game-asset'', ''poster-flyer'', ''app-web-design'', ''others''].
      (\<forall>c \<in> set s. plain_char c) \<and> s \<noteq> []" by code_simp
  from bspec[OF this slug[unfolded category_slugs]] show ?thesis by (simp add: trim_space_plain)
qed

section \<open>A round\<close>

lemma do_sync_run:
  "sync_http_client e = Inr (client, via) \<Longrightarrow> fetch e client = Inr snap \<Longrightarrow> ensure_categories e 0 inspiration_categories lb = (None, lb1) \<Longrightarrow>
   do_sync e run lb = put_rows e 0 (build_sync_rows (is_prompts snap) (se_uids e) 0) (run\<lparr>rn_fetched := int (length (is_prompts snap))\<rparr>) lb1"
  by (simp add: do_sync_def)

lemma do_sync_done:
  assumes "do_sync e run lb = (None, run', lb')" and "sync_http_client e = Inr (client, via)" and "fetch e client = Inr snap"
  obtains lb1 where "ensure_categories e 0 inspiration_categories lb = (None, lb1)"
    and "put_rows e 0 (build_sync_rows (is_prompts snap) (se_uids e) 0) (run\<lparr>rn_fetched := int (length (is_prompts snap))\<rparr>) lb1 = (None, run', lb')"
proof -
  obtain err lb1 where c: "ensure_categories e 0 inspiration_categories lb = (err, lb1)" by (cases "ensure_categories e 0 inspiration_categories lb")
  show ?thesis using assms that[of lb1] c by (cases err) (simp_all add: do_sync_def Let_def)
qed

lemma refs_once_prompts: "lb_prompts lb' = lb_prompts lb \<Longrightarrow> refs_once lb' = refs_once lb"
  by (simp add: refs_once_def rows_of_def)

lemma do_sync_imported:
  assumes "sync_alone e" and "refs_once lb" and "do_sync e run lb = (None, run', lb')"
    and "sync_http_client e = Inr (client, via)" and "fetch e client = Inr snap"
  shows "\<exists>lb1 d. ensure_categories e 0 inspiration_categories lb = (None, lb1) \<and>
    run' = add_counts d (run\<lparr>rn_fetched := int (length (is_prompts snap))\<rparr>) \<and>
    imported (category_id_of lb') (build_sync_rows (is_prompts snap) (se_uids e) 0) lb1 d lb'"
proof -
  obtain lb1 where c: "ensure_categories e 0 inspiration_categories lb = (None, lb1)"
    and p: "put_rows e 0 (build_sync_rows (is_prompts snap) (se_uids e) 0) (run\<lparr>rn_fetched := int (length (is_prompts snap))\<rparr>) lb1
      = (None, run', lb')" by (rule do_sync_done[OF assms(3-5)])
  have "refs_once lb1" using ensure_categories_ids[OF c assms(1)] assms(2) refs_once_prompts by blast
  from put_rows_imported[OF p assms(1) this snapshot_rows_good[OF assms(5)]] obtain d where
    d: "run' = add_counts d (run\<lparr>rn_fetched := int (length (is_prompts snap))\<rparr>)"
      "imported (category_id_of lb1) (build_sync_rows (is_prompts snap) (se_uids e) 0) lb1 d lb'" by blast
  with c imported_categories[OF d(2)] show ?thesis by metis
qed

lemma sync_imports_everything:
  assumes "sync_alone e" and "refs_once lb" and "do_sync e run lb = (None, run', lb')"
    and "sync_http_client e = Inr (client, via)" and "fetch e client = Inr snap"
    and "rows = build_sync_rows (is_prompts snap) (se_uids e) 0"
  shows "sy_source_ref ` set rows = (\<lambda>p. source_ref_of (up_id p)) ` {p \<in> set (is_prompts snap). fst (convert_prompt (up_content p)) \<noteq> []} \<and>
    (\<forall>r \<in> set rows. row_imported (category_id_of lb') lb lb' r \<and> category_id_of lb' (sy_category_slug r) \<noteq> None) \<and>
    other_prompts rows lb' = other_prompts rows lb \<and> refs_once lb' \<and>
    rn_fetched run' = int (length (is_prompts snap)) \<and>
    rn_inserted run' = rn_inserted run + affected (\<lambda>r. rows_of lb (sy_source_ref r) = []) rows \<and>
    rn_inserted run' + rn_updated run' + rn_skipped run' = rn_inserted run + rn_updated run + rn_skipped run + int (length rows)"
proof -
  from do_sync_imported[OF assms(1-5)] assms(6) obtain lb1 d where c: "ensure_categories e 0 inspiration_categories lb = (None, lb1)"
    and run': "run' = add_counts d (run\<lparr>rn_fetched := int (length (is_prompts snap))\<rparr>)"
    and i: "imported (category_id_of lb') rows lb1 d lb'" by blast
  note ids = ensure_categories_ids[OF c assms(1)]
  have same: "rows_of lb1 = rows_of lb" "other_prompts rows lb1 = other_prompts rows lb" "refs_once lb1"
    using ids assms(2) by (auto simp: rows_of_def other_prompts_def refs_once_def)
  have "sy_source_ref ` set rows = set (map sy_source_ref rows)" by simp
  then have refs: "sy_source_ref ` set rows = (\<lambda>p. source_ref_of (up_id p)) ` {p \<in> set (is_prompts snap). fst (convert_prompt (up_content p)) \<noteq> []}"
    unfolding assms(6) build_rows_refs by (simp add: worth_keeping_def)
  have "category_id_of lb' (sy_category_slug r) \<noteq> None" if "r \<in> set rows" for r
  proof -
    from snapshot_rows_good[OF assms(5)] that have "sy_category_slug r \<in> ic_slug ` set inspiration_categories"
      unfolding assms(6) good_rows_def using primary_slugs_are_categories by blast
    with ids imported_categories[OF i] show ?thesis by metis
  qed
  moreover have "row_imported (category_id_of lb') lb lb' r" if "r \<in> set rows" for r
    using i that same(1) by (auto simp: imported_def row_imported_def)
  ultimately show ?thesis using refs i same run' imported_refs_once[OF i same(3)] by (simp add: imported_def add_counts_def)
qed

text \<open>C18: A round of synchronisation that succeeds, alone at the tables, has imported what it downloaded.
  Every prompt of the snapshot whose text is not empty is in the library exactly once, with the converted text, its
  variables, its picture and a category; one that was there keeps its id, its owner and the
  administrator's decision to switch it off. The prompts of other references, the users' own among them, are as before, and
  the counts of the run add up.\<close>

theorem sync_imports_snapshot:
  assumes "sync_alone e" and "refs_once lb" and "do_sync e run lb = (None, run', lb')"
    and "sync_http_client e = Inr (client, via)" and "fetch e client = Inr snap"
    and "rows = build_sync_rows (is_prompts snap) (se_uids e) 0"
  shows "sy_source_ref ` set rows = (\<lambda>p. source_ref_of (up_id p)) ` {p \<in> set (is_prompts snap). fst (convert_prompt (up_content p)) \<noteq> []} \<and>
    (\<forall>r \<in> set rows. row_imported (category_id_of lb') lb lb' r \<and> category_id_of lb' (sy_category_slug r) \<noteq> None) \<and>
    other_prompts rows lb' = other_prompts rows lb \<and> refs_once lb' \<and>
    rn_fetched run' = int (length (is_prompts snap)) \<and>
    rn_inserted run' = rn_inserted run + affected (\<lambda>r. rows_of lb (sy_source_ref r) = []) rows \<and>
    rn_inserted run' + rn_updated run' + rn_skipped run' = rn_inserted run + rn_updated run + rn_skipped run + int (length rows)"
  by (rule sync_imports_everything[OF assms])

section \<open>A round succeeds\<close>

lemma ensure_categories_succeeds:
  "sync_alone e \<Longrightarrow> \<forall>p. se_fails e p = None \<Longrightarrow> \<forall>c \<in> set cs. trim_space (ic_slug c) \<noteq> [] \<Longrightarrow> fst (ensure_categories e n cs lb) = None"
proof (induction cs arbitrary: n lb)
  case (Cons c cs)
  let ?c = "\<lparr>pc_id = 0, pc_slug = ic_slug c, pc_name_zh = ic_name_zh c, pc_name_en = ic_name_en c,
        pc_sort_order = (int n + 1) * 10, pc_created_at = zero_time, pc_updated_at = zero_time\<rparr>"
  from Cons.prems(3) obtain row lb1 where "upsert_category (se_db_now e (PutCategory n)) ?c lb = Inr (row, lb1)"
    by (fastforce simp: upsert_category_def Let_def split: option.splits)
  with Cons.prems(1,2) have "sync_repo e (PutCategory n) (upsert_category (se_db_now e (PutCategory n)) ?c) lb = (Inr row, lb1)"
    by (simp add: sync_repo_def repo_call_def sync_alone_def)
  with Cons.IH[OF Cons.prems(1,2)] Cons.prems(3) show ?case by simp
qed simp

lemma build_rows_uid_list: "map sy_uid (build_sync_rows ps uids n) = map uids [n..<n + length (build_sync_rows ps uids n)]"
proof (induction ps arbitrary: n)
  case (Cons i ps)
  show ?case
    using Cons.IH[of n] Cons.IH[of "n + 1"]
    by (cases "convert_prompt (up_content i)") (auto simp: Let_def upt_conv_Cons simp del: upt_Suc)
qed simp

lemma disjoint_insert_subset: "A \<inter> B = {} \<Longrightarrow> x \<notin> A \<Longrightarrow> C \<subseteq> insert x B \<Longrightarrow> A \<inter> C = {}" and
  disjoint_subset_left: "A \<subseteq> B \<Longrightarrow> B \<inter> C = {} \<Longrightarrow> A \<inter> C = {}"
  by blast+

lemma upsert_rows_succeed:
  "distinct (map sy_uid rows) \<Longrightarrow> sy_uid ` set rows \<inter> pm_uid ` set (lb_prompts lb) = {} \<Longrightarrow>
   \<exists>c' lb'. upsert_rows now K rows c lb = Inr (c', lb') \<and> pm_uid ` set (lb_prompts lb') \<subseteq> pm_uid ` set (lb_prompts lb) \<union> sy_uid ` set rows"
proof (induction rows arbitrary: c lb)
  case (Cons r rows)
  show ?case
  proof (cases "trim_space (sy_source_ref r) = []")
    case True
    from Cons.IH[of lb "count_outcome RowSkipped c"] Cons.prems obtain c' lb' where
      "upsert_rows now K rows (count_outcome RowSkipped c) lb = Inr (c', lb')"
      "pm_uid ` set (lb_prompts lb') \<subseteq> pm_uid ` set (lb_prompts lb) \<union> sy_uid ` set rows" by auto
    with True show ?thesis by auto
  next
    case False
    have "\<exists>u lb1. upsert_synced_prompt now (K (sy_category_slug r)) r lb = Inr (u, lb1) \<and>
        pm_uid ` set (lb_prompts lb1) \<subseteq> insert (sy_uid r) (pm_uid ` set (lb_prompts lb))"
      using Cons.prems(2) by (force simp: upsert_synced_prompt_def set_upd prompt_content_of_def split: option.splits)
    then obtain u lb1 where one: "upsert_synced_prompt now (K (sy_category_slug r)) r lb = Inr (u, lb1)"
      and uids: "pm_uid ` set (lb_prompts lb1) \<subseteq> insert (sy_uid r) (pm_uid ` set (lb_prompts lb))" by blast
    from Cons.prems have "sy_uid ` set rows \<inter> pm_uid ` set (lb_prompts lb) = {}" "sy_uid r \<notin> sy_uid ` set rows" by auto
    then have "sy_uid ` set rows \<inter> pm_uid ` set (lb_prompts lb1) = {}" by (rule disjoint_insert_subset[OF _ _ uids])
    with Cons.IH[of lb1 "count_outcome u c"] Cons.prems(1) obtain c' lb' where
      "upsert_rows now K rows (count_outcome u c) lb1 = Inr (c', lb')"
      "pm_uid ` set (lb_prompts lb') \<subseteq> pm_uid ` set (lb_prompts lb1) \<union> sy_uid ` set rows" by auto
    moreover from this(2) uids have "pm_uid ` set (lb_prompts lb') \<subseteq> pm_uid ` set (lb_prompts lb) \<union> sy_uid ` set (r # rows)"
      unfolding list.set image_insert by blast
    ultimately show ?thesis using one False by simp
  qed
qed simp

lemma put_rows_succeed:
  "sync_alone e \<Longrightarrow> \<forall>p. se_fails e p = None \<Longrightarrow> \<forall>n. se_chunk_done e n = None \<Longrightarrow> distinct (map sy_uid rows) \<Longrightarrow>
   sy_uid ` set rows \<inter> pm_uid ` set (lb_prompts lb) = {} \<Longrightarrow> fst (put_rows e n rows run lb) = None"
proof (induction e n rows run lb rule: put_rows.induct)
  case (1 e n rows run lb)
  show ?case
  proof (cases "rows = []")
    case True
    then show ?thesis by (simp add: put_rows.simps[of e n "[]"])
  next
    case False
    let ?chunk = "take inspiration_upsert_chunk rows" and ?rest = "drop inspiration_upsert_chunk rows"
    let ?now = "se_db_now e (PutPrompts n)"
    have split: "distinct (map sy_uid ?chunk)" "distinct (map sy_uid ?rest)" "sy_uid ` set ?chunk \<inter> sy_uid ` set ?rest = {}"
      using "1.prems"(4) distinct_append[of "map sy_uid ?chunk" "map sy_uid ?rest"] unfolding map_append[symmetric] append_take_drop_id by simp_all
    have fresh: "sy_uid ` set ?chunk \<inter> pm_uid ` set (lb_prompts lb) = {}" "sy_uid ` set ?rest \<inter> pm_uid ` set (lb_prompts lb) = {}"
      using "1.prems"(5) by (auto dest: in_set_takeD in_set_dropD)
    from upsert_rows_succeed[OF split(1) fresh(1)] obtain c lb1 where
      c: "upsert_synced_prompts ?now ?chunk lb = Inr (c, lb1)" and
      uids: "pm_uid ` set (lb_prompts lb1) \<subseteq> pm_uid ` set (lb_prompts lb) \<union> sy_uid ` set ?chunk"
      unfolding upsert_synced_prompts_def by blast
    from c "1.prems"(1,2) have call: "sync_repo e (PutPrompts n) (upsert_synced_prompts ?now ?chunk) lb = (Inr c, lb1)"
      by (simp add: sync_repo_def repo_call_def sync_alone_def)
    have "sy_uid ` set ?rest \<inter> pm_uid ` set (lb_prompts lb1) = {}" using uids split(3) fresh(2) by blast
    with "1.IH"[OF False spec[OF "1.prems"(3)] call[symmetric] refl "1.prems"(1-3) split(2)] False "1.prems"(3) call
    show ?thesis by (simp add: put_rows.simps[of e n rows])
  qed
qed

lemma sync_succeeds:
  assumes "sync_alone e" and "\<forall>p. se_fails e p = None" and "\<forall>n. se_chunk_done e n = None"
    and "inj (se_uids e)" and "range (se_uids e) \<inter> pm_uid ` set (lb_prompts lb) = {}"
    and "sync_http_client e = Inr (client, via)" and "fetch e client = Inr snap"
  obtains run' lb' where "do_sync e run lb = (None, run', lb')"
proof -
  let ?rows = "build_sync_rows (is_prompts snap) (se_uids e) 0"
  obtain lb1 where c: "ensure_categories e 0 inspiration_categories lb = (None, lb1)"
    using ensure_categories_succeeds[OF assms(1,2), of inspiration_categories 0 lb] category_slug_not_blank by (metis prod.collapse)
  have uids: "map sy_uid ?rows = map (se_uids e) [0..<length ?rows]" using build_rows_uid_list[of "is_prompts snap" "se_uids e" 0] by simp
  then have "distinct (map sy_uid ?rows)" by (simp add: distinct_map inj_on_subset[OF assms(4) subset_UNIV])
  moreover have "sy_uid ` set ?rows \<subseteq> range (se_uids e)"
  proof -
    have "sy_uid ` set ?rows = set (map sy_uid ?rows)" by simp
    also have "\<dots> \<subseteq> range (se_uids e)" unfolding uids by auto
    finally show ?thesis .
  qed
  then have "sy_uid ` set ?rows \<inter> pm_uid ` set (lb_prompts lb) = {}" using assms(5) by (rule disjoint_subset_left)
  then have "sy_uid ` set ?rows \<inter> pm_uid ` set (lb_prompts lb1) = {}"
    using ensure_categories_ids[OF c assms(1)] by simp
  ultimately have "fst (put_rows e 0 ?rows (run\<lparr>rn_fetched := int (length (is_prompts snap))\<rparr>) lb1) = None"
    by (intro put_rows_succeed assms)
  with c assms(6,7) that show ?thesis by (metis (lifting) do_sync_run prod.collapse)
qed

section \<open>A second round\<close>

lemma build_rows_uids: "map (\<lambda>r. r\<lparr>sy_uid := []\<rparr>) (build_sync_rows ps uids n) = map (\<lambda>r. r\<lparr>sy_uid := []\<rparr>) (build_sync_rows ps uids' n')"
proof (induction ps arbitrary: n n')
  case (Cons i ps)
  show ?case by (cases "convert_prompt (up_content i)") (auto simp: Let_def intro: Cons.IH)
qed simp

lemma same_but_uid:
  assumes "r0\<lparr>sy_uid := []\<rparr> = r\<lparr>sy_uid := []\<rparr>"
  shows "sy_source_ref r0 = sy_source_ref r" and "sy_category_slug r0 = sy_category_slug r"
    and "prompt_content_of k r0 = prompt_content_of k r"
proof -
  have field: "f (r0\<lparr>sy_uid := []\<rparr>) = f (r\<lparr>sy_uid := []\<rparr>)" for f :: "sync_prompt_row \<Rightarrow> 'x" using assms by simp
  show "sy_source_ref r0 = sy_source_ref r" "sy_category_slug r0 = sy_category_slug r"
    using field[of sy_source_ref] field[of sy_category_slug] by simp_all
  have "sy_title r0 = sy_title r" "sy_body r0 = sy_body r" "sy_variables r0 = sy_variables r" "sy_preview_url r0 = sy_preview_url r"
    using field[of sy_title] field[of sy_body] field[of sy_variables] field[of sy_preview_url] by simp_all
  then show "prompt_content_of k r0 = prompt_content_of k r" by (simp add: prompt_content_of_def fun_eq_iff)
qed

lemma skipped_rows:
  "\<forall>r \<in> set rows. \<exists>p. find (\<lambda>p. pm_source_ref p = Some (sy_source_ref r)) (lb_prompts lb) = Some p \<and> prompt_content_of (K (sy_category_slug r)) r p = p \<Longrightarrow>
   upsert_rows now K rows c lb = Inr (plus_counts c \<lparr>sn_inserted = 0, sn_updated = 0, sn_skipped = int (length rows)\<rparr>, lb)"
  by (induction rows arbitrary: c) (auto simp: upsert_synced_prompt_def count_outcome_def plus_counts_def)

lemma put_rows_skipped:
  "put_rows e n rows run lb = (None, run', lb') \<Longrightarrow> sync_alone e \<Longrightarrow> good_rows rows \<Longrightarrow>
   \<forall>r \<in> set rows. \<exists>p. find (\<lambda>p. pm_source_ref p = Some (sy_source_ref r)) (lb_prompts lb) = Some p \<and>
     prompt_content_of (category_id_of lb (sy_category_slug r)) r p = p \<Longrightarrow>
   lb' = lb \<and> run' = add_counts \<lparr>sn_inserted = 0, sn_updated = 0, sn_skipped = int (length rows)\<rparr> run"
proof (induction e n rows run lb rule: put_rows.induct)
  case (1 e n rows run lb)
  show ?case
  proof (cases "rows = []")
    case True
    with "1.prems"(1) show ?thesis by (simp add: put_rows.simps[of e n "[]"] add_counts_def)
  next
    case False
    let ?chunk = "take inspiration_upsert_chunk rows" and ?rest = "drop inspiration_upsert_chunk rows"
    let ?call = "sync_repo e (PutPrompts n) (upsert_synced_prompts (se_db_now e (PutPrompts n)) ?chunk) lb"
    from False "1.prems"(1) obtain c lb1 where ok: "se_chunk_done e n = None" and call: "?call = (Inr c, lb1)"
      and rest: "put_rows e (n + 1) ?rest (add_counts c run) lb1 = (None, run', lb')"
      by (auto simp: put_rows.simps[of e n rows] split: option.splits prod.splits sum.splits)
    have kept: "\<forall>r \<in> set ?chunk. \<exists>p. find (\<lambda>p. pm_source_ref p = Some (sy_source_ref r)) (lb_prompts lb) = Some p \<and>
        prompt_content_of (load_category_ids ?chunk lb (sy_category_slug r)) r p = p"
    proof
      fix r assume r: "r \<in> set ?chunk"
      then have "r \<in> set rows" by (rule in_set_takeD)
      with loaded_category[OF r] "1.prems"(3,4) show "\<exists>p. find (\<lambda>p. pm_source_ref p = Some (sy_source_ref r)) (lb_prompts lb) = Some p \<and>
        prompt_content_of (load_category_ids ?chunk lb (sy_category_slug r)) r p = p" unfolding good_rows_def by simp
    qed
    from sync_repo_Inr[OF "1.prems"(2) call] skipped_rows[OF kept, of _ no_counts] have
      c: "lb1 = lb" "c = \<lparr>sn_inserted = 0, sn_updated = 0, sn_skipped = int (length ?chunk)\<rparr>"
      unfolding upsert_synced_prompts_def by (auto simp: no_counts_def[symmetric])
    have "\<forall>r \<in> set ?rest. \<exists>p. find (\<lambda>p. pm_source_ref p = Some (sy_source_ref r)) (lb_prompts lb1) = Some p \<and>
        prompt_content_of (category_id_of lb1 (sy_category_slug r)) r p = p"
      using "1.prems"(4) unfolding c(1) by (blast dest: in_set_dropD)
    from "1.IH"[OF False ok call[symmetric] refl rest "1.prems"(2) _ this] good_rows_chunk[OF "1.prems"(3)]
    have "lb' = lb1 \<and> run' = add_counts \<lparr>sn_inserted = 0, sn_updated = 0, sn_skipped = int (length ?rest)\<rparr> (add_counts c run)"
      by blast
    moreover have "int (length ?chunk) + int (length ?rest) = int (length rows)" by (metis append_take_drop_id length_append of_nat_add)
    ultimately show ?thesis unfolding c by (simp only: add_counts_plus plus_counts_def sync_counts.simps add_0)
  qed
qed

text \<open>C19: The synchronisation is idempotent. After a round that succeeded, another one that
  downloads the same snapshot and succeeds writes no prompt: the table is the same, not even
  a time of change moves, and every row is counted as skipped.\<close>

theorem sync_is_idempotent:
  assumes "sync_alone e" and "refs_once lb" and "do_sync e run lb = (None, run1, lb1)"
    and "sync_alone e'" and "do_sync e' again lb1 = (None, run2, lb2)"
    and "sync_http_client e = Inr (client, via)" and "sync_http_client e' = Inr (client', via')"
    and "fetch e client = Inr snap" and "fetch e' client' = Inr snap"
  shows "lb_prompts lb2 = lb_prompts lb1 \<and> rn_inserted run2 = rn_inserted again \<and> rn_updated run2 = rn_updated again \<and>
    rn_skipped run2 = rn_skipped again + int (length (build_sync_rows (is_prompts snap) (se_uids e') 0))"
proof -
  let ?rows = "build_sync_rows (is_prompts snap) (se_uids e) 0" and ?rows' = "build_sync_rows (is_prompts snap) (se_uids e') 0"
  from do_sync_imported[OF assms(1-3,6,8)] obtain lb0 d where i: "imported (category_id_of lb1) ?rows lb0 d lb1" by blast
  obtain lb3 where c: "ensure_categories e' 0 inspiration_categories lb1 = (None, lb3)"
    and p: "put_rows e' 0 ?rows' (again\<lparr>rn_fetched := int (length (is_prompts snap))\<rparr>) lb3 = (None, run2, lb2)"
    by (rule do_sync_done[OF assms(5,7,9)])
  note ids = ensure_categories_ids[OF c assms(4)]
  note good = snapshot_rows_good[OF assms(9), of "se_uids e'"]
  have cats: "category_id_of lb1 (sy_category_slug r) \<noteq> None" if "r \<in> set ?rows" for r
    using sync_imports_everything[OF assms(1-3,6,8) refl] that by blast
  have "\<exists>p. find (\<lambda>p. pm_source_ref p = Some (sy_source_ref r)) (lb_prompts lb3) = Some p \<and>
      prompt_content_of (category_id_of lb3 (sy_category_slug r)) r p = p" if r: "r \<in> set ?rows'" for r
  proof -
    from r have "r\<lparr>sy_uid := []\<rparr> \<in> set (map (\<lambda>r. r\<lparr>sy_uid := []\<rparr>) ?rows')" by simp
    then have "r\<lparr>sy_uid := []\<rparr> \<in> set (map (\<lambda>r. r\<lparr>sy_uid := []\<rparr>) ?rows)" using build_rows_uids by metis
    then obtain r0 where r0: "r0 \<in> set ?rows" "r0\<lparr>sy_uid := []\<rparr> = r\<lparr>sy_uid := []\<rparr>" by auto
    note same = same_but_uid[OF r0(2)]
    from i r0(1) obtain q where q: "rows_of lb1 (sy_source_ref r) = [q]" "prompt_content_of (category_id_of lb1 (sy_category_slug r)) r q = q"
      unfolding imported_def row_imported_def same[symmetric] by (metis same(3))
    have "find (\<lambda>p. pm_source_ref p = Some (sy_source_ref r)) (lb_prompts lb3) = Some q"
      using q(1) ids unfolding rows_of_def by (intro find_of_filter[of _ _ q "[]"]) simp
    moreover have "category_id_of lb3 (sy_category_slug r) = category_id_of lb1 (sy_category_slug r)"
      using cats[OF r0(1)] ids unfolding same by simp
    ultimately show ?thesis using q(2) by simp
  qed
  then have "lb2 = lb3 \<and> run2 = add_counts \<lparr>sn_inserted = 0, sn_updated = 0, sn_skipped = int (length ?rows')\<rparr>
      (again\<lparr>rn_fetched := int (length (is_prompts snap))\<rparr>)"
    using put_rows_skipped[OF p assms(4) good] by blast
  with ids show ?thesis by (simp add: add_counts_def)
qed

section \<open>The proxy\<close>

lemma ensure_categories_downloads: "ensure_categories (e\<lparr>se_do := g\<rparr>) n cs lb = ensure_categories e n cs lb"
  by (induction cs arbitrary: n lb) (simp_all add: sync_repo_def split: prod.splits sum.splits)

lemma put_rows_downloads: "put_rows (e\<lparr>se_do := g\<rparr>) n rows run lb = put_rows e n rows run lb"
proof (induction e n rows run lb rule: put_rows.induct)
  case (1 e n rows run lb)
  show ?case
    unfolding put_rows.simps[of e n rows] put_rows.simps[of "e\<lparr>se_do := g\<rparr>" n rows]
    using "1.IH" by (auto simp: sync_repo_def split: option.splits prod.splits sum.splits)
qed

lemma get_json_client:
  "g client = se_do e client \<Longrightarrow> get_json (e\<lparr>se_do := g\<rparr>) client name unmarshal = get_json e client name unmarshal"
  by (simp add: get_json_def file_url_def fetcher_base_def Let_def cong: sum.case_cong option.case_cong)

lemma fetch_files_client:
  "g client = se_do e client \<Longrightarrow>
   fetch_files (e\<lparr>se_do := g\<rparr>) client n cs merged = fetch_files e client n cs merged"
  by (induction cs arbitrary: n merged) (simp_all add: get_json_client split: option.splits sum.splits)

lemma fetch_client:
  "g client = se_do e client \<Longrightarrow> fetch (e\<lparr>se_do := g\<rparr>) client = fetch e client"
  by (simp add: fetch_def probe_def fetch_files_client get_json_client cong: sum.case_cong)

lemma http_client_downloads: "sync_http_client (e\<lparr>se_do := g\<rparr>) = sync_http_client e"
  by (simp add: sync_http_client_def proxy_url_def cong: sum.case_cong option.case_cong prod.case_cong bool.case_cong)

lemma proxied_client:
  assumes "proxy_id (se_settings e ChooseClient) = Inr (Some i)" and "sync_http_client e = Inr (client, via)"
  shows "client \<noteq> [] \<and> proxy_url e i = Inr client"
proof -
  from assms have url: "proxy_url e i = Inr client"
    by (auto simp: sync_http_client_def split: sum.splits option.splits)
  then show ?thesis by (auto simp: proxy_url_def Let_def split: option.splits prod.splits sum.splits bool.splits if_splits)
qed

text \<open>C20: A chosen proxy is never bypassed. When the settings name a proxy, what can be had over a direct
  connection makes no difference to a round, whatever happens to the proxy: a connection goes
  through the address the platform gives for the proxy. And when no such connection can be made, the
  round ends with an error and the library is as before.\<close>

theorem proxy_is_never_bypassed:
  assumes "proxy_id (se_settings e ChooseClient) = Inr (Some i)"
    and "\<forall>client. client \<noteq> [] \<longrightarrow> g client = se_do e client"
  shows "do_sync (e\<lparr>se_do := g\<rparr>) run lb = do_sync e run lb \<and>
    (\<forall>client via. sync_http_client e = Inr (client, via) \<longrightarrow> proxy_url e i = Inr client) \<and>
    (\<forall>err. sync_http_client e = Inl err \<longrightarrow> do_sync e run lb = (Some err, run, lb))"
proof -
  have same: "network_error (e\<lparr>se_do := g\<rparr>) = network_error e"
    by (simp add: network_error_def fun_eq_iff)
  have "do_sync (e\<lparr>se_do := g\<rparr>) run lb = do_sync e run lb"
  proof (cases "sync_http_client e")
    case (Inl err)
    then show ?thesis by (simp add: do_sync_def http_client_downloads)
  next
    case (Inr c)
    obtain client via where c: "c = (client, via)" by (cases c)
    from proxied_client[OF assms(1) Inr[unfolded c]] assms(2) have "fetch (e\<lparr>se_do := g\<rparr>) client = fetch e client"
      by (simp add: fetch_client)
    then show ?thesis unfolding do_sync_def http_client_downloads Inr c same
      by (simp add: ensure_categories_downloads put_rows_downloads Let_def cong: sum.case_cong option.case_cong)
  qed
  moreover have "proxy_url e i = Inr client" if "sync_http_client e = Inr (client, via)" for client via
    using proxied_client[OF assms(1) that] by simp
  ultimately show ?thesis by (auto simp: do_sync_def)
qed

section \<open>Two rounds at a time\<close>

text \<open>C21: A second round does not start while the first holds the lock. When the service is not closing, its
  repository calls succeed, nobody else writes between them, and the next id of a round is positive and
  above those in use, the caller is told that a synchronisation is in progress and no prompt or category
  is touched. One record, of the skipped attempt, is added, and the latest round, which is what the page
  shows, is the one that was the latest before.\<close>

theorem busy_sync_is_skipped:
  assumes "sync_alone e" and "\<forall>p. se_fails e p = None" and "\<not> se_closed e"
    and "lb_locked lb" and "\<forall>x \<in> set (lb_runs lb). rn_id x < lb_next_run lb" and "0 < lb_next_run lb"
  shows "fst (sync_once e kind lb) = Inl (Dk (new_error ErrCodeSyncInProgress)) \<and>
    (let lb' = snd (sync_once e kind lb)
     in lb_prompts lb' = lb_prompts lb \<and> lb_categories lb' = lb_categories lb \<and> lb_locked lb' \<and>
        length (lb_runs lb') = length (lb_runs lb) + 1 \<and> rn_status (last (lb_runs lb')) = SyncStatusSkipped \<and>
        map_sum id fst (latest_sync_run lb') = map_sum id fst (latest_sync_run lb))"
proof -
  define run where "run = \<lparr>rn_id = lb_next_run lb, rn_kind = kind, rn_status = SyncStatusSkipped, rn_started_at = se_db_now e StartSkipped,
    rn_finished_at = Some (se_now e), rn_fetched = 0, rn_inserted = 0, rn_updated = 0, rn_skipped = 0,
    rn_error = nullable_string_ptr (Some sync_skipped_message)\<rparr>"
  have old: "upd (\<lambda>x. rn_id x = lb_next_run lb) g (lb_runs lb) = lb_runs lb" for g
    using assms(5) by (intro upd_id) auto
  have "snd (sync_once e kind lb) = lb\<lparr>lb_runs := lb_runs lb @ [run], lb_next_run := lb_next_run lb + 1\<rparr>"
    using assms(1-4,6) by (simp add: sync_once_def start_sync_def sync_repo_def repo_call_def sync_alone_def try_lock_sync_def
      record_skipped_def start_sync_run_def finish_sync_run_def Let_def affected_eq_0 old run_def)
  moreover have "fst (sync_once e kind lb) = Inl (Dk (new_error ErrCodeSyncInProgress))"
    using assms(1-4) by (simp add: sync_once_def start_sync_def sync_repo_def repo_call_def sync_alone_def try_lock_sync_def)
  ultimately show ?thesis using assms(4) by (auto simp: Let_def run_def latest_sync_run_def split: list.splits)
qed

section \<open>Witnesses\<close>

definition demo_item :: upstream_item where
  "demo_item = \<lparr>ui_raw_id = ''7'', ui_title = ''Cup'', ui_content = ''cup'', ui_source_media = []\<rparr>"

definition demo_library :: library where
  "demo_library = \<lparr>lb_categories = [], lb_prompts = [], lb_runs = [], lb_locked = False, lb_next_category = 1, lb_next_prompt = 1, lb_next_run = 1\<rparr>"

definition demo_run :: sync_run where
  "demo_run = \<lparr>rn_id = 1, rn_kind = SyncKindManual, rn_status = SyncStatusRunning, rn_started_at = 0, rn_finished_at = None,
     rn_fetched = 0, rn_inserted = 0, rn_updated = 0, rn_skipped = 0, rn_error = None\<rparr>"

text \<open>The library has one prompt, in its last file; the ids that are handed out begin with a tag.\<close>

definition demo_sync :: "char \<Rightarrow> sync_env" where
  "demo_sync tag = \<lparr>se_decimals = dec_ref, se_settings = (\<lambda>_ _. Inr None), se_proxies = None, se_parse_proxy = Inr,
     se_get_client = (\<lambda>_. None), se_base_url = ''u'', se_bad_url = (\<lambda>_. None),
     se_do = (\<lambda>_ url. Inr \<lparr>hr_status = 200, hr_body = (if url = ''u/others.json'' then ''item'' else []), hr_cut = None\<rparr>),
     se_unmarshal_manifest = (\<lambda>_. Inr ''t''), se_unmarshal_items = (\<lambda>s. Inr (if s = [] then [] else [demo_item])), se_file_done = (\<lambda>_. None), se_chunk_done = (\<lambda>_. None),
     se_uids = (\<lambda>n. tag # itoa (int n)), se_closed = False, se_interval = 12 * hour, se_now = 5, se_db_now = (\<lambda>_. 5),
     se_meanwhile = (\<lambda>_ lb. lb), se_fails = (\<lambda>_. None)\<rparr>"

definition demo_snapshot :: inspiration_snapshot where
  "demo_snapshot = \<lparr>is_updated_at = ''t'',
     is_prompts = [\<lparr>up_id = 7, up_title = ''Cup'', up_content = ''cup'', up_source_media = [], up_slugs = [''others'']\<rparr>]\<rparr>"

lemma demo_sync_alone: "sync_alone (demo_sync tag)" "\<forall>p. se_fails (demo_sync tag) p = None" "\<forall>i. se_chunk_done (demo_sync tag) i = None"
  "refs_once demo_library" "\<exists>via. sync_http_client (demo_sync tag) = Inr ([], via)"
  by (simp_all add: sync_alone_def demo_sync_def refs_once_def rows_of_def demo_library_def sync_http_client_def proxy_id_def)

lemma demo_uids: "inj (se_uids (demo_sync tag))"
  by (rule injI) (auto simp: demo_sync_def dest: itoa_inject[rotated 2])

lemma demo_sync_trims: "trim_space ''t'' = ''t''" "trim_space ''u'' = ''u''" "trim_space ''7'' = ''7''"
  by (rule trim_space_plain, simp add: plain_char_def)+

lemma demo_download:
  assumes "\<And>s. f s = Inr (h s)"
  shows "get_json (demo_sync tag) [] name f = Inr (h (if name = ''others'' then ''item'' else []))"
proof -
  have "fetcher_base (demo_sync tag) = ''u''" by (simp add: fetcher_base_def demo_sync_def demo_sync_trims)
  then have "file_url (demo_sync tag) name = ''u/others.json'' \<longleftrightarrow> name = ''others''" by (auto simp: file_url_def)
  then show ?thesis by (simp add: get_json_def Let_def assms demo_sync_def max_inspiration_file_bytes_def)
qed

lemma demo_id: "upstream_id ''7'' = 7"
proof -
  have "atoi ''7'' = Some 7" by code_simp
  then show ?thesis by (simp add: upstream_id_def demo_sync_trims)
qed

lemma demo_fetch: "fetch (demo_sync tag) [] = Inr demo_snapshot"
proof -
  have "get_json (demo_sync tag) [] name (se_unmarshal_manifest (demo_sync tag)) = Inr ''t''"
    "get_json (demo_sync tag) [] name (se_unmarshal_items (demo_sync tag)) = Inr (if name = ''others'' then [demo_item] else [])" for name
    by (subst demo_download, simp add: demo_sync_def, simp)+
  moreover have "se_file_done (demo_sync tag) n = None" for n by (simp add: demo_sync_def)
  ultimately show ?thesis
    by (simp add: fetch_def probe_def demo_sync_trims inspiration_categories_def merge_item_def demo_item_def demo_id demo_snapshot_def)
qed

lemma demo_text: "fst (convert_prompt ''cup'') = ''cup''"
proof -
  have "find_arguments (runes ''cup'') [] = ([], ''cup'')" by code_simp
  moreover have "trim_space ''cup'' = ''cup''" by (rule trim_space_plain) (simp add: plain_char_def)
  ultimately show ?thesis by (simp add: convert_prompt_def)
qed

lemma demo_digit: "itoa 7 = ''7''"
  by code_simp

lemma demo_rows: "sy_source_ref ` set (build_sync_rows (is_prompts demo_snapshot) uids 0) = {''youmind:7''}"
proof -
  have "sy_source_ref ` set (build_sync_rows (is_prompts demo_snapshot) uids 0) =
      set (map sy_source_ref (build_sync_rows (is_prompts demo_snapshot) uids 0))" by simp
  also have "\<dots> = {''youmind:7''}" unfolding build_rows_refs
    by (simp add: demo_snapshot_def worth_keeping_def demo_text source_ref_of_def prompt_source_ref_prefix_def demo_digit)
  finally show ?thesis .
qed

lemma demo_connection: obtains via where "sync_http_client (demo_sync tag) = Inr ([], via)"
  using demo_sync_alone(5) by blast

lemma demo_sync_runs:
  assumes "range (se_uids (demo_sync tag)) \<inter> pm_uid ` set (lb_prompts lb) = {}"
  obtains run' lb' where "do_sync (demo_sync tag) demo_run lb = (None, run', lb')"
proof (rule demo_connection[of tag])
  fix via assume "sync_http_client (demo_sync tag) = Inr ([], via)"
  then show thesis by (rule sync_succeeds[OF demo_sync_alone(1-3) demo_uids assms _ demo_fetch]) (rule that)
qed

lemma demo_first_round:
  obtains run' lb' r p where "do_sync (demo_sync CHR ''a'') demo_run demo_library = (None, run', lb')"
    and "r \<in> set (build_sync_rows (is_prompts demo_snapshot) (se_uids (demo_sync CHR ''a'')) 0)"
    and "rows_of lb' ''youmind:7'' = [p]" and "pm_is_enabled p" and "pm_uid p = sy_uid r" and "lb_prompts lb' = [p]"
proof -
  let ?rows = "build_sync_rows (is_prompts demo_snapshot) (se_uids (demo_sync CHR ''a'')) 0"
  obtain run' lb' where run: "do_sync (demo_sync CHR ''a'') demo_run demo_library = (None, run', lb')"
    by (rule demo_sync_runs[of "CHR ''a''" demo_library]) (auto simp: demo_library_def)
  obtain via where "sync_http_client (demo_sync CHR ''a'') = Inr ([], via)" by (rule demo_connection)
  note all = sync_imports_everything[OF demo_sync_alone(1,4) run this demo_fetch refl]
  have "''youmind:7'' \<in> sy_source_ref ` set ?rows" unfolding demo_rows by simp
  then obtain r where r: "r \<in> set ?rows" "sy_source_ref r = ''youmind:7''" by (elim imageE) simp
  from all r(1) have "row_imported (category_id_of lb') demo_library lb' r" by blast
  then obtain p where p: "rows_of lb' ''youmind:7'' = [p]" "pm_is_enabled p" "pm_uid p = sy_uid r"
    unfolding row_imported_def r(2) by (auto simp: demo_library_def rows_of_def)
  from all have "other_prompts ?rows lb' = other_prompts ?rows demo_library" by blast
  moreover have "other_prompts ?rows demo_library = []" by (simp add: other_prompts_def demo_library_def)
  ultimately have "other_prompts ?rows lb' = []" by simp
  then have "rows_of lb' ''youmind:7'' = lb_prompts lb'"
    unfolding other_prompts_def demo_rows rows_of_def by (auto simp: filter_empty_conv)
  with that run r(1) p show thesis by metis
qed

text \<open>The empty library, with one prompt to fetch.\<close>

lemma sync_imports_snapshot_witness:
  "\<exists>run' lb'. do_sync (demo_sync CHR ''a'') demo_run demo_library = (None, run', lb') \<and> refs_once lb' \<and> rn_fetched run' = 1"
proof -
  obtain run' lb' where run: "do_sync (demo_sync CHR ''a'') demo_run demo_library = (None, run', lb')" by (rule demo_first_round)
  obtain via where "sync_http_client (demo_sync CHR ''a'') = Inr ([], via)" by (rule demo_connection)
  from sync_imports_snapshot[OF demo_sync_alone(1,4) run this demo_fetch refl] run show ?thesis by (simp add: demo_snapshot_def)
qed

lemma sync_is_idempotent_witness:
  "\<exists>run1 lb1 run2 lb2. do_sync (demo_sync CHR ''a'') demo_run demo_library = (None, run1, lb1) \<and> length (lb_prompts lb1) = 1 \<and>
     do_sync (demo_sync CHR ''b'') demo_run lb1 = (None, run2, lb2) \<and> lb_prompts lb2 = lb_prompts lb1"
proof -
  let ?rows = "build_sync_rows (is_prompts demo_snapshot) (se_uids (demo_sync CHR ''a'')) 0"
  obtain run1 lb1 r p where one: "do_sync (demo_sync CHR ''a'') demo_run demo_library = (None, run1, lb1)"
    and r: "r \<in> set ?rows" "pm_uid p = sy_uid r" "lb_prompts lb1 = [p]" by (rule demo_first_round)
  from r(1) have "sy_uid r \<in> set (map sy_uid ?rows)" by simp
  then obtain n where "sy_uid r = CHR ''a'' # itoa (int n)" unfolding build_rows_uid_list by (auto simp: demo_sync_def)
  with r(2,3) have "range (se_uids (demo_sync CHR ''b'')) \<inter> pm_uid ` set (lb_prompts lb1) = {}" by (auto simp: demo_sync_def)
  then obtain run2 lb2 where two: "do_sync (demo_sync CHR ''b'') demo_run lb1 = (None, run2, lb2)" by (rule demo_sync_runs)
  obtain via where "sync_http_client (demo_sync CHR ''a'') = Inr ([], via)" by (rule demo_connection)
  moreover obtain via' where "sync_http_client (demo_sync CHR ''b'') = Inr ([], via')" by (rule demo_connection)
  ultimately have "lb_prompts lb2 = lb_prompts lb1"
    using sync_is_idempotent[OF demo_sync_alone(1,4) one demo_sync_alone(1) two _ _ demo_fetch demo_fetch] by blast
  with one two r(3) show ?thesis by auto
qed

text \<open>The proxy of number 3 is there, and a direct connection would answer too.\<close>

definition demo_proxied :: sync_env where
  "demo_proxied = (demo_sync CHR ''a'')\<lparr>se_settings := (\<lambda>_ _. Inr (Some (JNumber ''3''))),
     se_proxies := Some (\<lambda>_. Inr True, \<lambda>_. Inr ''socks5h://p:1'')\<rparr>"

lemma proxy_is_never_bypassed_witness:
  "do_sync ((demo_proxied)\<lparr>se_do := (\<lambda>client. if client = [] then (\<lambda>_. Inl (Opaque ''down'')) else se_do (demo_proxied) client)\<rparr>) demo_run demo_library = do_sync (demo_proxied) demo_run demo_library"
proof -
  have "unmarshal_int (JNumber ''3'') = Some 3" by code_simp
  then have "proxy_id (se_settings (demo_proxied) ChooseClient) = Inr (Some 3)" by (simp add: proxy_id_def demo_proxied_def)
  then show ?thesis by (rule conjunct1[OF proxy_is_never_bypassed]) (simp add: demo_proxied_def demo_sync_def)
qed

lemma busy_sync_is_skipped_witness:
  "fst (sync_once (demo_sync CHR ''a'') SyncKindAuto (demo_library\<lparr>lb_locked := True\<rparr>)) = Inl (Dk (new_error ErrCodeSyncInProgress))"
  using busy_sync_is_skipped[of "demo_sync CHR ''a''" "demo_library\<lparr>lb_locked := True\<rparr>" SyncKindAuto] demo_sync_alone(1,2)
  by (simp add: demo_library_def demo_sync_def)

end
