(* ===== verification/Prompt_Library.thy ===== *)
theory Prompt_Library
  imports Prompt_Sync
begin

text \<open>
  Reading the prompt library and keeping one's own prompts: the remaining methods of
  \<open>repository/prompt\_repo.go\<close>, \<open>service/user\_prompt.go\<close>, the adapter between them and the handlers in
  \<open>module.go\<close>, and the cursors of \<open>handler/prompt\_handler.go\<close>. How the database lowers letters for
  \<open>ILIKE\<close> and the order of \<open>random()\<close> are arguments.
\<close>

section \<open>Searching\<close>

record list_prompts_query =
  pq_category_id :: "int option"
  pq_keyword :: string
  pq_source :: "prompt_source option"
  pq_owner_user_id :: "int option"
  pq_only_enabled :: bool
  pq_cursor_id :: int
  pq_limit :: int

definition like_contains :: "string \<Rightarrow> string" where
  "like_contains keyword = ''%'' @ escape_like_pattern keyword @ ''%''"

text \<open>\<open>LIKE\<close> with the backslash as its escape.\<close>

function like_match :: "string \<Rightarrow> string \<Rightarrow> bool" where
  "like_match [] s = (s = [])"
| "like_match (c # p) [] = (if c = CHR ''%'' then like_match p [] else False)"
| "like_match (c # p) (x # xs) =
     (if c = CHR ''%'' then like_match p (x # xs) \<or> like_match (c # p) xs
      else if c = CHR ''_'' then like_match p (drop (rune_size (x # xs)) (x # xs))
      else if c = CHR 0x5C then (case p of [] \<Rightarrow> False | d # p' \<Rightarrow> if x = d then like_match p' xs else False)
      else if x = c then like_match p xs else False)"
  by pat_completeness auto
termination
  by (relation "measure (\<lambda>(p, s). length p + length s)") auto

declare like_match.simps [simp del]

definition ilike :: "(string \<Rightarrow> string) \<Rightarrow> string \<Rightarrow> string \<Rightarrow> bool" where
  "ilike lower s pattern = like_match (lower pattern) (lower s)"

definition prompt_filter :: "(string \<Rightarrow> string) \<Rightarrow> list_prompts_query \<Rightarrow> bool \<Rightarrow> prompt \<Rightarrow> bool" where
  "prompt_filter lower q with_cursor p \<longleftrightarrow>
     pm_deleted_at p = None \<and>
     (case pq_category_id q of None \<Rightarrow> True | Some i \<Rightarrow> pm_category_id p = Some i) \<and>
     (let kw = trim_space (pq_keyword q)
      in kw = [] \<or> ilike lower (pm_title p) (like_contains kw) \<or> ilike lower (pm_body p) (like_contains kw)) \<and>
     (case pq_source q of None \<Rightarrow> True | Some s \<Rightarrow> pm_source p = s) \<and>
     (case pq_owner_user_id q of None \<Rightarrow> True | Some u \<Rightarrow> pm_owner_user_id p = Some u) \<and>
     (pq_only_enabled q \<longrightarrow> pm_is_enabled p) \<and>
     (with_cursor \<and> 0 < pq_cursor_id q \<longrightarrow> pq_cursor_id q < pm_id p)"

definition list_prompts :: "(string \<Rightarrow> string) \<Rightarrow> list_prompts_query \<Rightarrow> prompt list library_tx" where
  "list_prompts lower q lb =
     Inr (take (nat (clamp_limit (pq_limit q) default_page_limit max_page_limit))
       (sort_key pm_id (filter (prompt_filter lower q True) (lb_prompts lb))), lb)"

definition count_prompts :: "(string \<Rightarrow> string) \<Rightarrow> list_prompts_query \<Rightarrow> int library_tx" where
  "count_prompts lower q lb = Inr (affected (prompt_filter lower q False) (lb_prompts lb), lb)"

definition sample_prompts ::
  "(prompt list \<Rightarrow> prompt list) \<Rightarrow> (string \<Rightarrow> string) \<Rightarrow> list_prompts_query \<Rightarrow> prompt list library_tx" where
  "sample_prompts shuffle lower q lb =
     Inr (take (nat (clamp_limit (pq_limit q) default_page_limit max_page_limit))
       (shuffle (filter (prompt_filter lower q False) (lb_prompts lb))), lb)"

record prompt_digest =
  dg_id :: int
  dg_uid :: string
  dg_title :: string
  dg_brief :: string

definition prompt_digest_brief_chars :: nat where "prompt_digest_brief_chars = 200"

definition list_prompt_digests :: "int option \<Rightarrow> int \<Rightarrow> prompt_digest list library_tx" where
  "list_prompt_digests category_id limit lb =
     Inr (map (\<lambda>p. \<lparr>dg_id = pm_id p, dg_uid = pm_uid p, dg_title = pm_title p,
                    dg_brief = concat (take prompt_digest_brief_chars (runes (pm_body p)))\<rparr>)
       (take (nat (if limit \<le> 0 then 5000 else limit))
         (sort_key pm_id (filter (\<lambda>p. pm_deleted_at p = None \<and> pm_is_enabled p \<and>
            (case category_id of None \<Rightarrow> True | Some i \<Rightarrow> pm_category_id p = Some i)) (lb_prompts lb)))), lb)"

definition count_prompts_by_category :: "bool \<Rightarrow> (int \<Rightarrow> int) library_tx" where
  "count_prompts_by_category only_enabled lb =
     Inr (\<lambda>key. affected (\<lambda>p. pm_deleted_at p = None \<and> (only_enabled \<longrightarrow> pm_is_enabled p) \<and>
            (case pm_category_id p of None \<Rightarrow> 0 | Some i \<Rightarrow> i) = key) (lb_prompts lb), lb)"

definition list_categories :: "prompt_category list library_tx" where
  "list_categories lb = Inr (sort_key (\<lambda>c. (pc_sort_order c, pc_id c)) (lb_categories lb), lb)"

definition get_prompt_by_uid :: "string \<Rightarrow> prompt library_tx" where
  "get_prompt_by_uid uid lb =
     (case find (\<lambda>p. pm_uid p = uid \<and> pm_deleted_at p = None) (lb_prompts lb) of
        None \<Rightarrow> Inl (not_found_err noun_prompt) | Some p \<Rightarrow> Inr (p, lb))"

definition wrapped_not_found :: "string \<Rightarrow> go_error" where
  "wrapped_not_found msg = Wrapped (msg @ '': '' @ sentinel_text ErrNotFound) (Sentinel ErrNotFound)"

fun pick_prompts :: "prompt list \<Rightarrow> int list \<Rightarrow> go_error + prompt list" where
  "pick_prompts rows [] = Inr []"
| "pick_prompts rows (i # is) =
     (case find (\<lambda>p. pm_id p = i) rows of
        None \<Rightarrow> Inl (wrapped_not_found (''designkit: '' @ noun_prompt @ '' '' @ itoa i @ (bytes [32, 228, 184, 141, 229, 173, 152, 229, 156, 168, 230, 136, 150, 229, 183, 178, 229, 136,
      160, 233, 153, 164])))
      | Some p \<Rightarrow> (case pick_prompts rows is of Inl e \<Rightarrow> Inl e | Inr rest \<Rightarrow> Inr (p # rest)))"

definition get_prompts_by_ids :: "int list \<Rightarrow> prompt list library_tx" where
  "get_prompts_by_ids ids lb =
     (case pick_prompts (filter (\<lambda>p. pm_deleted_at p = None) (lb_prompts lb)) ids of
        Inl e \<Rightarrow> Inl e | Inr ps \<Rightarrow> Inr (ps, lb))"

section \<open>One's own prompts\<close>

text \<open>The primary key and the times are the database's; the caller names the source.\<close>

definition create_prompt :: "time \<Rightarrow> prompt \<Rightarrow> prompt library_tx" where
  "create_prompt now p lb =
     (if pm_source p = PromptSourceUser \<and> pm_owner_user_id p = None then
        Inl (Dk (with_message (new_error ErrCodeInvalidRequest) (bytes [232, 135, 170, 229, 183, 177, 229, 173, 152, 231, 154, 132, 230, 143, 144, 231, 164, 186,
      232, 175, 141, 229, 191, 133, 233, 161, 187, 230, 156, 137, 229, 189, 146, 229, 177, 158,
      228, 186, 186, 227, 128, 130])))
      else
        (let row = p\<lparr>pm_id := lb_next_prompt lb, pm_source_ref := nullable_string_ptr (pm_source_ref p),
                     pm_created_at := now, pm_updated_at := now, pm_deleted_at := None\<rparr>
         in if \<exists>x \<in> set (lb_prompts lb). pm_uid x = pm_uid row \<or> pm_source_ref row \<noteq> None \<and> pm_source_ref x = pm_source_ref row
            then Inl (unique_violation noun_prompt)
            else Inr (row, lb\<lparr>lb_prompts := lb_prompts lb @ [row], lb_next_prompt := lb_next_prompt lb + 1\<rparr>)))"

definition update_prompt :: "time \<Rightarrow> prompt \<Rightarrow> prompt library_tx" where
  "update_prompt now p lb =
     (if trim_space (pm_uid p) = [] then Inl (wrapped_not_found (bytes [100, 101, 115, 105, 103, 110, 107, 105, 116, 58, 32, 230, 143, 144, 231, 164, 186, 232,
      175, 141, 231, 188, 186, 229, 176, 145, 231, 188, 150, 229, 143, 183]))
      else
        (let hit = (\<lambda>x. pm_uid x = pm_uid p \<and> pm_deleted_at x = None \<and>
                        (case pm_owner_user_id p of None \<Rightarrow> True | Some u \<Rightarrow> pm_owner_user_id x = Some u));
             put = (\<lambda>x. x\<lparr>pm_category_id := pm_category_id p, pm_title := pm_title p, pm_body := pm_body p,
                            pm_variables := pm_variables p, pm_preview_url := pm_preview_url p,
                            pm_is_enabled := pm_is_enabled p, pm_updated_at := now\<rparr>)
         in case find hit (lb_prompts lb) of
              None \<Rightarrow> Inl (not_found_err noun_prompt)
            | Some x \<Rightarrow> Inr (put x, lb\<lparr>lb_prompts := upd hit put (lb_prompts lb)\<rparr>)))"

definition delete_prompt :: "time \<Rightarrow> int \<Rightarrow> string \<Rightarrow> unit library_tx" where
  "delete_prompt now owner uid lb =
     (let hit = (\<lambda>x. pm_uid x = uid \<and> pm_owner_user_id x = Some owner \<and> pm_deleted_at x = None)
      in if affected hit (lb_prompts lb) = 0 then Inl (not_found_err noun_prompt)
         else Inr ((), lb\<lparr>lb_prompts := upd hit (\<lambda>x. x\<lparr>pm_deleted_at := Some now, pm_updated_at := now\<rparr>) (lb_prompts lb)\<rparr>))"

definition max_user_prompts_per_user :: int where "max_user_prompts_per_user = 200"
definition max_user_prompt_title_runes :: int where "max_user_prompt_title_runes = 100"
definition max_user_prompt_body_runes :: int where "max_user_prompt_body_runes = 5000"

text \<open>The repository calls of a request, what others do before each, and which fail.\<close>

datatype my_call = CountMine | CreateMine | LoadMine | WriteMine | ReadCategories | ReadPrompts | CountPrompts

record my_env =
  my_now :: time
  my_uid :: string
  my_lower :: "string \<Rightarrow> string"
  my_meanwhile :: "my_call \<Rightarrow> library \<Rightarrow> library"
  my_fails :: "my_call \<Rightarrow> go_error option"

definition my_repo :: "my_env \<Rightarrow> my_call \<Rightarrow> 'a library_tx \<Rightarrow> library \<Rightarrow> (go_error + 'a) \<times> library" where
  "my_repo e p f lb = repo_call (my_meanwhile e) (my_fails e) p f lb"

definition normalize_user_prompt_fields :: "string \<Rightarrow> string \<Rightarrow> go_error + string \<times> string" where
  "normalize_user_prompt_fields title body =
     (let title = trim_space title; body = trim_space body;
          invalid = (\<lambda>msg. Inl (Dk (with_message (new_error ErrCodeInvalidRequest) msg)))
      in if max_user_prompt_title_runes < int (length (runes title)) then
           invalid ((bytes [230, 160, 135, 233, 162, 152, 230, 156, 128, 229, 164, 154, 32]) @ itoa max_user_prompt_title_runes @ (bytes [32, 228, 184, 170, 229, 173, 151, 227, 128, 130]))
         else if body = [] then invalid (bytes [230, 143, 144, 231, 164, 186, 232, 175, 141, 230, 173, 163, 230, 150, 135, 228, 184, 141,
      232, 131, 189, 228, 184, 186, 231, 169, 186, 227, 128, 130])
         else if max_user_prompt_body_runes < int (length (runes body)) then
           invalid ((bytes [230, 143, 144, 231, 164, 186, 232, 175, 141, 230, 173, 163, 230, 150, 135, 230, 156, 128,
      229, 164, 154, 32]) @ itoa max_user_prompt_body_runes @ (bytes [32, 228, 184, 170, 229, 173, 151, 227, 128, 130]))
         else Inr (title, body))"

definition my_prompts_query :: "int \<Rightarrow> list_prompts_query" where
  "my_prompts_query user_id =
     \<lparr>pq_category_id = None, pq_keyword = [], pq_source = Some PromptSourceUser, pq_owner_user_id = Some user_id,
      pq_only_enabled = False, pq_cursor_id = 0, pq_limit = 0\<rparr>"

definition new_user_prompt :: "my_env \<Rightarrow> int \<Rightarrow> string \<Rightarrow> string \<Rightarrow> prompt" where
  "new_user_prompt e user_id title body =
     \<lparr>pm_id = 0, pm_uid = my_uid e, pm_category_id = None, pm_title = title, pm_body = body, pm_variables = [],
      pm_preview_url = None, pm_source = PromptSourceUser, pm_source_ref = None, pm_owner_user_id = Some user_id,
      pm_is_enabled = True, pm_created_at = zero_time, pm_updated_at = zero_time, pm_deleted_at = None\<rparr>"

definition create_my_prompt :: "my_env \<Rightarrow> int \<Rightarrow> string \<Rightarrow> string \<Rightarrow> library \<Rightarrow> (go_error + prompt) \<times> library" where
  "create_my_prompt e user_id title body lb =
     (if user_id \<le> 0 then (Inl (Dk (new_error ErrCodeUnauthorized)), lb)
      else case normalize_user_prompt_fields title body of
        Inl err \<Rightarrow> (Inl err, lb)
      | Inr (title, body) \<Rightarrow>
          (case my_repo e CountMine (count_prompts (my_lower e) (my_prompts_query user_id)) lb of
             (Inl err, lb1) \<Rightarrow> (Inl err, lb1)
           | (Inr n, lb1) \<Rightarrow>
               if max_user_prompts_per_user \<le> n then
                 (Inl (Dk (with_message (new_error ErrCodeInvalidRequest)
                    ((bytes [230, 156, 128, 229, 164, 154, 228, 191, 157, 229, 173, 152, 32]) @ itoa max_user_prompts_per_user @ (bytes [32, 230, 157, 161, 239, 188, 140, 229, 136, 160, 229, 135, 160, 230, 157, 161, 229, 134,
      141, 229, 173, 152, 227, 128, 130])))), lb1)
               else my_repo e CreateMine (create_prompt (my_now e) (new_user_prompt e user_id title body)) lb1))"

definition load_own_prompt :: "my_env \<Rightarrow> int \<Rightarrow> string \<Rightarrow> string \<Rightarrow> library \<Rightarrow> (go_error + prompt) \<times> library" where
  "load_own_prompt e user_id uid action lb =
     (if user_id \<le> 0 then (Inl (Dk (new_error ErrCodeUnauthorized)), lb)
      else
        (let uid = trim_space uid
         in if uid = [] then (Inl (wrapped_not_found (bytes [100, 101, 115, 105, 103, 110, 107, 105, 116, 58, 32, 230, 143, 144, 231, 164, 186, 232,
      175, 141, 231, 188, 186, 229, 176, 145, 231, 188, 150, 229, 143, 183])), lb)
            else case my_repo e LoadMine (get_prompt_by_uid uid) lb of
              (Inl err, lb1) \<Rightarrow> (Inl err, lb1)
            | (Inr p, lb1) \<Rightarrow>
                if pm_source p \<noteq> PromptSourceUser then
                  (Inl (Dk (with_message (new_error ErrCodeInvalidRequest)
                     ((bytes [231, 129, 181, 230, 132, 159, 229, 186, 147, 231, 154, 132, 230, 143, 144, 231, 164, 186,
      232, 175, 141, 228, 184, 141, 232, 131, 189]) @ action @ (bytes [227, 128, 130, 232, 166, 129, 230, 148, 185, 229, 134, 133, 229, 174, 185, 239, 188, 140,
      229, 133, 136, 227, 128, 140, 229, 173, 152, 228, 184, 186, 230, 136, 145, 231, 154, 132,
      230, 143, 144, 231, 164, 186, 232, 175, 141, 227, 128, 141, 229, 134, 141, 230, 148, 185,
      227, 128, 130])))), lb1)
                else if pm_owner_user_id p \<noteq> Some user_id then
                  (Inl (wrapped_not_found ((bytes [100, 101, 115, 105, 103, 110, 107, 105, 116, 58, 32, 230, 143, 144, 231, 164, 186, 232,
      175, 141, 32]) @ uid @ (bytes [32, 228, 184, 141, 229, 177, 158, 228, 186, 142, 231, 148, 168, 230, 136, 183, 32]) @ itoa user_id)), lb1)
                else (Inr p, lb1)))"

definition update_my_prompt ::
  "my_env \<Rightarrow> int \<Rightarrow> string \<Rightarrow> string \<Rightarrow> string \<Rightarrow> library \<Rightarrow> (go_error + prompt) \<times> library" where
  "update_my_prompt e user_id uid title body lb =
     (case load_own_prompt e user_id uid (bytes [228, 191, 174, 230, 148, 185]) lb of
        (Inl err, lb1) \<Rightarrow> (Inl err, lb1)
      | (Inr p, lb1) \<Rightarrow>
          (case normalize_user_prompt_fields title body of
             Inl err \<Rightarrow> (Inl err, lb1)
           | Inr (title, body) \<Rightarrow>
               my_repo e WriteMine (update_prompt (my_now e) (p\<lparr>pm_title := title, pm_body := body\<rparr>)) lb1))"

definition delete_my_prompt :: "my_env \<Rightarrow> int \<Rightarrow> string \<Rightarrow> library \<Rightarrow> (go_error + unit) \<times> library" where
  "delete_my_prompt e user_id uid lb =
     (case load_own_prompt e user_id uid (bytes [229, 136, 160, 233, 153, 164]) lb of
        (Inl err, lb1) \<Rightarrow> (Inl err, lb1)
      | (Inr _, lb1) \<Rightarrow> my_repo e WriteMine (delete_prompt (my_now e) user_id uid) lb1)"

section \<open>The adapter of the handlers\<close>

text \<open>\<open>loadCategories\<close> builds its maps from the list, so a later row of a key wins.\<close>

definition category_by_slug :: "prompt_category list \<Rightarrow> string \<Rightarrow> prompt_category option" where
  "category_by_slug cats slug = find (\<lambda>c. pc_slug c = slug) (rev cats)"

definition category_by_id :: "prompt_category list \<Rightarrow> int \<Rightarrow> prompt_category option" where
  "category_by_id cats i = find (\<lambda>c. pc_id c = i) (rev cats)"

definition list_category_views :: "my_env \<Rightarrow> library \<Rightarrow> (go_error + (prompt_category \<times> int) list) \<times> library" where
  "list_category_views e lb =
     (case my_repo e ReadCategories list_categories lb of
        (Inl err, lb1) \<Rightarrow> (Inl err, lb1)
      | (Inr cats, lb1) \<Rightarrow>
          (case my_repo e CountPrompts (count_prompts_by_category True) lb1 of
             (Inl err, lb2) \<Rightarrow> (Inl err, lb2)
           | (Inr counts, lb2) \<Rightarrow> (Inr (map (\<lambda>c. (c, counts (pc_id c))) cats), lb2)))"

definition prompt_probe_limit :: "int \<Rightarrow> int \<times> int" where
  "prompt_probe_limit limit =
     (let a = (if limit \<le> 0 then default_page_limit else limit);
          b = (if max_page_limit \<le> a then max_page_limit - 1 else a)
      in (b, b + 1))"

record list_prompts_input =
  pi_category_slug :: string
  pi_source :: string
  pi_viewer_user_id :: int
  pi_keyword :: string
  pi_cursor_id :: int
  pi_limit :: int

definition list_prompt_source_mine :: string where "list_prompt_source_mine = ''user''"

record prompt_view =
  pv_prompt :: prompt
  pv_category_slug :: string
  pv_category_name :: string

record prompt_page =
  pp_items :: "prompt_view list"
  pp_total :: int
  pp_has_more :: bool
  pp_next_cursor_id :: int

definition new_prompt_view :: "prompt_category list \<Rightarrow> prompt \<Rightarrow> prompt_view" where
  "new_prompt_view cats p =
     (case Option.bind (pm_category_id p) (category_by_id cats) of
        None \<Rightarrow> \<lparr>pv_prompt = p, pv_category_slug = [], pv_category_name = []\<rparr>
      | Some c \<Rightarrow>
          \<lparr>pv_prompt = p, pv_category_slug = pc_slug c,
           pv_category_name = (if pc_name_zh c \<noteq> [] then pc_name_zh c else if pc_name_en c \<noteq> [] then pc_name_en c else pc_slug c)\<rparr>)"

definition browse_query :: "prompt_category list \<Rightarrow> list_prompts_input \<Rightarrow> go_error + list_prompts_query option" where
  "browse_query cats i =
     (let base = \<lparr>pq_category_id = None, pq_keyword = pi_keyword i, pq_source = None, pq_owner_user_id = None,
                  pq_only_enabled = True, pq_cursor_id = pi_cursor_id i, pq_limit = snd (prompt_probe_limit (pi_limit i))\<rparr>;
          placed = (\<lambda>q. if pi_category_slug i = [] then Inr (Some q)
                        else case category_by_slug cats (pi_category_slug i) of
                               None \<Rightarrow> Inr None | Some c \<Rightarrow> Inr (Some (q\<lparr>pq_category_id := Some (pc_id c)\<rparr>)))
      in if pi_source i = list_prompt_source_mine then
           (if pi_viewer_user_id i \<le> 0 then Inl (Dk (new_error ErrCodeUnauthorized))
            else placed (base\<lparr>pq_source := Some PromptSourceUser, pq_owner_user_id := Some (pi_viewer_user_id i)\<rparr>))
         else placed (base\<lparr>pq_source := Some PromptSourceYouMind\<rparr>))"

definition browse_prompts :: "my_env \<Rightarrow> list_prompts_input \<Rightarrow> library \<Rightarrow> (go_error + prompt_page) \<times> library" where
  "browse_prompts e i lb =
     (case my_repo e ReadCategories list_categories lb of
        (Inl err, lb1) \<Rightarrow> (Inl err, lb1)
      | (Inr cats, lb1) \<Rightarrow>
          (case browse_query cats i of
             Inl err \<Rightarrow> (Inl err, lb1)
           | Inr None \<Rightarrow> (Inr \<lparr>pp_items = [], pp_total = 0, pp_has_more = False, pp_next_cursor_id = 0\<rparr>, lb1)
           | Inr (Some q) \<Rightarrow>
               (case my_repo e ReadPrompts (list_prompts (my_lower e) q) lb1 of
                  (Inl err, lb2) \<Rightarrow> (Inl err, lb2)
                | (Inr rows, lb2) \<Rightarrow>
                    (let size = nat (fst (prompt_probe_limit (pi_limit i)));
                         more = size < length rows; shown = (if more then take size rows else rows)
                     in case my_repo e CountPrompts (count_prompts (my_lower e) q) lb2 of
                          (Inl err, lb3) \<Rightarrow> (Inl err, lb3)
                        | (Inr all, lb3) \<Rightarrow>
                            (Inr \<lparr>pp_items = map (new_prompt_view cats) shown, pp_total = all, pp_has_more = more,
                                  pp_next_cursor_id = (if more \<and> shown \<noteq> [] then pm_id (last shown) else 0)\<rparr>, lb3)))))"

definition view_prompt :: "my_env \<Rightarrow> int \<Rightarrow> string \<Rightarrow> library \<Rightarrow> (go_error + prompt_view) \<times> library" where
  "view_prompt e viewer uid lb =
     (case my_repo e LoadMine (get_prompt_by_uid uid) lb of
        (Inl err, lb1) \<Rightarrow> (Inl err, lb1)
      | (Inr p, lb1) \<Rightarrow>
          if pm_source p = PromptSourceUser \<and> pm_owner_user_id p \<noteq> Some viewer then
            (Inl (wrapped_not_found ((bytes [100, 101, 115, 105, 103, 110, 107, 105, 116, 58, 32, 230, 143, 144, 231, 164, 186, 232,
      175, 141, 32]) @ uid @ (bytes [32, 228, 184, 141, 229, 177, 158, 228, 186, 142, 231, 148, 168, 230, 136, 183, 32]) @ itoa viewer)), lb1)
          else
            (case my_repo e ReadCategories list_categories lb1 of
               (Inl err, lb2) \<Rightarrow> (Inl err, lb2)
             | (Inr cats, lb2) \<Rightarrow> (Inr (new_prompt_view cats p), lb2)))"

end
