(* ===== verification/Prompt_Library_Guarantees.thy ===== *)
theory Prompt_Library_Guarantees
  imports Prompt_Library
begin

text \<open>
  What the prompt library promises its readers and writers: a search finds what contains the
  keyword, following the pages shows every match once, and nobody reads or changes the own
  prompts of another user, whatever requests and synchronisations run in between.
\<close>

section \<open>The keyword of a search\<close>

lemma char_of_backslash: "char_of (92 :: nat) = CHR 0x5C"
  by code_simp

lemma like_match_literal: "like_match (escape_like_pattern k @ p) s \<longleftrightarrow> (\<exists>r. s = k @ r \<and> like_match p r)"
proof (induction k arbitrary: s)
  case (Cons c k)
  show ?case
  proof (cases s)
    case Nil
    then show ?thesis by (auto simp: like_match.simps char_of_backslash)
  next
    case (Cons x xs)
    then show ?thesis using Cons.IH[of xs] by (auto simp: like_match.simps char_of_backslash)
  qed
qed simp

lemma like_match_any: "like_match ''%'' s"
  by (induction s) (simp_all add: like_match.simps)

lemma like_match_from: "like_match (CHR ''%'' # p) s \<longleftrightarrow> (\<exists>a r. s = a @ r \<and> like_match p r)"
proof (induction s)
  case Nil
  then show ?case by (simp add: like_match.simps)
next
  case (Cons x xs)
  have "like_match (CHR ''%'' # p) (x # xs) \<longleftrightarrow> like_match p (x # xs) \<or> (\<exists>a r. xs = a @ r \<and> like_match p r)"
    using Cons by (simp add: like_match.simps)
  also have "\<dots> \<longleftrightarrow> (\<exists>a r. x # xs = a @ r \<and> like_match p r)"
    by (metis append_Cons append_Nil append_eq_Cons_conv)
  finally show ?case .
qed

text \<open>The wild cards of a keyword are letters like any other: the pattern matches what contains the keyword.\<close>

lemma like_contains_iff: "like_match (like_contains k) s \<longleftrightarrow> contains s k"
proof -
  have "like_match (like_contains k) s \<longleftrightarrow> (\<exists>a r. s = a @ r \<and> like_match (escape_like_pattern k @ ''%'') r)"
    unfolding like_contains_def by (simp add: like_match_from)
  also have "\<dots> \<longleftrightarrow> (\<exists>a b. s = a @ k @ b)" by (auto simp: like_match_literal like_match_any)
  finally show ?thesis by (simp add: contains_iff)
qed

section \<open>The steps of the library\<close>

text \<open>
  Everything that writes the tables, one transaction each: the users' requests, the repository calls of a
  synchronisation, and its lock.
\<close>

inductive library_step :: "library \<Rightarrow> library \<Rightarrow> bool" where
  create: "create_prompt now (new_user_prompt e u title body) lb = Inr (p, lb') \<Longrightarrow> library_step lb lb'"
| update: "pm_source p = PromptSourceUser \<Longrightarrow> pm_category_id p = None \<Longrightarrow> pm_owner_user_id p = Some u \<Longrightarrow>
    update_prompt now p lb = Inr (p', lb') \<Longrightarrow> library_step lb lb'"
| delete: "delete_prompt now u uid lb = Inr (x, lb') \<Longrightarrow> library_step lb lb'"
| category: "upsert_category now c lb = Inr (c', lb') \<Longrightarrow> library_step lb lb'"
| import_rows: "upsert_synced_prompts now rows lb = Inr (n, lb') \<Longrightarrow> library_step lb lb'"
| lock: "try_lock_sync lb = Inr (b, lb') \<Longrightarrow> library_step lb lb'"
| unlock: "library_step lb (unlock_sync lb)"
| start: "start_sync_run now kind lb = Inr (run, lb') \<Longrightarrow> library_step lb lb'"
| finish: "finish_sync_run run lb = Inr (y, lb') \<Longrightarrow> library_step lb lb'"

abbreviation library_steps :: "library \<Rightarrow> library \<Rightarrow> bool" where
  "library_steps \<equiv> library_step\<^sup>*\<^sup>*"

definition empty_library :: library where
  "empty_library = \<lparr>lb_categories = [], lb_prompts = [], lb_runs = [], lb_locked = False,
     lb_next_category = 1, lb_next_prompt = 1, lb_next_run = 1\<rparr>"

text \<open>An own prompt has an owner, no category and no reference; a shared one has a reference and no owner.\<close>

definition prompt_ok :: "prompt \<Rightarrow> bool" where
  "prompt_ok p \<longleftrightarrow>
     (case pm_source p of
        PromptSourceUser \<Rightarrow> pm_owner_user_id p \<noteq> None \<and> pm_category_id p = None \<and> pm_source_ref p = None
      | PromptSourceYouMind \<Rightarrow> pm_owner_user_id p = None \<and> pm_source_ref p \<noteq> None)"

definition prompts_ok :: "library \<Rightarrow> bool" where
  "prompts_ok lb \<longleftrightarrow> (\<forall>p \<in> set (lb_prompts lb). prompt_ok p \<and> 0 < pm_id p \<and> pm_id p < lb_next_prompt lb) \<and>
     distinct (map pm_id (lb_prompts lb)) \<and> 0 < lb_next_prompt lb"

lemma prompts_ok_frame:
  "lb_prompts lb' = lb_prompts lb \<Longrightarrow> lb_next_prompt lb' = lb_next_prompt lb \<Longrightarrow> prompts_ok lb' = prompts_ok lb"
  by (simp add: prompts_ok_def)

lemma prompts_ok_append:
  assumes "prompts_ok lb" and "prompt_ok p" and "pm_id p = lb_next_prompt lb"
    and "lb_prompts lb' = lb_prompts lb @ [p]" and "lb_next_prompt lb' = lb_next_prompt lb + 1"
  shows "prompts_ok lb'"
  using assms by (auto simp: prompts_ok_def)

lemma prompts_ok_upd:
  assumes "prompts_ok lb" and "lb_prompts lb' = upd P f (lb_prompts lb)" and "lb_next_prompt lb' = lb_next_prompt lb"
    and "\<And>p. pm_id (f p) = pm_id p" and "\<And>p. p \<in> set (lb_prompts lb) \<Longrightarrow> P p \<Longrightarrow> prompt_ok p \<Longrightarrow> prompt_ok (f p)"
  shows "prompts_ok lb'"
  using assms by (auto simp: prompts_ok_def map_upd ball_upd)

lemma upsert_synced_prompt_ok: "upsert_synced_prompt now k r lb = Inr (u, lb') \<Longrightarrow> prompts_ok lb \<Longrightarrow> prompts_ok lb'"
proof (cases "find (\<lambda>p. pm_source_ref p = Some (sy_source_ref r)) (lb_prompts lb)")
  case None
  assume a: "upsert_synced_prompt now k r lb = Inr (u, lb')" "prompts_ok lb"
  with None show ?thesis
    by (auto simp: upsert_synced_prompt_def prompt_ok_def split: if_splits intro!: prompts_ok_append[OF a(2)])
next
  case (Some p)
  assume a: "upsert_synced_prompt now k r lb = Inr (u, lb')" "prompts_ok lb"
  let ?f = "\<lambda>q. (prompt_content_of k r q)\<lparr>pm_updated_at := now\<rparr>"
  from a(1) Some consider "lb' = lb" |
    "lb' = lb\<lparr>lb_prompts := upd (\<lambda>q. pm_source_ref q = Some (sy_source_ref r)) ?f (lb_prompts lb)\<rparr>"
    by (auto simp: upsert_synced_prompt_def split: if_splits)
  then show ?thesis
  proof cases
    case 2
    show ?thesis
      by (rule prompts_ok_upd[OF a(2), of lb' "\<lambda>q. pm_source_ref q = Some (sy_source_ref r)" ?f])
         (auto simp: 2 prompt_content_of_def prompt_ok_def split: prompt_source.splits)
  qed (simp add: a(2))
qed

lemma upsert_rows_ok: "upsert_rows now K rows c lb = Inr (c', lb') \<Longrightarrow> prompts_ok lb \<Longrightarrow> prompts_ok lb'"
  by (induction rows arbitrary: c lb) (auto split: if_splits sum.splits dest: upsert_synced_prompt_ok)

lemma library_step_ok: "library_step lb lb' \<Longrightarrow> prompts_ok lb \<Longrightarrow> prompts_ok lb'"
proof (induction rule: library_step.induct)
  case (create now e u title body lb p lb')
  then show ?case
    by (auto simp: create_prompt_def new_user_prompt_def Let_def nullable_string_ptr_def trimmed_ptr_def prompt_ok_def
      split: if_splits intro!: prompts_ok_append[OF create(2)])
next
  case (update p u now lb p' lb')
  let ?hit = "\<lambda>x. pm_uid x = pm_uid p \<and> pm_deleted_at x = None \<and> pm_owner_user_id x = Some u"
  let ?wr = "\<lambda>x. x\<lparr>pm_category_id := pm_category_id p, pm_title := pm_title p, pm_body := pm_body p,
     pm_variables := pm_variables p, pm_preview_url := pm_preview_url p, pm_is_enabled := pm_is_enabled p, pm_updated_at := now\<rparr>"
  from update(3,4) have "lb' = lb\<lparr>lb_prompts := upd ?hit ?wr (lb_prompts lb)\<rparr>"
    by (auto simp: update_prompt_def Let_def split: if_splits option.splits)
  then show ?case using update(2,5)
    by (intro prompts_ok_upd[of lb lb' ?hit ?wr]) (auto simp: prompt_ok_def split: prompt_source.splits)
next
  case (delete now u uid lb x lb')
  then show ?case
    by (auto simp: delete_prompt_def Let_def prompt_ok_def split: if_splits prompt_source.splits intro!: prompts_ok_upd[OF delete(2)])
next
  case (category now c lb c' lb')
  then show ?case
    by (auto simp: upsert_category_def Let_def prompts_ok_def split: if_splits option.splits)
next
  case (import_rows now rows lb n lb')
  then show ?case unfolding upsert_synced_prompts_def by (rule upsert_rows_ok)
next
  case (finish run lb y lb')
  then show ?case by (auto simp: finish_sync_run_def prompts_ok_def split: if_splits)
qed (auto simp: try_lock_sync_def unlock_sync_def start_sync_run_def Let_def prompts_ok_def split: if_splits)

lemma library_steps_ok: "library_steps lb lb' \<Longrightarrow> prompts_ok lb \<Longrightarrow> prompts_ok lb'"
  by (induction rule: rtranclp_induct) (auto dest: library_step_ok)

lemma reachable_prompts_ok: "library_steps empty_library lb \<Longrightarrow> prompts_ok lb"
  by (erule library_steps_ok) (simp add: prompts_ok_def empty_library_def)

section \<open>Privacy\<close>

definition visible_to :: "int \<Rightarrow> prompt \<Rightarrow> bool" where
  "visible_to u p \<longleftrightarrow> pm_source p = PromptSourceYouMind \<or> pm_owner_user_id p = Some u"

definition shared_among :: "my_env \<Rightarrow> bool" where
  "shared_among e \<longleftrightarrow> (\<forall>p lb. library_steps lb (my_meanwhile e p lb))"

lemma my_repo_Inr: "my_repo e p f lb = (Inr a, lb') \<Longrightarrow> f (my_meanwhile e p lb) = Inr (a, lb')"
  by (auto simp: my_repo_def repo_call_def Let_def split: option.splits sum.splits)

interpretation library_runs: run_relation library_steps
  by unfold_locales auto

lemma my_repo_steps:
  assumes "shared_among e" and "my_repo e p f lb = (r, lb')" and "\<And>d a d'. f d = Inr (a, d') \<Longrightarrow> library_steps d d'"
  shows "library_steps lb lb'"
proof (rule library_runs.call_related[OF _ assms(2)[unfolded my_repo_def] assms(3)])
  show "library_steps d (my_meanwhile e p d)" for p d using assms(1) unfolding shared_among_def by blast
qed

lemma browse_query_shape:
  assumes "browse_query cats i = Inr (Some q)"
  shows "(pq_source q = Some PromptSourceYouMind \<or> pq_source q = Some PromptSourceUser \<and> pq_owner_user_id q = Some (pi_viewer_user_id i)) \<and>
    pq_only_enabled q"
  using assms by (auto simp: browse_query_def Let_def split: if_splits option.splits)

lemma pv_prompt_view [simp]: "pv_prompt (new_prompt_view cats p) = p"
  by (simp add: new_prompt_view_def split: option.splits)

lemma browse_prompts_visible:
  assumes "fst (browse_prompts e i lb) = Inr page" and "v \<in> set (pp_items page)"
  shows "visible_to (pi_viewer_user_id i) (pv_prompt v) \<and> pm_is_enabled (pv_prompt v)"
proof -
  obtain rc lb1 where c: "my_repo e ReadCategories list_categories lb = (rc, lb1)" by (cases "my_repo e ReadCategories list_categories lb")
  from assms(1) c obtain cats where cats: "rc = Inr cats" by (cases rc) (auto simp: browse_prompts_def)
  show ?thesis
  proof (cases "browse_query cats i")
    case (Inl err)
    with assms c cats show ?thesis by (simp add: browse_prompts_def)
  next
    case (Inr oq)
    show ?thesis
    proof (cases oq)
      case None
      with assms c cats Inr show ?thesis by (auto simp: browse_prompts_def)
    next
      case (Some q)
      obtain rr lb2 where r: "my_repo e ReadPrompts (list_prompts (my_lower e) q) lb1 = (rr, lb2)"
        by (cases "my_repo e ReadPrompts (list_prompts (my_lower e) q) lb1")
      from assms(1) c cats Inr Some r obtain rows where rows: "rr = Inr rows" by (cases rr) (auto simp: browse_prompts_def)
      obtain rn lb3 where n: "my_repo e CountPrompts (count_prompts (my_lower e) q) lb2 = (rn, lb3)"
        by (cases "my_repo e CountPrompts (count_prompts (my_lower e) q) lb2")
      from assms(1) c cats Inr Some r rows n obtain all where all: "rn = Inr all" by (cases rn) (simp_all add: browse_prompts_def Let_def)
      let ?size = "nat (fst (prompt_probe_limit (pi_limit i)))"
      from assms(1) c cats Inr Some r rows n all
      have "pp_items page = map (new_prompt_view cats) (if ?size < length rows then take ?size rows else rows)"
        by (auto simp: browse_prompts_def Let_def)
      moreover have "set (if ?size < length rows then take ?size rows else rows) \<subseteq> set rows" by (simp add: set_take_subset)
      ultimately have "set (pp_items page) \<subseteq> new_prompt_view cats ` set rows" by (simp only: set_map image_mono)
      with assms(2) have "pv_prompt v \<in> set rows" by auto
      moreover from my_repo_Inr[OF r[unfolded rows]] have "set rows \<subseteq> {p. prompt_filter (my_lower e) q True p}"
        by (auto simp: list_prompts_def dest!: in_set_takeD)
      ultimately have "prompt_filter (my_lower e) q True (pv_prompt v)" by blast
      then have "(case pq_source q of None \<Rightarrow> True | Some s \<Rightarrow> pm_source (pv_prompt v) = s)"
        "(case pq_owner_user_id q of None \<Rightarrow> True | Some u \<Rightarrow> pm_owner_user_id (pv_prompt v) = Some u)"
        "pq_only_enabled q \<longrightarrow> pm_is_enabled (pv_prompt v)"
        unfolding prompt_filter_def by blast+
      with browse_query_shape[OF Inr[unfolded Some]] show ?thesis by (auto simp: visible_to_def)
    qed
  qed
qed

lemma view_prompt_visible:
  assumes "fst (view_prompt e viewer uid lb) = Inr v"
  shows "visible_to viewer (pv_prompt v)"
proof -
  obtain r lb1 where r: "my_repo e LoadMine (get_prompt_by_uid uid) lb = (r, lb1)" by (cases "my_repo e LoadMine (get_prompt_by_uid uid) lb")
  from assms r obtain p where p: "r = Inr p" by (cases r) (auto simp: view_prompt_def)
  have "pv_prompt v = p \<and> (pm_source p = PromptSourceUser \<longrightarrow> pm_owner_user_id p = Some viewer)"
    using assms r p by (auto simp: view_prompt_def split: if_splits prod.splits sum.splits option.splits)
  then show ?thesis by (cases "pm_source p") (auto simp: visible_to_def)
qed

lemma digests_are_shared:
  assumes "prompts_ok lb" and "list_prompt_digests (Some i) limit lb = Inr (ds, lb')" and "d \<in> set ds"
  shows "\<exists>p \<in> set (lb_prompts lb). pm_id p = dg_id d \<and> pm_uid p = dg_uid d \<and> pm_title p = dg_title d \<and> pm_source p = PromptSourceYouMind"
proof -
  define rows where "rows = sort_key pm_id (filter (\<lambda>p. pm_deleted_at p = None \<and> pm_is_enabled p \<and> pm_category_id p = Some i) (lb_prompts lb))"
  have "ds = map (\<lambda>p. \<lparr>dg_id = pm_id p, dg_uid = pm_uid p, dg_title = pm_title p,
      dg_brief = concat (take prompt_digest_brief_chars (runes (pm_body p)))\<rparr>) (take (nat (if limit \<le> 0 then 5000 else limit)) rows)"
    using assms(2) unfolding list_prompt_digests_def rows_def by (auto split del: if_split)
  with assms(3) obtain p where d: "p \<in> set (take (nat (if limit \<le> 0 then 5000 else limit)) rows)" "pm_id p = dg_id d" "pm_uid p = dg_uid d" "pm_title p = dg_title d" by auto
  from in_set_takeD[OF d(1)] have p: "p \<in> set (lb_prompts lb)" "pm_category_id p = Some i" by (simp_all add: rows_def)
  from assms(1) p(1) have "prompt_ok p" by (simp add: prompts_ok_def)
  with p(2) have "pm_source p = PromptSourceYouMind" by (cases "pm_source p") (auto simp: prompt_ok_def)
  with p d show ?thesis by blast
qed

lemma loaded_own:
  assumes "load_own_prompt e u uid action lb = (Inr p, lb1)"
  shows "pm_source p = PromptSourceUser \<and> pm_owner_user_id p = Some u \<and> p \<in> set (lb_prompts lb1) \<and>
    (\<exists>d. my_repo e LoadMine (get_prompt_by_uid (trim_space uid)) lb = (Inr p, lb1) \<and> lb1 = my_meanwhile e LoadMine lb)"
proof -
  obtain r d where r: "my_repo e LoadMine (get_prompt_by_uid (trim_space uid)) lb = (r, d)"
    by (cases "my_repo e LoadMine (get_prompt_by_uid (trim_space uid)) lb")
  with assms have p: "r = Inr p" "d = lb1" "pm_source p = PromptSourceUser" "pm_owner_user_id p = Some u"
    by (auto simp: load_own_prompt_def Let_def split: if_splits sum.splits)
  from my_repo_Inr[OF r[unfolded p(1)]] have "p \<in> set (lb_prompts d)" "d = my_meanwhile e LoadMine lb"
    by (auto simp: get_prompt_by_uid_def split: option.splits dest!: find_SomeD)
  with p r show ?thesis by blast
qed

lemma load_own_steps: "shared_among e \<Longrightarrow> load_own_prompt e u uid action lb = (r, lb1) \<Longrightarrow> library_steps lb lb1"
proof -
  assume e: "shared_among e" and l: "load_own_prompt e u uid action lb = (r, lb1)"
  obtain r' d where r: "my_repo e LoadMine (get_prompt_by_uid (trim_space uid)) lb = (r', d)"
    by (cases "my_repo e LoadMine (get_prompt_by_uid (trim_space uid)) lb")
  have "library_steps lb d"
    by (rule my_repo_steps[OF e r]) (auto simp: get_prompt_by_uid_def split: option.splits)
  with l r show ?thesis by (auto simp: load_own_prompt_def Let_def split: if_splits sum.splits)
qed

lemma create_my_steps:
  assumes "shared_among e"
  shows "library_steps lb (snd (create_my_prompt e u title body lb))"
proof (cases "normalize_user_prompt_fields title body")
  case (Inr tb)
  obtain t b where tb: "tb = (t, b)" by (cases tb)
  let ?count = "my_repo e CountMine (count_prompts (my_lower e) (my_prompts_query u)) lb"
  obtain rc lb1 where c: "?count = (rc, lb1)" by (cases ?count)
  have one: "library_steps lb lb1" by (rule my_repo_steps[OF assms c]) (auto simp: count_prompts_def)
  let ?wr = "my_repo e CreateMine (create_prompt (my_now e) (new_user_prompt e u t b)) lb1"
  obtain rw lb2 where w: "?wr = (rw, lb2)" by (cases ?wr)
  have "library_steps lb1 lb2" by (rule my_repo_steps[OF assms w]) (blast intro: library_step.create)
  with one have "library_steps lb lb2" by (rule library_runs.R_trans)
  with one Inr tb c w show ?thesis by (auto simp: create_my_prompt_def split: sum.splits)
qed (auto simp: create_my_prompt_def)

lemma update_my_steps:
  assumes "shared_among e" and "prompts_ok lb"
  shows "library_steps lb (snd (update_my_prompt e u uid title body lb))"
proof -
  obtain r lb1 where l: "load_own_prompt e u uid (bytes [228, 191, 174, 230, 148, 185]) lb = (r, lb1)"
    by (cases "load_own_prompt e u uid (bytes [228, 191, 174, 230, 148, 185]) lb")
  have one: "library_steps lb lb1" by (rule load_own_steps[OF assms(1) l])
  show ?thesis
  proof (cases r)
    case (Inr p)
    from loaded_own[OF l[unfolded Inr]] have own: "pm_source p = PromptSourceUser" "pm_owner_user_id p = Some u" "p \<in> set (lb_prompts lb1)" by blast+
    from library_steps_ok[OF one assms(2)] own have cat: "pm_category_id p = None"
      by (auto simp: prompts_ok_def prompt_ok_def split: prompt_source.splits)
    have "library_steps lb1 (snd (my_repo e WriteMine (update_prompt (my_now e) (p\<lparr>pm_title := t, pm_body := b\<rparr>)) lb1))" for t b
    proof (rule my_repo_steps[OF assms(1) prod.collapse[symmetric]])
      fix d a d' assume "update_prompt (my_now e) (p\<lparr>pm_title := t, pm_body := b\<rparr>) d = Inr (a, d')"
      then show "library_steps d d'" using own cat by (intro r_into_rtranclp library_step.update) auto
    qed
    with one have "library_steps lb (snd (my_repo e WriteMine (update_prompt (my_now e) (p\<lparr>pm_title := t, pm_body := b\<rparr>)) lb1))" for t b
      by (rule library_runs.R_trans)
    with one l Inr show ?thesis by (auto simp: update_my_prompt_def split: sum.splits)
  qed (use one l in \<open>auto simp: update_my_prompt_def\<close>)
qed

lemma delete_my_steps:
  assumes "shared_among e"
  shows "library_steps lb (snd (delete_my_prompt e u uid lb))"
proof -
  obtain r lb1 where l: "load_own_prompt e u uid (bytes [229, 136, 160, 233, 153, 164]) lb = (r, lb1)"
    by (cases "load_own_prompt e u uid (bytes [229, 136, 160, 233, 153, 164]) lb")
  have one: "library_steps lb lb1" by (rule load_own_steps[OF assms l])
  have "library_steps lb1 (snd (my_repo e WriteMine (delete_prompt (my_now e) u uid) lb1))"
    by (rule my_repo_steps[OF assms prod.collapse[symmetric]]) (blast intro: library_step.delete)
  with one l show ?thesis by (auto simp: delete_my_prompt_def split: sum.splits)
qed

text \<open>C22: Own prompts stay private. In every library that requests and synchronisations can lead to, and
  whatever others do during a request: a page of the search and a single view show a user nothing but
  shared prompts and the user's own, and the digests of a category, which a language model picks
  from, are of shared prompts only. The requests that write stay among the steps.\<close>

theorem prompts_stay_private:
  assumes "library_steps empty_library lb" and "shared_among e"
  shows "(\<forall>i page. fst (browse_prompts e i lb) = Inr page \<longrightarrow> (\<forall>v \<in> set (pp_items page). visible_to (pi_viewer_user_id i) (pv_prompt v))) \<and>
    (\<forall>viewer uid v. fst (view_prompt e viewer uid lb) = Inr v \<longrightarrow> visible_to viewer (pv_prompt v)) \<and>
    (\<forall>i limit ds lb'. list_prompt_digests (Some i) limit lb = Inr (ds, lb') \<longrightarrow>
       (\<forall>d \<in> set ds. \<exists>p \<in> set (lb_prompts lb). pm_id p = dg_id d \<and> pm_uid p = dg_uid d \<and> pm_title p = dg_title d \<and> pm_source p = PromptSourceYouMind)) \<and>
    (\<forall>u uid title body. library_steps empty_library (snd (create_my_prompt e u title body lb)) \<and>
       library_steps empty_library (snd (update_my_prompt e u uid title body lb)) \<and>
       library_steps empty_library (snd (delete_my_prompt e u uid lb)))"
proof -
  note ok = reachable_prompts_ok[OF assms(1)]
  have "library_steps empty_library (snd (create_my_prompt e u title body lb))"
    "library_steps empty_library (snd (update_my_prompt e u uid title body lb))"
    "library_steps empty_library (snd (delete_my_prompt e u uid lb))" for u uid title body
    using assms(1) create_my_steps[OF assms(2)] update_my_steps[OF assms(2) ok] delete_my_steps[OF assms(2)]
    by (blast intro: library_runs.R_trans)+
  then show ?thesis using browse_prompts_visible view_prompt_visible digests_are_shared[OF ok] by (intro conjI allI impI ballI) blast+
qed

section \<open>Paging\<close>

definition my_quiet :: "my_env \<Rightarrow> bool" where
  "my_quiet e \<longleftrightarrow> (\<forall>p. my_meanwhile e p = (\<lambda>lb. lb)) \<and> (\<forall>p. my_fails e p = None)"

lemma my_repo_quiet: "my_quiet e \<Longrightarrow> f lb = Inr (a, lb) \<Longrightarrow> my_repo e p f lb = (Inr a, lb)"
  by (simp add: my_quiet_def my_repo_def repo_call_def)

text \<open>All matches of a query in the order of the pages.\<close>

definition matches_of :: "(string \<Rightarrow> string) \<Rightarrow> list_prompts_query \<Rightarrow> library \<Rightarrow> prompt list" where
  "matches_of lower q lb = sort_key pm_id (filter (prompt_filter lower q False) (lb_prompts lb))"

text \<open>Following the cursor for at most \<open>n\<close> pages.\<close>

fun page_walk :: "my_env \<Rightarrow> list_prompts_input \<Rightarrow> nat \<Rightarrow> library \<Rightarrow> prompt_view list" where
  "page_walk e i 0 lb = []"
| "page_walk e i (Suc n) lb =
     (case fst (browse_prompts e i lb) of
        Inl err \<Rightarrow> []
      | Inr page \<Rightarrow>
          pp_items page @ (if pp_has_more page then page_walk e (i\<lparr>pi_cursor_id := pp_next_cursor_id page\<rparr>) n lb else []))"

lemma rows_after:
  assumes "prompts_ok lb" and "0 \<le> c"
  shows "sort_key pm_id (filter (prompt_filter lower (q\<lparr>pq_cursor_id := c\<rparr>) True) (lb_prompts lb)) =
    filter (\<lambda>p. c < pm_id p) (matches_of lower q lb)"
proof -
  have "filter (prompt_filter lower (q\<lparr>pq_cursor_id := c\<rparr>) True) (lb_prompts lb) =
      filter (\<lambda>p. c < pm_id p) (filter (prompt_filter lower q False) (lb_prompts lb))"
    unfolding filter_filter
  proof (rule filter_cong[OF refl])
    fix p assume "p \<in> set (lb_prompts lb)"
    with assms have "0 < c \<longrightarrow> c < pm_id p \<Longrightarrow> c < pm_id p" by (auto simp: prompts_ok_def)
    then show "prompt_filter lower (q\<lparr>pq_cursor_id := c\<rparr>) True p \<longleftrightarrow> prompt_filter lower q False p \<and> c < pm_id p"
      unfolding prompt_filter_def by auto
  qed
  then show ?thesis by (simp add: matches_of_def filter_sort)
qed

lemma matches_ordered: "prompts_ok lb \<Longrightarrow> sorted_wrt (\<lambda>a b. pm_id a < pm_id b) (matches_of lower q lb)"
proof -
  assume "prompts_ok lb"
  then have "distinct (map pm_id (matches_of lower q lb))"
    by (auto simp: matches_of_def prompts_ok_def distinct_map inj_on_def)
  moreover have "sorted (map pm_id (matches_of lower q lb))" by (simp add: matches_of_def)
  ultimately have "sorted_wrt (<) (map pm_id (matches_of lower q lb))" by (simp add: strict_sorted_iff)
  then show ?thesis by (simp add: sorted_wrt_map)
qed

lemma after_last:
  fixes f :: "'a \<Rightarrow> 'b :: linorder"
  assumes "sorted_wrt (\<lambda>a b. f a < f b) xs" and "0 < k" and "k < length xs"
  shows "filter (\<lambda>x. f (last (take k xs)) < f x) xs = drop k xs"
proof -
  let ?z = "last (take k xs)"
  have split: "sorted_wrt (\<lambda>a b. f a < f b) (take k xs @ drop k xs)" using assms(1) by simp
  have ne: "take k xs \<noteq> []" using assms(2,3) by auto
  then have front: "take k xs = butlast (take k xs) @ [?z]" by simp
  have "sorted_wrt (\<lambda>a b. f a < f b) (butlast (take k xs) @ [?z])"
    using split unfolding sorted_wrt_append front[symmetric] by blast
  then have "\<forall>x \<in> set (butlast (take k xs)). f x < f ?z" unfolding sorted_wrt_append by simp
  then have "\<forall>x \<in> set (take k xs). \<not> f ?z < f x" by (subst front) auto
  moreover have "\<forall>x \<in> set (drop k xs). f ?z < f x" using split last_in_set[OF ne] unfolding sorted_wrt_append by blast
  ultimately have "filter (\<lambda>x. f ?z < f x) (take k xs) = []" "filter (\<lambda>x. f ?z < f x) (drop k xs) = drop k xs"
    by (simp_all add: filter_empty_conv)
  then have "filter (\<lambda>x. f ?z < f x) (take k xs @ drop k xs) = drop k xs" unfolding filter_append by simp
  then show ?thesis by simp
qed

definition ordered_categories :: "library \<Rightarrow> prompt_category list" where
  "ordered_categories lb = sort_key (\<lambda>c. (pc_sort_order c, pc_id c)) (lb_categories lb)"

lemma browse_query_cursor:
  "browse_query cats (i\<lparr>pi_cursor_id := 0\<rparr>) = Inr (Some q) \<Longrightarrow>
   browse_query cats (i\<lparr>pi_cursor_id := c\<rparr>) = Inr (Some (q\<lparr>pq_cursor_id := c\<rparr>)) \<and> pq_limit q = snd (prompt_probe_limit (pi_limit i))"
  by (auto simp: browse_query_def Let_def split: if_splits option.splits)

lemma probe_limits:
  "0 < fst (prompt_probe_limit l) \<and> clamp_limit (snd (prompt_probe_limit l)) default_page_limit max_page_limit = fst (prompt_probe_limit l) + 1"
  by (auto simp: prompt_probe_limit_def clamp_limit_def Let_def default_page_limit_def max_page_limit_def)

lemma browse_page:
  assumes "my_quiet e" and "browse_query (ordered_categories lb) i = Inr (Some q)" and "pq_limit q = snd (prompt_probe_limit (pi_limit i))"
    and "sz = nat (fst (prompt_probe_limit (pi_limit i)))"
    and "R = sort_key pm_id (filter (prompt_filter (my_lower e) q True) (lb_prompts lb))"
  shows "fst (browse_prompts e i lb) = Inr \<lparr>pp_items = map (new_prompt_view (ordered_categories lb)) (take sz R),
    pp_total = affected (prompt_filter (my_lower e) q False) (lb_prompts lb), pp_has_more = sz < length R,
    pp_next_cursor_id = (if sz < length R then pm_id (last (take sz R)) else 0)\<rparr>"
proof -
  have sz_bounds: "0 < sz" "nat (clamp_limit (pq_limit q) default_page_limit max_page_limit) = sz + 1"
    using probe_limits[of "pi_limit i"] assms(3,4) by auto
  have c: "my_repo e ReadCategories list_categories lb = (Inr (ordered_categories lb), lb)"
    by (rule my_repo_quiet[OF assms(1)]) (simp add: list_categories_def ordered_categories_def)
  have r: "my_repo e ReadPrompts (list_prompts (my_lower e) q) lb = (Inr (take (sz + 1) R), lb)"
    by (rule my_repo_quiet[OF assms(1)]) (simp only: list_prompts_def sz_bounds(2) assms(5))
  have n: "my_repo e CountPrompts (count_prompts (my_lower e) q) lb = (Inr (affected (prompt_filter (my_lower e) q False) (lb_prompts lb)), lb)"
    by (rule my_repo_quiet[OF assms(1)]) (simp only: count_prompts_def)
  have shown: "(if sz < length (take (sz + 1) R) then take sz (take (sz + 1) R) else take (sz + 1) R) = take sz R"
    by (auto simp: min_def)
  have more: "sz < length (take (sz + 1) R) \<longleftrightarrow> sz < length R" by auto
  have ne: "sz < length R \<longrightarrow> take sz R \<noteq> []" using sz_bounds(1) by auto
  show ?thesis
    unfolding browse_prompts_def c r n assms(2) sum.case prod.case option.case assms(4)[symmetric] Let_def shown more
    using ne by simp
qed

lemma page_walk_from:
  assumes "prompts_ok lb" and "my_quiet e" and "browse_query (ordered_categories lb) (i\<lparr>pi_cursor_id := 0\<rparr>) = Inr (Some q)"
  shows "0 \<le> c \<Longrightarrow> length (filter (\<lambda>p. c < pm_id p) (matches_of (my_lower e) q lb)) < n \<Longrightarrow>
    page_walk e (i\<lparr>pi_cursor_id := c\<rparr>) n lb =
      map (new_prompt_view (ordered_categories lb)) (filter (\<lambda>p. c < pm_id p) (matches_of (my_lower e) q lb))"
proof (induction n arbitrary: c)
  case (Suc n)
  let ?M = "matches_of (my_lower e) q lb" and ?size = "nat (fst (prompt_probe_limit (pi_limit i)))"
  define R where "R = filter (\<lambda>p. c < pm_id p) ?M"
  have R: "R = sort_key pm_id (filter (prompt_filter (my_lower e) (q\<lparr>pq_cursor_id := c\<rparr>) True) (lb_prompts lb))"
    unfolding R_def rows_after[OF assms(1) Suc.prems(1)] ..
  note q = browse_query_cursor[OF assms(3), of c]
  note page = browse_page[OF assms(2) conjunct1[OF q], of ?size R]
  have ordered: "sorted_wrt (\<lambda>a b. pm_id a < pm_id b) R" unfolding R_def
    by (rule sorted_wrt_filter[OF matches_ordered[OF assms(1)]])
  show ?case
  proof (cases "?size < length R")
    case False
    with page q R show ?thesis unfolding R_def[symmetric] by simp
  next
    case True
    let ?c = "pm_id (last (take ?size R))"
    have pos: "0 < ?size" using probe_limits[of "pi_limit i"] by simp
    with True have "last (take ?size R) \<in> set R" by (metis in_set_takeD last_in_set length_greater_0_conv length_take less_nat_zero_code min_less_iff_conj not_less_iff_gr_or_eq take_eq_Nil)
    then have c: "c < ?c" by (simp add: R_def)
    have "filter (\<lambda>p. z < pm_id p) ?M = filter (\<lambda>p. z < pm_id p) R" if "c < z" for z
      unfolding R_def filter_filter using that by (intro filter_cong) auto
    from this[OF c] have "filter (\<lambda>p. ?c < pm_id p) ?M = filter (\<lambda>p. ?c < pm_id p) R" .
    also have "\<dots> = drop ?size R" by (rule after_last[OF ordered pos True])
    finally have rest: "filter (\<lambda>p. ?c < pm_id p) ?M = drop ?size R" .
    have "length (drop ?size R) < n" using Suc.prems(2) True pos unfolding R_def[symmetric] by simp
    with Suc.IH[of ?c] rest c Suc.prems(1) have walk: "page_walk e (i\<lparr>pi_cursor_id := ?c\<rparr>) n lb =
        map (new_prompt_view (ordered_categories lb)) (drop ?size R)" by simp
    have "page_walk e (i\<lparr>pi_cursor_id := c\<rparr>) (Suc n) lb =
        map (new_prompt_view (ordered_categories lb)) (take ?size R) @ map (new_prompt_view (ordered_categories lb)) (drop ?size R)"
      using page q R True walk by simp
    then show ?thesis unfolding map_append[symmetric] append_take_drop_id R_def[symmetric] .
  qed
qed simp

text \<open>C23: Following the pages of a search shows every match exactly once. In every library that can be
  reached, and while nobody writes, the pages from the first one on, each from the cursor of the one
  before, are together the matches in the order of their ids; as many pages as there are prompts are
  enough, and every page gives the number of all matches as its total.\<close>

theorem prompt_pages_complete:
  assumes "library_steps empty_library lb" and "my_quiet e" and "length (lb_prompts lb) < n"
    and "browse_query (ordered_categories lb) (i\<lparr>pi_cursor_id := 0\<rparr>) = Inr (Some q)"
  shows "map pv_prompt (page_walk e (i\<lparr>pi_cursor_id := 0\<rparr>) n lb) = matches_of (my_lower e) q lb \<and>
    distinct (matches_of (my_lower e) q lb) \<and>
    set (matches_of (my_lower e) q lb) = {p \<in> set (lb_prompts lb). prompt_filter (my_lower e) q False p} \<and>
    (\<forall>c. \<exists>page. fst (browse_prompts e (i\<lparr>pi_cursor_id := c\<rparr>) lb) = Inr page \<and> pp_total page = int (length (matches_of (my_lower e) q lb)))"
proof -
  let ?M = "matches_of (my_lower e) q lb"
  note ok = reachable_prompts_ok[OF assms(1)]
  have all: "filter (\<lambda>p. 0 < pm_id p) ?M = ?M"
    using ok by (auto simp: filter_id_conv matches_of_def prompts_ok_def)
  have "length ?M \<le> length (lb_prompts lb)" by (simp add: matches_of_def)
  then have "length ?M < n" using assms(3) by (rule le_less_trans)
  with page_walk_from[OF ok assms(2,4), of 0 n] all have "page_walk e (i\<lparr>pi_cursor_id := 0\<rparr>) n lb = map (new_prompt_view (ordered_categories lb)) ?M"
    by simp
  moreover have "distinct (lb_prompts lb)" using ok by (simp add: prompts_ok_def distinct_map)
  then have "distinct ?M" by (simp add: matches_of_def)
  moreover have "prompt_filter (my_lower e) (q\<lparr>pq_cursor_id := c\<rparr>) False = prompt_filter (my_lower e) q False" for c
    by (simp add: prompt_filter_def fun_eq_iff)
  then have "\<exists>page. fst (browse_prompts e (i\<lparr>pi_cursor_id := c\<rparr>) lb) = Inr page \<and> pp_total page = int (length ?M)" for c
    using browse_page[OF assms(2) conjunct1[OF browse_query_cursor[OF assms(4), of c]]] browse_query_cursor[OF assms(4), of c]
    by (simp add: matches_of_def affected_def)
  ultimately show ?thesis by (auto simp: matches_of_def comp_def)
qed

section \<open>Witnesses\<close>

text \<open>User 7 has stored one prompt.\<close>

definition demo_my :: my_env where
  "demo_my = \<lparr>my_now = zero_time, my_uid = ''u1'', my_lower = (\<lambda>s. s), my_meanwhile = (\<lambda>_ lb. lb), my_fails = (\<lambda>_. None)\<rparr>"

definition demo_own_prompt :: prompt where
  "demo_own_prompt = (new_user_prompt demo_my 7 ''T'' ''B'')\<lparr>pm_id := 1\<rparr>"

definition demo_own_library :: library where
  "demo_own_library = empty_library\<lparr>lb_prompts := [demo_own_prompt], lb_next_prompt := 2\<rparr>"

definition demo_search :: list_prompts_input where
  "demo_search = \<lparr>pi_category_slug = [], pi_source = ''user'', pi_viewer_user_id = 7, pi_keyword = [], pi_cursor_id = 0, pi_limit = 20\<rparr>"

definition demo_query :: list_prompts_query where
  "demo_query = \<lparr>pq_category_id = None, pq_keyword = [], pq_source = Some PromptSourceUser, pq_owner_user_id = Some 7,
     pq_only_enabled = True, pq_cursor_id = 0, pq_limit = 21\<rparr>"

lemma demo_own_reachable: "library_steps empty_library demo_own_library"
proof (rule r_into_rtranclp, rule library_step.create)
  show "create_prompt zero_time (new_user_prompt demo_my 7 ''T'' ''B'') empty_library = Inr (demo_own_prompt, demo_own_library)"
    by (simp add: create_prompt_def demo_own_prompt_def demo_own_library_def empty_library_def new_user_prompt_def Let_def
      nullable_string_ptr_def trimmed_ptr_def)
qed

lemma demo_my_env: "my_quiet demo_my" "shared_among demo_my"
  by (simp_all add: my_quiet_def shared_among_def demo_my_def)

lemma demo_browse_query: "browse_query cats (demo_search\<lparr>pi_cursor_id := 0\<rparr>) = Inr (Some demo_query)"
  by (simp add: browse_query_def demo_search_def demo_query_def list_prompt_source_mine_def prompt_probe_limit_def max_page_limit_def)

lemma demo_matches: "matches_of lower demo_query demo_own_library = [demo_own_prompt]"
  by (simp add: matches_of_def demo_own_library_def demo_own_prompt_def prompt_filter_def demo_query_def new_user_prompt_def)

lemma prompt_pages_complete_witness:
  "map pv_prompt (page_walk demo_my (demo_search\<lparr>pi_cursor_id := 0\<rparr>) 2 demo_own_library) = [demo_own_prompt]"
  using prompt_pages_complete[OF demo_own_reachable demo_my_env(1) _ demo_browse_query, of 2]
  by (simp add: demo_matches) (simp add: demo_own_library_def)

lemma prompts_stay_private_witness:
  "\<exists>page. fst (browse_prompts demo_my (demo_search\<lparr>pi_cursor_id := 0\<rparr>) demo_own_library) = Inr page \<and>
     list_all (\<lambda>v. visible_to 7 (pv_prompt v)) (pp_items page)"
proof -
  have "pq_limit demo_query = snd (prompt_probe_limit (pi_limit (demo_search\<lparr>pi_cursor_id := 0\<rparr>)))"
    by (simp add: demo_query_def demo_search_def prompt_probe_limit_def max_page_limit_def)
  from browse_page[OF demo_my_env(1) demo_browse_query this refl refl]
  obtain page where page: "fst (browse_prompts demo_my (demo_search\<lparr>pi_cursor_id := 0\<rparr>) demo_own_library) = Inr page" by blast
  have "pi_viewer_user_id (demo_search\<lparr>pi_cursor_id := 0\<rparr>) = 7" by (simp add: demo_search_def)
  with prompts_stay_private[OF demo_own_reachable demo_my_env(2)] page
  have "list_all (\<lambda>v. visible_to 7 (pv_prompt v)) (pp_items page)" unfolding list_all_iff by metis
  with page show ?thesis by blast
qed

end
