(* ===== verification/Spec2Isabelle.thy ===== *)
theory Spec2Isabelle
  imports Job_Guarantees Queue_Guarantees Billing_Guarantees Image_Pipeline Billing_Id Ratio Settlement_Guarantees Worker_Guarantees Service_Guarantees
    Object_Store_Guarantees Asset_Guarantees Cleanup_Guarantees Upscale_Guarantees Word_Check_Guarantees Suggest_Cache_Guarantees
    Prompt_Convert_Guarantees Prompt_Sync_Guarantees Prompt_Library_Guarantees
begin

text \<open>
  A model of the designkit, the batch image generator under \<open>src/backend/internal/designkit\<close>, and the
  theorems that make it correct.

  \<^bold>\<open>The program.\<close> A customer picks product images and prompts; the service (\<open>service/job*.go\<close>) expands
  them into a batch, freezes its price on the customer's balance and puts it into a queue in the
  database. Workers (\<open>worker/\<close>) claim one item at a time under a lease, have the image service prepare
  the product image, call the generating gateway under a request id of their own, store the results
  and write them back. When all items are done the batch is settled: the settler looks up what the
  gateway charged under each of the request ids, bills the items, releases the freeze and closes the
  batch. A reaper frees batches whose worker died. All of them work on the tables of
  \<open>migrations/9001_designkit_init.sql\<close> through the repository (\<open>repository/\<close>). Beside the batches, customers
  upload product photos, which are kept as files in an object store (\<open>storage/\<close>) and as rows
  (\<open>service/asset.go\<close>), may have a photo enlarged by one background worker (\<open>service/upscale.go\<close>), and old
  pictures are cleaned up in sweeps (\<open>service/cleanup.go\<close>). Titles can be checked for forbidden words
  (\<open>wordcheck/\<close>), and a language model suggests prompts, whose answers are cached. A library of prompts is
  kept in step with an open one on the web (\<open>service/inspiration*.go\<close>).

  \<^bold>\<open>The theories.\<close>
  \<^item> \<open>DK_Prelude\<close>: Go's 64-bit integers, the parts of \<open>strconv\<close>, \<open>strings\<close> and \<open>fmt\<close> the code uses, and
    tables as lists of rows with \<open>UPDATE\<close>, \<open>COUNT\<close> and \<open>SUM\<close>; the collection \<open>table_simps\<close>.
  \<^item> The domain package, file by file: \<open>Money\<close> (\<open>money.go\<close>), \<open>Go_Errors\<close> (\<open>errors.go\<close>, errors with
    \<open>errors.Is\<close> and \<open>errors.As\<close>), \<open>Billing_Id\<close> (\<open>billing_request_id.go\<close>, \<open>worker/uid.go\<close>), \<open>Ratio\<close>,
    \<open>Status\<close> (the two state machines), \<open>Entities\<close> (\<open>entity.go\<close> and the parameters of \<open>port.go\<close>).
  \<^item> \<open>Database\<close> is the state: a record with one list of rows per table and the counters of its serial
    keys. \<open>Job_Repo\<close> and \<open>Billing_Repo\<close> are the methods of the repository, one function each: a
    transaction is a function from a database to an error or a value and a new database, and every SQL
    statement is the update of the rows it selects.
  \<^item> \<open>Counters\<close>, \<open>Invariants\<close>: the invariant \<open>inv\<close> (schema, items, counters of a job, life of a job,
    holds) and its preservation by every repository method.
  \<^item> \<open>Lifecycle\<close>: the step relation with one rule per repository method and one for the rest of the
    platform, reachable states, and what holds in all of them; \<open>Scenario\<close> is a concrete run evaluated in
    the kernel, from which the witnesses take their inputs.
  \<^item> \<open>Repo_Call\<close>, \<open>Interleaving\<close>, \<open>Item_History\<close>: a repository call of a concurrent process and the
    relations that runs of steps stay in.
  \<^item> \<open>Worker_Policy\<close> (\<open>worker/errors.go\<close>, \<open>config.go\<close>, \<open>pool.go\<close>), \<open>Image_Pipeline\<close> (\<open>worker/process.go\<close>),
    \<open>Worker_Queue\<close> (\<open>worker/queue.go\<close>), \<open>Settlement\<close> (\<open>worker/settlement.go\<close>, \<open>reaper.go\<close>), \<open>Job_Service\<close>
    (\<open>service/job.go\<close>, \<open>job_create.go\<close>, \<open>job_query.go\<close>): the processes above the repository.
  \<^item> \<open>Settings\<close>: JSON values and the settings several services read.
  \<^item> \<open>Object_Store\<close> (\<open>storage/key.go\<close>, \<open>local.go\<close>): keys, and the local store on a file system with
    directories, files and symbolic links, in which every system call may fail.
  \<^item> \<open>Assets\<close> (\<open>repository/asset_repo.go\<close>, \<open>service/asset.go\<close>, \<open>asset_whitebg.go\<close>), \<open>Cleanup\<close>
    (\<open>repository/cleanup_repo.go\<close>, \<open>service/cleanup.go\<close>), \<open>Upscale\<close> (\<open>repository/upscale_repo.go\<close>,
    \<open>service/upscale.go\<close>): photos, the clean-up and the enlarging, each over its tables and the store.
  \<^item> \<open>Utf8\<close>: Go's reading of a string as UTF-8. \<open>Word_Check\<close> (\<open>wordcheck/wordcheck.go\<close>, \<open>platform.go\<close>,
    \<open>handler/contentcheck_handler.go\<close>): the check of titles for words the law forbids. \<open>Suggest_Cache\<close>
    (\<open>service/prompt_suggest_cache.go\<close>, and the choice of photos in \<open>prompt_suggest.go\<close>): the cache of prompt
    suggestions with its key, its list of elements and its map.
  \<^item> \<open>Prompt_Convert\<close> (\<open>service/inspiration_convert.go\<close>): the conversion of a prompt of the open library, with
    the part of package \<open>regexp\<close> it uses. \<open>Prompt_Sync\<close> (\<open>service/inspiration_source.go\<close>,
    \<open>inspiration_sync.go\<close>, their statements in \<open>repository/prompt_repo.go\<close> and \<open>sync_setting_repo.go\<close>): the
    tables of prompts, categories and runs, the download through a proxy and a round. \<open>Prompt_Library\<close>
    (the rest of \<open>prompt_repo.go\<close>, \<open>service/user_prompt.go\<close>, the prompt adapter of \<open>module.go\<close>): searching, paging
    and the prompts users store for themselves.
  \<^item> \<open>Job_Guarantees\<close>, \<open>Queue_Guarantees\<close>, \<open>Billing_Guarantees\<close>, \<open>Settlement_Guarantees\<close>,
    \<open>Worker_Guarantees\<close>, \<open>Service_Guarantees\<close>, \<open>Object_Store_Guarantees\<close>, \<open>Asset_Guarantees\<close>,
    \<open>Cleanup_Guarantees\<close>, \<open>Upscale_Guarantees\<close>, \<open>Word_Check_Guarantees\<close>, \<open>Suggest_Cache_Guarantees\<close>,
    \<open>Prompt_Convert_Guarantees\<close>, \<open>Prompt_Sync_Guarantees\<close>, \<open>Prompt_Library_Guarantees\<close>: the properties.

  \<^bold>\<open>Concurrency.\<close> PostgreSQL serialises the transactions that touch the same rows, so a transaction is
  atomic here and \<open>SKIP LOCKED\<close> is an arbitrary set of locked rows. A worker, a settler or a request of
  the service is several transactions: it gets an environment that says, for each point at which it
  calls the repository, what the others did before the call (a function on databases) and whether the
  call fails. Theorems about one process quantify over all environments whose interference consists of
  repository steps (\<open>interferes\<close>), so any number of workers, settlers, customers and crashes is
  covered. The refinement theorems show that each process stays among the steps; the reachable states
  of the step relation are therefore those of the whole program.

  \<^bold>\<open>Interfaces.\<close> The locale \<open>run_relation\<close> states what a relation between databases must satisfy for a
  process made of repository calls to stay in it; it is interpreted with the runs of the step relation
  (\<open>seen_runs\<close>), with the growth of items (\<open>item_runs\<close>) and with the steps of the prompt library
  (\<open>library_runs\<close>). The locale \<open>attempt_queue\<close> is the contract
  between the queue and its workers under which no attempt is handed out twice; it is interpreted with
  the item table (\<open>repo_queue\<close>). The locale \<open>object_store_laws\<close> says what a store that is a map from keys to
  bytes promises, failing calls included; the photo service and the clean-up are proved over it, and its
  interpretation \<open>local\<close> is the local store. The locale \<open>sweep_loop\<close> gives the end of a loop whose rounds
  make something smaller, and the relation its rounds stay in; both sweeps of the clean-up are
  interpreted twice, among other processes and alone.

  \<^bold>\<open>Parameters.\<close> The decimal package \<open>shopspring/decimal\<close> is the record \<open>decimal_lib\<close> with its documented
  rounding laws \<open>decimal_ok\<close>; \<open>dec_ref\<close> is an instance that satisfies them. The gateway, the image
  service, the object store, the clock and the random bits are functions in the environments. Nothing
  is assumed about them beyond what a theorem states.

  \<^bold>\<open>What is shown.\<close> Every reachable database is well typed, the counters of a batch are exact, a settled
  batch is final and complete (its actual cost, its counters and its released hold). Admission never
  freezes more than the balance; submissions are complete, and idempotent as long as the batch
  carries its key; a failed one that is not disturbed reserves nothing. Claims are exclusive and counted; calls of the gateway stay
  within the attempts of an item and no charge is billed twice; the last item opens the settlement, and
  only one finalisation of a batch wins. The settler, left to itself, bills every attempt, flags a missing bill and
  closes every batch within a bounded number of its rounds, back-off and limit included; billing an item
  again changes nothing. Billing ids round-trip and are injective even when truncated; pages of a listing
  are complete and disjoint.

  The local store never leaves its root, whatever links are planted below it, and is a map from keys to
  bytes whatever call fails. An upload that succeeds has stored exactly the bytes sent, one that
  fails leaves no file behind unless deleting it failed too, the same photo is stored once, and no picture is generated from a photo that could not be padded. A
  clean-up run ends; alone, it deletes expired pictures only, and none at all unless it is switched on
  with valid days. That its check of unfinished batches is not repeated before the deletion is shown by
  a run in which a new batch loses its photo. No photo is ever queued twice for enlarging, no waiting
  task is forgotten without a failing call, and the service's functions, left alone at the tables, are runs of
  that protocol, whose steps may fail.

  The word check reports every occurrence of a forbidden word within some hit, in characters although it
  scans bytes; every hit is an occurrence, and none lies within another. The cache of suggestions
  implements an abstract LRU list; it answers with the latest result of the very request within its time
  to live, and an answer in use is not dropped. Its key determines the request up to the order of its
  photos, but only the first three photos are sent, so two orders of more than three share an entry although
  other photos are sent.

  The conversion of a prompt keeps the text around its arguments and gives every name a placeholder of
  its own. A round of synchronisation that succeeds imports exactly what it downloaded, each prompt once,
  and leaves the users' own prompts alone; a second one writes nothing. A chosen proxy is never bypassed,
  and a round that finds another one running leaves only a record that does not hide it. In every library
  that requests and rounds lead to, nobody sees the own prompts of another user, and the pages of a search
  show every match once.

  \<^bold>\<open>Termination and fuel.\<close> All definitions are total. Loops over rows, items and steps are recursion on
  lists. The unbounded loop of a worker is \<open>run_item_worker\<close>, a recursion on the list of rounds it
  makes; the retry loop of the object store counts its attempts down from three; the settler's rounds are
  a fold over the list of their environments, and the number after which a batch is closed is the configured one. The sweeps of the
  clean-up have no bound in the code: they are partial functions, and that they return is a theorem. The
  walk along symbolic links has fuel, the 40 links after which the system gives up. No theorem has the form
  "if it returns".

  \<^bold>\<open>Not modelled.\<close> Goroutines, tickers, contexts and signals appear only as interference and failing
  calls. HTTP decoding and rendering, log lines, row scanning and the wiring of the components are left
  out, as are the repository of chats, the
  HTTP clients of the image and language services, the timers of the prompt library, and the conversations of a
  prompt suggestion. The rest of the repository, the
  gateway platform in which the designkit is embedded, is not part of the model: the designkit uses its
  user balance, its usage log and its generating endpoint, which are state and parameters here.
\<close>

end
